(* ===== verification/Py_Base.thy ===== *)
theory Py_Base
  imports Complex_Main "HOL-Library.AList"
begin

text \<open>
  Prelude.  What the components share of Python: exceptions as values, the string methods
  \<open>upper\<close> and \<open>strip\<close> the code normalises keys with, and dictionaries.

  \<^item> A call that may raise returns \<open>py_exc + 'a\<close>; \<open>Inl\<close> is the exception's class (the message
    text is dropped).
  \<^item> A \<open>dict\<close> whose iteration order the code can observe is an association list with distinct
    keys: \<open>AList.update\<close> replaces in place or appends, as \<open>d[k] = v\<close> does, and \<open>AList.delete\<close> is
    \<open>d.pop(k, None)\<close>.  A \<open>dict\<close> only ever looked up is a map.
  \<^item> A \<open>float\<close> is modelled by the rational number it denotes; see theory \<open>Py_Decimal\<close> for
    \<open>decimal.Decimal\<close>.  A time (\<open>time.time()\<close>, \<open>time.monotonic()\<close> or an aware UTC \<open>datetime\<close>) is
    its number of seconds, and the clock reading of a call is an argument of its model.
\<close>

named_theorems dict_simps "lookup and update equations of dictionaries"
named_theorems str_simps "Python string normalisation"

type_synonym time = rat
type_synonym pyfloat = rat

datatype py_exc =
    ValueError
  | KeyError
  | IndexError
  | TypeError
  | AttributeError
  | RuntimeError
  | OSError
  | DecimalInvalidOperation
  | DecimalDivisionByZero
  | OtherException

text \<open>A call under \<open>try: ... except Exception\<close>: the value, or the fallback's.\<close>

definition or_else :: "py_exc + 'a \<Rightarrow> 'a \<Rightarrow> 'a" where
  "or_else r d = (case r of Inl _ \<Rightarrow> d | Inr v \<Rightarrow> v)"

lemma or_else_simps [simp]: "or_else (Inl e) d = d" "or_else (Inr v) d = v"
  by (simp_all add: or_else_def)

text \<open>\<open>d.get(k, x)\<close>, and \<open>v if v is not None else x\<close>.\<close>

definition value_or :: "'a \<Rightarrow> 'a option \<Rightarrow> 'a" where
  "value_or d x = (case x of Some v \<Rightarrow> v | None \<Rightarrow> d)"

lemma value_or_simps [simp]: "value_or d None = d" "value_or d (Some v) = v"
  by (simp_all add: value_or_def)

definition res_bind :: "py_exc + 'a \<Rightarrow> ('a \<Rightarrow> py_exc + 'b) \<Rightarrow> py_exc + 'b" where
  "res_bind r f = (case r of Inl e \<Rightarrow> Inl e | Inr v \<Rightarrow> f v)"

lemma res_bind_simps [simp]:
  "res_bind (Inl e) f = Inl e"
  "res_bind (Inr v) f = f v"
  by (simp_all add: res_bind_def)

lemma res_bind_Inr_iff: "res_bind r f = Inr y \<longleftrightarrow> (\<exists>x. r = Inr x \<and> f x = Inr y)"
  by (cases r) simp_all

lemma res_bind_Inl_iff:
  "res_bind r f = Inl e \<longleftrightarrow> r = Inl e \<or> (\<exists>x. r = Inr x \<and> f x = Inl e)"
  by (cases r) simp_all

lemma res_bind_cong [fundef_cong]:
  "r = r' \<Longrightarrow> (\<And>x. r' = Inr x \<Longrightarrow> f x = g x) \<Longrightarrow> res_bind r f = res_bind r' g"
  by (cases r') simp_all

section \<open>Strings\<close>

text \<open>
  \<open>str.upper\<close>, \<open>str.lower\<close> and \<open>str.strip\<close> on the ASCII range, which is what BICs, currency codes, rail names
  and rejection codes are made of.
\<close>

definition upper_char :: "char \<Rightarrow> char" where
  "upper_char c =
     (let n = of_char c :: nat in if 97 \<le> n \<and> n \<le> 122 then char_of (n - 32) else c)"

definition py_upper :: "string \<Rightarrow> string" where
  "py_upper s = map upper_char s"

definition lower_char :: "char \<Rightarrow> char" where
  "lower_char c = (let n = of_char c :: nat in if 65 \<le> n \<and> n \<le> 90 then char_of (n + 32) else c)"

definition py_lower :: "string \<Rightarrow> string" where
  "py_lower s = map lower_char s"

definition py_space :: "char \<Rightarrow> bool" where
  "py_space c \<longleftrightarrow> (let n = of_char c :: nat in n = 32 \<or> (9 \<le> n \<and> n \<le> 13) \<or> (28 \<le> n \<and> n \<le> 31))"

definition py_strip :: "string \<Rightarrow> string" where
  "py_strip s = rev (dropWhile py_space (rev (dropWhile py_space s)))"

lemma upper_char_idem [simp]: "upper_char (upper_char c) = upper_char c"
proof -
  have "n mod 256 - 32 < (256::nat)" for n :: nat
  proof -
    have "n mod 256 < (256::nat)" by simp
    then show ?thesis by linarith
  qed
  then show ?thesis
    by (auto simp: upper_char_def Let_def)
qed

lemma py_upper_idem [simp]: "py_upper (py_upper s) = py_upper s"
  by (simp add: py_upper_def o_def)

lemma py_upper_Nil [simp]: "py_upper [] = []" "py_upper s = [] \<longleftrightarrow> s = []"
  by (simp_all add: py_upper_def)

lemma length_py_upper [simp]: "length (py_upper s) = length s"
  by (simp add: py_upper_def)

lemma py_strip_Nil [simp]: "py_strip [] = []"
  by (simp add: py_strip_def)

lemma upper_char_space [simp]: "py_space (upper_char c) = py_space c"
proof -
  have "of_char c < (256::nat)" by simp
  then show ?thesis by (auto simp: upper_char_def py_space_def Let_def)
qed

lemma py_strip_idem [simp]: "py_strip (py_strip s) = py_strip s"
proof -
  define t where "t = dropWhile py_space (rev (dropWhile py_space s))"
  have hd_t: "t = [] \<or> \<not> py_space (hd t)"
    unfolding t_def using hd_dropWhile by blast
  have hd_rev: "t = [] \<or> \<not> py_space (hd (rev t))"
  proof (cases "t = []")
    case False
    then have ne: "rev (dropWhile py_space s) \<noteq> []"
      using t_def by force
    have "last t = last (rev (dropWhile py_space s))"
      unfolding t_def
      by (metis False t_def append_is_Nil_conv last_append takeWhile_dropWhile_id)
    also have "\<dots> = hd (dropWhile py_space s)"
      using ne by (simp add: last_rev)
    finally have "last t = hd (dropWhile py_space s)" .
    moreover have "\<not> py_space (hd (dropWhile py_space s))"
      using ne hd_dropWhile [of py_space s] by (metis dropWhile_eq_Nil_conv rev_is_Nil_conv)
    ultimately show ?thesis using False by (simp add: hd_rev)
  qed simp
  have "dropWhile py_space (rev t) = rev t"
    using hd_rev by (cases "rev t") auto
  moreover have "dropWhile py_space t = t"
    using hd_t by (cases t) auto
  ultimately show ?thesis
    by (simp add: py_strip_def t_def)
qed

lemma dropWhile_map_upper:
  "dropWhile py_space (map upper_char s) = map upper_char (dropWhile py_space s)"
  by (induction s) auto

lemma strip_upper: "py_strip (py_upper s) = py_upper (py_strip s)"
  by (simp add: py_strip_def py_upper_def dropWhile_map_upper rev_map)

section \<open>Dictionaries\<close>

type_synonym ('k, 'v) dict = "('k \<times> 'v) list"

abbreviation dget :: "('k, 'v) dict \<Rightarrow> 'k \<rightharpoonup> 'v" where
  "dget \<equiv> map_of"

abbreviation dset :: "'k \<Rightarrow> 'v \<Rightarrow> ('k, 'v) dict \<Rightarrow> ('k, 'v) dict" where
  "dset \<equiv> AList.update"

abbreviation dpop :: "'k \<Rightarrow> ('k, 'v) dict \<Rightarrow> ('k, 'v) dict" where
  "dpop \<equiv> AList.delete"

definition dkeys :: "('k, 'v) dict \<Rightarrow> 'k list" where
  "dkeys d = map fst d"

definition dvalues :: "('k, 'v) dict \<Rightarrow> 'v list" where
  "dvalues d = map snd d"

definition dict_ok :: "('k, 'v) dict \<Rightarrow> bool" where
  "dict_ok d \<longleftrightarrow> distinct (map fst d)"

lemma dget_dset [dict_simps]: "dget (dset k v d) = (dget d)(k \<mapsto> v)"
  by (simp add: update_conv')

lemma dget_dpop [dict_simps]: "dget (dpop k d) = (dget d)(k := None)"
  by (simp add: delete_conv')

lemma dict_ok_Nil [simp, intro]: "dict_ok []"
  by (simp add: dict_ok_def)

lemma dict_ok_dset [simp, intro]: "dict_ok d \<Longrightarrow> dict_ok (dset k v d)"
  by (simp add: dict_ok_def distinct_update)

lemma dict_ok_dpop [simp, intro]: "dict_ok d \<Longrightarrow> dict_ok (dpop k d)"
  by (simp add: dict_ok_def distinct_delete)

lemma dict_ok_filter [simp, intro]: "dict_ok d \<Longrightarrow> dict_ok (filter P d)"
  unfolding dict_ok_def by (induction d) auto

lemma dget_Some_mem: "dget d k = Some v \<Longrightarrow> (k, v) \<in> set d"
  by (rule map_of_SomeD)

lemma mem_dget: "dict_ok d \<Longrightarrow> (k, v) \<in> set d \<longleftrightarrow> dget d k = Some v"
  by (auto simp: dict_ok_def dest: map_of_SomeD)

lemma set_dvalues: "dict_ok d \<Longrightarrow> v \<in> set (dvalues d) \<longleftrightarrow> (\<exists>k. dget d k = Some v)"
  by (force simp: dvalues_def mem_dget [symmetric])

lemma dget_filter:
  "dict_ok d \<Longrightarrow>
   dget (filter P d) k = (case dget d k of None \<Rightarrow> None | Some v \<Rightarrow> if P (k, v) then Some v else None)"
  unfolding dict_ok_def
  by (induction d) (auto split: option.splits simp: map_of_eq_None_iff image_iff)

lemma dom_dget: "dom (dget d) = set (dkeys d)"
  by (simp add: dkeys_def dom_map_of_conv_image_fst)

lemma dset_fresh: "dget d k = None \<Longrightarrow> dset k v d = d @ [(k, v)]"
  by (induction d) (auto split: if_splits)

lemma length_dpop: "dget d k \<noteq> None \<Longrightarrow> length (dpop k d) < length d"
proof (induction d)
  case (Cons p d)
  have "length (dpop k d) \<le> length d" by (rule length_delete_le)
  with Cons show ?case
    by (cases p) (auto simp: delete_simps split: if_splits)
qed simp

end
