(* ===== verification/Py_Decimal.thy ===== *)
theory Py_Decimal
  imports Py_Base
begin

text \<open>
  \<open>decimal.Decimal\<close> under the default context: precision 28, rounding half even.  A finite decimal is
  modelled by the rational it denotes; an operation is the exact one followed by rounding to 28
  significant digits (\<open>ctx\<close>).  \<open>quantize\<close> rounds half up to a number of decimal places and raises
  \<open>decimal.InvalidOperation\<close> when the result needs more than 28 digits.  The exponent limits of the
  context (\<open>Emin\<close>, \<open>Emax\<close> of about a million) are far from any amount the program handles and are
  not modelled; neither are NaN and the infinities.

  Shown here: \<open>ctx\<close> is monotone, odd, exact on every decimal of at most 28 digits and within a
  relative error of \<open>5 * 10 ^ (-28)\<close> elsewhere; \<open>quantize\<close> is monotone and within half a unit.
\<close>

named_theorems dec_defs "definitions of the decimal operations"

type_synonym dec = rat

section \<open>The decimal exponent\<close>

text \<open>\<open>num_digits n\<close> is the number of decimal digits of \<open>n > 0\<close>.\<close>

function num_digits :: "int \<Rightarrow> int" where
  "num_digits n = (if n < 10 then 1 else 1 + num_digits (n div 10))"
  by pat_completeness auto
termination
  by (relation "measure nat") auto

declare num_digits.simps [simp del]

lemma num_digits_ge_1: "1 \<le> num_digits n"
proof (induction n rule: num_digits.induct)
  case (1 n)
  then show ?case by (subst num_digits.simps) auto
qed

lemma powi_nonneg_int: "0 \<le> k \<Longrightarrow> (10 :: rat) powi k = of_int (10 ^ nat k)"
  by (simp add: power_int_def)

lemma num_digits_bounds:
  assumes "0 < n"
  shows "10 ^ nat (num_digits n - 1) \<le> n \<and> n < 10 ^ nat (num_digits n)"
  using assms
proof (induction n rule: num_digits.induct)
  case (1 n)
  show ?case
  proof (cases "n < 10")
    case True
    with 1 show ?thesis by (simp add: num_digits.simps [of n])
  next
    case False
    define d where "d = num_digits (n div 10)"
    have d1: "1 \<le> d" by (simp add: d_def num_digits_ge_1)
    have IH: "10 ^ nat (d - 1) \<le> n div 10" "n div 10 < 10 ^ nat d"
      using 1 False by (simp_all add: d_def)
    have nd: "num_digits n = 1 + d"
      using False by (simp add: num_digits.simps [of n] d_def)
    have p: "(10 :: int) ^ nat d = 10 * 10 ^ nat (d - 1)"
      using d1 by (simp add: power_Suc [symmetric] Suc_nat_eq_nat_zadd1 del: power_Suc)
    have q: "(10 :: int) ^ nat (1 + d) = 10 * 10 ^ nat d"
      using d1 by (simp add: nat_add_distrib)
    have "10 * (n div 10) \<le> n" "n < 10 * (n div 10) + 10" by linarith+
    with IH show ?thesis unfolding nd q
      by (simp add: p)
  qed
qed

text \<open>
  \<open>dec_adj x\<close> is the exponent of the leading digit of \<open>x > 0\<close> (\<open>Decimal.adjusted()\<close>).  Below 1 it is
  found from the reciprocal.
\<close>

definition dec_adj :: "rat \<Rightarrow> int" where
  "dec_adj x =
     (if 1 \<le> x then num_digits \<lfloor>x\<rfloor> - 1
      else - num_digits (\<lceil>1 / x\<rceil> - 1))"

lemma dec_adj_ge_1:
  assumes "1 \<le> x"
  shows "10 powi dec_adj x \<le> x" "x < 10 powi (dec_adj x + 1)"
proof -
  define d where "d = num_digits \<lfloor>x\<rfloor>"
  have pos: "0 < \<lfloor>x\<rfloor>" using assms by linarith
  have d1: "1 \<le> d" by (simp add: d_def num_digits_ge_1)
  from num_digits_bounds [OF pos]
  have b: "10 ^ nat (d - 1) \<le> \<lfloor>x\<rfloor>" "\<lfloor>x\<rfloor> < 10 ^ nat d" by (simp_all add: d_def)
  have e: "dec_adj x = d - 1" using assms by (simp add: dec_adj_def d_def)
  have "of_int (10 ^ nat (d - 1)) \<le> x" using b(1) by linarith
  then show "10 powi dec_adj x \<le> x" using d1 by (simp add: e powi_nonneg_int)
  have "x < of_int (10 ^ nat d)" using b(2) by linarith
  then show "x < 10 powi (dec_adj x + 1)" using d1 by (simp add: e powi_nonneg_int)
qed

lemma dec_adj_lt_1:
  assumes "0 < x" "x < 1"
  shows "10 powi dec_adj x \<le> x" "x < 10 powi (dec_adj x + 1)"
proof -
  define m where "m = \<lceil>1 / x\<rceil> - 1"
  define d where "d = num_digits m"
  have r: "1 < 1 / x" using assms by simp
  have mpos: "0 < m" unfolding m_def using r by linarith
  have d1: "1 \<le> d" by (simp add: d_def num_digits_ge_1)
  from num_digits_bounds [OF mpos]
  have b: "10 ^ nat (d - 1) \<le> m" "m < 10 ^ nat d" by (simp_all add: d_def)
  have e: "dec_adj x = - d" using assms by (simp add: dec_adj_def d_def m_def)
  have "\<lceil>1 / x\<rceil> \<le> 10 ^ nat d" using b(2) by (simp add: m_def)
  then have "1 / x \<le> of_int (10 ^ nat d)" by linarith
  then have "1 / x \<le> 10 powi d" using d1 by (simp add: powi_nonneg_int)
  then have "1 \<le> x * 10 powi d"
    using assms(1) by (simp add: divide_le_eq mult.commute)
  moreover have "(0 :: rat) < 10 powi d" by simp
  ultimately have "1 / 10 powi d \<le> x" by (simp add: divide_le_eq)
  then show "10 powi dec_adj x \<le> x" by (simp add: e power_int_minus inverse_eq_divide)
  have "10 ^ nat (d - 1) < \<lceil>1 / x\<rceil>" using b(1) by (simp add: m_def)
  then have "of_int (10 ^ nat (d - 1)) < 1 / x" by (simp only: less_ceiling_iff)
  then have "10 powi (d - 1) < 1 / x" using d1 by (simp add: powi_nonneg_int)
  then have "x * 10 powi (d - 1) < 1"
    using assms(1) by (simp add: less_divide_eq mult.commute)
  moreover have "(0 :: rat) < 10 powi (d - 1)" by simp
  ultimately have "x < 1 / 10 powi (d - 1)" by (simp add: less_divide_eq)
  moreover have "(10 :: rat) powi (dec_adj x + 1) = 1 / 10 powi (d - 1)"
    by (simp add: e power_int_minus [symmetric] inverse_eq_divide [symmetric])
  ultimately show "x < 10 powi (dec_adj x + 1)" by simp
qed

lemma dec_adj_bounds:
  assumes "0 < x"
  shows "10 powi dec_adj x \<le> x" "x < 10 powi (dec_adj x + 1)"
  using dec_adj_ge_1 [of x] dec_adj_lt_1 [of x] assms by (cases "1 \<le> x"; force)+

lemma powi_less_iff: "(10 :: rat) powi a < 10 powi b \<longleftrightarrow> a < b"
proof
  assume "(10 :: rat) powi a < 10 powi b"
  then show "a < b" using power_int_increasing [of b a "10 :: rat"] by (cases "a < b") simp_all
next
  assume "a < b"
  then show "(10 :: rat) powi a < 10 powi b" by (rule power_int_strict_increasing) simp
qed

lemma dec_adj_mono:
  assumes "0 < x" "x \<le> y"
  shows "dec_adj x \<le> dec_adj y"
proof -
  have "10 powi dec_adj x < (10 :: rat) powi (dec_adj y + 1)"
    using dec_adj_bounds [of x] dec_adj_bounds [of y] assms by linarith
  then show ?thesis by (simp add: powi_less_iff)
qed

section \<open>Rounding to 28 significant digits\<close>

definition round_half_even :: "rat \<Rightarrow> int" where
  "round_half_even x =
     (let f = \<lfloor>x\<rfloor>; r = x - of_int f
      in if r < 1 / 2 then f
         else if 1 / 2 < r then f + 1
         else if even f then f else f + 1)"

lemma round_half_even_int [simp]: "round_half_even (of_int k) = k"
  by (simp add: round_half_even_def Let_def)

lemma round_half_even_error: "\<bar>of_int (round_half_even x) - x\<bar> \<le> 1 / 2"
proof -
  have "of_int \<lfloor>x\<rfloor> \<le> x" "x < of_int \<lfloor>x\<rfloor> + 1" by linarith+
  then show ?thesis by (auto simp: round_half_even_def Let_def abs_le_iff)
qed

lemma round_half_even_mono:
  assumes "x \<le> y"
  shows "round_half_even x \<le> round_half_even y"
proof (cases "\<lfloor>x\<rfloor> = \<lfloor>y\<rfloor>")
  case True
  with assms show ?thesis by (simp add: round_half_even_def Let_def)
next
  case False
  with assms have "\<lfloor>x\<rfloor> + 1 \<le> \<lfloor>y\<rfloor>" by linarith
  moreover have "round_half_even x \<le> \<lfloor>x\<rfloor> + 1" "\<lfloor>y\<rfloor> \<le> round_half_even y"
    by (simp_all add: round_half_even_def Let_def)
  ultimately show ?thesis by linarith
qed

definition ctx_pos :: "rat \<Rightarrow> rat" where
  "ctx_pos x =
     of_int (round_half_even (x * 10 powi (27 - dec_adj x))) * 10 powi (dec_adj x - 27)"

definition ctx :: "rat \<Rightarrow> dec" where
  "ctx x = (if x = 0 then 0 else if 0 < x then ctx_pos x else - ctx_pos (- x))"

lemma ctx_0 [simp]: "ctx 0 = 0"
  by (simp add: ctx_def)

lemma ctx_minus: "ctx (- x) = - ctx x"
  by (simp add: ctx_def)

lemma scaled_bounds:
  assumes "0 < x"
  shows "10 ^ 27 \<le> x * 10 powi (27 - dec_adj x)" "x * 10 powi (27 - dec_adj x) < 10 ^ 28"
proof -
  define a where "a = dec_adj x"
  have b: "10 powi a \<le> x" "x < 10 powi (a + 1)"
    using dec_adj_bounds [OF assms] by (simp_all add: a_def)
  have p: "(0 :: rat) < 10 powi (27 - a)" by simp
  have "(10 :: rat) powi a * 10 powi (27 - a) = 10 powi 27"
    by (simp add: power_int_add [symmetric])
  then have e1: "(10 :: rat) powi a * 10 powi (27 - a) = 10 ^ 27" by simp
  have "(10 :: rat) powi (a + 1) * 10 powi (27 - a) = 10 powi 28"
    by (simp add: power_int_add [symmetric])
  then have e2: "(10 :: rat) powi (a + 1) * 10 powi (27 - a) = 10 ^ 28" by simp
  have "10 powi a * 10 powi (27 - a) \<le> x * 10 powi (27 - a)"
    by (rule mult_right_mono [OF b(1)]) simp
  then show "10 ^ 27 \<le> x * 10 powi (27 - dec_adj x)" unfolding e1 by (simp add: a_def)
  have "x * 10 powi (27 - a) < 10 powi (a + 1) * 10 powi (27 - a)"
    by (rule mult_strict_right_mono [OF b(2) p])
  then show "x * 10 powi (27 - dec_adj x) < 10 ^ 28" unfolding e2 by (simp add: a_def)
qed

lemma ctx_pos_bounds:
  assumes "0 < x"
  shows "10 powi dec_adj x \<le> ctx_pos x" "ctx_pos x \<le> 10 powi (dec_adj x + 1)"
proof -
  define a where "a = dec_adj x"
  define n where "n = round_half_even (x * 10 powi (27 - a))"
  have s: "of_int (10 ^ 27) \<le> x * 10 powi (27 - a)" "x * 10 powi (27 - a) \<le> of_int (10 ^ 28)"
    using scaled_bounds [OF assms] by (simp_all add: a_def)
  have n: "10 ^ 27 \<le> n" "n \<le> 10 ^ 28"
    using round_half_even_mono [OF s(1)] round_half_even_mono [OF s(2)]
    unfolding round_half_even_int n_def by simp_all
  have nr: "(10 :: rat) powi 27 \<le> of_int n" "of_int n \<le> (10 :: rat) powi 28"
    using n by simp_all
  have "(10 :: rat) powi a = 10 powi 27 * 10 powi (a - 27)"
    by (subst power_int_add [symmetric]) simp_all
  also have "\<dots> \<le> of_int n * 10 powi (a - 27)"
    by (rule mult_right_mono [OF nr(1)]) simp
  finally show "10 powi dec_adj x \<le> ctx_pos x"
    by (simp add: ctx_pos_def a_def n_def)
  have "of_int n * 10 powi (a - 27) \<le> (10 :: rat) powi 28 * 10 powi (a - 27)"
    by (rule mult_right_mono [OF nr(2)]) simp
  also have "\<dots> = (10 :: rat) powi (a + 1)"
    by (subst power_int_add [symmetric]) (simp_all add: add.commute)
  finally show "ctx_pos x \<le> 10 powi (dec_adj x + 1)"
    by (simp add: ctx_pos_def a_def n_def)
qed

lemma ctx_pos_pos: "0 < x \<Longrightarrow> 0 < ctx_pos x"
  using ctx_pos_bounds(1) [of x] by (meson less_le_trans zero_less_power_int zero_less_numeral)

lemma ctx_pos_mono:
  assumes "0 < x" "x \<le> y"
  shows "ctx_pos x \<le> ctx_pos y"
proof (cases "dec_adj x = dec_adj y")
  case True
  have "x * 10 powi (27 - dec_adj y) \<le> y * 10 powi (27 - dec_adj y)"
    by (rule mult_right_mono [OF assms(2)]) simp
  then have "round_half_even (x * 10 powi (27 - dec_adj y))
      \<le> round_half_even (y * 10 powi (27 - dec_adj y))"
    by (rule round_half_even_mono)
  then show ?thesis unfolding ctx_pos_def True
    by (intro mult_right_mono) simp_all
next
  case False
  with dec_adj_mono [OF assms] have "dec_adj x + 1 \<le> dec_adj y" by linarith
  then have "(10 :: rat) powi (dec_adj x + 1) \<le> 10 powi dec_adj y"
    by (intro power_int_increasing) simp_all
  with ctx_pos_bounds(2) [of x] ctx_pos_bounds(1) [of y] assms show ?thesis by linarith
qed

lemma ctx_mono: "x \<le> y \<Longrightarrow> ctx x \<le> ctx y"
proof -
  assume xy: "x \<le> y"
  consider "0 < x" | "x \<le> 0" "0 \<le> y" | "y < 0" by linarith
  then show ?thesis
  proof cases
    case 1
    with xy show ?thesis using ctx_pos_mono [of x y] by (simp add: ctx_def)
  next
    case 2
    then show ?thesis using ctx_pos_pos [of "- x"] ctx_pos_pos [of y] by (auto simp: ctx_def)
  next
    case 3
    with xy show ?thesis using ctx_pos_mono [of "- y" "- x"] by (simp add: ctx_def)
  qed
qed

lemma ctx_nonneg: "0 \<le> x \<Longrightarrow> 0 \<le> ctx x"
  using ctx_mono [of 0 x] by simp

text \<open>A decimal of at most 28 digits is kept as it is.\<close>

lemma ctx_pos_exact:
  assumes "0 < k" "k < 10 ^ 28" "x = of_int k * 10 powi e"
  shows "ctx_pos x = x"
proof -
  define a where "a = dec_adj x"
  have xpos: "0 < x" using assms(1,3) by simp
  have "of_int k < (10 :: rat) ^ 28" using assms(2) by (metis of_int_less_iff of_int_numeral of_int_power)
  then have "of_int k * 10 powi e < (10 :: rat) powi 28 * 10 powi e"
    by (intro mult_strict_right_mono) simp_all
  also have "\<dots> = (10 :: rat) powi (28 + e)" by (subst power_int_add [symmetric]) simp_all
  finally have "x < 10 powi (28 + e)" by (simp add: assms(3))
  with dec_adj_bounds(1) [OF xpos] have "(10 :: rat) powi a < 10 powi (28 + e)"
    by (simp add: a_def)
  then have ae: "0 \<le> e + 27 - a" by (simp add: powi_less_iff)
  have "x * 10 powi (27 - a) = of_int k * (10 powi e * 10 powi (27 - a))"
    by (simp add: assms(3))
  also have "10 powi e * 10 powi (27 - a) = (10 :: rat) powi (e + 27 - a)"
    by (subst power_int_add [symmetric]) (simp_all add: algebra_simps)
  also have "\<dots> = of_int (10 ^ nat (e + 27 - a))" using ae by (rule powi_nonneg_int)
  finally have i: "x * 10 powi (27 - a) = of_int (k * 10 ^ nat (e + 27 - a))" by simp
  have "ctx_pos x = x * 10 powi (27 - a) * 10 powi (a - 27)"
    unfolding ctx_pos_def a_def [symmetric] i round_half_even_int by simp
  also have "\<dots> = x * (10 powi (27 - a) * 10 powi (a - 27))" by simp
  also have "(10 :: rat) powi (27 - a) * 10 powi (a - 27) = 1"
    by (subst power_int_add [symmetric]) simp_all
  finally show ?thesis by simp
qed

lemma ctx_exact:
  assumes "\<bar>k\<bar> < 10 ^ 28" "x = of_int k * 10 powi e"
  shows "ctx x = x"
proof -
  consider "k = 0" | "0 < k" | "k < 0" by linarith
  then show ?thesis
  proof cases
    case 1
    with assms show ?thesis by simp
  next
    case 2
    with assms show ?thesis using ctx_pos_exact [of k x e] by (simp add: ctx_def)
  next
    case 3
    with assms have "ctx_pos (- x) = - x" by (intro ctx_pos_exact [of "- k" _ e]) simp_all
    moreover have "x < 0" using 3 assms(2) by (simp add: mult_neg_pos)
    ultimately show ?thesis by (simp add: ctx_def)
  qed
qed

text \<open>The common cases: integers and numbers of cents.\<close>

lemma ctx_of_int [simp]: "\<bar>k\<bar> < 10 ^ 28 \<Longrightarrow> ctx (of_int k) = of_int k"
  by (rule ctx_exact [where e = 0]) simp_all

lemma ctx_cents: "\<bar>k\<bar> < 10 ^ 28 \<Longrightarrow> ctx (of_int k / 100) = of_int k / 100"
  by (rule ctx_exact [where k = k and e = "-2"]) (simp_all add: power_int_def power2_eq_square)

lemma ctx_pos_error:
  assumes "0 < x"
  shows "\<bar>ctx_pos x - x\<bar> \<le> 5 / 10 ^ 28 * x"
proof -
  define a where "a = dec_adj x"
  define y where "y = x * 10 powi (27 - a)"
  have one: "(10 :: rat) powi (27 - a) * 10 powi (a - 27) = 1"
    by (subst power_int_add [symmetric]) simp_all
  have x: "x = y * 10 powi (a - 27)"
    unfolding y_def by (simp add: mult.assoc one)
  have "\<bar>ctx_pos x - x\<bar> = \<bar>of_int (round_half_even y) - y\<bar> * 10 powi (a - 27)"
    unfolding ctx_pos_def a_def [symmetric] y_def [symmetric]
    by (subst x) (simp add: left_diff_distrib [symmetric] abs_mult)
  also have "\<dots> \<le> 1 / 2 * 10 powi (a - 27)"
    by (intro mult_right_mono round_half_even_error) simp
  also have "\<dots> = 5 / 10 ^ 28 * (10 ^ 27 * 10 powi (a - 27))" by simp
  also have "\<dots> \<le> 5 / 10 ^ 28 * (y * 10 powi (a - 27))"
    using scaled_bounds(1) [OF assms]
    by (intro mult_left_mono mult_right_mono) (simp_all add: y_def a_def)
  finally show ?thesis by (simp add: x [symmetric])
qed

lemma ctx_error: "\<bar>ctx x - x\<bar> \<le> 5 / 10 ^ 28 * \<bar>x\<bar>"
  using ctx_pos_error [of x] ctx_pos_error [of "- x"]
  by (auto simp: ctx_def abs_minus_commute add.commute)

text \<open>How \<open>ctx\<close> is evaluated on a concrete positive rational: scale it to 28 integer digits.\<close>

lemma dec_adj_unique:
  assumes "10 powi a \<le> x" "x < 10 powi (a + 1)"
  shows "dec_adj x = a"
proof -
  have pos: "0 < x" using assms(1) by (meson less_le_trans zero_less_power_int zero_less_numeral)
  have "(10 :: rat) powi a < 10 powi (dec_adj x + 1)" "(10 :: rat) powi dec_adj x < 10 powi (a + 1)"
    using dec_adj_bounds [OF pos] assms by linarith+
  then show ?thesis by (simp add: powi_less_iff)
qed

lemma ctx_eval:
  assumes "10 ^ 27 \<le> x * 10 ^ k" "x * 10 ^ k < 10 ^ 28"
  shows "ctx x = of_int (round_half_even (x * 10 ^ k)) / 10 ^ k"
proof -
  have "0 < x * 10 ^ k" using assms(1) by (rule less_le_trans [rotated]) simp
  then have pos: "0 < x" by (simp add: zero_less_mult_iff)
  have sh: "(10 :: rat) powi (n - int k) = 10 powi n / 10 ^ k" for n
    by (simp add: power_int_diff)
  have lo: "10 powi (27 - int k) \<le> x" using assms(1) unfolding sh by (simp add: divide_le_eq)
  have "x < 10 powi (28 - int k)" using assms(2) unfolding sh by (simp add: less_divide_eq)
  then have hi: "x < 10 powi ((27 - int k) + 1)" by (simp add: algebra_simps)
  have a: "dec_adj x = 27 - int k" using dec_adj_unique [OF lo hi] .
  have m: "(10 :: rat) powi (- int k) = 1 / 10 ^ k"
    by (simp add: power_int_minus inverse_eq_divide)
  show ?thesis using pos by (simp add: ctx_def ctx_pos_def a m)
qed

text \<open>The floor of a quotient of numerals, for those evaluations.\<close>

lemma floor_quotient_numeral:
  "\<lfloor>numeral a / numeral b :: rat\<rfloor> = numeral a div numeral b"
  "\<lfloor>1 / numeral b :: rat\<rfloor> = 1 div numeral b"
  using floor_divide_of_int_eq [where 'a = rat, of "numeral a" "numeral b"]
    floor_divide_of_int_eq [where 'a = rat, of 1 "numeral b"] by simp_all

section \<open>The operations\<close>

definition dadd :: "dec \<Rightarrow> dec \<Rightarrow> dec" where
  [dec_defs]: "dadd a b = ctx (a + b)"

definition dsub :: "dec \<Rightarrow> dec \<Rightarrow> dec" where
  [dec_defs]: "dsub a b = ctx (a - b)"

definition dmul :: "dec \<Rightarrow> dec \<Rightarrow> dec" where
  [dec_defs]: "dmul a b = ctx (a * b)"

text \<open>Division by zero raises; the guarded divisions of the code never reach it.\<close>

definition ddiv :: "dec \<Rightarrow> dec \<Rightarrow> py_exc + dec" where
  "ddiv a b = (if b = 0 then Inl DecimalDivisionByZero else Inr (ctx (a / b)))"

text \<open>Rounding half up, away from zero, to \<open>p\<close> decimal places.\<close>

definition round_half_up :: "rat \<Rightarrow> int" where
  "round_half_up x = (if 0 \<le> x then \<lfloor>x + 1 / 2\<rfloor> else - \<lfloor>- x + 1 / 2\<rfloor>)"

definition quant :: "nat \<Rightarrow> dec \<Rightarrow> dec" where
  "quant p x = of_int (round_half_up (x * 10 ^ p)) / 10 ^ p"

definition quantize :: "nat \<Rightarrow> dec \<Rightarrow> py_exc + dec" where
  "quantize p x =
     (if \<bar>round_half_up (x * 10 ^ p)\<bar> < 10 ^ 28 then Inr (quant p x)
      else Inl DecimalInvalidOperation)"

lemma round_half_up_mono: "x \<le> y \<Longrightarrow> round_half_up x \<le> round_half_up y"
  by (simp add: round_half_up_def) linarith

lemma round_half_up_int [simp]: "round_half_up (of_int k) = k"
  by (simp add: round_half_up_def) linarith

lemma round_half_up_error: "\<bar>of_int (round_half_up x) - x\<bar> \<le> 1 / 2"
proof -
  have *: "\<bar>of_int \<lfloor>y + 1 / 2\<rfloor> - y\<bar> \<le> 1 / 2" for y :: rat
    unfolding abs_le_iff by linarith
  show ?thesis
  proof (cases "0 \<le> x")
    case True
    then show ?thesis using * [of x] by (simp only: round_half_up_def if_True simp_thms)
  next
    case False
    then have "of_int (round_half_up x) - x = - (of_int \<lfloor>- x + 1 / 2\<rfloor> - (- x))"
      unfolding round_half_up_def by simp
    then show ?thesis using * [of "- x"] by (metis abs_minus_cancel)
  qed
qed

lemma round_half_up_nonneg: "0 \<le> x \<Longrightarrow> 0 \<le> round_half_up x"
  by (simp add: round_half_up_def)

lemma quant_mono: "x \<le> y \<Longrightarrow> quant p x \<le> quant p y"
  unfolding quant_def
  by (intro divide_right_mono) (simp_all add: round_half_up_mono mult_right_mono)

lemma quant_nonneg: "0 \<le> x \<Longrightarrow> 0 \<le> quant p x"
  using quant_mono [of 0 x p] by (simp add: quant_def round_half_up_def)

lemma quant_error: "\<bar>quant p x - x\<bar> \<le> 1 / (2 * 10 ^ p)"
proof -
  have "quant p x - x = (of_int (round_half_up (x * 10 ^ p)) - x * 10 ^ p) / 10 ^ p"
    by (simp add: quant_def diff_divide_distrib)
  then have "\<bar>quant p x - x\<bar> = \<bar>of_int (round_half_up (x * 10 ^ p)) - x * 10 ^ p\<bar> / 10 ^ p"
    by (simp add: abs_divide)
  also have "\<dots> \<le> (1 / 2) / 10 ^ p"
    by (intro divide_right_mono round_half_up_error) simp
  finally show ?thesis by simp
qed

lemma quant_fixed: "x * 10 ^ p = of_int k \<Longrightarrow> quant p x = x"
  by (simp add: quant_def field_simps)

lemma quant_quant [simp]: "quant p (quant p x) = quant p x"
  by (rule quant_fixed [where k = "round_half_up (x * 10 ^ p)"]) (simp add: quant_def)

lemma quantize_Inr_iff:
  "quantize p x = Inr y \<longleftrightarrow> y = quant p x \<and> \<bar>round_half_up (x * 10 ^ p)\<bar> < 10 ^ 28"
  by (auto simp: quantize_def)

lemma quantize_Inr:
  assumes "\<bar>x\<bar> * 10 ^ p < 10 ^ 28 - 1"
  shows "quantize p x = Inr (quant p x)"
proof -
  have "\<bar>x * 10 ^ p\<bar> < 10 ^ 28 - 1" using assms by (simp add: abs_mult)
  then have "\<bar>of_int (round_half_up (x * 10 ^ p)) :: rat\<bar> < 10 ^ 28"
    using round_half_up_error [of "x * 10 ^ p"] by linarith
  then have "\<bar>round_half_up (x * 10 ^ p)\<bar> < 10 ^ 28"
    by (metis of_int_abs of_int_less_iff of_int_numeral of_int_power)
  then show ?thesis by (simp add: quantize_def)
qed

lemma dmul_mono:
  "a \<le> a' \<Longrightarrow> b \<le> b' \<Longrightarrow> 0 \<le> a \<Longrightarrow> 0 \<le> b \<Longrightarrow> dmul a b \<le> dmul a' b'"
  unfolding dmul_def by (intro ctx_mono mult_mono) simp_all

lemma dmul_nonneg: "0 \<le> a \<Longrightarrow> 0 \<le> b \<Longrightarrow> 0 \<le> dmul a b"
  unfolding dmul_def by (intro ctx_nonneg mult_nonneg_nonneg)

end
