(* ===== verification/Constants.thy ===== *)
theory Constants
  imports Py_Decimal
begin

text \<open>
  \<open>lip/common/constants.py\<close>: the constants the modelled components use, at their source values, and
  the two functions of the file.  A \<open>Decimal\<close> or \<open>float\<close> constant is the rational it denotes.
\<close>

definition FEE_FLOOR_BPS :: dec where "FEE_FLOOR_BPS = 300"
definition FEE_FLOOR_BPS_SUBDAY :: dec where "FEE_FLOOR_BPS_SUBDAY = 1200"
definition FEE_FLOOR_ABSOLUTE_USD :: dec where "FEE_FLOOR_ABSOLUTE_USD = 25"
definition SUBDAY_THRESHOLD_HOURS :: pyfloat where "SUBDAY_THRESHOLD_HOURS = 48"
definition WAREHOUSE_ELIGIBILITY_FLOOR_BPS :: dec where "WAREHOUSE_ELIGIBILITY_FLOOR_BPS = 800"

definition MATURITY_CLASS_A_DAYS :: int where "MATURITY_CLASS_A_DAYS = 3"
definition MATURITY_CLASS_B_DAYS :: int where "MATURITY_CLASS_B_DAYS = 7"
definition MATURITY_CLASS_C_DAYS :: int where "MATURITY_CLASS_C_DAYS = 21"
definition UETR_TTL_BUFFER_DAYS :: int where "UETR_TTL_BUFFER_DAYS = 45"

definition RAIL_MATURITY_HOURS :: "(string, pyfloat) dict" where
  "RAIL_MATURITY_HOURS =
     [(''SWIFT'', of_int (UETR_TTL_BUFFER_DAYS * 24)), (''FEDNOW'', 24), (''RTP'', 24),
      (''SEPA'', of_int (UETR_TTL_BUFFER_DAYS * 24)), (''CBDC_ECNY'', 4), (''CBDC_EEUR'', 4),
      (''CBDC_SAND_DOLLAR'', 4), (''CBDC_MBRIDGE'', 4), (''CBDC_NEXUS'', 4)]"

text \<open>Rail to (baseline seconds, current seconds, minimum transactions).\<close>

definition RAIL_STRESS_WINDOWS :: "(string, int \<times> int \<times> int) dict" where
  "RAIL_STRESS_WINDOWS =
     [(''SWIFT'', 86400, 3600, 20), (''SEPA'', 86400, 3600, 20), (''FEDNOW'', 3600, 300, 10),
      (''RTP'', 3600, 300, 10), (''CBDC_ECNY'', 1800, 300, 5), (''CBDC_EEUR'', 1800, 300, 5),
      (''CBDC_SAND_DOLLAR'', 1800, 300, 5), (''CBDC_MBRIDGE'', 1800, 180, 5), (''CBDC_NEXUS'', 300, 30, 3)]"

definition PLATFORM_ROYALTY_RATE :: dec where "PLATFORM_ROYALTY_RATE = 3 / 10"

definition PHASE_1_BPI_FEE_SHARE :: dec where "PHASE_1_BPI_FEE_SHARE = PLATFORM_ROYALTY_RATE"
definition PHASE_2_BPI_FEE_SHARE :: dec where "PHASE_2_BPI_FEE_SHARE = 55 / 100"
definition PHASE_2_BANK_CAPITAL_RETURN :: dec where "PHASE_2_BANK_CAPITAL_RETURN = 30 / 100"
definition PHASE_2_BANK_DISTRIBUTION_PREMIUM :: dec where "PHASE_2_BANK_DISTRIBUTION_PREMIUM = 15 / 100"
definition PHASE_3_BPI_FEE_SHARE :: dec where "PHASE_3_BPI_FEE_SHARE = 80 / 100"
definition PHASE_3_BANK_CAPITAL_RETURN :: dec where "PHASE_3_BANK_CAPITAL_RETURN = 0"
definition PHASE_3_BANK_DISTRIBUTION_PREMIUM :: dec where "PHASE_3_BANK_DISTRIBUTION_PREMIUM = 20 / 100"

definition FX_G10_CURRENCIES :: "string list" where
  "FX_G10_CURRENCIES =
     [''USD'', ''EUR'', ''GBP'', ''JPY'', ''CAD'', ''CHF'', ''AUD'', ''NZD'', ''SEK'', ''NOK'']"

definition MIN_LOAN_AMOUNT_CLASS_A_USD :: dec where "MIN_LOAN_AMOUNT_CLASS_A_USD = 1500000"
definition MIN_LOAN_AMOUNT_CLASS_B_USD :: dec where "MIN_LOAN_AMOUNT_CLASS_B_USD = 700000"
definition MIN_LOAN_AMOUNT_CLASS_C_USD :: dec where "MIN_LOAN_AMOUNT_CLASS_C_USD = 500000"
definition MIN_LOAN_AMOUNT_USD :: dec where "MIN_LOAN_AMOUNT_USD = 500000"
definition MIN_CASH_FEE_USD :: dec where "MIN_CASH_FEE_USD = 150"
definition AMOUNT_VALIDATION_TOLERANCE_USD :: dec where "AMOUNT_VALIDATION_TOLERANCE_USD = 1 / 100"
definition PARTIAL_SETTLEMENT_MIN_PCT :: dec where "PARTIAL_SETTLEMENT_MIN_PCT = 10 / 100"
definition BENEFICIARY_CONCENTRATION :: dec where "BENEFICIARY_CONCENTRATION = 80 / 100"

definition get_min_loan_amount :: "string \<Rightarrow> py_exc + dec" where
  "get_min_loan_amount loan_class =
     (case dget [(''A'', MIN_LOAN_AMOUNT_CLASS_A_USD), (''B'', MIN_LOAN_AMOUNT_CLASS_B_USD),
                 (''C'', MIN_LOAN_AMOUNT_CLASS_C_USD)] loan_class of
        None \<Rightarrow> Inl ValueError
      | Some m \<Rightarrow> Inr m)"

definition is_spv_warehouse_eligible :: "dec \<Rightarrow> string \<Rightarrow> py_exc + bool" where
  "is_spv_warehouse_eligible fee_bps phase =
     (if phase = ''phase_1'' then Inr False
      else if phase \<in> {''phase_2'', ''phase_3''} then Inr (WAREHOUSE_ELIGIBILITY_FLOOR_BPS \<le> fee_bps)
      else Inl ValueError)"

text \<open>The fee constants, for the arithmetic of the client theories.\<close>

lemmas fee_constants =
  FEE_FLOOR_BPS_def FEE_FLOOR_BPS_SUBDAY_def FEE_FLOOR_ABSOLUTE_USD_def SUBDAY_THRESHOLD_HOURS_def
  WAREHOUSE_ELIGIBILITY_FLOOR_BPS_def PLATFORM_ROYALTY_RATE_def MIN_CASH_FEE_USD_def

lemmas phase_constants =
  PHASE_1_BPI_FEE_SHARE_def PHASE_2_BPI_FEE_SHARE_def PHASE_2_BANK_CAPITAL_RETURN_def
  PHASE_2_BANK_DISTRIBUTION_PREMIUM_def PHASE_3_BPI_FEE_SHARE_def PHASE_3_BANK_CAPITAL_RETURN_def
  PHASE_3_BANK_DISTRIBUTION_PREMIUM_def

lemma min_loan_amount_bounds:
  "get_min_loan_amount c = Inr m \<Longrightarrow> 500000 \<le> m \<and> m \<le> 1500000"
  by (auto simp: get_min_loan_amount_def MIN_LOAN_AMOUNT_CLASS_A_USD_def
      MIN_LOAN_AMOUNT_CLASS_B_USD_def MIN_LOAN_AMOUNT_CLASS_C_USD_def split: if_splits)

end
