(* ===== verification/State_Machines.thy ===== *)
theory State_Machines
  imports Constants
begin

text \<open>
  \<open>lip/common/state_machines.py\<close>: the payment and the loan life cycles and the maturity window.

  An \<open>enum\<close> is a datatype with the source's members, a transition table a function to the list of
  its row, a machine its current state.  \<open>transition\<close> returns the new state or the
  \<open>InvalidTransitionError\<close> with its two attributes.  The two machine classes have the same
  contract, the locale \<open>lifecycle\<close>; what follows from it (terminal states absorb, a rejected request
  changes nothing, the visited states form a path of the table) is proved there once and
  interpreted for both.
\<close>

section \<open>Runs of requests\<close>

text \<open>
  A client drives a machine by a sequence of requested states; a rejected request raises and leaves
  \<open>_state\<close> as it was.  \<open>visited\<close> is the history of current states, the initial one first.
\<close>

type_synonym 's invalid_transition = "'s \<times> 's"

fun after_request :: "('s \<Rightarrow> 's \<Rightarrow> 's invalid_transition + 's) \<Rightarrow> 's \<Rightarrow> 's \<Rightarrow> 's" where
  "after_request tr s t = (case tr s t of Inl _ \<Rightarrow> s | Inr s' \<Rightarrow> s')"

fun visited :: "('s \<Rightarrow> 's \<Rightarrow> 's invalid_transition + 's) \<Rightarrow> 's \<Rightarrow> 's list \<Rightarrow> 's list" where
  "visited tr s [] = [s]"
| "visited tr s (t # ts) = s # visited tr (after_request tr s t) ts"

definition final_state :: "('s \<Rightarrow> 's \<Rightarrow> 's invalid_transition + 's) \<Rightarrow> 's \<Rightarrow> 's list \<Rightarrow> 's" where
  "final_state tr s ts = fold (\<lambda>t s. after_request tr s t) ts s"

lemma visited_nonempty [simp]: "visited tr s ts \<noteq> []"
  by (cases ts) simp_all

lemma hd_visited [simp]: "hd (visited tr s ts) = s"
  by (cases ts) simp_all

lemma final_state_simps [simp]:
  "final_state tr s [] = s"
  "final_state tr s (t # ts) = final_state tr (after_request tr s t) ts"
  by (simp_all add: final_state_def)

lemma last_visited: "last (visited tr s ts) = final_state tr s ts"
  by (induction ts arbitrary: s) simp_all

locale lifecycle =
  fixes tr :: "'s \<Rightarrow> 's \<Rightarrow> 's invalid_transition + 's"
    and allowed :: "'s \<Rightarrow> 's list"
    and terminal :: "'s \<Rightarrow> bool"
  assumes tr_ok: "t \<in> set (allowed s) \<Longrightarrow> tr s t = Inr t"
    and tr_err: "t \<notin> set (allowed s) \<Longrightarrow> tr s t = Inl (s, t)"
    and terminal_iff: "terminal s \<longleftrightarrow> allowed s = []"
begin

lemma tr_Inr_iff: "tr s t = Inr u \<longleftrightarrow> u = t \<and> t \<in> set (allowed s)"
  using tr_ok tr_err by (cases "t \<in> set (allowed s)") auto

lemma tr_Inl_iff: "tr s t = Inl e \<longleftrightarrow> e = (s, t) \<and> t \<notin> set (allowed s)"
  using tr_ok tr_err by (cases "t \<in> set (allowed s)") auto

lemma after_request_eq: "after_request tr s t = (if t \<in> set (allowed s) then t else s)"
  by (simp add: tr_ok tr_err)

lemma terminal_absorbs: "terminal s \<Longrightarrow> final_state tr s ts = s"
  by (induction ts) (simp_all add: after_request_eq terminal_iff del: after_request.simps)

lemma terminal_rejects: "terminal s \<Longrightarrow> tr s t = Inl (s, t)"
  by (simp add: tr_err terminal_iff)

lemma terminal_visited: "terminal s \<Longrightarrow> set (visited tr s ts) = {s}"
  by (induction ts) (simp_all add: after_request_eq terminal_iff del: after_request.simps)

text \<open>A set closed under the table's rows keeps every run that enters it.\<close>

lemma visited_closed:
  assumes "\<And>u v. u \<in> A \<Longrightarrow> v \<in> set (allowed u) \<Longrightarrow> v \<in> A" "s \<in> A"
  shows "set (visited tr s ts) \<subseteq> A"
  using assms(2)
proof (induction ts arbitrary: s)
  case (Cons t ts)
  have "after_request tr s t \<in> A"
    using assms(1) [OF Cons.prems] Cons.prems by (simp add: after_request_eq del: after_request.simps)
  with Cons show ?case by simp
qed simp

text \<open>
  Gate states: when every step into \<open>B\<close> from outside of it starts in \<open>G\<close>, a run from outside \<open>B\<close> that
  visits \<open>B\<close> has visited \<open>G\<close>.
\<close>

lemma gate_visited:
  assumes "\<And>u v. u \<notin> B \<Longrightarrow> v \<in> B \<Longrightarrow> v \<in> set (allowed u) \<Longrightarrow> u \<in> G"
    and "s \<notin> B" "set (visited tr s ts) \<inter> B \<noteq> {}"
  shows "set (visited tr s ts) \<inter> G \<noteq> {}"
  using assms(2,3)
proof (induction ts arbitrary: s)
  case (Cons t ts)
  let ?u = "after_request tr s t"
  show ?case
  proof (cases "?u \<in> B")
    case True
    then have "t \<in> set (allowed s)" "t \<in> B"
      using Cons.prems(1) by (auto simp: after_request_eq split: if_splits simp del: after_request.simps)
    then have "s \<in> G" using assms(1) Cons.prems(1) by blast
    then show ?thesis by simp
  next
    case False
    then show ?thesis using Cons by auto
  qed
qed auto

end

section \<open>The maturity window\<close>


definition MATURITY_DAYS :: "(string, int) dict" where
  "MATURITY_DAYS =
     [(''A'', MATURITY_CLASS_A_DAYS), (''B'', MATURITY_CLASS_B_DAYS), (''C'', MATURITY_CLASS_C_DAYS)]"

definition maturity_days_of_letter :: "string \<Rightarrow> py_exc + int" where
  "maturity_days_of_letter c =
     (case dget MATURITY_DAYS c of Some d \<Rightarrow> Inr d | None \<Rightarrow> Inl ValueError)"

section \<open>The payment machine\<close>

datatype PaymentState =
    MONITORING
  | FAILURE_DETECTED
  | BRIDGE_OFFERED
  | FUNDED
  | REPAYMENT_PENDING
  | CANCELLATION_ALERT
  | REPAID
  | BUFFER_REPAID
  | DEFAULTED
  | OFFER_DECLINED
  | OFFER_EXPIRED
  | DISPUTE_BLOCKED
  | AML_BLOCKED

fun PAYMENT_TRANSITIONS :: "PaymentState \<Rightarrow> PaymentState list" where
  "PAYMENT_TRANSITIONS MONITORING = [FAILURE_DETECTED, DISPUTE_BLOCKED, AML_BLOCKED]"
| "PAYMENT_TRANSITIONS FAILURE_DETECTED = [BRIDGE_OFFERED, DISPUTE_BLOCKED, AML_BLOCKED]"
| "PAYMENT_TRANSITIONS BRIDGE_OFFERED = [FUNDED, OFFER_DECLINED, OFFER_EXPIRED]"
| "PAYMENT_TRANSITIONS FUNDED =
     [REPAID, BUFFER_REPAID, DEFAULTED, REPAYMENT_PENDING, CANCELLATION_ALERT]"
| "PAYMENT_TRANSITIONS REPAYMENT_PENDING = [REPAID, BUFFER_REPAID, DEFAULTED]"
| "PAYMENT_TRANSITIONS CANCELLATION_ALERT = [REPAID, DEFAULTED, FUNDED]"
| "PAYMENT_TRANSITIONS REPAID = []"
| "PAYMENT_TRANSITIONS BUFFER_REPAID = []"
| "PAYMENT_TRANSITIONS DEFAULTED = []"
| "PAYMENT_TRANSITIONS OFFER_DECLINED = []"
| "PAYMENT_TRANSITIONS OFFER_EXPIRED = []"
| "PAYMENT_TRANSITIONS DISPUTE_BLOCKED = []"
| "PAYMENT_TRANSITIONS AML_BLOCKED = []"

definition payment_states :: "PaymentState list" where
  "payment_states =
     [MONITORING, FAILURE_DETECTED, BRIDGE_OFFERED, FUNDED, REPAYMENT_PENDING, CANCELLATION_ALERT,
      REPAID, BUFFER_REPAID, DEFAULTED, OFFER_DECLINED, OFFER_EXPIRED, DISPUTE_BLOCKED, AML_BLOCKED]"

definition PAYMENT_TERMINAL_STATES :: "PaymentState set" where
  "PAYMENT_TERMINAL_STATES = set (filter (\<lambda>s. PAYMENT_TRANSITIONS s = []) payment_states)"

definition payment_initial :: PaymentState where
  "payment_initial = MONITORING"

definition payment_is_terminal :: "PaymentState \<Rightarrow> bool" where
  "payment_is_terminal s \<longleftrightarrow> s \<in> PAYMENT_TERMINAL_STATES"

definition payment_transition ::
    "PaymentState \<Rightarrow> PaymentState \<Rightarrow> PaymentState invalid_transition + PaymentState" where
  "payment_transition s new_state =
     (if new_state \<notin> set (PAYMENT_TRANSITIONS s) then Inl (s, new_state) else Inr new_state)"

lemma payment_states_all: "s \<in> set payment_states"
  by (cases s) (simp_all add: payment_states_def)

interpretation payment: lifecycle payment_transition PAYMENT_TRANSITIONS payment_is_terminal
  by unfold_locales
    (auto simp: payment_transition_def payment_is_terminal_def PAYMENT_TERMINAL_STATES_def
      payment_states_all)

section \<open>The loan machine\<close>

datatype LoanState =
    LOAN_OFFER_PENDING
  | LOAN_ACTIVE
  | LOAN_REPAYMENT_PENDING
  | LOAN_UNDER_REVIEW
  | LOAN_REPAID
  | LOAN_BUFFER_REPAID
  | LOAN_DEFAULTED
  | LOAN_OFFER_EXPIRED
  | LOAN_OFFER_DECLINED

fun LOAN_TRANSITIONS :: "LoanState \<Rightarrow> LoanState list" where
  "LOAN_TRANSITIONS LOAN_OFFER_PENDING = [LOAN_ACTIVE, LOAN_OFFER_EXPIRED, LOAN_OFFER_DECLINED]"
| "LOAN_TRANSITIONS LOAN_ACTIVE = [LOAN_REPAYMENT_PENDING, LOAN_DEFAULTED, LOAN_UNDER_REVIEW]"
| "LOAN_TRANSITIONS LOAN_REPAYMENT_PENDING = [LOAN_REPAID, LOAN_BUFFER_REPAID, LOAN_DEFAULTED]"
| "LOAN_TRANSITIONS LOAN_UNDER_REVIEW = [LOAN_ACTIVE, LOAN_DEFAULTED]"
| "LOAN_TRANSITIONS LOAN_REPAID = []"
| "LOAN_TRANSITIONS LOAN_BUFFER_REPAID = []"
| "LOAN_TRANSITIONS LOAN_DEFAULTED = []"
| "LOAN_TRANSITIONS LOAN_OFFER_EXPIRED = []"
| "LOAN_TRANSITIONS LOAN_OFFER_DECLINED = []"

definition loan_states :: "LoanState list" where
  "loan_states =
     [LOAN_OFFER_PENDING, LOAN_ACTIVE, LOAN_REPAYMENT_PENDING, LOAN_UNDER_REVIEW, LOAN_REPAID,
      LOAN_BUFFER_REPAID, LOAN_DEFAULTED, LOAN_OFFER_EXPIRED, LOAN_OFFER_DECLINED]"

definition LOAN_TERMINAL_STATES :: "LoanState set" where
  "LOAN_TERMINAL_STATES = set (filter (\<lambda>s. LOAN_TRANSITIONS s = []) loan_states)"

definition loan_initial :: LoanState where
  "loan_initial = LOAN_OFFER_PENDING"

definition loan_is_terminal :: "LoanState \<Rightarrow> bool" where
  "loan_is_terminal s \<longleftrightarrow> s \<in> LOAN_TERMINAL_STATES"

definition loan_transition ::
    "LoanState \<Rightarrow> LoanState \<Rightarrow> LoanState invalid_transition + LoanState" where
  "loan_transition s new_state =
     (if new_state \<notin> set (LOAN_TRANSITIONS s) then Inl (s, new_state) else Inr new_state)"

lemma loan_states_all: "s \<in> set loan_states"
  by (cases s) (simp_all add: loan_states_def)

interpretation loan: lifecycle loan_transition LOAN_TRANSITIONS loan_is_terminal
  by unfold_locales
    (auto simp: loan_transition_def loan_is_terminal_def LOAN_TERMINAL_STATES_def loan_states_all)

section \<open>Safety of the two life cycles\<close>

text \<open>
  C10: on a payment machine started in \<open>MONITORING\<close>, whatever states are requested and however many of
  the requests are rejected, money is at risk, repaid or lost only after an offer was made and funded:
  a history that visits \<open>REPAYMENT_PENDING\<close>, \<open>CANCELLATION_ALERT\<close>, \<open>REPAID\<close>, \<open>BUFFER_REPAID\<close> or
  \<open>DEFAULTED\<close> has also visited \<open>FAILURE_DETECTED\<close>, \<open>BRIDGE_OFFERED\<close> and \<open>FUNDED\<close>.
\<close>

theorem payment_money_needs_offer:
  assumes "s \<in> set (visited payment_transition payment_initial requests)"
    and "s \<in> {REPAYMENT_PENDING, CANCELLATION_ALERT, REPAID, BUFFER_REPAID, DEFAULTED}"
  shows "{FAILURE_DETECTED, BRIDGE_OFFERED, FUNDED}
    \<subseteq> set (visited payment_transition payment_initial requests)"
proof -
  let ?H = "set (visited payment_transition payment_initial requests)"
  define M where "M = {REPAYMENT_PENDING, CANCELLATION_ALERT, REPAID, BUFFER_REPAID, DEFAULTED}"
  have row: "v \<in> set (PAYMENT_TRANSITIONS u) \<Longrightarrow> v \<in> M \<union> {FUNDED, BRIDGE_OFFERED} \<Longrightarrow>
      u \<in> M \<union> {FUNDED} \<or> u = BRIDGE_OFFERED \<and> v = FUNDED \<or> u = FAILURE_DETECTED \<and> v = BRIDGE_OFFERED" for u v
    by (cases u) (auto simp: M_def)
  have s: "?H \<inter> M \<noteq> {}" using assms by (auto simp: M_def)
  have "?H \<inter> {FUNDED} \<noteq> {}"
    by (rule payment.gate_visited [OF _ _ s])
      (use row in \<open>auto simp: M_def payment_initial_def\<close>)
  then have f: "?H \<inter> (M \<union> {FUNDED}) \<noteq> {}" by auto
  have b: "?H \<inter> {BRIDGE_OFFERED} \<noteq> {}"
    by (rule payment.gate_visited [OF _ _ f])
      (use row in \<open>auto simp: M_def payment_initial_def\<close>)
  have "?H \<inter> {FAILURE_DETECTED} \<noteq> {}"
    by (rule payment.gate_visited [where B = "M \<union> {FUNDED, BRIDGE_OFFERED}"])
      (use row b in \<open>auto simp: M_def payment_initial_def\<close>)
  with b \<open>?H \<inter> {FUNDED} \<noteq> {}\<close> show ?thesis by auto
qed

text \<open>Witness: a history with a rejected request, repaid in the end.\<close>

lemma payment_money_needs_offer_witness:
  "{FAILURE_DETECTED, BRIDGE_OFFERED, FUNDED}
    \<subseteq> set (visited payment_transition payment_initial
        [FAILURE_DETECTED, REPAID, BRIDGE_OFFERED, FUNDED, CANCELLATION_ALERT, REPAID])"
  by (rule payment_money_needs_offer [where s = REPAID])
    (simp_all add: payment_transition_def payment_initial_def)

lemma lifecycle_terminal_facts:
  "payment_is_terminal p \<longleftrightarrow>
     p \<in> {REPAID, BUFFER_REPAID, DEFAULTED, OFFER_DECLINED, OFFER_EXPIRED, DISPUTE_BLOCKED, AML_BLOCKED}"
  "loan_is_terminal l \<longleftrightarrow>
     l \<in> {LOAN_REPAID, LOAN_BUFFER_REPAID, LOAN_DEFAULTED, LOAN_OFFER_EXPIRED, LOAN_OFFER_DECLINED}"
  "if payment_is_terminal p
   then payment_transition p p' = Inl (p, p') \<and> final_state payment_transition p ps = p
   else \<exists>q. payment_transition p q = Inr q \<and> q \<noteq> p"
  "if loan_is_terminal l
   then loan_transition l l' = Inl (l, l') \<and> final_state loan_transition l ls = l
   else \<exists>q. loan_transition l q = Inr q \<and> q \<noteq> l"
proof -
  show "payment_is_terminal p \<longleftrightarrow>
     p \<in> {REPAID, BUFFER_REPAID, DEFAULTED, OFFER_DECLINED, OFFER_EXPIRED, DISPUTE_BLOCKED, AML_BLOCKED}"
    by (cases p) (simp_all add: payment.terminal_iff)
  show "loan_is_terminal l \<longleftrightarrow>
     l \<in> {LOAN_REPAID, LOAN_BUFFER_REPAID, LOAN_DEFAULTED, LOAN_OFFER_EXPIRED, LOAN_OFFER_DECLINED}"
    by (cases l) (simp_all add: loan.terminal_iff)
  have "\<exists>q. payment_transition p q = Inr q \<and> q \<noteq> p" if "\<not> payment_is_terminal p"
    using that
    by (intro exI [of _ "hd (PAYMENT_TRANSITIONS p)"], cases p)
      (simp_all add: payment.terminal_iff payment_transition_def)
  then show "if payment_is_terminal p
   then payment_transition p p' = Inl (p, p') \<and> final_state payment_transition p ps = p
   else \<exists>q. payment_transition p q = Inr q \<and> q \<noteq> p"
    by (simp add: payment.terminal_rejects payment.terminal_absorbs)
  have "\<exists>q. loan_transition l q = Inr q \<and> q \<noteq> l" if "\<not> loan_is_terminal l"
    using that
    by (intro exI [of _ "hd (LOAN_TRANSITIONS l)"], cases l)
      (simp_all add: loan.terminal_iff loan_transition_def)
  then show "if loan_is_terminal l
   then loan_transition l l' = Inl (l, l') \<and> final_state loan_transition l ls = l
   else \<exists>q. loan_transition l q = Inr q \<and> q \<noteq> l"
    by (simp add: loan.terminal_rejects loan.terminal_absorbs)
qed

text \<open>
  In both life cycles the terminal states are exactly the listed ones; from a terminal state every
  request raises \<open>InvalidTransitionError\<close> with the current and the requested state and no sequence of
  requests moves the machine; and from every other state some accepted request leads on.
\<close>

theorem lifecycle_terminal_states:
  "(payment_is_terminal p \<longleftrightarrow>
     p \<in> {REPAID, BUFFER_REPAID, DEFAULTED, OFFER_DECLINED, OFFER_EXPIRED, DISPUTE_BLOCKED, AML_BLOCKED})
   \<and> (loan_is_terminal l \<longleftrightarrow>
     l \<in> {LOAN_REPAID, LOAN_BUFFER_REPAID, LOAN_DEFAULTED, LOAN_OFFER_EXPIRED, LOAN_OFFER_DECLINED})
   \<and> (if payment_is_terminal p
   then payment_transition p p' = Inl (p, p') \<and> final_state payment_transition p ps = p
   else \<exists>q. payment_transition p q = Inr q \<and> q \<noteq> p)
   \<and> (if loan_is_terminal l
   then loan_transition l l' = Inl (l, l') \<and> final_state loan_transition l ls = l
   else \<exists>q. loan_transition l q = Inr q \<and> q \<noteq> l)"
  by (intro conjI lifecycle_terminal_facts)

end
