(* ===== verification/Rejection_Taxonomy.thy ===== *)
theory Rejection_Taxonomy
  imports Py_Base
begin

text \<open>
  \<open>lip/c3_repayment_engine/rejection_taxonomy.py\<close> and \<open>lip/common/block_codes.py\<close>: which ISO 20022
  rejection codes can be bridged, for how long, and which never.  The taxonomy is the source's
  dictionary in its order; the two sets of \<open>block_codes.py\<close> are those of \<open>block_codes.json\<close>.
\<close>

datatype RejectionClass = CLASS_A | CLASS_B | CLASS_C | BLOCK

definition REJECTION_CODE_TAXONOMY :: "(string, RejectionClass) dict" where
  "REJECTION_CODE_TAXONOMY =
     [(''AC01'', CLASS_A), (''AC04'', CLASS_A), (''AC06'', CLASS_A), (''AM01'', CLASS_A),
      (''AM02'', CLASS_A), (''AM03'', CLASS_A), (''AM04'', CLASS_A), (''AM05'', CLASS_A),
      (''AM06'', CLASS_A), (''AM09'', CLASS_A), (''AM10'', CLASS_A), (''AM12'', CLASS_A),
      (''BE01'', CLASS_A), (''BE05'', CLASS_A), (''DT01'', CLASS_A), (''ED01'', CLASS_A),
      (''ED03'', CLASS_A), (''ED05'', CLASS_A), (''FF01'', CLASS_A), (''FF03'', CLASS_A),
      (''FF05'', CLASS_A), (''MD01'', CLASS_A), (''MD02'', CLASS_A), (''MD06'', CLASS_A),
      (''RC01'', CLASS_A), (''AG02'', CLASS_B), (''CURR'', CLASS_B), (''CUST'', CLASS_B),
      (''FOCR'', CLASS_B), (''MS02'', CLASS_B), (''MS03'', CLASS_B), (''NARR'', CLASS_B),
      (''NOAS'', CLASS_B), (''NOOR'', CLASS_B), (''PTNA'', CLASS_B), (''RCON'', CLASS_B),
      (''SVNR'', CLASS_B), (''TECH'', CLASS_B), (''TIMO'', CLASS_B), (''UPAY'', CLASS_B),
      (''AGNT'', CLASS_C), (''CVCY'', CLASS_C), (''FRSP'', CLASS_C), (''INDM'', CLASS_C),
      (''INVB'', CLASS_C), (''INVR'', CLASS_C), (''OPAY'', CLASS_C), (''PCOR'', CLASS_C),
      (''QMIS'', CLASS_C), (''SMND'', CLASS_C), (''UMKA'', CLASS_C), (''DISP'', BLOCK),
      (''DUPL'', BLOCK), (''FRAD'', BLOCK), (''FRAU'', BLOCK), (''RR01'', BLOCK),
      (''RR02'', BLOCK), (''RR03'', BLOCK), (''RR04'', BLOCK), (''AG01'', BLOCK),
      (''LEGL'', BLOCK), (''DNOR'', BLOCK), (''CNOR'', BLOCK)]"

fun maturity_days :: "RejectionClass \<Rightarrow> int" where
  "maturity_days CLASS_A = 3"
| "maturity_days CLASS_B = 7"
| "maturity_days CLASS_C = 21"
| "maturity_days BLOCK = 0"

definition normalise_code :: "string \<Rightarrow> string" where
  "normalise_code code = py_upper (py_strip code)"

definition classify_rejection_code :: "string \<Rightarrow> py_exc + RejectionClass" where
  "classify_rejection_code code =
     (case dget REJECTION_CODE_TAXONOMY (normalise_code code) of
        Some c \<Rightarrow> Inr c
      | None \<Rightarrow> Inl ValueError)"

definition is_dispute_block :: "string \<Rightarrow> bool" where
  "is_dispute_block code =
     (case classify_rejection_code code of
        Inr c \<Rightarrow> c = BLOCK
      | Inl _ \<Rightarrow> True)"

definition get_all_codes_for_class :: "RejectionClass \<Rightarrow> string list" where
  "get_all_codes_for_class cls =
     map fst (filter (\<lambda>(code, rc). rc = cls) REJECTION_CODE_TAXONOMY)"

definition EPG19_COMPLIANCE_HOLD_CODES :: "string set" where
  "EPG19_COMPLIANCE_HOLD_CODES =
     {''DNOR'', ''CNOR'', ''RR01'', ''RR02'', ''RR03'', ''RR04'', ''AG01'', ''LEGL''}"

definition DISPUTE_FRAUD_BLOCK_CODES :: "string set" where
  "DISPUTE_FRAUD_BLOCK_CODES = {''DISP'', ''DUPL'', ''FRAD'', ''FRAU''}"

definition ALL_BLOCK_CODES :: "string set" where
  "ALL_BLOCK_CODES = EPG19_COMPLIANCE_HOLD_CODES \<union> DISPUTE_FRAUD_BLOCK_CODES"

section \<open>Facts of the table\<close>

lemma taxonomy_ok: "dict_ok REJECTION_CODE_TAXONOMY"
  by (simp add: dict_ok_def REJECTION_CODE_TAXONOMY_def)

lemma normalise_idem [simp]: "normalise_code (normalise_code c) = normalise_code c"
  by (simp add: normalise_code_def strip_upper)

lemma classify_normalise: "classify_rejection_code (normalise_code c) = classify_rejection_code c"
  by (simp add: classify_rejection_code_def)

lemma codes_of_class:
  "c \<in> set (get_all_codes_for_class cls) \<longleftrightarrow> dget REJECTION_CODE_TAXONOMY c = Some cls"
  unfolding get_all_codes_for_class_def mem_dget [OF taxonomy_ok, symmetric] by force

lemma block_codes_table: "set (get_all_codes_for_class BLOCK) = ALL_BLOCK_CODES"
  by (auto simp: get_all_codes_for_class_def REJECTION_CODE_TAXONOMY_def ALL_BLOCK_CODES_def
      EPG19_COMPLIANCE_HOLD_CODES_def DISPUTE_FRAUD_BLOCK_CODES_def)

lemma maturity_zero_iff: "maturity_days c = 0 \<longleftrightarrow> c = BLOCK"
  by (cases c) simp_all

lemma dispute_gate_facts:
  "is_dispute_block code \<longleftrightarrow>
     normalise_code code \<in> ALL_BLOCK_CODES \<or> dget REJECTION_CODE_TAXONOMY (normalise_code code) = None"
  "\<not> is_dispute_block code \<longleftrightarrow>
     (\<exists>cls. classify_rejection_code code = Inr cls \<and> maturity_days cls \<in> {3, 7, 21})"
  "card EPG19_COMPLIANCE_HOLD_CODES = 8" "card DISPUTE_FRAUD_BLOCK_CODES = 4"
  "EPG19_COMPLIANCE_HOLD_CODES \<inter> DISPUTE_FRAUD_BLOCK_CODES = {}"
  "set (get_all_codes_for_class BLOCK) = ALL_BLOCK_CODES"
proof -
  show "is_dispute_block code \<longleftrightarrow>
     normalise_code code \<in> ALL_BLOCK_CODES \<or> dget REJECTION_CODE_TAXONOMY (normalise_code code) = None"
    unfolding block_codes_table [symmetric] codes_of_class
    by (auto simp: is_dispute_block_def classify_rejection_code_def split: option.splits)
  have "maturity_days cls \<in> {3, 7, 21} \<longleftrightarrow> cls \<noteq> BLOCK" for cls by (cases cls) simp_all
  then show "\<not> is_dispute_block code \<longleftrightarrow>
     (\<exists>cls. classify_rejection_code code = Inr cls \<and> maturity_days cls \<in> {3, 7, 21})"
    by (auto simp: is_dispute_block_def split: sum.splits)
qed (simp_all add: EPG19_COMPLIANCE_HOLD_CODES_def DISPUTE_FRAUD_BLOCK_CODES_def block_codes_table)

text \<open>
  The bridge gate is fail-closed.  A code is blocked exactly when, trimmed and upper-cased, it is
  one of the twelve codes of \<open>block_codes.json\<close> or is not in the taxonomy at all; a code that passes
  has a maturity window of 3, 7 or 21 days; the compliance-hold set has eight codes, the
  dispute/fraud set four, they are disjoint (the import-time checks of \<open>block_codes.py\<close>), and
  together they are the BLOCK class of the taxonomy.
\<close>

lemma dispute_gate_fail_closed:
  "(is_dispute_block code \<longleftrightarrow>
     normalise_code code \<in> ALL_BLOCK_CODES \<or> dget REJECTION_CODE_TAXONOMY (normalise_code code) = None)
   \<and> (\<not> is_dispute_block code \<longleftrightarrow>
     (\<exists>cls. classify_rejection_code code = Inr cls \<and> maturity_days cls \<in> {3, 7, 21}))
   \<and> (card EPG19_COMPLIANCE_HOLD_CODES = 8)
   \<and> (card DISPUTE_FRAUD_BLOCK_CODES = 4)
   \<and> (EPG19_COMPLIANCE_HOLD_CODES \<inter> DISPUTE_FRAUD_BLOCK_CODES = {})
   \<and> (set (get_all_codes_for_class BLOCK) = ALL_BLOCK_CODES)"
  by (intro conjI dispute_gate_facts)

end
