(* ===== verification/Py_Date.thy ===== *)
theory Py_Date
  imports Py_Base
begin

text \<open>
  \<open>datetime.date\<close> of the standard library: a date is its proleptic Gregorian ordinal
  (\<open>date.toordinal()\<close>, day 1 is 1 January of year 1), so that \<open>d + timedelta(days=1)\<close> is the successor
  and comparison is that of the integers.  The library's range (years 1 to 9999, \<open>OverflowError\<close>
  outside of it) is far from every date the program handles and is not modelled.
\<close>

type_synonym date = int

definition leap_year :: "int \<Rightarrow> bool" where
  "leap_year y \<longleftrightarrow> y mod 4 = 0 \<and> (y mod 100 \<noteq> 0 \<or> y mod 400 = 0)"

definition days_before_year :: "int \<Rightarrow> int" where
  "days_before_year y = (let k = y - 1 in k * 365 + k div 4 - k div 100 + k div 400)"

definition days_in_month :: "int \<Rightarrow> int \<Rightarrow> int" where
  "days_in_month y m =
     (if m = 2 then (if leap_year y then 29 else 28) else if m \<in> {4, 6, 9, 11} then 30 else 31)"

definition days_before_month :: "int \<Rightarrow> int \<Rightarrow> int" where
  "days_before_month y m =
     [0, 31, 59, 90, 120, 151, 181, 212, 243, 273, 304, 334] ! nat (m - 1)
       + (if 2 < m \<and> leap_year y then 1 else 0)"

definition date :: "int \<Rightarrow> int \<Rightarrow> int \<Rightarrow> date" where
  "date y m d = days_before_year y + days_before_month y m + d"

text \<open>\<open>date.weekday()\<close>: Monday is 0.\<close>

definition weekday :: "date \<Rightarrow> int" where
  "weekday d = (d + 6) mod 7"

lemma weekday_range: "0 \<le> weekday d" "weekday d \<le> 6"
  using pos_mod_bound [of 7 "d + 6"] pos_mod_sign [of 7 "d + 6"] by (simp_all add: weekday_def)

lemma weekday_add_7 [simp]: "weekday (d + 7) = weekday d"
  by (simp add: weekday_def) presburger

text \<open>1 January 2026 was a Thursday, 1 January 2000 a Saturday.\<close>

lemma weekday_anchor: "weekday (date 2026 1 1) = 3" "weekday (date 2000 1 1) = 5"
  by (simp_all add: weekday_def date_def days_before_year_def days_before_month_def leap_year_def)

end
