(* ===== verification/Business_Calendar.thy ===== *)
theory Business_Calendar
  imports Py_Date Rejection_Taxonomy
begin

text \<open>
  \<open>lip/common/business_calendar.py\<close>: settlement holidays of TARGET2, Fedwire and CHAPS, and maturity
  arithmetic in business days.  Shown: \<open>add_business_days\<close> returns the least date with exactly \<open>n\<close>
  business days after the start, it raises only for a negative count or when the 365-day search is
  exhausted, and for the maturity windows the program uses it never is.
\<close>

definition TARGET2_HOLIDAYS :: "date list" where
  "TARGET2_HOLIDAYS =
     [date 2026 1 1, date 2026 4 3, date 2026 4 6, date 2026 5 1,
      date 2026 12 25, date 2026 12 26, date 2027 1 1, date 2027 3 26,
      date 2027 3 29, date 2027 5 1, date 2027 12 25, date 2027 12 26,
      date 2027 12 27]"

definition FEDWIRE_HOLIDAYS :: "date list" where
  "FEDWIRE_HOLIDAYS =
     [date 2026 1 1, date 2026 1 19, date 2026 2 16, date 2026 5 25,
      date 2026 6 19, date 2026 7 3, date 2026 9 7, date 2026 10 12,
      date 2026 11 11, date 2026 11 26, date 2026 12 25, date 2027 1 1,
      date 2027 1 18, date 2027 2 15, date 2027 5 31, date 2027 6 19,
      date 2027 6 18, date 2027 7 5, date 2027 9 6, date 2027 10 11,
      date 2027 11 11, date 2027 11 25, date 2027 12 24]"

definition CHAPS_HOLIDAYS :: "date list" where
  "CHAPS_HOLIDAYS =
     [date 2026 1 1, date 2026 4 3, date 2026 4 6, date 2026 5 4,
      date 2026 5 25, date 2026 8 31, date 2026 12 25, date 2026 12 26,
      date 2027 1 1, date 2027 3 26, date 2027 3 29, date 2027 5 3,
      date 2027 5 31, date 2027 8 30, date 2027 12 27, date 2027 12 28]"

definition CALENDARS :: "(string, date list) dict" where
  "CALENDARS =
     [(''TARGET2'', TARGET2_HOLIDAYS), (''FEDWIRE'', FEDWIRE_HOLIDAYS), (''CHAPS'', CHAPS_HOLIDAYS)]"

definition CURRENCY_JURISDICTION :: "(string, string) dict" where
  "CURRENCY_JURISDICTION =
     [(''EUR'', ''TARGET2''), (''USD'', ''FEDWIRE''), (''GBP'', ''CHAPS''), (''CAD'', ''FEDWIRE''),
      (''CHF'', ''TARGET2''), (''SEK'', ''TARGET2''), (''DKK'', ''TARGET2''), (''NOK'', ''TARGET2'')]"

definition currency_to_jurisdiction :: "string \<Rightarrow> string" where
  "currency_to_jurisdiction currency =
     (case dget CURRENCY_JURISDICTION (py_upper currency) of Some j \<Rightarrow> j | None \<Rightarrow> ''TARGET2'')"

definition holidays :: "string \<Rightarrow> date list" where
  "holidays jurisdiction =
     (case dget CALENDARS jurisdiction of Some c \<Rightarrow> c | None \<Rightarrow> TARGET2_HOLIDAYS)"

definition is_business_day :: "date \<Rightarrow> string \<Rightarrow> bool" where
  "is_business_day d jurisdiction \<longleftrightarrow>
     (if 5 \<le> weekday d then False else d \<notin> set (holidays jurisdiction))"

function add_business_days_loop :: "string \<Rightarrow> date \<Rightarrow> int \<Rightarrow> int \<Rightarrow> py_exc + date" where
  "add_business_days_loop jurisdiction current remaining iterations =
     (if remaining > 0 then
        (let current' = current + 1; iterations' = iterations + 1
         in if iterations' > 365 then Inl ValueError
            else if is_business_day current' jurisdiction
            then add_business_days_loop jurisdiction current' (remaining - 1) iterations'
            else add_business_days_loop jurisdiction current' remaining iterations')
      else Inr current)"
  by pat_completeness auto
termination
  by (relation "measure (\<lambda>(j, c, r, i). nat (366 - i))") auto

declare add_business_days_loop.simps [simp del]

definition add_business_days :: "date \<Rightarrow> int \<Rightarrow> string \<Rightarrow> py_exc + date" where
  "add_business_days start n jurisdiction =
     (if n < 0 then Inl ValueError else add_business_days_loop jurisdiction start n 0)"

section \<open>Counting business days\<close>

text \<open>The business days after \<open>a\<close>, up to and including \<open>b\<close>.\<close>

definition business_days_between :: "string \<Rightarrow> date \<Rightarrow> date \<Rightarrow> int" where
  "business_days_between j a b = int (card {d \<in> {a<..b}. is_business_day d j})"

lemma finite_days [simp]: "finite {d. (a :: date) < d \<and> d \<le> b \<and> P d}"
  by (rule finite_subset [of _ "{a<..b}"]) auto

lemma bdb_self [simp]: "b \<le> a \<Longrightarrow> business_days_between j a b = 0"
  by (simp add: business_days_between_def)

lemma bdb_nonneg [simp]: "0 \<le> business_days_between j a b"
  by (simp add: business_days_between_def)

lemma bdb_step:
  assumes "a < b"
  shows "business_days_between j a b =
    (if is_business_day (a + 1) j then 1 else 0) + business_days_between j (a + 1) b"
proof -
  have "{d \<in> {a<..b}. is_business_day d j} =
      (if is_business_day (a + 1) j then insert (a + 1) else id) {d \<in> {a + 1<..b}. is_business_day d j}"
    using assms by (auto simp: order_less_le_trans) (smt (verit))+
  then show ?thesis by (simp add: business_days_between_def)
qed

lemma bdb_mono: "b \<le> c \<Longrightarrow> business_days_between j a b \<le> business_days_between j a c"
  unfolding business_days_between_def of_nat_le_iff by (intro card_mono) (simp, auto)

lemma loop_spec:
  "add_business_days_loop j c r i = res \<Longrightarrow> 0 \<le> r \<Longrightarrow> i \<le> 365 \<Longrightarrow>
   (case res of
      Inr e \<Rightarrow> c \<le> e \<and> e \<le> c + (365 - i) \<and> business_days_between j c e = r
        \<and> (0 < r \<longrightarrow> is_business_day e j) \<and> (r = 0 \<longrightarrow> e = c)
    | Inl x \<Rightarrow> x = ValueError \<and> business_days_between j c (c + (365 - i)) < r)"
proof (induction j c r i arbitrary: res rule: add_business_days_loop.induct)
  case (1 j c r i)
  show ?case
  proof (cases "0 < r")
    case False
    with 1(3,4,5) show ?thesis
      by (auto simp: add_business_days_loop.simps [of j c r i])
  next
    case r: True
    show ?thesis
    proof (cases "i = 365")
      case True
      with r 1(3) show ?thesis by (auto simp: add_business_days_loop.simps [of j c r])
    next
      case False
      with 1(5) have i: "i + 1 \<le> 365" by simp
      let ?r = "if is_business_day (c + 1) j then r - 1 else r"
      have eq: "add_business_days_loop j (c + 1) ?r (i + 1) = res"
        using 1(3) r i by (simp add: add_business_days_loop.simps [of j c r i] Let_def split: if_splits)
      have IH: "case res of
          Inr e \<Rightarrow> c + 1 \<le> e \<and> e \<le> c + 1 + (365 - (i + 1)) \<and> business_days_between j (c + 1) e = ?r
            \<and> (0 < ?r \<longrightarrow> is_business_day e j) \<and> (?r = 0 \<longrightarrow> e = c + 1)
        | Inl x \<Rightarrow> x = ValueError \<and> business_days_between j (c + 1) (c + 1 + (365 - (i + 1))) < ?r"
        using 1(1) [OF r refl refl _ _ _ _ i] 1(2) [OF r refl refl _ _ _ _ i] eq i r
        by (cases "is_business_day (c + 1) j") simp_all
      show ?thesis
      proof (cases res)
        case (Inl x)
        with IH show ?thesis using bdb_step [of c "c + (365 - i)" j] i
          by (simp add: algebra_simps split: if_splits)
      next
        case (Inr e)
        with IH show ?thesis using bdb_step [of c e j] r i
          by (auto split: if_splits)
      qed
    qed
  qed
qed


section \<open>The search never runs dry for the maturity windows in use\<close>

definition weekdays_between :: "date \<Rightarrow> date \<Rightarrow> date set" where
  "weekdays_between a b = {d \<in> {a<..b}. weekday d < 5}"

lemma weekdays_week: "card (weekdays_between a (a + 7)) = 5"
proof -
  have e: "{a<..a + 7} = set [a + 1, a + 2, a + 3, a + 4, a + 5, a + 6, a + 7]" by auto
  have s: "weekdays_between a (a + 7) =
      set (filter (\<lambda>d. weekday d < 5) [a + 1, a + 2, a + 3, a + 4, a + 5, a + 6, a + 7])"
    unfolding weekdays_between_def e by (rule set_filter [symmetric])
  obtain r where r: "r \<in> {0, 1, 2, 3, 4, 5, 6}" "\<And>k. weekday (a + k) = (r + (k + 6)) mod 7"
  proof
    show "a mod 7 \<in> {0, 1, 2, 3, 4, 5, 6}"
      using pos_mod_bound [of 7 a] pos_mod_sign [of 7 a] by auto
    show "weekday (a + k) = (a mod 7 + (k + 6)) mod 7" for k
      by (simp add: weekday_def mod_add_left_eq add.assoc)
  qed
  have f: "filter (\<lambda>d. weekday d < 5) [a + 1, a + 2, a + 3, a + 4, a + 5, a + 6, a + 7]
      = map ((+) a) (filter (\<lambda>k. (r + (k + 6)) mod 7 < 5) [1, 2, 3, 4, 5, 6, 7])"
    by (simp add: r(2) del: weekday_add_7)
  have "card (set (map ((+) a) (filter (\<lambda>k. (r + (k + 6)) mod 7 < 5) [1, 2, 3, 4, 5, 6, 7]))) = 5"
    using r(1) by (elim insertE emptyE) simp_all
  then show ?thesis unfolding s f .
qed

lemma weekdays_weeks: "card (weekdays_between a (a + 7 * int k)) = 5 * k"
proof (induction k)
  case (Suc k)
  let ?m = "a + 7 * int k"
  have "weekdays_between a (a + 7 * int (Suc k)) = weekdays_between a ?m \<union> weekdays_between ?m (?m + 7)"
    by (auto simp: weekdays_between_def)
  moreover have "weekdays_between a ?m \<inter> weekdays_between ?m (?m + 7) = {}"
    by (auto simp: weekdays_between_def)
  moreover have "finite (weekdays_between a ?m)" "finite (weekdays_between ?m (?m + 7))"
    by (simp_all add: weekdays_between_def)
  ultimately show ?case using Suc weekdays_week [of ?m] by (simp add: card_Un_disjoint)
qed (simp add: weekdays_between_def)

lemma length_holidays: "length (holidays j) \<le> 24"
  by (auto simp: holidays_def CALENDARS_def TARGET2_HOLIDAYS_def FEDWIRE_HOLIDAYS_def
      CHAPS_HOLIDAYS_def split: if_splits)

lemma bdb_weeks: "5 * int k - 24 \<le> business_days_between j a (a + 7 * int k)"
proof -
  let ?b = "a + 7 * int k"
  have "weekdays_between a ?b \<subseteq> {d \<in> {a<..?b}. is_business_day d j} \<union> set (holidays j)"
    by (auto simp: weekdays_between_def is_business_day_def)
  then have "card (weekdays_between a ?b)
      \<le> card ({d \<in> {a<..?b}. is_business_day d j} \<union> set (holidays j))"
    by (rule card_mono [rotated]) simp
  also have "\<dots> \<le> card {d \<in> {a<..?b}. is_business_day d j} + card (set (holidays j))"
    by (rule card_Un_le)
  also have "card (set (holidays j)) \<le> 24"
    using card_length [of "holidays j"] length_holidays [of j] by linarith
  finally show ?thesis by (simp add: weekdays_weeks business_days_between_def)
qed

section \<open>Correctness of the maturity arithmetic\<close>

lemma bdb_strict:
  assumes "a \<le> b" "b < c" "is_business_day c j"
  shows "business_days_between j a b < business_days_between j a c"
proof -
  have "c \<in> {d \<in> {a<..c}. is_business_day d j}" "c \<notin> {d \<in> {a<..b}. is_business_day d j}"
    using assms by simp_all
  moreover have "{d \<in> {a<..b}. is_business_day d j} \<subseteq> {d \<in> {a<..c}. is_business_day d j}"
    using assms(2) by fastforce
  ultimately have "{d \<in> {a<..b}. is_business_day d j} \<subset> {d \<in> {a<..c}. is_business_day d j}"
    by blast
  then show ?thesis
    unfolding business_days_between_def of_nat_less_iff by (rule psubset_card_mono [rotated]) simp
qed

lemma bdb_unique:
  assumes "a \<le> e" "a \<le> e'" "business_days_between j a e = business_days_between j a e'"
    and "is_business_day e j" "is_business_day e' j"
  shows "e = e'"
  using assms bdb_strict [of a e e' j] bdb_strict [of a e' e j] by fastforce

lemma add_business_days_spec:
  "add_business_days start n j = Inr e \<longleftrightarrow>
     0 \<le> n \<and> start \<le> e \<and> e \<le> start + 365 \<and> business_days_between j start e = n
       \<and> (if n = 0 then e = start else is_business_day e j)"
  "add_business_days start n j = Inl x \<longleftrightarrow>
     x = ValueError \<and> (n < 0 \<or> business_days_between j start (start + 365) < n)"
proof -
  have spec: "case add_business_days start n j of
      Inr e \<Rightarrow> start \<le> e \<and> e \<le> start + 365 \<and> business_days_between j start e = n
        \<and> (0 < n \<longrightarrow> is_business_day e j) \<and> (n = 0 \<longrightarrow> e = start)
    | Inl x \<Rightarrow> x = ValueError \<and> business_days_between j start (start + 365) < n" if "0 \<le> n"
    using loop_spec [of j start n 0 "add_business_days start n j"] that
    by (auto simp: add_business_days_def split: sum.splits)
  show "add_business_days start n j = Inr e \<longleftrightarrow>
     0 \<le> n \<and> start \<le> e \<and> e \<le> start + 365 \<and> business_days_between j start e = n
       \<and> (if n = 0 then e = start else is_business_day e j)" (is "?L \<longleftrightarrow> ?R")
  proof
    assume L: ?L
    then have "0 \<le> n" by (auto simp: add_business_days_def split: if_splits)
    with L spec show ?R by auto
  next
    assume R: ?R
    then show ?L
      using spec bdb_mono [of e "start + 365" j start] bdb_unique [of start e _ j]
      by (cases "add_business_days start n j") (auto split: if_splits)
  qed
  show "add_business_days start n j = Inl x \<longleftrightarrow>
     x = ValueError \<and> (n < 0 \<or> business_days_between j start (start + 365) < n)"
    using spec bdb_mono [of _ "start + 365" j start]
    by (cases "n < 0"; cases "add_business_days start n j")
      (auto simp: add_business_days_def not_less)
qed

text \<open>
  C38: \<open>add_business_days(start, n, jurisdiction)\<close> returns \<open>e\<close> exactly when \<open>n\<close> is not negative, \<open>e\<close>
  is at most 365 days after the start, the days after the start up to \<open>e\<close> hold exactly \<open>n\<close> business
  days of that settlement calendar, and \<open>e\<close> is itself a business day (the start itself for \<open>n = 0\<close>);
  in every other case it raises \<open>ValueError\<close>.
\<close>

theorem add_business_days_correct:
  "(add_business_days start n j = Inr e \<longleftrightarrow>
     0 \<le> n \<and> start \<le> e \<and> e \<le> start + 365 \<and> business_days_between j start e = n
       \<and> (if n = 0 then e = start else is_business_day e j))
   \<and> (add_business_days start n j = Inl x \<longleftrightarrow>
     x = ValueError \<and> (n < 0 \<or> business_days_between j start (start + 365) < n))"
  by (intro conjI add_business_days_spec)

text \<open>
  C30: For the maturity window of every rejection class, from every start date and in every settlement
  calendar (unknown ones included), the search succeeds and the maturity date is at most 63 calendar
  days after the start.
\<close>

theorem maturity_date_exists:
  "\<exists>e. add_business_days start (maturity_days cls) j = Inr e \<and> start \<le> e \<and> e \<le> start + 63"
proof -
  let ?n = "maturity_days cls"
  have n: "0 \<le> ?n" "?n \<le> 21" by (cases cls; simp)+
  have enough: "?n \<le> business_days_between j start (start + 63)"
    using bdb_weeks [of 9 j start] n by simp
  obtain e where e: "add_business_days start ?n j = Inr e"
    using add_business_days_spec(2) [of start ?n j] enough n
      bdb_mono [of "start + 63" "start + 365" j start]
    by (cases "add_business_days start ?n j") auto
  then have *: "start \<le> e" "business_days_between j start e = ?n"
      "?n \<noteq> 0 \<Longrightarrow> is_business_day e j" "?n = 0 \<Longrightarrow> e = start"
    by (auto simp: add_business_days_spec(1))
  have "e \<le> start + 63"
  proof (rule ccontr)
    assume "\<not> e \<le> start + 63"
    then have "business_days_between j start (start + 63) < business_days_between j start e"
      using * by (intro bdb_strict) auto
    with * enough show False by simp
  qed
  with e * show ?thesis by blast
qed

end
