(* ===== verification/Fee.thy ===== *)
theory Fee
  imports Constants
begin

text \<open>
  \<open>lip/c2_pd_model/fee.py\<close>: pricing.  Every function is written with the decimal operations of
  \<open>Py_Decimal\<close> in the source's order, so that each intermediate result is rounded to 28 digits, and
  \<open>quantize\<close> may raise.  Shown: the annualized rate never falls below the floor of its rail and is
  monotone in both risk inputs; the cash fee is within half a cent (plus the relative error of four
  roundings) of the exact formula, never negative and monotone in amount, rate and duration; the
  royalty and the net amount add up.
\<close>

definition DAYS_IN_YEAR :: dec where "DAYS_IN_YEAR = 365"
definition BPS_DIVISOR :: dec where "BPS_DIVISOR = 10000"
definition DEFAULT_MATURITY_HOURS :: pyfloat where "DEFAULT_MATURITY_HOURS = 7 * 24"
definition CASCADE_DISCOUNT_CAP :: dec where "CASCADE_DISCOUNT_CAP = 30 / 100"

definition is_subday_rail :: "pyfloat \<Rightarrow> bool" where
  "is_subday_rail maturity_hours \<longleftrightarrow> maturity_hours < SUBDAY_THRESHOLD_HOURS"

definition applicable_fee_floor_bps :: "pyfloat \<Rightarrow> dec" where
  "applicable_fee_floor_bps maturity_hours =
     (if is_subday_rail maturity_hours then FEE_FLOOR_BPS_SUBDAY else FEE_FLOOR_BPS)"

definition compute_fee_bps_from_el :: "dec \<Rightarrow> dec \<Rightarrow> pyfloat \<Rightarrow> py_exc + dec" where
  "compute_fee_bps_from_el pd lgd maturity_hours =
     (let fee_bps = dmul (dmul pd lgd) BPS_DIVISOR;
          fee_bps = max fee_bps (applicable_fee_floor_bps maturity_hours)
      in quantize 1 fee_bps)"

definition raw_loan_fee :: "dec \<Rightarrow> dec \<Rightarrow> dec \<Rightarrow> dec" where
  "raw_loan_fee loan_amount fee_bps days =
     dmul (dmul loan_amount (ctx (fee_bps / BPS_DIVISOR))) (ctx (days / DAYS_IN_YEAR))"

definition compute_loan_fee :: "dec \<Rightarrow> dec \<Rightarrow> dec \<Rightarrow> py_exc + dec" where
  "compute_loan_fee loan_amount fee_bps days = quantize 2 (raw_loan_fee loan_amount fee_bps days)"

definition apply_absolute_fee_floor :: "dec \<Rightarrow> dec" where
  "apply_absolute_fee_floor fee_usd =
     (if fee_usd \<le> 0 then fee_usd else max fee_usd FEE_FLOOR_ABSOLUTE_USD)"

definition compute_platform_royalty :: "dec \<Rightarrow> dec \<Rightarrow> py_exc + dec" where
  "compute_platform_royalty fee_amount_usd royalty_rate =
     quantize 2 (dmul fee_amount_usd royalty_rate)"

definition compute_tiered_fee_floor :: "dec \<Rightarrow> dec" where
  "compute_tiered_fee_floor loan_amount = FEE_FLOOR_BPS"

definition verify_floor_applies :: "dec \<Rightarrow> bool" where
  "verify_floor_applies fee_bps \<longleftrightarrow> fee_bps = FEE_FLOOR_BPS"

record CascadeAdjustedPricing =
  cap_base_pd :: dec
  cap_cascade_adjusted_pd :: dec
  cap_cascade_discount :: dec
  cap_base_fee_bps :: dec
  cap_cascade_adjusted_fee_bps :: dec
  cap_cascade_value_prevented :: dec
  cap_intervention_cost :: dec

definition cascade_discount :: "dec \<Rightarrow> dec \<Rightarrow> py_exc + dec" where
  "cascade_discount value_prevented cost =
     (if 0 < cost \<and> 0 < value_prevented then
        res_bind (ddiv value_prevented (dmul 10 cost))
          (\<lambda>raw_discount. Inr (min raw_discount CASCADE_DISCOUNT_CAP))
      else Inr 0)"

definition compute_cascade_adjusted_pd ::
    "dec \<Rightarrow> dec \<Rightarrow> dec \<Rightarrow> dec \<Rightarrow> py_exc + CascadeAdjustedPricing" where
  "compute_cascade_adjusted_pd base_pd value_prevented cost lgd =
     (if \<not> (0 \<le> base_pd \<and> base_pd \<le> 1) then Inl ValueError
      else
        res_bind (cascade_discount value_prevented cost) (\<lambda>discount.
        let adjusted_pd = dmul base_pd (dsub 1 discount)
        in
        res_bind (compute_fee_bps_from_el base_pd lgd DEFAULT_MATURITY_HOURS) (\<lambda>base_fee.
        res_bind (compute_fee_bps_from_el adjusted_pd lgd DEFAULT_MATURITY_HOURS) (\<lambda>adjusted_fee.
        if adjusted_fee < WAREHOUSE_ELIGIBILITY_FLOOR_BPS then Inl ValueError
        else Inr \<lparr> cap_base_pd = base_pd, cap_cascade_adjusted_pd = adjusted_pd,
                   cap_cascade_discount = discount, cap_base_fee_bps = base_fee,
                   cap_cascade_adjusted_fee_bps = adjusted_fee,
                   cap_cascade_value_prevented = value_prevented,
                   cap_intervention_cost = cost \<rparr>))))"

section \<open>The annualized rate\<close>

lemma floor_values: "applicable_fee_floor_bps h \<in> {300, 1200}" "300 \<le> applicable_fee_floor_bps h"
  by (simp_all add: applicable_fee_floor_bps_def fee_constants)

lemma quant_floor: "quant 1 (applicable_fee_floor_bps h) = applicable_fee_floor_bps h"
  by (rule quant_fixed [where k = "if is_subday_rail h then 12000 else 3000"])
    (simp add: applicable_fee_floor_bps_def fee_constants)

lemma fee_bps_Inr:
  "compute_fee_bps_from_el pd lgd h = Inr f \<Longrightarrow>
   f = quant 1 (max (dmul (dmul pd lgd) BPS_DIVISOR) (applicable_fee_floor_bps h))"
  by (simp add: compute_fee_bps_from_el_def Let_def quantize_Inr_iff)

lemma fee_bps_ge_floor: "compute_fee_bps_from_el pd lgd h = Inr f \<Longrightarrow> applicable_fee_floor_bps h \<le> f"
  by (metis fee_bps_Inr max.cobounded2 quant_floor quant_mono)

lemma dmul_le_1:
  assumes "0 \<le> a" "a \<le> 1" "0 \<le> b" "b \<le> 1"
  shows "dmul a b \<le> 1"
  using dmul_mono [of a 1 b 1] assms ctx_of_int [of 1] by (simp add: dmul_def)

lemma dmul_10000:
  assumes "0 \<le> x" "x \<le> 1"
  shows "dmul x BPS_DIVISOR \<le> 10000"
  using dmul_mono [of x 1 BPS_DIVISOR BPS_DIVISOR] assms ctx_of_int [of 10000]
  by (simp add: dmul_def BPS_DIVISOR_def)

text \<open>
  Pricing never undercuts the floor.  For a probability of default and a loss given default in
  \<open>[0, 1]\<close> the annualized rate exists; it is at least 300 bps on every rail and at least 1200 bps when
  the loan lives less than 48 hours, at most 10000 bps, has at most one decimal, and is monotone: more
  risk is never cheaper.
\<close>

lemma fee_rate_floor_and_monotone:
  assumes "0 \<le> pd" "pd \<le> pd'" "pd' \<le> 1" "0 \<le> lgd" "lgd \<le> lgd'" "lgd' \<le> 1"
  shows "\<exists>f f'. compute_fee_bps_from_el pd lgd h = Inr f \<and> compute_fee_bps_from_el pd' lgd' h = Inr f'
    \<and> (if h < 48 then 1200 else 300) \<le> f \<and> f \<le> f' \<and> f' \<le> 10000 \<and> quant 1 f = f"
proof -
  let ?raw = "\<lambda>p l. max (dmul (dmul p l) BPS_DIVISOR) (applicable_fee_floor_bps h)"
  have le: "?raw p l \<le> 10000" "0 \<le> ?raw p l" if "0 \<le> p" "p \<le> 1" "0 \<le> l" "l \<le> 1" for p l
    using dmul_10000 [of "dmul p l"] dmul_le_1 [of p l] dmul_nonneg [of p l] floor_values [of h] that
    by auto
  have ok: "compute_fee_bps_from_el p l h = Inr (quant 1 (?raw p l))"
    if "0 \<le> p" "p \<le> 1" "0 \<le> l" "l \<le> 1" for p l
    unfolding compute_fee_bps_from_el_def Let_def
  proof (rule quantize_Inr)
    show "\<bar>?raw p l\<bar> * 10 ^ 1 < 10 ^ 28 - 1"
      unfolding abs_of_nonneg [OF le(2) [OF that]] power_one_right
      by (rule le_less_trans [OF mult_right_mono [OF le(1) [OF that]]]) simp_all
  qed
  have m: "?raw pd lgd \<le> ?raw pd' lgd'"
    using assms by (intro max.mono dmul_mono dmul_nonneg) (auto simp: BPS_DIVISOR_def)
  have "quant 1 (?raw pd' lgd') \<le> quant 1 10000" using le assms by (intro quant_mono) auto
  then have top: "quant 1 (?raw pd' lgd') \<le> 10000"
    using quant_fixed [of 10000 1 100000] by simp
  have "(if h < 48 then 1200 else 300) = applicable_fee_floor_bps h"
    by (simp add: applicable_fee_floor_bps_def is_subday_rail_def fee_constants)
  also have "\<dots> \<le> quant 1 (?raw pd lgd)"
    by (rule fee_bps_ge_floor [OF ok]) (use assms in auto)
  finally have floor: "(if h < 48 then 1200 else 300) \<le> quant 1 (?raw pd lgd)" .
  show ?thesis
    using ok [of pd lgd] ok [of pd' lgd'] quant_mono [OF m, of 1] top floor assms
    by (intro exI [of _ "quant 1 (?raw pd lgd)"] exI [of _ "quant 1 (?raw pd' lgd')"]) simp
qed

lemma fee_rate_floor_and_monotone_witness:
  "\<exists>f f'. compute_fee_bps_from_el (2 / 100) (45 / 100) 4 = Inr f
    \<and> compute_fee_bps_from_el (20 / 100) (45 / 100) 4 = Inr f'
    \<and> 1200 \<le> f \<and> f \<le> f' \<and> f' \<le> 10000 \<and> quant 1 f = f"
  using fee_rate_floor_and_monotone [of "2 / 100" "20 / 100" "45 / 100" "45 / 100" 4] by simp

section \<open>The cash fee\<close>

lemma raw_loan_fee_nonneg:
  "0 \<le> a \<Longrightarrow> 0 \<le> b \<Longrightarrow> 0 \<le> d \<Longrightarrow> 0 \<le> raw_loan_fee a b d"
  unfolding raw_loan_fee_def BPS_DIVISOR_def DAYS_IN_YEAR_def
  by (intro dmul_nonneg ctx_nonneg) simp_all

lemma raw_loan_fee_mono:
  assumes "0 \<le> a" "a \<le> a'" "0 \<le> b" "b \<le> b'" "0 \<le> d" "d \<le> d'"
  shows "raw_loan_fee a b d \<le> raw_loan_fee a' b' d'"
  unfolding raw_loan_fee_def BPS_DIVISOR_def DAYS_IN_YEAR_def using assms
  by (intro dmul_mono ctx_mono divide_right_mono dmul_nonneg ctx_nonneg) simp_all

lemma compute_loan_fee_Inr: "compute_loan_fee a b d = Inr f \<Longrightarrow> f = quant 2 (raw_loan_fee a b d)"
  by (simp add: compute_loan_fee_def quantize_Inr_iff)

lemma compute_loan_fee_nonneg:
  "compute_loan_fee a b d = Inr f \<Longrightarrow> 0 \<le> a \<Longrightarrow> 0 \<le> b \<Longrightarrow> 0 \<le> d \<Longrightarrow> 0 \<le> f"
  by (auto dest!: compute_loan_fee_Inr intro!: quant_nonneg raw_loan_fee_nonneg)

text \<open>Each rounding keeps a nonnegative value within the factors \<open>1 - u\<close> and \<open>1 + u\<close>.\<close>

definition ulp :: rat where "ulp = 5 / 10 ^ 28"

lemma ctx_factor:
  assumes "0 \<le> x" shows "x * (1 - ulp) \<le> ctx x" "ctx x \<le> x * (1 + ulp)"
proof -
  have "\<bar>ctx x - x\<bar> \<le> ulp * x" using ctx_error [of x] assms by (simp add: ulp_def)
  then show "x * (1 - ulp) \<le> ctx x" "ctx x \<le> x * (1 + ulp)"
    by (simp_all add: abs_le_iff algebra_simps)
qed

lemma ctx_between:
  assumes "0 \<le> x" "x * lo \<le> y" "y \<le> x * hi" "0 \<le> lo" "lo \<le> hi"
  shows "x * (lo * (1 - ulp)) \<le> ctx y" "ctx y \<le> x * (hi * (1 + ulp))"
proof -
  have y: "0 \<le> y" using assms by (meson mult_nonneg_nonneg order_trans)
  have "x * lo * (1 - ulp) \<le> y * (1 - ulp)" "y * (1 + ulp) \<le> x * hi * (1 + ulp)"
    using assms by (intro mult_right_mono; simp add: ulp_def)+
  with ctx_factor [OF y] show "x * (lo * (1 - ulp)) \<le> ctx y" "ctx y \<le> x * (hi * (1 + ulp))"
    by (simp_all add: mult.assoc)
qed

definition exact_loan_fee :: "rat \<Rightarrow> rat \<Rightarrow> rat \<Rightarrow> rat" where
  "exact_loan_fee amount fee_bps days = amount * (fee_bps / 10000) * (days / 365)"

lemma raw_loan_fee_bounds:
  assumes "0 \<le> a" "0 \<le> b" "0 \<le> d"
  shows "exact_loan_fee a b d * (1 - ulp) ^ 4 \<le> raw_loan_fee a b d"
    and "raw_loan_fee a b d \<le> exact_loan_fee a b d * (1 + ulp) ^ 4"
proof -
  let ?x = "b / 10000" and ?z = "d / 365"
  have u: "0 \<le> 1 - ulp" "1 - ulp \<le> 1 + ulp" by (simp_all add: ulp_def)
  have x: "?x * (1 - ulp) \<le> ctx ?x" "ctx ?x \<le> ?x * (1 + ulp)" using ctx_factor [of ?x] assms by simp_all
  have z: "?z * (1 - ulp) \<le> ctx ?z" "ctx ?z \<le> ?z * (1 + ulp)" using ctx_factor [of ?z] assms by simp_all
  have p: "0 \<le> ?x" "0 \<le> ?z" "0 \<le> ctx ?x" "0 \<le> ctx ?z" using assms by (simp_all add: ctx_nonneg)
  have "(a * ?x) * (1 - ulp) \<le> a * ctx ?x" "a * ctx ?x \<le> (a * ?x) * (1 + ulp)"
    using mult_left_mono [OF x(1) assms(1)] mult_left_mono [OF x(2) assms(1)] by (simp_all add: mult.assoc)
  from ctx_between [OF _ this u] have w:
    "(a * ?x) * (1 - ulp) ^ 2 \<le> dmul a (ctx ?x)" "dmul a (ctx ?x) \<le> (a * ?x) * (1 + ulp) ^ 2"
    using assms p by (simp_all add: dmul_def power2_eq_square)
  have ax: "0 \<le> a * ?x" using assms p by simp
  have m: "0 \<le> dmul a (ctx ?x)" using assms p by (intro dmul_nonneg) simp_all
  have "(a * ?x) * (1 - ulp) ^ 2 * (?z * (1 - ulp)) \<le> dmul a (ctx ?x) * ctx ?z"
    by (intro mult_mono w z m mult_nonneg_nonneg p u)
  then have lo: "exact_loan_fee a b d * (1 - ulp) ^ 3 \<le> dmul a (ctx ?x) * ctx ?z"
    by (simp add: exact_loan_fee_def power3_eq_cube power2_eq_square mult_ac)
  have "dmul a (ctx ?x) * ctx ?z \<le> (a * ?x) * (1 + ulp) ^ 2 * (?z * (1 + ulp))"
    by (intro mult_mono w z mult_nonneg_nonneg p ax) (simp add: ulp_def)
  then have hi: "dmul a (ctx ?x) * ctx ?z \<le> exact_loan_fee a b d * (1 + ulp) ^ 3"
    by (simp add: exact_loan_fee_def power3_eq_cube power2_eq_square mult_ac)
  have e: "0 \<le> exact_loan_fee a b d" using assms by (simp add: exact_loan_fee_def)
  have "0 \<le> (1 - ulp) ^ 3" "(1 - ulp) ^ 3 \<le> (1 + ulp) ^ 3" using u by (simp_all add: power_mono)
  from ctx_between [OF e lo hi this]
  show "exact_loan_fee a b d * (1 - ulp) ^ 4 \<le> raw_loan_fee a b d"
    "raw_loan_fee a b d \<le> exact_loan_fee a b d * (1 + ulp) ^ 4"
    by (simp_all add: raw_loan_fee_def BPS_DIVISOR_def DAYS_IN_YEAR_def dmul_def [of _ "ctx ?z"]
        power_Suc2 [symmetric] del: power_Suc)
qed

text \<open>
  C25: for a non-negative amount, rate and duration whose exact fee is at most 10 ^ 15 USD,
  \<open>compute_loan_fee\<close> returns; the fee is a whole number of cents, not negative, and differs from
  \<open>amount * bps / 10000 * days / 365\<close> by at most half a cent plus 3 parts in 10 ^ 27.  A larger
  amount, rate or duration never gives a smaller fee.
\<close>

theorem loan_fee_correct:
  assumes "0 \<le> a" "a \<le> a'" "0 \<le> b" "b \<le> b'" "0 \<le> d" "d \<le> d'"
    and "exact_loan_fee a' b' d' \<le> 10 ^ 15"
  shows "\<exists>f f'. compute_loan_fee a b d = Inr f \<and> compute_loan_fee a' b' d' = Inr f'
    \<and> 0 \<le> f \<and> f \<le> f' \<and> quant 2 f = f
    \<and> \<bar>f - exact_loan_fee a b d\<bar> \<le> 1 / 200 + 3 / 10 ^ 27 * exact_loan_fee a b d"
proof -
  let ?r = "raw_loan_fee a b d" and ?r' = "raw_loan_fee a' b' d'"
  let ?e = "exact_loan_fee a b d"
  have pos: "0 \<le> a'" "0 \<le> b'" "0 \<le> d'" using assms by simp_all
  have m: "0 \<le> ?r" "?r \<le> ?r'"
    using assms by (auto intro: raw_loan_fee_nonneg raw_loan_fee_mono)
  have "?r' \<le> exact_loan_fee a' b' d' * (1 + ulp) ^ 4" by (rule raw_loan_fee_bounds [OF pos])
  also have "\<dots> \<le> 10 ^ 15 * (1 + ulp) ^ 4" using assms(7) by (rule mult_right_mono) (simp add: ulp_def)
  also have "\<dots> \<le> 10 ^ 16" by (simp add: ulp_def power_divide)
  finally have top: "?r' \<le> 10 ^ 16" .
  have ok: "compute_loan_fee x y z = Inr (quant 2 (raw_loan_fee x y z))"
    if "0 \<le> raw_loan_fee x y z" "raw_loan_fee x y z \<le> 10 ^ 16" for x y z
    unfolding compute_loan_fee_def
  proof (rule quantize_Inr)
    have "\<bar>raw_loan_fee x y z\<bar> * 10 ^ 2 \<le> 10 ^ 16 * 10 ^ 2"
      using that by (intro mult_right_mono) simp_all
    then show "\<bar>raw_loan_fee x y z\<bar> * 10 ^ 2 < 10 ^ 28 - 1" by (rule le_less_trans) simp
  qed
  have e: "0 \<le> ?e" using assms by (simp add: exact_loan_fee_def)
  define c :: rat where "c = 3 / 10 ^ 27"
  have "?e * (1 - c) \<le> ?e * (1 - ulp) ^ 4" "?e * (1 + ulp) ^ 4 \<le> ?e * (1 + c)"
    by (intro mult_left_mono e; simp add: ulp_def c_def power_divide)+
  with raw_loan_fee_bounds [OF assms(1,3,5)] have "?e * (1 - c) \<le> ?r" "?r \<le> ?e * (1 + c)"
    by (meson order_trans)+
  then have "\<bar>?r - ?e\<bar> \<le> 3 / 10 ^ 27 * ?e"
    unfolding c_def [symmetric] by (simp add: abs_le_iff algebra_simps)
  moreover have "\<bar>quant 2 ?r - ?r\<bar> \<le> 1 / 200" using quant_error [of 2 ?r] by simp
  ultimately have "\<bar>quant 2 ?r - ?e\<bar> \<le> 1 / 200 + 3 / 10 ^ 27 * ?e" by linarith
  with m top quant_mono [OF m(2), of 2] quant_nonneg [OF m(1), of 2] show ?thesis
    using ok [of a b d] ok [of a' b' d']
    by (intro exI [of _ "quant 2 ?r"] exI [of _ "quant 2 ?r'"]) (simp del: power_one_right)
qed

text \<open>The docstring's examples: a million at 300 or 400 bps for a week.\<close>

lemma loan_fee_correct_witness:
  "\<exists>f f'. compute_loan_fee 1000000 300 7 = Inr f \<and> compute_loan_fee 1000000 400 7 = Inr f'
    \<and> 0 \<le> f \<and> f \<le> f' \<and> quant 2 f = f
    \<and> \<bar>f - exact_loan_fee 1000000 300 7\<bar> \<le> 1 / 200 + 3 / 10 ^ 27 * exact_loan_fee 1000000 300 7"
  by (rule loan_fee_correct) (simp_all add: exact_loan_fee_def)

lemma compute_loan_fee_example: "compute_loan_fee 1000000 300 7 = Inr (57534 / 100)"
proof -
  have days: "ctx (7 / 365) = 1917808219178082191780821918 / 10 ^ 29"
    by (subst ctx_eval [where k = 29])
      (simp_all add: round_half_even_def Let_def floor_quotient_numeral)
  have amount: "dmul 1000000 (ctx (300 / 10000)) = 30000"
  proof -
    have "ctx (300 / 10000) = 3 / 100" using ctx_cents [of 3] by simp
    moreover have "ctx (1000000 * (3 / 100)) = 30000" using ctx_of_int [of 30000] by simp
    ultimately show ?thesis unfolding dmul_def by presburger
  qed
  have raw: "raw_loan_fee 1000000 300 7 = 5753424657534246575342465754 / 10 ^ 25"
    unfolding raw_loan_fee_def BPS_DIVISOR_def DAYS_IN_YEAR_def days amount unfolding dmul_def
    by (subst ctx_eval [where k = 25])
      (simp_all add: round_half_even_def Let_def floor_quotient_numeral)
  show ?thesis unfolding compute_loan_fee_def raw
    by (simp add: quantize_def quant_def round_half_up_def floor_quotient_numeral)
qed

section \<open>Royalty and cascade pricing\<close>

lemma royalty_Inr:
  "compute_platform_royalty fee rate = Inr r \<Longrightarrow> r = quant 2 (dmul fee rate)"
  by (simp add: compute_platform_royalty_def quantize_Inr_iff)

lemma royalty_split:
  assumes "fee = of_int k / 100" "0 \<le> k" "k < 10 ^ 26" "0 \<le> rate" "rate \<le> 1"
  shows "\<exists>r. compute_platform_royalty fee rate = Inr r \<and> 0 \<le> r \<and> r \<le> fee
    \<and> r = quant 2 r \<and> r + dsub fee r = fee \<and> 0 \<le> dsub fee r"
proof -
  have kb: "of_int k < (10 :: rat) ^ 26" using assms(3) by (metis of_int_less_iff of_int_numeral of_int_power)
  have f0: "0 \<le> fee" using assms by simp
  have m: "0 \<le> dmul fee rate" "dmul fee rate \<le> fee"
  proof -
    show "0 \<le> dmul fee rate" using f0 assms by (intro dmul_nonneg)
    have "dmul fee rate \<le> ctx fee" unfolding dmul_def using f0 assms mult_left_mono [of rate 1 fee]
      by (intro ctx_mono) simp
    also have "ctx fee = fee" unfolding assms(1) by (rule ctx_cents) (use assms in simp)
    finally show "dmul fee rate \<le> fee" .
  qed
  let ?r = "quant 2 (dmul fee rate)"
  have ok: "compute_platform_royalty fee rate = Inr ?r"
    unfolding compute_platform_royalty_def
  proof (rule quantize_Inr)
    have "\<bar>dmul fee rate\<bar> * 10 ^ 2 \<le> of_int k"
      using m unfolding abs_of_nonneg [OF m(1)] by (simp add: assms(1))
    also have "of_int k < (10 :: rat) ^ 28 - 1" by (rule less_trans [OF kb]) simp
    finally show "\<bar>dmul fee rate\<bar> * 10 ^ 2 < 10 ^ 28 - 1" .
  qed
  have qf: "quant 2 fee = fee" by (rule quant_fixed [where k = k]) (simp add: assms(1))
  have le: "0 \<le> ?r" "?r \<le> fee" using quant_nonneg [OF m(1), of 2] quant_mono [OF m(2), of 2] qf by simp_all
  let ?j = "round_half_up (dmul fee rate * 10 ^ 2)"
  have r: "?r = of_int ?j / 100" by (simp add: quant_def)
  have j: "0 \<le> ?j" "?j \<le> k"
  proof -
    show "0 \<le> ?j" using m by (intro round_half_up_nonneg) simp
    have "of_int ?j / 100 \<le> fee" using le(2) r by simp
    then have "of_int ?j \<le> fee * 100" by simp
    also have "fee * 100 = of_int k" using assms(1) by simp
    finally show "?j \<le> k" by simp
  qed
  have "fee - ?r = of_int k / 100 - of_int ?j / 100"
    by (rule arg_cong2 [where f = "(-)", OF assms(1) r])
  then have "fee - ?r = of_int (k - ?j) / 100" by (simp add: diff_divide_distrib)
  moreover have "ctx (of_int (k - ?j) / 100) = of_int (k - ?j) / 100"
    by (rule ctx_cents) (use j assms(3) in simp)
  ultimately have "dsub fee ?r = fee - ?r" unfolding dsub_def by presburger
  with ok le show ?thesis by (intro exI [of _ ?r]) simp
qed

text \<open>
  The licensor's royalty on a fee in cents, at a rate between 0 and 1, is a whole number of cents
  between 0 and the fee, and the remainder \<open>fee - royalty\<close> is computed exactly: royalty and remainder
  add up to the fee.
\<close>

lemma royalty_splits_fee:
  assumes "fee = of_int cents / 100" "0 \<le> cents" "cents < 10 ^ 26" "0 \<le> rate" "rate \<le> 1"
  shows "\<exists>r. compute_platform_royalty fee rate = Inr r \<and> 0 \<le> r \<and> r \<le> fee \<and> quant 2 r = r
    \<and> r + dsub fee r = fee"
  using royalty_split [OF assms] by metis

lemma royalty_splits_fee_witness:
  "\<exists>r. compute_platform_royalty (57534 / 100) PLATFORM_ROYALTY_RATE = Inr r \<and> 0 \<le> r
    \<and> r \<le> 57534 / 100 \<and> quant 2 r = r \<and> r + dsub (57534 / 100) r = 57534 / 100"
  by (rule royalty_splits_fee [where cents = 57534]) (simp_all add: PLATFORM_ROYALTY_RATE_def)

lemma cascade_discount_bounds:
  "cascade_discount v c = Inr x \<Longrightarrow> 0 \<le> x \<and> x \<le> 3 / 10"
  by (auto simp: cascade_discount_def ddiv_def CASCADE_DISCOUNT_CAP_def dmul_def min_def
      intro!: ctx_nonneg divide_nonneg_nonneg split: if_splits)

lemma adjusted_pd_bounds:
  assumes "0 \<le> pd" "pd \<le> 1" "0 \<le> x" "x \<le> 3 / 10"
  shows "0 \<le> dmul pd (dsub 1 x)" "dmul pd (dsub 1 x) \<le> ctx pd" "dmul pd (7 / 10) \<le> dmul pd (dsub 1 x)"
proof -
  have c: "ctx (7 / 10) = 7 / 10" using ctx_cents [of 70] by simp
  have "ctx (7 / 10) \<le> dsub 1 x" "dsub 1 x \<le> ctx 1"
    unfolding dsub_def using assms by (auto intro!: ctx_mono)
  then have d: "7 / 10 \<le> dsub 1 x" "dsub 1 x \<le> 1" using c ctx_of_int [of 1] by simp_all
  show "0 \<le> dmul pd (dsub 1 x)" using assms d by (intro dmul_nonneg) simp_all
  show "dmul pd (dsub 1 x) \<le> ctx pd"
    unfolding dmul_def using mult_left_mono [OF d(2) assms(1)] by (intro ctx_mono) simp
  show "dmul pd (7 / 10) \<le> dmul pd (dsub 1 x)" using assms d by (intro dmul_mono) simp_all
qed

text \<open>
  When the cascade pricing returns, its discount is between 0 and the 30 percent cap, the adjusted
  probability of default is not above the (28-digit) base probability and not below 70 percent of it,
  and the adjusted rate meets the 800 bps warehouse floor; the rate at the base probability is then at
  least 800 bps as well, given a base probability of at most 28 digits.
\<close>

lemma cascade_pricing_bounds:
  assumes "compute_cascade_adjusted_pd pd v c lgd = Inr r" "ctx pd = pd" "0 \<le> lgd"
  shows "0 \<le> cap_cascade_discount r \<and> cap_cascade_discount r \<le> 3 / 10
    \<and> dmul pd (7 / 10) \<le> cap_cascade_adjusted_pd r \<and> cap_cascade_adjusted_pd r \<le> pd
    \<and> 800 \<le> cap_cascade_adjusted_fee_bps r
    \<and> cap_cascade_adjusted_fee_bps r \<le> cap_base_fee_bps r"
proof -
  from assms(1) obtain x f f' where x: "cascade_discount v c = Inr x"
    and pd: "0 \<le> pd" "pd \<le> 1"
    and f: "compute_fee_bps_from_el pd lgd DEFAULT_MATURITY_HOURS = Inr f"
    and f': "compute_fee_bps_from_el (dmul pd (dsub 1 x)) lgd DEFAULT_MATURITY_HOURS = Inr f'"
    and ge: "800 \<le> f'"
    and r: "cap_cascade_discount r = x" "cap_cascade_adjusted_pd r = dmul pd (dsub 1 x)"
      "cap_base_fee_bps r = f" "cap_cascade_adjusted_fee_bps r = f'"
    by (auto simp: compute_cascade_adjusted_pd_def res_bind_Inr_iff Let_def
        WAREHOUSE_ELIGIBILITY_FLOOR_BPS_def split: if_splits)
  note xb = cascade_discount_bounds [OF x]
  note ab = adjusted_pd_bounds [OF pd, of x] 
  have "dmul (dmul (dmul pd (dsub 1 x)) lgd) BPS_DIVISOR \<le> dmul (dmul pd lgd) BPS_DIVISOR"
    using ab xb assms
    by (intro dmul_mono [OF dmul_mono] order_refl dmul_nonneg [where a = "dmul _ _"])
      (auto simp: BPS_DIVISOR_def)
  then have "f' \<le> f"
    unfolding fee_bps_Inr [OF f] fee_bps_Inr [OF f'] by (intro quant_mono max.mono) simp_all
  with xb ab ge assms(2) show ?thesis unfolding r by auto
qed

lemma cascade_pricing_example:
  "compute_cascade_adjusted_pd (1 / 2) 1000000 1000000 (45 / 100) =
     Inr \<lparr> cap_base_pd = 1 / 2, cap_cascade_adjusted_pd = 45 / 100, cap_cascade_discount = 1 / 10,
           cap_base_fee_bps = 2250, cap_cascade_adjusted_fee_bps = 2025,
           cap_cascade_value_prevented = 1000000, cap_intervention_cost = 1000000 \<rparr>"
proof -
  have c: "ctx (of_int k / 10 ^ 4) = of_int k / 10 ^ 4" if "\<bar>k\<bar> < 10 ^ 28" for k
    by (rule ctx_exact [where k = k and e = "- 4", OF that]) (simp add: power_int_def power_divide)
  have d: "cascade_discount 1000000 1000000 = Inr (1 / 10)"
    using c [of 1000] ctx_of_int [of 10000000]
    by (simp add: cascade_discount_def ddiv_def dmul_def CASCADE_DISCOUNT_CAP_def)
  have m: "dmul (1 / 2) (dsub 1 (1 / 10)) = 45 / 100"
  proof -
    have nine: "dsub 1 (1 / 10) = 9 / 10" using c [of 9000] by (simp add: dsub_def)
    show ?thesis unfolding nine dmul_def using c [of 4500] by simp
  qed
  have f: "compute_fee_bps_from_el (of_int k / 100) (45 / 100) DEFAULT_MATURITY_HOURS = Inr (of_int (45 * k))"
    if "10 \<le> k" "k \<le> 100" for k
  proof -
    have a1: "dmul (of_int k / 100) (45 / 100) = of_int (45 * k) / 10 ^ 4"
    proof -
      have "of_int k / 100 * (45 / 100) = (of_int (45 * k) / 10 ^ 4 :: rat)" by simp
      moreover have "ctx (of_int (45 * k) / 10 ^ 4) = of_int (45 * k) / 10 ^ 4"
        by (rule c) (use that in simp)
      ultimately show ?thesis unfolding dmul_def by presburger
    qed
    have a2: "dmul (of_int (45 * k) / 10 ^ 4) BPS_DIVISOR = of_int (45 * k)"
      using ctx_of_int [of "45 * k"] that by (simp add: dmul_def BPS_DIVISOR_def)
    have a3: "max (of_int (45 * k)) 300 = (of_int (45 * k) :: rat)" using that by simp
    have a4: "quantize 1 (of_int (45 * k)) = Inr (of_int (45 * k))"
    proof -
      have "of_int (45 * k) * (10 :: rat) ^ 1 = of_int (450 * k)" by simp
      then show ?thesis
        unfolding quantize_def quant_def using that by (simp only: round_half_up_int) simp
    qed
    have a5: "applicable_fee_floor_bps DEFAULT_MATURITY_HOURS = 300"
      by (simp add: applicable_fee_floor_bps_def is_subday_rail_def DEFAULT_MATURITY_HOURS_def fee_constants)
    show ?thesis
      unfolding compute_fee_bps_from_el_def Let_def a1 a2 a5 a3 a4 ..
  qed
  from f [of 50] f [of 45] show ?thesis
    by (simp add: compute_cascade_adjusted_pd_def d m WAREHOUSE_ELIGIBILITY_FLOOR_BPS_def)
qed

lemma cascade_pricing_bounds_witness: "dmul (1 / 2) (7 / 10) \<le> 45 / 100 \<and> (800 :: rat) \<le> 2025"
  using cascade_pricing_bounds [OF cascade_pricing_example] ctx_cents [of 50] by simp

end
