(* ===== verification/Deployment_Phase.thy ===== *)
theory Deployment_Phase
  imports Constants
begin

text \<open>
  \<open>lip/common/deployment_phase.py\<close>: the three capital structures and the fee waterfall.  Shown: for a
  fee in whole cents the shares are computed without any rounding loss: they are non-negative, BPI and
  bank add up to the fee, the bank's two parts to the bank's share, and every share is within a cent
  of its contractual fraction.
\<close>

definition CAPITAL_PROVIDER_PREFERRED_RATE :: dec where
  "CAPITAL_PROVIDER_PREFERRED_RATE = 12 / 100"

datatype DeploymentPhase = LICENSOR | HYBRID | FULL_MLO

fun phase_value :: "DeploymentPhase \<Rightarrow> string" where
  "phase_value LICENSOR = ''LICENSOR''"
| "phase_value HYBRID = ''HYBRID''"
| "phase_value FULL_MLO = ''FULL_MLO''"

record PhaseFeeConfig =
  bpi_fee_share :: dec
  bank_fee_share :: dec
  cfg_income_type :: string
  bank_capital_return_share :: dec
  bank_distribution_premium_share :: dec

record FeeWaterfall =
  fw_deployment_phase :: string
  fw_income_type :: string
  total_fee_usd :: dec
  bpi_share_usd :: dec
  bank_share_usd :: dec
  bank_capital_return_usd :: dec
  bank_distribution_premium_usd :: dec
  capital_provider_cost_usd :: dec

definition LICENSOR_BANK_SHARE :: dec where
  "LICENSOR_BANK_SHARE = dsub 1 PHASE_1_BPI_FEE_SHARE"

fun get_phase_config :: "DeploymentPhase \<Rightarrow> PhaseFeeConfig" where
  "get_phase_config LICENSOR =
     \<lparr> bpi_fee_share = PHASE_1_BPI_FEE_SHARE, bank_fee_share = LICENSOR_BANK_SHARE,
       cfg_income_type = ''ROYALTY'', bank_capital_return_share = 0,
       bank_distribution_premium_share = LICENSOR_BANK_SHARE \<rparr>"
| "get_phase_config HYBRID =
     \<lparr> bpi_fee_share = PHASE_2_BPI_FEE_SHARE, bank_fee_share = dsub 1 PHASE_2_BPI_FEE_SHARE,
       cfg_income_type = ''LENDING_REVENUE'',
       bank_capital_return_share = PHASE_2_BANK_CAPITAL_RETURN,
       bank_distribution_premium_share = PHASE_2_BANK_DISTRIBUTION_PREMIUM \<rparr>"
| "get_phase_config FULL_MLO =
     \<lparr> bpi_fee_share = PHASE_3_BPI_FEE_SHARE, bank_fee_share = dsub 1 PHASE_3_BPI_FEE_SHARE,
       cfg_income_type = ''LENDING_REVENUE'',
       bank_capital_return_share = PHASE_3_BANK_CAPITAL_RETURN,
       bank_distribution_premium_share = PHASE_3_BANK_DISTRIBUTION_PREMIUM \<rparr>"

definition capital_provider_cost :: "DeploymentPhase \<Rightarrow> dec option \<Rightarrow> py_exc + dec" where
  "capital_provider_cost phase capital_deployed =
     (case capital_deployed of
        Some c \<Rightarrow>
          if phase \<noteq> LICENSOR then quantize 2 (dmul c CAPITAL_PROVIDER_PREFERRED_RATE) else Inr 0
      | None \<Rightarrow> Inr 0)"

definition compute_fee_waterfall ::
    "dec \<Rightarrow> DeploymentPhase \<Rightarrow> dec option \<Rightarrow> py_exc + FeeWaterfall" where
  "compute_fee_waterfall fee phase capital_deployed =
     (let cfg = get_phase_config phase in
      res_bind (quantize 2 (dmul fee (bpi_fee_share cfg))) (\<lambda>bpi_share.
      res_bind (quantize 2 (dmul fee (bank_fee_share cfg))) (\<lambda>_.
      let bank_share = dsub fee bpi_share in
      res_bind (quantize 2 (dmul fee (bank_capital_return_share cfg))) (\<lambda>bank_capital_return.
      let bank_distribution_premium = dsub bank_share bank_capital_return in
      res_bind (capital_provider_cost phase capital_deployed) (\<lambda>capital_cost.
      Inr \<lparr> fw_deployment_phase = phase_value phase, fw_income_type = cfg_income_type cfg,
            total_fee_usd = fee, bpi_share_usd = bpi_share, bank_share_usd = bank_share,
            bank_capital_return_usd = bank_capital_return,
            bank_distribution_premium_usd = bank_distribution_premium,
            capital_provider_cost_usd = capital_cost \<rparr>)))))"

section \<open>The configurations\<close>

lemma dsub_1_shares:
  "dsub 1 (3 / 10) = 7 / 10" "dsub 1 (11 / 20) = 9 / 20" "dsub 1 (4 / 5) = 1 / 5"
  using ctx_cents [of 70] ctx_cents [of 45] ctx_cents [of 20] by (simp_all add: dsub_def)

text \<open>Each configuration's shares, in hundredths of the fee.\<close>

fun bpi_pct :: "DeploymentPhase \<Rightarrow> int" where
  "bpi_pct LICENSOR = 30" | "bpi_pct HYBRID = 55" | "bpi_pct FULL_MLO = 80"

fun capital_pct :: "DeploymentPhase \<Rightarrow> int" where
  "capital_pct LICENSOR = 0" | "capital_pct HYBRID = 30" | "capital_pct FULL_MLO = 0"

lemma config_pct:
  "bpi_fee_share (get_phase_config ph) = of_int (bpi_pct ph) / 100"
  "bank_fee_share (get_phase_config ph) = of_int (100 - bpi_pct ph) / 100"
  "bank_capital_return_share (get_phase_config ph) = of_int (capital_pct ph) / 100"
  by (cases ph; simp add: phase_constants PLATFORM_ROYALTY_RATE_def LICENSOR_BANK_SHARE_def
      dsub_1_shares)+

lemma config_invariants:
  "bpi_fee_share (get_phase_config ph) + bank_fee_share (get_phase_config ph) = 1"
  "bank_capital_return_share (get_phase_config ph) + bank_distribution_premium_share (get_phase_config ph)
     = bank_fee_share (get_phase_config ph)"
  by (cases ph; simp add: phase_constants PLATFORM_ROYALTY_RATE_def LICENSOR_BANK_SHARE_def
      dsub_1_shares)+

section \<open>Shares in cents\<close>

text \<open>The share of \<open>p\<close> percent of \<open>k\<close> cents, in cents.\<close>

definition share_cents :: "int \<Rightarrow> int \<Rightarrow> int" where
  "share_cents p k = (k * p + 50) div 100"

lemma quantize_share:
  assumes "0 \<le> k" "k < 10 ^ 24" "0 \<le> p" "p \<le> 100"
  shows "quantize 2 (dmul (of_int k / 100) (of_int p / 100)) = Inr (of_int (share_cents p k) / 100)"
proof -
  have kp: "0 \<le> k * p" "k * p < 10 ^ 26"
  proof -
    show "0 \<le> k * p" using assms(1,3) by (rule mult_nonneg_nonneg)
    have "k * p \<le> k * 100" using assms(4,1) by (rule mult_left_mono)
    also have "\<dots> < 10 ^ 24 * 100" using assms(2) by (rule mult_strict_right_mono) simp
    finally show "k * p < 10 ^ 26" by simp
  qed
  have e1: "dmul (of_int k / 100) (of_int p / 100) = of_int (k * p) / 10 ^ 4"
  proof -
    have "of_int k / 100 * (of_int p / 100) = (of_int (k * p) / 10 ^ 4 :: rat)" by simp
    moreover have "ctx (of_int (k * p) / 10 ^ 4) = of_int (k * p) / 10 ^ 4"
      by (rule ctx_exact [where k = "k * p" and e = "- 4"])
        (use kp in \<open>simp_all add: power_int_def power_divide\<close>)
    ultimately show ?thesis unfolding dmul_def by presburger
  qed
  have e2: "round_half_up (of_int (k * p) / 10 ^ 4 * 10 ^ 2) = share_cents p k"
  proof -
    have "of_int (k * p) / 10 ^ 4 * 10 ^ 2 + 1 / 2 = (of_int (k * p + 50) / of_int 100 :: rat)" by simp
    then have "\<lfloor>of_int (k * p) / 10 ^ 4 * 10 ^ 2 + 1 / 2 :: rat\<rfloor> = (k * p + 50) div 100"
      by (simp only: floor_divide_of_int_eq)
    moreover have "(0 :: rat) \<le> of_int (k * p) / 10 ^ 4 * 10 ^ 2"
      by (intro mult_nonneg_nonneg divide_nonneg_nonneg, unfold of_int_0_le_iff, rule kp(1)) simp_all
    ultimately show ?thesis by (simp only: round_half_up_def if_True share_cents_def)
  qed
  have e3: "\<bar>share_cents p k\<bar> < 10 ^ 28" using kp by (simp add: share_cents_def)
  show ?thesis unfolding quantize_def quant_def e1 e2 using e3 by simp
qed

text \<open>
  The bank's two parts stay non-negative: the capital return, rounded, never exceeds what BPI's rounded
  share leaves.
\<close>

lemma shares_fit:
  assumes "0 \<le> k"
  shows "0 \<le> share_cents (bpi_pct ph) k" "share_cents (bpi_pct ph) k \<le> k"
    "0 \<le> share_cents (capital_pct ph) k"
    "share_cents (bpi_pct ph) k + share_cents (capital_pct ph) k \<le> k"
    "\<bar>100 * share_cents p k - k * p\<bar> \<le> 50"
proof -
  have hybrid: "(k * 55 + 50) div 100 + (k * 30 + 50) div 100 \<le> k"
  proof (cases "k \<le> 6")
    case True
    with assms have "k \<in> {0, 1, 2, 3, 4, 5, 6}" by auto
    then show ?thesis by (elim insertE emptyE) simp_all
  next
    case False
    then show ?thesis by linarith
  qed
  show "0 \<le> share_cents (bpi_pct ph) k" "0 \<le> share_cents (capital_pct ph) k"
    using assms by (cases ph; simp add: share_cents_def)+
  show "share_cents (bpi_pct ph) k + share_cents (capital_pct ph) k \<le> k"
    using assms hybrid by (cases ph; simp add: share_cents_def; linarith)
  with \<open>0 \<le> share_cents (capital_pct ph) k\<close> show "share_cents (bpi_pct ph) k \<le> k" by linarith
  show "\<bar>100 * share_cents p k - k * p\<bar> \<le> 50" unfolding share_cents_def by linarith
qed

lemma dsub_cents:
  assumes "0 \<le> j" "j \<le> k" "k < 10 ^ 24"
  shows "dsub (of_int k / 100) (of_int j / 100) = of_int (k - j) / 100"
proof -
  have "of_int k / 100 - of_int j / 100 = (of_int (k - j) / 100 :: rat)"
    by (simp add: diff_divide_distrib)
  moreover have "ctx (of_int (k - j) / 100) = of_int (k - j) / 100"
    by (rule ctx_cents) (use assms in simp)
  ultimately show ?thesis unfolding dsub_def by presburger
qed

lemma waterfall_eq:
  assumes "0 \<le> k" "k < 10 ^ 24" "capital_provider_cost ph cap = Inr cost"
  defines "b \<equiv> share_cents (bpi_pct ph) k" and "c \<equiv> share_cents (capital_pct ph) k"
  shows "compute_fee_waterfall (of_int k / 100) ph cap =
    Inr \<lparr> fw_deployment_phase = phase_value ph,
          fw_income_type = cfg_income_type (get_phase_config ph), total_fee_usd = of_int k / 100,
          bpi_share_usd = of_int b / 100, bank_share_usd = of_int (k - b) / 100,
          bank_capital_return_usd = of_int c / 100,
          bank_distribution_premium_usd = of_int (k - b - c) / 100,
          capital_provider_cost_usd = cost \<rparr>"
proof -
  have pct: "0 \<le> bpi_pct ph" "bpi_pct ph \<le> 100" "0 \<le> 100 - bpi_pct ph" "100 - bpi_pct ph \<le> 100"
    "0 \<le> capital_pct ph" "capital_pct ph \<le> 100"
    by (cases ph; simp)+
  have q: "quantize 2 (dmul (of_int k / 100) (of_int p / 100)) = Inr (of_int (share_cents p k) / 100)"
    if "0 \<le> p" "p \<le> 100" for p
    using quantize_share [OF assms(1,2) that] .
  have s1: "dsub (of_int k / 100) (of_int b / 100) = of_int (k - b) / 100"
    using shares_fit [OF assms(1)] assms(2) by (intro dsub_cents) (simp_all add: b_def)
  have "c \<le> k - b" "0 \<le> c" "k - b < 10 ^ 24"
    using shares_fit(1-4) [OF assms(1), of ph] assms(2) by (simp_all add: b_def c_def)
  then have s2: "dsub (of_int (k - b) / 100) (of_int c / 100) = of_int (k - b - c) / 100"
    by (intro dsub_cents)
  show ?thesis
    unfolding compute_fee_waterfall_def Let_def config_pct q [OF pct(1,2)] q [OF pct(3,4)]
      q [OF pct(5,6)] res_bind_simps b_def [symmetric] c_def [symmetric] s1 s2 assms(3) ..
qed

text \<open>
  C17: the fee waterfall conserves money.  For a fee of \<open>k\<close> whole cents in any phase (and no deployed
  capital to report) the waterfall is computed; no share is negative, BPI's and the bank's share add up
  to the fee, the bank's capital return and distribution premium add up to the bank's share, and BPI's
  share is within half a cent of its contractual percentage.
\<close>

theorem waterfall_conserves_fee:
  assumes "fee = of_int k / 100" "0 \<le> k" "k < 10 ^ 24"
  shows "\<exists>w. compute_fee_waterfall fee ph None = Inr w
    \<and> bpi_share_usd w + bank_share_usd w = fee
    \<and> bank_capital_return_usd w + bank_distribution_premium_usd w = bank_share_usd w
    \<and> 0 \<le> bpi_share_usd w \<and> 0 \<le> bank_share_usd w
    \<and> 0 \<le> bank_capital_return_usd w \<and> 0 \<le> bank_distribution_premium_usd w
    \<and> \<bar>bpi_share_usd w - fee * bpi_fee_share (get_phase_config ph)\<bar> \<le> 1 / 200"
proof -
  let ?b = "share_cents (bpi_pct ph) k" and ?c = "share_cents (capital_pct ph) k"
  have none: "capital_provider_cost ph None = Inr 0" by (simp add: capital_provider_cost_def)
  note eq = waterfall_eq [OF assms(2,3) none, folded assms(1)]
  have fit: "0 \<le> ?b" "0 \<le> k - ?b" "0 \<le> ?c" "0 \<le> k - ?b - ?c"
    using shares_fit(1-4) [OF assms(2), of ph] by simp_all
  have "\<bar>of_int (100 * ?b - k * bpi_pct ph) :: rat\<bar> \<le> 50"
    using shares_fit(5) [OF assms(2), of "bpi_pct ph"]
    by (metis of_int_abs of_int_le_iff of_int_numeral)
  moreover have "of_int ?b / 100 - fee * bpi_fee_share (get_phase_config ph)
      = of_int (100 * ?b - k * bpi_pct ph) / 10000"
    by (simp add: assms(1) config_pct diff_divide_distrib)
  moreover have "\<bar>x\<bar> \<le> 50 \<Longrightarrow> \<bar>x / 10000\<bar> \<le> 1 / 200" for x :: rat by (simp add: abs_le_iff)
  ultimately have err: "\<bar>of_int ?b / 100 - fee * bpi_fee_share (get_phase_config ph)\<bar> \<le> 1 / 200"
    by presburger
  show ?thesis
    by (intro exI conjI, rule eq)
      (use fit err in \<open>simp_all add: assms(1) diff_divide_distrib\<close>)
qed

lemma waterfall_conserves_fee_witness:
  "\<exists>w. compute_fee_waterfall (57533 / 100) HYBRID None = Inr w
    \<and> bpi_share_usd w + bank_share_usd w = 57533 / 100
    \<and> bank_capital_return_usd w + bank_distribution_premium_usd w = bank_share_usd w"
  using waterfall_conserves_fee [of "57533 / 100" 57533 HYBRID] by auto

end
