(* ===== verification/Redis_Api.thy ===== *)
theory Redis_Api
  imports Py_Base
begin

text \<open>
  The Redis client, a third-party service: a parameter of the components that may be given one.  \<open>'r\<close>
  is the server's state, and each command the code issues is a field of the record \<open>redis_api\<close>, with
  the time of the call.  \<open>redis_laws\<close> states the documented behaviour the code relies on: \<open>SET NX EX\<close>
  stores only an absent key and says whether it did, \<open>SETEX\<close> always stores, both for the given number
  of seconds; \<open>SET\<close> always stores, for ever; \<open>GET\<close> and \<open>EXISTS\<close> see exactly the unexpired keys; \<open>DELETE\<close> removes a key; commands on
  one key leave the others alone.  The client raises when the server does not answer: \<open>redis_answers\<close>
  says at which times it does, for the code that lets the client's exception through; the code that
  catches it is modelled with a flag per call.  The laws say nothing of when the server answers.

  \<open>map_redis\<close> is a concrete server (a map to value and expiry) that satisfies the laws; it is used only
  to show that they can hold.
\<close>

record 'r redis_api =
  redis_answers :: "'r \<Rightarrow> time \<Rightarrow> bool"
  redis_get :: "'r \<Rightarrow> time \<Rightarrow> string \<Rightarrow> string option"
  redis_exists :: "'r \<Rightarrow> time \<Rightarrow> string \<Rightarrow> bool"
  redis_set_nx_ex :: "'r \<Rightarrow> time \<Rightarrow> string \<Rightarrow> string \<Rightarrow> int \<Rightarrow> bool \<times> 'r"
  redis_set :: "'r \<Rightarrow> time \<Rightarrow> string \<Rightarrow> string \<Rightarrow> 'r"
  redis_setex :: "'r \<Rightarrow> time \<Rightarrow> string \<Rightarrow> int \<Rightarrow> string \<Rightarrow> 'r"
  redis_delete :: "'r \<Rightarrow> time \<Rightarrow> string \<Rightarrow> bool \<times> 'r"

definition redis_laws :: "'r redis_api \<Rightarrow> bool" where
  "redis_laws R \<longleftrightarrow>
     (\<forall>r t k. redis_exists R r t k \<longleftrightarrow> redis_get R r t k \<noteq> None) \<and>
     (\<forall>r t k t'. t \<le> t' \<longrightarrow> redis_get R r t k = None \<longrightarrow> redis_get R r t' k = None) \<and>
     (\<forall>r t k v n. fst (redis_set_nx_ex R r t k v n) \<longleftrightarrow> redis_get R r t k = None) \<and>
     (\<forall>r t k v n t' k'. t \<le> t' \<longrightarrow> 0 < n \<longrightarrow>
        redis_get R (snd (redis_set_nx_ex R r t k v n)) t' k' =
          (if k' = k \<and> redis_get R r t k = None then (if t' < t + of_int n then Some v else None)
           else redis_get R r t' k')) \<and>
     (\<forall>r t k v t' k'. t \<le> t' \<longrightarrow>
        redis_get R (redis_set R r t k v) t' k' = (if k' = k then Some v else redis_get R r t' k')) \<and>
     (\<forall>r t k v n t' k'. t \<le> t' \<longrightarrow> 0 < n \<longrightarrow>
        redis_get R (redis_setex R r t k n v) t' k' =
          (if k' = k then (if t' < t + of_int n then Some v else None) else redis_get R r t' k')) \<and>
     (\<forall>r t k t' k'. t \<le> t' \<longrightarrow>
        redis_get R (snd (redis_delete R r t k)) t' k' =
          (if k' = k then None else redis_get R r t' k'))"

lemma redis_exists_get: "redis_laws R \<Longrightarrow> redis_exists R r t k \<longleftrightarrow> redis_get R r t k \<noteq> None"
  unfolding redis_laws_def by (elim conjE) (simp only: simp_thms)

lemma redis_stays_expired:
  "redis_laws R \<Longrightarrow> t \<le> t' \<Longrightarrow> redis_get R r t k = None \<Longrightarrow> redis_get R r t' k = None"
  unfolding redis_laws_def by (elim conjE) (simp only: simp_thms)

lemma redis_set_nx_result:
  "redis_laws R \<Longrightarrow> fst (redis_set_nx_ex R r t k v n) \<longleftrightarrow> redis_get R r t k = None"
  unfolding redis_laws_def by (elim conjE) (simp only: simp_thms)

lemma redis_get_set_nx:
  "redis_laws R \<Longrightarrow> t \<le> t' \<Longrightarrow> 0 < n \<Longrightarrow>
   redis_get R (snd (redis_set_nx_ex R r t k v n)) t' k' =
     (if k' = k \<and> redis_get R r t k = None then (if t' < t + of_int n then Some v else None)
      else redis_get R r t' k')"
  unfolding redis_laws_def by (elim conjE) (simp only: simp_thms)

lemma redis_get_setex:
  "redis_laws R \<Longrightarrow> t \<le> t' \<Longrightarrow> 0 < n \<Longrightarrow>
   redis_get R (redis_setex R r t k n v) t' k' =
     (if k' = k then (if t' < t + of_int n then Some v else None) else redis_get R r t' k')"
  unfolding redis_laws_def by (elim conjE) (simp only: simp_thms)

lemma redis_get_set:
  "redis_laws R \<Longrightarrow> t \<le> t' \<Longrightarrow>
   redis_get R (redis_set R r t k v) t' k' = (if k' = k then Some v else redis_get R r t' k')"
  unfolding redis_laws_def by (elim conjE) (simp only: simp_thms)

lemma redis_get_delete:
  "redis_laws R \<Longrightarrow> t \<le> t' \<Longrightarrow>
   redis_get R (snd (redis_delete R r t k)) t' k' = (if k' = k then None else redis_get R r t' k')"
  unfolding redis_laws_def by (elim conjE) (simp only: simp_thms)

section \<open>A server that satisfies the laws\<close>

type_synonym redis_map = "string \<rightharpoonup> string \<times> time option"

definition map_redis_get :: "redis_map \<Rightarrow> time \<Rightarrow> string \<Rightarrow> string option" where
  "map_redis_get r t k = 
     (case r k of
        None \<Rightarrow> None
      | Some (v, None) \<Rightarrow> Some v
      | Some (v, Some e) \<Rightarrow> if t < e then Some v else None)"

definition map_redis :: "redis_map redis_api" where
  "map_redis =
     \<lparr> redis_answers = (\<lambda>r t. True),
       redis_get = map_redis_get,
       redis_exists = (\<lambda>r t k. map_redis_get r t k \<noteq> None),
       redis_set_nx_ex = (\<lambda>r t k v n.
         if map_redis_get r t k = None then (True, r(k \<mapsto> (v, Some (t + of_int n)))) else (False, r)),
       redis_set = (\<lambda>r t k v. r(k \<mapsto> (v, None))),
       redis_setex = (\<lambda>r t k n v. r(k \<mapsto> (v, Some (t + of_int n)))),
       redis_delete = (\<lambda>r t k. (map_redis_get r t k \<noteq> None, r(k := None))) \<rparr>"

lemma map_redis_laws: "redis_laws map_redis"
  by (auto simp: redis_laws_def map_redis_def map_redis_get_def split: option.splits if_splits)

end
