(* ===== verification/Expiring_Store.thy ===== *)
theory Expiring_Store
  imports Py_Base
begin

text \<open>
  The contract of the program's in-memory stores whose entries expire: the UETR tracker, the cross-rail
  handoff index and the EndToEndId mapping.  Each checks the age of an entry when it is read and drops
  expired entries in a sweep that runs every so many calls.  The contract says what a read returns, in
  terms of the entries held, and that reads and writes change the entries only as asked, except that
  expired ones may disappear.

  The specification is a store that never drops anything.  Shown in the locale: over every history of
  reads and writes whose clock does not run backwards, the store answers every read exactly as the
  specification does, so that no sweep is ever observable.
\<close>

datatype ('k, 'v) store_event =
    Write time 'k 'v time
  | Read time 'k

fun event_time :: "('k, 'v) store_event \<Rightarrow> time" where
  "event_time (Write t k v e) = t"
| "event_time (Read t k) = t"

text \<open>The clock is monotone along a history that starts at \<open>t\<close>.\<close>

fun clock_ok :: "time \<Rightarrow> ('k, 'v) store_event list \<Rightarrow> bool" where
  "clock_ok t [] \<longleftrightarrow> True"
| "clock_ok t (ev # evs) \<longleftrightarrow> t \<le> event_time ev \<and> clock_ok (event_time ev) evs"

section \<open>The specification\<close>

definition live_value :: "(time \<Rightarrow> time \<Rightarrow> bool) \<Rightarrow> time \<Rightarrow> ('v \<times> time) option \<Rightarrow> 'v option" where
  "live_value dead t entry =
     (case entry of None \<Rightarrow> None | Some (v, e) \<Rightarrow> if dead e t then None else Some v)"

fun spec_reads ::
    "(time \<Rightarrow> time \<Rightarrow> bool) \<Rightarrow> ('k \<rightharpoonup> 'v \<times> time) \<Rightarrow> ('k, 'v) store_event list \<Rightarrow> 'v option list" where
  "spec_reads dead m [] = []"
| "spec_reads dead m (Write t k v e # evs) = spec_reads dead (m(k \<mapsto> (v, e))) evs"
| "spec_reads dead m (Read t k # evs) = live_value dead t (m k) # spec_reads dead m evs"

text \<open>\<open>m'\<close> is \<open>m\<close> without some of the entries that have expired at \<open>t\<close>.\<close>

definition swept :: "(time \<Rightarrow> time \<Rightarrow> bool) \<Rightarrow> time \<Rightarrow> ('k \<rightharpoonup> 'v \<times> time) \<Rightarrow> ('k \<rightharpoonup> 'v \<times> time) \<Rightarrow> bool" where
  "swept dead t m m' \<longleftrightarrow>
     (\<forall>k. m' k = m k \<or> m' k = None \<and> (\<exists>v e. m k = Some (v, e) \<and> dead e t))"

lemma swept_refl [simp, intro]: "swept dead t m m"
  by (simp add: swept_def)

lemma swept_live: "swept dead t m m' \<Longrightarrow> live_value dead t (m' k) = live_value dead t (m k)"
  unfolding swept_def live_value_def by (drule spec [of _ k]) auto

lemma swept_upd: "swept dead t m m' \<Longrightarrow> swept dead t (m(k \<mapsto> x)) (m'(k \<mapsto> x))"
  by (simp add: swept_def)

section \<open>The contract\<close>

locale expiring_store =
  fixes view :: "'s \<Rightarrow> 'k \<rightharpoonup> 'v \<times> time"
    and rd :: "'s \<Rightarrow> time \<Rightarrow> 'k \<Rightarrow> 'v option \<times> 's"
    and wr :: "'s \<Rightarrow> time \<Rightarrow> 'k \<Rightarrow> 'v \<Rightarrow> time \<Rightarrow> 's"
    and dead :: "time \<Rightarrow> time \<Rightarrow> bool"
    and inv :: "'s \<Rightarrow> bool"
    and stamp_ok :: "time \<Rightarrow> time \<Rightarrow> bool"
  assumes dead_mono: "dead e t \<Longrightarrow> t \<le> t' \<Longrightarrow> dead e t'"
    and rd_value: "inv s \<Longrightarrow> fst (rd s t k) = live_value dead t (view s k)"
    and rd_swept: "inv s \<Longrightarrow> swept dead t (view s) (view (snd (rd s t k)))"
    and rd_inv: "inv s \<Longrightarrow> inv (snd (rd s t k))"
    and wr_swept: "inv s \<Longrightarrow> stamp_ok t e \<Longrightarrow> swept dead t ((view s)(k \<mapsto> (v, e))) (view (wr s t k v e))"
    and wr_inv: "inv s \<Longrightarrow> stamp_ok t e \<Longrightarrow> inv (wr s t k v e)"
begin

fun reads :: "'s \<Rightarrow> ('k, 'v) store_event list \<Rightarrow> 'v option list" where
  "reads s [] = []"
| "reads s (Write t k v e # evs) = reads (wr s t k v e) evs"
| "reads s (Read t k # evs) = fst (rd s t k) # reads (snd (rd s t k)) evs"

definition stamps_ok :: "('k, 'v) store_event list \<Rightarrow> bool" where
  "stamps_ok evs \<longleftrightarrow> (\<forall>t k v e. Write t k v e \<in> set evs \<longrightarrow> stamp_ok t e)"

lemma swept_later: "swept dead t m m' \<Longrightarrow> t \<le> t' \<Longrightarrow> swept dead t' m m'"
  unfolding swept_def by (meson dead_mono)

lemma swept_trans: "swept dead t m m' \<Longrightarrow> swept dead t m' m'' \<Longrightarrow> swept dead t m m''"
  unfolding swept_def by metis

theorem reads_refine_spec:
  assumes "inv s" "swept dead t m (view s)" "clock_ok t evs" "stamps_ok evs"
  shows "reads s evs = spec_reads dead m evs"
  using assms
proof (induction evs arbitrary: s t m)
  case (Cons ev evs)
  have rest: "stamps_ok evs" using Cons.prems(4) by (simp add: stamps_ok_def)
  show ?case
  proof (cases ev)
    case (Write t' k v e)
    with Cons.prems have t': "t \<le> t'" "clock_ok t' evs" and ok: "stamp_ok t' e"
      by (auto simp: stamps_ok_def)
    have "swept dead t' (m(k \<mapsto> (v, e))) (view (wr s t' k v e))"
      using swept_later [OF Cons.prems(2) t'(1)] wr_swept [OF Cons.prems(1) ok]
      by (blast intro: swept_trans swept_upd)
    then show ?thesis
      using Cons.IH [OF wr_inv [OF Cons.prems(1) ok]] t' rest Write by (simp add: fun_upd_def)
  next
    case (Read t' k)
    with Cons.prems have t': "t \<le> t'" "clock_ok t' evs" by auto
    have sw: "swept dead t' m (view s)" by (rule swept_later [OF Cons.prems(2) t'(1)])
    then have "swept dead t' m (view (snd (rd s t' k)))"
      using rd_swept [OF Cons.prems(1)] by (blast intro: swept_trans)
    then show ?thesis
      using Cons.IH [OF rd_inv [OF Cons.prems(1)]] t' rest Read swept_live [OF sw]
      by (simp add: rd_value [OF Cons.prems(1)])
  qed
qed simp

text \<open>Two consequences for a single entry: it is found until it expires, and a dead one is not.\<close>

lemma write_then_read:
  assumes "inv s" "stamp_ok t e" "t \<le> t'"
  shows "fst (rd (wr s t k v e) t' k) = (if dead e t' then None else Some v)"
proof -
  have "swept dead t' ((view s)(k \<mapsto> (v, e))) (view (wr s t k v e))"
    using wr_swept [OF assms(1,2)] assms(3) by (rule swept_later)
  from swept_live [OF this, of k] show ?thesis
    by (simp add: rd_value [OF wr_inv [OF assms(1,2)]] live_value_def)
qed

lemma write_other_read:
  assumes "inv s" "stamp_ok t e" "t \<le> t'" "k' \<noteq> k"
  shows "fst (rd (wr s t k v e) t' k') = fst (rd s t' k')"
proof -
  have "swept dead t' ((view s)(k \<mapsto> (v, e))) (view (wr s t k v e))"
    using wr_swept [OF assms(1,2)] assms(3) by (rule swept_later)
  from swept_live [OF this, of k'] show ?thesis
    using assms by (simp add: rd_value [OF wr_inv [OF assms(1,2)]] rd_value)
qed

end

end
