(* ===== verification/UETR_Mapping.thy ===== *)
theory UETR_Mapping
  imports Redis_Api Expiring_Store
begin

text \<open>
  \<open>lip/c3_repayment_engine/uetr_mapping.py\<close>: the table from RTP end-to-end ids to UETRs, in Redis or,
  without a client, in memory with amortised eviction.  \<open>sha256_hex\<close> is \<open>hashlib\<close>'s digest, an
  argument.  The in-memory table is interpreted as an \<open>expiring_store\<close>; shown for both back ends: a
  stored id is found until \<open>(maturity_days + 45)\<close> days have passed and not after, and storing or
  deleting one id does not touch the others.
\<close>

definition UETR_KEY_PREFIX :: string where "UETR_KEY_PREFIX = ''lip:uetr_map:''"
definition DEFAULT_TTL_DAYS :: int where "DEFAULT_TTL_DAYS = 45"
definition MAP_CLEANUP_INTERVAL :: int where "MAP_CLEANUP_INTERVAL = 50"

record 'r UETRMappingTable =
  map_redis_state :: "'r option"
  map_store :: "(string, string \<times> time) dict"
  map_op_count :: int

definition map_init :: "'r option \<Rightarrow> 'r UETRMappingTable" where
  "map_init redis = \<lparr> map_redis_state = redis, map_store = [], map_op_count = 0 \<rparr>"

definition make_key :: "(string \<Rightarrow> string) \<Rightarrow> string \<Rightarrow> string" where
  "make_key sha256_hex end_to_end_id = UETR_KEY_PREFIX @ sha256_hex end_to_end_id"

definition get_ttl_seconds :: "int \<Rightarrow> int" where
  "get_ttl_seconds maturity_days = (maturity_days + DEFAULT_TTL_DAYS) * 86400"

definition map_maybe_evict :: "'r UETRMappingTable \<Rightarrow> time \<Rightarrow> 'r UETRMappingTable" where
  "map_maybe_evict s now =
     (let s = s\<lparr>map_op_count := map_op_count s + 1\<rparr>
      in if map_op_count s mod MAP_CLEANUP_INTERVAL \<noteq> 0 then s
         else s\<lparr>map_store := filter (\<lambda>(k, (u, expiry)). \<not> now > expiry) (map_store s)\<rparr>)"

definition map_put_memory ::
    "'r UETRMappingTable \<Rightarrow> time \<Rightarrow> string \<Rightarrow> string \<Rightarrow> time \<Rightarrow> 'r UETRMappingTable" where
  "map_put_memory s now key uetr expiry =
     map_maybe_evict (s\<lparr>map_store := dset key (uetr, expiry) (map_store s)\<rparr>) now"

definition map_lookup_memory :: "'r UETRMappingTable \<Rightarrow> time \<Rightarrow> string \<Rightarrow> string option \<times> 'r UETRMappingTable" where
  "map_lookup_memory s now key =
     (case dget (map_store s) key of
        None \<Rightarrow> (None, s)
      | Some (uetr, expiry) \<Rightarrow>
          if now > expiry then (None, s\<lparr>map_store := dpop key (map_store s)\<rparr>)
          else (Some uetr, map_maybe_evict s now))"

definition mapping_store ::
    "'r redis_api \<Rightarrow> (string \<Rightarrow> string) \<Rightarrow> 'r UETRMappingTable \<Rightarrow> time \<Rightarrow> string \<Rightarrow> string \<Rightarrow> int
      \<Rightarrow> 'r UETRMappingTable" where
  "mapping_store R sha s now end_to_end_id uetr maturity_days =
     (let key = make_key sha end_to_end_id; ttl_seconds = get_ttl_seconds maturity_days
      in case map_redis_state s of
           Some r \<Rightarrow> s\<lparr>map_redis_state := Some (redis_setex R r now key ttl_seconds uetr)\<rparr>
         | None \<Rightarrow> map_put_memory s now key uetr (now + of_int ttl_seconds))"

definition mapping_lookup ::
    "'r redis_api \<Rightarrow> (string \<Rightarrow> string) \<Rightarrow> 'r UETRMappingTable \<Rightarrow> time \<Rightarrow> string
      \<Rightarrow> string option \<times> 'r UETRMappingTable" where
  "mapping_lookup R sha s now end_to_end_id =
     (let key = make_key sha end_to_end_id
      in case map_redis_state s of
           Some r \<Rightarrow> (redis_get R r now key, s)
         | None \<Rightarrow> map_lookup_memory s now key)"

definition mapping_delete ::
    "'r redis_api \<Rightarrow> (string \<Rightarrow> string) \<Rightarrow> 'r UETRMappingTable \<Rightarrow> time \<Rightarrow> string \<Rightarrow> 'r UETRMappingTable" where
  "mapping_delete R sha s now end_to_end_id =
     (let key = make_key sha end_to_end_id
      in case map_redis_state s of
           Some r \<Rightarrow> s\<lparr>map_redis_state := Some (snd (redis_delete R r now key))\<rparr>
         | None \<Rightarrow> s\<lparr>map_store := dpop key (map_store s)\<rparr>)"

section \<open>The in-memory table is an expiring store\<close>

definition map_dead :: "time \<Rightarrow> time \<Rightarrow> bool" where
  "map_dead expiry now \<longleftrightarrow> now > expiry"

definition map_inv :: "'r UETRMappingTable \<Rightarrow> bool" where
  "map_inv s \<longleftrightarrow> dict_ok (map_store s)"

lemma map_maybe_evict_inv [simp, intro]: "map_inv s \<Longrightarrow> map_inv (map_maybe_evict s now)"
  by (auto simp: map_maybe_evict_def map_inv_def Let_def)

lemma map_maybe_evict_swept:
  "map_inv s \<Longrightarrow> swept map_dead now (dget (map_store s)) (dget (map_store (map_maybe_evict s now)))"
  by (auto simp: map_maybe_evict_def map_inv_def swept_def map_dead_def Let_def dget_filter
      split: option.splits prod.splits)

lemma map_redis_state_simps [simp]:
  "map_redis_state (map_maybe_evict s now) = map_redis_state s"
  "map_redis_state (map_put_memory s now k u e) = map_redis_state s"
  "map_redis_state (snd (map_lookup_memory s now k)) = map_redis_state s"
  by (auto simp: map_maybe_evict_def map_put_memory_def map_lookup_memory_def Let_def
      split: option.splits)

interpretation mapping: expiring_store "\<lambda>s. dget (map_store s)" map_lookup_memory map_put_memory
  map_dead map_inv "\<lambda>t e. True"
proof
  fix s :: "'r UETRMappingTable" and t e k v
  show "map_dead e t \<Longrightarrow> t \<le> t' \<Longrightarrow> map_dead e t'" for e t t' by (simp add: map_dead_def)
  assume inv: "map_inv s"
  show "fst (map_lookup_memory s t k) = live_value map_dead t (dget (map_store s) k)"
    by (simp add: map_lookup_memory_def live_value_def map_dead_def split: option.splits)
  show "swept map_dead t (dget (map_store s)) (dget (map_store (snd (map_lookup_memory s t k))))"
    using map_maybe_evict_swept [OF inv, of t] inv
    by (auto simp: map_lookup_memory_def dict_simps swept_def map_dead_def split: option.splits)
  show "map_inv (snd (map_lookup_memory s t k))"
    using inv by (auto simp: map_lookup_memory_def map_inv_def [of "_\<lparr>map_store := _\<rparr>"]
        map_inv_def [of s] split: option.splits)
  have inv': "map_inv (s\<lparr>map_store := dset k (v, e) (map_store s)\<rparr>)" using inv by (simp add: map_inv_def)
  show "map_inv (map_put_memory s t k v e)" using inv' by (auto simp: map_put_memory_def)
  show "swept map_dead t ((dget (map_store s))(k \<mapsto> (v, e))) (dget (map_store (map_put_memory s t k v e)))"
    using map_maybe_evict_swept [OF inv', of t] by (simp add: map_put_memory_def dict_simps)
qed

section \<open>Both back ends\<close>

lemma make_key_inj:
  "inj_on sha ids \<Longrightarrow> a \<in> ids \<Longrightarrow> b \<in> ids \<Longrightarrow> make_key sha a = make_key sha b \<longleftrightarrow> a = b"
  by (auto simp: make_key_def dest: inj_onD)

lemma lookup_memory_delete:
  "fst (map_lookup_memory (s\<lparr>map_store := dpop k (map_store s)\<rparr>) t k') =
     (if k' = k then None else fst (map_lookup_memory s t k'))"
  by (auto simp: map_lookup_memory_def dict_simps split: option.splits)

lemma mapping_ttl_facts:
  fixes R :: "'r redis_api" and uetr :: string
  assumes "redis_laws R" "map_inv s" "inj_on sha ids" "e2e \<in> ids" "e2e' \<in> ids" "- 45 < maturity" "t \<le> t'"
  defines "expiry \<equiv> t + of_int ((maturity + 45) * 86400)"
    and "s' \<equiv> mapping_store R sha s t e2e uetr maturity"
  shows "t' < expiry \<Longrightarrow> fst (mapping_lookup R sha s' t' e2e) = Some uetr"
    and "expiry < t' \<Longrightarrow> fst (mapping_lookup R sha s' t' e2e) = None"
    and "e2e' \<noteq> e2e \<Longrightarrow> fst (mapping_lookup R sha s' t' e2e') = fst (mapping_lookup R sha s t' e2e')"
    and "fst (mapping_lookup R sha (mapping_delete R sha s t e2e) t' e2e') =
      (if e2e' = e2e then None else fst (mapping_lookup R sha s t' e2e'))"
proof -
  have pos: "0 < get_ttl_seconds maturity" and exp: "expiry = t + of_int (get_ttl_seconds maturity)"
    using assms(6) by (simp_all add: get_ttl_seconds_def DEFAULT_TTL_DAYS_def expiry_def)
  note key = make_key_inj [OF assms(3,5,4)]
  note redis = redis_get_setex [OF assms(1,7) pos] redis_get_delete [OF assms(1,7)]
  note mem = mapping.write_then_read [OF assms(2) TrueI assms(7)]
    mapping.write_other_read [OF assms(2) TrueI assms(7)] lookup_memory_delete
  note defs = mapping_store_def mapping_lookup_def mapping_delete_def Let_def s'_def
  show "t' < expiry \<Longrightarrow> fst (mapping_lookup R sha s' t' e2e) = Some uetr"
    by (cases "map_redis_state s") (simp_all add: defs exp redis mem map_dead_def)
  show "expiry < t' \<Longrightarrow> fst (mapping_lookup R sha s' t' e2e) = None"
    by (cases "map_redis_state s") (simp_all add: defs exp redis mem map_dead_def)
  show "e2e' \<noteq> e2e \<Longrightarrow> fst (mapping_lookup R sha s' t' e2e') = fst (mapping_lookup R sha s t' e2e')"
    by (cases "map_redis_state s") (simp_all add: defs key redis mem)
  show "fst (mapping_lookup R sha (mapping_delete R sha s t e2e) t' e2e') =
      (if e2e' = e2e then None else fst (mapping_lookup R sha s t' e2e'))"
    by (cases "map_redis_state s") (simp_all add: defs key redis mem)
qed

text \<open>
  The EndToEndId table keeps a mapping exactly as long as it promises.  On either back end (any
  Redis client that obeys \<open>redis_laws\<close>, or the in-memory dict with whatever evictions its counter
  triggers), for ids on which SHA-256 has no collision: after \<open>store(id, uetr, maturity)\<close> at time \<open>t\<close>, a
  lookup of \<open>id\<close> at a later time finds \<open>uetr\<close> before \<open>(maturity + 45)\<close> days have passed and nothing
  once they have; a lookup of another id is not affected; and after \<open>delete(id)\<close> the id is not found.
\<close>

lemma mapping_ttl:
  fixes R :: "'r redis_api" and uetr :: string
  assumes "redis_laws R" "map_inv s" "inj_on sha ids" "e2e \<in> ids" "e2e' \<in> ids" "- 45 < maturity" "t \<le> t'"
  defines "expiry \<equiv> t + of_int ((maturity + 45) * 86400)"
    and "s' \<equiv> mapping_store R sha s t e2e uetr maturity"
  shows "(t' < expiry \<longrightarrow> fst (mapping_lookup R sha s' t' e2e) = Some uetr)
    \<and> (expiry < t' \<longrightarrow> fst (mapping_lookup R sha s' t' e2e) = None)
    \<and> (e2e' \<noteq> e2e \<longrightarrow> fst (mapping_lookup R sha s' t' e2e') = fst (mapping_lookup R sha s t' e2e'))
    \<and> fst (mapping_lookup R sha (mapping_delete R sha s t e2e) t' e2e') =
      (if e2e' = e2e then None else fst (mapping_lookup R sha s t' e2e'))"
  unfolding s'_def expiry_def using mapping_ttl_facts [OF assms(1-7)] by blast

text \<open>Witness: a class A payment on the map-backed server, just before and after 48 days.\<close>

lemma mapping_ttl_witness:
  "fst (mapping_lookup map_redis (\<lambda>x. x)
     (mapping_store map_redis (\<lambda>x. x) (map_init (Some Map.empty)) 0 ''E2E1'' ''U1'' 3) 4147199 ''E2E1'')
     = Some ''U1''
   \<and> fst (mapping_lookup map_redis (\<lambda>x. x)
     (mapping_store map_redis (\<lambda>x. x) (map_init (None :: redis_map option)) 0 ''E2E1'' ''U1'' 3) 4147201 ''E2E1'')
     = None"
proof
  have inv: "map_inv (map_init r)" for r :: "redis_map option"
    by (simp add: map_inv_def map_init_def)
  have ids: "inj_on (\<lambda>x. x) {''E2E1'' :: string}" "''E2E1'' \<in> {''E2E1'' :: string}" by simp_all
  note m = mapping_ttl [OF map_redis_laws _ ids(1,2,2), where maturity = 3 and t = 0 and uetr = "''U1''"]
  show "fst (mapping_lookup map_redis (\<lambda>x. x)
     (mapping_store map_redis (\<lambda>x. x) (map_init (Some Map.empty)) 0 ''E2E1'' ''U1'' 3) 4147199 ''E2E1'')
     = Some ''U1''"
    using m [OF inv [of "Some Map.empty"], where t' = 4147199] by simp
  show "fst (mapping_lookup map_redis (\<lambda>x. x)
     (mapping_store map_redis (\<lambda>x. x) (map_init (None :: redis_map option)) 0 ''E2E1'' ''U1'' 3) 4147201 ''E2E1'')
     = None"
    using m [OF inv [of None], where t' = 4147201] by simp
qed

end
