(* ===== verification/UETR_Tracker.thy ===== *)
theory UETR_Tracker
  imports Constants Redis_Api Expiring_Store
begin

text \<open>
  \<open>lip/common/uetr_tracker.py\<close>: detection of replayed and re-keyed payments, and the cross-rail
  handoff index.  One clock reading per call is an argument (a call's several readings are taken to be
  equal); the lock makes a call atomic.  The payment context is the dictionary's four fields, the
  amount as what \<open>Decimal(str(...))\<close> makes of it, a value or the exception; an empty or missing context
  is \<open>None\<close>.  The Redis client's exceptions are not caught by the code: a call that needs a server that
  does not answer raises, after the periodic clean-up and before the tables are read or written.

  Shown: a recorded UETR is reported as a retry for the whole TTL whatever calls come in between, a
  re-keyed payment within the tolerance is caught, and both the outcome table and the handoff index are
  expiring stores whose sweeps cannot be observed.
\<close>

definition UETR_TTL_SECONDS :: int where "UETR_TTL_SECONDS = UETR_TTL_BUFFER_DAYS * 24 * 3600"
definition TRACKER_CLEANUP_INTERVAL :: int where "TRACKER_CLEANUP_INTERVAL = 1000"
definition HANDOFF_TTL_MINUTES :: int where "HANDOFF_TTL_MINUTES = 30"
definition VALID_HANDOFF_RAILS :: "string list" where
  "VALID_HANDOFF_RAILS = [''FEDNOW'', ''RTP'', ''SEPA'']"

record payment_context =
  ctx_sending_bic :: "string option"
  ctx_receiving_bic :: "string option"
  ctx_currency :: "string option"
  ctx_amount :: "py_exc + dec"

type_synonym tuple_key = "string \<times> string \<times> string"

record 'r UETRTracker =
  tr_ttl :: int
  tr_redis :: "'r option"
  tr_call_counter :: int
  tr_processed :: "(string, string \<times> time) dict"
  tr_tuple_index :: "(tuple_key, (dec \<times> string \<times> time) list) dict"
  tr_handoffs :: "(string, string \<times> time) dict"

definition tracker_init :: "int \<Rightarrow> 'r option \<Rightarrow> 'r UETRTracker" where
  "tracker_init ttl redis =
     \<lparr> tr_ttl = ttl, tr_redis = redis, tr_call_counter = 0, tr_processed = [], tr_tuple_index = [],
       tr_handoffs = [] \<rparr>"

definition cleanup_expired :: "'r UETRTracker \<Rightarrow> time \<Rightarrow> 'r UETRTracker" where
  "cleanup_expired s now =
     (let cutoff = now - of_int (tr_ttl s);
          processed = filter (\<lambda>(u, (o', ts)). \<not> ts < cutoff) (tr_processed s);
          fresh = map (\<lambda>(key, entries). (key, filter (\<lambda>(a, u, ts). ts \<ge> cutoff) entries)) (tr_tuple_index s)
      in s\<lparr>tr_processed := processed, tr_tuple_index := filter (\<lambda>(key, entries). entries \<noteq> []) fresh\<rparr>)"

definition maybe_cleanup :: "'r UETRTracker \<Rightarrow> time \<Rightarrow> 'r UETRTracker" where
  "maybe_cleanup s now =
     (let s = s\<lparr>tr_call_counter := tr_call_counter s + 1\<rparr>
      in if tr_call_counter s < TRACKER_CLEANUP_INTERVAL then s
         else cleanup_expired (s\<lparr>tr_call_counter := 0\<rparr>) now)"

text \<open>Truthiness of an optional string: \<open>None\<close> and \<open>""\<close> are false.\<close>

fun truthy :: "string option \<Rightarrow> bool" where
  "truthy None = False"
| "truthy (Some x) = (x \<noteq> [])"

definition tuple_key_of :: "payment_context \<Rightarrow> tuple_key option" where
  "tuple_key_of c =
     (case (ctx_sending_bic c, ctx_receiving_bic c, ctx_currency c) of
        (Some a, Some b, Some d) \<Rightarrow> if a \<noteq> [] \<and> b \<noteq> [] \<and> d \<noteq> [] then Some (a, b, d) else None
      | _ \<Rightarrow> None)"

definition amounts_match :: "dec \<Rightarrow> dec \<Rightarrow> bool" where
  "amounts_match current_amt hist_amt \<longleftrightarrow>
     (if current_amt = 0 then hist_amt = 0
      else ctx (\<bar>dsub current_amt hist_amt\<bar> / current_amt) \<le> 1 / 10000)"

definition is_tuple_match :: "'r UETRTracker \<Rightarrow> string \<Rightarrow> payment_context \<Rightarrow> py_exc + bool" where
  "is_tuple_match s current_uetr c =
     res_bind (ctx_amount c) (\<lambda>current_amt.
       case tuple_key_of c of
         None \<Rightarrow> Inr False
       | Some key \<Rightarrow>
           let candidates = (case dget (tr_tuple_index s) key of Some l \<Rightarrow> l | None \<Rightarrow> [])
           in Inr (\<exists>(hist_amt, hist_uetr, ts) \<in> set candidates.
                     hist_uetr \<noteq> current_uetr \<and> amounts_match current_amt hist_amt))"

definition redis_key :: "string \<Rightarrow> string" where
  "redis_key uetr = ''uetr:'' @ uetr"

definition processed_live :: "'r UETRTracker \<Rightarrow> time \<Rightarrow> string \<Rightarrow> bool" where
  "processed_live s now uetr =
     (case dget (tr_processed s) uetr of
        None \<Rightarrow> False
      | Some (outcome, recorded_at) \<Rightarrow> now - recorded_at < of_int (tr_ttl s))"

definition redis_raises :: "'r redis_api \<Rightarrow> 'r UETRTracker \<Rightarrow> time \<Rightarrow> bool" where
  "redis_raises R s now \<longleftrightarrow> (case tr_redis s of Some r \<Rightarrow> \<not> redis_answers R r now | None \<Rightarrow> False)"

definition is_retry ::
    "'r redis_api \<Rightarrow> 'r UETRTracker \<Rightarrow> time \<Rightarrow> string \<Rightarrow> payment_context option
      \<Rightarrow> (py_exc + bool) \<times> 'r UETRTracker" where
  "is_retry R s now uetr context =
     (let s = maybe_cleanup s now
      in if redis_raises R s now then (Inl OtherException, s)
         else if (case tr_redis s of Some r \<Rightarrow> redis_exists R r now (redis_key uetr) | None \<Rightarrow> False)
         then (Inr True, s)
         else if processed_live s now uetr then (Inr True, s)
         else case context of
                Some c \<Rightarrow> (is_tuple_match s uetr c, s)
              | None \<Rightarrow> (Inr False, s))"

definition get_outcome :: "'r UETRTracker \<Rightarrow> time \<Rightarrow> string \<Rightarrow> string option \<times> 'r UETRTracker" where
  "get_outcome s now uetr =
     (let s = maybe_cleanup s now
      in case dget (tr_processed s) uetr of
           None \<Rightarrow> (None, s)
         | Some (outcome, recorded_at) \<Rightarrow>
             if now - recorded_at \<ge> of_int (tr_ttl s) then (None, s) else (Some outcome, s))"

text \<open>
  \<open>record\<close>: the \<open>except\<close> clause catches \<open>ValueError\<close>, \<open>TypeError\<close> and \<open>AttributeError\<close> and logs; any
  other exception of the amount's conversion leaves the call, after the primary index was written.
\<close>

definition index_tuple :: "'r UETRTracker \<Rightarrow> time \<Rightarrow> string \<Rightarrow> payment_context \<Rightarrow> (py_exc + unit) \<times> 'r UETRTracker" where
  "index_tuple s now uetr c =
     (case ctx_amount c of
        Inl e \<Rightarrow> (if e \<in> {ValueError, TypeError, AttributeError} then Inr () else Inl e, s)
      | Inr amt \<Rightarrow>
          (case tuple_key_of c of
             None \<Rightarrow> (Inr (), s)
           | Some key \<Rightarrow>
               let entries = (case dget (tr_tuple_index s) key of Some l \<Rightarrow> l | None \<Rightarrow> [])
               in (Inr (), s\<lparr>tr_tuple_index := dset key (entries @ [(amt, uetr, now)]) (tr_tuple_index s)\<rparr>)))"

definition record_uetr ::
    "'r redis_api \<Rightarrow> 'r UETRTracker \<Rightarrow> time \<Rightarrow> string \<Rightarrow> string \<Rightarrow> payment_context option
      \<Rightarrow> (py_exc + unit) \<times> 'r UETRTracker" where
  "record_uetr R s now uetr outcome context =
     (let s = maybe_cleanup s now
      in if redis_raises R s now then (Inl OtherException, s)
         else
           let s = (case tr_redis s of
                      Some r \<Rightarrow> s\<lparr>tr_redis := Some (snd (redis_set_nx_ex R r now (redis_key uetr) outcome (tr_ttl s)))\<rparr>
                    | None \<Rightarrow> s);
               s = s\<lparr>tr_processed := dset uetr (outcome, now) (tr_processed s)\<rparr>
           in case context of
                Some c \<Rightarrow> index_tuple s now uetr c
              | None \<Rightarrow> (Inr (), s))"

definition tracker_clear :: "'r UETRTracker \<Rightarrow> 'r UETRTracker" where
  "tracker_clear s = s\<lparr>tr_processed := [], tr_tuple_index := [], tr_handoffs := []\<rparr>"

definition register_handoff ::
    "'r UETRTracker \<Rightarrow> time \<Rightarrow> string \<Rightarrow> string \<Rightarrow> string \<Rightarrow> time option
      \<Rightarrow> (py_exc + unit) \<times> 'r UETRTracker" where
  "register_handoff s now parent_uetr child_uetr child_rail timestamp =
     (if py_upper child_rail \<notin> set VALID_HANDOFF_RAILS then (Inl ValueError, s)
      else
        let ts = (case timestamp of Some t \<Rightarrow> t | None \<Rightarrow> now)
        in (Inr (), s\<lparr>tr_handoffs := dset child_uetr (parent_uetr, ts) (tr_handoffs s)\<rparr>))"

definition find_parent :: "'r UETRTracker \<Rightarrow> time \<Rightarrow> string \<Rightarrow> time option \<Rightarrow> string option" where
  "find_parent s now child_uetr at_time =
     (case dget (tr_handoffs s) child_uetr of
        None \<Rightarrow> None
      | Some (parent, registered_at) \<Rightarrow>
          let now = (case at_time of Some t \<Rightarrow> t | None \<Rightarrow> now)
          in if now - registered_at > of_int (HANDOFF_TTL_MINUTES * 60) then None else Some parent)"

section \<open>The outcome table and the handoff index are expiring stores\<close>

definition tracker_inv :: "'r UETRTracker \<Rightarrow> bool" where
  "tracker_inv s \<longleftrightarrow> dict_ok (tr_processed s) \<and> dict_ok (tr_tuple_index s) \<and> dict_ok (tr_handoffs s)"

definition tracker_dead :: "int \<Rightarrow> time \<Rightarrow> time \<Rightarrow> bool" where
  "tracker_dead ttl recorded_at now \<longleftrightarrow> now - recorded_at \<ge> of_int ttl"

lemma dict_ok_map_values: "dict_ok d \<Longrightarrow> dict_ok (map (\<lambda>(k, v). (k, f k v)) d)"
  by (simp add: dict_ok_def o_def split_def)

lemma tracker_inv_init [simp]: "tracker_inv (tracker_init ttl redis)"
  by (simp add: tracker_inv_def tracker_init_def)

lemma cleanup_expired_inv: "tracker_inv s \<Longrightarrow> tracker_inv (cleanup_expired s now)"
  by (simp add: tracker_inv_def cleanup_expired_def Let_def dict_ok_map_values dict_ok_filter)

lemma maybe_cleanup_inv: "tracker_inv s \<Longrightarrow> tracker_inv (maybe_cleanup s now)"
  using cleanup_expired_inv [of "s\<lparr>tr_call_counter := 0\<rparr>" now]
  by (simp add: maybe_cleanup_def Let_def) (simp add: tracker_inv_def)

lemma maybe_cleanup_frame [simp]:
  "tr_ttl (maybe_cleanup s now) = tr_ttl s" "tr_redis (maybe_cleanup s now) = tr_redis s"
  "tr_handoffs (maybe_cleanup s now) = tr_handoffs s"
  by (simp_all add: maybe_cleanup_def cleanup_expired_def Let_def)

lemma maybe_cleanup_swept:
  "tracker_inv s \<Longrightarrow>
   swept (tracker_dead (tr_ttl s)) now (dget (tr_processed s)) (dget (tr_processed (maybe_cleanup s now)))"
  by (auto simp: maybe_cleanup_def cleanup_expired_def Let_def tracker_inv_def swept_def dget_filter
      tracker_dead_def split: option.splits prod.splits)

lemma record_inv: "tracker_inv s \<Longrightarrow> tracker_inv (snd (record_uetr R s now u out c))"
  using maybe_cleanup_inv [of s now]
  by (auto simp: record_uetr_def index_tuple_def Let_def tracker_inv_def split: option.splits sum.splits)

lemma record_ttl [simp]: "tr_ttl (snd (record_uetr R s now u out c)) = tr_ttl s"
  by (auto simp: record_uetr_def index_tuple_def Let_def split: option.splits sum.splits)

lemma redis_raises_cleanup [simp]: "redis_raises R (maybe_cleanup s now) = redis_raises R s"
  by (simp add: fun_eq_iff redis_raises_def)

lemma record_processed:
  "tr_processed (snd (record_uetr R s now u out c)) =
     (if redis_raises R s now then tr_processed (maybe_cleanup s now)
      else dset u (out, now) (tr_processed (maybe_cleanup s now)))"
  by (auto simp: record_uetr_def index_tuple_def Let_def split: option.splits sum.splits)

lemma record_redis_none: "tr_redis s = None \<Longrightarrow> tr_redis (snd (record_uetr R s now u out c)) = None"
  by (auto simp: record_uetr_def index_tuple_def Let_def split: option.splits sum.splits)

lemma get_outcome_state: "snd (get_outcome s now u) = maybe_cleanup s now"
  by (auto simp: get_outcome_def Let_def split: option.splits)

lemma is_retry_state: "snd (is_retry R s now u c) = maybe_cleanup s now"
  by (auto simp: is_retry_def Let_def split: option.splits)

interpretation outcomes: expiring_store "\<lambda>s. dget (tr_processed s)" get_outcome
  "\<lambda>s t u out e. snd (record_uetr R s t u out None)" "tracker_dead ttl"
  "\<lambda>s. tracker_inv s \<and> tr_ttl s = ttl \<and> tr_redis s = None" "\<lambda>t e. e = t"
  for R :: "'r redis_api" and ttl
proof
  show "tracker_dead ttl e t \<Longrightarrow> t \<le> t' \<Longrightarrow> tracker_dead ttl e t'" for e t t'
    by (simp add: tracker_dead_def)
  fix s :: "'r UETRTracker" and t u
  assume s: "tracker_inv s \<and> tr_ttl s = ttl \<and> tr_redis s = None"
  note sw = maybe_cleanup_swept [of s t]
  show "swept (tracker_dead ttl) t (dget (tr_processed s)) (dget (tr_processed (snd (get_outcome s t u))))"
    using s sw by (simp add: get_outcome_state)
  show "tracker_inv (snd (get_outcome s t u)) \<and> tr_ttl (snd (get_outcome s t u)) = ttl \<and>
      tr_redis (snd (get_outcome s t u)) = None"
    using s maybe_cleanup_inv [of s t] by (simp add: get_outcome_state)
  have "fst (get_outcome s t u)
      = live_value (tracker_dead ttl) t (dget (tr_processed (maybe_cleanup s t)) u)"
    using s by (auto simp: get_outcome_def live_value_def tracker_dead_def Let_def split: option.splits)
  then show "fst (get_outcome s t u) = live_value (tracker_dead ttl) t (dget (tr_processed s) u)"
    using swept_live [OF sw] s by simp
  fix out e
  assume e: "e = t"
  show "tracker_inv (snd (record_uetr R s t u out None)) \<and> tr_ttl (snd (record_uetr R s t u out None)) = ttl \<and>
      tr_redis (snd (record_uetr R s t u out None)) = None"
    using s by (simp add: record_inv record_redis_none)
  show "swept (tracker_dead ttl) t ((dget (tr_processed s))(u \<mapsto> (out, e)))
      (dget (tr_processed (snd (record_uetr R s t u out None))))"
    using s sw e by (simp add: record_processed redis_raises_def dict_simps swept_upd)
qed

definition handoff_dead :: "time \<Rightarrow> time \<Rightarrow> bool" where
  "handoff_dead registered_at now \<longleftrightarrow> now - registered_at > of_int (HANDOFF_TTL_MINUTES * 60)"

interpretation handoff: expiring_store "\<lambda>s. dget (tr_handoffs s)"
  "\<lambda>s t child. (find_parent s t child None, s)"
  "\<lambda>s t child parent e. snd (register_handoff s t parent child ''FEDNOW'' (Some e))" handoff_dead
  "\<lambda>s :: 'r UETRTracker. True" "\<lambda>t e. True"
  by unfold_locales
    (auto simp: handoff_dead_def find_parent_def live_value_def register_handoff_def
      VALID_HANDOFF_RAILS_def py_upper_def upper_char_def dict_simps split: option.splits)

section \<open>No double funding\<close>

datatype tracker_op =
    OpIsRetry time string "payment_context option"
  | OpGetOutcome time string
  | OpRecord time string string "payment_context option"
  | OpRegisterHandoff time string string string "time option"

fun op_time :: "tracker_op \<Rightarrow> time" where
  "op_time (OpIsRetry t u c) = t"
| "op_time (OpGetOutcome t u) = t"
| "op_time (OpRecord t u out c) = t"
| "op_time (OpRegisterHandoff t p c r ts) = t"

fun tracker_step :: "'r redis_api \<Rightarrow> tracker_op \<Rightarrow> 'r UETRTracker \<Rightarrow> 'r UETRTracker" where
  "tracker_step R (OpIsRetry t u c) s = snd (is_retry R s t u c)"
| "tracker_step R (OpGetOutcome t u) s = snd (get_outcome s t u)"
| "tracker_step R (OpRecord t u out c) s = snd (record_uetr R s t u out c)"
| "tracker_step R (OpRegisterHandoff t p c r ts) s = snd (register_handoff s t p c r ts)"

definition held_since :: "'r UETRTracker \<Rightarrow> string \<Rightarrow> time \<Rightarrow> bool" where
  "held_since s u t0 \<longleftrightarrow> (\<exists>out ts. dget (tr_processed s) u = Some (out, ts) \<and> t0 \<le> ts)"

lemma held_cleanup:
  assumes "tracker_inv s" "held_since s u t0" "t < t0 + of_int (tr_ttl s)"
  shows "held_since (maybe_cleanup s t) u t0"
proof -
  from assms(2) obtain out ts where u: "dget (tr_processed s) u = Some (out, ts)" "t0 \<le> ts"
    by (auto simp: held_since_def)
  with maybe_cleanup_swept [OF assms(1), of t] assms(3)
  have "dget (tr_processed (maybe_cleanup s t)) u = Some (out, ts)"
    unfolding swept_def tracker_dead_def by (elim allE [of _ u]) auto
  with u show ?thesis by (auto simp: held_since_def)
qed

lemma held_step:
  assumes "tracker_inv s" "held_since s u t0" "t0 \<le> op_time opn" "op_time opn < t0 + of_int (tr_ttl s)"
  shows "tracker_inv (tracker_step R opn s) \<and> tr_ttl (tracker_step R opn s) = tr_ttl s
    \<and> held_since (tracker_step R opn s) u t0"
proof (cases opn)
  case (OpRecord t u' out c)
  have "held_since (maybe_cleanup s t) u t0" using assms OpRecord by (intro held_cleanup) simp_all
  then show ?thesis using OpRecord assms record_inv
    by (auto simp: held_since_def record_processed dict_simps)
next
  case (OpRegisterHandoff t p c r ts)
  then show ?thesis using assms
    by (auto simp: register_handoff_def Let_def tracker_inv_def held_since_def)
qed (use assms held_cleanup maybe_cleanup_inv in \<open>auto simp: is_retry_state get_outcome_state\<close>)

lemma held_steps:
  assumes "tracker_inv s" "held_since s u t0" "\<forall>opn \<in> set ops. t0 \<le> op_time opn \<and> op_time opn < t0 + of_int (tr_ttl s)"
  shows "tracker_inv (fold (tracker_step R) ops s) \<and> tr_ttl (fold (tracker_step R) ops s) = tr_ttl s
    \<and> held_since (fold (tracker_step R) ops s) u t0"
  using assms
proof (induction ops arbitrary: s)
  case (Cons opn ops)
  from held_step [of s u t0 opn R] Cons.prems
  have "tracker_inv (tracker_step R opn s)" "tr_ttl (tracker_step R opn s) = tr_ttl s"
    "held_since (tracker_step R opn s) u t0" by simp_all
  with Cons.IH [of "tracker_step R opn s"] Cons.prems show ?case by simp
qed simp

text \<open>
  A recorded UETR cannot be funded twice within the tracker's TTL.  Whatever the outcome that was
  recorded, whether or not indexing the amount raised, with or without a Redis client (of any
  behaviour, if it answered the record), and whatever retries, outcome queries, records and handoffs are
  made in between at times within the TTL (in any order, periodic clean-ups and calls that raise
  included), \<open>is_retry\<close> answers \<open>True\<close> at every time before the TTL has passed, unless it raises because the
  server does not answer; it never answers \<open>False\<close>.
\<close>

lemma recorded_uetr_is_retry:
  assumes "tracker_inv s" "\<forall>opn \<in> set ops. t \<le> op_time opn \<and> op_time opn < t + of_int (tr_ttl s)"
    and "t' < t + of_int (tr_ttl s)" "\<not> redis_raises R s t"
  shows "let s2 = fold (tracker_step R) ops (snd (record_uetr R s t uetr outcome context))
    in fst (is_retry R s2 t' uetr context') = (if redis_raises R s2 t' then Inl OtherException else Inr True)"
proof -
  let ?s1 = "snd (record_uetr R s t uetr outcome context)"
  let ?s2 = "fold (tracker_step R) ops ?s1"
  have "held_since ?s1 uetr t" using assms(4) by (simp add: held_since_def record_processed dict_simps)
  with held_steps [of ?s1 uetr t ops R] record_inv [OF assms(1)] assms(2)
  have "tracker_inv ?s2" "tr_ttl ?s2 = tr_ttl s" "held_since ?s2 uetr t" by simp_all
  with held_cleanup [of ?s2 uetr t t'] assms(3) have "held_since (maybe_cleanup ?s2 t') uetr t" by simp
  then have "processed_live (maybe_cleanup ?s2 t') t' uetr"
    using assms(3) \<open>tr_ttl ?s2 = tr_ttl s\<close> by (auto simp: held_since_def processed_live_def)
  then show ?thesis by (simp add: is_retry_def Let_def)
qed

text \<open>An example: an offer recorded at time 100; a replay, a handoff and a re-recording; asked again in between.\<close>

lemma recorded_uetr_is_retry_example:
  "fst (is_retry map_redis
     (fold (tracker_step map_redis)
        [OpIsRetry 200 ''U1'' None, OpRegisterHandoff 300 ''U1'' ''C1'' ''FEDNOW'' None,
         OpRecord 250 ''U1'' ''DECLINED'' None]
        (snd (record_uetr map_redis (tracker_init UETR_TTL_SECONDS (Some Map.empty)) 100 ''U1'' ''OFFERED'' None)))
     3888000 ''U1'' None) = Inr True"
  by code_simp

section \<open>Re-keyed payments\<close>

text \<open>The index holds what was recorded for a tuple, as long as the clean-up keeps it.\<close>

definition indexed :: "'r UETRTracker \<Rightarrow> tuple_key \<Rightarrow> (dec \<times> string \<times> time) set" where
  "indexed s key = (case dget (tr_tuple_index s) key of Some l \<Rightarrow> set l | None \<Rightarrow> {})"

lemma indexed_map:
  "dict_ok d \<Longrightarrow> dget (map (\<lambda>(k, v). (k, f v)) d) k = map_option f (dget d k)"
  by (induction d) (auto simp: dict_ok_def)

lemma indexed_cleanup:
  assumes "tracker_inv s"
  shows "indexed (cleanup_expired s now) key = {x \<in> indexed s key. snd (snd x) \<ge> now - of_int (tr_ttl s)}"
proof -
  have ok: "dict_ok (tr_tuple_index s)" using assms by (simp add: tracker_inv_def)
  show ?thesis
    unfolding indexed_def cleanup_expired_def Let_def
    by (simp add: dget_filter [OF dict_ok_map_values [OF ok]] indexed_map [OF ok])
      (auto simp: filter_empty_conv split: option.splits)
qed

lemma indexed_maybe_cleanup:
  assumes "tracker_inv s" "x \<in> indexed s key" "snd (snd x) \<ge> now - of_int (tr_ttl s)"
  shows "x \<in> indexed (maybe_cleanup s now) key"
proof -
  have "tracker_inv (s\<lparr>tr_call_counter := 0\<rparr>)" using assms(1) by (simp add: tracker_inv_def)
  from indexed_cleanup [OF this, of now key] assms(2,3) show ?thesis
    by (auto simp: maybe_cleanup_def Let_def indexed_def)
qed

lemma amounts_match_cents:
  assumes "0 < m" "m < 10 ^ 26" "0 \<le> h" "h < 10 ^ 26" "10000 * \<bar>m - h\<bar> \<le> m"
  shows "amounts_match (of_int m / 100) (of_int h / 100)"
proof -
  have "of_int m / 100 - of_int h / 100 = (of_int (m - h) / 100 :: rat)" by (simp add: diff_divide_distrib)
  moreover have "ctx (of_int (m - h) / 100) = of_int (m - h) / 100"
    by (rule ctx_cents) (use assms in simp)
  ultimately have d: "dsub (of_int m / 100) (of_int h / 100) = of_int (m - h) / 100"
    unfolding dsub_def by presburger
  have mpos: "(0 :: rat) < of_int m" using assms(1) by simp
  have "(of_int (10000 * \<bar>m - h\<bar>) :: rat) \<le> of_int m" using assms(5) by (simp only: of_int_le_iff)
  then have "10000 * \<bar>of_int (m - h)\<bar> \<le> (of_int m :: rat)" by simp
  then have le: "\<bar>of_int (m - h) / 100\<bar> / (of_int m / 100) \<le> (1 / 10000 :: rat)"
    using mpos by (simp add: divide_le_eq abs_divide)
  have "ctx (\<bar>of_int (m - h) / 100\<bar> / (of_int m / 100)) \<le> ctx (1 / 10000)"
    using le by (rule ctx_mono)
  also have "ctx (1 / 10000) = 1 / 10000"
    using ctx_exact [of 1 "1 / 10000" "- 4"] by (simp add: power_int_def power_divide)
  finally show ?thesis using mpos by (simp add: amounts_match_def d)
qed

text \<open>
  A payment re-keyed under a new UETR is caught.  After recording a payment of \<open>h\<close> cents between
  two BICs in a currency, \<open>is_retry\<close> on another UETR with the same BICs and currency and an amount of
  \<open>m\<close> cents that differs by at most 0.01 percent of \<open>m\<close> answers \<open>True\<close> at every time within the TTL, on
  every tracker state and whatever the Redis client says, if it answers.
\<close>

lemma rekeyed_payment_is_retry:
  assumes "tracker_inv s" "t \<le> t'" "t' < t + of_int (tr_ttl s)"
    and "ctx_amount c = Inr (of_int h / 100)" "ctx_amount c' = Inr (of_int m / 100)"
    and "tuple_key_of c = Some key" "tuple_key_of c' = Some key" "uetr' \<noteq> uetr"
    and "0 < m" "m < 10 ^ 26" "0 \<le> h" "h < 10 ^ 26" "10000 * \<bar>m - h\<bar> \<le> m"
    and "\<not> redis_raises R s t" "\<not> redis_raises R (snd (record_uetr R s t uetr outcome (Some c))) t'"
  shows "fst (is_retry R (snd (record_uetr R s t uetr outcome (Some c))) t' uetr' (Some c')) = Inr True"
proof -
  let ?s1 = "snd (record_uetr R s t uetr outcome (Some c))"
  have "(of_int h / 100, uetr, t) \<in> indexed ?s1 key"
    using assms(4,6,14)
    by (auto simp: record_uetr_def index_tuple_def Let_def indexed_def dict_simps split: option.splits)
  then have "(of_int h / 100, uetr, t) \<in> indexed (maybe_cleanup ?s1 t') key"
    by (rule indexed_maybe_cleanup [OF record_inv [OF assms(1)]]) (use assms(3) in simp)
  with assms(5,7,8) amounts_match_cents [OF assms(9-13)]
  have "is_tuple_match (maybe_cleanup ?s1 t') uetr' c' = Inr True"
    by (force simp: is_tuple_match_def indexed_def split: option.splits)
  then show ?thesis using assms(15) by (simp add: is_retry_def Let_def split: option.splits)
qed

lemma rekeyed_payment_is_retry_example:
  "let c = \<lparr> ctx_sending_bic = Some ''BNPAFRPP'', ctx_receiving_bic = Some ''CHASUS33'',
             ctx_currency = Some ''USD'', ctx_amount = Inr (of_int 100000000 / 100) \<rparr>;
       c' = c\<lparr>ctx_amount := Inr (of_int 100009000 / 100)\<rparr>
   in fst (is_retry map_redis
        (snd (record_uetr map_redis (tracker_init UETR_TTL_SECONDS None) 0 ''U1'' ''OFFERED'' (Some c)))
        3600 ''U2'' (Some c')) = Inr True"
  unfolding Let_def
  by (rule rekeyed_payment_is_retry [where h = 100000000 and m = 100009000
        and key = "(''BNPAFRPP'', ''CHASUS33'', ''USD'')"])
    (simp_all add: tracker_init_def tracker_inv_def UETR_TTL_SECONDS_def UETR_TTL_BUFFER_DAYS_def
      tuple_key_of_def redis_raises_def record_uetr_def index_tuple_def maybe_cleanup_def cleanup_expired_def Let_def)

end
