(* ===== verification/Py_Value.thy ===== *)
theory Py_Value
  imports Py_Decimal
begin

text \<open>
  Dynamically typed values: what a parsed JSON message holds, and the operations the handlers apply to
  them, with the exceptions Python raises when the value has the wrong shape.

  \<^item> \<open>pget v k d\<close> is \<open>v.get(k, d)\<close>; a value that is not a dictionary has no \<open>get\<close> (\<open>AttributeError\<close>).
  \<^item> \<open>pindex0 v\<close> is \<open>v[0]\<close>; an empty list raises \<open>IndexError\<close>, a dictionary \<open>KeyError\<close> (its keys are
    strings), a number, Boolean, time or \<open>None\<close> \<open>TypeError\<close>.
  \<^item> \<open>por a b\<close> is \<open>a or b\<close>, evaluated left to right.
  \<^item> \<open>py_decimal s\<close> is \<open>Decimal(s)\<close> on strings: surrounding space and underscores are dropped, then an
    optional sign, digits with an optional point, and an optional exponent must remain, else
    \<open>InvalidOperation\<close> is raised.  \<open>NaN\<close> and \<open>Infinity\<close>, which the constructor also accepts, are not
    modelled.
  \<^item> \<open>PNum d\<close> is an \<open>int\<close>, \<open>float\<close> or \<open>Decimal\<close> whose \<open>str\<close> denotes \<open>d\<close>; \<open>PTime t\<close> a \<open>datetime\<close>.
\<close>

datatype pyval =
    PNone
  | PBool bool
  | PNum dec
  | PStr string
  | PTime time
  | PList "pyval list"
  | PDict "(string \<times> pyval) list"

fun truth :: "pyval \<Rightarrow> bool" where
  "truth PNone = False"
| "truth (PBool b) = b"
| "truth (PNum d) = (d \<noteq> 0)"
| "truth (PStr s) = (s \<noteq> [])"
| "truth (PTime t) = True"
| "truth (PList l) = (l \<noteq> [])"
| "truth (PDict d) = (d \<noteq> [])"

fun is_dict :: "pyval \<Rightarrow> bool" where
  "is_dict (PDict d) = True"
| "is_dict _ = False"

fun pget :: "pyval \<Rightarrow> string \<Rightarrow> pyval \<Rightarrow> py_exc + pyval" where
  "pget (PDict d) k def = Inr (case map_of d k of Some v \<Rightarrow> v | None \<Rightarrow> def)"
| "pget _ k def = Inl AttributeError"

fun pindex0 :: "pyval \<Rightarrow> py_exc + pyval" where
  "pindex0 (PList []) = Inl IndexError"
| "pindex0 (PList (x # xs)) = Inr x"
| "pindex0 (PStr []) = Inl IndexError"
| "pindex0 (PStr (c # cs)) = Inr (PStr [c])"
| "pindex0 (PDict d) = Inl KeyError"
| "pindex0 _ = Inl TypeError"

text \<open>\<open>v[k]\<close> for a string \<open>k\<close>, and \<open>list(v)\<close>: the items of a list, the characters of a string, the keys of a
  dictionary.\<close>

fun pitem :: "pyval \<Rightarrow> string \<Rightarrow> py_exc + pyval" where
  "pitem (PDict d) k = (case map_of d k of Some v \<Rightarrow> Inr v | None \<Rightarrow> Inl KeyError)"
| "pitem _ k = Inl TypeError"

fun py_list :: "pyval \<Rightarrow> py_exc + pyval list" where
  "py_list (PList vs) = Inr vs"
| "py_list (PStr s) = Inr (map (\<lambda>c. PStr [c]) s)"
| "py_list (PDict d) = Inr (map (PStr \<circ> fst) d)"
| "py_list _ = Inl TypeError"

definition por :: "py_exc + pyval \<Rightarrow> py_exc + pyval \<Rightarrow> py_exc + pyval" where
  "por a b = res_bind a (\<lambda>v. if truth v then Inr v else b)"

text \<open>\<open>v.get(k1, {}).get(k2, {}) ... .get(kn)\<close>.\<close>

fun pget_path :: "pyval \<Rightarrow> string list \<Rightarrow> py_exc + pyval" where
  "pget_path v [] = Inr v"
| "pget_path v [k] = pget v k PNone"
| "pget_path v (k # ks) = res_bind (pget v k (PDict [])) (\<lambda>w. pget_path w ks)"

text \<open>\<open>v.get(k1, {}) ... .get(kn, {})\<close>.\<close>

fun pget_dicts :: "pyval \<Rightarrow> string list \<Rightarrow> py_exc + pyval" where
  "pget_dicts v [] = Inr v"
| "pget_dicts v (k # ks) = res_bind (pget v k (PDict [])) (\<lambda>w. pget_dicts w ks)"

lemmas path_simps = pget_path.simps pget_dicts.simps

declare path_simps [simp del]

lemma por_simps [simp]:
  "por (Inl e) b = Inl e"
  "por (Inr v) b = (if truth v then Inr v else b)"
  by (simp_all add: por_def)

section \<open>Decimal literals\<close>

definition is_digit :: "char \<Rightarrow> bool" where
  "is_digit c \<longleftrightarrow> (let n = of_char c :: nat in 48 \<le> n \<and> n \<le> 57)"

definition digit_value :: "char \<Rightarrow> int" where
  "digit_value c = int (of_char c) - 48"

definition digits_value :: "string \<Rightarrow> int" where
  "digits_value s = fold (\<lambda>c n. 10 * n + digit_value c) s 0"

definition split_at :: "(char \<Rightarrow> bool) \<Rightarrow> string \<Rightarrow> string \<times> string option" where
  "split_at P s =
     (let r = dropWhile (\<lambda>c. \<not> P c) s
      in (takeWhile (\<lambda>c. \<not> P c) s, case r of [] \<Rightarrow> None | c # t \<Rightarrow> Some t))"

fun split_sign :: "string \<Rightarrow> bool \<times> string" where
  "split_sign (CHR ''-'' # s) = (True, s)"
| "split_sign (CHR ''+'' # s) = (False, s)"
| "split_sign s = (False, s)"

definition signed_digits :: "string \<Rightarrow> int option" where
  "signed_digits s =
     (let (neg, t) = split_sign s
      in if t \<noteq> [] \<and> list_all is_digit t
         then Some (if neg then - digits_value t else digits_value t) else None)"

definition py_decimal :: "string \<Rightarrow> py_exc + dec" where
  "py_decimal s =
     (let (neg, t) = split_sign (filter (\<lambda>c. c \<noteq> CHR ''_'') (py_strip s));
          (mantissa, expo) = split_at (\<lambda>c. c = CHR ''e'' \<or> c = CHR ''E'') t;
          (whole, frac) = split_at (\<lambda>c. c = CHR ''.'') mantissa;
          fracd = (case frac of Some f \<Rightarrow> f | None \<Rightarrow> []);
          digits = whole @ fracd;
          e = (case expo of None \<Rightarrow> Some 0 | Some x \<Rightarrow> signed_digits x)
      in if digits = [] \<or> \<not> list_all is_digit digits then Inl DecimalInvalidOperation
         else case e of
                None \<Rightarrow> Inl DecimalInvalidOperation
              | Some k \<Rightarrow>
                  let d = of_int (digits_value digits) * 10 powi (k - int (length fracd))
                  in Inr (if neg then - d else d))"

text \<open>\<open>Decimal(str(v))\<close>.\<close>

fun decimal_of :: "pyval \<Rightarrow> py_exc + dec" where
  "decimal_of (PNum d) = Inr d"
| "decimal_of (PStr s) = py_decimal s"
| "decimal_of _ = Inl DecimalInvalidOperation"

text \<open>
  \<open>float(v)\<close> and \<open>int(v)\<close>: a number is itself (\<open>int\<close> truncates), a string is parsed and raises
  \<open>ValueError\<close> when it is no literal, anything else raises \<open>TypeError\<close>.
\<close>

fun py_float :: "pyval \<Rightarrow> py_exc + pyfloat" where
  "py_float (PNum d) = Inr d"
| "py_float (PBool b) = Inr (if b then 1 else 0)"
| "py_float (PStr s) = (case py_decimal s of Inl _ \<Rightarrow> Inl ValueError | Inr d \<Rightarrow> Inr d)"
| "py_float _ = Inl TypeError"

fun py_int :: "pyval \<Rightarrow> py_exc + int" where
  "py_int (PNum d) = Inr (if 0 \<le> d then \<lfloor>d\<rfloor> else \<lceil>d\<rceil>)"
| "py_int (PBool b) = Inr (if b then 1 else 0)"
| "py_int (PStr s) =
     (case signed_digits (filter (\<lambda>c. c \<noteq> CHR ''_'') (py_strip s)) of
        None \<Rightarrow> Inl ValueError | Some n \<Rightarrow> Inr n)"
| "py_int _ = Inl TypeError"

lemma py_decimal_examples:
  "py_decimal ''100.50'' = Inr (201 / 2)"
  "py_decimal ''  -1_000 '' = Inr (- 1000)"
  "py_decimal ''1e3'' = Inr 1000"
  "py_decimal ''.5'' = Inr (1 / 2)"
  "py_decimal ''abc'' = Inl DecimalInvalidOperation"
  "py_decimal '''' = Inl DecimalInvalidOperation"
  by (simp_all add: py_decimal_def py_strip_def py_space_def split_at_def is_digit_def
      digits_value_def digit_value_def signed_digits_def power_int_def power2_eq_square Let_def)

end
