(* ===== verification/Settlement_Handlers.thy ===== *)
theory Settlement_Handlers
  imports Py_Value
begin

text \<open>
  \<open>lip/c3_repayment_engine/settlement_handlers.py\<close>: the five rail handlers that turn a raw message into
  a \<open>SettlementSignal\<close>, the two shared field extractors and the dispatch registry.  A raw message is a
  \<open>pyval\<close>; every \<open>get\<close>, \<open>[0]\<close> and \<open>or\<close> of the source is one of the operations of \<open>Py_Value\<close>, so that
  a message of the wrong shape takes the exception path the code takes.  \<open>fromiso v\<close> stands for
  \<open>datetime.fromisoformat(str(v))\<close> and \<open>now\<close> for the reading of \<open>_utcnow()\<close>.
\<close>

datatype SettlementRail = SWIFT | FEDNOW | RTP | SEPA | BUFFER

record SettlementSignal =
  sig_uetr :: pyval
  sig_individual_payment_id :: pyval
  sig_rail :: SettlementRail
  sig_amount :: dec
  sig_currency :: pyval
  sig_settlement_time :: time
  sig_raw_message :: pyval
  sig_rejection_code :: pyval

type_synonym iso_parser = "pyval \<Rightarrow> py_exc + time"

fun parse_datetime :: "iso_parser \<Rightarrow> pyval \<Rightarrow> py_exc + time" where
  "parse_datetime fromiso (PTime t) = Inr t"
| "parse_datetime fromiso v = fromiso v"

definition settlement_time_of :: "iso_parser \<Rightarrow> time \<Rightarrow> pyval \<Rightarrow> py_exc + time" where
  "settlement_time_of fromiso now raw = (if truth raw then parse_datetime fromiso raw else Inr now)"

text \<open>\<open>try: ... except Exception as exc: raise ValueError(...) from exc\<close>.\<close>

definition as_value_error :: "py_exc + 'a \<Rightarrow> py_exc + 'a" where
  "as_value_error r = (case r of Inl e \<Rightarrow> Inl ValueError | Inr v \<Rightarrow> Inr v)"

section \<open>SWIFT camt.054\<close>

definition camt054_entry :: "pyval \<Rightarrow> py_exc + pyval" where
  "camt054_entry raw =
     res_bind (pget raw ''BkToCstmrDbtCdtNtfctn'' raw) (\<lambda>msg.
     res_bind (pget msg ''Ntfctn'' (PList [raw])) (\<lambda>ntfctn.
     res_bind (pindex0 ntfctn) (\<lambda>notification.
     res_bind (pget notification ''Ntry'' (PList [PDict []])) (\<lambda>ntry.
     pindex0 ntry))))"

definition catch_attr_index :: "py_exc + pyval \<Rightarrow> pyval \<Rightarrow> py_exc + pyval" where
  "catch_attr_index r d =
     (case r of
        Inl e \<Rightarrow> if e = AttributeError \<or> e = IndexError then Inr d else Inl e
      | Inr v \<Rightarrow> Inr v)"

definition extract_uetr :: "pyval \<Rightarrow> py_exc + pyval" where
  "extract_uetr msg =
     por (catch_attr_index
           (res_bind (camt054_entry msg) (\<lambda>entry. pget_path entry [''NtryDtls'', ''TxDtls'', ''Refs'', ''UETR'']))
           PNone)
         (pget msg ''uetr'' (PStr ''''))"

definition extract_settlement_info :: "pyval \<Rightarrow> py_exc + pyval" where
  "extract_settlement_info msg =
     catch_attr_index
       (res_bind (camt054_entry msg) (\<lambda>entry. pget_dicts entry [''NtryDtls'', ''TxDtls'', ''SttlmInf'']))
       (PDict [])"

definition camt054_amount :: "pyval \<Rightarrow> pyval \<Rightarrow> py_exc + pyval" where
  "camt054_amount entry raw =
     por (pget_path entry [''Amt'', ''#text''])
       (por (pget entry ''Amt'' PNone) (pget raw ''amount'' (PStr ''0'')))"

definition swift_handle :: "iso_parser \<Rightarrow> time \<Rightarrow> pyval \<Rightarrow> py_exc + SettlementSignal" where
  "swift_handle fromiso now raw =
     res_bind (as_value_error (
       res_bind (camt054_entry raw) (\<lambda>entry.
       res_bind (pget_dicts entry [''NtryDtls'', ''TxDtls'']) (\<lambda>txn_details.
       res_bind (extract_uetr raw) (\<lambda>uetr.
       res_bind (extract_settlement_info raw) (\<lambda>settlement_info.
       res_bind (camt054_amount entry raw) (\<lambda>amount_raw.
       res_bind (por (pget_path entry [''Amt'', ''@Ccy'']) (pget raw ''currency'' (PStr ''USD''))) (\<lambda>currency.
       res_bind (por (pget_path txn_details [''RtrInf'', ''Rsn'', ''Cd''])
                     (pget raw ''rejection_code'' PNone)) (\<lambda>rejection_code.
       res_bind (por (pget_path txn_details [''Refs'', ''EndToEndId''])
                     (pget raw ''individual_payment_id'' uetr)) (\<lambda>individual_payment_id.
       res_bind (por (pget settlement_info ''SttlmDt'' PNone)
                     (pget raw ''settlement_time'' PNone)) (\<lambda>settlement_time_raw.
       res_bind (settlement_time_of fromiso now settlement_time_raw) (\<lambda>settlement_time.
       Inr (uetr, individual_payment_id, amount_raw, currency, settlement_time, rejection_code)))))))))))))
     (\<lambda>(uetr, individual_payment_id, amount_raw, currency, settlement_time, rejection_code).
       res_bind (decimal_of amount_raw) (\<lambda>amount.
       Inr \<lparr> sig_uetr = uetr, sig_individual_payment_id = individual_payment_id, sig_rail = SWIFT,
             sig_amount = amount, sig_currency = currency, sig_settlement_time = settlement_time,
             sig_raw_message = raw, sig_rejection_code = rejection_code \<rparr>))"

section \<open>FedNow, RTP, SEPA and the internal buffer\<close>

text \<open>The amount and currency of the three instant rails: a dictionary node, or the flat keys.\<close>

definition node_amount :: "pyval \<Rightarrow> pyval \<Rightarrow> string \<Rightarrow> py_exc + (dec \<times> pyval)" where
  "node_amount amount_raw raw default_ccy =
     (if is_dict amount_raw then
        res_bind (pget amount_raw ''#text'' (PStr ''0'')) (\<lambda>a.
        res_bind (decimal_of a) (\<lambda>amount.
        res_bind (pget amount_raw ''@Ccy'' (PStr default_ccy)) (\<lambda>currency. Inr (amount, currency))))
      else
        res_bind (pget raw ''amount'' (PStr ''0'')) (\<lambda>a.
        res_bind (decimal_of a) (\<lambda>amount.
        res_bind (pget raw ''currency'' (PStr default_ccy)) (\<lambda>currency. Inr (amount, currency)))))"

definition fednow_handle :: "iso_parser \<Rightarrow> time \<Rightarrow> pyval \<Rightarrow> py_exc + SettlementSignal" where
  "fednow_handle fromiso now raw = as_value_error (
     res_bind (por (pget raw ''uetr'' PNone) (pget raw ''UETR'' (PStr ''''))) (\<lambda>uetr.
     res_bind (por (pget raw ''EndToEndId'' PNone) (pget raw ''individual_payment_id'' uetr)) (\<lambda>individual_payment_id.
     res_bind (pget raw ''IntrBkSttlmAmt'' (PDict [])) (\<lambda>amount_raw.
     res_bind (node_amount amount_raw raw ''USD'') (\<lambda>(amount, currency).
     res_bind (por (pget raw ''IntrBkSttlmDt'' PNone) (pget raw ''settlement_time'' PNone)) (\<lambda>settlement_time_raw.
     res_bind (settlement_time_of fromiso now settlement_time_raw) (\<lambda>settlement_time.
     res_bind (pget raw ''TxSts'' PNone) (\<lambda>txsts.
     res_bind (if is_dict txsts then pget_path raw [''TxSts'', ''RsnInf'', ''Rsn'', ''Cd'']
               else pget raw ''rejection_code'' PNone) (\<lambda>rejection_code.
     Inr \<lparr> sig_uetr = uetr, sig_individual_payment_id = individual_payment_id, sig_rail = FEDNOW,
           sig_amount = amount, sig_currency = currency, sig_settlement_time = settlement_time,
           sig_raw_message = raw, sig_rejection_code = rejection_code \<rparr>)))))))))"

definition extract_end_to_end_id :: "pyval \<Rightarrow> py_exc + pyval" where
  "extract_end_to_end_id msg =
     por (pget_path msg [''TxInf'', ''PmtId'', ''EndToEndId''])
       (por (pget msg ''EndToEndId'' PNone) (pget msg ''individual_payment_id'' (PStr '''')))"

definition txinf_settlement_time :: "pyval \<Rightarrow> py_exc + pyval" where
  "txinf_settlement_time raw =
     por (pget_path raw [''TxInf'', ''IntrBkSttlmDt'']) (pget raw ''settlement_time'' PNone)"

definition rtp_handle :: "iso_parser \<Rightarrow> time \<Rightarrow> pyval \<Rightarrow> py_exc + SettlementSignal" where
  "rtp_handle fromiso now raw = as_value_error (
     res_bind (extract_end_to_end_id raw) (\<lambda>end_to_end_id.
     res_bind (por (pget raw ''uetr'' PNone) (por (pget raw ''UETR'' PNone) (Inr end_to_end_id))) (\<lambda>uetr.
     res_bind (pget_dicts raw [''TxInf'', ''IntrBkSttlmAmt'']) (\<lambda>amount_raw.
     res_bind (node_amount amount_raw raw ''USD'') (\<lambda>(amount, currency).
     res_bind (txinf_settlement_time raw) (\<lambda>settlement_time_raw.
     res_bind (settlement_time_of fromiso now settlement_time_raw) (\<lambda>settlement_time.
     res_bind (pget raw ''rejection_code'' PNone) (\<lambda>rejection_code.
     Inr \<lparr> sig_uetr = uetr, sig_individual_payment_id = end_to_end_id, sig_rail = RTP,
           sig_amount = amount, sig_currency = currency, sig_settlement_time = settlement_time,
           sig_raw_message = raw, sig_rejection_code = rejection_code \<rparr>))))))))"

definition sepa_handle :: "iso_parser \<Rightarrow> time \<Rightarrow> pyval \<Rightarrow> py_exc + SettlementSignal" where
  "sepa_handle fromiso now raw = as_value_error (
     res_bind (por (pget raw ''uetr'' PNone) (pget raw ''UETR'' (PStr ''''))) (\<lambda>uetr.
     res_bind (por (pget raw ''OrgnlEndToEndId'' PNone)
                (por (pget raw ''EndToEndId'' PNone) (pget raw ''individual_payment_id'' uetr))) (\<lambda>individual_payment_id.
     res_bind (pget_dicts raw [''TxInf'', ''IntrBkSttlmAmt'']) (\<lambda>amount_raw.
     res_bind (node_amount amount_raw raw ''EUR'') (\<lambda>(amount, currency).
     res_bind (txinf_settlement_time raw) (\<lambda>settlement_time_raw.
     res_bind (settlement_time_of fromiso now settlement_time_raw) (\<lambda>settlement_time.
     res_bind (pget raw ''TxInf'' PNone) (\<lambda>txinf.
     res_bind (if is_dict txinf then pget_path raw [''TxInf'', ''StsRsnInf'', ''Rsn'', ''Cd'']
               else pget raw ''rejection_code'' PNone) (\<lambda>rejection_code.
     Inr \<lparr> sig_uetr = uetr, sig_individual_payment_id = individual_payment_id, sig_rail = SEPA,
           sig_amount = amount, sig_currency = currency, sig_settlement_time = settlement_time,
           sig_raw_message = raw, sig_rejection_code = rejection_code \<rparr>)))))))))"

definition buffer_handle :: "iso_parser \<Rightarrow> time \<Rightarrow> pyval \<Rightarrow> py_exc + SettlementSignal" where
  "buffer_handle fromiso now raw = as_value_error (
     res_bind (pget raw ''uetr'' (PStr '''')) (\<lambda>uetr.
     res_bind (pget raw ''individual_payment_id'' uetr) (\<lambda>individual_payment_id.
     res_bind (pget raw ''amount'' (PStr ''0'')) (\<lambda>a.
     res_bind (decimal_of a) (\<lambda>amount.
     res_bind (pget raw ''currency'' (PStr ''USD'')) (\<lambda>currency.
     res_bind (pget raw ''settlement_time'' PNone) (\<lambda>settlement_time_raw.
     res_bind (settlement_time_of fromiso now settlement_time_raw) (\<lambda>settlement_time.
     res_bind (pget raw ''rejection_code'' PNone) (\<lambda>rejection_code.
     Inr \<lparr> sig_uetr = uetr, sig_individual_payment_id = individual_payment_id, sig_rail = BUFFER,
           sig_amount = amount, sig_currency = currency, sig_settlement_time = settlement_time,
           sig_raw_message = raw, sig_rejection_code = rejection_code \<rparr>)))))))))"

section \<open>Shared field extraction\<close>

record camt054_fields =
  cf_uetr :: pyval
  cf_individual_payment_id :: pyval
  cf_amount :: pyval
  cf_currency :: pyval
  cf_settlement_time :: pyval
  cf_rejection_code :: pyval

text \<open>\<open>v or d\<close> on a value; the amount fields hold the value whose \<open>str\<close> the source stores.\<close>

definition or_val :: "pyval \<Rightarrow> pyval \<Rightarrow> pyval" where
  "or_val v d = (if truth v then v else d)"

definition extract_camt054_fields :: "pyval \<Rightarrow> py_exc + camt054_fields" where
  "extract_camt054_fields raw = as_value_error (
     res_bind (camt054_entry raw) (\<lambda>entry.
     res_bind (pget_dicts entry [''NtryDtls'', ''TxDtls'']) (\<lambda>txn_details.
     res_bind (por (pget_path txn_details [''Refs'', ''UETR'']) (pget raw ''uetr'' (PStr ''''))) (\<lambda>uetr.
     res_bind (por (pget_path txn_details [''Refs'', ''EndToEndId''])
                   (pget raw ''individual_payment_id'' uetr)) (\<lambda>individual_payment_id.
     res_bind (camt054_amount entry raw) (\<lambda>amount_raw.
     res_bind (por (pget_path entry [''Amt'', ''@Ccy'']) (pget raw ''currency'' (PStr ''USD''))) (\<lambda>currency.
     res_bind (por (pget_path txn_details [''SttlmInf'', ''SttlmDt''])
                   (pget raw ''settlement_time'' PNone)) (\<lambda>settlement_time.
     res_bind (por (pget_path txn_details [''RtrInf'', ''Rsn'', ''Cd''])
                   (pget raw ''rejection_code'' PNone)) (\<lambda>rejection_code.
     Inr \<lparr> cf_uetr = or_val uetr (PStr ''''),
           cf_individual_payment_id = or_val individual_payment_id (PStr ''''),
           cf_amount = amount_raw, cf_currency = or_val currency (PStr ''USD''),
           cf_settlement_time = settlement_time, cf_rejection_code = rejection_code \<rparr>)))))))))"

record pacs008_fields =
  pf_uetr :: pyval
  pf_end_to_end_id :: pyval
  pf_amount :: pyval
  pf_currency :: pyval
  pf_settlement_date :: pyval
  pf_debtor_bic :: pyval
  pf_creditor_bic :: pyval

definition extract_pacs008_fields :: "pyval \<Rightarrow> py_exc + pacs008_fields" where
  "extract_pacs008_fields raw = as_value_error (
     res_bind (pget raw ''FIToFICstmrCdtTrf'' (PDict [])) (\<lambda>msg.
     res_bind (pget msg ''CdtTrfTxInf'' (PList [PDict []])) (\<lambda>txs.
     res_bind (pindex0 txs) (\<lambda>tx_info.
     res_bind (por (pget_path tx_info [''PmtId'', ''UETR''])
                (por (pget raw ''uetr'' PNone) (pget raw ''UETR'' (PStr '''')))) (\<lambda>uetr.
     res_bind (por (pget_path tx_info [''PmtId'', ''EndToEndId''])
                (por (pget raw ''EndToEndId'' PNone) (pget raw ''end_to_end_id'' uetr))) (\<lambda>end_to_end_id.
     res_bind (pget tx_info ''IntrBkSttlmAmt'' (PDict [])) (\<lambda>amt_node.
     res_bind (if is_dict amt_node
               then por (pget amt_node ''#text'' PNone)
                      (por (pget amt_node ''amount'' PNone) (pget raw ''amount'' (PStr ''0'')))
               else pget raw ''amount'' (PStr ''0'')) (\<lambda>amount.
     res_bind (if is_dict amt_node
               then por (pget amt_node ''@Ccy'' PNone) (pget raw ''currency'' (PStr ''USD''))
               else pget raw ''currency'' (PStr ''USD'')) (\<lambda>currency.
     res_bind (por (pget tx_info ''IntrBkSttlmDt'' PNone)
                (por (pget raw ''settlement_date'' PNone) (pget raw ''IntrBkSttlmDt'' PNone))) (\<lambda>settlement_date.
     res_bind (por (pget_path tx_info [''DbtrAgt'', ''FinInstnId'', ''BICFI''])
                (pget raw ''debtor_bic'' PNone)) (\<lambda>debtor_bic.
     res_bind (por (pget_path tx_info [''CdtrAgt'', ''FinInstnId'', ''BICFI''])
                (pget raw ''creditor_bic'' PNone)) (\<lambda>creditor_bic.
     Inr \<lparr> pf_uetr = or_val uetr (PStr ''''), pf_end_to_end_id = or_val end_to_end_id (PStr ''''),
           pf_amount = amount, pf_currency = or_val currency (PStr ''USD''),
           pf_settlement_date = settlement_date, pf_debtor_bic = debtor_bic,
           pf_creditor_bic = creditor_bic \<rparr>))))))))))))"

section \<open>The registry\<close>

type_synonym handler = "iso_parser \<Rightarrow> time \<Rightarrow> pyval \<Rightarrow> py_exc + SettlementSignal"
type_synonym handler_registry = "(SettlementRail, handler) dict"

definition register_handler :: "handler_registry \<Rightarrow> SettlementRail \<Rightarrow> handler \<Rightarrow> handler_registry" where
  "register_handler reg rail h = dset rail h reg"

definition dispatch ::
    "handler_registry \<Rightarrow> iso_parser \<Rightarrow> time \<Rightarrow> SettlementRail \<Rightarrow> pyval \<Rightarrow> py_exc + SettlementSignal" where
  "dispatch reg fromiso now rail raw =
     (case dget reg rail of
        None \<Rightarrow> Inl KeyError
      | Some h \<Rightarrow> h fromiso now raw)"

definition create_default :: handler_registry where
  "create_default =
     register_handler (register_handler (register_handler (register_handler (register_handler []
       SWIFT swift_handle) FEDNOW fednow_handle) RTP rtp_handle) SEPA sepa_handle) BUFFER buffer_handle"

section \<open>What every handler guarantees\<close>

lemma as_value_error_simps [simp]:
  "as_value_error (Inr v) = Inr v" "as_value_error (Inl e) = Inl ValueError"
  by (simp_all add: as_value_error_def)

lemma as_value_error_Inr [simp]: "as_value_error r = Inr v \<longleftrightarrow> r = Inr v"
  by (cases r) simp_all

lemma as_value_error_Inl [simp]: "as_value_error r = Inl e \<longleftrightarrow> e = ValueError \<and> (\<exists>x. r = Inl x)"
  by (cases r) auto

lemma decimal_of_Inl: "decimal_of v = Inl e \<Longrightarrow> e = DecimalInvalidOperation"
  by (cases v) (auto simp: py_decimal_def Let_def split: prod.splits option.splits if_splits)

lemma dispatch_default:
  "dispatch create_default fromiso now rail raw =
     (case rail of SWIFT \<Rightarrow> swift_handle fromiso now raw | FEDNOW \<Rightarrow> fednow_handle fromiso now raw
      | RTP \<Rightarrow> rtp_handle fromiso now raw | SEPA \<Rightarrow> sepa_handle fromiso now raw
      | BUFFER \<Rightarrow> buffer_handle fromiso now raw)"
  by (cases rail) (simp_all add: dispatch_def create_default_def register_handler_def)

lemmas handler_defs = swift_handle_def fednow_handle_def rtp_handle_def sepa_handle_def buffer_handle_def

lemma handlers_rail:
  "dispatch create_default fromiso now rail raw = Inr sig \<Longrightarrow>
   sig_rail sig = rail \<and> sig_raw_message sig = raw"
  by (cases rail) (auto simp: dispatch_default handler_defs res_bind_Inr_iff)

lemma handlers_errors:
  "dispatch create_default fromiso now rail raw = Inl e \<Longrightarrow>
   e = ValueError \<or> rail = SWIFT \<and> e = DecimalInvalidOperation"
  by (cases rail)
    (auto simp: dispatch_default handler_defs res_bind_Inl_iff dest: decimal_of_Inl)

text \<open>
  Dispatching any message whatever to the default registry either yields a signal of the
  requested rail that carries the message unchanged, or raises \<open>ValueError\<close>; the one other exception
  that can leave a handler is \<open>decimal.InvalidOperation\<close>, from the SWIFT handler.
\<close>

lemma default_dispatch_outcomes:
  "case dispatch create_default fromiso now rail raw of
     Inr sig \<Rightarrow> sig_rail sig = rail \<and> sig_raw_message sig = raw
   | Inl e \<Rightarrow> e = (if rail = SWIFT then e else ValueError) \<and> e \<in> {ValueError, DecimalInvalidOperation}"
  by (auto dest: handlers_rail handlers_errors split: sum.splits)

section \<open>The SWIFT handler and the shared extractor agree\<close>

text \<open>Under a transaction block whose \<open>Refs\<close> can be read, both find the same UETR.\<close>

lemma extract_uetr_eq:
  assumes "camt054_entry raw = Inr entry" "pget_dicts entry [''NtryDtls'', ''TxDtls''] = Inr txn"
    and "pget_path txn [''Refs'', ''EndToEndId''] = Inr x"
  shows "extract_uetr raw = por (pget_path txn [''Refs'', ''UETR'']) (pget raw ''uetr'' (PStr ''''))"
proof -
  from assms(3) obtain refs where refs: "pget txn ''Refs'' (PDict []) = Inr refs" "is_dict refs"
    by (auto simp: path_simps res_bind_Inr_iff elim!: is_dict.elims pget.elims)
  then obtain u where u: "pget refs ''UETR'' PNone = Inr u" by (cases refs) simp_all
  from assms(2) have "pget_path entry [''NtryDtls'', ''TxDtls'', ''Refs'', ''UETR''] = Inr u"
    using refs u by (auto simp: path_simps res_bind_Inr_iff)
  then show ?thesis
    using assms(1) refs u by (simp add: path_simps extract_uetr_def catch_attr_index_def)
qed

lemma extract_info_eq:
  assumes "camt054_entry raw = Inr entry" "pget_dicts entry [''NtryDtls'', ''TxDtls''] = Inr txn"
    and "extract_settlement_info raw = Inr info" "pget info ''SttlmDt'' PNone = Inr d"
    and "pget_path txn [''Refs'', ''EndToEndId''] = Inr x"
  shows "pget_path txn [''SttlmInf'', ''SttlmDt''] = Inr d"
proof -
  have "is_dict txn" using assms(5) by (cases txn) (simp_all add: path_simps)
  then obtain i where i: "pget txn ''SttlmInf'' (PDict []) = Inr i" by (cases txn) simp_all
  have "pget_dicts entry [''NtryDtls'', ''TxDtls'', ''SttlmInf''] = Inr i"
    using assms(2) i by (auto simp: path_simps res_bind_Inr_iff)
  then have "info = i" using assms(1,3) by (simp add: extract_settlement_info_def catch_attr_index_def)
  with i assms(4) show ?thesis by (simp add: path_simps)
qed

text \<open>
  The SWIFT handler and the shared camt.054 extractor read a message the same way.  Whenever the
  handler produces a signal, the extractor succeeds on the message, with the same payment id, rejection
  code, UETR and currency (up to the extractor's defaults for empty values), an amount that converts to
  the signal's amount, and a settlement time that yields the signal's.
\<close>

lemma swift_extractor_agree:
  assumes "swift_handle fromiso now raw = Inr sig"
  shows "\<exists>f. extract_camt054_fields raw = Inr f
    \<and> cf_uetr f = or_val (sig_uetr sig) (PStr '''')
    \<and> cf_individual_payment_id f = or_val (sig_individual_payment_id sig) (PStr '''')
    \<and> decimal_of (cf_amount f) = Inr (sig_amount sig)
    \<and> cf_currency f = or_val (sig_currency sig) (PStr ''USD'')
    \<and> settlement_time_of fromiso now (cf_settlement_time f) = Inr (sig_settlement_time sig)
    \<and> cf_rejection_code f = sig_rejection_code sig"
proof -
  from assms obtain entry txn uetr info amount_raw ccy rej ipid st tm amt where
    e: "camt054_entry raw = Inr entry" and t: "pget_dicts entry [''NtryDtls'', ''TxDtls''] = Inr txn"
    and u: "extract_uetr raw = Inr uetr" and i: "extract_settlement_info raw = Inr info"
    and a: "camt054_amount entry raw = Inr amount_raw"
    and c: "por (pget_path entry [''Amt'', ''@Ccy'']) (pget raw ''currency'' (PStr ''USD'')) = Inr ccy"
    and r: "por (pget_path txn [''RtrInf'', ''Rsn'', ''Cd'']) (pget raw ''rejection_code'' PNone) = Inr rej"
    and p: "por (pget_path txn [''Refs'', ''EndToEndId'']) (pget raw ''individual_payment_id'' uetr) = Inr ipid"
    and s: "por (pget info ''SttlmDt'' PNone) (pget raw ''settlement_time'' PNone) = Inr st"
    and st: "settlement_time_of fromiso now st = Inr tm" and d: "decimal_of amount_raw = Inr amt"
    and sig: "sig = \<lparr> sig_uetr = uetr, sig_individual_payment_id = ipid, sig_rail = SWIFT,
        sig_amount = amt, sig_currency = ccy, sig_settlement_time = tm, sig_raw_message = raw,
        sig_rejection_code = rej \<rparr>"
    unfolding swift_handle_def by (auto simp: res_bind_Inr_iff)
  from p obtain x where x: "pget_path txn [''Refs'', ''EndToEndId''] = Inr x"
    unfolding por_def res_bind_Inr_iff by blast
  from s obtain y where y: "pget info ''SttlmDt'' PNone = Inr y"
    unfolding por_def res_bind_Inr_iff by blast
  note u' = u [unfolded extract_uetr_eq [OF e t x]]
  note s' = s [unfolded y, folded extract_info_eq [OF e t i y x]]
  show ?thesis
    unfolding extract_camt054_fields_def e t u' p a c s' r res_bind_simps
    using d st sig by simp
qed

text \<open>A full camt.054 message, and what the handler reads from it.\<close>

definition camt054_message :: "string \<Rightarrow> string \<Rightarrow> string \<Rightarrow> string \<Rightarrow> time \<Rightarrow> string \<Rightarrow> pyval" where
  "camt054_message uetr e2e amount ccy settled_at code =
     PDict [(''BkToCstmrDbtCdtNtfctn'', PDict [(''Ntfctn'', PList [PDict [(''Ntry'', PList [PDict
       [(''Amt'', PDict [(''#text'', PStr amount), (''@Ccy'', PStr ccy)]),
        (''NtryDtls'', PDict [(''TxDtls'', PDict
          [(''Refs'', PDict [(''UETR'', PStr uetr), (''EndToEndId'', PStr e2e)]),
           (''SttlmInf'', PDict [(''SttlmDt'', PTime settled_at)]),
           (''RtrInf'', PDict [(''Rsn'', PDict [(''Cd'', PStr code)])])])])]])]])])]"

lemma camt054_roundtrip:
  assumes "uetr \<noteq> []" "e2e \<noteq> []" "amount \<noteq> []" "ccy \<noteq> []" "code \<noteq> []" "py_decimal amount = Inr a"
  shows "swift_handle fromiso now (camt054_message uetr e2e amount ccy settled_at code) =
    Inr \<lparr> sig_uetr = PStr uetr, sig_individual_payment_id = PStr e2e, sig_rail = SWIFT,
          sig_amount = a, sig_currency = PStr ccy, sig_settlement_time = settled_at,
          sig_raw_message = camt054_message uetr e2e amount ccy settled_at code,
          sig_rejection_code = PStr code \<rparr>"
  using assms
  by (simp add: swift_handle_def camt054_message_def camt054_entry_def camt054_amount_def
      extract_uetr_def extract_settlement_info_def catch_attr_index_def settlement_time_of_def
      path_simps)

lemma swift_extractor_agree_witness:
  "\<exists>f. extract_camt054_fields (camt054_message ''U1'' ''E1'' ''100.50'' ''EUR'' 5 ''AC01'') = Inr f
    \<and> cf_uetr f = PStr ''U1'' \<and> cf_individual_payment_id f = PStr ''E1''
    \<and> decimal_of (cf_amount f) = Inr (201 / 2) \<and> cf_currency f = PStr ''EUR''
    \<and> cf_rejection_code f = PStr ''AC01''"
  using swift_extractor_agree [OF camt054_roundtrip
      [of "''U1''" "''E1''" "''100.50''" "''EUR''" "''AC01''" "201 / 2" "\<lambda>v. Inr 0" 0 5]]
  by (auto simp: or_val_def py_decimal_examples)

end
