(* ===== verification/Claim_Once.thy ===== *)
theory Claim_Once
  imports Py_Base
begin

text \<open>
  The idempotency contract: an operation may run only if it wins a claim on its key.  A claim succeeds
  exactly when the key is not held; a won key is held for at least a window of time; claims on any key
  never release another.  \<open>RepaymentLoop\<close> has two providers, the in-memory set (whose window is
  unbounded) and Redis \<open>SET NX EX\<close>.

  Shown in the locale: along any sequence of claims with a monotone clock, by however many callers,
  two successful claims on one key are at least a window apart.
\<close>

text \<open>The indices of the successful claims, with their times and keys, in order.\<close>

fun claim_log ::
    "('s \<Rightarrow> time \<Rightarrow> 'a \<Rightarrow> bool \<times> 's) \<Rightarrow> ('a \<Rightarrow> 'k) \<Rightarrow> 's \<Rightarrow> (time \<times> 'a) list \<Rightarrow> (time \<times> 'k) list" where
  "claim_log claim key s [] = []"
| "claim_log claim key s ((t, a) # reqs) =
     (case claim s t a of
        (True, s') \<Rightarrow> (t, key a) # claim_log claim key s' reqs
      | (False, s') \<Rightarrow> claim_log claim key s' reqs)"

fun times_ok :: "time \<Rightarrow> (time \<times> 'a) list \<Rightarrow> bool" where
  "times_ok t [] \<longleftrightarrow> True"
| "times_ok t ((t', a) # reqs) \<longleftrightarrow> t \<le> t' \<and> times_ok t' reqs"

text \<open>Entries of a log with equal keys are at least \<open>w\<close> apart.\<close>

fun spaced :: "time \<Rightarrow> (time \<times> 'k) list \<Rightarrow> bool" where
  "spaced w [] \<longleftrightarrow> True"
| "spaced w ((t, k) # l) \<longleftrightarrow> (\<forall>(t', k') \<in> set l. k' = k \<longrightarrow> t + w \<le> t') \<and> spaced w l"

lemma spaced_append:
  "spaced w (xs @ [(t, k)]) \<longleftrightarrow> spaced w xs \<and> (\<forall>(t', k') \<in> set xs. k' = k \<longrightarrow> t' + w \<le> t)"
  by (induction xs) auto

locale claim_once =
  fixes claim :: "'s \<Rightarrow> time \<Rightarrow> 'a \<Rightarrow> bool \<times> 's"
    and key :: "'a \<Rightarrow> 'k"
    and held :: "'s \<Rightarrow> time \<Rightarrow> 'k \<Rightarrow> bool"
    and ok :: "'a \<Rightarrow> bool"
    and window :: time
  assumes claim_iff: "ok a \<Longrightarrow> fst (claim s t a) \<longleftrightarrow> \<not> held s t (key a)"
    and won_held: "ok a \<Longrightarrow> fst (claim s t a) \<Longrightarrow> t \<le> t' \<Longrightarrow> t' < t + window \<Longrightarrow>
      held (snd (claim s t a)) t' (key a)"
    and held_frame: "ok a \<Longrightarrow> t \<le> t' \<Longrightarrow> held s t' k \<Longrightarrow> held (snd (claim s t a)) t' k"
begin

lemma log_fresh:
  assumes "\<forall>(t, a) \<in> set reqs. ok a" "times_ok t0 reqs" "\<And>t'. t0 \<le> t' \<Longrightarrow> t' < T \<Longrightarrow> held s t' k"
    and "(t, k) \<in> set (claim_log claim key s reqs)"
  shows "T \<le> t"
  using assms
proof (induction reqs arbitrary: s t0)
  case (Cons r reqs)
  obtain t1 a where r: "r = (t1, a)" by (cases r)
  with Cons.prems have a: "ok a" and t1: "t0 \<le> t1" "times_ok t1 reqs" by auto
  obtain b s' where c: "claim s t1 a = (b, s')" by (cases "claim s t1 a")
  have held': "held s' t' k" if "t1 \<le> t'" "t' < T" for t'
    using held_frame [OF a that(1), of s k] Cons.prems(3) [of t'] that t1(1) c by auto
  show ?case
  proof (cases "b \<and> (t, k) = (t1, key a)")
    case True
    then have "\<not> held s t1 k" using claim_iff [OF a, of s t1] c by simp
    with Cons.prems(3) [of t1] t1(1) True show ?thesis by fastforce
  next
    case False
    then have "(t, k) \<in> set (claim_log claim key s' reqs)"
      using Cons.prems(4) r c by (cases b) auto
    then show ?thesis
      using Cons.IH [of t1 s'] Cons.prems(1) t1(2) held' by simp
  qed
qed simp

theorem claims_spaced:
  assumes "\<forall>(t, a) \<in> set reqs. ok a" "times_ok t0 reqs"
  shows "spaced window (claim_log claim key s reqs)"
  using assms
proof (induction reqs arbitrary: s t0)
  case (Cons r reqs)
  obtain t1 a where r: "r = (t1, a)" by (cases r)
  with Cons.prems have a: "ok a" and t1: "times_ok t1 reqs" and oks: "\<forall>(t, a) \<in> set reqs. ok a"
    by auto
  obtain b s' where c: "claim s t1 a = (b, s')" by (cases "claim s t1 a")
  have "t1 + window \<le> t'" if "b" "(t', key a) \<in> set (claim_log claim key s' reqs)" for t'
    by (rule log_fresh [OF oks t1 _ that(2)]) (use won_held [OF a, of s t1] c that(1) in auto)
  with Cons.IH [OF oks t1] r c show ?case by (cases b) auto
qed simp

end

end
