(* ===== verification/Repayment_Loop.thy ===== *)
theory Repayment_Loop
  imports Rejection_Taxonomy Fee Deployment_Phase Settlement_Handlers UETR_Mapping Claim_Once
begin

text \<open>
  \<open>lip/c3_repayment_engine/repayment_loop.py\<close> and \<open>lip/common/partial_settlement.py\<close>: the active-loan
  registries, settlement matching, the idempotency claim and the repayment record.  The callback is
  external: its calls are recorded in \<open>lp_callbacks\<close> in order (its exceptions are swallowed by the
  source and change nothing).  \<open>now\<close> is the clock reading of a call; \<open>up\<close> says whether a Redis command
  issued by the call returns (\<open>False\<close>: it raises, and the in-memory fallback runs), loan by loan where a call goes
  through several.  The background
  thread (\<open>run_monitoring_loop\<close>, \<open>stop\<close>) only calls \<open>check_maturities\<close> on a timer.

  Numbers that the record stores as strings are kept as numbers.
\<close>

record ActiveLoan =
  loan_id :: string
  loan_uetr :: string
  individual_payment_id :: string
  principal :: dec
  fee_bps :: int
  maturity_date :: time
  rejection_class :: string
  corridor :: string
  funded_at :: time
  licensee_id :: string
  deployment_phase :: string
  loan_rail :: string

datatype RepaymentTrigger = SETTLEMENT_CONFIRMED | MATURITY_REACHED | BUFFER_SETTLEMENT | MANUAL

datatype PartialSettlementPolicy = REQUIRE_FULL | ACCEPT_PARTIAL

section \<open>The settlement monitor\<close>

record 'r SettlementMonitor =
  mon_registry :: handler_registry
  mon_mapping :: "'r UETRMappingTable"
  mon_active :: "(string, ActiveLoan) dict"

definition monitor_init :: "handler_registry \<Rightarrow> 'r UETRMappingTable \<Rightarrow> 'r SettlementMonitor" where
  "monitor_init reg m = \<lparr> mon_registry = reg, mon_mapping = m, mon_active = [] \<rparr>"

definition monitor_register_loan :: "'r SettlementMonitor \<Rightarrow> ActiveLoan \<Rightarrow> 'r SettlementMonitor" where
  "monitor_register_loan m loan = m\<lparr>mon_active := dset (loan_uetr loan) loan (mon_active m)\<rparr>"

definition monitor_deregister_loan ::
    "'r SettlementMonitor \<Rightarrow> string \<Rightarrow> ActiveLoan option \<times> 'r SettlementMonitor" where
  "monitor_deregister_loan m uetr =
     (dget (mon_active m) uetr, m\<lparr>mon_active := dpop uetr (mon_active m)\<rparr>)"

text \<open>
  \<open>_active_loans.get(uetr)\<close>: the key may be any message value; only a string can be found, and a
  list or dictionary is not hashable.
\<close>

fun match_loan :: "'r SettlementMonitor \<Rightarrow> pyval \<Rightarrow> py_exc + ActiveLoan option" where
  "match_loan m (PStr u) = Inr (dget (mon_active m) u)"
| "match_loan m (PList _) = Inl TypeError"
| "match_loan m (PDict _) = Inl TypeError"
| "match_loan m _ = Inr None"

definition settlement_rail :: "string \<Rightarrow> SettlementRail option" where
  "settlement_rail rail =
     map_of [(''SWIFT'', SWIFT), (''FEDNOW'', FEDNOW), (''RTP'', RTP), (''SEPA'', SEPA),
             (''BUFFER'', BUFFER)] (py_upper rail)"

record repayment_match =
  rm_loan_id :: string
  rm_uetr :: pyval
  rm_trigger :: RepaymentTrigger
  rm_settlement_amount :: dec
  rm_signal_rail :: string
  rm_rejection_code :: pyval
  rm_triggered_at :: time

text \<open>
  The \<open>uetr\<close> of a signal, with the RTP resolution: only a signal whose own \<open>uetr\<close> is empty is looked
  up, by its payment id, which must be a string (\<open>encode\<close>).
\<close>

definition resolve_uetr ::
    "'r redis_api \<Rightarrow> (string \<Rightarrow> string) \<Rightarrow> 'r SettlementMonitor \<Rightarrow> time \<Rightarrow> SettlementRail
      \<Rightarrow> SettlementSignal \<Rightarrow> (py_exc + pyval) \<times> 'r SettlementMonitor" where
  "resolve_uetr R sha m now rail sig =
     (if rail = RTP \<and> \<not> truth (sig_uetr sig) then
        (case sig_individual_payment_id sig of
           PStr e2e \<Rightarrow>
             (case mapping_lookup R sha (mon_mapping m) now e2e of
                (r, mapping) \<Rightarrow>
                  (Inr (PStr (case r of Some u \<Rightarrow> u | None \<Rightarrow> '''')), m\<lparr>mon_mapping := mapping\<rparr>))
         | _ \<Rightarrow> (Inl AttributeError, m))
      else (Inr (sig_uetr sig), m))"

definition process_signal ::
    "'r redis_api \<Rightarrow> (string \<Rightarrow> string) \<Rightarrow> iso_parser \<Rightarrow> 'r SettlementMonitor \<Rightarrow> time \<Rightarrow> string \<Rightarrow> pyval
      \<Rightarrow> (py_exc + repayment_match option) \<times> 'r SettlementMonitor" where
  "process_signal R sha fromiso m now rail raw_message =
     (case settlement_rail rail of
        None \<Rightarrow> (Inr None, m)
      | Some srail \<Rightarrow>
          (case dispatch (mon_registry m) fromiso now srail raw_message of
             Inl e \<Rightarrow> (Inr None, m)
           | Inr sig \<Rightarrow>
               (case resolve_uetr R sha m now srail sig of
                  (Inl e, m) \<Rightarrow> (Inl e, m)
                | (Inr uetr, m) \<Rightarrow>
                    (case match_loan m uetr of
                       Inl e \<Rightarrow> (Inl e, m)
                     | Inr None \<Rightarrow> (Inr None, m)
                     | Inr (Some loan) \<Rightarrow>
                         (Inr (Some \<lparr> rm_loan_id = loan_id loan, rm_uetr = uetr,
                            rm_trigger = SETTLEMENT_CONFIRMED, rm_settlement_amount = sig_amount sig,
                            rm_signal_rail = rail, rm_rejection_code = sig_rejection_code sig,
                            rm_triggered_at = now \<rparr>), m)))))"

definition monitor_get_active_loans :: "'r SettlementMonitor \<Rightarrow> ActiveLoan list" where
  "monitor_get_active_loans m = dvalues (mon_active m)"

section \<open>The repayment loop\<close>

record RepaymentRecord =
  rec_loan_id :: string
  rec_uetr :: string
  rec_individual_payment_id :: string
  rec_principal :: dec
  rec_fee :: dec
  rec_bpi_fee_share_usd :: dec
  rec_platform_royalty :: dec
  rec_net_fee_to_entities :: dec
  rec_bank_capital_return_usd :: dec
  rec_bank_distribution_premium_usd :: dec
  rec_income_type :: string
  rec_deployment_phase :: string
  rec_licensee_id :: string
  rec_fee_bps :: int
  rec_settlement_amount :: dec
  rec_corridor :: string
  rec_rejection_class :: string
  rec_trigger :: RepaymentTrigger
  rec_funded_at :: time
  rec_maturity_date :: time
  rec_repaid_at :: time
  rec_is_partial :: bool
  rec_shortfall_amount :: dec
  rec_shortfall_pct :: dec

record PartialPending =
  pp_loan_id :: string
  pp_uetr :: string
  pp_settlement_amount :: dec
  pp_shortfall_amount :: dec
  pp_shortfall_pct :: dec

datatype repayment_result =
    AlreadyProcessed
  | PartialPendingResult PartialPending
  | RepaidResult RepaymentRecord

record 'r RepaymentLoop =
  lp_monitor :: "'r SettlementMonitor"
  lp_redis :: "'r option"
  lp_policy :: "PartialSettlementPolicy option"
  lp_active :: "(string, ActiveLoan) dict"
  lp_repaid_uetrs :: "string set"
  lp_callbacks :: "RepaymentRecord list"

definition loop_init ::
    "'r SettlementMonitor \<Rightarrow> 'r option \<Rightarrow> PartialSettlementPolicy option \<Rightarrow> 'r RepaymentLoop" where
  "loop_init m redis policy =
     \<lparr> lp_monitor = m, lp_redis = redis, lp_policy = policy, lp_active = [], lp_repaid_uetrs = {},
       lp_callbacks = [] \<rparr>"

definition register_loan :: "'r RepaymentLoop \<Rightarrow> ActiveLoan \<Rightarrow> 'r RepaymentLoop" where
  "register_loan s loan =
     s\<lparr>lp_active := dset (loan_id loan) loan (lp_active s),
       lp_monitor := monitor_register_loan (lp_monitor s) loan\<rparr>"

definition deregister_loan :: "'r RepaymentLoop \<Rightarrow> string \<Rightarrow> ActiveLoan option \<times> 'r RepaymentLoop" where
  "deregister_loan s lid =
     (let s' = s\<lparr>lp_active := dpop lid (lp_active s)\<rparr>
      in case dget (lp_active s) lid of
           None \<Rightarrow> (None, s')
         | Some loan \<Rightarrow>
             (Some loan, s'\<lparr>lp_monitor := snd (monitor_deregister_loan (lp_monitor s) (loan_uetr loan))\<rparr>))"

definition get_active_loans :: "'r RepaymentLoop \<Rightarrow> ActiveLoan list" where
  "get_active_loans s = dvalues (lp_active s)"

definition REDIS_REPAID_PREFIX :: string where "REDIS_REPAID_PREFIX = ''lip:repaid:''"
definition REDIS_REPAID_TTL_EXTRA_DAYS :: int where "REDIS_REPAID_TTL_EXTRA_DAYS = 45"

definition claim_ttl_seconds :: "int \<Rightarrow> string \<Rightarrow> int" where
  "claim_ttl_seconds maturity rail =
     (case dget RAIL_MATURITY_HOURS (py_upper rail) of
        Some maturity_hours \<Rightarrow> \<lfloor>maturity_hours * 3600 + of_int (REDIS_REPAID_TTL_EXTRA_DAYS * 86400)\<rfloor>
      | None \<Rightarrow> (maturity + REDIS_REPAID_TTL_EXTRA_DAYS) * 86400)"

definition claim_key :: "string \<Rightarrow> string \<Rightarrow> string" where
  "claim_key tenant_id uetr =
     (if tenant_id \<noteq> [] then ''lip:'' @ tenant_id @ '':repaid:'' @ uetr else REDIS_REPAID_PREFIX @ uetr)"

definition redis_claim :: "'r redis_api \<Rightarrow> 'r \<Rightarrow> time \<Rightarrow> string \<Rightarrow> int \<Rightarrow> string \<Rightarrow> string \<Rightarrow> bool \<times> 'r" where
  "redis_claim R r now uetr maturity tenant_id rail =
     redis_set_nx_ex R r now (claim_key tenant_id uetr) ''1'' (claim_ttl_seconds maturity rail)"

definition claim_repayment ::
    "'r redis_api \<Rightarrow> bool \<Rightarrow> 'r RepaymentLoop \<Rightarrow> time \<Rightarrow> string \<Rightarrow> int \<Rightarrow> string \<Rightarrow> string
      \<Rightarrow> bool \<times> 'r RepaymentLoop" where
  "claim_repayment R up s now uetr maturity tenant_id rail =
     (let in_memory = (if uetr \<in> lp_repaid_uetrs s then (False, s)
                       else (True, s\<lparr>lp_repaid_uetrs := insert uetr (lp_repaid_uetrs s)\<rparr>))
      in case lp_redis s of
           Some r \<Rightarrow>
             if up then
               (case redis_claim R r now uetr maturity tenant_id rail of
                  (ok, r') \<Rightarrow> (ok, s\<lparr>lp_redis := Some r'\<rparr>))
             else in_memory
         | None \<Rightarrow> in_memory)"

definition loan_maturity_days :: "ActiveLoan \<Rightarrow> int" where
  "loan_maturity_days loan =
     (case dget [(''CLASS_A'', 3), (''CLASS_B'', 7), (''CLASS_C'', 21)] (rejection_class loan) of
        Some d \<Rightarrow> d
      | None \<Rightarrow> 7)"

definition loan_phase :: "ActiveLoan \<Rightarrow> DeploymentPhase" where
  "loan_phase loan =
     (case dget [(''LICENSOR'', LICENSOR), (''HYBRID'', HYBRID), (''FULL_MLO'', FULL_MLO)] (deployment_phase loan) of
        Some ph \<Rightarrow> ph
      | None \<Rightarrow> LICENSOR)"

definition days_funded :: "ActiveLoan \<Rightarrow> time \<Rightarrow> int" where
  "days_funded loan now = max 1 \<lfloor>(now - funded_at loan) / 86400\<rfloor>"

definition repayment_record ::
    "PartialSettlementPolicy option \<Rightarrow> time \<Rightarrow> ActiveLoan \<Rightarrow> RepaymentTrigger \<Rightarrow> dec \<Rightarrow> dec \<Rightarrow> dec
      \<Rightarrow> py_exc + RepaymentRecord" where
  "repayment_record policy now loan trigger amount shortfall shortfall_pct =
     (let is_partial = amount < principal loan;
          effective_principal = (if is_partial \<and> policy = Some ACCEPT_PARTIAL then amount else principal loan);
          cfg = get_phase_config (loan_phase loan)
      in
      res_bind (compute_loan_fee effective_principal (of_int (fee_bps loan)) (of_int (days_funded loan now))) (\<lambda>fee.
      res_bind (compute_platform_royalty fee (bpi_fee_share cfg)) (\<lambda>bpi_fee_share_usd.
      let net_fee_to_entities = dsub fee bpi_fee_share_usd in
      res_bind (quantize 2 (dmul fee (bank_capital_return_share cfg))) (\<lambda>bank_capital_return_usd.
      let bank_distribution_premium_usd = dsub net_fee_to_entities bank_capital_return_usd in
      Inr \<lparr> rec_loan_id = loan_id loan, rec_uetr = loan_uetr loan,
            rec_individual_payment_id = individual_payment_id loan, rec_principal = principal loan,
            rec_fee = fee, rec_bpi_fee_share_usd = bpi_fee_share_usd,
            rec_platform_royalty = bpi_fee_share_usd,
            rec_net_fee_to_entities = net_fee_to_entities,
            rec_bank_capital_return_usd = bank_capital_return_usd,
            rec_bank_distribution_premium_usd = bank_distribution_premium_usd,
            rec_income_type = cfg_income_type cfg, rec_deployment_phase = phase_value (loan_phase loan),
            rec_licensee_id = licensee_id loan, rec_fee_bps = fee_bps loan,
            rec_settlement_amount = amount, rec_corridor = corridor loan,
            rec_rejection_class = rejection_class loan, rec_trigger = trigger,
            rec_funded_at = funded_at loan, rec_maturity_date = maturity_date loan,
            rec_repaid_at = now, rec_is_partial = is_partial, rec_shortfall_amount = shortfall,
            rec_shortfall_pct = shortfall_pct \<rparr>))))"

definition trigger_repayment ::
    "'r redis_api \<Rightarrow> bool \<Rightarrow> 'r RepaymentLoop \<Rightarrow> time \<Rightarrow> ActiveLoan \<Rightarrow> RepaymentTrigger \<Rightarrow> dec
      \<Rightarrow> (py_exc + repayment_result) \<times> 'r RepaymentLoop" where
  "trigger_repayment R up s now loan trigger amount =
     (let is_partial = amount < principal loan;
          shortfall = (if is_partial then dsub (principal loan) amount else 0);
          shortfall_pct = (if is_partial \<and> 0 < principal loan then ctx (shortfall / principal loan) else 0)
      in if is_partial \<and> lp_policy s = Some REQUIRE_FULL then
           (Inr (PartialPendingResult \<lparr> pp_loan_id = loan_id loan, pp_uetr = loan_uetr loan,
              pp_settlement_amount = amount, pp_shortfall_amount = shortfall,
              pp_shortfall_pct = shortfall_pct \<rparr>), s)
         else
           case claim_repayment R up s now (loan_uetr loan) (loan_maturity_days loan) (licensee_id loan)
                  (loan_rail loan) of
             (False, s) \<Rightarrow> (Inr AlreadyProcessed, s)
           | (True, s) \<Rightarrow>
               (case repayment_record (lp_policy s) now loan trigger amount shortfall shortfall_pct of
                  Inl e \<Rightarrow> (Inl e, s)
                | Inr rec \<Rightarrow>
                    let s = s\<lparr>lp_callbacks := lp_callbacks s @ [rec]\<rparr>;
                        s = snd (deregister_loan s (loan_id loan))
                    in (Inr (RepaidResult rec), s)))"

text \<open>
  \<open>check_maturities\<close>: the loop over the snapshot of active loans; an exception of one loan ends it.  The
  server may fail in between: \<open>up lid\<close> says whether it answers the claim of the loan \<open>lid\<close>.
\<close>

fun check_loans ::
    "'r redis_api \<Rightarrow> (string \<Rightarrow> bool) \<Rightarrow> 'r RepaymentLoop \<Rightarrow> time \<Rightarrow> ActiveLoan list \<Rightarrow> RepaymentRecord list
      \<Rightarrow> (py_exc + RepaymentRecord list) \<times> 'r RepaymentLoop" where
  "check_loans R up s now [] triggered = (Inr triggered, s)"
| "check_loans R up s now (loan # loans) triggered =
     (if rejection_class loan = ''BLOCK'' then check_loans R up s now loans triggered
      else if now \<ge> maturity_date loan then
        (case trigger_repayment R (up (loan_id loan)) s now loan MATURITY_REACHED (principal loan) of
           (Inl e, s) \<Rightarrow> (Inl e, s)
         | (Inr (RepaidResult rec), s) \<Rightarrow> check_loans R up s now loans (triggered @ [rec])
         | (Inr _, s) \<Rightarrow> check_loans R up s now loans triggered)
      else check_loans R up s now loans triggered)"

definition check_maturities ::
    "'r redis_api \<Rightarrow> (string \<Rightarrow> bool) \<Rightarrow> 'r RepaymentLoop \<Rightarrow> time \<Rightarrow> (py_exc + RepaymentRecord list) \<times> 'r RepaymentLoop" where
  "check_maturities R up s now = check_loans R up s now (get_active_loans s) []"

section \<open>The two claim stores\<close>

type_synonym claim_args = "string \<times> int \<times> string \<times> string"

fun memory_claim_of ::
    "'r redis_api \<Rightarrow> 'r RepaymentLoop \<Rightarrow> time \<Rightarrow> claim_args \<Rightarrow> bool \<times> 'r RepaymentLoop" where
  "memory_claim_of R s now (uetr, maturity, tenant, rail) =
     claim_repayment R False s now uetr maturity tenant rail"

fun redis_claim_of :: "'r redis_api \<Rightarrow> 'r \<Rightarrow> time \<Rightarrow> claim_args \<Rightarrow> bool \<times> 'r" where
  "redis_claim_of R r now (uetr, maturity, tenant, rail) = redis_claim R r now uetr maturity tenant rail"

fun claim_args_key :: "claim_args \<Rightarrow> string" where
  "claim_args_key (uetr, maturity, tenant, rail) = claim_key tenant uetr"

fun claim_args_ok :: "claim_args \<Rightarrow> bool" where
  "claim_args_ok (uetr, maturity, tenant, rail) \<longleftrightarrow> 0 \<le> maturity"

definition CLAIM_WINDOW :: time where "CLAIM_WINDOW = 45 * 86400"

lemma claim_ttl_lower: "0 \<le> maturity \<Longrightarrow> 45 * 86400 \<le> claim_ttl_seconds maturity rail"
  by (auto simp: claim_ttl_seconds_def RAIL_MATURITY_HOURS_def REDIS_REPAID_TTL_EXTRA_DAYS_def
      UETR_TTL_BUFFER_DAYS_def split: option.splits if_splits)

lemma claim_ttl_window:
  assumes "0 \<le> maturity"
  shows "0 < claim_ttl_seconds maturity rail" "CLAIM_WINDOW \<le> of_int (claim_ttl_seconds maturity rail)"
proof -
  have *: "45 * 86400 \<le> claim_ttl_seconds maturity rail" using assms by (rule claim_ttl_lower)
  then show "0 < claim_ttl_seconds maturity rail" by linarith
  show "CLAIM_WINDOW \<le> of_int (claim_ttl_seconds maturity rail)"
    using * unfolding CLAIM_WINDOW_def by linarith
qed

text \<open>The in-memory set never forgets, so its window is of any length.\<close>

interpretation memory_claim: claim_once "memory_claim_of R" fst "\<lambda>s t u. u \<in> lp_repaid_uetrs s"
    "\<lambda>a. True" window
  for R :: "'r redis_api" and window
  by unfold_locales (auto simp: claim_repayment_def Let_def split: option.splits)

text \<open>Any Redis client that obeys the laws holds a claim for at least 45 days.\<close>

lemma redis_claim_once:
  assumes "redis_laws R"
  shows "claim_once (redis_claim_of R) claim_args_key (\<lambda>r t k. redis_get R r t k \<noteq> None) claim_args_ok CLAIM_WINDOW"
proof
  fix a :: claim_args and r t t' k
  obtain u m te ra where a: "a = (u, m, te, ra)" by (metis surj_pair)
  assume ok: "claim_args_ok a"
  then have m: "0 \<le> m" using a by simp
  note ttl = claim_ttl_window [OF m, of ra]
  show "fst (redis_claim_of R r t a) \<longleftrightarrow> \<not> redis_get R r t (claim_args_key a) \<noteq> None"
    using redis_set_nx_result [OF assms] by (simp add: a redis_claim_def)
  show "redis_get R (snd (redis_claim_of R r t a)) t' (claim_args_key a) \<noteq> None"
    if "fst (redis_claim_of R r t a)" "t \<le> t'" "t' < t + CLAIM_WINDOW"
  proof -
    have "redis_get R r t (claim_key te u) = None"
      using that(1) redis_set_nx_result [OF assms] by (simp add: a redis_claim_def)
    moreover have "t' < t + of_int (claim_ttl_seconds m ra)" using that(3) ttl(2) by linarith
    ultimately show ?thesis
      using redis_get_set_nx [OF assms that(2) ttl(1)] by (simp add: a redis_claim_def)
  qed
  show "redis_get R (snd (redis_claim_of R r t a)) t' k \<noteq> None"
    if "t \<le> t'" "redis_get R r t' k \<noteq> None"
  proof -
    have "redis_get R r t k \<noteq> None" using redis_stays_expired [OF assms that(1), of r k] that(2) by blast
    with that(2) show ?thesis
      by (auto simp: a redis_claim_def redis_get_set_nx [OF assms that(1) ttl(1)])
  qed
qed

section \<open>Histories of a loop\<close>

datatype loop_op =
    OpRegister ActiveLoan
  | OpTrigger ActiveLoan RepaymentTrigger dec
  | OpCheckMaturities

fun loop_step :: "'r redis_api \<Rightarrow> (string \<Rightarrow> bool) \<Rightarrow> time \<Rightarrow> loop_op \<Rightarrow> 'r RepaymentLoop \<Rightarrow> 'r RepaymentLoop" where
  "loop_step R up now (OpRegister loan) s = register_loan s loan"
| "loop_step R up now (OpTrigger loan trigger amount) s = snd (trigger_repayment R (up (loan_id loan)) s now loan trigger amount)"
| "loop_step R up now OpCheckMaturities s = snd (check_maturities R up s now)"

lemma record_fields:
  assumes "repayment_record policy now loan trigger amount sf pct = Inr rec"
  shows "rec_uetr rec = loan_uetr loan" "rec_licensee_id rec = licensee_id loan"
    "rec_repaid_at rec = now" "rec_loan_id rec = loan_id loan" "rec_settlement_amount rec = amount"
    "rec_trigger rec = trigger"
  using assms by (auto simp: repayment_record_def Let_def res_bind_Inr_iff)

lemma deregister_frame [simp]:
  "lp_redis (snd (deregister_loan s l)) = lp_redis s" "lp_policy (snd (deregister_loan s l)) = lp_policy s"
  "lp_repaid_uetrs (snd (deregister_loan s l)) = lp_repaid_uetrs s"
  "lp_callbacks (snd (deregister_loan s l)) = lp_callbacks s"
  by (auto simp: deregister_loan_def Let_def split: option.splits)

lemma claim_frame:
  "claim_repayment R up s now u m te ra = (ok, s') \<Longrightarrow>
   lp_callbacks s' = lp_callbacks s \<and> lp_policy s' = lp_policy s \<and> lp_active s' = lp_active s
     \<and> lp_monitor s' = lp_monitor s"
  by (auto simp: claim_repayment_def Let_def split: option.splits if_splits prod.splits)

text \<open>
  Every repayment goes through a claim: a trigger leaves the callbacks alone, or wins the claim of the
  loan's UETR and appends the one record it returns.
\<close>

definition loan_claim ::
    "'r redis_api \<Rightarrow> bool \<Rightarrow> 'r RepaymentLoop \<Rightarrow> time \<Rightarrow> ActiveLoan \<Rightarrow> bool \<times> 'r RepaymentLoop" where
  "loan_claim R up s now loan =
     claim_repayment R up s now (loan_uetr loan) (loan_maturity_days loan) (licensee_id loan) (loan_rail loan)"

lemma trigger_cases:
  assumes "trigger_repayment R up s now loan trigger amount = (res, s')"
  obtains (pending) pp where "res = Inr (PartialPendingResult pp)" "s' = s"
  | (skipped) "res = Inr AlreadyProcessed" "loan_claim R up s now loan = (False, s')"
  | (failed) e where "res = Inl e" "loan_claim R up s now loan = (True, s')"
  | (repaid) rec s1 sf pct where "res = Inr (RepaidResult rec)"
      "loan_claim R up s now loan = (True, s1)"
      "repayment_record (lp_policy s1) now loan trigger amount sf pct = Inr rec"
      "s' = snd (deregister_loan (s1\<lparr>lp_callbacks := lp_callbacks s1 @ [rec]\<rparr>) (loan_id loan))"
proof (cases "amount < principal loan \<and> lp_policy s = Some REQUIRE_FULL")
  case True
  with assms pending show thesis by (auto simp: trigger_repayment_def Let_def)
next
  case False
  obtain ok s1 where c: "loan_claim R up s now loan = (ok, s1)" by (cases "loan_claim R up s now loan")
  define sf where "sf = (if amount < principal loan then dsub (principal loan) amount else 0)"
  define pct where "pct = (if amount < principal loan \<and> 0 < principal loan
    then ctx (sf / principal loan) else 0)"
  have eq: "trigger_repayment R up s now loan trigger amount =
    (case (ok, s1) of
       (False, s) \<Rightarrow> (Inr AlreadyProcessed, s)
     | (True, s) \<Rightarrow>
         (case repayment_record (lp_policy s) now loan trigger amount sf pct of
            Inl e \<Rightarrow> (Inl e, s)
          | Inr rec \<Rightarrow> (Inr (RepaidResult rec),
              snd (deregister_loan (s\<lparr>lp_callbacks := lp_callbacks s @ [rec]\<rparr>) (loan_id loan)))))"
    unfolding c [symmetric] trigger_repayment_def Let_def loan_claim_def [symmetric] sf_def pct_def
    using False by (simp only: if_False)
  show thesis
  proof (cases ok)
    case False
    with eq c assms skipped show thesis by simp
  next
    case True
    show thesis
    proof (cases "repayment_record (lp_policy s1) now loan trigger amount sf pct")
      case (Inl e)
      with True eq c assms failed show thesis by simp
    next
      case (Inr rec)
      with True eq c assms repaid [of rec s1 sf pct] show thesis by simp
    qed
  qed
qed

section \<open>At most one repayment: a single process without Redis\<close>

definition repaid_once :: "'r RepaymentLoop \<Rightarrow> bool" where
  "repaid_once s \<longleftrightarrow> lp_redis s = None \<and> distinct (map rec_uetr (lp_callbacks s))
     \<and> set (map rec_uetr (lp_callbacks s)) \<subseteq> lp_repaid_uetrs s"

lemma loan_claim_memory:
  "lp_redis s = None \<Longrightarrow>
   loan_claim R up s now loan = memory_claim_of R s now (loan_uetr loan, loan_maturity_days loan, licensee_id loan, loan_rail loan)"
  by (simp add: loan_claim_def claim_repayment_def Let_def)

lemma memory_claim_state:
  "lp_redis s = None \<Longrightarrow> memory_claim_of R s now a = (ok, s') \<Longrightarrow>
   lp_redis s' = None \<and> lp_callbacks s' = lp_callbacks s \<and> lp_repaid_uetrs s \<subseteq> lp_repaid_uetrs s'"
  by (cases a) (auto simp: claim_repayment_def Let_def split: if_splits)

lemma trigger_repaid_once:
  assumes "repaid_once s"
  shows "repaid_once (snd (trigger_repayment R up s now loan trigger amount))"
proof -
  obtain res s' where t: "trigger_repayment R up s now loan trigger amount = (res, s')"
    by (cases "trigger_repayment R up s now loan trigger amount")
  let ?a = "(loan_uetr loan, loan_maturity_days loan, licensee_id loan, loan_rail loan)"
  have none: "lp_redis s = None" using assms by (simp add: repaid_once_def)
  note mem = loan_claim_memory [OF none] and st = memory_claim_state [OF none]
  from t have "repaid_once s'"
  proof (cases rule: trigger_cases)
    case pending
    with assms show ?thesis by simp
  next
    case skipped
    with st [of R now ?a False s'] assms show ?thesis
      by (auto simp: mem repaid_once_def)
  next
    case failed
    with st [of R now ?a True s'] assms show ?thesis
      by (auto simp: mem repaid_once_def)
  next
    case (repaid rec s1 sf pct)
    then have c: "memory_claim_of R s now ?a = (True, s1)" by (simp add: mem)
    then have "loan_uetr loan \<notin> lp_repaid_uetrs s"
      using memory_claim.claim_iff [where a = ?a and s = s and t = now and R = R] by simp
    moreover have "loan_uetr loan \<in> lp_repaid_uetrs s1"
      using memory_claim.won_held [where a = ?a and s = s and t = now and t' = now and R = R and window = 1] c
      by simp
    ultimately show ?thesis
      using repaid(4) st [OF c] assms record_fields(1) [OF repaid(3)] by (auto simp: repaid_once_def)
  qed
  with t show ?thesis by simp
qed

lemma check_loans_repaid_once:
  "repaid_once s \<Longrightarrow> repaid_once (snd (check_loans R up s now loans done))"
proof (induction loans arbitrary: s "done")
  case (Cons loan loans)
  obtain res s' where t: "trigger_repayment R (up (loan_id loan)) s now loan MATURITY_REACHED (principal loan) = (res, s')"
    by (cases "trigger_repayment R (up (loan_id loan)) s now loan MATURITY_REACHED (principal loan)")
  then have "repaid_once s'" using trigger_repaid_once [OF Cons.prems] by (metis snd_conv)
  with Cons t show ?case by (auto split: sum.splits repayment_result.splits)
qed simp

lemma loop_step_repaid_once: "repaid_once s \<Longrightarrow> repaid_once (loop_step R up now opn s)"
  by (cases opn)
    (simp_all add: trigger_repaid_once check_maturities_def check_loans_repaid_once,
      simp add: repaid_once_def register_loan_def)

text \<open>
  Without Redis, a process repays a UETR at most once.  From a fresh loop, over every sequence of
  loan registrations (the same loan or UETR any number of times), settlement triggers with any amount
  and trigger kind, and maturity checks, at any clock readings, and under any partial-settlement
  policy, the callback is called at most once per UETR.
\<close>

lemma memory_repayment_at_most_once:
  "distinct (map rec_uetr (lp_callbacks
     (fold (\<lambda>(now, opn). loop_step R up now opn) ops (loop_init monitor None policy))))"
proof -
  have "repaid_once (fold (\<lambda>(now, opn). loop_step R up now opn) ops s)" if "repaid_once s" for s
    using that by (induction ops arbitrary: s) (auto simp: loop_step_repaid_once)
  then have "repaid_once (fold (\<lambda>(now, opn). loop_step R up now opn) ops (loop_init monitor None policy))"
    by (simp add: repaid_once_def loop_init_def)
  then show ?thesis by (simp add: repaid_once_def)
qed

section \<open>At most one repayment: a cluster of processes on one Redis\<close>

text \<open>
  The processes of a deployment share the Redis server and nothing else: a step runs one operation of
  one process against the server's current state; the server may fail to answer any of its claims,
  which then fall back to the process's own set.  \<open>cl_log\<close> lists the repayments of all processes in order,
  each with the process that made it and whether the server answered its claim.
\<close>

type_synonym repayment_entry = "nat \<times> bool \<times> RepaymentRecord"
type_synonym cluster_event = "time \<times> nat \<times> (string \<Rightarrow> bool) \<times> loop_op"

record 'r cluster =
  cl_redis :: 'r
  cl_loops :: "nat \<Rightarrow> 'r RepaymentLoop"
  cl_log :: "repayment_entry list"

definition log_entry_of :: "(string \<Rightarrow> bool) \<Rightarrow> nat \<Rightarrow> RepaymentRecord \<Rightarrow> repayment_entry" where
  "log_entry_of up i rec = (i, up (rec_loan_id rec), rec)"

definition cluster_step :: "'r redis_api \<Rightarrow> cluster_event \<Rightarrow> 'r cluster \<Rightarrow> 'r cluster" where
  "cluster_step R ev c =
     (case ev of (now, i, up, opn) \<Rightarrow>
        let s = (cl_loops c i)\<lparr>lp_redis := Some (cl_redis c)\<rparr>;
            s' = loop_step R up now opn s
        in c\<lparr>cl_redis := the (lp_redis s'), cl_loops := (cl_loops c)(i := s'),
             cl_log := cl_log c @ map (log_entry_of up i) (drop (length (lp_callbacks s)) (lp_callbacks s'))\<rparr>)"

text \<open>
  Two views of the log: the repayments whose claim the server answered, with their times and claim keys;
  and the UETRs that one process repaid on its own because the server did not answer.
\<close>

definition claim_entry :: "RepaymentRecord \<Rightarrow> time \<times> string" where
  "claim_entry rec = (rec_repaid_at rec, claim_key (rec_licensee_id rec) (rec_uetr rec))"

definition server_claims :: "repayment_entry list \<Rightarrow> (time \<times> string) list" where
  "server_claims l = map (\<lambda>(i, up, rec). claim_entry rec) (filter (\<lambda>(i, up, rec). up) l)"

definition fallback_uetrs :: "nat \<Rightarrow> repayment_entry list \<Rightarrow> string list" where
  "fallback_uetrs i l = map (\<lambda>(j, up, rec). rec_uetr rec) (filter (\<lambda>(j, up, rec). j = i \<and> \<not> up) l)"

lemma server_claims_simps [simp]:
  "server_claims [] = []" "server_claims (l @ l') = server_claims l @ server_claims l'"
  "server_claims [(i, up, rec)] = (if up then [claim_entry rec] else [])"
  by (simp_all add: server_claims_def)

lemma fallback_uetrs_simps [simp]:
  "fallback_uetrs i [] = []" "fallback_uetrs i (l @ l') = fallback_uetrs i l @ fallback_uetrs i l'"
  "fallback_uetrs i [(j, up, rec)] = (if j = i \<and> \<not> up then [rec_uetr rec] else [])"
  by (simp_all add: fallback_uetrs_def)

lemma fallback_uetrs_other: "j \<noteq> i \<Longrightarrow> fallback_uetrs j (map (log_entry_of up i) recs) = []"
  by (simp add: fallback_uetrs_def log_entry_of_def filter_empty_conv)

text \<open>What a step preserves: \<open>n\<close> callbacks were there before it, \<open>l\<close> is the log before it.\<close>

definition log_held :: "'r redis_api \<Rightarrow> time \<Rightarrow> 'r \<Rightarrow> (time \<times> string) list \<Rightarrow> bool" where
  "log_held R now r l \<longleftrightarrow> spaced CLAIM_WINDOW l \<and>
     (\<forall>(t, k) \<in> set l. t \<le> now \<and> (\<forall>u. now \<le> u \<longrightarrow> u < t + CLAIM_WINDOW \<longrightarrow> redis_get R r u k \<noteq> None))"

definition fallback_held :: "string set \<Rightarrow> string list \<Rightarrow> bool" where
  "fallback_held repaid us \<longleftrightarrow> distinct us \<and> set us \<subseteq> repaid"

definition step_inv ::
    "'r redis_api \<Rightarrow> (string \<Rightarrow> bool) \<Rightarrow> time \<Rightarrow> repayment_entry list \<Rightarrow> nat \<Rightarrow> nat \<Rightarrow> 'r RepaymentLoop \<Rightarrow> bool" where
  "step_inv R up now l i n s \<longleftrightarrow> n \<le> length (lp_callbacks s) \<and>
     (\<exists>r. lp_redis s = Some r \<and>
        log_held R now r (server_claims (l @ map (log_entry_of up i) (drop n (lp_callbacks s))))) \<and>
     fallback_held (lp_repaid_uetrs s) (fallback_uetrs i (l @ map (log_entry_of up i) (drop n (lp_callbacks s))))"

lemma log_held_later: "log_held R now r l \<Longrightarrow> now \<le> now' \<Longrightarrow> log_held R now' r l"
  unfolding log_held_def by fastforce

lemma loan_claim_redis:
  assumes "lp_redis s = Some r"
  shows "loan_claim R True s now loan =
    (case redis_claim_of R r now (loan_uetr loan, loan_maturity_days loan, licensee_id loan, loan_rail loan) of
       (ok, r') \<Rightarrow> (ok, s\<lparr>lp_redis := Some r'\<rparr>))"
  using assms by (simp add: loan_claim_def claim_repayment_def Let_def)

lemma loan_claim_outage:
  "loan_claim R False s now loan =
    (if loan_uetr loan \<in> lp_repaid_uetrs s then (False, s)
     else (True, s\<lparr>lp_repaid_uetrs := insert (loan_uetr loan) (lp_repaid_uetrs s)\<rparr>))"
  by (simp add: loan_claim_def claim_repayment_def Let_def split: option.split)

lemma loan_maturity_nonneg: "0 \<le> loan_maturity_days loan"
  by (auto simp: loan_maturity_days_def split: option.splits if_splits)

text \<open>The claim keeps the log; a won claim can be logged.\<close>

definition loggable :: "'r redis_api \<Rightarrow> time \<Rightarrow> repayment_entry list \<Rightarrow> nat \<Rightarrow> 'r RepaymentLoop \<Rightarrow> bool" where
  "loggable R now l i s \<longleftrightarrow>
     (\<exists>r. lp_redis s = Some r \<and> log_held R now r (server_claims l)) \<and>
     fallback_held (lp_repaid_uetrs s) (fallback_uetrs i l)"

lemma claim_loggable:
  assumes "redis_laws R" "loggable R now l i s" "loan_claim R up s now loan = (won, s1)"
  shows "loggable R now l i s1"
    and "won \<Longrightarrow> rec_repaid_at rec = now \<Longrightarrow> rec_licensee_id rec = licensee_id loan \<Longrightarrow>
      rec_uetr rec = loan_uetr loan \<Longrightarrow> loggable R now (l @ [(i, up, rec)]) i s1"
proof -
  from assms(2) obtain r where r: "lp_redis s = Some r" and l: "log_held R now r (server_claims l)"
    and f: "fallback_held (lp_repaid_uetrs s) (fallback_uetrs i l)" by (auto simp: loggable_def)
  have "loggable R now l i s1 \<and> (won \<longrightarrow> rec_repaid_at rec = now \<longrightarrow> rec_licensee_id rec = licensee_id loan \<longrightarrow>
      rec_uetr rec = loan_uetr loan \<longrightarrow> loggable R now (l @ [(i, up, rec)]) i s1)"
  proof (cases up)
    case False
    with assms(3) r l f show ?thesis
      by (auto simp: loan_claim_outage loggable_def fallback_held_def split: if_splits)
  next
    case True
    let ?a = "(loan_uetr loan, loan_maturity_days loan, licensee_id loan, loan_rail loan)"
    let ?k = "claim_key (licensee_id loan) (loan_uetr loan)"
    note claim = redis_claim_once [OF assms(1)]
    have ok: "claim_args_ok ?a" by (simp add: loan_maturity_nonneg)
    obtain w r' where c: "redis_claim_of R r now ?a = (w, r')" by (cases "redis_claim_of R r now ?a")
    with assms(3) True loan_claim_redis [OF r] have s1: "won = w" "s1 = s\<lparr>lp_redis := Some r'\<rparr>" by auto
    have frame: "redis_get R r' u k \<noteq> None" if "now \<le> u" "redis_get R r u k \<noteq> None" for u k
      using claim_once.held_frame [OF claim ok that] c by simp
    have l': "log_held R now r' (server_claims l)" using l frame unfolding log_held_def by fast
    moreover have "log_held R now r' (server_claims l @ [(now, ?k)])" if w
    proof -
      have free: "redis_get R r now ?k = None"
        using claim_once.claim_iff [OF claim ok, of r now] c that by simp
      have own: "redis_get R r' u ?k \<noteq> None" if "now \<le> u" "u < now + CLAIM_WINDOW" for u
        using claim_once.won_held [OF claim ok _ that, of r] c \<open>w\<close> by simp
      have "t' + CLAIM_WINDOW \<le> now" if "(t', ?k) \<in> set (server_claims l)" for t'
        using l that free unfolding log_held_def by (metis (mono_tags, lifting) case_prodD not_less order_refl)
      then have "spaced CLAIM_WINDOW (server_claims l @ [(now, ?k)])"
        using l' unfolding log_held_def spaced_append by auto
      then show ?thesis using l' own unfolding log_held_def by auto
    qed
    ultimately show ?thesis using True f s1 by (simp add: loggable_def claim_entry_def)
  qed
  then show "loggable R now l i s1"
    and "won \<Longrightarrow> rec_repaid_at rec = now \<Longrightarrow> rec_licensee_id rec = licensee_id loan \<Longrightarrow>
      rec_uetr rec = loan_uetr loan \<Longrightarrow> loggable R now (l @ [(i, up, rec)]) i s1" by simp_all
qed

lemma step_inv_loggable:
  "step_inv R up now l i n s \<longleftrightarrow> n \<le> length (lp_callbacks s) \<and>
     loggable R now (l @ map (log_entry_of up i) (drop n (lp_callbacks s))) i s"
  by (simp add: step_inv_def loggable_def)

lemma loggable_deregister [simp]:
  "loggable R now l i (snd (deregister_loan s lid)) = loggable R now l i s"
  "loggable R now l i (s\<lparr>lp_callbacks := cb\<rparr>) = loggable R now l i s"
  by (simp_all add: loggable_def)

lemma trigger_step_inv:
  assumes "redis_laws R" "step_inv R up now l i n s"
  shows "step_inv R up now l i n (snd (trigger_repayment R (up (loan_id loan)) s now loan trigger amount))"
proof -
  obtain res s' where t: "trigger_repayment R (up (loan_id loan)) s now loan trigger amount = (res, s')"
    by (cases "trigger_repayment R (up (loan_id loan)) s now loan trigger amount")
  note inv = assms(2) [unfolded step_inv_loggable]
  note claim = claim_loggable [OF assms(1) conjunct2 [OF inv]]
  have cb: "lp_callbacks s1 = lp_callbacks s" if "loan_claim R (up (loan_id loan)) s now loan = (ok, s1)" for ok s1
    using claim_frame that unfolding loan_claim_def by blast
  from t have "step_inv R up now l i n s'"
  proof (cases rule: trigger_cases)
    case pending
    with assms(2) show ?thesis by simp
  next
    case skipped
    with claim(1) [OF skipped(2)] inv cb [OF skipped(2)] show ?thesis by (simp add: step_inv_loggable)
  next
    case (failed e)
    with claim(1) [OF failed(2)] inv cb [OF failed(2)] show ?thesis by (simp add: step_inv_loggable)
  next
    case (repaid rec s1 sf pct)
    note fields = record_fields [OF repaid(3)]
    from claim(2) [OF repaid(2) TrueI fields(3,2,1)] inv cb [OF repaid(2)] show ?thesis
      by (simp add: step_inv_loggable repaid(4) log_entry_of_def fields)
  qed
  with t show ?thesis by simp
qed

lemma check_loans_step_inv:
  "redis_laws R \<Longrightarrow> step_inv R up now l i n s \<Longrightarrow> step_inv R up now l i n (snd (check_loans R up s now loans done))"
proof (induction loans arbitrary: s "done")
  case (Cons loan loans)
  obtain res s' where t: "trigger_repayment R (up (loan_id loan)) s now loan MATURITY_REACHED (principal loan) = (res, s')"
    by (cases "trigger_repayment R (up (loan_id loan)) s now loan MATURITY_REACHED (principal loan)")
  then have "step_inv R up now l i n s'" using trigger_step_inv [OF Cons.prems] by (metis snd_conv)
  with Cons t show ?case by (auto split: sum.splits repayment_result.splits)
qed simp

lemma loop_step_inv:
  "redis_laws R \<Longrightarrow> step_inv R up now l i n s \<Longrightarrow> step_inv R up now l i n (loop_step R up now opn s)"
  by (cases opn)
    (simp_all add: trigger_step_inv check_maturities_def check_loans_step_inv,
      simp add: step_inv_def register_loan_def)

definition cluster_inv :: "'r redis_api \<Rightarrow> time \<Rightarrow> 'r cluster \<Rightarrow> bool" where
  "cluster_inv R now c \<longleftrightarrow> log_held R now (cl_redis c) (server_claims (cl_log c)) \<and>
     (\<forall>i. fallback_held (lp_repaid_uetrs (cl_loops c i)) (fallback_uetrs i (cl_log c)))"

lemma cluster_step_inv:
  assumes "redis_laws R" "cluster_inv R now c"
  shows "cluster_inv R now (cluster_step R (now, i, up, opn) c)"
proof -
  let ?s = "(cl_loops c i)\<lparr>lp_redis := Some (cl_redis c)\<rparr>"
  let ?n = "length (lp_callbacks ?s)"
  have "step_inv R up now (cl_log c) i ?n ?s" using assms(2) by (simp add: step_inv_def cluster_inv_def)
  from loop_step_inv [OF assms(1) this, of opn] assms(2) show ?thesis
    by (auto simp: step_inv_def cluster_inv_def cluster_step_def Let_def fallback_uetrs_other)
qed

lemma cluster_inv_run:
  assumes "redis_laws R" "times_ok t0 evs" "cluster_inv R t0 c"
  shows "\<exists>t. cluster_inv R t (fold (cluster_step R) evs c)"
  using assms(2,3)
proof (induction evs arbitrary: c t0)
  case (Cons ev evs)
  obtain now i up opn where ev: "ev = (now, i, up, opn)" by (cases ev)
  with Cons.prems have "cluster_inv R now c" "times_ok now evs"
    by (auto simp: cluster_inv_def intro: log_held_later)
  with Cons.IH [OF _ cluster_step_inv [OF assms(1)]] ev show ?case by simp
qed auto

text \<open>
  C4: processes that share a Redis server which obeys its documented behaviour repay a UETR (of one
  tenant) at most once in 45 days, and an outage costs at most one repayment per process.  Over every
  interleaving of the operations of any number of processes, whatever loans each has registered,
  whatever each one's partial-settlement policy and whichever claims the server fails to answer: two
  repayments with the same claim key whose claims it answered are at least 45 days apart in the global order,
  and no process repays a UETR twice among the repayments it makes on its own because the server
  did not answer.
\<close>

theorem cluster_repayment_at_most_once:
  assumes "redis_laws R" "times_ok t0 evs" "cl_log c = []"
  shows "spaced (45 * 86400) (server_claims (cl_log (fold (cluster_step R) evs c))) \<and>
    distinct (fallback_uetrs i (cl_log (fold (cluster_step R) evs c)))"
proof -
  have "cluster_inv R t0 c" using assms(3) by (simp add: cluster_inv_def log_held_def fallback_held_def)
  from cluster_inv_run [OF assms(1,2) this] show ?thesis
    by (auto simp: cluster_inv_def log_held_def fallback_held_def CLAIM_WINDOW_def)
qed

text \<open>Witness: two processes see the same settlement of one loan, and a third one during an outage.\<close>

definition sample_loan :: ActiveLoan where
  "sample_loan = \<lparr> loan_id = ''L1'', loan_uetr = ''U1'', individual_payment_id = ''E1'',
     principal = 1000000, fee_bps = 365, maturity_date = 700000, rejection_class = ''CLASS_B'',
     corridor = ''USD_EUR'', funded_at = 0, licensee_id = ''BANKA'', deployment_phase = ''HYBRID'',
     loan_rail = ''SWIFT'' \<rparr>"

definition sample_loop :: "redis_map RepaymentLoop" where
  "sample_loop = loop_init (monitor_init create_default (map_init None)) None (Some REQUIRE_FULL)"

lemma cluster_repayment_at_most_once_witness:
  "let c = fold (cluster_step map_redis)
     [(10, 0, \<lambda>_. True, OpRegister sample_loan), (20, 1, \<lambda>_. True, OpRegister sample_loan),
      (864000, 0, \<lambda>_. True, OpTrigger sample_loan SETTLEMENT_CONFIRMED 1000000),
      (864001, 1, \<lambda>_. True, OpCheckMaturities),
      (864002, 2, \<lambda>_. False, OpTrigger sample_loan SETTLEMENT_CONFIRMED 1000000),
      (864003, 2, \<lambda>_. False, OpTrigger sample_loan SETTLEMENT_CONFIRMED 1000000)]
     \<lparr> cl_redis = Map.empty, cl_loops = (\<lambda>i. sample_loop), cl_log = [] \<rparr>
   in spaced (45 * 86400) (server_claims (cl_log c)) \<and> distinct (fallback_uetrs 2 (cl_log c))"
  unfolding Let_def
  by (rule cluster_repayment_at_most_once [OF map_redis_laws, of 0]) simp_all

section \<open>The money of a repayment record\<close>

lemma loan_fee_cents:
  "compute_loan_fee a b d = Inr f \<Longrightarrow> f = of_int (round_half_up (raw_loan_fee a b d * 100)) / 100"
  unfolding compute_loan_fee_def quantize_Inr_iff quant_def by simp

text \<open>
  The money of a repayment adds up.  In every repayment record whose principal, rate and settled
  amount are not negative and whose fee is below 10 ^ 22 USD: the fee is the loan fee on the principal
  (on the settled amount when a partial settlement is accepted) for the days funded, at least one; BPI's
  share and the rest add up to the fee, the bank's capital return and distribution premium add up to
  the rest, and none of them is negative.
\<close>

lemma repayment_record_conserves_fee:
  assumes "repayment_record policy now loan trigger amount sf pct = Inr rec"
    and "0 \<le> principal loan" "0 \<le> amount" "0 \<le> fee_bps loan" "rec_fee rec < 10 ^ 22"
  shows "compute_loan_fee (if amount < principal loan \<and> policy = Some ACCEPT_PARTIAL then amount
           else principal loan) (of_int (fee_bps loan)) (of_int (days_funded loan now)) = Inr (rec_fee rec)
    \<and> 1 \<le> days_funded loan now
    \<and> rec_bpi_fee_share_usd rec + rec_net_fee_to_entities rec = rec_fee rec
    \<and> rec_bank_capital_return_usd rec + rec_bank_distribution_premium_usd rec = rec_net_fee_to_entities rec
    \<and> 0 \<le> rec_bpi_fee_share_usd rec \<and> 0 \<le> rec_net_fee_to_entities rec
    \<and> 0 \<le> rec_bank_capital_return_usd rec \<and> 0 \<le> rec_bank_distribution_premium_usd rec"
proof -
  let ?p = "if amount < principal loan \<and> policy = Some ACCEPT_PARTIAL then amount else principal loan"
  let ?d = "of_int (days_funded loan now) :: dec" and ?ph = "loan_phase loan"
  from assms(1) obtain fee share cap where
    fee: "compute_loan_fee ?p (of_int (fee_bps loan)) ?d = Inr fee"
    and share: "quantize 2 (dmul fee (bpi_fee_share (get_phase_config ?ph))) = Inr share"
    and cap: "quantize 2 (dmul fee (bank_capital_return_share (get_phase_config ?ph))) = Inr cap"
    and rec: "rec_fee rec = fee" "rec_bpi_fee_share_usd rec = share" "rec_net_fee_to_entities rec = dsub fee share"
      "rec_bank_capital_return_usd rec = cap"
      "rec_bank_distribution_premium_usd rec = dsub (dsub fee share) cap"
    unfolding repayment_record_def Let_def compute_platform_royalty_def
    by (auto simp: res_bind_Inr_iff)
  define k where "k = round_half_up (raw_loan_fee ?p (of_int (fee_bps loan)) ?d * 100)"
  have days: "1 \<le> days_funded loan now" by (simp add: days_funded_def)
  have f: "fee = of_int k / 100" unfolding k_def by (rule loan_fee_cents [OF fee])
  have "0 \<le> fee" by (rule compute_loan_fee_nonneg [OF fee]) (use assms days in auto)
  then have k0: "0 \<le> k" using f by (simp add: zero_le_divide_iff)
  have "of_int k < (10 ^ 24 :: rat)" using assms(5) f rec(1) by simp
  then have k1: "k < 10 ^ 24" by (metis of_int_less_iff of_int_numeral of_int_power)
  let ?b = "share_cents (bpi_pct ?ph) k" and ?c = "share_cents (capital_pct ?ph) k"
  have pct: "0 \<le> bpi_pct ?ph" "bpi_pct ?ph \<le> 100" "0 \<le> capital_pct ?ph" "capital_pct ?ph \<le> 100"
    by (cases ?ph; simp)+
  note fit = shares_fit(1-4) [OF k0, of ?ph]
  have s: "share = of_int ?b / 100" "cap = of_int ?c / 100"
    using share cap quantize_share [OF k0 k1 pct(1,2)] quantize_share [OF k0 k1 pct(3,4)]
    unfolding f config_pct by simp_all
  have net: "dsub fee share = of_int (k - ?b) / 100"
    unfolding f s by (rule dsub_cents) (use fit k1 in auto)
  have prem: "dsub (of_int (k - ?b) / 100) cap = of_int (k - ?b - ?c) / 100"
    unfolding s by (rule dsub_cents) (use fit k1 in auto)
  have sums: "x / 100 + (y - x) / 100 = y / 100" for x y :: rat by (simp add: diff_divide_distrib)
  show ?thesis
    unfolding rec net prem unfolding s
    using fee days fit sums [of "of_int ?b" "of_int k"] sums [of "of_int ?c" "of_int (k - ?b)"]
    by (simp add: f)
qed

lemma sample_fee: "compute_loan_fee 1000000 300 73 = Inr 6000"
proof -
  have r: "ctx (300 / 10000) = 3 / 100" "ctx (73 / 365) = 2 / 10"
    using ctx_cents [of 3] ctx_cents [of 20] by simp_all
  have m: "ctx (1000000 * (3 / 100)) = 30000" "ctx (30000 * (2 / 10)) = 6000"
    using ctx_of_int [of 30000] ctx_of_int [of 6000] by simp_all
  have raw: "raw_loan_fee 1000000 300 73 = 6000"
    unfolding raw_loan_fee_def BPS_DIVISOR_def DAYS_IN_YEAR_def dmul_def r m ..
  have "round_half_up (6000 * 10 ^ 2) = 600000"
    using round_half_up_int [of 600000] by simp
  then show ?thesis unfolding compute_loan_fee_def raw by (simp add: quantize_def quant_def)
qed

lemma sample_record:
  "\<exists>rec. repayment_record (Some REQUIRE_FULL) 6307200 (sample_loan\<lparr>fee_bps := 300\<rparr>) SETTLEMENT_CONFIRMED
     1000000 0 0 = Inr rec \<and> rec_fee rec = 6000 \<and> rec_bpi_fee_share_usd rec = 3300"
proof -
  let ?l = "sample_loan\<lparr>fee_bps := 300\<rparr>"
  have d: "days_funded ?l 6307200 = 73"
    by (simp add: days_funded_def sample_loan_def floor_quotient_numeral)
  have ph: "loan_phase ?l = HYBRID" by (simp add: loan_phase_def sample_loan_def)
  have cfg: "bpi_fee_share (get_phase_config HYBRID) = of_int 55 / 100"
    "bank_capital_return_share (get_phase_config HYBRID) = of_int 30 / 100"
    using config_pct(1,3) [of HYBRID] by simp_all
  have q: "quantize 2 (dmul 6000 (of_int 55 / 100)) = Inr 3300"
    "quantize 2 (dmul 6000 (of_int 30 / 100)) = Inr 1800"
    using quantize_share [of 600000 55] quantize_share [of 600000 30] by (simp_all add: share_cents_def)
  have p: "principal ?l = 1000000" "fee_bps ?l = 300" by (simp_all add: sample_loan_def)
  show ?thesis
    unfolding repayment_record_def Let_def p d ph compute_platform_royalty_def cfg
    using sample_fee by (simp add: q [simplified])
qed

lemma repayment_record_conserves_fee_witness:
  "\<exists>rec :: RepaymentRecord. rec_fee rec = 6000 \<and> rec_bpi_fee_share_usd rec = 3300 \<and> rec_net_fee_to_entities rec = 2700
    \<and> rec_bank_capital_return_usd rec + rec_bank_distribution_premium_usd rec = rec_net_fee_to_entities rec"
proof -
  obtain rec where rec: "repayment_record (Some REQUIRE_FULL) 6307200 (sample_loan\<lparr>fee_bps := 300\<rparr>)
      SETTLEMENT_CONFIRMED 1000000 0 0 = Inr rec" "rec_fee rec = 6000" "rec_bpi_fee_share_usd rec = 3300"
    using sample_record by blast
  have "rec_net_fee_to_entities rec = 2700
    \<and> rec_bank_capital_return_usd rec + rec_bank_distribution_premium_usd rec = rec_net_fee_to_entities rec"
    using repayment_record_conserves_fee [OF rec(1)] rec(2,3) by (auto simp: sample_loan_def)
  with rec(2,3) show ?thesis by blast
qed

section \<open>Partial settlements\<close>

definition never_partial :: "'r RepaymentLoop \<Rightarrow> bool" where
  "never_partial s \<longleftrightarrow> lp_policy s = Some REQUIRE_FULL
     \<and> (\<forall>rec \<in> set (lp_callbacks s). rec_principal rec \<le> rec_settlement_amount rec)"

lemma trigger_never_partial:
  assumes "never_partial s"
  shows "never_partial (snd (trigger_repayment R up s now loan trigger amount))"
proof (cases "amount < principal loan")
  case True
  with assms show ?thesis by (simp add: trigger_repayment_def Let_def never_partial_def)
next
  case False
  obtain res s' where t: "trigger_repayment R up s now loan trigger amount = (res, s')"
    by (cases "trigger_repayment R up s now loan trigger amount")
  then have "never_partial s'"
  proof (cases rule: trigger_cases)
    case (repaid rec s1 sf pct)
    then have "rec_principal rec \<le> rec_settlement_amount rec"
      using False by (auto simp: repayment_record_def Let_def res_bind_Inr_iff)
    then show ?thesis using repaid claim_frame [OF repaid(2) [unfolded loan_claim_def]] assms
      by (auto simp: never_partial_def)
  next
    case skipped
    then show ?thesis using claim_frame [of R up s] assms by (simp add: loan_claim_def never_partial_def)
  next
    case failed
    then show ?thesis using claim_frame [of R up s] assms by (simp add: loan_claim_def never_partial_def)
  qed (use assms in simp)
  with t show ?thesis by simp
qed

lemma check_loans_never_partial:
  "never_partial s \<Longrightarrow> never_partial (snd (check_loans R up s now loans done))"
proof (induction loans arbitrary: s "done")
  case (Cons loan loans)
  obtain res s' where t: "trigger_repayment R (up (loan_id loan)) s now loan MATURITY_REACHED (principal loan) = (res, s')"
    by (cases "trigger_repayment R (up (loan_id loan)) s now loan MATURITY_REACHED (principal loan)")
  then have "never_partial s'" using trigger_never_partial [OF Cons.prems] by (metis snd_conv)
  with Cons t show ?case by (auto split: sum.splits repayment_result.splits)
qed simp

lemma loop_step_never_partial: "never_partial s \<Longrightarrow> never_partial (loop_step R up now opn s)"
  by (cases opn)
    (simp_all add: trigger_never_partial check_maturities_def check_loans_never_partial,
      simp add: never_partial_def register_loan_def)

text \<open>
  C24: \<open>REQUIRE_FULL\<close> means it.  A settlement below the principal changes nothing, neither the loan
  registries nor the idempotency claim (in memory or in Redis), and reports the shortfall; and over
  every history of operations, with or without Redis and however its commands fail, every repayment
  that is made settles at least the principal.
\<close>

theorem require_full_never_partial:
  assumes "lp_policy s = Some REQUIRE_FULL" "lp_callbacks s = []"
  shows "(amount < principal loan \<longrightarrow>
       (\<exists>pp. trigger_repayment R up s now loan trigger amount = (Inr (PartialPendingResult pp), s)
          \<and> pp_shortfall_amount pp = dsub (principal loan) amount))
    \<and> (\<forall>rec \<in> set (lp_callbacks (fold (\<lambda>(up, now, opn). loop_step R up now opn) ops s)).
         rec_principal rec \<le> rec_settlement_amount rec)"
proof -
  have "never_partial (fold (\<lambda>(up, now, opn). loop_step R up now opn) ops s)" if "never_partial s" for s
    using that by (induction ops arbitrary: s) (auto simp: loop_step_never_partial)
  moreover have "never_partial s" using assms by (simp add: never_partial_def)
  ultimately show ?thesis
    using assms(1) by (auto simp: trigger_repayment_def Let_def never_partial_def)
qed

lemma require_full_never_partial_witness:
  "\<exists>pp. trigger_repayment map_redis True sample_loop 864000 sample_loan SETTLEMENT_CONFIRMED 999999
     = (Inr (PartialPendingResult pp), sample_loop) \<and> pp_shortfall_amount pp = dsub 1000000 999999"
  using require_full_never_partial [of sample_loop 999999 sample_loan map_redis True 864000
      SETTLEMENT_CONFIRMED "[]"]
  by (simp add: sample_loop_def loop_init_def sample_loan_def)

section \<open>The two registries\<close>

text \<open>
  The loop's registry by loan id and the monitor's by UETR agree, as long as the registered loans can be
  told apart by both.
\<close>

definition registries_agree :: "ActiveLoan set \<Rightarrow> 'r RepaymentLoop \<Rightarrow> bool" where
  "registries_agree loans s \<longleftrightarrow>
     dict_ok (lp_active s) \<and> dict_ok (mon_active (lp_monitor s)) \<and>
     (\<forall>i l. dget (lp_active s) i = Some l \<longrightarrow>
        l \<in> loans \<and> loan_id l = i \<and> dget (mon_active (lp_monitor s)) (loan_uetr l) = Some l) \<and>
     (\<forall>u l. dget (mon_active (lp_monitor s)) u = Some l \<longrightarrow>
        l \<in> loans \<and> loan_uetr l = u \<and> dget (lp_active s) (loan_id l) = Some l)"

lemma agree_register:
  assumes "registries_agree loans s" "inj_on loan_id loans" "inj_on loan_uetr loans" "loan \<in> loans"
  shows "registries_agree loans (register_loan s loan)"
proof -
  have same: "l = loan" if "l \<in> loans" "loan_id l = loan_id loan \<or> loan_uetr l = loan_uetr loan" for l
    using assms(2-4) that by (auto dest: inj_onD)
  show ?thesis
    using assms(1,4)
    by (auto simp: registries_agree_def register_loan_def monitor_register_loan_def dict_simps)
      (metis same)+
qed

lemma agree_deregister:
  assumes "registries_agree loans s" "inj_on loan_id loans" "inj_on loan_uetr loans"
  shows "registries_agree loans (snd (deregister_loan s i))"
proof (cases "dget (lp_active s) i")
  case None
  have "(dget (lp_active s))(i := None) = dget (lp_active s)" using None by auto
  with None assms(1) show ?thesis
    by (simp add: deregister_loan_def Let_def registries_agree_def dict_simps)
next
  case (Some loan)
  with assms(1) have l: "loan \<in> loans" "loan_id loan = i" by (auto simp: registries_agree_def)
  have same: "l = loan" if "l \<in> loans" "loan_id l = i \<or> loan_uetr l = loan_uetr loan" for l
    using assms(2,3) l that by (auto dest: inj_onD)
  show ?thesis
    using assms(1) l Some
    by (auto simp: deregister_loan_def monitor_deregister_loan_def Let_def registries_agree_def dict_simps)
      (metis same)+
qed

lemma agree_same_registries:
  "lp_active s' = lp_active s \<Longrightarrow> lp_monitor s' = lp_monitor s \<Longrightarrow>
   registries_agree loans s' \<longleftrightarrow> registries_agree loans s"
  by (simp add: registries_agree_def)

lemma agree_trigger:
  assumes "registries_agree loans s" "inj_on loan_id loans" "inj_on loan_uetr loans"
  shows "registries_agree loans (snd (trigger_repayment R up s now loan trigger amount))"
proof -
  obtain res s' where t: "trigger_repayment R up s now loan trigger amount = (res, s')"
    by (cases "trigger_repayment R up s now loan trigger amount")
  have claimed: "registries_agree loans s1" if "loan_claim R up s now loan = (ok, s1)" for ok s1
    using claim_frame [OF that [unfolded loan_claim_def]] assms(1) by (simp add: agree_same_registries [of s1 s])
  from t have "registries_agree loans s'"
  proof (cases rule: trigger_cases)
    case (repaid rec s1 sf pct)
    have "registries_agree loans (s1\<lparr>lp_callbacks := lp_callbacks s1 @ [rec]\<rparr>)"
      using claimed [OF repaid(2)] by (subst agree_same_registries [of _ s1]) simp_all
    then show ?thesis using repaid(4) agree_deregister [OF _ assms(2,3)] by simp
  next
    case pending
    with assms show ?thesis by simp
  next
    case skipped
    from claimed [OF skipped(2)] show ?thesis .
  next
    case failed
    from claimed [OF failed(2)] show ?thesis .
  qed
  with t show ?thesis by simp
qed

lemma agree_check_loans:
  "registries_agree loans s \<Longrightarrow> inj_on loan_id loans \<Longrightarrow> inj_on loan_uetr loans \<Longrightarrow>
   registries_agree loans (snd (check_loans R up s now ls done))"
proof (induction ls arbitrary: s "done")
  case (Cons loan ls)
  obtain res s' where t: "trigger_repayment R (up (loan_id loan)) s now loan MATURITY_REACHED (principal loan) = (res, s')"
    by (cases "trigger_repayment R (up (loan_id loan)) s now loan MATURITY_REACHED (principal loan)")
  then have "registries_agree loans s'" using agree_trigger [OF Cons.prems] by (metis snd_conv)
  with Cons t show ?case by (auto split: sum.splits repayment_result.splits)
qed simp

lemma agree_step:
  assumes "registries_agree loans s" "inj_on loan_id loans" "inj_on loan_uetr loans"
    and "\<And>loan. opn = OpRegister loan \<Longrightarrow> loan \<in> loans"
  shows "registries_agree loans (loop_step R up now opn s)"
  using assms
  by (cases opn) (simp_all add: agree_register agree_trigger check_maturities_def agree_check_loans)

lemma agree_history:
  assumes "inj_on loan_id loans" "inj_on loan_uetr loans" "registries_agree loans s"
    and "\<forall>(up, now, opn) \<in> set ops. \<forall>loan. opn = OpRegister loan \<longrightarrow> loan \<in> loans"
  shows "registries_agree loans (fold (\<lambda>(up, now, opn). loop_step R up now opn) ops s)"
  using assms(3,4) by (induction ops arbitrary: s) (auto intro!: agree_step [OF _ assms(1,2)])

text \<open>
  The repayment loop's registry (by loan id) and the settlement monitor's (by UETR) never drift
  apart.  When the registered loans have distinct ids and distinct UETRs, then after every history of
  registrations, triggers and maturity checks a loan is active in one exactly when it is in the other;
  and a trigger that then repays one of these loans leaves it in neither.
\<close>

lemma registries_in_lockstep:
  fixes R :: "'r redis_api" and redis :: "'r option"
  assumes "inj_on loan_id loans" "inj_on loan_uetr loans"
    and "\<forall>(up, now, opn) \<in> set ops. \<forall>loan. opn = OpRegister loan \<longrightarrow> loan \<in> loans"
    and "s = fold (\<lambda>(up, now, opn). loop_step R up now opn) ops
               (loop_init (monitor_init reg table) redis policy)"
  shows "set (get_active_loans s) = set (monitor_get_active_loans (lp_monitor s))
    \<and> (loan \<in> loans \<longrightarrow> trigger_repayment R up s now loan trigger amount = (Inr (RepaidResult rec), s') \<longrightarrow>
         loan \<notin> set (get_active_loans s') \<and> loan \<notin> set (monitor_get_active_loans (lp_monitor s')))"
proof -
  have "registries_agree loans (loop_init (monitor_init reg table) redis policy)"
    by (simp add: registries_agree_def loop_init_def monitor_init_def)
  then have agree: "registries_agree loans s"
    unfolding assms(4) using assms(3) by (intro agree_history [OF assms(1,2)])
  have same: "set (get_active_loans x) = set (monitor_get_active_loans (lp_monitor x))"
    if "registries_agree loans x" for x :: "'r RepaymentLoop"
    using that
    by (auto simp: get_active_loans_def monitor_get_active_loans_def set_dvalues registries_agree_def)
      blast+
  have gone: "loan \<notin> set (get_active_loans s')" and agree': "registries_agree loans s'"
    if l: "loan \<in> loans"
      and t: "trigger_repayment R up s now loan trigger amount = (Inr (RepaidResult rec), s')"
  proof -
    show agree': "registries_agree loans s'"
      using agree_trigger [OF agree assms(1,2), of R up now loan trigger amount] t by simp
    have "dget (lp_active s') (loan_id loan) = None"
      using t by (cases rule: trigger_cases)
        (auto simp: deregister_loan_def Let_def dict_simps split: option.splits)
    then show "loan \<notin> set (get_active_loans s')"
      using agree' by (auto simp: get_active_loans_def set_dvalues registries_agree_def)
  qed
  show ?thesis using same [OF agree] gone agree' same by blast
qed

lemma registries_in_lockstep_witness:
  "let s = fold (\<lambda>(up, now, opn). loop_step map_redis up now opn)
             [(\<lambda>_. True, 10, OpRegister sample_loan), (\<lambda>_. True, 20, OpCheckMaturities)]
             (loop_init (monitor_init create_default (map_init None)) None (Some REQUIRE_FULL))
   in set (get_active_loans s) = set (monitor_get_active_loans (lp_monitor s))"
  unfolding Let_def
  using registries_in_lockstep [of "{sample_loan}"
      "[(\<lambda>_. True, 10, OpRegister sample_loan), (\<lambda>_. True, 20, OpCheckMaturities)]" _ map_redis] by simp

section \<open>The fallback does not know the claims won in Redis\<close>

lemma trigger_full:
  assumes "principal loan \<le> amount" "loan_claim R up s now loan = (True, s1)"
    and "repayment_record (lp_policy s) now loan trigger amount 0 0 = Inr rec"
  shows "trigger_repayment R up s now loan trigger amount =
    (Inr (RepaidResult rec), snd (deregister_loan (s1\<lparr>lp_callbacks := lp_callbacks s1 @ [rec]\<rparr>) (loan_id loan)))"
proof -
  have "lp_policy s1 = lp_policy s" using claim_frame [OF assms(2) [unfolded loan_claim_def]] by simp
  with assms show ?thesis
    by (simp add: trigger_repayment_def Let_def loan_claim_def [symmetric])
qed

text \<open>
  The in-memory fallback forgets what was claimed in Redis.  A UETR whose repayment was claimed
  through Redis is not in the in-memory set; when a later signal for the same loan (a settlement after
  a maturity repayment, say) finds Redis failing, the fallback grants the claim and the loan is repaid
  a second time, although the first claim's 45 days have not passed.
\<close>

lemma redis_outage_repays_twice:
  assumes "lp_redis s = Some r" "loan_uetr loan \<notin> lp_repaid_uetrs s"
    and "trigger_repayment R True s now loan trigger amount = (Inr (RepaidResult rec), s')"
    and "principal loan \<le> amount'" "repayment_record (lp_policy s) now' loan trigger' amount' 0 0 = Inr rec'"
  shows "fst (trigger_repayment R False s' now' loan trigger' amount') = Inr (RepaidResult rec')"
proof -
  from assms(3) have s': "lp_policy s' = lp_policy s \<and> loan_uetr loan \<notin> lp_repaid_uetrs s'"
  proof (cases rule: trigger_cases)
    case (repaid rec s1 sf pct)
    obtain r' where "s1 = s\<lparr>lp_redis := Some r'\<rparr>"
      using repaid(2) loan_claim_redis [OF assms(1), of R now loan] by (auto split: prod.splits)
    then have "lp_policy s1 = lp_policy s" "lp_repaid_uetrs s1 = lp_repaid_uetrs s" by simp_all
    then show ?thesis using repaid(4) assms(2) by simp
  qed simp_all
  have "loan_claim R False s' now' loan
      = (True, s'\<lparr>lp_repaid_uetrs := insert (loan_uetr loan) (lp_repaid_uetrs s')\<rparr>)"
    using s' by (cases "lp_redis s'") (simp_all add: loan_claim_def claim_repayment_def Let_def)
  from trigger_full [OF assms(4) this] assms(5) s' show ?thesis by simp
qed

lemma redis_outage_repays_twice_witness:
  "let l = sample_loan\<lparr>fee_bps := 300\<rparr>; s = sample_loop\<lparr>lp_redis := Some Map.empty\<rparr>;
       s' = snd (trigger_repayment map_redis True s 6307200 l MATURITY_REACHED 1000000)
   in \<exists>rec. fst (trigger_repayment map_redis False s' 6307200 l SETTLEMENT_CONFIRMED 1000000)
        = Inr (RepaidResult rec)"
proof -
  let ?l = "sample_loan\<lparr>fee_bps := 300\<rparr>" and ?s = "sample_loop\<lparr>lp_redis := Some Map.empty\<rparr>"
  obtain rec where rec: "repayment_record (Some REQUIRE_FULL) 6307200 ?l SETTLEMENT_CONFIRMED 1000000 0 0 = Inr rec"
    using sample_record by blast
  then obtain rec1 where rec1: "repayment_record (Some REQUIRE_FULL) 6307200 ?l MATURITY_REACHED 1000000 0 0 = Inr rec1"
    by (auto simp: repayment_record_def Let_def res_bind_Inr_iff)
  have p: "lp_policy ?s = Some REQUIRE_FULL" "loan_uetr ?l \<notin> lp_repaid_uetrs ?s" "lp_redis ?s = Some Map.empty"
    "principal ?l \<le> 1000000"
    by (simp_all add: sample_loop_def loop_init_def sample_loan_def)
  have "fst (loan_claim map_redis True ?s 6307200 ?l)"
    unfolding loan_claim_redis [OF p(3)] redis_claim_of.simps redis_claim_def
    by (simp add: map_redis_def map_redis_get_def)
  then obtain s1 where c: "loan_claim map_redis True ?s 6307200 ?l = (True, s1)"
    by (cases "loan_claim map_redis True ?s 6307200 ?l") simp
  obtain s' where s': "trigger_repayment map_redis True ?s 6307200 ?l MATURITY_REACHED 1000000 = (Inr (RepaidResult rec1), s')"
    using trigger_full [OF p(4) c, of MATURITY_REACHED rec1] rec1 p(1) by simp
  show ?thesis
    using redis_outage_repays_twice [OF p(3,2) s' p(4), of 6307200 SETTLEMENT_CONFIRMED rec] rec p(1) s'
    by (auto simp: Let_def)
qed

section \<open>Settlement matching\<close>

text \<open>
  An RTP settlement that carries only its EndToEndId is never matched through the UETR mapping
  table.  The RTP handler already falls back to the EndToEndId when the message has no UETR, so the
  signal's UETR is the EndToEndId and the lookup that \<open>process_signal\<close> reserves for signals without one
  does not run: for every content of the mapping table (on any back end) and every loan registry in
  which no loan has that EndToEndId as its UETR, the signal is dropped and the state unchanged.
\<close>

lemma rtp_mapping_never_consulted:
  assumes "mon_registry m = create_default"
    and "extract_end_to_end_id raw = Inr (PStr e2e)" "e2e \<noteq> []"
    and "pget raw ''uetr'' PNone = Inr PNone" "pget raw ''UETR'' PNone = Inr PNone"
    and "dget (mon_active m) e2e = None"
  shows "process_signal R sha fromiso (m\<lparr>mon_mapping := table\<rparr>) now ''RTP'' raw
    = (Inr None, m\<lparr>mon_mapping := table\<rparr>)"
proof -
  have rail: "settlement_rail ''RTP'' = Some RTP"
    by (simp add: settlement_rail_def py_upper_def upper_char_def)
  show ?thesis
  proof (cases "dispatch create_default fromiso now RTP raw")
    case (Inl e)
    then show ?thesis using assms(1) by (simp add: process_signal_def rail)
  next
    case (Inr sig)
    then have "sig_uetr sig = PStr e2e"
      using assms(2-5) by (auto simp: dispatch_default rtp_handle_def res_bind_Inr_iff)
    then show ?thesis
      using assms(1,3,6) Inr by (simp add: process_signal_def rail resolve_uetr_def)
  qed
qed

text \<open>Witness: the mapping is stored, the loan is registered, the settlement is not recognised.\<close>

lemma rtp_mapping_never_consulted_witness:
  "let m = monitor_register_loan (monitor_init create_default (map_init None)) sample_loan;
       table = mapping_store map_redis (\<lambda>x. x) (map_init None) 0 ''E1'' ''U1'' 7;
       m' = m\<lparr>mon_mapping := table\<rparr>
   in fst (mapping_lookup map_redis (\<lambda>x. x) table 100 ''E1'') = Some ''U1''
    \<and> dget (mon_active m') ''U1'' = Some sample_loan
    \<and> process_signal map_redis (\<lambda>x. x) (\<lambda>v. Inr 0) m' 100 ''RTP''
        (PDict [(''TxInf'', PDict [(''PmtId'', PDict [(''EndToEndId'', PStr ''E1'')]),
           (''IntrBkSttlmAmt'', PDict [(''#text'', PStr ''1000000'')])])]) = (Inr None, m')"
  unfolding Let_def
proof (intro conjI rtp_mapping_never_consulted [where e2e = "''E1''"])
  show "fst (mapping_lookup map_redis (\<lambda>x. x) (mapping_store map_redis (\<lambda>x. x) (map_init None) 0 ''E1'' ''U1'' 7)
      100 ''E1'') = Some ''U1''"
    by (simp add: mapping_lookup_def mapping_store_def map_init_def make_key_def map_put_memory_def
        map_maybe_evict_def map_lookup_memory_def get_ttl_seconds_def DEFAULT_TTL_DAYS_def
        MAP_CLEANUP_INTERVAL_def Let_def)
qed (simp_all add: monitor_register_loan_def monitor_init_def sample_loan_def extract_end_to_end_id_def
      path_simps)

end
