(* ===== verification/Halt_Flag.thy ===== *)
theory Halt_Flag
  imports Py_Base
begin

text \<open>
  The contract of a halt flag: some events set it, some clear it, the others leave it alone, and a query
  at a later time sees exactly that.  The kill switch has two providers, the fields of one process and
  the Redis key all processes share; the degraded mode a third.  Shown: over every history the flag is
  what the last setting or clearing event made it.
\<close>

fun flag_after :: "('e \<Rightarrow> bool option) \<Rightarrow> bool \<Rightarrow> 'e list \<Rightarrow> bool" where
  "flag_after effect b [] = b"
| "flag_after effect b (e # es) =
     flag_after effect (case effect e of None \<Rightarrow> b | Some b' \<Rightarrow> b') es"

text \<open>The events carry their times, and the clock is monotone up to the time of the query.\<close>

fun clocked :: "('e \<Rightarrow> time) \<Rightarrow> 'e list \<Rightarrow> time \<Rightarrow> bool" where
  "clocked when [] t \<longleftrightarrow> True"
| "clocked when (e # es) t \<longleftrightarrow>
     when e \<le> t \<and> (\<forall>e' \<in> set es. when e \<le> when e') \<and> clocked when es t"

lemma flag_after_append:
  "flag_after effect b (es @ [e]) = (case effect e of None \<Rightarrow> flag_after effect b es | Some b' \<Rightarrow> b')"
  by (cases "effect e"; induction es arbitrary: b) simp_all

locale halt_flag =
  fixes step :: "'e \<Rightarrow> 's \<Rightarrow> 's"
    and halted :: "'s \<Rightarrow> time \<Rightarrow> bool"
    and effect :: "'e \<Rightarrow> bool option"
    and "when" :: "'e \<Rightarrow> time"
    and inv :: "'s \<Rightarrow> bool"
  assumes step_inv: "inv s \<Longrightarrow> inv (step e s)"
    and step_halted: "inv s \<Longrightarrow> when e \<le> t \<Longrightarrow>
      halted (step e s) t = (case effect e of None \<Rightarrow> halted s t | Some b \<Rightarrow> b)"
begin

theorem halted_history:
  assumes "inv s" "clocked when es t"
  shows "halted (fold step es s) t = flag_after effect (halted s t) es"
  using assms
proof (induction es arbitrary: s)
  case (Cons e es)
  then have e: "when e \<le> t" "clocked when es t" by simp_all
  show ?case
    using Cons.IH [OF step_inv [OF Cons.prems(1)] e(2)] step_halted [OF Cons.prems(1) e(1)]
    by simp
qed simp

lemma last_effect_wins:
  assumes "inv s" "clocked when (es @ [e]) t" "effect e = Some b"
  shows "halted (fold step (es @ [e]) s) t = b"
  using halted_history [OF assms(1,2)] assms(3) by (simp add: flag_after_append)

end

end
