(* ===== verification/Kill_Switch.thy ===== *)
theory Kill_Switch
  imports Redis_Api Halt_Flag
begin

text \<open>
  \<open>lip/c7_execution_agent/kill_switch.py\<close>: the kill switch and the availability of the key management
  service (KMS).  The record holds the fields of \<open>KillSwitch\<close>; \<open>ks_redis\<close> is the Redis server when a
  client was given, \<open>ks_kms_client\<close> whether a KMS client was.  Redis calls are not guarded in the
  source: with the server unreachable (\<open>up = False\<close>) they raise, after the in-memory fields were
  written.  The outcome of \<open>kms_client.ping()\<close> is the argument \<open>ping_ok\<close> of \<open>check_kms\<close>.

  Shown: processes that share a Redis server agree, over every interleaving of their operations, on
  whether the switch is engaged, and it is what the last successful command made it; a single process
  without Redis likewise; the KMS state follows the last probe and the outage is dated from the first
  failed probe of the current streak.  The monitor thread, which calls \<open>check_kms\<close> on a timer, is left
  out.
\<close>

datatype KillSwitchState = SwitchActive | SwitchInactive
datatype KMSState = KMSAvailable | KMSUnavailable

record KillSwitchStatus =
  st_kill_switch_state :: KillSwitchState
  st_kms_state :: KMSState
  st_activated_at :: "time option"
  st_kms_unavailable_since :: "time option"
  st_reason :: "string option"

record 'r KillSwitch =
  ks_redis :: "'r option"
  ks_kms_client :: bool
  ks_state :: KillSwitchState
  ks_kms_state :: KMSState
  ks_activated_at :: "time option"
  ks_kms_unavailable_since :: "time option"
  ks_reason :: "string option"

definition kill_switch_init :: "'r option \<Rightarrow> bool \<Rightarrow> 'r KillSwitch" where
  "kill_switch_init redis kms_client =
     \<lparr> ks_redis = redis, ks_kms_client = kms_client, ks_state = SwitchInactive,
       ks_kms_state = KMSAvailable, ks_activated_at = None, ks_kms_unavailable_since = None,
       ks_reason = None \<rparr>"

definition KILL_SWITCH_KEY :: string where "KILL_SWITCH_KEY = ''lip:kill_switch''"

definition activate :: "'r redis_api \<Rightarrow> bool \<Rightarrow> 'r KillSwitch \<Rightarrow> time \<Rightarrow> string \<Rightarrow> (py_exc + unit) \<times> 'r KillSwitch" where
  "activate R up s now reason =
     (let s = s\<lparr>ks_state := SwitchActive, ks_activated_at := Some now, ks_reason := Some reason\<rparr>
      in case ks_redis s of
           None \<Rightarrow> (Inr (), s)
         | Some r \<Rightarrow>
             if up then (Inr (), s\<lparr>ks_redis := Some (redis_set R r now KILL_SWITCH_KEY ''ACTIVE'')\<rparr>)
             else (Inl OtherException, s))"

definition deactivate :: "'r redis_api \<Rightarrow> bool \<Rightarrow> 'r KillSwitch \<Rightarrow> time \<Rightarrow> (py_exc + unit) \<times> 'r KillSwitch" where
  "deactivate R up s now =
     (let s = s\<lparr>ks_state := SwitchInactive, ks_activated_at := None, ks_reason := None\<rparr>
      in case ks_redis s of
           None \<Rightarrow> (Inr (), s)
         | Some r \<Rightarrow>
             if up then (Inr (), s\<lparr>ks_redis := Some (snd (redis_delete R r now KILL_SWITCH_KEY))\<rparr>)
             else (Inl OtherException, s))"

definition is_active :: "'r redis_api \<Rightarrow> bool \<Rightarrow> 'r KillSwitch \<Rightarrow> time \<Rightarrow> py_exc + bool" where
  "is_active R up s now =
     (case ks_redis s of
        None \<Rightarrow> Inr (ks_state s = SwitchActive)
      | Some r \<Rightarrow>
          if up then Inr (redis_get R r now KILL_SWITCH_KEY = Some ''ACTIVE'')
          else Inl OtherException)"

definition check_kms :: "'r KillSwitch \<Rightarrow> time \<Rightarrow> bool \<Rightarrow> KMSState \<times> 'r KillSwitch" where
  "check_kms s now ping_ok =
     (if \<not> ks_kms_client s then (KMSAvailable, s)
      else if ping_ok then
        let s = (if ks_kms_state s = KMSUnavailable
                 then s\<lparr>ks_kms_state := KMSAvailable, ks_kms_unavailable_since := None\<rparr> else s)
        in (ks_kms_state s, s)
      else
        let s = (if ks_kms_state s = KMSAvailable
                 then s\<lparr>ks_kms_unavailable_since := Some now\<rparr> else s);
            s = s\<lparr>ks_kms_state := KMSUnavailable\<rparr>
        in (ks_kms_state s, s))"

definition kill_switch_status :: "'r redis_api \<Rightarrow> bool \<Rightarrow> 'r KillSwitch \<Rightarrow> time \<Rightarrow> py_exc + KillSwitchStatus" where
  "kill_switch_status R up s now =
     res_bind (is_active R up s now) (\<lambda>active.
       Inr \<lparr> st_kill_switch_state = (if active then SwitchActive else SwitchInactive),
             st_kms_state = ks_kms_state s, st_activated_at = ks_activated_at s,
             st_kms_unavailable_since = ks_kms_unavailable_since s, st_reason = ks_reason s \<rparr>)"

definition should_halt_new_offers :: "'r redis_api \<Rightarrow> bool \<Rightarrow> 'r KillSwitch \<Rightarrow> time \<Rightarrow> py_exc + bool" where
  "should_halt_new_offers R up s now =
     res_bind (is_active R up s now) (\<lambda>active. Inr (active \<or> ks_kms_state s = KMSUnavailable))"

definition kms_unavailable_gap_seconds :: "'r KillSwitch \<Rightarrow> time \<Rightarrow> pyfloat option" where
  "kms_unavailable_gap_seconds s now =
     (case ks_kms_unavailable_since s of None \<Rightarrow> None | Some since \<Rightarrow> Some (now - since))"

section \<open>The switch\<close>

datatype switch_op = OpActivate string | OpDeactivate | OpCheckKms bool

definition switch_step :: "'r redis_api \<Rightarrow> bool \<Rightarrow> time \<Rightarrow> switch_op \<Rightarrow> 'r KillSwitch \<Rightarrow> 'r KillSwitch" where
  "switch_step R up now opn s =
     (case opn of
        OpActivate reason \<Rightarrow> snd (activate R up s now reason)
      | OpDeactivate \<Rightarrow> snd (deactivate R up s now)
      | OpCheckKms ok \<Rightarrow> snd (check_kms s now ok))"

definition command_effect :: "switch_op \<Rightarrow> bool option" where
  "command_effect opn =
     (case opn of OpActivate reason \<Rightarrow> Some True | OpDeactivate \<Rightarrow> Some False | OpCheckKms ok \<Rightarrow> None)"


lemma check_kms_redis [simp]:
  "ks_redis (snd (check_kms s now ok)) = ks_redis s"
  "ks_state (snd (check_kms s now ok)) = ks_state s"
  by (simp_all add: check_kms_def Let_def)

text \<open>One process without Redis: the events carry their time.\<close>

interpretation memory_switch: halt_flag
  "\<lambda>(now, opn) s. switch_step R up now opn s" "\<lambda>s t. is_active R up s t = Inr True"
  "\<lambda>(now, opn). command_effect opn" fst "\<lambda>s. ks_redis s = None" for R up
proof unfold_locales
  fix s :: "'a KillSwitch" and e :: "time \<times> switch_op" and t :: time
  assume s: "ks_redis s = None"
  obtain now opn where e: "e = (now, opn)" by (cases e)
  show "ks_redis ((case e of (now, opn) \<Rightarrow> switch_step R up now opn) s) = None"
    using s e by (cases opn) (simp_all add: switch_step_def activate_def deactivate_def)
  show "(is_active R up ((case e of (now, opn) \<Rightarrow> switch_step R up now opn) s) t = Inr True) =
      (case (case e of (now, opn) \<Rightarrow> command_effect opn) of
         None \<Rightarrow> is_active R up s t = Inr True | Some b \<Rightarrow> b)"
    using s e by (cases opn)
      (simp_all add: switch_step_def activate_def deactivate_def command_effect_def is_active_def)
qed

text \<open>
  Any number of processes that share a Redis server.  An event is the time, the process, whether the
  server was reachable, and the operation.
\<close>

record 'r pods =
  pods_redis :: 'r
  pods_switch :: "nat \<Rightarrow> 'r KillSwitch"

definition pod :: "'r pods \<Rightarrow> nat \<Rightarrow> 'r KillSwitch" where
  "pod c i = (pods_switch c i)\<lparr>ks_redis := Some (pods_redis c)\<rparr>"

definition pods_step :: "'r redis_api \<Rightarrow> time \<times> nat \<times> bool \<times> switch_op \<Rightarrow> 'r pods \<Rightarrow> 'r pods" where
  "pods_step R ev c =
     (case ev of (now, i, up, opn) \<Rightarrow>
        let s = switch_step R up now opn (pod c i)
        in c\<lparr>pods_redis := the (ks_redis s), pods_switch := (pods_switch c)(i := s)\<rparr>)"

definition pods_effect :: "time \<times> nat \<times> bool \<times> switch_op \<Rightarrow> bool option" where
  "pods_effect ev = (case ev of (now, i, up, opn) \<Rightarrow> if up then command_effect opn else None)"

lemma is_active_pod:
  "is_active R True (pod c i) t = Inr (redis_get R (pods_redis c) t KILL_SWITCH_KEY = Some ''ACTIVE'')"
  by (simp add: is_active_def pod_def)

lemma pods_halt_flag:
  assumes "redis_laws R"
  shows "halt_flag (pods_step R) (\<lambda>c t. is_active R True (pod c i) t = Inr True) pods_effect fst
    (\<lambda>_. True)"
proof
  fix c :: "'a pods" and e :: "time \<times> nat \<times> bool \<times> switch_op" and t :: time
  assume "fst e \<le> t"
  moreover obtain now j up opn where "e = (now, j, up, opn)" by (cases e)
  ultimately show "(is_active R True (pod (pods_step R e c) i) t = Inr True) =
      (case pods_effect e of None \<Rightarrow> is_active R True (pod c i) t = Inr True | Some b \<Rightarrow> b)"
    unfolding is_active_pod pods_step_def pods_effect_def
    by (cases opn) (simp_all add: switch_step_def activate_def deactivate_def command_effect_def
        pod_def redis_get_set [OF assms] redis_get_delete [OF assms])
qed simp

interpretation map_pods: halt_flag
  "pods_step map_redis" "\<lambda>c t. is_active map_redis True (pod c i) t = Inr True" pods_effect fst
  "\<lambda>_. True" for i
  by (rule pods_halt_flag [OF map_redis_laws])

text \<open>
  C7: the halt is cluster-wide.  Processes that share a Redis server which obeys its documented
  behaviour agree on the switch: after any interleaving of activations, deactivations and KMS probes
  of any number of processes, some of them while the server was unreachable to the caller, every
  process that reaches the server reads the switch as engaged exactly when the last command that
  reached the server was an activation, and then refuses new offers; one that does not reach it raises
  instead of answering.
\<close>

theorem kill_switch_cluster_wide:
  assumes "redis_laws R" "clocked fst evs t"
    and "redis_get R (pods_redis c) t KILL_SWITCH_KEY = None"
  shows "is_active R True (pod (fold (pods_step R) evs c) i) t = Inr (flag_after pods_effect False evs)
    \<and> (flag_after pods_effect False evs \<longrightarrow>
         should_halt_new_offers R True (pod (fold (pods_step R) evs c) i) t = Inr True)
    \<and> should_halt_new_offers R False (pod (fold (pods_step R) evs c) i) t = Inl OtherException"
proof -
  let ?c = "fold (pods_step R) evs c"
  have "is_active R True (pod ?c i) t = Inr True \<longleftrightarrow> flag_after pods_effect False evs"
    using halt_flag.halted_history [OF pods_halt_flag [OF assms(1), of i] TrueI assms(2), of c]
      assms(3) by (simp add: is_active_pod)
  then have "is_active R True (pod ?c i) t = Inr (flag_after pods_effect False evs)"
    by (simp add: is_active_pod)
  then show ?thesis
    by (simp add: should_halt_new_offers_def) (simp add: is_active_def pod_def)
qed

lemma kill_switch_cluster_wide_witness:
  "is_active map_redis True (pod (fold (pods_step map_redis)
      [(1, 0, True, OpActivate ''drift''), (2, 1, False, OpDeactivate), (3, 2, True, OpCheckKms False)]
      \<lparr> pods_redis = Map.empty, pods_switch = (\<lambda>_. kill_switch_init None True) \<rparr>) 5) 4 = Inr True"
  using kill_switch_cluster_wide [OF map_redis_laws, of
      "[(1, 0, True, OpActivate ''drift''), (2, 1, False, OpDeactivate), (3, 2, True, OpCheckKms False)]" 4
      "\<lparr> pods_redis = Map.empty, pods_switch = (\<lambda>_. kill_switch_init None True) \<rparr>" 5]
  by (simp add: pods_effect_def command_effect_def) (simp add: map_redis_def map_redis_get_def)

text \<open>
  A process without Redis.  Over any history of commands and probes the switch is engaged
  exactly when the last command was an activation, and new offers are halted exactly when it is, or
  when the KMS was last found unavailable.
\<close>

theorem kill_switch_single_process:
  assumes "clocked fst evs t"
  shows "let s = fold (\<lambda>(now, opn). switch_step R up now opn) evs (kill_switch_init None kms);
             engaged = flag_after (\<lambda>(now, opn). command_effect opn) False evs
         in is_active R up s t = Inr engaged
          \<and> should_halt_new_offers R up s t = Inr (engaged \<or> ks_kms_state s = KMSUnavailable)"
proof -
  let ?s = "fold (\<lambda>(now, opn). switch_step R up now opn) evs (kill_switch_init None kms)"
  have inv: "ks_redis (fold (\<lambda>(now, opn). switch_step R up now opn) evs s) = None"
    if "ks_redis s = None" for s :: "'a KillSwitch"
    using that
  proof (induction evs arbitrary: s)
    case (Cons ev evs)
    then show ?case
      using memory_switch.step_inv [of s R up ev] by (cases ev) simp
  qed simp
  have init: "ks_redis (kill_switch_init None kms :: 'a KillSwitch) = None"
    by (simp add: kill_switch_init_def)
  have "is_active R up ?s t = Inr True \<longleftrightarrow>
      flag_after (\<lambda>(now, opn). command_effect opn) False evs"
    using memory_switch.halted_history [OF init assms, of R up]
    by (simp add: is_active_def kill_switch_init_def split_def)
  moreover have "\<exists>b. is_active R up ?s t = Inr b"
    using inv [OF init] by (simp add: is_active_def)
  ultimately have "is_active R up ?s t = Inr (flag_after (\<lambda>(now, opn). command_effect opn) False evs)"
    by auto
  then show ?thesis by (simp add: should_halt_new_offers_def Let_def)
qed

lemma kill_switch_single_process_witness:
  "let s = fold (\<lambda>(now, opn). switch_step map_redis True now opn)
             [(1, OpActivate ''audit''), (2, OpCheckKms False), (3, OpDeactivate)] (kill_switch_init None True)
   in is_active map_redis True s 4 = Inr False \<and> should_halt_new_offers map_redis True s 4 = Inr True"
  using kill_switch_single_process [of
      "[(1, OpActivate ''audit''), (2, OpCheckKms False), (3, OpDeactivate)]" 4 map_redis True True]
  by (simp add: command_effect_def Let_def switch_step_def check_kms_def deactivate_def activate_def
      kill_switch_init_def)

section \<open>The key management service\<close>

definition probes :: "(time \<times> switch_op) list \<Rightarrow> (time \<times> bool) list" where
  "probes evs = concat (map (\<lambda>(t, opn). case opn of OpCheckKms ok \<Rightarrow> [(t, ok)] | _ \<Rightarrow> []) evs)"

text \<open>The failed probes since the last successful one, latest first.\<close>

definition failed_streak :: "(time \<times> bool) list \<Rightarrow> (time \<times> bool) list" where
  "failed_streak ps = takeWhile (\<lambda>(t, ok). \<not> ok) (rev ps)"

definition kms_tracks :: "'r KillSwitch \<Rightarrow> (time \<times> bool) list \<Rightarrow> bool" where
  "kms_tracks s ps \<longleftrightarrow> ks_kms_client s \<and>
     (if failed_streak ps = [] then ks_kms_state s = KMSAvailable \<and> ks_kms_unavailable_since s = None
      else ks_kms_state s = KMSUnavailable \<and>
           ks_kms_unavailable_since s = Some (fst (last (failed_streak ps))))"

lemma failed_streak_snoc:
  "failed_streak (ps @ [(t, ok)]) = (if ok then [] else (t, ok) # failed_streak ps)"
  by (simp add: failed_streak_def)

lemma check_kms_tracks: "kms_tracks s ps \<Longrightarrow> kms_tracks (snd (check_kms s t ok)) (ps @ [(t, ok)])"
  by (auto simp: kms_tracks_def check_kms_def failed_streak_snoc split: if_splits)

lemma switch_step_tracks:
  "kms_tracks s ps \<Longrightarrow> kms_tracks (switch_step R up t opn s) (ps @ probes [(t, opn)])"
  by (cases opn)
    (auto simp: switch_step_def probes_def check_kms_tracks,
      auto simp: kms_tracks_def activate_def deactivate_def Let_def split: option.splits)

lemma probes_Cons: "probes (ev # evs) = probes [ev] @ probes evs"
  by (simp add: probes_def)

lemma history_tracks:
  "kms_tracks s ps \<Longrightarrow>
   kms_tracks (fold (\<lambda>(t, up, opn). switch_step R up t opn) evs s)
     (ps @ probes (map (\<lambda>(t, up, opn). (t, opn)) evs))"
proof (induction evs arbitrary: s ps)
  case (Cons ev evs)
  obtain t up opn where ev: "ev = (t, up, opn)" by (cases ev)
  show ?case
    using Cons.IH [OF switch_step_tracks [OF Cons.prems, where R = R and up = up and t = t and opn = opn]]
      ev probes_Cons [of "(t, opn)" "map (\<lambda>(t, up, opn). (t, opn)) evs"] by simp
qed (simp add: probes_def)

text \<open>
  The outage report.  With a KMS client, after any history of commands and probes, with or
  without Redis, reachable or not, the KMS is reported unavailable exactly when the last probe failed;
  the outage is then dated from the first failed probe after the last successful one, its length is the
  time since, and new offers are halted or the query raises; while the last probe succeeded, or before
  the first, no outage is reported.
\<close>

lemma kms_outage_reported:
  "let s = fold (\<lambda>(t, up, opn). switch_step R up t opn) evs (kill_switch_init redis True);
       streak = failed_streak (probes (map (\<lambda>(t, up, opn). (t, opn)) evs))
   in (ks_kms_state s = KMSUnavailable \<longleftrightarrow> streak \<noteq> [])
    \<and> kms_unavailable_gap_seconds s now =
        (if streak = [] then None else Some (now - fst (last streak)))
    \<and> (streak = [] \<or> should_halt_new_offers R up s now \<noteq> Inr False)"
proof -
  have "kms_tracks (kill_switch_init redis True) []"
    by (simp add: kms_tracks_def kill_switch_init_def failed_streak_def)
  from history_tracks [OF this, of R evs] show ?thesis
    by (auto simp: kms_tracks_def kms_unavailable_gap_seconds_def should_halt_new_offers_def Let_def
        res_bind_Inr_iff split: if_splits)
qed


lemma kms_outage_reported_witness:
  "let s = fold (\<lambda>(t, up, opn). switch_step map_redis up t opn)
        [(1, True, OpCheckKms True), (2, True, OpCheckKms False), (3, False, OpActivate ''x''), (5, True, OpCheckKms False)]
        (kill_switch_init None True)
   in ks_kms_state s = KMSUnavailable \<and> kms_unavailable_gap_seconds s 9 = Some 7
    \<and> should_halt_new_offers map_redis True s 9 \<noteq> Inr False"
  using kms_outage_reported [of map_redis
      "[(1, True, OpCheckKms True), (2, True, OpCheckKms False), (3, False, OpActivate ''x''), (5, True, OpCheckKms False)]"
      None 9 True]
  by (simp add: probes_def failed_streak_def Let_def)

end
