(* ===== verification/Degraded_Mode.thy ===== *)
theory Degraded_Mode
  imports Halt_Flag
begin

text \<open>
  \<open>lip/c7_execution_agent/degraded_mode.py\<close>: the manager holds one snapshot, replaced as a whole by
  each entry and exit.  Shown: CPU fallback only ever follows a GPU failure; offers are halted exactly
  while the last event was the entry for a KMS failure, so that the entry for any other reason resumes
  them although nothing reported the KMS as recovered.
\<close>

datatype DegradedReason = GPU_FAILURE | KMS_FAILURE | MODEL_LOAD_FAILURE | NETWORK_FAILURE

record DegradedState =
  ds_is_degraded :: bool
  ds_reason :: "DegradedReason option"
  ds_degraded_since :: "time option"
  ds_gpu_fallback_to_cpu :: bool
  ds_kms_unavailable_gap_seconds :: "pyfloat option"

definition clean_state :: DegradedState where
  "clean_state =
     \<lparr> ds_is_degraded = False, ds_reason = None, ds_degraded_since = None,
       ds_gpu_fallback_to_cpu = False, ds_kms_unavailable_gap_seconds = None \<rparr>"

type_synonym DegradedModeManager = DegradedState

definition enter_degraded_mode :: "DegradedModeManager \<Rightarrow> time \<Rightarrow> DegradedReason \<Rightarrow> bool \<Rightarrow> DegradedModeManager" where
  "enter_degraded_mode m now reason gpu_fallback =
     \<lparr> ds_is_degraded = True, ds_reason = Some reason, ds_degraded_since = Some now,
       ds_gpu_fallback_to_cpu = (gpu_fallback \<and> reason = GPU_FAILURE),
       ds_kms_unavailable_gap_seconds = None \<rparr>"

definition exit_degraded_mode :: "DegradedModeManager \<Rightarrow> DegradedModeManager" where
  "exit_degraded_mode m = clean_state"

definition is_degraded :: "DegradedModeManager \<Rightarrow> bool" where
  "is_degraded m = ds_is_degraded m"

definition should_use_cpu :: "DegradedModeManager \<Rightarrow> bool" where
  "should_use_cpu m \<longleftrightarrow> ds_reason m = Some GPU_FAILURE \<and> ds_gpu_fallback_to_cpu m"

definition degraded_should_halt :: "DegradedModeManager \<Rightarrow> bool" where
  "degraded_should_halt m \<longleftrightarrow> ds_reason m = Some KMS_FAILURE"

definition get_kms_gap_seconds :: "DegradedModeManager \<Rightarrow> time \<Rightarrow> pyfloat option" where
  "get_kms_gap_seconds m now =
     (if ds_reason m \<noteq> Some KMS_FAILURE then None
      else case ds_degraded_since m of None \<Rightarrow> None | Some since \<Rightarrow> Some (now - since))"

record degraded_dict =
  dd_degraded_mode :: bool
  dd_gpu_fallback :: bool
  dd_kms_unavailable_gap :: "pyfloat option"

definition get_state_dict :: "DegradedModeManager \<Rightarrow> time \<Rightarrow> degraded_dict" where
  "get_state_dict m now =
     \<lparr> dd_degraded_mode = ds_is_degraded m, dd_gpu_fallback = ds_gpu_fallback_to_cpu m,
       dd_kms_unavailable_gap = get_kms_gap_seconds m now \<rparr>"

section \<open>Histories\<close>

datatype mode_event = Enter time DegradedReason bool | Exit time

fun mode_step :: "mode_event \<Rightarrow> DegradedModeManager \<Rightarrow> DegradedModeManager" where
  "mode_step (Enter t reason gpu) m = enter_degraded_mode m t reason gpu"
| "mode_step (Exit t) m = exit_degraded_mode m"

fun mode_time :: "mode_event \<Rightarrow> time" where
  "mode_time (Enter t reason gpu) = t"
| "mode_time (Exit t) = t"

fun mode_effect :: "mode_event \<Rightarrow> bool option" where
  "mode_effect (Enter t reason gpu) = Some (reason = KMS_FAILURE)"
| "mode_effect (Exit t) = Some False"

definition mode_inv :: "DegradedModeManager \<Rightarrow> bool" where
  "mode_inv m \<longleftrightarrow>
     (ds_is_degraded m \<longleftrightarrow> ds_reason m \<noteq> None) \<and> (ds_reason m \<noteq> None \<longleftrightarrow> ds_degraded_since m \<noteq> None) \<and>
     (ds_gpu_fallback_to_cpu m \<longrightarrow> ds_reason m = Some GPU_FAILURE)"

lemmas mode_defs = enter_degraded_mode_def exit_degraded_mode_def clean_state_def mode_inv_def
  degraded_should_halt_def

interpretation degraded: halt_flag mode_step "\<lambda>m t. degraded_should_halt m" mode_effect mode_time mode_inv
proof
  fix m e
  show "mode_inv (mode_step e m)" by (cases e) (simp_all add: mode_defs)
next
  fix m e and t :: time
  show "degraded_should_halt (mode_step e m) =
      (case mode_effect e of None \<Rightarrow> degraded_should_halt m | Some b \<Rightarrow> b)"
    by (cases e) (simp_all add: mode_defs)
qed

lemma mode_history_snoc: "fold mode_step (evs @ [e]) m = mode_step e (fold mode_step evs m)"
  by simp

text \<open>
  The degraded mode forgets.  After any history of entries and exits, offers are halted
  exactly when the last event entered for a KMS failure, and then the gap is counted from that entry;
  CPU inference is used exactly when the last event entered for a GPU failure with the fallback on.  In
  particular entering for any reason other than KMS failure always lifts a halt for the KMS.
\<close>

lemma degraded_last_event_decides:
  "let m = fold mode_step evs clean_state
   in (degraded_should_halt m \<longleftrightarrow> (\<exists>t g. evs \<noteq> [] \<and> last evs = Enter t KMS_FAILURE g))
    \<and> (should_use_cpu m \<longleftrightarrow> (\<exists>t. evs \<noteq> [] \<and> last evs = Enter t GPU_FAILURE True))
    \<and> get_kms_gap_seconds m now =
        (if evs = [] then None else
           case last evs of Enter t KMS_FAILURE g \<Rightarrow> Some (now - t) | _ \<Rightarrow> None)
    \<and> \<not> degraded_should_halt (enter_degraded_mode m now NETWORK_FAILURE gpu)"
proof (cases evs rule: rev_cases)
  case Nil
  then show ?thesis
    by (simp add: mode_defs should_use_cpu_def get_kms_gap_seconds_def)
next
  case (snoc xs e)
  show ?thesis
  proof (cases e)
    case (Enter t reason g)
    then show ?thesis
      unfolding snoc mode_history_snoc
      by (cases reason) (auto simp: mode_defs should_use_cpu_def get_kms_gap_seconds_def Let_def)
  next
    case (Exit t)
    then show ?thesis
      unfolding snoc mode_history_snoc
      by (simp add: mode_defs should_use_cpu_def get_kms_gap_seconds_def Let_def)
  qed
qed

end
