(* ===== verification/Human_Override.thy ===== *)
theory Human_Override
  imports Py_Base
begin

text \<open>
  \<open>lip/c7_execution_agent/human_override.py\<close> and \<open>override_sweeper.py\<close>: requests for a human decision.
  The two dictionaries of the interface are association lists (the pending one is listed in insertion
  order) and the context store a map; the fresh UUID of a request is an argument.  A call takes one
  clock reading.  The sweeper reports what it sends to the notification service, whose failures it
  swallows.

  Shown: an operator decides a request at most once, in time, and the answer stays recorded; the sweeper
  resolves exactly the expired requests and changes nothing else; a request that has an answer can still be
  resolved to the timeout action, whatever the answer was.
\<close>

datatype OverrideDecision = APPROVE | REJECT | ESCALATE

record HumanOverrideRequest =
  rq_request_id :: string
  rq_uetr :: string
  rq_original_decision :: string
  rq_ai_confidence :: pyfloat
  rq_reason_for_override :: string
  rq_requested_at :: time
  rq_expires_at :: time
  rq_operator_id :: "string option"

record HumanOverrideResponse =
  rs_request_id :: string
  rs_decision :: OverrideDecision
  rs_operator_id :: string
  rs_justification :: string
  rs_decided_at :: time
  rs_is_valid :: bool

record 'c HumanOverrideInterface =
  ho_requires_dual_approval :: bool
  ho_timeout_seconds :: pyfloat
  ho_timeout_action :: string
  ho_pending :: "(string, HumanOverrideRequest) dict"
  ho_responses :: "(string, HumanOverrideResponse) dict"
  ho_context_store :: "(string, 'c) dict"

definition override_init :: "bool \<Rightarrow> pyfloat \<Rightarrow> string \<Rightarrow> py_exc + 'c HumanOverrideInterface" where
  "override_init requires_dual_approval timeout_seconds timeout_action =
     (if timeout_action \<notin> {''DECLINE'', ''OFFER''} then Inl ValueError
      else Inr \<lparr> ho_requires_dual_approval = requires_dual_approval,
                 ho_timeout_seconds = timeout_seconds, ho_timeout_action = timeout_action,
                 ho_pending = [], ho_responses = [], ho_context_store = [] \<rparr>)"

definition request_override ::
    "'c HumanOverrideInterface \<Rightarrow> time \<Rightarrow> string \<Rightarrow> string \<Rightarrow> string \<Rightarrow> pyfloat \<Rightarrow> string \<Rightarrow>
     HumanOverrideRequest \<times> 'c HumanOverrideInterface" where
  "request_override s now request_id uetr original_decision ai_confidence reason =
     (let req = \<lparr> rq_request_id = request_id, rq_uetr = uetr,
                  rq_original_decision = original_decision, rq_ai_confidence = ai_confidence,
                  rq_reason_for_override = reason, rq_requested_at = now,
                  rq_expires_at = now + ho_timeout_seconds s, rq_operator_id = None \<rparr>
      in (req, s\<lparr>ho_pending := dset request_id req (ho_pending s)\<rparr>))"

definition override_is_expired :: "'c HumanOverrideInterface \<Rightarrow> time \<Rightarrow> string \<Rightarrow> bool" where
  "override_is_expired s now request_id \<longleftrightarrow>
     (case dget (ho_pending s) request_id of None \<Rightarrow> True | Some req \<Rightarrow> rq_expires_at req < now)"

definition override_is_pending :: "'c HumanOverrideInterface \<Rightarrow> time \<Rightarrow> string \<Rightarrow> bool" where
  "override_is_pending s now request_id \<longleftrightarrow>
     (case dget (ho_pending s) request_id of None \<Rightarrow> False | Some req \<Rightarrow> now \<le> rq_expires_at req)"

definition submit_response ::
    "'c HumanOverrideInterface \<Rightarrow> time \<Rightarrow> string \<Rightarrow> OverrideDecision \<Rightarrow> string \<Rightarrow> string \<Rightarrow>
     (py_exc + HumanOverrideResponse) \<times> 'c HumanOverrideInterface" where
  "submit_response s now request_id decision operator_id justification =
     (if operator_id = [] then (Inl ValueError, s)
      else if decision = REJECT \<and> justification = [] then (Inl ValueError, s)
      else if override_is_expired s now request_id then (Inl ValueError, s)
      else
        let resp = \<lparr> rs_request_id = request_id, rs_decision = decision,
                     rs_operator_id = operator_id, rs_justification = justification,
                     rs_decided_at = now, rs_is_valid = True \<rparr>
        in (Inr resp, s\<lparr>ho_responses := dset request_id resp (ho_responses s),
                        ho_pending := dpop request_id (ho_pending s)\<rparr>))"

definition resolve_expired ::
    "'c HumanOverrideInterface \<Rightarrow> time \<Rightarrow> string \<Rightarrow> (py_exc + string) \<times> 'c HumanOverrideInterface" where
  "resolve_expired s now request_id =
     (let in_pending = dget (ho_pending s) request_id \<noteq> None;
          in_responses = dget (ho_responses s) request_id \<noteq> None
      in if \<not> in_pending \<and> \<not> in_responses then (Inl ValueError, s)
         else if in_pending \<and> \<not> override_is_expired s now request_id then (Inl ValueError, s)
         else (Inr (ho_timeout_action s), s\<lparr>ho_pending := dpop request_id (ho_pending s)\<rparr>))"

definition get_pending_overrides :: "'c HumanOverrideInterface \<Rightarrow> time \<Rightarrow> HumanOverrideRequest list" where
  "get_pending_overrides s now = filter (\<lambda>r. now < rq_expires_at r) (dvalues (ho_pending s))"

definition get_all_pending_requests :: "'c HumanOverrideInterface \<Rightarrow> HumanOverrideRequest list" where
  "get_all_pending_requests s = dvalues (ho_pending s)"

definition store_context :: "'c HumanOverrideInterface \<Rightarrow> string \<Rightarrow> 'c \<Rightarrow> 'c HumanOverrideInterface" where
  "store_context s request_id event = s\<lparr>ho_context_store := dset request_id event (ho_context_store s)\<rparr>"

definition pop_context :: "'c HumanOverrideInterface \<Rightarrow> string \<Rightarrow> 'c option \<times> 'c HumanOverrideInterface" where
  "pop_context s request_id =
     (dget (ho_context_store s) request_id,
      s\<lparr>ho_context_store := dpop request_id (ho_context_store s)\<rparr>)"

section \<open>The sweeper\<close>

text \<open>\<open>resolve_expired\<close> raises nothing but the \<open>ValueError\<close> that the sweeper catches.\<close>

datatype notification = Notification string string string string  \<comment> \<open>event type, uetr, action, request\<close>

record 'c OverrideSweeper =
  sw_override :: "'c HumanOverrideInterface"
  sw_notified :: "notification list option"
  sw_resolved_count :: int

definition sweep_notification :: "string \<Rightarrow> HumanOverrideRequest \<Rightarrow> notification" where
  "sweep_notification action req =
     Notification (if action = ''DECLINE'' then ''LOAN_DECLINED'' else ''OFFER_ACCEPTED'')
       (rq_uetr req) action (rq_request_id req)"

fun sweep_loop ::
    "'c OverrideSweeper \<Rightarrow> time \<Rightarrow> HumanOverrideRequest list \<Rightarrow> int \<Rightarrow> int \<times> 'c OverrideSweeper" where
  "sweep_loop w now [] resolved = (resolved, w)"
| "sweep_loop w now (req # reqs) resolved =
     (if \<not> override_is_expired (sw_override w) now (rq_request_id req)
      then sweep_loop w now reqs resolved
      else case resolve_expired (sw_override w) now (rq_request_id req) of
             (Inl _, s) \<Rightarrow> sweep_loop (w\<lparr>sw_override := s\<rparr>) now reqs resolved
           | (Inr action, s) \<Rightarrow>
               sweep_loop
                 (w\<lparr>sw_override := s, sw_resolved_count := sw_resolved_count w + 1,
                    sw_notified := (case sw_notified w of
                       None \<Rightarrow> None | Some ns \<Rightarrow> Some (ns @ [sweep_notification action req]))\<rparr>)
                 now reqs (resolved + 1))"

definition sweep_once :: "'c OverrideSweeper \<Rightarrow> time \<Rightarrow> int \<times> 'c OverrideSweeper" where
  "sweep_once w now = sweep_loop w now (get_all_pending_requests (sw_override w)) 0"

section \<open>Histories of requests, answers and timeouts\<close>

datatype override_event =
    Requested HumanOverrideRequest
  | Answered HumanOverrideResponse
  | TimedOut string time string  \<comment> \<open>request, when, the action returned\<close>

fun event_request_id :: "override_event \<Rightarrow> string" where
  "event_request_id (Requested req) = rq_request_id req"
| "event_request_id (Answered resp) = rs_request_id resp"
| "event_request_id (TimedOut rid time action) = rid"

fun decides :: "override_event \<Rightarrow> bool" where
  "decides (Requested req) = False"
| "decides _ = True"

text \<open>
  \<open>override_run tr t s\<close>: the interface, created with some timeout and action, has answered the calls
  recorded in \<open>tr\<close>, the last at \<open>t\<close>, and is now \<open>s\<close>.  Every call that returns leaves an event, also a
  \<open>resolve_expired\<close> of a request that has an answer; calls that raise leave none.  Request ids are fresh, as UUIDs are.
\<close>

inductive override_run :: "override_event list \<Rightarrow> time \<Rightarrow> 'c HumanOverrideInterface \<Rightarrow> bool" where
  run_init: "override_init dual timeout action = Inr s \<Longrightarrow> override_run [] t s"
| run_request: "override_run tr t s \<Longrightarrow> t \<le> now \<Longrightarrow> rid \<notin> event_request_id ` set tr \<Longrightarrow>
    request_override s now rid uetr decision conf reason = (req, s') \<Longrightarrow>
    override_run (tr @ [Requested req]) now s'"
| run_answer: "override_run tr t s \<Longrightarrow> t \<le> now \<Longrightarrow>
    submit_response s now rid decision oper just = (Inr resp, s') \<Longrightarrow>
    override_run (tr @ [Answered resp]) now s'"
| run_answer_raises: "override_run tr t s \<Longrightarrow> t \<le> now \<Longrightarrow>
    submit_response s now rid decision oper just = (Inl e, s') \<Longrightarrow> override_run tr now s'"
| run_timeout: "override_run tr t s \<Longrightarrow> t \<le> now \<Longrightarrow>
    resolve_expired s now rid = (Inr action, s') \<Longrightarrow> override_run (tr @ [TimedOut rid now action]) now s'"
| run_timeout_raises: "override_run tr t s \<Longrightarrow> t \<le> now \<Longrightarrow>
    resolve_expired s now rid = (Inl e, s') \<Longrightarrow> override_run tr now s'"
| run_context: "override_run tr t s \<Longrightarrow> t \<le> now \<Longrightarrow> override_run tr now (store_context s rid ev)"
| run_pop: "override_run tr t s \<Longrightarrow> t \<le> now \<Longrightarrow> override_run tr now (snd (pop_context s rid))"

definition pending_ok :: "'c HumanOverrideInterface \<Rightarrow> bool" where
  "pending_ok s \<longleftrightarrow> dict_ok (ho_pending s) \<and> (\<forall>(k, r) \<in> set (ho_pending s). rq_request_id r = k)"

text \<open>
  What a returned call says of those before it: an answer is to a request that was made and neither answered
  nor timed out, within its deadline; a timeout is of a request that was made, past its deadline unless it
  has been answered.
\<close>

definition requested :: "override_event list \<Rightarrow> string \<Rightarrow> HumanOverrideRequest \<Rightarrow> bool" where
  "requested tr rid req \<longleftrightarrow> Requested req \<in> set tr \<and> rq_request_id req = rid"

definition answered_in :: "override_event list \<Rightarrow> string \<Rightarrow> bool" where
  "answered_in tr rid \<longleftrightarrow> (\<exists>resp. Answered resp \<in> set tr \<and> rs_request_id resp = rid)"

definition timely_answer :: "HumanOverrideRequest \<Rightarrow> HumanOverrideResponse \<Rightarrow> bool" where
  "timely_answer req resp \<longleftrightarrow>
     rq_requested_at req \<le> rs_decided_at resp \<and> rs_decided_at resp \<le> rq_expires_at req \<and>
     rs_operator_id resp \<noteq> [] \<and> (rs_decision resp = REJECT \<longrightarrow> rs_justification resp \<noteq> [])"

fun event_ok :: "override_event list \<Rightarrow> override_event \<Rightarrow> bool" where
  "event_ok before (Requested req) \<longleftrightarrow> True"
| "event_ok before (Answered resp) \<longleftrightarrow>
     (\<forall>e \<in> set before. decides e \<longrightarrow> event_request_id e \<noteq> rs_request_id resp) \<and>
     (\<exists>req. requested before (rs_request_id resp) req \<and> timely_answer req resp)"
| "event_ok before (TimedOut rid time action) \<longleftrightarrow>
     (\<exists>req. requested before rid req \<and> (answered_in before rid \<or> rq_expires_at req < time))"

fun decisions_ok :: "override_event list \<Rightarrow> override_event list \<Rightarrow> bool" where
  "decisions_ok before [] \<longleftrightarrow> True"
| "decisions_ok before (e # es) \<longleftrightarrow> event_ok before e \<and> decisions_ok (before @ [e]) es"

lemma decisions_ok_snoc:
  "decisions_ok before (es @ [e]) \<longleftrightarrow>
     decisions_ok before es \<and> event_ok (before @ es) e"
  by (induction es arbitrary: before) auto

definition override_inv :: "override_event list \<Rightarrow> time \<Rightarrow> 'c HumanOverrideInterface \<Rightarrow> bool" where
  "override_inv tr t s \<longleftrightarrow> pending_ok s \<and> decisions_ok [] tr \<and>
     (\<forall>rid req. dget (ho_pending s) rid = Some req \<longrightarrow>
        rq_request_id req = rid \<and> Requested req \<in> set tr \<and> rq_requested_at req \<le> t \<and>
        (\<forall>e \<in> set tr. decides e \<longrightarrow> event_request_id e \<noteq> rid)) \<and>
     (\<forall>rid resp. dget (ho_responses s) rid = Some resp \<longleftrightarrow> Answered resp \<in> set tr \<and> rs_request_id resp = rid)"

lemma pending_ok_dget: "pending_ok s \<Longrightarrow> dget (ho_pending s) k = Some r \<Longrightarrow> rq_request_id r = k"
  unfolding pending_ok_def by (auto dest: map_of_SomeD)

lemma pending_ok_dset:
  "pending_ok s \<Longrightarrow> rq_request_id r = k \<Longrightarrow> pending_ok (s\<lparr>ho_pending := dset k r (ho_pending s)\<rparr>)"
proof -
  assume s: "pending_ok s" and r: "rq_request_id r = k"
  have "rq_request_id v = q" if "(q, v) \<in> set (dset k r (ho_pending s))" for q v
  proof -
    have "dget (dset k r (ho_pending s)) q = Some v"
      using that s by (simp add: pending_ok_def mem_dget dict_ok_dset)
    then show ?thesis using r pending_ok_dget [OF s] by (auto simp: dget_dset split: if_splits)
  qed
  with s show ?thesis by (auto simp: pending_ok_def)
qed

lemma pending_ok_dpop: "pending_ok s \<Longrightarrow> pending_ok (s\<lparr>ho_pending := dpop k (ho_pending s)\<rparr>)"
  unfolding pending_ok_def by (auto simp: AList.delete_eq)

lemma submit_cases:
  "submit_response s now rid decision oper just = (res, s') \<Longrightarrow>
   (\<exists>e. res = Inl e \<and> s' = s) \<or>
   (\<exists>req. dget (ho_pending s) rid = Some req \<and> now \<le> rq_expires_at req \<and> oper \<noteq> [] \<and>
      (decision = REJECT \<longrightarrow> just \<noteq> []) \<and>
      res = Inr \<lparr> rs_request_id = rid, rs_decision = decision, rs_operator_id = oper,
                  rs_justification = just, rs_decided_at = now, rs_is_valid = True \<rparr> \<and>
      s' = s\<lparr>ho_responses := dset rid \<lparr> rs_request_id = rid, rs_decision = decision,
               rs_operator_id = oper, rs_justification = just, rs_decided_at = now,
               rs_is_valid = True \<rparr> (ho_responses s), ho_pending := dpop rid (ho_pending s)\<rparr>)"
  by (auto simp: submit_response_def override_is_expired_def Let_def split: if_splits option.splits)

lemma resolve_cases:
  "resolve_expired s now rid = (res, s') \<Longrightarrow>
   (\<exists>e. res = Inl e \<and> s' = s) \<or>
   (res = Inr (ho_timeout_action s) \<and> s' = s\<lparr>ho_pending := dpop rid (ho_pending s)\<rparr> \<and>
     ((\<exists>req. dget (ho_pending s) rid = Some req \<and> rq_expires_at req < now) \<or>
      dget (ho_pending s) rid = None \<and> dget (ho_responses s) rid \<noteq> None))"
  by (auto simp: resolve_expired_def override_is_expired_def Let_def split: if_splits option.splits)

lemma decisions_ok_split: "decisions_ok xs (bef @ e # aft) \<Longrightarrow> event_ok (xs @ bef) e"
proof (induction bef arbitrary: xs)
  case (Cons a bef)
  then show ?case using Cons.IH [of "xs @ [a]"] by simp
qed simp

text \<open>The ways a step changes the trace and the pending requests.\<close>

lemma inv_later: "override_inv tr t s \<Longrightarrow> t \<le> now \<Longrightarrow> override_inv tr now s"
  unfolding override_inv_def by fastforce

lemma inv_frame:
  "override_inv tr t s \<Longrightarrow> ho_pending s' = ho_pending s \<Longrightarrow> ho_responses s' = ho_responses s \<Longrightarrow>
   override_inv tr t s'"
  unfolding override_inv_def pending_ok_def by simp

lemma inv_pending:
  "override_inv tr t s \<Longrightarrow> dget (ho_pending s) rid = Some req \<Longrightarrow>
   requested tr rid req \<and> rq_requested_at req \<le> t \<and> (\<forall>e \<in> set tr. decides e \<longrightarrow> event_request_id e \<noteq> rid)"
  unfolding override_inv_def requested_def by blast

lemma inv_answered: "override_inv tr t s \<Longrightarrow> dget (ho_responses s) rid \<noteq> None \<longleftrightarrow> answered_in tr rid"
  unfolding override_inv_def answered_in_def by (metis not_None_eq)

lemma answered_requested:
  assumes "decisions_ok [] tr" "answered_in tr rid"
  shows "\<exists>req. requested tr rid req"
proof -
  from assms(2) obtain resp bef aft where "rs_request_id resp = rid" "tr = bef @ Answered resp # aft"
    by (auto simp: answered_in_def in_set_conv_decomp)
  with decisions_ok_split [of "[]" bef "Answered resp" aft] assms(1) show ?thesis
    by (auto simp: requested_def)
qed

lemma inv_decided:
  assumes inv: "override_inv tr t s" and pend: "ho_pending s' = dpop rid (ho_pending s)"
    and ev: "decides e" "event_request_id e = rid" and ok: "event_ok tr e"
    and resp: "\<And>rid' resp. dget (ho_responses s') rid' = Some resp \<longleftrightarrow>
      dget (ho_responses s) rid' = Some resp \<or> e = Answered resp \<and> rid' = rid"
  shows "override_inv (tr @ [e]) t s'"
proof -
  have "pending_ok s'"
    using pending_ok_dpop [of s rid] inv pend by (simp add: override_inv_def pending_ok_def)
  moreover have "dget (ho_pending s') k = Some req \<longleftrightarrow> k \<noteq> rid \<and> dget (ho_pending s) k = Some req" for k req
    by (auto simp: pend dget_dpop)
  ultimately show ?thesis
    using inv ev ok unfolding override_inv_def resp by (auto simp: decisions_ok_snoc)
qed

lemma override_run_inv: "override_run tr t s \<Longrightarrow> override_inv tr t s"
proof (induction rule: override_run.induct)
  case (run_init dual timeout action s t)
  then have "s = \<lparr> ho_requires_dual_approval = dual, ho_timeout_seconds = timeout,
      ho_timeout_action = action, ho_pending = [], ho_responses = [], ho_context_store = [] \<rparr>"
    by (auto simp: override_init_def split: if_splits)
  then show ?case by (simp add: override_inv_def pending_ok_def)
next
  case (run_request tr t s now rid uetr decision conf reason req s')
  have inv: "override_inv tr now s" using run_request inv_later by blast
  have req: "rq_request_id req = rid" "rq_requested_at req = now"
    and s': "s' = s\<lparr>ho_pending := dset rid req (ho_pending s)\<rparr>"
    using run_request.hyps(4) by (auto simp: request_override_def Let_def)
  have "pending_ok s'" using inv req s' by (simp add: override_inv_def pending_ok_dset)
  moreover have "decides e \<longrightarrow> event_request_id e \<noteq> rid" if "e \<in> set tr" for e
    using that run_request.hyps(3) by auto
  ultimately show ?case
    using inv req s' unfolding override_inv_def
    by (auto simp: decisions_ok_snoc dget_dset split: if_splits)
next
  case (run_answer tr t s now rid decision oper just resp s')
  have inv: "override_inv tr now s" using run_answer inv_later by blast
  from submit_cases [OF run_answer.hyps(3)] obtain req where
    req: "dget (ho_pending s) rid = Some req" "now \<le> rq_expires_at req" "oper \<noteq> []"
      "decision = REJECT \<longrightarrow> just \<noteq> []"
    and resp: "resp = \<lparr> rs_request_id = rid, rs_decision = decision, rs_operator_id = oper,
        rs_justification = just, rs_decided_at = now, rs_is_valid = True \<rparr>"
    and s': "s' = s\<lparr>ho_responses := dset rid resp (ho_responses s), ho_pending := dpop rid (ho_pending s)\<rparr>"
    by auto
  note p = inv_pending [OF inv req(1)]
  show ?case
  proof (rule inv_decided [OF inv, of s' rid])
    show "event_ok tr (Answered resp)"
      using p req resp by (auto simp: timely_answer_def)
    have "\<not> answered_in tr rid" using p by (auto simp: answered_in_def)
    with inv_answered [OF inv] have none: "dget (ho_responses s) rid = None" by blast
    show "dget (ho_responses s') rid' = Some r \<longleftrightarrow>
        dget (ho_responses s) rid' = Some r \<or> Answered resp = Answered r \<and> rid' = rid" for rid' r
      using none by (auto simp: s' dget_dset)
  qed (simp_all add: resp s')
next
  case (run_answer_raises tr t s now rid decision oper just e s')
  then have "s' = s" using submit_cases [of s now rid decision oper just "Inl e" s'] by auto
  with run_answer_raises inv_later show ?case by blast
next
  case (run_timeout tr t s now rid action s')
  have inv: "override_inv tr now s" using run_timeout inv_later by blast
  from resolve_cases [OF run_timeout.hyps(3)]
  have s': "s' = s\<lparr>ho_pending := dpop rid (ho_pending s)\<rparr>" and c:
    "(\<exists>req. dget (ho_pending s) rid = Some req \<and> rq_expires_at req < now) \<or> dget (ho_responses s) rid \<noteq> None"
    by auto
  show ?case
  proof (rule inv_decided [OF inv, of s' rid])
    show "event_ok tr (TimedOut rid now action)"
      using c inv_pending [OF inv] inv_answered [OF inv] answered_requested inv
      by (auto simp: override_inv_def)
  qed (simp_all add: s')
next
  case (run_timeout_raises tr t s now rid e s')
  then have "s' = s" using resolve_cases [of s now rid "Inl e" s'] by auto
  with run_timeout_raises inv_later show ?case by blast
next
  case (run_context tr t s now rid ev)
  have inv: "override_inv tr now s" using run_context inv_later by blast
  show ?case by (rule inv_frame [OF inv]) (simp_all add: store_context_def)
next
  case (run_pop tr t s now rid)
  have inv: "override_inv tr now s" using run_pop inv_later by blast
  show ?case by (rule inv_frame [OF inv]) (simp_all add: pop_context_def)
qed


text \<open>Witness: a request made at 10 and rejected at 20.\<close>

definition sample_override :: "string HumanOverrideInterface" where
  "sample_override =
     \<lparr> ho_requires_dual_approval = False, ho_timeout_seconds = 300, ho_timeout_action = ''OFFER'',
       ho_pending = [], ho_responses = [], ho_context_store = [] \<rparr>"

definition sample_request :: "HumanOverrideRequest \<times> string HumanOverrideInterface" where
  "sample_request = request_override sample_override 10 ''R1'' ''U1'' ''OFFER'' (9 / 10) ''PD''"

definition sample_answer :: "(py_exc + HumanOverrideResponse) \<times> string HumanOverrideInterface" where
  "sample_answer = submit_response (snd sample_request) 20 ''R1'' REJECT ''alice'' ''exposure''"

lemmas sample_defs = sample_override_def sample_request_def sample_answer_def request_override_def
  submit_response_def override_is_expired_def

lemma sample_override_run:
  obtains resp s' where "sample_answer = (Inr resp, s')" "rs_decision resp = REJECT" "rs_request_id resp = ''R1''"
    "override_run [Requested (fst sample_request), Answered resp, TimedOut ''R1'' 30 ''OFFER''] 30 s'"
proof -
  obtain resp s' where a: "sample_answer = (Inr resp, s')" "rs_decision resp = REJECT" "rs_request_id resp = ''R1''"
    "resolve_expired s' 30 ''R1'' = (Inr ''OFFER'', s')"
    by (simp add: sample_defs resolve_expired_def dict_simps Let_def)
  have "override_run [] 0 sample_override"
    by (rule run_init [where dual = False and timeout = 300 and action = "''OFFER''"])
      (simp add: override_init_def sample_override_def)
  then have "override_run ([] @ [Requested (fst sample_request)]) 10 (snd sample_request)"
    by (rule run_request [where s' = "snd sample_request" and req = "fst sample_request"])
      (simp_all add: sample_request_def)
  then have "override_run (([] @ [Requested (fst sample_request)]) @ [Answered resp]) 20 s'"
    by (rule run_answer [OF _ _ a(1) [unfolded sample_answer_def]]) simp
  then have "override_run ((([] @ [Requested (fst sample_request)]) @ [Answered resp]) @ [TimedOut ''R1'' 30 ''OFFER'']) 30 s'"
    by (rule run_timeout [OF _ _ a(4)]) simp
  with that a show thesis by simp
qed


section \<open>After an answer\<close>

text \<open>
  An answered request is closed, and then reopened as a timeout.  Once an answer was
  recorded, be it an escalation, the request is not pending and every further answer raises; yet
  \<open>resolve_expired\<close> does not raise for it, not even before the deadline: it returns the timeout
  action, so a rejected request resolves to an offer when the interface was configured so.
\<close>

lemma answered_request_resolves_to_timeout_action:
  assumes "submit_response s now rid decision oper just = (Inr resp, s')"
  shows "\<not> override_is_pending s' later rid
    \<and> fst (submit_response s' later rid decision' oper' just') = Inl ValueError
    \<and> resolve_expired s' later rid = (Inr (ho_timeout_action s), s')"
proof -
  from submit_cases [OF assms] obtain resp' where
    s': "s' = s\<lparr>ho_responses := dset rid resp' (ho_responses s), ho_pending := dpop rid (ho_pending s)\<rparr>"
    by auto
  then show ?thesis
    by (simp add: override_is_pending_def submit_response_def override_is_expired_def
        resolve_expired_def dict_simps Let_def AList.delete_idem)
qed

lemma answered_request_resolves_to_timeout_action_witness:
  "\<exists>resp s'. sample_answer = (Inr resp, s') \<and> rs_decision resp = REJECT
     \<and> fst (resolve_expired s' 30 ''R1'') = Inr ''OFFER''"
proof -
  obtain resp s' where a: "sample_answer = (Inr resp, s')" and d: "rs_decision resp = REJECT"
    by (simp add: sample_defs Let_def)
  have t: "ho_timeout_action (snd sample_request) = ''OFFER''" by (simp add: sample_defs Let_def)
  have "fst (resolve_expired s' 30 ''R1'') = Inr ''OFFER''"
    using answered_request_resolves_to_timeout_action [OF a [unfolded sample_answer_def],
        of 30 REJECT "[]" "[]"] t by simp
  with a d show ?thesis by blast
qed

section \<open>A sweep\<close>

definition expired_request :: "time \<Rightarrow> HumanOverrideRequest \<Rightarrow> bool" where
  "expired_request now req \<longleftrightarrow> rq_expires_at req < now"

definition sweep_notes :: "string \<Rightarrow> time \<Rightarrow> HumanOverrideRequest list \<Rightarrow> notification list" where
  "sweep_notes action now reqs = map (sweep_notification action) (filter (expired_request now) reqs)"

text \<open>The sweeper after resolving the expired ones among \<open>reqs\<close>.\<close>

definition sweep_effect ::
    "time \<Rightarrow> HumanOverrideRequest list \<Rightarrow> 'c OverrideSweeper \<Rightarrow> 'c OverrideSweeper" where
  "sweep_effect now reqs w =
     (let s = sw_override w; expired = filter (expired_request now) reqs
      in w\<lparr>sw_override := s\<lparr>ho_pending :=
             filter (\<lambda>(k, r). k \<notin> rq_request_id ` set expired) (ho_pending s)\<rparr>,
           sw_notified := map_option (\<lambda>ns. ns @ sweep_notes (ho_timeout_action s) now reqs) (sw_notified w),
           sw_resolved_count := sw_resolved_count w + int (length expired)\<rparr>)"

lemma sweep_effect_Cons:
  "sweep_effect now (req # reqs) w =
     sweep_effect now reqs
       (if expired_request now req then
          w\<lparr>sw_override := (sw_override w)\<lparr>ho_pending := dpop (rq_request_id req) (ho_pending (sw_override w))\<rparr>,
            sw_resolved_count := sw_resolved_count w + 1,
            sw_notified := map_option (\<lambda>ns. ns @ [sweep_notification (ho_timeout_action (sw_override w)) req])
              (sw_notified w)\<rparr>
        else w)"
proof -
  have "filter (\<lambda>(k, r). k \<noteq> a \<and> k \<notin> A) d = filter (\<lambda>(k, r). k \<notin> A) (dpop a d)"
    for a A and d :: "(string, HumanOverrideRequest) dict"
    by (auto simp: AList.delete_eq intro!: filter_cong)
  then show ?thesis
    by (cases "sw_notified w") (simp_all add: sweep_effect_def sweep_notes_def Let_def)
qed

lemma sweep_loop_spec:
  assumes "pending_ok (sw_override w)" "distinct (map rq_request_id reqs)"
    and "\<forall>r \<in> set reqs. dget (ho_pending (sw_override w)) (rq_request_id r) = Some r"
  shows "sweep_loop w now reqs n =
    (n + int (length (filter (expired_request now) reqs)), sweep_effect now reqs w)"
  using assms
proof (induction reqs arbitrary: w n)
  case Nil
  have "filter (\<lambda>(k, r). True) d = d" for d :: "(string, HumanOverrideRequest) dict"
    by (induction d) auto
  then show ?case by (cases "sw_notified w") (simp_all add: sweep_effect_def sweep_notes_def)
next
  case (Cons req reqs)
  let ?s = "sw_override w" and ?k = "rq_request_id req"
  have k: "dget (ho_pending ?s) ?k = Some req" using Cons.prems(3) by simp
  show ?case
  proof (cases "expired_request now req")
    case False
    with k have "\<not> override_is_expired ?s now ?k"
      by (simp add: override_is_expired_def expired_request_def)
    with False Cons show ?thesis by (simp add: sweep_effect_Cons)
  next
    case True
    let ?w = "w\<lparr>sw_override := ?s\<lparr>ho_pending := dpop ?k (ho_pending ?s)\<rparr>,
      sw_resolved_count := sw_resolved_count w + 1,
      sw_notified := map_option (\<lambda>ns. ns @ [sweep_notification (ho_timeout_action ?s) req]) (sw_notified w)\<rparr>"
    have e: "override_is_expired ?s now ?k"
      using True k by (simp add: override_is_expired_def expired_request_def)
    then have "resolve_expired ?s now ?k =
        (Inr (ho_timeout_action ?s), ?s\<lparr>ho_pending := dpop ?k (ho_pending ?s)\<rparr>)"
      using k by (simp add: resolve_expired_def)
    with e have "sweep_loop w now (req # reqs) n = sweep_loop ?w now reqs (n + 1)"
      by (cases "sw_notified w") simp_all
    also have "\<dots> = (n + 1 + int (length (filter (expired_request now) reqs)), sweep_effect now reqs ?w)"
    proof (rule Cons.IH)
      show "pending_ok (sw_override ?w)" using pending_ok_dpop Cons.prems(1) by simp
      show "distinct (map rq_request_id reqs)" using Cons.prems(2) by simp
      show "\<forall>r \<in> set reqs. dget (ho_pending (sw_override ?w)) (rq_request_id r) = Some r"
        using Cons.prems(2,3) by (auto simp: dget_dpop image_iff)
    qed
    finally show ?thesis using True by (simp add: sweep_effect_Cons)
  qed
qed

lemma pending_requests_distinct:
  "pending_ok s \<Longrightarrow> distinct (map rq_request_id (dvalues (ho_pending s)))
    \<and> (\<forall>r \<in> set (dvalues (ho_pending s)). dget (ho_pending s) (rq_request_id r) = Some r)"
proof -
  assume s: "pending_ok s"
  have "map rq_request_id (dvalues (ho_pending s)) = map fst (ho_pending s)"
    using s unfolding dvalues_def pending_ok_def by (auto intro!: map_cong)
  moreover have "dget (ho_pending s) (rq_request_id r) = Some r" if "r \<in> set (dvalues (ho_pending s))" for r
    using that s pending_ok_dget [OF s] by (auto simp: pending_ok_def set_dvalues)
  ultimately show ?thesis using s by (simp add: pending_ok_def dict_ok_def)
qed

lemma sweep_once_spec:
  assumes "pending_ok (sw_override w)"
  shows "sweep_once w now =
    (int (length (filter (expired_request now) (get_all_pending_requests (sw_override w)))),
     sweep_effect now (get_all_pending_requests (sw_override w)) w)"
  using sweep_loop_spec [OF assms, of "get_all_pending_requests (sw_override w)" now 0]
    pending_requests_distinct [OF assms]
  by (simp add: sweep_once_def get_all_pending_requests_def)

lemma expired_key:
  assumes ok: "pending_ok s" and mem: "(k, r) \<in> set (ho_pending s)"
  shows "k \<in> rq_request_id ` set (filter (expired_request now) (get_all_pending_requests s)) \<longleftrightarrow> expired_request now r"
    (is "k \<in> rq_request_id ` ?expired \<longleftrightarrow> _")
proof -
  have k: "dget (ho_pending s) k = Some r" "rq_request_id r = k"
    using mem ok pending_ok_dget [OF ok, of k r] by (simp_all add: pending_ok_def mem_dget)
  have "r' = r" if "r' \<in> set (get_all_pending_requests s)" "rq_request_id r' = k" for r'
  proof -
    have "dget (ho_pending s) (rq_request_id r') = Some r'"
      using pending_requests_distinct [OF ok] that(1) by (simp add: get_all_pending_requests_def)
    with that(2) k(1) show ?thesis by simp
  qed
  then have "k \<in> rq_request_id ` ?expired \<Longrightarrow> expired_request now r" by fastforce
  moreover have "r \<in> set (get_all_pending_requests s)"
    using mem by (force simp: get_all_pending_requests_def dvalues_def)
  then have "expired_request now r \<Longrightarrow> k \<in> rq_request_id ` ?expired" using k(2) [symmetric] by simp
  ultimately show ?thesis by (rule iffI)
qed

lemma sweep_pending:
  assumes "pending_ok (sw_override w)"
  shows "ho_pending (sw_override (sweep_effect now (get_all_pending_requests (sw_override w)) w)) =
    filter (\<lambda>(k, r). \<not> expired_request now r) (ho_pending (sw_override w))"
proof -
  let ?reqs = "get_all_pending_requests (sw_override w)"
  have "filter (\<lambda>(k, r). k \<notin> rq_request_id ` set (filter (expired_request now) ?reqs)) (ho_pending (sw_override w)) =
      filter (\<lambda>(k, r). \<not> expired_request now r) (ho_pending (sw_override w))"
    by (rule filter_cong [OF refl]) (use expired_key [OF assms] in blast)
  then show ?thesis by (simp add: sweep_effect_def Let_def)
qed

lemma unexpired_pending:
  "filter (\<lambda>r. now < rq_expires_at r) (map snd (filter (\<lambda>(k, r). \<not> expired_request now r) d)) =
   filter (\<lambda>r. now < rq_expires_at r) (map snd d)"
  by (induction d) (auto simp: expired_request_def)

text \<open>
  C39: a sweep resolves exactly the expired requests.  At any point of any history, \<open>sweep_once\<close>
  returns the number of pending requests past their deadline, removes those and no other from the
  pending ones (whose order it keeps), adds them to its count, and notifies once for each, in the order in
  which they were made, with the configured action.  That is all it changes: answers, stored contexts and
  settings stay as they were.  What it leaves is what an operator can still see, and a second sweep at the
  same time resolves nothing.
\<close>

theorem sweep_resolves_expired:
  assumes "override_run tr t (sw_override w)"
  shows "let expired = filter (expired_request now) (get_all_pending_requests (sw_override w));
             n = fst (sweep_once w now); w' = snd (sweep_once w now)
         in n = int (length expired)
          \<and> w' = w\<lparr>sw_override := (sw_override w)\<lparr>ho_pending :=
                filter (\<lambda>(k, r). \<not> expired_request now r) (ho_pending (sw_override w))\<rparr>,
              sw_resolved_count := sw_resolved_count w + n,
              sw_notified := map_option (\<lambda>ns. ns @
                map (sweep_notification (ho_timeout_action (sw_override w))) expired) (sw_notified w)\<rparr>
          \<and> set (get_pending_overrides (sw_override w') now) = set (get_pending_overrides (sw_override w) now)
          \<and> fst (sweep_once w' now) = 0"
proof -
  let ?s = "sw_override w"
  let ?w = "sweep_effect now (get_all_pending_requests ?s) w"
  have ok: "pending_ok ?s" using override_run_inv [OF assms] by (simp add: override_inv_def)
  note pend = sweep_pending [OF ok, of now]
  have ok': "pending_ok (sw_override ?w)" using ok unfolding pending_ok_def pend by auto
  have live: "get_pending_overrides (sw_override ?w) now = get_pending_overrides ?s now"
    by (simp only: get_pending_overrides_def pend dvalues_def unexpired_pending)
  have none: "filter (expired_request now) (get_all_pending_requests (sw_override ?w)) = []"
    unfolding get_all_pending_requests_def [of "sw_override ?w"] pend dvalues_def by (auto simp: filter_empty_conv)
  show ?thesis
    using pend sweep_once_spec [OF ok] sweep_once_spec [OF ok'] live none
    by (simp add: Let_def) (simp add: sweep_effect_def sweep_notes_def Let_def)
qed

lemma sweep_resolves_expired_witness:
  "fst (sweep_once \<lparr> sw_override = snd sample_request, sw_notified = Some [], sw_resolved_count = 0 \<rparr> 311) = 1"
proof -
  have "override_run [] 0 sample_override"
    by (rule run_init [where dual = False and timeout = 300 and action = "''OFFER''"])
      (simp add: override_init_def sample_override_def)
  then have "override_run ([] @ [Requested (fst sample_request)]) 10 (snd sample_request)"
    by (rule run_request [where s' = "snd sample_request" and req = "fst sample_request"])
      (simp_all add: sample_request_def)
  then have run: "override_run [Requested (fst sample_request)] 10
      (sw_override \<lparr> sw_override = snd sample_request, sw_notified = Some [], sw_resolved_count = 0 \<rparr>)"
    by simp
  have "filter (expired_request 311) (get_all_pending_requests (snd sample_request)) = [fst sample_request]"
    by (simp add: get_all_pending_requests_def dvalues_def expired_request_def sample_defs Let_def)
  then show ?thesis
    using sweep_resolves_expired [OF run, of 311] by (simp add: Let_def)
qed

end
