(* ===== verification/Decision_Log.thy ===== *)
theory Decision_Log
  imports Py_Base
begin

text \<open>
  \<open>lip/c7_execution_agent/decision_log.py\<close>: the signed decision log.  \<open>sign\<close> stands for
  HMAC-SHA256 over the canonical JSON of an entry (all its fields but the signature itself) under the
  logger's key; it is a parameter, given the entry with an empty signature.  The store is the
  insertion-ordered dictionary, the backend the list of the entries saved to it.

  Shown: the bounded store is the tail of the unbounded log that the backend sees; every stored entry
  verifies; what \<open>log\<close> writes is a chain, and two logs that end in the same signature are the same, as
  long as no two of their entries collide.
\<close>

record DecisionLogEntryData =
  de_entry_id :: string
  de_uetr :: string
  de_individual_payment_id :: string
  de_decision_type :: string
  de_decision_timestamp :: time
  de_failure_probability :: pyfloat
  de_pd_score :: pyfloat
  de_fee_bps :: int
  de_loan_amount :: rat
  de_dispute_class :: string
  de_aml_passed :: bool
  de_human_override :: bool
  de_degraded_mode :: bool
  de_gpu_fallback :: bool
  de_kms_unavailable_gap :: "pyfloat option"
  de_operator_id :: "string option"
  de_licensee_id :: string
  de_tenant_id :: string
  de_entry_signature :: string
  de_prev_signature :: string

record DecisionLogger =
  dl_store_maxsize :: int
  dl_store :: "(string, DecisionLogEntryData) dict"
  dl_backend :: "DecisionLogEntryData list option"
  dl_last_signature :: string

type_synonym signer = "DecisionLogEntryData \<Rightarrow> string"

definition HMAC_KEY_MIN_BYTES :: int where "HMAC_KEY_MIN_BYTES = 32"

definition logger_init :: "int \<Rightarrow> DecisionLogEntryData list option \<Rightarrow> int \<Rightarrow> py_exc + DecisionLogger" where
  "logger_init key_bytes backend store_maxsize =
     (if key_bytes < HMAC_KEY_MIN_BYTES then Inl ValueError
      else Inr \<lparr> dl_store_maxsize = max 1 store_maxsize, dl_store = [], dl_backend = backend,
                 dl_last_signature = [] \<rparr>)"

definition sign_entry :: "signer \<Rightarrow> DecisionLogEntryData \<Rightarrow> string" where
  "sign_entry sign e = sign (e\<lparr>de_entry_signature := []\<rparr>)"

definition log_entry :: "signer \<Rightarrow> string \<Rightarrow> DecisionLogEntryData \<Rightarrow> DecisionLogger \<Rightarrow> string \<times> DecisionLogger" where
  "log_entry sign uuid e s =
     (let e = (if de_entry_id e = [] then e\<lparr>de_entry_id := uuid\<rparr> else e);
          e = e\<lparr>de_prev_signature := dl_last_signature s\<rparr>;
          e = e\<lparr>de_entry_signature := sign_entry sign e\<rparr>;
          s = s\<lparr>dl_last_signature := de_entry_signature e\<rparr>;
          store = (if dl_store_maxsize s \<le> int (length (dl_store s)) \<and>
                      dget (dl_store s) (de_entry_id e) = None
                   then tl (dl_store s) else dl_store s);
          s = s\<lparr>dl_store := dset (de_entry_id e) e store\<rparr>;
          s = s\<lparr>dl_backend := map_option (\<lambda>saved. saved @ [e]) (dl_backend s)\<rparr>
      in (de_entry_id e, s))"

definition get_entry :: "DecisionLogger \<Rightarrow> string \<Rightarrow> DecisionLogEntryData option" where
  "get_entry s entry_id = dget (dl_store s) entry_id"

definition verify_entry :: "signer \<Rightarrow> DecisionLogger \<Rightarrow> string \<Rightarrow> bool" where
  "verify_entry sign s entry_id =
     (case get_entry s entry_id of
        None \<Rightarrow> False
      | Some e \<Rightarrow> de_entry_signature e = sign_entry sign e)"

definition get_by_uetr :: "DecisionLogger \<Rightarrow> string \<Rightarrow> DecisionLogEntryData list" where
  "get_by_uetr s uetr = filter (\<lambda>e. de_uetr e = uetr) (dvalues (dl_store s))"

section \<open>The specification: an unbounded chain\<close>

definition sealed :: "signer \<Rightarrow> string \<Rightarrow> DecisionLogEntryData \<Rightarrow> DecisionLogEntryData" where
  "sealed sign prev e =
     (let e = e\<lparr>de_prev_signature := prev\<rparr> in e\<lparr>de_entry_signature := sign_entry sign e\<rparr>)"

fun chain :: "signer \<Rightarrow> string \<Rightarrow> DecisionLogEntryData list \<Rightarrow> DecisionLogEntryData list" where
  "chain sign prev [] = []"
| "chain sign prev (e # es) =
     (let e' = sealed sign prev e in e' # chain sign (de_entry_signature e') es)"

fun chain_ok :: "signer \<Rightarrow> string \<Rightarrow> DecisionLogEntryData list \<Rightarrow> bool" where
  "chain_ok sign prev [] \<longleftrightarrow> True"
| "chain_ok sign prev (e # es) \<longleftrightarrow>
     de_prev_signature e = prev \<and> de_entry_signature e = sign_entry sign e \<and>
     chain_ok sign (de_entry_signature e) es"

definition last_signature :: "string \<Rightarrow> DecisionLogEntryData list \<Rightarrow> string" where
  "last_signature prev es = (if es = [] then prev else de_entry_signature (last es))"

lemma sealed_simps [simp]:
  "de_entry_id (sealed sign prev e) = de_entry_id e"
  "de_uetr (sealed sign prev e) = de_uetr e"
  "de_prev_signature (sealed sign prev e) = prev"
  "de_entry_signature (sealed sign prev e) = sign_entry sign (sealed sign prev e)"
  by (simp_all add: sealed_def sign_entry_def Let_def)

lemma chain_ok_chain: "chain_ok sign prev (chain sign prev es)"
  by (induction es arbitrary: prev) (simp_all add: Let_def del: sealed_simps(4), simp)

lemma chain_ok_snoc:
  "chain_ok sign prev (es @ [e]) \<longleftrightarrow>
     chain_ok sign prev es \<and> de_prev_signature e = last_signature prev es \<and>
     de_entry_signature e = sign_entry sign e"
  by (induction es arbitrary: prev) (auto simp: last_signature_def)

lemma chain_snoc:
  "chain sign prev (es @ [e]) =
     chain sign prev es @ [sealed sign (last_signature prev (chain sign prev es)) e]"
  by (induction es arbitrary: prev) (auto simp: last_signature_def Let_def)

lemma length_chain [simp]: "length (chain sign prev es) = length es"
  by (induction es arbitrary: prev) (simp_all add: Let_def)

lemma chain_ids: "map de_entry_id (chain sign prev es) = map de_entry_id es"
  by (induction es arbitrary: prev) (simp_all add: Let_def)

lemma chain_ok_signed:
  "chain_ok sign prev es \<Longrightarrow> e \<in> set es \<Longrightarrow> de_entry_signature e = sign_entry sign e"
  by (induction es arbitrary: prev) auto

section \<open>The logger refines it\<close>

definition keyed :: "DecisionLogEntryData list \<Rightarrow> (string, DecisionLogEntryData) dict" where
  "keyed es = map (\<lambda>e. (de_entry_id e, e)) es"

definition lastn :: "int \<Rightarrow> 'a list \<Rightarrow> 'a list" where
  "lastn n xs = drop (length xs - nat n) xs"

lemma lastn_snoc:
  assumes "1 \<le> n"
  shows "lastn n (xs @ [x]) = (if n \<le> int (length (lastn n xs)) then tl (lastn n xs) else lastn n xs) @ [x]"
proof (cases "n \<le> int (length xs)")
  case True
  with assms have n: "nat n \<le> length xs" "0 < nat n" by linarith+
  then have "Suc (length xs) - nat n = Suc (length xs - nat n)" by simp
  with n True show ?thesis by (simp add: lastn_def drop_Suc tl_drop)
next
  case False
  then have "length xs - nat n = 0" "Suc (length xs) - nat n = 0" by linarith+
  with False show ?thesis by (simp add: lastn_def)
qed

definition log_all :: "signer \<Rightarrow> DecisionLogEntryData list \<Rightarrow> DecisionLogger \<Rightarrow> DecisionLogger" where
  "log_all sign es s = fold (\<lambda>e s. snd (log_entry sign [] e s)) es s"

text \<open>The logger that has logged \<open>es\<close>.\<close>

definition represents :: "signer \<Rightarrow> DecisionLogEntryData list \<Rightarrow> DecisionLogger \<Rightarrow> bool" where
  "represents sign es s \<longleftrightarrow> 1 \<le> dl_store_maxsize s \<and>
     dl_store s = lastn (dl_store_maxsize s) (keyed (chain sign [] es)) \<and>
     dl_last_signature s = last_signature [] (chain sign [] es) \<and>
     (\<forall>saved. dl_backend s = Some saved \<longrightarrow> saved = chain sign [] es)"

lemma log_entry_eq:
  "de_entry_id e \<noteq> [] \<Longrightarrow>
   log_entry sign uuid e s =
     (let e' = sealed sign (dl_last_signature s) e;
          store = (if dl_store_maxsize s \<le> int (length (dl_store s)) \<and> dget (dl_store s) (de_entry_id e) = None
                   then tl (dl_store s) else dl_store s)
      in (de_entry_id e, s\<lparr>dl_last_signature := de_entry_signature e',
            dl_store := dset (de_entry_id e) e' store,
            dl_backend := map_option (\<lambda>saved. saved @ [e']) (dl_backend s)\<rparr>))"
  by (simp add: log_entry_def sealed_def Let_def sign_entry_def)

lemma lastn_keys: "k \<notin> fst ` set d \<Longrightarrow> dget (lastn n d) k = None \<and> dget (tl (lastn n d)) k = None"
proof -
  assume k: "k \<notin> fst ` set d"
  have sub: "set (lastn n d) \<subseteq> set d" unfolding lastn_def by (rule set_drop_subset)
  have "set (tl (lastn n d)) \<subseteq> set (lastn n d)" by (cases "lastn n d") auto
  with sub k show ?thesis by (force simp: map_of_eq_None_iff)
qed

lemma log_entry_represents:
  assumes r: "represents sign es s" and e: "de_entry_id e \<noteq> []" "de_entry_id e \<notin> de_entry_id ` set es"
  shows "represents sign (es @ [e]) (snd (log_entry sign uuid e s))"
proof -
  let ?c = "chain sign [] es" and ?m = "dl_store_maxsize s"
  let ?e = "sealed sign (last_signature [] ?c) e"
  have m: "1 \<le> ?m" and store: "dl_store s = lastn ?m (keyed ?c)"
    and sig: "dl_last_signature s = last_signature [] ?c"
    and saved: "\<forall>saved. dl_backend s = Some saved \<longrightarrow> saved = ?c"
    using r by (simp_all add: represents_def)
  have "set (map de_entry_id ?c) = de_entry_id ` set es" by (simp only: chain_ids set_map)
  then have "de_entry_id e \<notin> fst ` set (keyed ?c)"
    using e(2) by (simp add: keyed_def image_image)
  from lastn_keys [OF this, of ?m]
  have "dl_store (snd (log_entry sign uuid e s)) =
      (if ?m \<le> int (length (lastn ?m (keyed ?c))) then tl (lastn ?m (keyed ?c)) else lastn ?m (keyed ?c)) @
      [(de_entry_id e, ?e)]"
    by (simp add: log_entry_eq [OF e(1)] store sig Let_def dset_fresh)
  also have "\<dots> = lastn ?m (keyed ?c @ [(de_entry_id e, ?e)])"
    by (rule lastn_snoc [OF m, symmetric])
  also have "keyed ?c @ [(de_entry_id e, ?e)] = keyed (chain sign [] (es @ [e]))"
    by (simp add: chain_snoc keyed_def)
  finally have st: "dl_store (snd (log_entry sign uuid e s)) = lastn ?m (keyed (chain sign [] (es @ [e])))" .
  have "last_signature [] (chain sign [] (es @ [e])) = de_entry_signature ?e"
    by (simp add: chain_snoc last_signature_def)
  with m st sig saved show ?thesis
    unfolding represents_def
    by (simp add: log_entry_eq [OF e(1)] Let_def chain_snoc del: sealed_simps(4)) blast
qed

lemma log_all_represents:
  assumes "represents sign xs s" "distinct (map de_entry_id (xs @ es))" "[] \<notin> de_entry_id ` set es"
  shows "represents sign (xs @ es) (log_all sign es s)"
  using assms
proof (induction es arbitrary: xs s)
  case (Cons e es)
  have "represents sign (xs @ [e]) (snd (log_entry sign [] e s))"
    by (rule log_entry_represents) (use Cons.prems in auto)
  from Cons.IH [OF this] Cons.prems show ?case by (simp add: log_all_def)
qed (simp add: log_all_def)

lemma logger_init_represents: "logger_init k backend m = Inr s \<Longrightarrow> backend \<in> {None, Some []} \<Longrightarrow> represents sign [] s"
  by (auto simp: logger_init_def represents_def keyed_def lastn_def last_signature_def split: if_splits)

text \<open>
  C8: the bounded store is a window on the unbounded log.  After any sequence of entries with
  distinct ids, the backend holds exactly those entries, in order, each sealed with the signature of
  its predecessor and signed; the store, whatever its size limit, holds exactly the last of them, never
  more than the limit; every stored entry verifies and is found by its id, and nothing else does.
\<close>

theorem store_is_window_of_log:
  assumes "logger_init key_bytes (Some []) store_maxsize = Inr s0"
    and "distinct (map de_entry_id es)" "[] \<notin> de_entry_id ` set es"
  shows "let s = log_all sign es s0; kept = lastn (max 1 store_maxsize) (chain sign [] es)
    in dl_backend s = Some (chain sign [] es)
     \<and> chain_ok sign [] (chain sign [] es)
     \<and> dvalues (dl_store s) = kept \<and> int (length kept) \<le> max 1 store_maxsize
     \<and> (\<forall>k. verify_entry sign s k \<longleftrightarrow> (\<exists>e \<in> set kept. de_entry_id e = k))
     \<and> (\<forall>k e. get_entry s k = Some e \<longrightarrow> e \<in> set kept \<and> de_entry_id e = k)"
proof -
  let ?s = "log_all sign es s0" and ?n = "max 1 store_maxsize"
  let ?kept = "lastn ?n (chain sign [] es)"
  have r: "represents sign es ?s"
    using log_all_represents [where xs = "[]" and es = es and sign = sign, OF logger_init_represents [OF assms(1)]]
      assms(2,3) by simp
  have keep: "dl_store_maxsize (log_all sign xs s) = dl_store_maxsize s
      \<and> (dl_backend (log_all sign xs s) = None \<longleftrightarrow> dl_backend s = None)" for xs s
    unfolding log_all_def by (induction xs arbitrary: s) (simp_all add: log_entry_def Let_def)
  have n: "dl_store_maxsize ?s = ?n" and b: "dl_backend ?s \<noteq> None"
    using keep [of es s0] assms(1) by (auto simp: logger_init_def split: if_splits)
  have store: "dl_store ?s = keyed ?kept"
    using r n by (simp add: represents_def keyed_def lastn_def drop_map)
  have len: "int (length ?kept) \<le> ?n" by (simp add: lastn_def)
  have sub: "set ?kept \<subseteq> set (chain sign [] es)" unfolding lastn_def by (rule set_drop_subset)
  have dist: "distinct (map de_entry_id ?kept)"
    using assms(2) chain_ids [of sign "[]" es] by (metis distinct_drop drop_map lastn_def)
  have look: "dget (keyed xs) k = Some e \<longleftrightarrow> e \<in> set xs \<and> de_entry_id e = k"
    if "distinct (map de_entry_id xs)" for xs k e
  proof -
    have "dict_ok (keyed xs)" using that by (simp add: dict_ok_def keyed_def o_def)
    from mem_dget [OF this, of k e] show ?thesis by (auto simp: keyed_def)
  qed
  have signed: "de_entry_signature e = sign_entry sign e" if "e \<in> set ?kept" for e
    using that sub chain_ok_signed [OF chain_ok_chain] by blast
  have get: "get_entry ?s k = Some e \<longleftrightarrow> e \<in> set ?kept \<and> de_entry_id e = k" for k e
    using look [OF dist] by (simp add: get_entry_def store)
  have ver: "verify_entry sign ?s k \<longleftrightarrow> (\<exists>e \<in> set ?kept. de_entry_id e = k)" for k
  proof (cases "get_entry ?s k")
    case None
    then show ?thesis using get [of k] by (auto simp: verify_entry_def)
  next
    case (Some e)
    then show ?thesis using get [of k e] signed [of e] by (auto simp: verify_entry_def)
  qed
  have vals: "dvalues (keyed ?kept) = ?kept" by (simp add: keyed_def dvalues_def o_def)
  have "dl_backend ?s = Some (chain sign [] es)" using r b by (auto simp: represents_def)
  with chain_ok_chain store len vals ver get show ?thesis by (simp only: Let_def) blast
qed

definition sample_entry :: "string \<Rightarrow> DecisionLogEntryData" where
  "sample_entry i =
     \<lparr> de_entry_id = i, de_uetr = ''U1'', de_individual_payment_id = ''P1'', de_decision_type = ''OFFER'',
       de_decision_timestamp = 0, de_failure_probability = 1 / 2, de_pd_score = 1 / 10, de_fee_bps = 300,
       de_loan_amount = 1000000, de_dispute_class = ''NOT_DISPUTE'', de_aml_passed = True,
       de_human_override = False, de_degraded_mode = False, de_gpu_fallback = False,
       de_kms_unavailable_gap = None, de_operator_id = None, de_licensee_id = ''BANKA'',
       de_tenant_id = [], de_entry_signature = [], de_prev_signature = [] \<rparr>"

text \<open>A stand-in for the HMAC on the sample entries: injective on them and never empty.\<close>

definition sample_sign :: signer where
  "sample_sign e = ''S'' @ de_entry_id e @ de_prev_signature e"

definition sample_logger :: DecisionLogger where
  "sample_logger = \<lparr> dl_store_maxsize = 2, dl_store = [], dl_backend = Some [], dl_last_signature = [] \<rparr>"

lemma store_is_window_of_log_witness:
  "map de_entry_id (dvalues (dl_store
     (log_all sample_sign [sample_entry ''a'', sample_entry ''b'', sample_entry ''c''] sample_logger))) = [''b'', ''c'']"
proof -
  have "logger_init 32 (Some []) 2 = Inr sample_logger"
    by (simp add: logger_init_def HMAC_KEY_MIN_BYTES_def sample_logger_def)
  from store_is_window_of_log [OF this, of "[sample_entry ''a'', sample_entry ''b'', sample_entry ''c'']" sample_sign]
  show ?thesis
    by (simp add: sample_entry_def Let_def lastn_def)
qed

section \<open>Tampering\<close>

text \<open>Two chains that end in the same signature are the same, as long as no two of their entries collide.\<close>

lemma chain_last_signature_inj:
  assumes "chain_ok sign [] es" "chain_ok sign [] fs"
    and "last_signature [] es = last_signature [] fs"
    and "inj_on sign ((\<lambda>e. e\<lparr>de_entry_signature := []\<rparr>) ` (set es \<union> set fs))"
    and "\<forall>e. sign e \<noteq> []"
  shows "es = fs"
  using assms
proof (induction es arbitrary: fs rule: rev_induct)
  case Nil
  then show ?case
  proof (cases fs rule: rev_cases)
    case (snoc xs f)
    have "de_entry_signature f = sign (f\<lparr>de_entry_signature := []\<rparr>)"
      using Nil.prems(2) by (simp only: snoc chain_ok_snoc sign_entry_def)
    moreover have "de_entry_signature f = []"
      using Nil.prems(3) by (simp add: snoc last_signature_def)
    ultimately show ?thesis using Nil.prems(5) by metis
  qed simp
next
  case (snoc e es)
  let ?strip = "\<lambda>e. e\<lparr>de_entry_signature := []\<rparr>"
  have e: "de_entry_signature e = sign (?strip e)" "de_prev_signature e = last_signature [] es"
    and es: "chain_ok sign [] es"
    using snoc.prems(1) by (simp_all add: chain_ok_snoc sign_entry_def)
  have "de_entry_signature e \<noteq> []" using snoc.prems(5) e(1) by simp
  then have "fs \<noteq> []" using snoc.prems(3) by (auto simp: last_signature_def)
  then obtain xs f where fs: "fs = xs @ [f]" by (metis rev_exhaust)
  have f: "de_entry_signature f = sign (?strip f)" "de_prev_signature f = last_signature [] xs"
    and xs: "chain_ok sign [] xs"
    using snoc.prems(2) by (simp_all add: fs chain_ok_snoc sign_entry_def)
  have sig: "de_entry_signature e = de_entry_signature f"
    using snoc.prems(3) by (simp add: fs last_signature_def)
  have "?strip e = ?strip f"
    using inj_onD [OF snoc.prems(4), of "?strip e" "?strip f"] sig e(1) f(1) by (simp add: fs)
  then have "(?strip e)\<lparr>de_entry_signature := de_entry_signature e\<rparr> =
      (?strip f)\<lparr>de_entry_signature := de_entry_signature f\<rparr>"
    by (simp only: sig)
  moreover have "(?strip d)\<lparr>de_entry_signature := de_entry_signature d\<rparr> = d" for d :: DecisionLogEntryData
    by (cases d) simp
  ultimately have "e = f" by (simp only:)
  moreover have "es = xs"
  proof (rule snoc.IH [OF es xs _ _ snoc.prems(5)])
    show "last_signature [] es = last_signature [] xs"
      using e(2) f(2) \<open>e = f\<close> by simp
    show "inj_on sign (?strip ` (set es \<union> set xs))"
      by (rule inj_on_subset [OF snoc.prems(4)]) (auto simp: fs)
  qed
  ultimately show ?case by (simp add: fs)
qed

text \<open>What \<open>log\<close> writes: any calls, with the ids it draws for the entries that have none.\<close>

definition log_calls :: "signer \<Rightarrow> (string \<times> DecisionLogEntryData) list \<Rightarrow> DecisionLogger \<Rightarrow> DecisionLogger" where
  "log_calls sign calls s = fold (\<lambda>(uuid, e) s. snd (log_entry sign uuid e s)) calls s"

lemma log_entry_chained:
  assumes "dl_backend s = Some saved" "chain_ok sign [] saved" "dl_last_signature s = last_signature [] saved"
  shows "\<exists>e'. dl_backend (snd (log_entry sign uuid e s)) = Some (saved @ [e']) \<and> chain_ok sign [] (saved @ [e']) \<and>
    dl_last_signature (snd (log_entry sign uuid e s)) = last_signature [] (saved @ [e'])"
  using assms by (auto simp: log_entry_def Let_def chain_ok_snoc last_signature_def sign_entry_def)

lemma log_calls_chained:
  assumes "dl_backend s = Some saved" "chain_ok sign [] saved" "dl_last_signature s = last_signature [] saved"
  shows "\<exists>saved'. dl_backend (log_calls sign calls s) = Some saved' \<and> chain_ok sign [] saved' \<and>
    dl_last_signature (log_calls sign calls s) = last_signature [] saved' \<and>
    length saved' = length saved + length calls"
  using assms
proof (induction calls arbitrary: s saved)
  case (Cons call calls)
  obtain uuid e where call: "call = (uuid, e)" by fastforce
  from log_entry_chained [OF Cons.prems, of uuid e] obtain e' where
    "dl_backend (snd (log_entry sign uuid e s)) = Some (saved @ [e'])" "chain_ok sign [] (saved @ [e'])"
    "dl_last_signature (snd (log_entry sign uuid e s)) = last_signature [] (saved @ [e'])" by blast
  from Cons.IH [OF this] show ?case by (simp add: log_calls_def call)
qed (auto simp: log_calls_def)

lemma log_calls_from_init:
  "logger_init k (Some []) m = Inr s0 \<Longrightarrow>
   \<exists>saved. dl_backend (log_calls sign calls s0) = Some saved \<and> chain_ok sign [] saved \<and>
     dl_last_signature (log_calls sign calls s0) = last_signature [] saved \<and> length saved = length calls"
proof -
  assume "logger_init k (Some []) m = Inr s0"
  then have "dl_backend s0 = Some []" "dl_last_signature s0 = last_signature [] []"
    by (auto simp: logger_init_def last_signature_def split: if_splits)
  with log_calls_chained [of s0 "[]" sign calls] show ?thesis by simp
qed

text \<open>
  C16: the last signature commits to the whole log.  Take two loggers with fresh backends and log
  anything to each, entries with repeated ids or none included.  If they end in the same last signature,
  and the signature is never empty and tells the saved entries apart, then the two backends hold the same
  entries in the same order: a chain, each entry signed and linked to the signature before it, of as many
  entries as there were calls to either logger.  So no entry can be altered, dropped, inserted or moved
  in what \<open>log\<close> writes without changing the signature it ends in.
\<close>

theorem equal_last_signature_equal_log:
  assumes "logger_init k (Some []) m = Inr s0" "logger_init k' (Some []) m' = Inr t0"
    and "dl_last_signature (log_calls sign xs s0) = dl_last_signature (log_calls sign ys t0)"
    and "inj_on sign ((\<lambda>e. e\<lparr>de_entry_signature := []\<rparr>) `
      (set (the (dl_backend (log_calls sign xs s0))) \<union> set (the (dl_backend (log_calls sign ys t0)))))"
    and "\<forall>e. sign e \<noteq> []"
  shows "\<exists>saved. dl_backend (log_calls sign xs s0) = Some saved \<and> dl_backend (log_calls sign ys t0) = Some saved \<and>
    chain_ok sign [] saved \<and> length saved = length xs \<and> length saved = length ys"
proof -
  from log_calls_from_init [OF assms(1)] obtain es where
    es: "dl_backend (log_calls sign xs s0) = Some es" "chain_ok sign [] es"
    "dl_last_signature (log_calls sign xs s0) = last_signature [] es" "length es = length xs" by blast
  from log_calls_from_init [OF assms(2)] obtain fs where
    fs: "dl_backend (log_calls sign ys t0) = Some fs" "chain_ok sign [] fs"
    "dl_last_signature (log_calls sign ys t0) = last_signature [] fs" "length fs = length ys" by blast
  have "es = fs"
    by (rule chain_last_signature_inj [OF es(2) fs(2)]) (use assms(3-5) es fs in simp_all)
  with es fs show ?thesis by simp
qed

text \<open>Two entries logged in either order: the last signatures differ.\<close>

lemma equal_last_signature_equal_log_witness:
  "dl_last_signature (log_calls sample_sign [([], sample_entry ''a''), ([], sample_entry ''b'')] sample_logger) \<noteq>
   dl_last_signature (log_calls sample_sign [([], sample_entry ''b''), ([], sample_entry ''a'')] sample_logger)"
proof
  let ?ab = "log_calls sample_sign [([], sample_entry ''a''), ([], sample_entry ''b'')] sample_logger"
    and ?ba = "log_calls sample_sign [([], sample_entry ''b''), ([], sample_entry ''a'')] sample_logger"
  assume same: "dl_last_signature ?ab = dl_last_signature ?ba"
  have init: "logger_init 32 (Some []) 2 = Inr sample_logger"
    by (simp add: logger_init_def HMAC_KEY_MIN_BYTES_def sample_logger_def)
  note evaluate = log_calls_def log_entry_def sample_logger_def sample_sign_def sign_entry_def sample_entry_def Let_def
  have apart: "inj_on sample_sign ((\<lambda>e. e\<lparr>de_entry_signature := []\<rparr>) `
      (set (the (dl_backend ?ab)) \<union> set (the (dl_backend ?ba))))"
    by (simp add: evaluate)
  have "dl_backend ?ab = dl_backend ?ba"
    using equal_last_signature_equal_log [OF init init same apart] by (auto simp: sample_sign_def)
  then show False by (simp add: evaluate)
qed

end
