(* ===== verification/Case_Registry.thy ===== *)
theory Case_Registry
  imports Py_Base
begin

text \<open>
  The contract of the program's registries keyed by BIC: keys are compared in upper case, a lookup sees
  the last registration or removal of its key.  Shown: over any history a lookup finds what the last
  entry of the history for the same BIC, in whatever case it was written, left there.  The borrower and
  the known-entity registry provide it.
\<close>

datatype 'v registry_op = Put string 'v | Remove string

fun op_key :: "'v registry_op \<Rightarrow> string" where
  "op_key (Put k v) = k"
| "op_key (Remove k) = k"

fun op_value :: "'v registry_op \<Rightarrow> 'v option" where
  "op_value (Put k v) = Some v"
| "op_value (Remove k) = None"

text \<open>The last entry for a BIC decides; without one, what was there before.\<close>

definition last_for :: "'v registry_op list \<Rightarrow> string \<Rightarrow> 'v option \<Rightarrow> 'v option" where
  "last_for ops k before =
     (case filter (\<lambda>opn. py_upper (op_key opn) = py_upper k) (rev ops) of
        [] \<Rightarrow> before
      | opn # _ \<Rightarrow> op_value opn)"

lemma last_for_snoc:
  "last_for (ops @ [opn]) k before =
     (if py_upper (op_key opn) = py_upper k then op_value opn else last_for ops k before)"
  by (simp add: last_for_def)

lemma last_for_case: "py_upper k = py_upper k' \<Longrightarrow> last_for ops k b = last_for ops k' b"
  by (simp add: last_for_def)

locale case_registry =
  fixes find :: "'s \<Rightarrow> string \<Rightarrow> 'v option"
    and put :: "'s \<Rightarrow> string \<Rightarrow> 'v \<Rightarrow> 's"
    and remove :: "'s \<Rightarrow> string \<Rightarrow> 's"
    and inv :: "'s \<Rightarrow> bool"
  assumes find_put: "inv s \<Longrightarrow> find (put s k v) k' = (if py_upper k' = py_upper k then Some v else find s k')"
    and find_remove: "inv s \<Longrightarrow> find (remove s k) k' = (if py_upper k' = py_upper k then None else find s k')"
    and find_upper: "find s (py_upper k) = find s k"
    and inv_put: "inv s \<Longrightarrow> inv (put s k v)"
    and inv_remove: "inv s \<Longrightarrow> inv (remove s k)"
begin

definition apply_op :: "'v registry_op \<Rightarrow> 's \<Rightarrow> 's" where
  "apply_op opn s = (case opn of Put k v \<Rightarrow> put s k v | Remove k \<Rightarrow> remove s k)"

lemma find_apply:
  "inv s \<Longrightarrow> find (apply_op opn s) k =
     (if py_upper (op_key opn) = py_upper k then op_value opn else find s k)"
  by (cases opn) (auto simp: apply_op_def find_put find_remove)

lemma inv_apply: "inv s \<Longrightarrow> inv (apply_op opn s)"
  by (cases opn) (simp_all add: apply_op_def inv_put inv_remove)

lemma inv_history: "inv s \<Longrightarrow> inv (fold apply_op ops s)"
  by (induction ops arbitrary: s) (simp_all add: inv_apply)

theorem find_history: "inv s \<Longrightarrow> find (fold apply_op ops s) k = last_for ops k (find s k)"
proof (induction ops rule: rev_induct)
  case (snoc opn ops)
  then show ?case by (simp add: find_apply inv_history last_for_snoc)
qed (simp add: last_for_def)

lemma find_case: "py_upper k = py_upper k' \<Longrightarrow> find s k = find s k'"
  by (metis find_upper)

end

end
