(* ===== verification/Borrower_Registry.thy ===== *)
theory Borrower_Registry
  imports Case_Registry
begin

text \<open>
  \<open>lip/common/borrower_registry.py\<close>: the BICs that may receive offers.  The four Redis set commands the
  class issues are a parameter, \<open>redis_sets\<close>, with their documented behaviour in \<open>redis_set_laws\<close>; \<open>up\<close>
  says whether the server answers the call, and a failed command is logged and forgotten, as in the
  source.  Reads look in memory first and cache what they find in Redis.

  Shown: while the server answers (or without one) the registry is a \<open>case_registry\<close>; a BIC unenrolled
  while the server is down is enrolled again by the first lookup after it is back.
\<close>

record 'r redis_sets =
  redis_smembers :: "'r \<Rightarrow> string \<Rightarrow> string list"
  redis_sismember :: "'r \<Rightarrow> string \<Rightarrow> string \<Rightarrow> bool"
  redis_sadd :: "'r \<Rightarrow> string \<Rightarrow> string \<Rightarrow> 'r"
  redis_srem :: "'r \<Rightarrow> string \<Rightarrow> string \<Rightarrow> 'r"

definition redis_set_laws :: "'r redis_sets \<Rightarrow> bool" where
  "redis_set_laws S \<longleftrightarrow>
     (\<forall>r k m. redis_sismember S r k m \<longleftrightarrow> m \<in> set (redis_smembers S r k)) \<and>
     (\<forall>r k m k' m'. redis_sismember S (redis_sadd S r k m) k' m' \<longleftrightarrow>
        k' = k \<and> m' = m \<or> redis_sismember S r k' m') \<and>
     (\<forall>r k m k' m'. redis_sismember S (redis_srem S r k m) k' m' \<longleftrightarrow>
        \<not> (k' = k \<and> m' = m) \<and> redis_sismember S r k' m')"

lemma smembers_set: "redis_set_laws S \<Longrightarrow> set (redis_smembers S r k) = {m. redis_sismember S r k m}"
proof -
  assume "redis_set_laws S"
  then have "\<forall>r k m. redis_sismember S r k m \<longleftrightarrow> m \<in> set (redis_smembers S r k)"
    unfolding redis_set_laws_def by (elim conjE)
  then show ?thesis by simp
qed

lemma sismember_sadd:
  "redis_set_laws S \<Longrightarrow>
   redis_sismember S (redis_sadd S r k m) k' m' \<longleftrightarrow> k' = k \<and> m' = m \<or> redis_sismember S r k' m'"
  unfolding redis_set_laws_def by (elim conjE) (simp only: simp_thms)

lemma sismember_srem:
  "redis_set_laws S \<Longrightarrow>
   redis_sismember S (redis_srem S r k m) k' m' \<longleftrightarrow> \<not> (k' = k \<and> m' = m) \<and> redis_sismember S r k' m'"
  unfolding redis_set_laws_def by (elim conjE) (simp only: simp_thms)

lemmas redis_set_simps = smembers_set sismember_sadd sismember_srem

definition BORROWER_KEY :: string where "BORROWER_KEY = ''lip:borrower:enrolled''"

record 'r BorrowerRegistry =
  br_redis :: "'r option"
  br_enrolled :: "string set"

definition load_enrolled :: "'r redis_sets \<Rightarrow> bool \<Rightarrow> 'r BorrowerRegistry \<Rightarrow> 'r BorrowerRegistry" where
  "load_enrolled S up s =
     (case br_redis s of
        None \<Rightarrow> s
      | Some r \<Rightarrow>
          if up then s\<lparr>br_enrolled := br_enrolled s \<union> py_upper ` set (redis_smembers S r BORROWER_KEY)\<rparr>
          else s)"

definition borrower_init :: "'r redis_sets \<Rightarrow> bool \<Rightarrow> string list \<Rightarrow> 'r option \<Rightarrow> 'r BorrowerRegistry" where
  "borrower_init S up enrolled_bics redis =
     load_enrolled S up \<lparr> br_redis = redis, br_enrolled = py_upper ` set enrolled_bics \<rparr>"

definition enroll :: "'r redis_sets \<Rightarrow> bool \<Rightarrow> 'r BorrowerRegistry \<Rightarrow> string \<Rightarrow> 'r BorrowerRegistry" where
  "enroll S up s bic =
     (let normalized = py_upper bic; s = s\<lparr>br_enrolled := insert normalized (br_enrolled s)\<rparr>
      in case br_redis s of
           None \<Rightarrow> s
         | Some r \<Rightarrow> if up then s\<lparr>br_redis := Some (redis_sadd S r BORROWER_KEY normalized)\<rparr> else s)"

definition unenroll :: "'r redis_sets \<Rightarrow> bool \<Rightarrow> 'r BorrowerRegistry \<Rightarrow> string \<Rightarrow> 'r BorrowerRegistry" where
  "unenroll S up s bic =
     (let normalized = py_upper bic; s = s\<lparr>br_enrolled := br_enrolled s - {normalized}\<rparr>
      in case br_redis s of
           None \<Rightarrow> s
         | Some r \<Rightarrow> if up then s\<lparr>br_redis := Some (redis_srem S r BORROWER_KEY normalized)\<rparr> else s)"

definition is_enrolled :: "'r redis_sets \<Rightarrow> bool \<Rightarrow> 'r BorrowerRegistry \<Rightarrow> string \<Rightarrow> bool \<times> 'r BorrowerRegistry" where
  "is_enrolled S up s bic =
     (let normalized = py_upper bic
      in if normalized \<in> br_enrolled s then (True, s)
         else case br_redis s of
                None \<Rightarrow> (False, s)
              | Some r \<Rightarrow>
                  if up \<and> redis_sismember S r BORROWER_KEY normalized
                  then (True, s\<lparr>br_enrolled := insert normalized (br_enrolled s)\<rparr>)
                  else (False, s))"

definition list_enrolled :: "'r BorrowerRegistry \<Rightarrow> string set" where
  "list_enrolled s = br_enrolled s"

lemmas borrower_defs = enroll_def unenroll_def is_enrolled_def

section \<open>The contract\<close>

definition enrolled :: "'r redis_sets \<Rightarrow> 'r BorrowerRegistry \<Rightarrow> string \<Rightarrow> unit option" where
  "enrolled S s bic = (if fst (is_enrolled S True s bic) then Some () else None)"

lemma borrower_case_registry:
  assumes "redis_set_laws S"
  shows "case_registry (enrolled S) (\<lambda>s k v. enroll S True s k) (unenroll S True) (\<lambda>_. True)"
  by unfold_locales
    (auto simp: enrolled_def borrower_defs Let_def redis_set_simps [OF assms] split: option.splits)

interpretation memory_borrowers: case_registry "enrolled S" "\<lambda>s k v. enroll S up s k" "unenroll S up"
  "\<lambda>s. br_redis s = None" for S up
  by unfold_locales (auto simp: enrolled_def borrower_defs Let_def split: option.splits)

text \<open>A concrete server, to show that the laws can hold.\<close>

definition list_sets :: "(string \<Rightarrow> string list) redis_sets" where
  "list_sets =
     \<lparr> redis_smembers = (\<lambda>r k. r k), redis_sismember = (\<lambda>r k m. m \<in> set (r k)),
       redis_sadd = (\<lambda>r k m. r(k := m # r k)), redis_srem = (\<lambda>r k m. r(k := removeAll m (r k))) \<rparr>"

lemma list_sets_laws: "redis_set_laws list_sets"
  by (auto simp: redis_set_laws_def list_sets_def)

interpretation redis_borrowers: case_registry "enrolled list_sets" "\<lambda>s k v. enroll list_sets True s k"
  "unenroll list_sets True" "\<lambda>_. True"
  by (rule borrower_case_registry [OF list_sets_laws])

section \<open>Properties\<close>

definition borrower_op :: "'r redis_sets \<Rightarrow> unit registry_op \<Rightarrow> 'r BorrowerRegistry \<Rightarrow> 'r BorrowerRegistry" where
  "borrower_op S opn s = (case opn of Put bic u \<Rightarrow> enroll S True s bic | Remove bic \<Rightarrow> unenroll S True s bic)"

text \<open>
  Enrolment follows the last decision.  With a Redis server that obeys its documented behaviour
  and answers, or without one, after any history of enrolments and revocations a BIC is enrolled
  exactly when the last of them for that BIC, however it was capitalised, was an enrolment; without
  one, when it was enrolled before.  Asking changes nothing about any answer.
\<close>

lemma enrolment_follows_last_decision:
  assumes "redis_set_laws S"
  shows "(fst (is_enrolled S True (fold (borrower_op S) ops s) bic) \<longleftrightarrow>
      last_for ops bic (enrolled S s bic) = Some ())
    \<and> (\<forall>bic'. enrolled S (snd (is_enrolled S True s bic)) bic' = enrolled S s bic')"
proof -
  note reg = borrower_case_registry [OF assms]
  have "borrower_op S = case_registry.apply_op (\<lambda>s k v. enroll S True s k) (unenroll S True)"
    by (intro ext) (simp add: borrower_op_def case_registry.apply_op_def [OF reg])
  then have "enrolled S (fold (borrower_op S) ops s) bic = last_for ops bic (enrolled S s bic)"
    using case_registry.find_history [OF reg TrueI] by simp
  then show ?thesis
    by (auto simp: enrolled_def is_enrolled_def Let_def split: if_splits option.splits)
qed

lemma enrolment_follows_last_decision_witness:
  "fst (is_enrolled list_sets True (fold (borrower_op list_sets) [Put ''abcdus33'' (), Put ''XYZ'' (), Remove ''xyz'']
      (borrower_init list_sets True [] (Some (\<lambda>_. [])))) ''ABCDUS33'')"
proof -
  have u: "py_upper ''abcdus33'' = ''ABCDUS33''" "py_upper ''ABCDUS33'' = ''ABCDUS33''"
    "py_upper ''XYZ'' = ''XYZ''" "py_upper ''xyz'' = ''XYZ''" by code_simp+
  then have "last_for [Put ''abcdus33'' (), Put ''XYZ'' (), Remove ''xyz''] ''ABCDUS33'' b = Some ()" for b
    by (simp add: last_for_def)
  then show ?thesis
    using enrolment_follows_last_decision [OF list_sets_laws, of
      "[Put ''abcdus33'' (), Put ''XYZ'' (), Remove ''xyz'']" "borrower_init list_sets True [] (Some (\<lambda>_. []))"
      "''ABCDUS33''"] by blast
qed

text \<open>
  A revocation made during an outage is undone.  If a BIC that the Redis server lists is
  unenrolled while the server does not answer, the call returns normally and the BIC is no longer
  listed in memory; but the first lookup that reaches the server, in whatever case, finds it there,
  reports it as enrolled and puts it back in memory, where it stays.
\<close>

lemma revocation_in_outage_is_undone:
  assumes "br_redis s = Some r" "redis_sismember S r BORROWER_KEY (py_upper bic)"
    and "py_upper bic' = py_upper bic"
  shows "let s1 = unenroll S False s bic; s2 = snd (is_enrolled S True s1 bic')
    in py_upper bic \<notin> list_enrolled s1
     \<and> fst (is_enrolled S True s1 bic')
     \<and> py_upper bic \<in> list_enrolled s2 \<and> fst (is_enrolled S False s2 bic)"
  using assms by (simp add: borrower_defs list_enrolled_def Let_def)

lemma revocation_in_outage_is_undone_witness:
  "let s = enroll list_sets True (borrower_init list_sets True [] (Some (\<lambda>_. []))) ''ABCDUS33'';
       s1 = unenroll list_sets False s ''ABCDUS33''
   in fst (is_enrolled list_sets True s1 ''abcdus33'')"
proof -
  let ?s = "enroll list_sets True (borrower_init list_sets True [] (Some (\<lambda>_. []))) ''ABCDUS33''"
  have s: "br_redis ?s = Some ((\<lambda>_. [])(BORROWER_KEY := [py_upper ''ABCDUS33'']))"
    by (simp add: borrower_init_def load_enrolled_def enroll_def list_sets_def Let_def)
  have m: "redis_sismember list_sets ((\<lambda>_. [])(BORROWER_KEY := [py_upper ''ABCDUS33''])) BORROWER_KEY (py_upper ''ABCDUS33'')"
    by (simp add: list_sets_def)
  have c: "py_upper ''abcdus33'' = py_upper ''ABCDUS33''" by code_simp
  show ?thesis using revocation_in_outage_is_undone [OF s m c] by (simp add: Let_def)
qed

end
