(* ===== verification/Known_Entities.thy ===== *)
theory Known_Entities
  imports Case_Registry Redis_Api Py_Value
begin

text \<open>
  \<open>lip/c2_pd_model/tier_assignment.py\<close>, \<open>lip/common/known_entity_registry.py\<close> and the tier resolution of
  \<open>lip/c2_pd_model/inference.py\<close>.  The registry keeps its overrides in memory and, when given a Redis
  client, under one key per BIC; the keys a full \<open>SCAN\<close> returns are an argument of the constructor's
  model.  Failed commands are logged and forgotten.

  Shown: the tier rule is monotone in the data available; the registry is a \<open>case_registry\<close> while the
  server answers; a registered override always decides the tier.
\<close>

datatype Tier = TIER_1 | TIER_2 | TIER_3

record TierFeatures =
  has_financial_statements :: bool
  has_transaction_history :: bool
  has_credit_bureau :: bool
  months_history :: int
  transaction_count :: int

definition assign_tier :: "TierFeatures \<Rightarrow> Tier" where
  "assign_tier f =
     (if has_financial_statements f \<and> has_credit_bureau f \<and> months_history f \<ge> 24 \<and> transaction_count f \<ge> 100
      then TIER_1
      else if has_transaction_history f \<and> months_history f \<ge> 6 \<and> transaction_count f \<ge> 12 then TIER_2
      else TIER_3)"

fun tier_value :: "Tier \<Rightarrow> int" where
  "tier_value TIER_1 = 1"
| "tier_value TIER_2 = 2"
| "tier_value TIER_3 = 3"

fun tier_one_hot :: "Tier \<Rightarrow> int list" where
  "tier_one_hot TIER_1 = [1, 0, 0]"
| "tier_one_hot TIER_2 = [0, 1, 0]"
| "tier_one_hot TIER_3 = [0, 0, 1]"

text \<open>\<open>Tier(n)\<close>, and \<open>Tier(int(val))\<close> of a stored string.\<close>

definition tier_of_int :: "int \<Rightarrow> py_exc + Tier" where
  "tier_of_int n =
     (if n = 1 then Inr TIER_1 else if n = 2 then Inr TIER_2 else if n = 3 then Inr TIER_3 else Inl ValueError)"

definition tier_of_string :: "string \<Rightarrow> py_exc + Tier" where
  "tier_of_string val =
     (case signed_digits (py_strip val) of None \<Rightarrow> Inl ValueError | Some n \<Rightarrow> tier_of_int n)"

fun tier_string :: "Tier \<Rightarrow> string" where
  "tier_string TIER_1 = ''1''"
| "tier_string TIER_2 = ''2''"
| "tier_string TIER_3 = ''3''"

lemma tier_roundtrip: "tier_of_string (tier_string t) = Inr t"
  by (cases t) (simp_all add: tier_of_string_def tier_of_int_def py_strip_def py_space_def signed_digits_def
      is_digit_def digits_value_def digit_value_def Let_def)

section \<open>The registry\<close>

definition KNOWN_ENTITY_PREFIX :: string where "KNOWN_ENTITY_PREFIX = ''lip:known_entity:''"

definition known_key :: "string \<Rightarrow> string" where
  "known_key normalized = KNOWN_ENTITY_PREFIX @ normalized"

record 'r KnownEntityRegistry =
  ke_redis :: "'r option"
  ke_overrides :: "(string, Tier) dict"

text \<open>The loop over the scanned keys: a value that does not parse ends it, with what was read so far.\<close>

fun load_keys :: "'r redis_api \<Rightarrow> 'r \<Rightarrow> time \<Rightarrow> string list \<Rightarrow> (string, Tier) dict \<Rightarrow> (string, Tier) dict" where
  "load_keys R r now [] overrides = overrides"
| "load_keys R r now (key # keys) overrides =
     (let bic = drop (length KNOWN_ENTITY_PREFIX) key
      in case redis_get R r now key of
           None \<Rightarrow> load_keys R r now keys overrides
         | Some val \<Rightarrow>
             (case tier_of_string val of
                Inl _ \<Rightarrow> overrides
              | Inr tier \<Rightarrow> load_keys R r now keys (dset (py_upper bic) tier overrides)))"

definition known_init ::
    "'r redis_api \<Rightarrow> bool \<Rightarrow> time \<Rightarrow> string list \<Rightarrow> (string, Tier) dict \<Rightarrow> 'r option \<Rightarrow> 'r KnownEntityRegistry" where
  "known_init R up now scanned overrides redis =
     (let own = fold (\<lambda>(bic, tier) d. dset (py_upper bic) tier d) overrides []
      in \<lparr> ke_redis = redis,
           ke_overrides = (case redis of
             None \<Rightarrow> own | Some r \<Rightarrow> if up then load_keys R r now scanned own else own) \<rparr>)"

definition known_register :: "'r redis_api \<Rightarrow> bool \<Rightarrow> 'r KnownEntityRegistry \<Rightarrow> time \<Rightarrow> string \<Rightarrow> Tier \<Rightarrow> 'r KnownEntityRegistry" where
  "known_register R up s now bic tier =
     (let normalized = py_upper bic; s = s\<lparr>ke_overrides := dset normalized tier (ke_overrides s)\<rparr>
      in case ke_redis s of
           None \<Rightarrow> s
         | Some r \<Rightarrow>
             if up then s\<lparr>ke_redis := Some (redis_set R r now (known_key normalized) (tier_string tier))\<rparr>
             else s)"

definition known_unregister :: "'r redis_api \<Rightarrow> bool \<Rightarrow> 'r KnownEntityRegistry \<Rightarrow> time \<Rightarrow> string \<Rightarrow> 'r KnownEntityRegistry" where
  "known_unregister R up s now bic =
     (let normalized = py_upper bic; s = s\<lparr>ke_overrides := dpop normalized (ke_overrides s)\<rparr>
      in case ke_redis s of
           None \<Rightarrow> s
         | Some r \<Rightarrow>
             if up then s\<lparr>ke_redis := Some (snd (redis_delete R r now (known_key normalized)))\<rparr> else s)"

definition known_lookup :: "'r redis_api \<Rightarrow> bool \<Rightarrow> 'r KnownEntityRegistry \<Rightarrow> time \<Rightarrow> string \<Rightarrow> Tier option \<times> 'r KnownEntityRegistry" where
  "known_lookup R up s now bic =
     (let normalized = py_upper bic
      in case dget (ke_overrides s) normalized of
           Some tier \<Rightarrow> (Some tier, s)
         | None \<Rightarrow>
             (case ke_redis s of
                None \<Rightarrow> (None, s)
              | Some r \<Rightarrow>
                  if \<not> up then (None, s)
                  else case redis_get R r now (known_key normalized) of
                         None \<Rightarrow> (None, s)
                       | Some val \<Rightarrow>
                           (case tier_of_string val of
                              Inl _ \<Rightarrow> (None, s)
                            | Inr tier \<Rightarrow>
                                (Some tier, s\<lparr>ke_overrides := dset normalized tier (ke_overrides s)\<rparr>))))"

definition is_registered :: "'r redis_api \<Rightarrow> bool \<Rightarrow> 'r KnownEntityRegistry \<Rightarrow> time \<Rightarrow> string \<Rightarrow> bool" where
  "is_registered R up s now bic \<longleftrightarrow> fst (known_lookup R up s now bic) \<noteq> None"

definition list_all_known :: "'r KnownEntityRegistry \<Rightarrow> (string, Tier) dict" where
  "list_all_known s = ke_overrides s"

lemmas known_defs = known_register_def known_unregister_def known_lookup_def

text \<open>One process at a time \<open>t\<close>: the commands of an instant.\<close>

lemma known_case_registry:
  assumes "redis_laws R"
  shows "case_registry (\<lambda>s bic. fst (known_lookup R True s t bic)) (\<lambda>s. known_register R True s t)
    (\<lambda>s. known_unregister R True s t) (\<lambda>_. True)"
  by unfold_locales
    (auto simp: known_defs Let_def dict_simps redis_get_set [OF assms] redis_get_delete [OF assms]
      tier_roundtrip known_key_def split: option.splits sum.splits)

interpretation map_known: case_registry "\<lambda>s bic. fst (known_lookup map_redis True s t bic)"
  "\<lambda>s. known_register map_redis True s t" "\<lambda>s. known_unregister map_redis True s t" "\<lambda>_. True" for t
  by (rule known_case_registry [OF map_redis_laws])

interpretation memory_known: case_registry "\<lambda>s bic. fst (known_lookup R up s t bic)"
  "\<lambda>s. known_register R up s t" "\<lambda>s. known_unregister R up s t" "\<lambda>s. ke_redis s = None" for R up t
  by unfold_locales (auto simp: known_defs Let_def dict_simps split: option.splits)

section \<open>Tiers\<close>

text \<open>\<open>_resolve_tier\<close> of the C2 inference engine; \<open>borrower\<close> is the dictionary it is given.\<close>

definition tier_features :: "(string \<rightharpoonup> pyval) \<Rightarrow> py_exc + TierFeatures" where
  "tier_features borrower =
     (let flag = \<lambda>k. (case borrower k of None \<Rightarrow> False | Some v \<Rightarrow> truth v);
          count = \<lambda>k. (case borrower k of None \<Rightarrow> Inr 0 | Some v \<Rightarrow> py_int v)
      in res_bind (count ''months_history'') (\<lambda>months.
         res_bind (count ''transaction_count'') (\<lambda>transactions.
           Inr \<lparr> has_financial_statements = flag ''has_financial_statements'',
                 has_transaction_history = flag ''has_transaction_history'',
                 has_credit_bureau = flag ''has_credit_bureau'',
                 months_history = months, transaction_count = transactions \<rparr>)))"

definition resolve_tier ::
    "'r redis_api \<Rightarrow> bool \<Rightarrow> time \<Rightarrow> 'r KnownEntityRegistry option \<Rightarrow> bool \<Rightarrow> Tier \<Rightarrow> string \<Rightarrow>
     (string \<rightharpoonup> pyval) \<Rightarrow> py_exc + Tier" where
  "resolve_tier R up now registry auto_tier base_tier bic borrower =
     (case (case registry of None \<Rightarrow> None | Some s \<Rightarrow> fst (known_lookup R up s now bic)) of
        Some override \<Rightarrow> Inr override
      | None \<Rightarrow>
          if \<not> auto_tier then Inr base_tier
          else res_bind (tier_features borrower) (\<lambda>tf. Inr (assign_tier tf)))"

definition more_data :: "TierFeatures \<Rightarrow> TierFeatures \<Rightarrow> bool" where
  "more_data f g \<longleftrightarrow>
     (has_financial_statements f \<longrightarrow> has_financial_statements g) \<and>
     (has_transaction_history f \<longrightarrow> has_transaction_history g) \<and>
     (has_credit_bureau f \<longrightarrow> has_credit_bureau g) \<and>
     months_history f \<le> months_history g \<and> transaction_count f \<le> transaction_count g"

lemma tier_rule_monotone:
  assumes "more_data f g" shows "tier_value (assign_tier g) \<le> tier_value (assign_tier f)"
proof -
  have "has_transaction_history f \<Longrightarrow> has_transaction_history g" using assms by (simp add: more_data_def)
  moreover have "1 \<le> tier_value t \<and> tier_value t \<le> 3" for t by (cases t) simp_all
  ultimately show ?thesis using assms by (auto simp: assign_tier_def more_data_def)
qed

definition known_op :: "'r redis_api \<Rightarrow> time \<Rightarrow> Tier registry_op \<Rightarrow> 'r KnownEntityRegistry \<Rightarrow> 'r KnownEntityRegistry" where
  "known_op R now opn s =
     (case opn of Put bic tier \<Rightarrow> known_register R True s now bic tier | Remove bic \<Rightarrow> known_unregister R True s now bic)"

text \<open>
  A manual override decides the tier, and the latest decision about a BIC wins.  After any
  history of registrations and removals on a registry, with a Redis server that obeys its documented
  behaviour and answers, or without one, starting from nothing registered for the BIC: if the last entry
  for the BIC, however capitalised, registered a tier, that is the tier of a borrower with that BIC
  whatever its data; otherwise it is the tier of the data rule, where more data never gives a worse
  tier.
\<close>

theorem override_decides_tier:
  assumes "redis_laws R" "fst (known_lookup R True s now bic) = None" "tier_features borrower = Inr f"
  shows "resolve_tier R True now (Some (fold (known_op R now) ops s)) True base bic borrower =
      Inr (case last_for ops bic None of Some tier \<Rightarrow> tier | None \<Rightarrow> assign_tier f)
    \<and> (\<forall>g. more_data f g \<longrightarrow> tier_value (assign_tier g) \<le> tier_value (assign_tier f))"
proof -
  note reg = known_case_registry [OF assms(1), of now]
  have "known_op R now = case_registry.apply_op (\<lambda>s. known_register R True s now) (\<lambda>s. known_unregister R True s now)"
    by (intro ext) (simp add: known_op_def case_registry.apply_op_def [OF reg])
  then have "fst (known_lookup R True (fold (known_op R now) ops s) now bic) = last_for ops bic None"
    using case_registry.find_history [OF reg TrueI, of ops s bic] assms(2) by simp
  then show ?thesis
    using tier_rule_monotone assms(3) by (auto simp: resolve_tier_def split: option.splits)
qed

lemma override_decides_tier_witness:
  "resolve_tier map_redis True 5 (Some (fold (known_op map_redis 5)
      [Put ''jpmorgan'' TIER_2, Put ''JPMorgan'' TIER_1, Remove ''OTHER'']
      \<lparr> ke_redis = Some Map.empty, ke_overrides = [] \<rparr>)) True TIER_3 ''JPMORGAN'' Map.empty = Inr TIER_1"
proof -
  let ?s = "\<lparr> ke_redis = Some Map.empty, ke_overrides = [] \<rparr> :: redis_map KnownEntityRegistry"
  have none: "fst (known_lookup map_redis True ?s 5 ''JPMORGAN'') = None"
    by (simp add: known_lookup_def map_redis_def map_redis_get_def Let_def)
  have data: "tier_features Map.empty = Inr \<lparr> has_financial_statements = False, has_transaction_history = False,
      has_credit_bureau = False, months_history = 0, transaction_count = 0 \<rparr>"
    by (simp add: tier_features_def Let_def)
  have u: "py_upper ''jpmorgan'' = ''JPMORGAN''" "py_upper ''JPMorgan'' = ''JPMORGAN''"
    "py_upper ''JPMORGAN'' = ''JPMORGAN''" "py_upper ''OTHER'' = ''OTHER''" by code_simp+
  then have "last_for [Put ''jpmorgan'' TIER_2, Put ''JPMorgan'' TIER_1, Remove ''OTHER''] ''JPMORGAN'' None = Some TIER_1"
    by (simp add: last_for_def)
  then show ?thesis
    using override_decides_tier [OF map_redis_laws none data, of
        "[Put ''jpmorgan'' TIER_2, Put ''JPMorgan'' TIER_1, Remove ''OTHER'']" TIER_3] by simp
qed

end
