(* ===== verification/Offer_Book.thy ===== *)
theory Offer_Book
  imports Py_Value
begin

text \<open>
  The contract of offer delivery, and the records of \<open>lip/common/schemas.py\<close> it is stated with.  An offer
  book maps an offer id to what was delivered and the offer's status; \<open>spec_resolve\<close> and \<open>spec_expire\<close>
  say what an answer and an expiry sweep do to it.  The locale \<open>offer_backend\<close> is the contract of a
  provider: its operations return what the specification returns, and its book changes as the
  specification's does.  \<open>OfferDeliveryService\<close> has two providers, its dictionaries and Redis.

  Shown in the locale: over every history each offer is resolved at most once, and what it was resolved
  to never changes.
\<close>

record LoanOfferDelivery =
  ld_delivery_id :: string
  ld_offer_id :: string
  ld_uetr :: string
  ld_elo_entity_id :: string
  ld_principal_usd :: dec
  ld_fee_bps :: dec
  ld_fee_amount_usd :: dec
  ld_maturity_days :: int
  ld_rejection_code_class :: string
  ld_offer_expiry :: time
  ld_pd_score :: pyfloat
  ld_delivery_endpoint :: "string option"
  ld_delivered_at :: time
  ld_class_b_eligible :: bool

record LoanOfferAcceptance =
  la_acceptance_id :: string
  la_delivery_id :: string
  la_offer_id :: string
  la_uetr :: string
  la_elo_entity_id :: string
  la_elo_operator_id :: string
  la_accepted_at :: time

record LoanOfferRejection =
  lr_rejection_id :: string
  lr_delivery_id :: string
  lr_offer_id :: string
  lr_uetr :: string
  lr_elo_entity_id :: string
  lr_elo_operator_id :: string
  lr_rejection_reason :: string
  lr_rejected_at :: time

datatype OfferExpiryReason = TIMEOUT | BANK_REJECTED | SYSTEM_WITHDRAWN

record LoanOfferExpiry =
  le_expiry_id :: string
  le_delivery_id :: string
  le_offer_id :: string
  le_uetr :: string
  le_elo_entity_id :: string
  le_expiry_reason :: OfferExpiryReason
  le_offer_generated_at :: time
  le_expired_at :: time
  le_class_b_eligible :: bool

datatype offer_exc =
    OfferValueError
  | OfferNotFoundException
  | OfferExpiredException
  | OfferAlreadyResolvedException

definition offer_is_expired :: "LoanOfferDelivery \<Rightarrow> time \<Rightarrow> bool" where
  "offer_is_expired d now \<longleftrightarrow> ld_offer_expiry d \<le> now"

definition acceptance_of :: "time \<Rightarrow> string \<Rightarrow> string \<Rightarrow> LoanOfferDelivery \<Rightarrow> LoanOfferAcceptance" where
  "acceptance_of now uuid elo_operator_id d =
     \<lparr> la_acceptance_id = uuid, la_delivery_id = ld_delivery_id d, la_offer_id = ld_offer_id d,
       la_uetr = ld_uetr d, la_elo_entity_id = ld_elo_entity_id d,
       la_elo_operator_id = elo_operator_id, la_accepted_at = now \<rparr>"

definition rejection_of :: "time \<Rightarrow> string \<Rightarrow> string \<Rightarrow> string \<Rightarrow> LoanOfferDelivery \<Rightarrow> LoanOfferRejection" where
  "rejection_of now uuid elo_operator_id reason d =
     \<lparr> lr_rejection_id = uuid, lr_delivery_id = ld_delivery_id d, lr_offer_id = ld_offer_id d,
       lr_uetr = ld_uetr d, lr_elo_entity_id = ld_elo_entity_id d,
       lr_elo_operator_id = elo_operator_id, lr_rejection_reason = reason, lr_rejected_at = now \<rparr>"

definition expiry_of :: "time \<Rightarrow> string \<Rightarrow> LoanOfferDelivery \<Rightarrow> LoanOfferExpiry" where
  "expiry_of now uuid d =
     \<lparr> le_expiry_id = uuid, le_delivery_id = ld_delivery_id d, le_offer_id = ld_offer_id d,
       le_uetr = ld_uetr d, le_elo_entity_id = ld_elo_entity_id d, le_expiry_reason = TIMEOUT,
       le_offer_generated_at = ld_delivered_at d, le_expired_at = now,
       le_class_b_eligible = ld_class_b_eligible d \<rparr>"

section \<open>The specification\<close>

datatype offer_status =
    StPending
  | StAccepted LoanOfferAcceptance
  | StRejected LoanOfferRejection
  | StExpired LoanOfferExpiry

type_synonym offer_book = "string \<rightharpoonup> LoanOfferDelivery \<times> offer_status"

text \<open>An answer: \<open>mk\<close> makes the status an answer in time leads to.\<close>

definition spec_resolve ::
    "time \<Rightarrow> string \<Rightarrow> string \<Rightarrow> (LoanOfferDelivery \<Rightarrow> offer_status) \<Rightarrow> offer_book \<Rightarrow>
     (offer_exc + LoanOfferDelivery) \<times> offer_book" where
  "spec_resolve now uuid oid mk b =
     (case b oid of
        None \<Rightarrow> (Inl OfferNotFoundException, b)
      | Some (d, StAccepted _) \<Rightarrow> (Inl OfferAlreadyResolvedException, b)
      | Some (d, StRejected _) \<Rightarrow> (Inl OfferAlreadyResolvedException, b)
      | Some (d, StExpired _) \<Rightarrow> (Inl OfferExpiredException, b)
      | Some (d, StPending) \<Rightarrow>
          if offer_is_expired d now
          then (Inl OfferExpiredException, b(oid \<mapsto> (d, StExpired (expiry_of now uuid d))))
          else (Inr d, b(oid \<mapsto> (d, mk d))))"

definition spec_expire :: "time \<Rightarrow> (string \<Rightarrow> string) \<Rightarrow> offer_book \<Rightarrow> offer_book" where
  "spec_expire now uuids b = (\<lambda>oid.
     case b oid of
       Some (d, StPending) \<Rightarrow>
         if offer_is_expired d now then Some (d, StExpired (expiry_of now (uuids oid) d)) else b oid
     | _ \<Rightarrow> b oid)"

datatype book_op =
    BookDeliver LoanOfferDelivery pyval  \<comment> \<open>the record, and the offer it was made from\<close>
  | BookAccept string string string  \<comment> \<open>uuid, offer, operator\<close>
  | BookReject string string string string  \<comment> \<open>uuid, offer, operator, reason\<close>
  | BookExpire "string \<Rightarrow> string"

text \<open>What an operation may do to the book: the operator and the reason must not be empty.\<close>

definition spec_step :: "time \<Rightarrow> book_op \<Rightarrow> offer_book \<Rightarrow> offer_book" where
  "spec_step now opn b =
     (case opn of
        BookDeliver d offer \<Rightarrow> b(ld_offer_id d \<mapsto> (d, StPending))
      | BookAccept uuid oid elo \<Rightarrow>
          if elo = [] then b else snd (spec_resolve now uuid oid (\<lambda>d. StAccepted (acceptance_of now uuid elo d)) b)
      | BookReject uuid oid elo reason \<Rightarrow>
          if elo = [] \<or> reason = [] then b
          else snd (spec_resolve now uuid oid (\<lambda>d. StRejected (rejection_of now uuid elo reason d)) b)
      | BookExpire uuids \<Rightarrow> spec_expire now uuids b)"

definition terminal_status :: "offer_status \<Rightarrow> bool" where
  "terminal_status st \<longleftrightarrow> st \<noteq> StPending"

text \<open>Offer ids are fresh UUIDs: no delivery reuses the id of an offer in the book.\<close>

definition op_fresh :: "book_op \<Rightarrow> offer_book \<Rightarrow> bool" where
  "op_fresh opn b \<longleftrightarrow> (case opn of BookDeliver d offer \<Rightarrow> b (ld_offer_id d) = None | _ \<Rightarrow> True)"

lemma terminal_stays:
  "op_fresh opn b \<Longrightarrow> b oid = Some (d, st) \<Longrightarrow> terminal_status st \<Longrightarrow> spec_step now opn b oid = Some (d, st)"
  by (auto simp: op_fresh_def spec_step_def spec_resolve_def spec_expire_def terminal_status_def
      split: book_op.splits option.splits offer_status.splits)

lemma delivered_stays:
  "op_fresh opn b \<Longrightarrow> b oid = Some (d, st) \<Longrightarrow> \<exists>st'. spec_step now opn b oid = Some (d, st')"
  by (auto simp: op_fresh_def spec_step_def spec_resolve_def spec_expire_def
      split: book_op.splits option.splits offer_status.splits)

lemma spec_resolve_pending:
  "b oid = Some (d, StPending) \<Longrightarrow>
   snd (spec_resolve now uuid k mk b) oid =
     Some (d, if k \<noteq> oid then StPending
              else if offer_is_expired d now then StExpired (expiry_of now uuid d) else mk d)"
  by (cases "k = oid") (auto simp: spec_resolve_def split: option.splits offer_status.splits)

text \<open>A resolution is never early nor late: an answer comes before the expiry, an expiry after it.\<close>

lemma resolved_in_time:
  assumes "b oid = Some (d, StPending)" "op_fresh opn b" "spec_step now opn b oid = Some (d', st)"
  shows "st = StPending
    \<or> (\<exists>a. st = StAccepted a \<and> now < ld_offer_expiry d \<and> la_accepted_at a = now \<and> la_elo_operator_id a \<noteq> [])
    \<or> (\<exists>r. st = StRejected r \<and> now < ld_offer_expiry d \<and> lr_rejected_at r = now \<and> lr_rejection_reason r \<noteq> [])
    \<or> (\<exists>e. st = StExpired e \<and> ld_offer_expiry d \<le> now \<and> le_expired_at e = now)"
  using assms
  by (cases opn)
    (auto simp: op_fresh_def spec_step_def spec_resolve_pending spec_expire_def offer_is_expired_def
      acceptance_of_def rejection_of_def expiry_of_def split: if_splits)

section \<open>The contract of a provider\<close>

locale offer_backend =
  fixes book :: "'s \<Rightarrow> offer_book"
    and step :: "time \<Rightarrow> book_op \<Rightarrow> 's \<Rightarrow> 's"
    and inv :: "'s \<Rightarrow> bool"
  assumes step_inv: "inv s \<Longrightarrow> op_fresh opn (book s) \<Longrightarrow> inv (step now opn s)"
    and step_book: "inv s \<Longrightarrow> op_fresh opn (book s) \<Longrightarrow> book (step now opn s) = spec_step now opn (book s)"
begin

fun history_fresh :: "(time \<times> book_op) list \<Rightarrow> 's \<Rightarrow> bool" where
  "history_fresh [] s \<longleftrightarrow> True"
| "history_fresh ((now, opn) # evs) s \<longleftrightarrow> op_fresh opn (book s) \<and> history_fresh evs (step now opn s)"

definition run :: "(time \<times> book_op) list \<Rightarrow> 's \<Rightarrow> 's" where
  "run evs s = fold (\<lambda>(now, opn). step now opn) evs s"

lemma run_simps [simp]: "run [] s = s" "run ((now, opn) # evs) s = run evs (step now opn s)"
  by (simp_all add: run_def)

lemma run_inv: "inv s \<Longrightarrow> history_fresh evs s \<Longrightarrow> inv (run evs s)"
  by (induction evs arbitrary: s) (auto simp: step_inv)

theorem run_refines_spec:
  "inv s \<Longrightarrow> history_fresh evs s \<Longrightarrow>
   book (run evs s) = fold (\<lambda>(now, opn). spec_step now opn) evs (book s)"
  by (induction evs arbitrary: s) (auto simp: step_inv step_book)

theorem resolution_is_final:
  "inv s \<Longrightarrow> history_fresh evs s \<Longrightarrow> book s oid = Some (d, st) \<Longrightarrow> terminal_status st \<Longrightarrow>
   book (run evs s) oid = Some (d, st)"
proof (induction evs arbitrary: s)
  case (Cons ev evs)
  obtain now opn where ev: "ev = (now, opn)" by (cases ev)
  have "book (step now opn s) oid = Some (d, st)"
    using Cons.prems ev by (simp add: step_book terminal_stays)
  then show ?case using Cons ev by (simp add: step_inv)
qed simp

lemma delivery_kept:
  "inv s \<Longrightarrow> history_fresh evs s \<Longrightarrow> book s oid = Some (d, st) \<Longrightarrow> \<exists>st'. book (run evs s) oid = Some (d, st')"
proof (induction evs arbitrary: s st)
  case (Cons ev evs)
  obtain now opn where ev: "ev = (now, opn)" by (cases ev)
  obtain st' where "book (step now opn s) oid = Some (d, st')"
    using Cons.prems ev delivered_stays by (fastforce simp: step_book)
  then show ?case using Cons ev by (simp add: step_inv)
qed simp

end

end
