(* ===== verification/Offer_Delivery.thy ===== *)
theory Offer_Delivery
  imports Offer_Book Constants
begin

text \<open>
  \<open>lip/c7_execution_agent/offer_delivery.py\<close>: delivery, acceptance, rejection and expiry of loan offers.
  The record holds the six dictionaries of \<open>OfferDeliveryService\<close>, the Redis content when a client was
  given, and the callbacks issued (whose exceptions the code swallows).  The Redis keys of an offer are
  maps by suffix (\<open>state\<close>, \<open>delivery\<close>, \<open>offer\<close>, ...), the pending set a list; reading back a record or
  dictionary that was dumped as JSON gives it back.  The Lua script runs atomically.  A call takes one
  clock reading and at most one fresh UUID (a sweep one per offer), which are arguments.

  Shown: both back ends implement the offer book; hence an offer is resolved at most once, in time,
  whatever the order of answers and sweeps, and with Redis whatever the interleaving of processes.
\<close>

datatype OfferDeliveryOutcome = Pending | Accepted | Rejected | Expired

fun outcome_text :: "OfferDeliveryOutcome \<Rightarrow> string" where
  "outcome_text Pending = ''PENDING''"
| "outcome_text Accepted = ''ACCEPTED''"
| "outcome_text Rejected = ''REJECTED''"
| "outcome_text Expired = ''EXPIRED''"

definition outcome_of_text :: "string \<Rightarrow> offer_exc + OfferDeliveryOutcome" where
  "outcome_of_text s =
     (if s = ''PENDING'' then Inr Pending else if s = ''ACCEPTED'' then Inr Accepted
      else if s = ''REJECTED'' then Inr Rejected else if s = ''EXPIRED'' then Inr Expired
      else Inl OfferValueError)"

record offer_server =
  sv_state :: "string \<rightharpoonup> string"
  sv_delivery :: "string \<rightharpoonup> LoanOfferDelivery"
  sv_offer :: "string \<rightharpoonup> pyval"
  sv_acceptance :: "string \<rightharpoonup> LoanOfferAcceptance"
  sv_rejection :: "string \<rightharpoonup> LoanOfferRejection"
  sv_expiry :: "string \<rightharpoonup> LoanOfferExpiry"
  sv_pending :: "string list"

datatype offer_callback =
    OnAcceptResolved LoanOfferAcceptance LoanOfferDelivery pyval
  | OnAccept LoanOfferAcceptance
  | OnReject LoanOfferRejection
  | OnExpire LoanOfferExpiry

record OfferDeliveryService =
  od_on_accept :: bool
  od_on_accept_resolved :: bool
  od_on_reject :: bool
  od_on_expire :: bool
  od_delivery_endpoint :: "string option"
  od_redis :: "offer_server option"
  od_pending :: "(string, LoanOfferDelivery) dict"
  od_deliveries :: "string \<rightharpoonup> LoanOfferDelivery"
  od_offers :: "string \<rightharpoonup> pyval"
  od_acceptances :: "string \<rightharpoonup> LoanOfferAcceptance"
  od_rejections :: "string \<rightharpoonup> LoanOfferRejection"
  od_expiries :: "string \<rightharpoonup> LoanOfferExpiry"
  od_calls :: "offer_callback list"

definition offer_service_init ::
    "bool \<Rightarrow> bool \<Rightarrow> bool \<Rightarrow> bool \<Rightarrow> string option \<Rightarrow> offer_server option \<Rightarrow> OfferDeliveryService" where
  "offer_service_init on_accept on_accept_resolved on_reject on_expire endpoint redis =
     \<lparr> od_on_accept = on_accept, od_on_accept_resolved = on_accept_resolved, od_on_reject = on_reject,
       od_on_expire = on_expire, od_delivery_endpoint = endpoint, od_redis = redis, od_pending = [],
       od_deliveries = Map.empty, od_offers = Map.empty, od_acceptances = Map.empty,
       od_rejections = Map.empty, od_expiries = Map.empty, od_calls = [] \<rparr>"

section \<open>Redis\<close>

definition TRANSITION_OK :: string where "TRANSITION_OK = ''__OK__''"
definition TRANSITION_MISSING :: string where "TRANSITION_MISSING = ''__MISSING__''"

datatype resolution_record =
    AcceptanceRecord LoanOfferAcceptance
  | RejectionRecord LoanOfferRejection
  | ExpiryRecord LoanOfferExpiry

fun record_outcome :: "resolution_record \<Rightarrow> OfferDeliveryOutcome" where
  "record_outcome (AcceptanceRecord a) = Accepted"
| "record_outcome (RejectionRecord r) = Rejected"
| "record_outcome (ExpiryRecord e) = Expired"

fun write_record :: "string \<Rightarrow> resolution_record \<Rightarrow> offer_server \<Rightarrow> offer_server" where
  "write_record oid (AcceptanceRecord a) sv = sv\<lparr>sv_acceptance := (sv_acceptance sv)(oid \<mapsto> a)\<rparr>"
| "write_record oid (RejectionRecord r) sv = sv\<lparr>sv_rejection := (sv_rejection sv)(oid \<mapsto> r)\<rparr>"
| "write_record oid (ExpiryRecord e) sv = sv\<lparr>sv_expiry := (sv_expiry sv)(oid \<mapsto> e)\<rparr>"

text \<open>The Lua script, with the answer it returns.\<close>

definition redis_transition :: "string \<Rightarrow> resolution_record \<Rightarrow> offer_server \<Rightarrow> string \<times> offer_server" where
  "redis_transition oid rec sv =
     (case sv_state sv oid of
        None \<Rightarrow> (TRANSITION_MISSING, sv)
      | Some current \<Rightarrow>
          if current \<noteq> outcome_text Pending then (current, sv)
          else
            let sv = sv\<lparr>sv_state := (sv_state sv)(oid \<mapsto> outcome_text (record_outcome rec))\<rparr>;
                sv = write_record oid rec sv
            in (TRANSITION_OK, sv\<lparr>sv_pending := removeAll oid (sv_pending sv)\<rparr>))"

definition raise_for_failed_transition :: "string \<Rightarrow> offer_exc option" where
  "raise_for_failed_transition transition =
     (if transition = TRANSITION_OK then None
      else if transition = TRANSITION_MISSING then Some OfferNotFoundException
      else if transition = outcome_text Expired then Some OfferExpiredException
      else if transition \<in> {outcome_text Accepted, outcome_text Rejected} then Some OfferAlreadyResolvedException
      else Some OfferNotFoundException)"

definition redis_store_delivery :: "string \<Rightarrow> LoanOfferDelivery \<Rightarrow> pyval \<Rightarrow> offer_server \<Rightarrow> offer_server" where
  "redis_store_delivery oid d offer sv =
     sv\<lparr>sv_state := (sv_state sv)(oid \<mapsto> outcome_text Pending),
        sv_delivery := (sv_delivery sv)(oid \<mapsto> d), sv_offer := (sv_offer sv)(oid \<mapsto> offer),
        sv_pending := (if oid \<in> set (sv_pending sv) then sv_pending sv else sv_pending sv @ [oid])\<rparr>"

definition redis_get_resolvable_delivery ::
    "time \<Rightarrow> string \<Rightarrow> string \<Rightarrow> offer_server \<Rightarrow> (offer_exc + LoanOfferDelivery) \<times> offer_server" where
  "redis_get_resolvable_delivery now uuid oid sv =
     (case sv_state sv oid of
        None \<Rightarrow> (Inl OfferNotFoundException, sv)
      | Some state \<Rightarrow>
          if state = outcome_text Accepted \<or> state = outcome_text Rejected
          then (Inl OfferAlreadyResolvedException, sv)
          else if state = outcome_text Expired then (Inl OfferExpiredException, sv)
          else if state \<noteq> outcome_text Pending then (Inl OfferNotFoundException, sv)
          else case sv_delivery sv oid of
                 None \<Rightarrow> (Inl OfferNotFoundException, sv)
               | Some d \<Rightarrow>
                   if \<not> offer_is_expired d now then (Inr d, sv)
                   else
                     let (transition, sv') = redis_transition oid (ExpiryRecord (expiry_of now uuid d)) sv
                     in if transition \<notin> {TRANSITION_OK, outcome_text Expired}
                        then (case raise_for_failed_transition transition of
                                Some e \<Rightarrow> (Inl e, sv') | None \<Rightarrow> (Inl OfferExpiredException, sv'))
                        else (Inl OfferExpiredException, sv'))"

section \<open>Memory\<close>

text \<open>\<open>_check_resolvable\<close>: the exception it raises, or nothing.\<close>

definition check_resolvable ::
    "time \<Rightarrow> string \<Rightarrow> string \<Rightarrow> OfferDeliveryService \<Rightarrow> offer_exc option \<times> OfferDeliveryService" where
  "check_resolvable now uuid oid s =
     (if od_acceptances s oid \<noteq> None \<or> od_rejections s oid \<noteq> None then (Some OfferAlreadyResolvedException, s)
      else if od_expiries s oid \<noteq> None then (Some OfferExpiredException, s)
      else case dget (od_pending s) oid of
             None \<Rightarrow> (Some OfferNotFoundException, s)
           | Some d \<Rightarrow>
               if offer_is_expired d now
               then (Some OfferExpiredException,
                     s\<lparr>od_pending := dpop oid (od_pending s),
                       od_expiries := (od_expiries s)(oid \<mapsto> expiry_of now uuid d)\<rparr>)
               else (None, s))"

text \<open>The part \<open>accept\<close> and \<open>reject\<close> share: the delivery to resolve, taken out of the pending ones.\<close>

definition resolvable_delivery ::
    "time \<Rightarrow> string \<Rightarrow> string \<Rightarrow> OfferDeliveryService \<Rightarrow> (offer_exc + LoanOfferDelivery) \<times> OfferDeliveryService" where
  "resolvable_delivery now uuid oid s =
     (case od_redis s of
        Some sv \<Rightarrow>
          (case redis_get_resolvable_delivery now uuid oid sv of (r, sv') \<Rightarrow> (r, s\<lparr>od_redis := Some sv'\<rparr>))
      | None \<Rightarrow>
          (case check_resolvable now uuid oid s of
             (Some e, s') \<Rightarrow> (Inl e, s')
           | (None, s') \<Rightarrow>
               (case dget (od_pending s') oid of
                  None \<Rightarrow> (Inl OfferNotFoundException, s')
                | Some d \<Rightarrow> (Inr d, s'\<lparr>od_pending := dpop oid (od_pending s')\<rparr>))))"

text \<open>Recording the resolution: the transition in Redis, or the entry of the dictionary.\<close>

definition record_resolution ::
    "string \<Rightarrow> resolution_record \<Rightarrow> OfferDeliveryService \<Rightarrow> offer_exc option \<times> OfferDeliveryService" where
  "record_resolution oid rec s =
     (case od_redis s of
        Some sv \<Rightarrow>
          (case redis_transition oid rec sv of
             (transition, sv') \<Rightarrow> (raise_for_failed_transition transition, s\<lparr>od_redis := Some sv'\<rparr>))
      | None \<Rightarrow>
          (None,
           (case rec of
              AcceptanceRecord a \<Rightarrow> s\<lparr>od_acceptances := (od_acceptances s)(oid \<mapsto> a)\<rparr>
            | RejectionRecord r \<Rightarrow> s\<lparr>od_rejections := (od_rejections s)(oid \<mapsto> r)\<rparr>
            | ExpiryRecord e \<Rightarrow> s\<lparr>od_expiries := (od_expiries s)(oid \<mapsto> e)\<rparr>)))"

definition get_offer :: "OfferDeliveryService \<Rightarrow> string \<Rightarrow> pyval option" where
  "get_offer s oid = (case od_redis s of Some sv \<Rightarrow> sv_offer sv oid | None \<Rightarrow> od_offers s oid)"

definition offer_accept ::
    "time \<Rightarrow> string \<Rightarrow> string \<Rightarrow> string \<Rightarrow> OfferDeliveryService \<Rightarrow>
     (offer_exc + LoanOfferAcceptance) \<times> OfferDeliveryService" where
  "offer_accept now uuid oid elo_operator_id s =
     (if elo_operator_id = [] then (Inl OfferValueError, s)
      else case resolvable_delivery now uuid oid s of
             (Inl e, s) \<Rightarrow> (Inl e, s)
           | (Inr d, s) \<Rightarrow>
               let offer = (case get_offer s oid of Some v \<Rightarrow> v | None \<Rightarrow> PDict []);
                   acceptance = acceptance_of now uuid elo_operator_id d
               in case record_resolution oid (AcceptanceRecord acceptance) s of
                    (Some e, s) \<Rightarrow> (Inl e, s)
                  | (None, s) \<Rightarrow>
                      (Inr acceptance,
                       s\<lparr>od_calls := od_calls s
                           @ (if od_on_accept_resolved s then [OnAcceptResolved acceptance d offer] else [])
                           @ (if od_on_accept s then [OnAccept acceptance] else [])\<rparr>))"

definition offer_reject ::
    "time \<Rightarrow> string \<Rightarrow> string \<Rightarrow> string \<Rightarrow> string \<Rightarrow> OfferDeliveryService \<Rightarrow>
     (offer_exc + LoanOfferRejection) \<times> OfferDeliveryService" where
  "offer_reject now uuid oid elo_operator_id rejection_reason s =
     (if elo_operator_id = [] then (Inl OfferValueError, s)
      else if rejection_reason = [] then (Inl OfferValueError, s)
      else case resolvable_delivery now uuid oid s of
             (Inl e, s) \<Rightarrow> (Inl e, s)
           | (Inr d, s) \<Rightarrow>
               let rejection = rejection_of now uuid elo_operator_id rejection_reason d
               in case record_resolution oid (RejectionRecord rejection) s of
                    (Some e, s) \<Rightarrow> (Inl e, s)
                  | (None, s) \<Rightarrow>
                      (Inr rejection,
                       s\<lparr>od_calls := od_calls s @ (if od_on_reject s then [OnReject rejection] else [])\<rparr>))"

section \<open>Delivery\<close>

text \<open>
  \<open>uuid.UUID(s)\<close> in its canonical text: dashes and surrounding braces are dropped, 32 hexadecimal
  digits must remain (the \<open>urn:uuid:\<close> prefix the constructor also accepts is not modelled).
\<close>

definition is_hex :: "char \<Rightarrow> bool" where
  "is_hex c \<longleftrightarrow> is_digit c \<or> (let n = of_char c :: nat in 97 \<le> n \<and> n \<le> 102 \<or> 65 \<le> n \<and> n \<le> 70)"

definition strip_braces :: "string \<Rightarrow> string" where
  "strip_braces s =
     (let brace = \<lambda>c. c = CHR ''{'' \<or> c = CHR ''}'' in rev (dropWhile brace (rev (dropWhile brace s))))"

definition py_uuid :: "string \<Rightarrow> py_exc + string" where
  "py_uuid s =
     (let h = filter (\<lambda>c. c \<noteq> CHR ''-'') (strip_braces s)
      in if length h \<noteq> 32 \<or> \<not> list_all is_hex h then Inl ValueError
         else let l = map lower_char h
              in Inr (take 8 l @ ''-'' @ take 4 (drop 8 l) @ ''-'' @ take 4 (drop 12 l) @ ''-''
                      @ take 4 (drop 16 l) @ ''-'' @ drop 20 l))"

fun uuid_value :: "pyval \<Rightarrow> py_exc + string" where
  "uuid_value (PStr s) = py_uuid s"
| "uuid_value _ = Inl AttributeError"

fun text_value :: "pyval \<Rightarrow> py_exc + string" where
  "text_value (PStr s) = Inr s"
| "text_value _ = Inl ValueError"

fun expiry_value :: "(pyval \<Rightarrow> py_exc + time) \<Rightarrow> pyval \<Rightarrow> py_exc + time" where
  "expiry_value fromiso (PTime t) = Inr t"
| "expiry_value fromiso v = fromiso v"

text \<open>The validation of the \<open>LoanOfferDelivery\<close> model.\<close>

definition delivery_valid :: "LoanOfferDelivery \<Rightarrow> bool" where
  "delivery_valid d \<longleftrightarrow>
     0 < ld_principal_usd d \<and> FEE_FLOOR_BPS \<le> ld_fee_bps d \<and> 0 \<le> ld_fee_amount_usd d \<and>
     1 \<le> ld_maturity_days d \<and> ld_rejection_code_class d \<in> {''A'', ''B'', ''C''} \<and>
     0 \<le> ld_pd_score d \<and> ld_pd_score d \<le> 1"

definition deliver_record ::
    "(pyval \<Rightarrow> py_exc + time) \<Rightarrow> time \<Rightarrow> string \<Rightarrow> string \<Rightarrow> string option \<Rightarrow> (string, pyval) dict \<Rightarrow>
     py_exc + LoanOfferDelivery" where
  "deliver_record fromiso now delivery_uuid fallback_uuid endpoint offer =
     (let get = (\<lambda>k default. case dget offer k of None \<Rightarrow> default | Some v \<Rightarrow> v);
          item = (\<lambda>k. case dget offer k of None \<Rightarrow> Inl KeyError | Some v \<Rightarrow> Inr v);
          uetr_raw = get ''uetr'' PNone;
          uetr = or_else (uuid_value (if truth uetr_raw then uetr_raw else PStr '''')) fallback_uuid
      in res_bind (res_bind (item ''loan_id'') uuid_value) (\<lambda>offer_id.
         res_bind (decimal_of (get ''loan_amount'' (PStr ''0''))) (\<lambda>principal.
         res_bind (decimal_of (get ''fee_bps'' (PStr ''300''))) (\<lambda>fee_bps.
         res_bind (decimal_of (get ''fee_amount_usd'' (PStr ''0''))) (\<lambda>fee_amount.
         res_bind (py_int (get ''maturity_days'' (PNum 7))) (\<lambda>maturity.
         res_bind (res_bind (item ''expires_at'') (expiry_value fromiso)) (\<lambda>expiry.
         res_bind (py_float (get ''pd_score'' (PNum 0))) (\<lambda>pd.
         res_bind (text_value (get ''elo_entity_id'' (PStr ''''))) (\<lambda>elo.
         res_bind (text_value (get ''rejection_code_class'' (PStr ''B''))) (\<lambda>code_class.
           let d = \<lparr> ld_delivery_id = delivery_uuid, ld_offer_id = offer_id, ld_uetr = uetr,
                     ld_elo_entity_id = elo, ld_principal_usd = principal, ld_fee_bps = fee_bps,
                     ld_fee_amount_usd = fee_amount, ld_maturity_days = maturity,
                     ld_rejection_code_class = code_class, ld_offer_expiry = expiry, ld_pd_score = pd,
                     ld_delivery_endpoint = endpoint, ld_delivered_at = now, ld_class_b_eligible = False \<rparr>
           in if delivery_valid d then Inr d else Inl ValueError))))))))))"

definition store_delivery :: "LoanOfferDelivery \<Rightarrow> pyval \<Rightarrow> OfferDeliveryService \<Rightarrow> OfferDeliveryService" where
  "store_delivery d offer s =
     (let oid = ld_offer_id d
      in case od_redis s of
           Some sv \<Rightarrow> s\<lparr>od_redis := Some (redis_store_delivery oid d offer sv)\<rparr>
         | None \<Rightarrow>
             s\<lparr>od_pending := dset oid d (od_pending s), od_deliveries := (od_deliveries s)(oid \<mapsto> d),
               od_offers := (od_offers s)(oid \<mapsto> offer)\<rparr>)"

definition deliver ::
    "(pyval \<Rightarrow> py_exc + time) \<Rightarrow> time \<Rightarrow> string \<Rightarrow> string \<Rightarrow> (string, pyval) dict \<Rightarrow> OfferDeliveryService \<Rightarrow>
     (py_exc + LoanOfferDelivery) \<times> OfferDeliveryService" where
  "deliver fromiso now delivery_uuid fallback_uuid offer s =
     (case deliver_record fromiso now delivery_uuid fallback_uuid (od_delivery_endpoint s) offer of
        Inl e \<Rightarrow> (Inl e, s)
      | Inr d \<Rightarrow> (Inr d, store_delivery d (PDict offer) s))"

section \<open>The expiry sweep\<close>

definition pending_items :: "OfferDeliveryService \<Rightarrow> (string \<times> LoanOfferDelivery) list" where
  "pending_items s =
     (case od_redis s of
        None \<Rightarrow> od_pending s
      | Some sv \<Rightarrow>
          concat (map (\<lambda>oid. case sv_delivery sv oid of None \<Rightarrow> [] | Some d \<Rightarrow> [(oid, d)]) (sv_pending sv)))"

fun expire_items ::
    "time \<Rightarrow> (string \<Rightarrow> string) \<Rightarrow> (string \<times> LoanOfferDelivery) list \<Rightarrow> OfferDeliveryService \<Rightarrow>
     LoanOfferExpiry list \<times> OfferDeliveryService" where
  "expire_items now uuids [] s = ([], s)"
| "expire_items now uuids ((oid, d) # items) s =
     (let expiry = expiry_of now (uuids oid) d;
          s = (if od_redis s = None then s\<lparr>od_pending := dpop oid (od_pending s)\<rparr> else s)
      in case record_resolution oid (ExpiryRecord expiry) s of
           (Some e, s) \<Rightarrow> expire_items now uuids items s
         | (None, s) \<Rightarrow>
             (case expire_items now uuids items s of (es, s) \<Rightarrow> (expiry # es, s)))"

definition expire_stale_offers ::
    "time \<Rightarrow> (string \<Rightarrow> string) \<Rightarrow> OfferDeliveryService \<Rightarrow> LoanOfferExpiry list \<times> OfferDeliveryService" where
  "expire_stale_offers now uuids s =
     (case expire_items now uuids (filter (\<lambda>(oid, d). offer_is_expired d now) (pending_items s)) s of
        (new_expiries, s) \<Rightarrow>
          (new_expiries, s\<lparr>od_calls := od_calls s @ (if od_on_expire s then map OnExpire new_expiries else [])\<rparr>))"

section \<open>Queries\<close>

definition get_outcome :: "OfferDeliveryService \<Rightarrow> string \<Rightarrow> offer_exc + OfferDeliveryOutcome" where
  "get_outcome s oid =
     (case od_redis s of
        Some sv \<Rightarrow>
          (case sv_state sv oid of None \<Rightarrow> Inl OfferNotFoundException | Some state \<Rightarrow> outcome_of_text state)
      | None \<Rightarrow>
          if od_acceptances s oid \<noteq> None then Inr Accepted
          else if od_rejections s oid \<noteq> None then Inr Rejected
          else if od_expiries s oid \<noteq> None then Inr Expired
          else if dget (od_pending s) oid \<noteq> None then Inr Pending
          else Inl OfferNotFoundException)"

definition get_acceptance :: "OfferDeliveryService \<Rightarrow> string \<Rightarrow> LoanOfferAcceptance option" where
  "get_acceptance s oid = (case od_redis s of Some sv \<Rightarrow> sv_acceptance sv oid | None \<Rightarrow> od_acceptances s oid)"

definition get_rejection :: "OfferDeliveryService \<Rightarrow> string \<Rightarrow> LoanOfferRejection option" where
  "get_rejection s oid = (case od_redis s of Some sv \<Rightarrow> sv_rejection sv oid | None \<Rightarrow> od_rejections s oid)"

definition get_expiry :: "OfferDeliveryService \<Rightarrow> string \<Rightarrow> LoanOfferExpiry option" where
  "get_expiry s oid = (case od_redis s of Some sv \<Rightarrow> sv_expiry sv oid | None \<Rightarrow> od_expiries s oid)"

definition get_delivery :: "OfferDeliveryService \<Rightarrow> string \<Rightarrow> LoanOfferDelivery option" where
  "get_delivery s oid = (case od_redis s of Some sv \<Rightarrow> sv_delivery sv oid | None \<Rightarrow> od_deliveries s oid)"

definition get_pending_deliveries :: "OfferDeliveryService \<Rightarrow> LoanOfferDelivery list" where
  "get_pending_deliveries s = map snd (pending_items s)"

section \<open>The book of a service\<close>

definition memory_status :: "OfferDeliveryService \<Rightarrow> string \<Rightarrow> offer_status" where
  "memory_status s oid =
     (case od_acceptances s oid of Some a \<Rightarrow> StAccepted a | None \<Rightarrow>
      case od_rejections s oid of Some r \<Rightarrow> StRejected r | None \<Rightarrow>
      case od_expiries s oid of Some e \<Rightarrow> StExpired e | None \<Rightarrow> StPending)"

definition memory_book :: "OfferDeliveryService \<Rightarrow> offer_book" where
  "memory_book s oid =
     (case od_deliveries s oid of None \<Rightarrow> None | Some d \<Rightarrow> Some (d, memory_status s oid))"

text \<open>Every delivered offer is in exactly one of the four dictionaries, and nothing else is.\<close>

definition memory_inv :: "OfferDeliveryService \<Rightarrow> bool" where
  "memory_inv s \<longleftrightarrow> od_redis s = None \<and> dict_ok (od_pending s) \<and>
     (\<forall>oid. dget (od_pending s) oid =
        (if memory_status s oid = StPending then od_deliveries s oid else None)) \<and>
     (\<forall>oid. od_deliveries s oid = None \<longrightarrow> memory_status s oid = StPending) \<and>
     (\<forall>oid. od_acceptances s oid \<noteq> None \<longrightarrow> od_rejections s oid = None \<and> od_expiries s oid = None) \<and>
     (\<forall>oid. od_rejections s oid \<noteq> None \<longrightarrow> od_expiries s oid = None)"

definition server_status :: "offer_server \<Rightarrow> string \<Rightarrow> offer_status" where
  "server_status sv oid =
     (if sv_state sv oid = Some (outcome_text Accepted) then StAccepted (the (sv_acceptance sv oid))
      else if sv_state sv oid = Some (outcome_text Rejected) then StRejected (the (sv_rejection sv oid))
      else if sv_state sv oid = Some (outcome_text Expired) then StExpired (the (sv_expiry sv oid))
      else StPending)"

definition server_book :: "offer_server \<Rightarrow> offer_book" where
  "server_book sv oid =
     (case sv_delivery sv oid of None \<Rightarrow> None | Some d \<Rightarrow> Some (d, server_status sv oid))"

definition server_inv :: "offer_server \<Rightarrow> bool" where
  "server_inv sv \<longleftrightarrow> distinct (sv_pending sv) \<and>
     (\<forall>oid. sv_state sv oid = None \<longleftrightarrow> sv_delivery sv oid = None) \<and>
     (\<forall>oid. sv_state sv oid \<in> {None} \<union> Some ` range outcome_text) \<and>
     (\<forall>oid. oid \<in> set (sv_pending sv) \<longleftrightarrow> sv_state sv oid = Some (outcome_text Pending)) \<and>
     (\<forall>oid. sv_acceptance sv oid \<noteq> None \<longleftrightarrow> sv_state sv oid = Some (outcome_text Accepted)) \<and>
     (\<forall>oid. sv_rejection sv oid \<noteq> None \<longleftrightarrow> sv_state sv oid = Some (outcome_text Rejected)) \<and>
     (\<forall>oid. sv_expiry sv oid \<noteq> None \<longleftrightarrow> sv_state sv oid = Some (outcome_text Expired))"

definition service_book :: "OfferDeliveryService \<Rightarrow> offer_book" where
  "service_book s = (case od_redis s of None \<Rightarrow> memory_book s | Some sv \<Rightarrow> server_book sv)"

definition service_inv :: "OfferDeliveryService \<Rightarrow> bool" where
  "service_inv s \<longleftrightarrow> (case od_redis s of None \<Rightarrow> memory_inv s | Some sv \<Rightarrow> server_inv sv)"

text \<open>The operations of the book, run by a service; a delivery is what \<open>deliver\<close> does once it has its record.\<close>

definition service_step :: "time \<Rightarrow> book_op \<Rightarrow> OfferDeliveryService \<Rightarrow> OfferDeliveryService" where
  "service_step now opn s =
     (case opn of
        BookDeliver d offer \<Rightarrow> store_delivery d offer s
      | BookAccept uuid oid elo \<Rightarrow> snd (offer_accept now uuid oid elo s)
      | BookReject uuid oid elo reason \<Rightarrow> snd (offer_reject now uuid oid elo reason s)
      | BookExpire uuids \<Rightarrow> snd (expire_stale_offers now uuids s))"

lemma deliver_is_step:
  "deliver fromiso now delivery_uuid fallback_uuid offer s =
     (case deliver_record fromiso now delivery_uuid fallback_uuid (od_delivery_endpoint s) offer of
        Inl e \<Rightarrow> (Inl e, s)
      | Inr d \<Rightarrow> (Inr d, service_step now (BookDeliver d (PDict offer)) s))"
  by (simp add: deliver_def service_step_def cong: sum.case_cong)

section \<open>Both back ends implement the book\<close>

fun record_status :: "resolution_record \<Rightarrow> offer_status" where
  "record_status (AcceptanceRecord a) = StAccepted a"
| "record_status (RejectionRecord r) = StRejected r"
| "record_status (ExpiryRecord e) = StExpired e"

lemma record_status_terminal [simp]: "record_status rec \<noteq> StPending"
  by (cases rec) simp_all

fun memory_record :: "string \<Rightarrow> resolution_record \<Rightarrow> OfferDeliveryService \<Rightarrow> OfferDeliveryService" where
  "memory_record oid (AcceptanceRecord a) s = s\<lparr>od_acceptances := (od_acceptances s)(oid \<mapsto> a)\<rparr>"
| "memory_record oid (RejectionRecord r) s = s\<lparr>od_rejections := (od_rejections s)(oid \<mapsto> r)\<rparr>"
| "memory_record oid (ExpiryRecord e) s = s\<lparr>od_expiries := (od_expiries s)(oid \<mapsto> e)\<rparr>"

lemma memory_status_record:
  "memory_status s oid = StPending \<Longrightarrow>
   memory_status (memory_record oid rec s) k = (if k = oid then record_status rec else memory_status s k)"
  by (cases rec) (auto simp: memory_status_def split: option.splits)

lemma memory_status_frame [simp]:
  "memory_status (s\<lparr>od_pending := p\<rparr>) = memory_status s"
  "memory_status (s\<lparr>od_calls := c\<rparr>) = memory_status s"
  by (simp_all add: memory_status_def fun_eq_iff cong: option.case_cong)

lemma memory_frame [simp]:
  "memory_book (s\<lparr>od_pending := p\<rparr>) = memory_book s"
  "memory_book (s\<lparr>od_calls := c\<rparr>) = memory_book s"
  "memory_inv (s\<lparr>od_calls := c\<rparr>) = memory_inv s"
  by (simp_all add: memory_book_def memory_inv_def fun_eq_iff cong: option.case_cong)

lemma memory_record_fields [simp]:
  "od_redis (memory_record oid rec s) = od_redis s"
  "od_pending (memory_record oid rec s) = od_pending s"
  "od_deliveries (memory_record oid rec s) = od_deliveries s"
  by (cases rec; simp)+

lemma pending_status:
  "memory_status s oid = StPending \<longleftrightarrow>
     od_acceptances s oid = None \<and> od_rejections s oid = None \<and> od_expiries s oid = None"
  by (auto simp: memory_status_def split: option.splits)

text \<open>Resolving a pending offer in memory.\<close>

lemma memory_resolve:
  assumes inv: "memory_inv s" and d: "od_deliveries s oid = Some d" and p: "memory_status s oid = StPending"
    and s'_def: "s' = memory_record oid rec (s\<lparr>od_pending := dpop oid (od_pending s)\<rparr>)"
  shows "memory_inv s' \<and> memory_book s' = (memory_book s)(oid \<mapsto> (d, record_status rec))"
proof -
  have st: "memory_status s' k = (if k = oid then record_status rec else memory_status s k)" for k
    unfolding s'_def using p by (simp add: memory_status_record)
  have r: "od_acceptances s oid = None" "od_rejections s oid = None" "od_expiries s oid = None"
    using p by (simp_all add: pending_status)
  have "od_deliveries s' = od_deliveries s" by (simp add: s'_def)
  then have "memory_book s' = (memory_book s)(oid \<mapsto> (d, record_status rec))"
    using d by (auto simp: memory_book_def st fun_eq_iff split: option.splits)
  moreover have "memory_inv s'"
    unfolding memory_inv_def
  proof (intro conjI allI impI)
    show "od_redis s' = None" "dict_ok (od_pending s')"
      using inv by (simp_all add: s'_def memory_inv_def)
    show "dget (od_pending s') k = (if memory_status s' k = StPending then od_deliveries s' k else None)" for k
      using inv unfolding st by (auto simp: s'_def memory_inv_def dict_simps)
    show "memory_status s' k = StPending" if "od_deliveries s' k = None" for k
      using that inv d unfolding st by (auto simp: s'_def memory_inv_def)
    show "od_rejections s' k = None" "od_expiries s' k = None" if "od_acceptances s' k \<noteq> None" for k
      using that inv r unfolding s'_def memory_inv_def by (cases rec; auto split: if_splits)+
    show "od_expiries s' k = None" if "od_rejections s' k \<noteq> None" for k
      using that inv r unfolding s'_def memory_inv_def by (cases rec; auto split: if_splits)+
  qed
  ultimately show ?thesis by blast
qed

text \<open>Resolving a pending offer in Redis.\<close>

lemma outcome_text_inject: "outcome_text a = outcome_text b \<longleftrightarrow> a = b"
  by (cases a; cases b) simp_all

lemma record_outcome_pending [simp]: "record_outcome rec \<noteq> Pending"
  by (cases rec) simp_all

lemma server_invD:
  assumes "server_inv sv"
  shows "sv_acceptance sv k \<noteq> None \<longleftrightarrow> sv_state sv k = Some (outcome_text Accepted)"
    and "sv_rejection sv k \<noteq> None \<longleftrightarrow> sv_state sv k = Some (outcome_text Rejected)"
    and "sv_expiry sv k \<noteq> None \<longleftrightarrow> sv_state sv k = Some (outcome_text Expired)"
    and "k \<in> set (sv_pending sv) \<longleftrightarrow> sv_state sv k = Some (outcome_text Pending)"
    and "sv_state sv k = None \<longleftrightarrow> sv_delivery sv k = None"
    and "sv_state sv k \<noteq> None \<Longrightarrow> \<exists>x. sv_state sv k = Some (outcome_text x)"
proof -
  have all:
    "\<forall>k. sv_acceptance sv k \<noteq> None \<longleftrightarrow> sv_state sv k = Some (outcome_text Accepted)"
    "\<forall>k. sv_rejection sv k \<noteq> None \<longleftrightarrow> sv_state sv k = Some (outcome_text Rejected)"
    "\<forall>k. sv_expiry sv k \<noteq> None \<longleftrightarrow> sv_state sv k = Some (outcome_text Expired)"
    "\<forall>k. k \<in> set (sv_pending sv) \<longleftrightarrow> sv_state sv k = Some (outcome_text Pending)"
    "\<forall>k. sv_state sv k = None \<longleftrightarrow> sv_delivery sv k = None"
    "\<forall>k. sv_state sv k \<in> {None} \<union> Some ` range outcome_text"
    using assms unfolding server_inv_def by - (elim conjE, assumption)+
  show "sv_acceptance sv k \<noteq> None \<longleftrightarrow> sv_state sv k = Some (outcome_text Accepted)"
    "sv_rejection sv k \<noteq> None \<longleftrightarrow> sv_state sv k = Some (outcome_text Rejected)"
    "sv_expiry sv k \<noteq> None \<longleftrightarrow> sv_state sv k = Some (outcome_text Expired)"
    "k \<in> set (sv_pending sv) \<longleftrightarrow> sv_state sv k = Some (outcome_text Pending)"
    "sv_state sv k = None \<longleftrightarrow> sv_delivery sv k = None"
    by (rule all [THEN spec])+
  show "\<exists>x. sv_state sv k = Some (outcome_text x)" if "sv_state sv k \<noteq> None"
    using spec [OF all(6), of k] that by blast
qed

lemma redis_resolve:
  assumes inv: "server_inv sv" and d: "sv_delivery sv oid = Some d"
    and p: "sv_state sv oid = Some (outcome_text Pending)"
  shows "\<exists>sv'. redis_transition oid rec sv = (TRANSITION_OK, sv') \<and> server_inv sv'
    \<and> server_book sv' = (server_book sv)(oid \<mapsto> (d, record_status rec))"
proof -
  define sv' where "sv' = snd (redis_transition oid rec sv)"
  have t: "redis_transition oid rec sv = (TRANSITION_OK, sv')"
    using p by (simp add: redis_transition_def sv'_def Let_def)
  have f: "sv_state sv' = (sv_state sv)(oid \<mapsto> outcome_text (record_outcome rec))"
    "sv_delivery sv' = sv_delivery sv" "sv_pending sv' = removeAll oid (sv_pending sv)"
    using p by (cases rec; simp add: redis_transition_def sv'_def Let_def)+
  have others: "sv_acceptance sv oid = None" "sv_rejection sv oid = None" "sv_expiry sv oid = None"
    using server_invD(1-3) [OF inv, of oid] p by simp_all
  have inv': "server_inv sv'"
    unfolding server_inv_def
  proof (intro conjI allI)
    show "distinct (sv_pending sv')" using inv by (simp add: f server_inv_def distinct_removeAll)
    show "sv_state sv' k = None \<longleftrightarrow> sv_delivery sv' k = None" for k
      using inv d by (simp add: f server_inv_def)
    show "sv_state sv' k \<in> {None} \<union> Some ` range outcome_text" for k
      using inv by (auto simp: f server_inv_def)
    show "k \<in> set (sv_pending sv') \<longleftrightarrow> sv_state sv' k = Some (outcome_text Pending)" for k
      using server_invD(4) [OF inv, of k] record_outcome_pending [of rec]
      by (simp add: f outcome_text_inject del: outcome_text.simps)
    show "sv_acceptance sv' k \<noteq> None \<longleftrightarrow> sv_state sv' k = Some (outcome_text Accepted)"
      "sv_rejection sv' k \<noteq> None \<longleftrightarrow> sv_state sv' k = Some (outcome_text Rejected)"
      "sv_expiry sv' k \<noteq> None \<longleftrightarrow> sv_state sv' k = Some (outcome_text Expired)" for k
      using server_invD(1-3) [OF inv, of k] others p
      by (cases rec; simp add: redis_transition_def sv'_def Let_def)+
  qed
  have "server_status sv' k = (if k = oid then record_status rec else server_status sv k)" for k
    using p by (cases rec) (auto simp: server_status_def redis_transition_def sv'_def Let_def)
  then have "server_book sv' = (server_book sv)(oid \<mapsto> (d, record_status rec))"
    using d by (auto simp: server_book_def f fun_eq_iff split: option.splits)
  with t inv' show ?thesis by blast
qed

text \<open>
  What an answer does, for either back end: it is refused as the book says and changes the book as the
  book says, or the offer is pending and any record then resolves it.
\<close>

definition resolves :: "OfferDeliveryService \<Rightarrow> string \<Rightarrow> LoanOfferDelivery \<Rightarrow> OfferDeliveryService \<Rightarrow> bool" where
  "resolves s oid d s1 \<longleftrightarrow> get_offer s1 = get_offer s \<and> od_calls s1 = od_calls s \<and>
     (\<forall>rec. \<exists>s2. record_resolution oid rec s1 = (None, s2) \<and> service_inv s2 \<and>
        service_book s2 = (service_book s)(oid \<mapsto> (d, record_status rec)))"

lemma memory_refused_or_pending:
  assumes inv: "memory_inv s"
  shows "(case resolvable_delivery now uuid oid s of
       (Inl e, s1) \<Rightarrow> service_inv s1 \<and> (\<forall>mk. spec_resolve now uuid oid mk (service_book s) = (Inl e, service_book s1))
     | (Inr d, s1) \<Rightarrow> service_book s oid = Some (d, StPending) \<and> \<not> offer_is_expired d now \<and> resolves s oid d s1)"
proof -
  have redis: "od_redis s = None" using inv by (simp add: memory_inv_def)
  have pend: "dget (od_pending s) oid = (if memory_status s oid = StPending then od_deliveries s oid else None)"
    using inv by (simp add: memory_inv_def)
  show ?thesis
  proof (cases "memory_status s oid = StPending")
    case False
    then obtain d where d: "od_deliveries s oid = Some d"
      using inv unfolding memory_inv_def by fastforce
    from False show ?thesis
      using inv d redis
      by (auto simp: resolvable_delivery_def check_resolvable_def service_inv_def service_book_def
          spec_resolve_def memory_book_def memory_status_def split: option.splits)
  next
    case True
    note st = True [unfolded pending_status]
    show ?thesis
    proof (cases "od_deliveries s oid")
      case None
      with True st pend show ?thesis
        using inv redis
        by (simp add: resolvable_delivery_def check_resolvable_def service_inv_def service_book_def
            spec_resolve_def memory_book_def)
    next
      case (Some d)
      note m = memory_resolve [OF inv Some True refl]
      show ?thesis
      proof (cases "offer_is_expired d now")
        case exp: True
        let ?s = "s\<lparr>od_pending := dpop oid (od_pending s), od_expiries := (od_expiries s)(oid \<mapsto> expiry_of now uuid d)\<rparr>"
        have "memory_inv ?s \<and> memory_book ?s = (memory_book s)(oid \<mapsto> (d, StExpired (expiry_of now uuid d)))"
          using m [of "ExpiryRecord (expiry_of now uuid d)"] by simp
        with True st pend exp Some redis show ?thesis
          by (simp add: resolvable_delivery_def check_resolvable_def service_inv_def service_book_def
              spec_resolve_def memory_book_def)
      next
        case False
        let ?s = "s\<lparr>od_pending := dpop oid (od_pending s)\<rparr>"
        have "record_resolution oid rec ?s = (None, memory_record oid rec ?s)" for rec
          using redis by (cases rec) (simp_all add: record_resolution_def)
        moreover have "get_offer ?s = get_offer s" by (intro ext) (simp add: get_offer_def cong: option.case_cong)
        ultimately have "resolves s oid d ?s"
          using m redis by (simp add: resolves_def service_inv_def service_book_def)
        with True st pend False Some redis show ?thesis
          by (simp add: resolvable_delivery_def check_resolvable_def service_book_def memory_book_def)
      qed
    qed
  qed
qed

lemma server_pending_iff:
  assumes "server_inv sv" "sv_delivery sv oid = Some d"
  shows "server_status sv oid = StPending \<longleftrightarrow> sv_state sv oid = Some (outcome_text Pending)"
proof -
  obtain x where "sv_state sv oid = Some (outcome_text x)"
    using server_invD(5,6) [OF assms(1), of oid] assms(2) by auto
  then show ?thesis by (cases x) (simp_all add: server_status_def)
qed

lemma redis_refused_or_pending:
  assumes inv: "server_inv sv" and redis: "od_redis s = Some sv"
  shows "(case resolvable_delivery now uuid oid s of
       (Inl e, s1) \<Rightarrow> service_inv s1 \<and> (\<forall>mk. spec_resolve now uuid oid mk (service_book s) = (Inl e, service_book s1))
     | (Inr d, s1) \<Rightarrow> service_book s oid = Some (d, StPending) \<and> \<not> offer_is_expired d now \<and> resolves s oid d s1)"
proof (cases "sv_delivery sv oid")
  case None
  then have "sv_state sv oid = None" using server_invD(5) [OF inv] by simp
  with None redis inv show ?thesis
    by (simp add: resolvable_delivery_def redis_get_resolvable_delivery_def service_inv_def service_book_def
        spec_resolve_def server_book_def)
next
  case (Some d)
  then obtain x where x: "sv_state sv oid = Some (outcome_text x)"
    using server_invD(5,6) [OF inv, of oid] by auto
  show ?thesis
  proof (cases "x = Pending")
    case False
    then show ?thesis
      using Some x redis inv
      by (cases x) (simp_all add: resolvable_delivery_def redis_get_resolvable_delivery_def service_inv_def
          service_book_def spec_resolve_def server_book_def server_status_def)
  next
    case True
    with x have p: "sv_state sv oid = Some (outcome_text Pending)" by simp
    have st: "server_status sv oid = StPending" using server_pending_iff [OF inv Some] p by simp
    note m = redis_resolve [OF inv Some p]
    show ?thesis
    proof (cases "offer_is_expired d now")
      case exp: True
      obtain sv' where "redis_transition oid (ExpiryRecord (expiry_of now uuid d)) sv = (TRANSITION_OK, sv')"
        "server_inv sv'" "server_book sv' = (server_book sv)(oid \<mapsto> (d, StExpired (expiry_of now uuid d)))"
        using m [of "ExpiryRecord (expiry_of now uuid d)"] by auto
      with p st exp Some redis show ?thesis
        by (simp add: resolvable_delivery_def redis_get_resolvable_delivery_def service_inv_def service_book_def
            spec_resolve_def server_book_def)
    next
      case False
      have "\<exists>s2. record_resolution oid rec s = (None, s2) \<and> service_inv s2
          \<and> service_book s2 = (service_book s)(oid \<mapsto> (d, record_status rec))" for rec
        using m [of rec] redis
        by (auto simp: record_resolution_def service_inv_def service_book_def raise_for_failed_transition_def)
      then have "resolves s oid d s" by (simp add: resolves_def)
      moreover have "s\<lparr>od_redis := Some sv\<rparr> = s" using redis by (cases s) simp
      ultimately have "resolves s oid d (s\<lparr>od_redis := Some sv\<rparr>)" by simp
      with p st False Some redis show ?thesis
        by (simp add: resolvable_delivery_def redis_get_resolvable_delivery_def service_book_def server_book_def)
    qed
  qed
qed

lemma refused_or_pending:
  assumes "service_inv s"
  shows "(case resolvable_delivery now uuid oid s of
       (Inl e, s1) \<Rightarrow> service_inv s1 \<and> (\<forall>mk. spec_resolve now uuid oid mk (service_book s) = (Inl e, service_book s1))
     | (Inr d, s1) \<Rightarrow> service_book s oid = Some (d, StPending) \<and> \<not> offer_is_expired d now \<and> resolves s oid d s1)"
proof (cases "od_redis s")
  case None
  then show ?thesis
    using assms memory_refused_or_pending [of s now uuid oid] by (simp add: service_inv_def)
next
  case (Some sv)
  then show ?thesis
    using assms redis_refused_or_pending [of sv s now uuid oid] by (simp add: service_inv_def)
qed

lemma service_frame [simp]:
  "service_inv (s\<lparr>od_calls := c\<rparr>) = service_inv s"
  "service_book (s\<lparr>od_calls := c\<rparr>) = service_book s"
  by (simp_all add: service_inv_def service_book_def cong: option.case_cong)

text \<open>Acceptance and rejection, with the result and the callbacks.\<close>

lemma accept_refines:
  assumes "service_inv s" "elo \<noteq> []"
  shows "case spec_resolve now uuid oid (\<lambda>d. StAccepted (acceptance_of now uuid elo d)) (service_book s) of
      (r, b) \<Rightarrow> service_inv (snd (offer_accept now uuid oid elo s))
        \<and> service_book (snd (offer_accept now uuid oid elo s)) = b
        \<and> fst (offer_accept now uuid oid elo s) = map_sum id (acceptance_of now uuid elo) r"
proof (cases "resolvable_delivery now uuid oid s")
  case (Pair r s1)
  show ?thesis
  proof (cases r)
    case (Inl e)
    then show ?thesis
      using refused_or_pending [OF assms(1), of now uuid oid] Pair assms(2) by (simp add: offer_accept_def)
  next
    case (Inr d)
    then have b: "service_book s oid = Some (d, StPending)" "\<not> offer_is_expired d now" and r: "resolves s oid d s1"
      using refused_or_pending [OF assms(1), of now uuid oid] Pair by simp_all
    from r obtain s2 where "record_resolution oid (AcceptanceRecord (acceptance_of now uuid elo d)) s1 = (None, s2)"
      "service_inv s2" "service_book s2 = (service_book s)(oid \<mapsto> (d, StAccepted (acceptance_of now uuid elo d)))"
      unfolding resolves_def by (metis record_status.simps(1))
    with b Pair Inr assms(2) show ?thesis
      by (simp add: offer_accept_def spec_resolve_def Let_def)
  qed
qed

lemma reject_refines:
  assumes "service_inv s" "elo \<noteq> []" "reason \<noteq> []"
  shows "case spec_resolve now uuid oid (\<lambda>d. StRejected (rejection_of now uuid elo reason d)) (service_book s) of
      (r, b) \<Rightarrow> service_inv (snd (offer_reject now uuid oid elo reason s))
        \<and> service_book (snd (offer_reject now uuid oid elo reason s)) = b
        \<and> fst (offer_reject now uuid oid elo reason s) = map_sum id (rejection_of now uuid elo reason) r"
proof (cases "resolvable_delivery now uuid oid s")
  case (Pair r s1)
  show ?thesis
  proof (cases r)
    case (Inl e)
    then show ?thesis
      using refused_or_pending [OF assms(1), of now uuid oid] Pair assms(2,3) by (simp add: offer_reject_def)
  next
    case (Inr d)
    then have b: "service_book s oid = Some (d, StPending)" "\<not> offer_is_expired d now" and r: "resolves s oid d s1"
      using refused_or_pending [OF assms(1), of now uuid oid] Pair by simp_all
    from r obtain s2 where "record_resolution oid (RejectionRecord (rejection_of now uuid elo reason d)) s1 = (None, s2)"
      "service_inv s2" "service_book s2 = (service_book s)(oid \<mapsto> (d, StRejected (rejection_of now uuid elo reason d)))"
      unfolding resolves_def by (metis record_status.simps(2))
    with b Pair Inr assms(2,3) show ?thesis
      by (simp add: offer_reject_def spec_resolve_def Let_def)
  qed
qed

text \<open>The sweep resolves a list of pending offers one after the other.\<close>

definition expired_in :: "time \<Rightarrow> (string \<Rightarrow> string) \<Rightarrow> (string \<times> LoanOfferDelivery) list \<Rightarrow> offer_book \<Rightarrow> offer_book" where
  "expired_in now uuids items b = (\<lambda>oid.
     case dget items oid of None \<Rightarrow> b oid | Some d \<Rightarrow> Some (d, StExpired (expiry_of now (uuids oid) d)))"

lemma expire_one:
  assumes "service_inv s" "service_book s oid = Some (d, StPending)"
  shows "\<exists>s2. record_resolution oid (ExpiryRecord e)
      (if od_redis s = None then s\<lparr>od_pending := dpop oid (od_pending s)\<rparr> else s) = (None, s2)
    \<and> service_inv s2 \<and> service_book s2 = (service_book s)(oid \<mapsto> (d, StExpired e))"
proof (cases "od_redis s")
  case None
  then have inv: "memory_inv s" and d: "od_deliveries s oid = Some d" "memory_status s oid = StPending"
    using assms by (auto simp: service_inv_def service_book_def memory_book_def split: option.splits)
  show ?thesis
    using memory_resolve [OF inv d refl, of "ExpiryRecord e"] None
    by (simp add: record_resolution_def service_inv_def service_book_def)
next
  case (Some sv)
  then have inv: "server_inv sv" and d: "sv_delivery sv oid = Some d" "server_status sv oid = StPending"
    using assms by (auto simp: service_inv_def service_book_def server_book_def split: option.splits)
  show ?thesis
    using redis_resolve [OF inv d(1), of "ExpiryRecord e"] server_pending_iff [OF inv d(1)] d(2) Some
    by (auto simp: record_resolution_def service_inv_def service_book_def raise_for_failed_transition_def)
qed

lemma expire_items_refines:
  assumes "service_inv s" "distinct (map fst items)"
    and "\<forall>(oid, d) \<in> set items. service_book s oid = Some (d, StPending)"
  shows "case expire_items now uuids items s of
      (es, s') \<Rightarrow> service_inv s' \<and> service_book s' = expired_in now uuids items (service_book s)
        \<and> es = map (\<lambda>(oid, d). expiry_of now (uuids oid) d) items"
  using assms
proof (induction items arbitrary: s)
  case Nil
  then show ?case by (simp add: expired_in_def)
next
  case (Cons it items)
  obtain oid d where it: "it = (oid, d)" by (cases it)
  let ?e = "expiry_of now (uuids oid) d"
  obtain s2 where s2: "record_resolution oid (ExpiryRecord ?e)
      (if od_redis s = None then s\<lparr>od_pending := dpop oid (od_pending s)\<rparr> else s) = (None, s2)"
    and inv: "service_inv s2" and b: "service_book s2 = (service_book s)(oid \<mapsto> (d, StExpired ?e))"
    using expire_one [OF Cons.prems(1), of oid d ?e] Cons.prems(3) it by auto
  have "\<forall>(k, d') \<in> set items. service_book s2 k = Some (d', StPending)"
    using Cons.prems(2,3) unfolding b it by (auto simp: rev_image_eqI)
  with Cons.IH [OF inv _ this] Cons.prems(2) it
  have "case expire_items now uuids items s2 of
      (es, s') \<Rightarrow> service_inv s' \<and> service_book s' = expired_in now uuids items (service_book s2)
        \<and> es = map (\<lambda>(oid, d). expiry_of now (uuids oid) d) items" by simp
  moreover have "expired_in now uuids items (service_book s2) = expired_in now uuids ((oid, d) # items) (service_book s)"
  proof -
    have "dget items oid = None" using Cons.prems(2) by (simp add: it map_of_eq_None_iff)
    then show ?thesis by (auto simp: fun_eq_iff expired_in_def b split: option.split)
  qed
  ultimately show ?case
    using s2 unfolding it by (simp add: Let_def split: prod.splits)
qed

lemma pending_items_spec:
  assumes "service_inv s"
  shows "distinct (map fst (pending_items s))
    \<and> (\<forall>oid d. (oid, d) \<in> set (pending_items s) \<longleftrightarrow> service_book s oid = Some (d, StPending))"
proof (cases "od_redis s")
  case None
  with assms have inv: "memory_inv s" by (simp add: service_inv_def)
  then have ok: "dict_ok (od_pending s)" by (simp add: memory_inv_def)
  have "(oid, d) \<in> set (od_pending s) \<longleftrightarrow> memory_book s oid = Some (d, StPending)" for oid d
    unfolding mem_dget [OF ok] using inv by (auto simp: memory_inv_def memory_book_def split: option.splits)
  with ok None show ?thesis by (simp add: pending_items_def service_book_def dict_ok_def)
next
  case (Some sv)
  with assms have inv: "server_inv sv" by (simp add: service_inv_def)
  define item where "item = (\<lambda>oid. case sv_delivery sv oid of None \<Rightarrow> [] | Some d \<Rightarrow> [(oid, d)])"
  have keys: "distinct xs \<Longrightarrow> distinct (map fst (concat (map item xs))) \<and> fst ` set (concat (map item xs)) \<subseteq> set xs" for xs
    by (induction xs) (auto simp: item_def split: option.splits)
  have "distinct (sv_pending sv)" using inv by (simp add: server_inv_def)
  moreover have "(oid, d) \<in> set (concat (map item (sv_pending sv))) \<longleftrightarrow> server_book sv oid = Some (d, StPending)" for oid d
    using server_invD(4) [OF inv, of oid] server_pending_iff [OF inv, of oid]
    by (auto simp: item_def server_book_def split: option.splits)
  ultimately show ?thesis
    using keys [of "sv_pending sv"] Some by (simp add: pending_items_def service_book_def item_def)
qed

lemma expire_refines:
  assumes "service_inv s"
  shows "service_inv (snd (expire_stale_offers now uuids s))
    \<and> service_book (snd (expire_stale_offers now uuids s)) = spec_expire now uuids (service_book s)
    \<and> (\<exists>items. distinct (map fst items)
        \<and> (\<forall>oid d. (oid, d) \<in> set items \<longleftrightarrow> service_book s oid = Some (d, StPending) \<and> offer_is_expired d now)
        \<and> fst (expire_stale_offers now uuids s) = map (\<lambda>(oid, d). expiry_of now (uuids oid) d) items)"
proof -
  define items where "items = filter (\<lambda>(oid, d). offer_is_expired d now) (pending_items s)"
  note p = pending_items_spec [OF assms]
  have dist: "distinct (map fst items)"
    using p unfolding items_def by (metis (no_types, lifting) distinct_map_filter)
  have mem: "(oid, d) \<in> set items \<longleftrightarrow> service_book s oid = Some (d, StPending) \<and> offer_is_expired d now" for oid d
    using p by (auto simp: items_def)
  have look: "dget items oid = Some d \<longleftrightarrow> service_book s oid = Some (d, StPending) \<and> offer_is_expired d now" for oid d
    using mem_dget [of items oid d] dist mem by (simp add: dict_ok_def)
  have "expired_in now uuids items (service_book s) = spec_expire now uuids (service_book s)"
  proof
    fix oid
    show "expired_in now uuids items (service_book s) oid = spec_expire now uuids (service_book s) oid"
    proof (cases "dget items oid")
      case None
      then have "\<not> (service_book s oid = Some (d, StPending) \<and> offer_is_expired d now)" for d
        using look by (metis option.distinct(1))
      with None show ?thesis
        by (auto simp: expired_in_def spec_expire_def split: option.splits offer_status.splits)
    next
      case (Some d)
      with look have "service_book s oid = Some (d, StPending)" "offer_is_expired d now" by simp_all
      with Some show ?thesis by (simp add: expired_in_def spec_expire_def)
    qed
  qed
  moreover have pend: "\<forall>(oid, d) \<in> set items. service_book s oid = Some (d, StPending)" using mem by auto
  obtain es s' where x: "expire_items now uuids items s = (es, s')"
    by (cases "expire_items now uuids items s")
  with expire_items_refines [OF assms dist pend, of now uuids]
  have "service_inv s'" "service_book s' = expired_in now uuids items (service_book s)"
    and es: "es = map (\<lambda>(oid, d). expiry_of now (uuids oid) d) items" by simp_all
  moreover have "expire_stale_offers now uuids s =
      (es, s'\<lparr>od_calls := od_calls s' @ (if od_on_expire s' then map OnExpire es else [])\<rparr>)"
    by (simp add: expire_stale_offers_def items_def [symmetric] x)
  ultimately show ?thesis using dist mem es by auto
qed

lemma store_delivery_refines:
  assumes "service_inv s" "service_book s (ld_offer_id d) = None"
  shows "service_inv (store_delivery d offer s)
    \<and> service_book (store_delivery d offer s) = (service_book s)(ld_offer_id d \<mapsto> (d, StPending))"
proof (cases "od_redis s")
  case None
  let ?s = "store_delivery d offer s" and ?oid = "ld_offer_id d"
  have inv: "memory_inv s" and new: "od_deliveries s ?oid = None"
    using assms None by (auto simp: service_inv_def service_book_def memory_book_def split: option.splits)
  have st: "memory_status ?s = memory_status s"
    using None by (simp add: store_delivery_def memory_status_def fun_eq_iff Let_def cong: option.case_cong)
  have old: "memory_status s ?oid = StPending" using inv new by (simp add: memory_inv_def)
  have f: "od_redis ?s = None" "od_pending ?s = dset ?oid d (od_pending s)"
    "od_deliveries ?s = (od_deliveries s)(?oid \<mapsto> d)" "od_acceptances ?s = od_acceptances s"
    "od_rejections ?s = od_rejections s" "od_expiries ?s = od_expiries s"
    using None by (simp_all add: store_delivery_def Let_def)
  have "memory_inv ?s"
    using inv old unfolding memory_inv_def st f by (auto simp: dict_simps)
  moreover have "memory_book ?s = (memory_book s)(?oid \<mapsto> (d, StPending))"
    using old by (auto simp: memory_book_def st f fun_eq_iff cong: option.case_cong)
  ultimately show ?thesis using None f by (simp add: service_inv_def service_book_def)
next
  case (Some sv)
  let ?oid = "ld_offer_id d"
  let ?sv = "redis_store_delivery ?oid d offer sv"
  have inv: "server_inv sv" and new: "sv_delivery sv ?oid = None"
    using assms Some by (auto simp: service_inv_def service_book_def server_book_def split: option.splits)
  then have new': "sv_state sv ?oid = None" by (simp add: server_invD(5))
  note I = server_invD [OF inv]
  have gone: "sv_acceptance sv ?oid = None" "sv_rejection sv ?oid = None" "sv_expiry sv ?oid = None"
    "?oid \<notin> set (sv_pending sv)"
    using I(1-4) [of ?oid] new' by simp_all
  have "server_inv ?sv"
    unfolding server_inv_def
  proof (intro conjI allI)
    show "distinct (sv_pending ?sv)" using inv gone by (simp add: redis_store_delivery_def server_inv_def)
    show "sv_state ?sv k = None \<longleftrightarrow> sv_delivery ?sv k = None" for k
      using I(5) [of k] by (simp add: redis_store_delivery_def)
    show "sv_state ?sv k \<in> {None} \<union> Some ` range outcome_text" for k
      using I(6) [of k] by (cases "sv_state sv k") (auto simp: redis_store_delivery_def simp del: outcome_text.simps)
    show "k \<in> set (sv_pending ?sv) \<longleftrightarrow> sv_state ?sv k = Some (outcome_text Pending)" for k
      using I(4) [of k] gone by (simp add: redis_store_delivery_def)
    show "sv_acceptance ?sv k \<noteq> None \<longleftrightarrow> sv_state ?sv k = Some (outcome_text Accepted)"
      "sv_rejection ?sv k \<noteq> None \<longleftrightarrow> sv_state ?sv k = Some (outcome_text Rejected)"
      "sv_expiry ?sv k \<noteq> None \<longleftrightarrow> sv_state ?sv k = Some (outcome_text Expired)" for k
      using I(1-3) [of k] gone new' by (simp_all add: redis_store_delivery_def)
  qed
  moreover have "server_book ?sv = (server_book sv)(?oid \<mapsto> (d, StPending))"
    by (auto simp: server_book_def redis_store_delivery_def server_status_def fun_eq_iff cong: option.case_cong)
  ultimately show ?thesis using Some by (simp add: store_delivery_def service_inv_def service_book_def)
qed

lemma service_step_refines:
  assumes "service_inv s" "op_fresh opn (service_book s)"
  shows "service_inv (service_step now opn s) \<and> service_book (service_step now opn s) = spec_step now opn (service_book s)"
proof (cases opn)
  case (BookDeliver d offer)
  with assms store_delivery_refines [of s d offer] show ?thesis
    by (simp add: service_step_def spec_step_def op_fresh_def)
next
  case (BookAccept uuid oid elo)
  show ?thesis
  proof (cases "elo = []")
    case True
    with BookAccept assms show ?thesis by (simp add: service_step_def spec_step_def offer_accept_def)
  next
    case False
    with BookAccept accept_refines [OF assms(1) False, of now uuid oid] show ?thesis
      by (simp add: service_step_def spec_step_def split: prod.splits)
  qed
next
  case (BookReject uuid oid elo reason)
  show ?thesis
  proof (cases "elo = [] \<or> reason = []")
    case True
    with BookReject assms show ?thesis by (auto simp: service_step_def spec_step_def offer_reject_def)
  next
    case False
    with BookReject reject_refines [OF assms(1), of elo reason now uuid oid] show ?thesis
      by (simp add: service_step_def spec_step_def split: prod.splits)
  qed
next
  case (BookExpire uuids)
  with expire_refines [OF assms(1), of now uuids] show ?thesis
    by (simp add: service_step_def spec_step_def)
qed

interpretation offers: offer_backend service_book service_step service_inv
  by unfold_locales (simp_all add: service_step_refines)

text \<open>A new service satisfies the invariant, on its own or with a server that does.\<close>

lemma new_service_inv:
  "(case redis of Some sv \<Rightarrow> server_inv sv | None \<Rightarrow> True) \<Longrightarrow>
   service_inv (offer_service_init a b c e endpoint redis)"
  by (simp add: service_inv_def memory_inv_def offer_service_init_def memory_status_def split: option.splits)

lemma offer_stored: "get_offer (store_delivery d offer s) (ld_offer_id d) = Some offer"
  by (simp add: get_offer_def store_delivery_def redis_store_delivery_def Let_def split: option.split)

lemma deliver_record_valid:
  "deliver_record fromiso now du fu endpoint offer = Inr d \<Longrightarrow>
   delivery_valid d \<and> ld_delivery_id d = du \<and> ld_delivered_at d = now \<and>
   (\<exists>v. dget offer ''loan_id'' = Some v \<and> uuid_value v = Inr (ld_offer_id d))"
  by (auto simp: deliver_record_def Let_def res_bind_Inr_iff split: if_splits option.splits)

text \<open>What \<open>deliver\<close> does: it raises and changes nothing, or returns the record of the offer and books it.\<close>

definition deliver_ok ::
    "(pyval \<Rightarrow> py_exc + time) \<Rightarrow> time \<Rightarrow> string \<Rightarrow> string \<Rightarrow> (string, pyval) dict \<Rightarrow> OfferDeliveryService \<Rightarrow> bool" where
  "deliver_ok fromiso now du fu offer s \<longleftrightarrow>
     (case deliver fromiso now du fu offer s of
        (Inl e, s') \<Rightarrow> s' = s \<and> deliver_record fromiso now du fu (od_delivery_endpoint s) offer = Inl e
      | (Inr d, s') \<Rightarrow> deliver_record fromiso now du fu (od_delivery_endpoint s) offer = Inr d \<and> delivery_valid d \<and>
          (service_book s (ld_offer_id d) = None \<longrightarrow> service_inv s' \<and>
             service_book s' = (service_book s)(ld_offer_id d \<mapsto> (d, StPending)) \<and>
             get_offer s' (ld_offer_id d) = Some (PDict offer)))"

lemma deliver_is_ok: "service_inv s \<Longrightarrow> deliver_ok fromiso now du fu offer s"
  using store_delivery_refines offer_stored deliver_record_valid
  by (auto simp: deliver_ok_def deliver_def split: sum.splits)

text \<open>
  C9: the service implements the offer book, with either back end.  From a state that satisfies the
  invariant, as a new service does, every operation keeps the invariant, and:
  \<open>deliver\<close> either raises and changes nothing, or returns a valid record of the offer, books it as pending
  under its id and keeps the offer itself, provided that the id is new (loan ids are fresh UUIDs);
  \<open>accept\<close> and \<open>reject\<close> change the book as the specification does and return the record built
  from the delivered offer, or raise the exception that the specification returns (\<open>ValueError\<close> for a missing
  operator or reason); a sweep expires in the book exactly the pending offers past their expiry and
  returns one expiry record for each of them and nothing else.
\<close>

theorem offer_service_refines_book:
  assumes "service_inv s"
  shows "deliver_ok fromiso now du fu offer s
    \<and> (let mk = (\<lambda>d. StAccepted (acceptance_of now uuid elo d)); (r, b) = spec_resolve now uuid oid mk (service_book s)
       in case offer_accept now uuid oid elo s of (res, s') \<Rightarrow>
         service_inv s'
         \<and> service_book s' = (if elo = [] then service_book s else b)
         \<and> res = (if elo = [] then Inl OfferValueError else map_sum id (acceptance_of now uuid elo) r))
    \<and> (let mk = (\<lambda>d. StRejected (rejection_of now uuid elo reason d)); (r, b) = spec_resolve now uuid oid mk (service_book s)
       in case offer_reject now uuid oid elo reason s of (res, s') \<Rightarrow>
         service_inv s'
         \<and> service_book s' = (if elo = [] \<or> reason = [] then service_book s else b)
         \<and> res = (if elo = [] \<or> reason = [] then Inl OfferValueError else map_sum id (rejection_of now uuid elo reason) r))
    \<and> (case expire_stale_offers now uuids s of (res, s') \<Rightarrow>
         service_inv s' \<and> service_book s' = spec_expire now uuids (service_book s)
         \<and> (\<exists>items. distinct (map fst items)
           \<and> (\<forall>oid d. (oid, d) \<in> set items \<longleftrightarrow> service_book s oid = Some (d, StPending) \<and> offer_is_expired d now)
           \<and> res = map (\<lambda>(oid, d). expiry_of now (uuids oid) d) items))"
proof (intro conjI)
  show "deliver_ok fromiso now du fu offer s" using assms by (rule deliver_is_ok)
  show "let mk = (\<lambda>d. StAccepted (acceptance_of now uuid elo d)); (r, b) = spec_resolve now uuid oid mk (service_book s)
      in case offer_accept now uuid oid elo s of (res, s') \<Rightarrow>
        service_inv s' \<and> service_book s' = (if elo = [] then service_book s else b)
        \<and> res = (if elo = [] then Inl OfferValueError else map_sum id (acceptance_of now uuid elo) r)"
  proof (cases "elo = []")
    case True with assms show ?thesis by (simp add: offer_accept_def split: prod.split)
  next
    case False
    with accept_refines [OF assms False, of now uuid oid] show ?thesis by (simp add: Let_def case_prod_beta)
  qed
  show "let mk = (\<lambda>d. StRejected (rejection_of now uuid elo reason d)); (r, b) = spec_resolve now uuid oid mk (service_book s)
      in case offer_reject now uuid oid elo reason s of (res, s') \<Rightarrow>
        service_inv s' \<and> service_book s' = (if elo = [] \<or> reason = [] then service_book s else b)
        \<and> res = (if elo = [] \<or> reason = [] then Inl OfferValueError else map_sum id (rejection_of now uuid elo reason) r)"
  proof (cases "elo = [] \<or> reason = []")
    case True with assms show ?thesis by (auto simp: offer_reject_def split: prod.split)
  next
    case False
    with reject_refines [OF assms, of elo reason now uuid oid] show ?thesis by (auto simp: Let_def case_prod_beta)
  qed
  show "case expire_stale_offers now uuids s of (res, s') \<Rightarrow>
      service_inv s' \<and> service_book s' = spec_expire now uuids (service_book s)
      \<and> (\<exists>items. distinct (map fst items)
        \<and> (\<forall>oid d. (oid, d) \<in> set items \<longleftrightarrow> service_book s oid = Some (d, StPending) \<and> offer_is_expired d now)
        \<and> res = map (\<lambda>(oid, d). expiry_of now (uuids oid) d) items)"
    using expire_refines [OF assms, of now uuids] by (simp add: case_prod_beta)
qed

definition sample_delivery :: LoanOfferDelivery where
  "sample_delivery =
     \<lparr> ld_delivery_id = ''D1'', ld_offer_id = ''O1'', ld_uetr = ''U1'', ld_elo_entity_id = ''BANK'',
       ld_principal_usd = 1000000, ld_fee_bps = 300, ld_fee_amount_usd = 0, ld_maturity_days = 7,
       ld_rejection_code_class = ''B'', ld_offer_expiry = 900, ld_pd_score = 1 / 20,
       ld_delivery_endpoint = None, ld_delivered_at = 0, ld_class_b_eligible = False \<rparr>"

definition empty_server :: offer_server where
  "empty_server =
     \<lparr> sv_state = Map.empty, sv_delivery = Map.empty, sv_offer = Map.empty, sv_acceptance = Map.empty,
       sv_rejection = Map.empty, sv_expiry = Map.empty, sv_pending = [] \<rparr>"

lemma empty_server_inv: "server_inv empty_server"
  by (simp add: server_inv_def empty_server_def)

definition sample_service :: "offer_server option \<Rightarrow> OfferDeliveryService" where
  "sample_service redis = offer_service_init True False False False None redis"

lemma sample_service_inv: "redis \<in> {None, Some empty_server} \<Longrightarrow> service_inv (sample_service redis)"
  using empty_server_inv
  by (auto simp: sample_service_def service_inv_def offer_service_init_def memory_inv_def memory_status_def)

lemma sample_service_book: "redis \<in> {None, Some empty_server} \<Longrightarrow> service_book (sample_service redis) = Map.empty"
  by (auto simp: sample_service_def service_book_def offer_service_init_def memory_book_def server_book_def
      empty_server_def fun_eq_iff)

lemma one_item:
  assumes "distinct (map fst items)" "\<And>k v. (k, v) \<in> set items \<longleftrightarrow> k = a \<and> v = b"
  shows "items = [(a, b)]"
proof -
  have items: "set items = {(a, b)}" using assms(2) by auto
  moreover have "distinct items" using assms(1) by (rule distinct_map [THEN iffD1, THEN conjunct1])
  ultimately have "length items = 1" by (simp add: distinct_card [symmetric])
  then obtain x where "items = [x]" by (metis One_nat_def length_0_conv length_Suc_conv)
  with items show ?thesis by simp
qed

definition sample_terms_offered :: "(string, pyval) dict" where
  "sample_terms_offered =
     [(''loan_id'', PStr ''00000000-0000-0000-0000-000000000007''), (''uetr'', PNone), (''loan_amount'', PNum 1000000),
      (''fee_bps'', PNum 300), (''fee_amount_usd'', PNum 0), (''maturity_days'', PNum 7), (''expires_at'', PTime 900),
      (''pd_score'', PNum (1 / 20))]"

text \<open>Delivered through Redis, the offer is in the book; in memory, a sweep at 900 returns the one expiry.\<close>

lemma offer_service_refines_book_witness:
  "(\<exists>d s'. deliver (\<lambda>_. Inl ValueError) 10 ''D1'' ''F1'' sample_terms_offered (sample_service (Some empty_server)) = (Inr d, s') \<and>
     service_book s' = [ld_offer_id d \<mapsto> (d, StPending)] \<and> get_offer s' (ld_offer_id d) = Some (PDict sample_terms_offered)) \<and>
   fst (expire_stale_offers 900 (\<lambda>_. ''X'') (store_delivery sample_delivery (PDict []) (sample_service None))) =
     [expiry_of 900 ''X'' sample_delivery]"
proof
  let ?s = "sample_service (Some empty_server)"
  let ?d = "deliver (\<lambda>_. Inl ValueError) 10 ''D1'' ''F1'' sample_terms_offered ?s"
  have "case fst ?d of Inr d \<Rightarrow> True | Inl e \<Rightarrow> False" by code_simp
  then obtain d s' where d: "?d = (Inr d, s')" by (cases ?d) (auto split: sum.splits)
  have "deliver_ok (\<lambda>_. Inl ValueError) 10 ''D1'' ''F1'' sample_terms_offered ?s"
    using offer_service_refines_book [OF sample_service_inv, of "Some empty_server"] by blast
  with d show "\<exists>d s'. ?d = (Inr d, s') \<and> service_book s' = [ld_offer_id d \<mapsto> (d, StPending)] \<and>
      get_offer s' (ld_offer_id d) = Some (PDict sample_terms_offered)"
    by (simp add: deliver_ok_def sample_service_book)
next
  let ?s = "store_delivery sample_delivery (PDict []) (sample_service None)"
  have b: "service_inv ?s" "service_book ?s = [''O1'' \<mapsto> (sample_delivery, StPending)]"
    using store_delivery_refines [OF sample_service_inv, of None sample_delivery "PDict []"]
    by (simp_all add: sample_service_book sample_delivery_def)
  have due: "offer_is_expired sample_delivery 900" by (simp add: offer_is_expired_def sample_delivery_def)
  have "\<exists>items. distinct (map fst items) \<and>
      (\<forall>oid d. (oid, d) \<in> set items \<longleftrightarrow> service_book ?s oid = Some (d, StPending) \<and> offer_is_expired d 900) \<and>
      fst (expire_stale_offers 900 (\<lambda>_. ''X'') ?s) = map (\<lambda>(oid, d). expiry_of 900 ''X'' d) items"
    using offer_service_refines_book [OF b(1), where now = 900 and uuids = "\<lambda>_. ''X''"]
    unfolding case_prod_beta by blast
  then obtain items where items: "distinct (map fst items)"
    "\<forall>oid d. (oid, d) \<in> set items \<longleftrightarrow> service_book ?s oid = Some (d, StPending) \<and> offer_is_expired d 900"
    "fst (expire_stale_offers 900 (\<lambda>_. ''X'') ?s) = map (\<lambda>(oid, d). expiry_of 900 ''X'' d) items" by blast
  have "service_book ?s oid = Some (d, StPending) \<and> offer_is_expired d 900 \<longleftrightarrow> oid = ''O1'' \<and> d = sample_delivery" for oid d
    unfolding b(2) using due by (cases "oid = ''O1''") auto
  with items(2) have "items = [(''O1'', sample_delivery)]" by (intro one_item [OF items(1)]) simp
  with items(3) show "fst (expire_stale_offers 900 (\<lambda>_. ''X'') ?s) = [expiry_of 900 ''X'' sample_delivery]" by simp
qed

section \<open>Finality\<close>

fun status_outcome :: "offer_status \<Rightarrow> OfferDeliveryOutcome" where
  "status_outcome StPending = Pending"
| "status_outcome (StAccepted a) = Accepted"
| "status_outcome (StRejected r) = Rejected"
| "status_outcome (StExpired e) = Expired"

lemma get_outcome_book:
  assumes "service_inv s"
  shows "get_outcome s oid =
    (case service_book s oid of None \<Rightarrow> Inl OfferNotFoundException | Some (d, st) \<Rightarrow> Inr (status_outcome st))"
proof (cases "od_redis s")
  case None
  with assms have inv: "memory_inv s" by (simp add: service_inv_def)
  show ?thesis
  proof (cases "memory_status s oid = StPending")
    case True
    have "dget (od_pending s) oid = od_deliveries s oid" using inv True by (simp add: memory_inv_def)
    moreover have "od_acceptances s oid = None" "od_rejections s oid = None" "od_expiries s oid = None"
      using True by (simp_all add: pending_status)
    ultimately show ?thesis
      using True None by (simp add: get_outcome_def service_book_def memory_book_def split: option.splits)
  next
    case False
    then obtain d where "od_deliveries s oid = Some d" using inv unfolding memory_inv_def by fastforce
    with False None show ?thesis
      by (auto simp: get_outcome_def service_book_def memory_book_def memory_status_def split: option.splits)
  qed
next
  case (Some sv)
  with assms have inv: "server_inv sv" by (simp add: service_inv_def)
  show ?thesis
  proof (cases "sv_state sv oid")
    case None
    then have "sv_delivery sv oid = None" using server_invD(5) [OF inv] by simp
    with None Some show ?thesis by (simp add: get_outcome_def service_book_def server_book_def)
  next
    case st: (Some t)
    then obtain x d where "t = outcome_text x" "sv_delivery sv oid = Some d"
      using server_invD(5,6) [OF inv, of oid] by auto
    with st Some show ?thesis
      by (cases x) (simp_all add: get_outcome_def service_book_def server_book_def server_status_def outcome_of_text_def)
  qed
qed

text \<open>
  An offer is resolved once.  With either back end, once an offer is accepted, rejected or
  expired, no sequence of deliveries of other offers, acceptances, rejections and sweeps changes its
  outcome, what was delivered or the record it was resolved with, and accepting it raises; an offer that
  is pending stays in the book, and the first operation that changes it leaves an acceptance or rejection
  before its expiry time, or an expiry at or after it.
\<close>

lemma offer_resolved_once:
  assumes "service_inv s" "offers.history_fresh evs s" "get_outcome s oid = Inr out" "out \<noteq> Pending"
  shows "get_outcome (offers.run evs s) oid = Inr out
    \<and> service_book (offers.run evs s) oid = service_book s oid
    \<and> (\<exists>e. fst (offer_accept now uuid oid elo (offers.run evs s)) = Inl e)"
proof -
  obtain d st where b: "service_book s oid = Some (d, st)" and out: "out = status_outcome st"
    using assms(3) get_outcome_book [OF assms(1), of oid] by (auto split: option.splits)
  have t: "terminal_status st" using assms(4) out by (auto simp: terminal_status_def)
  have b': "service_book (offers.run evs s) oid = Some (d, st)"
    by (rule offers.resolution_is_final [OF assms(1,2) b t])
  have inv: "service_inv (offers.run evs s)" by (rule offers.run_inv [OF assms(1,2)])
  have "\<exists>e. fst (offer_accept now uuid oid elo (offers.run evs s)) = Inl e"
  proof (cases "elo = []")
    case True then show ?thesis by (simp add: offer_accept_def)
  next
    case False
    with accept_refines [OF inv False, of now uuid oid] b' t show ?thesis
      by (auto simp: spec_resolve_def terminal_status_def split: prod.splits offer_status.splits)
  qed
  with b b' out get_outcome_book [OF inv, of oid] show ?thesis by simp
qed

lemma offer_resolved_once_witness:
  "let s = offers.run [(0, BookDeliver sample_delivery (PDict [])), (10, BookAccept ''A1'' ''O1'' ''op'')] (sample_service None)
   in get_outcome (offers.run [(20, BookReject ''R1'' ''O1'' ''op'' ''late''), (1000, BookExpire (\<lambda>_. ''X''))] s) ''O1''
      = Inr Accepted"
proof -
  let ?s = "offers.run [(0, BookDeliver sample_delivery (PDict [])), (10, BookAccept ''A1'' ''O1'' ''op'')] (sample_service None)"
  have i: "service_inv (sample_service None)" and b0: "service_book (sample_service None) = Map.empty"
    by (simp_all add: sample_service_inv sample_service_book)
  have f: "offers.history_fresh [(0, BookDeliver sample_delivery (PDict [])), (10, BookAccept ''A1'' ''O1'' ''op'')] (sample_service None)"
    by (simp add: op_fresh_def b0)
  have inv: "service_inv ?s" by (rule offers.run_inv [OF i f])
  have "service_book ?s = spec_step 10 (BookAccept ''A1'' ''O1'' ''op'') (spec_step 0 (BookDeliver sample_delivery (PDict [])) Map.empty)"
    unfolding offers.run_refines_spec [OF i f] b0 by simp
  then have "service_book ?s ''O1'' = Some (sample_delivery, StAccepted (acceptance_of 10 ''A1'' ''op'' sample_delivery))"
    by (simp add: spec_step_def spec_resolve_def sample_delivery_def offer_is_expired_def)
  then have out: "get_outcome ?s ''O1'' = Inr Accepted" unfolding get_outcome_book [OF inv] by simp
  have "offers.history_fresh [(20, BookReject ''R1'' ''O1'' ''op'' ''late''), (1000, BookExpire (\<lambda>_. ''X''))] ?s"
    by (simp add: op_fresh_def)
  from offer_resolved_once [OF inv this out] show ?thesis by (simp add: Let_def)
qed

section \<open>Processes that race\<close>

text \<open>
  Processes that share the Redis server: the lock of the service orders the calls of one process only,
  so between the reads of one process and its transition any other process may run.  An attempt is what
  a process holds in that window: an offer id and the record it is about to write.
\<close>

record race =
  ra_server :: offer_server
  ra_attempt :: "nat \<Rightarrow> (string \<times> resolution_record) option"
  ra_won :: "(string \<times> resolution_record) list"

datatype race_event =
    TryAccept nat time string string string  \<comment> \<open>process, time, uuid, offer, operator\<close>
  | TryReject nat time string string string string
  | TryExpire nat time string string
  | Commit nat

definition try_resolve :: "nat \<Rightarrow> time \<Rightarrow> string \<Rightarrow> string \<Rightarrow> (LoanOfferDelivery \<Rightarrow> resolution_record) \<Rightarrow> race \<Rightarrow> race" where
  "try_resolve i now uuid oid mk c =
     (case redis_get_resolvable_delivery now uuid oid (ra_server c) of
        (Inr d, sv) \<Rightarrow> c\<lparr>ra_server := sv, ra_attempt := (ra_attempt c)(i \<mapsto> (oid, mk d))\<rparr>
      | (Inl e, sv) \<Rightarrow>
          c\<lparr>ra_server := sv, ra_attempt := (ra_attempt c)(i := None),
            ra_won := ra_won c @
              (if sv_state sv oid \<noteq> sv_state (ra_server c) oid
               then [(oid, ExpiryRecord (expiry_of now uuid (the (sv_delivery sv oid))))] else [])\<rparr>)"

definition race_step :: "race_event \<Rightarrow> race \<Rightarrow> race" where
  "race_step ev c =
     (case ev of
        TryAccept i now uuid oid elo \<Rightarrow> try_resolve i now uuid oid (\<lambda>d. AcceptanceRecord (acceptance_of now uuid elo d)) c
      | TryReject i now uuid oid elo reason \<Rightarrow>
          try_resolve i now uuid oid (\<lambda>d. RejectionRecord (rejection_of now uuid elo reason d)) c
      | TryExpire i now uuid oid \<Rightarrow>
          (case sv_delivery (ra_server c) oid of
             None \<Rightarrow> c
           | Some d \<Rightarrow>
               if offer_is_expired d now
               then c\<lparr>ra_attempt := (ra_attempt c)(i \<mapsto> (oid, ExpiryRecord (expiry_of now uuid d)))\<rparr> else c)
      | Commit i \<Rightarrow>
          (case ra_attempt c i of
             None \<Rightarrow> c
           | Some (oid, rec) \<Rightarrow>
               (case redis_transition oid rec (ra_server c) of
                  (answer, sv) \<Rightarrow>
                    c\<lparr>ra_server := sv, ra_attempt := (ra_attempt c)(i := None),
                      ra_won := ra_won c @ (if answer = TRANSITION_OK then [(oid, rec)] else [])\<rparr>)))"

text \<open>Every transition that won is the one the server remembers; an offer nobody won is pending.\<close>

definition race_inv :: "race \<Rightarrow> bool" where
  "race_inv c \<longleftrightarrow> server_inv (ra_server c) \<and> distinct (map fst (ra_won c)) \<and>
     (\<forall>oid. map_option snd (server_book (ra_server c) oid) =
        (if server_book (ra_server c) oid = None then None
         else Some (case dget (ra_won c) oid of None \<Rightarrow> StPending | Some rec \<Rightarrow> record_status rec))) \<and>
     (\<forall>oid \<in> fst ` set (ra_won c). server_book (ra_server c) oid \<noteq> None)"

lemma race_won_step:
  assumes inv: "race_inv c" and p: "server_book (ra_server c) oid = Some (d, StPending)"
    and sv: "server_inv sv" "server_book sv = (server_book (ra_server c))(oid \<mapsto> (d, record_status rec))"
  shows "race_inv (c\<lparr>ra_server := sv, ra_attempt := a, ra_won := ra_won c @ [(oid, rec)]\<rparr>)"
proof -
  have won: "map_option snd (server_book (ra_server c) k) =
      (if server_book (ra_server c) k = None then None
       else Some (case dget (ra_won c) k of None \<Rightarrow> StPending | Some rec \<Rightarrow> record_status rec))" for k
    using inv by (simp add: race_inv_def)
  have fresh: "dget (ra_won c) oid = None" using won [of oid] p
    by (auto simp: record_status_terminal [symmetric] split: option.splits)
  then have fresh': "oid \<notin> fst ` set (ra_won c)" by (simp add: map_of_eq_None_iff)
  have look: "dget (ra_won c @ [(oid, rec)]) k = (if k = oid then Some rec else dget (ra_won c) k)" for k
    using fresh by (auto simp: map_add_def split: option.splits)
  have "distinct (map fst (ra_won c @ [(oid, rec)]))"
    using inv fresh' by (simp add: race_inv_def)
  moreover have "map_option snd (server_book sv k) = (if server_book sv k = None then None
      else Some (case dget (ra_won c @ [(oid, rec)]) k of None \<Rightarrow> StPending | Some rec \<Rightarrow> record_status rec))" for k
    using won [of k] unfolding look sv(2) by (cases "server_book (ra_server c) k") auto
  moreover have "\<forall>k \<in> fst ` set (ra_won c @ [(oid, rec)]). server_book sv k \<noteq> None"
    using inv by (auto simp: sv(2) race_inv_def)
  ultimately show ?thesis using sv(1) by (simp add: race_inv_def)
qed

lemma race_inv_frame [simp]: "race_inv (c\<lparr>ra_attempt := a\<rparr>) = race_inv c"
  by (simp add: race_inv_def)

lemma try_resolve_inv:
  assumes inv: "race_inv c"
  shows "race_inv (try_resolve i now uuid oid mk c)"
proof (cases "redis_get_resolvable_delivery now uuid oid (ra_server c)")
  case (Pair r sv)
  have s: "server_inv (ra_server c)" using inv by (simp add: race_inv_def)
  show ?thesis
  proof (cases "\<exists>d. sv_delivery (ra_server c) oid = Some d \<and> sv_state (ra_server c) oid = Some (outcome_text Pending) \<and> offer_is_expired d now")
    case True
    then obtain d where d: "sv_delivery (ra_server c) oid = Some d"
      and p: "sv_state (ra_server c) oid = Some (outcome_text Pending)" and e: "offer_is_expired d now" by blast
    let ?rec = "ExpiryRecord (expiry_of now uuid d)"
    obtain sv' where t: "redis_transition oid ?rec (ra_server c) = (TRANSITION_OK, sv')" "server_inv sv'"
      "server_book sv' = (server_book (ra_server c))(oid \<mapsto> (d, record_status ?rec))"
      using redis_resolve [OF s d p, of ?rec] by auto
    have b: "server_book (ra_server c) oid = Some (d, StPending)"
      using server_pending_iff [OF s d] p d by (simp add: server_book_def)
    have "sv_state sv' oid = Some (outcome_text Expired)" "sv_delivery sv' oid = Some d"
      using t(1) p d by (auto simp: redis_transition_def Let_def)
    moreover have "r = Inl OfferExpiredException" "sv = sv'"
      using Pair d p e t(1) by (simp_all add: redis_get_resolvable_delivery_def)
    ultimately have "try_resolve i now uuid oid mk c = c\<lparr>ra_server := sv', ra_attempt := (ra_attempt c)(i := None),
        ra_won := ra_won c @ [(oid, ?rec)]\<rparr>"
      using Pair p by (simp add: try_resolve_def)
    then show ?thesis using race_won_step [OF inv b t(2,3)] by simp
  next
    case False
    then have "sv = ra_server c"
      using Pair by (auto simp: redis_get_resolvable_delivery_def split: option.splits if_splits)
    moreover have "c\<lparr>ra_server := ra_server c, ra_attempt := x\<rparr> = c\<lparr>ra_attempt := x\<rparr>"
      "c\<lparr>ra_server := ra_server c, ra_attempt := x, ra_won := ra_won c\<rparr> = c\<lparr>ra_attempt := x\<rparr>" for x
      by (cases c; simp)+
    ultimately show ?thesis using Pair inv by (cases r) (simp_all add: try_resolve_def)
  qed
qed

lemma commit_inv:
  assumes inv: "race_inv c"
  shows "race_inv (race_step (Commit i) c)"
proof (cases "ra_attempt c i")
  case None
  with inv show ?thesis by (simp add: race_step_def)
next
  case (Some att)
  obtain oid rec where att: "att = (oid, rec)" by (cases att)
  have s: "server_inv (ra_server c)" using inv by (simp add: race_inv_def)
  show ?thesis
  proof (cases "sv_state (ra_server c) oid = Some (outcome_text Pending)")
    case True
    then obtain d where d: "sv_delivery (ra_server c) oid = Some d"
      using server_invD(5) [OF s, of oid] by fastforce
    obtain sv' where t: "redis_transition oid rec (ra_server c) = (TRANSITION_OK, sv')" "server_inv sv'"
      "server_book sv' = (server_book (ra_server c))(oid \<mapsto> (d, record_status rec))"
      using redis_resolve [OF s d True, of rec] by auto
    have b: "server_book (ra_server c) oid = Some (d, StPending)"
      using server_pending_iff [OF s d] True d by (simp add: server_book_def)
    from t Some att show ?thesis
      using race_won_step [OF inv b t(2,3), of "(ra_attempt c)(i := None)"] by (simp add: race_step_def)
  next
    case False
    obtain answer where t: "redis_transition oid rec (ra_server c) = (answer, ra_server c)" "answer \<noteq> TRANSITION_OK"
    proof (cases "sv_state (ra_server c) oid")
      case None
      then show ?thesis
        using that [of TRANSITION_MISSING]
        by (simp add: redis_transition_def TRANSITION_OK_def TRANSITION_MISSING_def)
    next
      case st: (Some x)
      then obtain y where "x = outcome_text y" using server_invD(6) [OF s, of oid] by auto
      then have "x \<noteq> TRANSITION_OK" by (cases y) (simp_all add: TRANSITION_OK_def)
      then show ?thesis using that [of x] st False by (auto simp: redis_transition_def)
    qed
    have "c\<lparr>ra_server := ra_server c, ra_attempt := x, ra_won := ra_won c\<rparr> = c\<lparr>ra_attempt := x\<rparr>" for x
      by (cases c) simp
    with t Some att inv show ?thesis by (simp add: race_step_def)
  qed
qed

lemma race_step_inv: "race_inv c \<Longrightarrow> race_inv (race_step ev c)"
proof (cases ev)
  case (Commit i)
  then show "race_inv c \<Longrightarrow> race_inv (race_step ev c)" using commit_inv by simp
qed (auto simp: race_step_def try_resolve_inv split: option.splits)

text \<open>
  C6: one winner per offer.  However many processes accept, reject and sweep the offers of one
  Redis server, and however their reads and transitions interleave, at most one of all the attempts at an
  offer wins; the server then remembers exactly the winner's record, and an offer no attempt has won is
  still pending.
\<close>

theorem one_winner_per_offer:
  assumes "server_inv (ra_server c)" "ra_won c = []"
    and "\<forall>oid d st. server_book (ra_server c) oid = Some (d, st) \<longrightarrow> st = StPending"
  shows "let c' = fold race_step evs c
    in distinct (map fst (ra_won c'))
     \<and> (\<forall>oid rec. (oid, rec) \<in> set (ra_won c') \<longrightarrow>
          (\<exists>d. server_book (ra_server c') oid = Some (d, record_status rec)))
     \<and> (\<forall>oid d st. server_book (ra_server c') oid = Some (d, st) \<longrightarrow> oid \<notin> fst ` set (ra_won c') \<longrightarrow> st = StPending)"
proof -
  have start: "race_inv c"
    using assms by (auto simp: race_inv_def)
  have "race_inv (fold race_step evs c)"
    using start by (induction evs arbitrary: c) (simp_all add: race_step_inv)
  then have inv: "distinct (map fst (ra_won (fold race_step evs c)))"
    and book: "map_option snd (server_book (ra_server (fold race_step evs c)) oid) =
      (if server_book (ra_server (fold race_step evs c)) oid = None then None
       else Some (case dget (ra_won (fold race_step evs c)) oid of None \<Rightarrow> StPending | Some rec \<Rightarrow> record_status rec))"
    and known: "oid \<in> fst ` set (ra_won (fold race_step evs c)) \<Longrightarrow>
      server_book (ra_server (fold race_step evs c)) oid \<noteq> None" for oid
    unfolding race_inv_def by blast+
  have won: "\<exists>d. server_book (ra_server (fold race_step evs c)) oid = Some (d, record_status rec)"
    if "(oid, rec) \<in> set (ra_won (fold race_step evs c))" for oid rec
  proof -
    have "dget (ra_won (fold race_step evs c)) oid = Some rec" using that inv by simp
    then show ?thesis
      using book [of oid] known [of oid] that by (auto simp: rev_image_eqI split: if_splits)
  qed
  have pending: "st = StPending" if "server_book (ra_server (fold race_step evs c)) oid = Some (d, st)"
    "oid \<notin> fst ` set (ra_won (fold race_step evs c))" for oid d st
    using book [of oid] that by (simp add: map_of_eq_None_iff [symmetric])
  show ?thesis unfolding Let_def using inv won pending by blast
qed

lemma one_winner_per_offer_witness:
  "let c = \<lparr> ra_server = redis_store_delivery ''O1'' sample_delivery (PDict []) empty_server,
             ra_attempt = (\<lambda>_. None), ra_won = [] \<rparr>;
       c' = fold race_step [TryAccept 0 10 ''A1'' ''O1'' ''op'', TryExpire 1 1000 ''X1'' ''O1'', Commit 1, Commit 0] c
   in distinct (map fst (ra_won c'))"
proof -
  let ?sv = "redis_store_delivery ''O1'' sample_delivery (PDict []) empty_server"
  let ?c = "\<lparr> ra_server = ?sv, ra_attempt = (\<lambda>_. None), ra_won = [] \<rparr>"
  let ?s = "store_delivery sample_delivery (PDict []) (sample_service (Some empty_server))"
  have r: "od_redis ?s = Some ?sv"
    by (simp add: store_delivery_def sample_service_def offer_service_init_def sample_delivery_def Let_def)
  have "service_inv ?s \<and> service_book ?s = (service_book (sample_service (Some empty_server)))(ld_offer_id sample_delivery \<mapsto> (sample_delivery, StPending))"
    by (rule store_delivery_refines) (simp_all add: sample_service_inv sample_service_book)
  then have i: "server_inv (ra_server ?c)" and b: "server_book (ra_server ?c) = [''O1'' \<mapsto> (sample_delivery, StPending)]"
    using r by (simp_all add: service_inv_def service_book_def sample_service_book)
      (simp_all add: sample_service_def service_book_def offer_service_init_def server_book_def empty_server_def
        sample_delivery_def fun_eq_iff)
  have p: "\<forall>oid d st. server_book (ra_server ?c) oid = Some (d, st) \<longrightarrow> st = StPending"
    unfolding b by simp
  have w: "ra_won ?c = []" by simp
  from one_winner_per_offer [OF i w p, of
      "[TryAccept 0 10 ''A1'' ''O1'' ''op'', TryExpire 1 1000 ''X1'' ''O1'', Commit 1, Commit 0]"]
  show ?thesis unfolding Let_def by (elim conjE)
qed

end
