(* ===== verification/Stress_Detector.thy ===== *)
theory Stress_Detector
  imports Constants
begin

text \<open>
  \<open>lip/c5_streaming/stress_regime_detector.py\<close>: rolling failure rates per corridor and rail.  A bucket is
  the list of the deque, oldest first; a missing key of the \<open>defaultdict\<close> is the empty list.  A call
  takes one clock reading.  The outcomes of the producer's calls are arguments of \<open>emit\<close>: the three
  attempts on the stress topic, and the dead-letter topic.

  Shown: whatever was recorded and asked before, in whatever order, the verdict is that of the full
  history cut to the two windows, so that evicting old entries is never observable; an event is emitted
  exactly once, wherever it ends up.
\<close>

record StressRegimeEvent =
  se_corridor :: string
  se_failure_rate_1h :: pyfloat
  se_baseline_rate :: pyfloat
  se_ratio :: "pyfloat option"  \<comment> \<open>\<open>None\<close> is infinity\<close>
  se_triggered_at :: time
  se_rail :: "string option"

type_synonym bucket = "(time \<times> bool) list"

record StressRegimeDetector =
  sd_baseline_window :: int
  sd_current_window :: int
  sd_multiplier :: pyfloat
  sd_min_txns :: int
  sd_producer :: bool
  sd_history :: "string \<times> string \<Rightarrow> bucket"
  sd_emitted_events :: "StressRegimeEvent list"
  sd_published :: "StressRegimeEvent list"
  sd_dead_letters :: "StressRegimeEvent list"

definition stress_init :: "int \<Rightarrow> int \<Rightarrow> pyfloat \<Rightarrow> int \<Rightarrow> bool \<Rightarrow> StressRegimeDetector" where
  "stress_init baseline current multiplier min_txns producer =
     \<lparr> sd_baseline_window = baseline, sd_current_window = current, sd_multiplier = multiplier,
       sd_min_txns = min_txns, sd_producer = producer, sd_history = (\<lambda>_. []), sd_emitted_events = [],
       sd_published = [], sd_dead_letters = [] \<rparr>"

definition windows_for :: "StressRegimeDetector \<Rightarrow> string option \<Rightarrow> int \<times> int \<times> int" where
  "windows_for s rail =
     (let defaults = (sd_baseline_window s, sd_current_window s, sd_min_txns s)
      in case rail of
           None \<Rightarrow> defaults
         | Some r \<Rightarrow> (case dget RAIL_STRESS_WINDOWS (py_upper r) of None \<Rightarrow> defaults | Some cfg \<Rightarrow> cfg))"

definition bucket_key :: "string \<Rightarrow> string option \<Rightarrow> string \<times> string" where
  "bucket_key corridor rail = (case rail of None \<Rightarrow> [] | Some r \<Rightarrow> py_upper r, corridor)"

definition stress_cleanup :: "StressRegimeDetector \<Rightarrow> time \<Rightarrow> string \<Rightarrow> string option \<Rightarrow> StressRegimeDetector" where
  "stress_cleanup s now corridor rail =
     (let (baseline_window, _, _) = windows_for s rail;
          cutoff = now - of_int baseline_window;
          key = bucket_key corridor rail
      in s\<lparr>sd_history := (sd_history s)(key := dropWhile (\<lambda>(t, _). t < cutoff) (sd_history s key))\<rparr>)"

definition record_event :: "StressRegimeDetector \<Rightarrow> time \<Rightarrow> string \<Rightarrow> bool \<Rightarrow> string option \<Rightarrow> StressRegimeDetector" where
  "record_event s now corridor is_failure rail =
     (let key = bucket_key corridor rail;
          s = s\<lparr>sd_history := (sd_history s)(key := sd_history s key @ [(now, is_failure)])\<rparr>
      in stress_cleanup s now corridor rail)"

definition failures :: "bucket \<Rightarrow> int" where
  "failures evs = int (length (filter snd evs))"

text \<open>\<open>failures / len\<close>, which raises on an empty list.\<close>

definition failure_rate :: "bucket \<Rightarrow> py_exc + pyfloat" where
  "failure_rate evs =
     (if evs = [] then Inl OtherException else Inr (of_int (failures evs) / of_int (int (length evs))))"

definition failure_rate_or_0 :: "bucket \<Rightarrow> pyfloat" where
  "failure_rate_or_0 evs = (if evs = [] then 0 else of_int (failures evs) / of_int (int (length evs)))"

definition stress_verdict :: "int \<times> int \<times> int \<Rightarrow> pyfloat \<Rightarrow> time \<Rightarrow> bucket \<Rightarrow> py_exc + bool" where
  "stress_verdict windows multiplier now history =
     (let (_, current_window, min_txns) = windows;
          current_cutoff = now - of_int current_window;
          current_events = filter (\<lambda>(t, _). t \<ge> current_cutoff) history
      in if int (length current_events) < min_txns then Inr False
         else
           res_bind (failure_rate current_events) (\<lambda>current_rate.
           let baseline_events = filter (\<lambda>(t, _). t < current_cutoff) history
           in if int (length baseline_events) < min_txns then Inr False
              else
                res_bind (failure_rate baseline_events) (\<lambda>baseline_rate.
                if baseline_rate = 0 then Inr (failures current_events > 0)
                else Inr (current_rate > baseline_rate * multiplier))))"

definition is_stressed ::
    "StressRegimeDetector \<Rightarrow> time \<Rightarrow> string \<Rightarrow> string option \<Rightarrow> (py_exc + bool) \<times> StressRegimeDetector" where
  "is_stressed s now corridor rail =
     (let s = stress_cleanup s now corridor rail
      in (stress_verdict (windows_for s rail) (sd_multiplier s) now (sd_history s (bucket_key corridor rail)), s))"

definition stress_window_rates ::
    "StressRegimeDetector \<Rightarrow> time \<Rightarrow> string \<Rightarrow> string option \<Rightarrow> (pyfloat \<times> pyfloat) \<times> StressRegimeDetector" where
  "stress_window_rates s now corridor rail =
     (let s = stress_cleanup s now corridor rail;
          history = sd_history s (bucket_key corridor rail);
          (_, current_window, _) = windows_for s rail;
          current_cutoff = now - of_int current_window
      in ((failure_rate_or_0 (filter (\<lambda>(t, _). t \<ge> current_cutoff) history),
           failure_rate_or_0 (filter (\<lambda>(t, _). t < current_cutoff) history)), s))"

definition get_rates ::
    "StressRegimeDetector \<Rightarrow> time \<Rightarrow> string \<Rightarrow> string option \<Rightarrow> (pyfloat \<times> pyfloat) \<times> StressRegimeDetector" where
  "get_rates s now corridor rail =
     (let s = stress_cleanup s now corridor rail;
          history = sd_history s (bucket_key corridor rail);
          (_, current_window, _) = windows_for s rail;
          current_cutoff = now - of_int current_window
      in ((failure_rate_or_0 (filter (\<lambda>(t, _). t \<ge> current_cutoff) history), failure_rate_or_0 history), s))"

definition EMIT_MAX_RETRIES :: nat where "EMIT_MAX_RETRIES = 3"

text \<open>\<open>attempts\<close> are the outcomes of the calls of \<open>produce\<close>, the first one first; \<open>dlq\<close> that of the dead-letter topic.\<close>

definition stress_emit :: "bool list \<Rightarrow> bool \<Rightarrow> StressRegimeEvent \<Rightarrow> StressRegimeDetector \<Rightarrow> StressRegimeDetector" where
  "stress_emit attempts dlq event s =
     (if \<not> sd_producer s then s\<lparr>sd_emitted_events := sd_emitted_events s @ [event]\<rparr>
      else if True \<in> set (take EMIT_MAX_RETRIES attempts) then s\<lparr>sd_published := sd_published s @ [event]\<rparr>
      else if dlq then s\<lparr>sd_dead_letters := sd_dead_letters s @ [event]\<rparr>
      else s\<lparr>sd_emitted_events := sd_emitted_events s @ [event]\<rparr>)"

definition check_and_emit ::
    "bool list \<Rightarrow> bool \<Rightarrow> StressRegimeDetector \<Rightarrow> time \<Rightarrow> string \<Rightarrow> string option \<Rightarrow>
     (py_exc + StressRegimeEvent option) \<times> StressRegimeDetector" where
  "check_and_emit attempts dlq s now corridor rail =
     (case is_stressed s now corridor rail of
        (Inl e, s) \<Rightarrow> (Inl e, s)
      | (Inr False, s) \<Rightarrow> (Inr None, s)
      | (Inr True, s) \<Rightarrow>
          (case stress_window_rates s now corridor rail of
             ((rate_1h, baseline), s) \<Rightarrow>
               let event = \<lparr> se_corridor = corridor, se_failure_rate_1h = rate_1h, se_baseline_rate = baseline,
                             se_ratio = (if baseline > 0 then Some (rate_1h / baseline) else None),
                             se_triggered_at = now,
                             se_rail = (case rail of Some r \<Rightarrow> if r \<noteq> [] then Some (py_upper r) else None | None \<Rightarrow> None) \<rparr>
               in (Inr (Some event), stress_emit attempts dlq event s)))"

section \<open>Histories\<close>

datatype stress_op =
    OpRecord string bool "string option"
  | OpIsStressed string "string option"
  | OpRates string "string option"
  | OpCheckAndEmit "bool list" bool string "string option"

definition stress_step :: "time \<times> stress_op \<Rightarrow> StressRegimeDetector \<Rightarrow> StressRegimeDetector" where
  "stress_step ev s =
     (case ev of (now, opn) \<Rightarrow>
        case opn of
          OpRecord corridor fl rail \<Rightarrow> record_event s now corridor fl rail
        | OpIsStressed corridor rail \<Rightarrow> snd (is_stressed s now corridor rail)
        | OpRates corridor rail \<Rightarrow> snd (get_rates s now corridor rail)
        | OpCheckAndEmit attempts dlq corridor rail \<Rightarrow> snd (check_and_emit attempts dlq s now corridor rail))"

text \<open>The specification keeps everything that was recorded for a bucket.\<close>

definition recorded :: "(time \<times> stress_op) list \<Rightarrow> string \<times> string \<Rightarrow> bucket" where
  "recorded evs key =
     concat (map (\<lambda>(t, opn). case opn of
        OpRecord corridor fl rail \<Rightarrow> if bucket_key corridor rail = key then [(t, fl)] else []
      | _ \<Rightarrow> []) evs)"

definition spec_stressed :: "int \<times> int \<times> int \<Rightarrow> pyfloat \<Rightarrow> time \<Rightarrow> bucket \<Rightarrow> py_exc + bool" where
  "spec_stressed windows multiplier now history =
     (case windows of (baseline_window, _, _) \<Rightarrow>
        stress_verdict windows multiplier now (filter (\<lambda>(t, _). now - of_int baseline_window \<le> t) history))"

text \<open>A bucket holds what was recorded, except for entries older than its baseline window at \<open>now\<close>.\<close>

definition window_of_key :: "StressRegimeDetector \<Rightarrow> string \<times> string \<Rightarrow> int" where
  "window_of_key s key = (case dget RAIL_STRESS_WINDOWS (fst key) of None \<Rightarrow> sd_baseline_window s | Some (b, _, _) \<Rightarrow> b)"

definition bucket_ok :: "int \<Rightarrow> time \<Rightarrow> bucket \<Rightarrow> bucket \<Rightarrow> bool" where
  "bucket_ok w now full kept \<longleftrightarrow> sorted (map fst full) \<and> (\<forall>e \<in> set full. fst e \<le> now) \<and>
     (\<exists>gone. full = gone @ kept \<and> (\<forall>e \<in> set gone. fst e < now - of_int w))"

lemma dropWhile_sorted:
  "sorted (map fst xs) \<Longrightarrow> dropWhile (\<lambda>(t, _). t < c) xs = filter (\<lambda>(t, _). c \<le> t) xs" for c :: time
proof (induction xs)
  case (Cons x xs)
  show ?case
  proof (cases "fst x < c")
    case False
    then have "\<forall>e \<in> set (x # xs). c \<le> fst e" using Cons.prems by fastforce
    then have "filter (\<lambda>(t, _). c \<le> t) (x # xs) = x # xs" by (simp add: filter_id_conv split_def)
    with False show ?thesis by (simp add: split_def)
  qed (use Cons in \<open>auto simp: split_def\<close>)
qed simp

lemma bucket_ok_filter:
  assumes "bucket_ok w now full kept" "now \<le> t"
  shows "filter (\<lambda>(u, _). t - of_int w \<le> u) kept = filter (\<lambda>(u, _). t - of_int w \<le> u) full"
proof -
  obtain gone where g: "full = gone @ kept" "\<forall>e \<in> set gone. fst e < now - of_int w"
    using assms(1) by (auto simp: bucket_ok_def)
  have "filter (\<lambda>(u, _). t - of_int w \<le> u) gone = []"
    using g(2) assms(2) by (fastforce simp: filter_empty_conv)
  then show ?thesis by (simp add: g(1))
qed

lemma bucket_ok_later: "bucket_ok w now full kept \<Longrightarrow> now \<le> t \<Longrightarrow> bucket_ok w t full kept"
proof -
  assume ok: "bucket_ok w now full kept" and t: "now \<le> t"
  then obtain gone where g: "full = gone @ kept" "\<forall>e \<in> set gone. fst e < now - of_int w"
    by (auto simp: bucket_ok_def)
  have "\<forall>e \<in> set gone. fst e < t - of_int w" using g(2) t by fastforce
  moreover have "\<forall>e \<in> set full. fst e \<le> t" using ok t unfolding bucket_ok_def by fastforce
  ultimately show ?thesis using ok g(1) unfolding bucket_ok_def by blast
qed

lemma bucket_ok_clean:
  assumes "bucket_ok w now full kept"
  shows "bucket_ok w now full (dropWhile (\<lambda>(t, _). t < now - of_int w) kept)"
proof -
  let ?p = "\<lambda>(t, _). t < now - of_int w"
  obtain gone where g: "full = gone @ kept" "\<forall>e \<in> set gone. fst e < now - of_int w"
    using assms by (auto simp: bucket_ok_def)
  have "full = (gone @ takeWhile ?p kept) @ dropWhile ?p kept" by (simp add: g(1))
  moreover have "\<forall>e \<in> set (gone @ takeWhile ?p kept). fst e < now - of_int w"
    using g(2) by (auto dest: set_takeWhileD)
  ultimately show ?thesis using assms unfolding bucket_ok_def by blast
qed

lemma bucket_ok_append:
  assumes "bucket_ok w now full kept"
  shows "bucket_ok w now (full @ [(now, b)]) (kept @ [(now, b)])"
  using assms by (auto simp: bucket_ok_def sorted_append)

definition same_config :: "StressRegimeDetector \<Rightarrow> StressRegimeDetector \<Rightarrow> bool" where
  "same_config s s' \<longleftrightarrow> sd_baseline_window s = sd_baseline_window s' \<and>
     sd_current_window s = sd_current_window s' \<and> sd_multiplier s = sd_multiplier s' \<and>
     sd_min_txns s = sd_min_txns s'"

lemma windows_key: "fst (windows_for s rail) = window_of_key s (bucket_key corridor rail)"
  by (cases rail)
    (auto simp: windows_for_def window_of_key_def bucket_key_def RAIL_STRESS_WINDOWS_def Let_def split: option.splits)

lemma config_windows: "same_config s s' \<Longrightarrow> windows_for s = windows_for s' \<and> window_of_key s = window_of_key s'"
  by (auto simp: same_config_def windows_for_def window_of_key_def fun_eq_iff cong: option.case_cong)

definition stress_ok :: "(time \<times> stress_op) list \<Rightarrow> time \<Rightarrow> StressRegimeDetector \<Rightarrow> bool" where
  "stress_ok evs now s \<longleftrightarrow>
     (\<forall>key. bucket_ok (window_of_key s key) now (recorded evs key) (sd_history s key))"

lemma stress_cleanup_history:
  "sd_history (stress_cleanup s now corridor rail) =
     (let key = bucket_key corridor rail
      in (sd_history s)(key := dropWhile (\<lambda>(t, _). t < now - of_int (window_of_key s key)) (sd_history s key)))"
  using windows_key [of s rail corridor]
  by (cases "windows_for s rail") (simp add: stress_cleanup_def Let_def)

lemma stress_cleanup_config [simp]: "same_config (stress_cleanup s now corridor rail) s"
  by (simp add: stress_cleanup_def same_config_def Let_def split: prod.splits)

lemma same_config_trans: "same_config a b \<Longrightarrow> same_config b c \<Longrightarrow> same_config a c"
  by (simp add: same_config_def)

text \<open>Every operation is a cleanup of a bucket, after at most one addition to it, as far as buckets go.\<close>

definition op_bucket :: "stress_op \<Rightarrow> string \<times> string option" where
  "op_bucket opn =
     (case opn of OpRecord c fl r \<Rightarrow> (c, r) | OpIsStressed c r \<Rightarrow> (c, r) | OpRates c r \<Rightarrow> (c, r)
      | OpCheckAndEmit a d c r \<Rightarrow> (c, r))"

lemma dropWhile_idem [simp]: "dropWhile P (dropWhile P xs) = dropWhile P xs"
  by (induction xs) auto

lemma stress_emit_history [simp]:
  "sd_history (stress_emit a d e s) = sd_history s" "same_config (stress_emit a d e s) s"
  by (simp_all add: stress_emit_def same_config_def)

lemma cleanup_twice:
  "sd_history (stress_cleanup (stress_cleanup s now corridor rail) now corridor rail) =
   sd_history (stress_cleanup s now corridor rail)"
  using config_windows [OF stress_cleanup_config [of s now corridor rail]]
  by (simp add: stress_cleanup_history Let_def)

lemma check_and_emit_history:
  "sd_history (snd (check_and_emit a d s now c r)) = sd_history (stress_cleanup s now c r)
   \<and> same_config (snd (check_and_emit a d s now c r)) s"
proof -
  have "same_config (stress_cleanup (stress_cleanup s now c r) now c r) s"
    by (rule same_config_trans [OF stress_cleanup_config stress_cleanup_config])
  moreover have "same_config (stress_emit a d e x) y \<longleftrightarrow> same_config x y" for e x y
    by (simp add: stress_emit_def same_config_def)
  ultimately show ?thesis
    by (simp add: check_and_emit_def is_stressed_def stress_window_rates_def Let_def cleanup_twice
        split: sum.splits bool.splits prod.splits)
qed

lemma stress_step_history:
  "sd_history (stress_step (now, opn) s) =
     (case op_bucket opn of (c, r) \<Rightarrow>
        let key = bucket_key c r;
            kept = sd_history s key @ (case opn of OpRecord c fl r \<Rightarrow> [(now, fl)] | _ \<Rightarrow> [])
        in (sd_history s)(key := dropWhile (\<lambda>(t, _). t < now - of_int (window_of_key s key)) kept))
   \<and> same_config (stress_step (now, opn) s) s"
proof (cases opn)
  case (OpRecord c fl r)
  let ?s = "s\<lparr>sd_history := (sd_history s)(bucket_key c r := sd_history s (bucket_key c r) @ [(now, fl)])\<rparr>"
  have "same_config ?s s" by (simp add: same_config_def)
  with OpRecord config_windows [OF this] same_config_trans [OF stress_cleanup_config [of ?s now c r] this] show ?thesis
    by (simp add: stress_step_def op_bucket_def record_event_def stress_cleanup_history Let_def)
next
  case (OpIsStressed c r)
  then show ?thesis
    by (simp add: stress_step_def op_bucket_def is_stressed_def stress_cleanup_history Let_def)
next
  case (OpRates c r)
  then show ?thesis
    by (simp add: stress_step_def op_bucket_def get_rates_def stress_cleanup_history Let_def split: prod.splits)
next
  case (OpCheckAndEmit a d c r)
  then show ?thesis
    using check_and_emit_history [of a d s now c r]
    by (simp add: stress_step_def op_bucket_def stress_cleanup_history Let_def)
qed

lemma recorded_snoc:
  "recorded (evs @ [(t, opn)]) key = recorded evs key @
     (case opn of OpRecord c fl r \<Rightarrow> if bucket_key c r = key then [(t, fl)] else [] | _ \<Rightarrow> [])"
  by (simp add: recorded_def)

lemma stress_step_ok:
  assumes ok: "stress_ok evs now s" and t: "now \<le> t"
  shows "stress_ok (evs @ [(t, opn)]) t (stress_step (t, opn) s)"
proof -
  obtain c r where cr: "op_bucket opn = (c, r)" by (cases "op_bucket opn")
  let ?key = "bucket_key c r"
  let ?add = "case opn of OpRecord c fl r \<Rightarrow> [(t, fl)] | _ \<Rightarrow> []"
  note h = stress_step_history [of t opn s]
  have w: "window_of_key (stress_step (t, opn) s) = window_of_key s" using h config_windows by blast
  have rec: "recorded (evs @ [(t, opn)]) key = recorded evs key @ (if key = ?key then ?add else [])" for key
    using cr by (cases opn) (auto simp: recorded_snoc op_bucket_def)
  have "bucket_ok (window_of_key s key) t (recorded (evs @ [(t, opn)]) key) (sd_history (stress_step (t, opn) s) key)" for key
  proof -
    have b: "bucket_ok (window_of_key s key) t (recorded evs key) (sd_history s key)"
      using ok t bucket_ok_later unfolding stress_ok_def by blast
    show ?thesis
    proof (cases "key = ?key")
      case True
      have "bucket_ok (window_of_key s key) t (recorded evs key @ ?add) (sd_history s key @ ?add)"
        using b bucket_ok_append by (cases opn) simp_all
      from bucket_ok_clean [OF this] show ?thesis
        using True h cr by (simp add: rec Let_def)
    next
      case False
      with b h cr show ?thesis by (simp add: rec Let_def)
    qed
  qed
  then show ?thesis by (simp add: stress_ok_def w)
qed

fun stress_clock :: "time \<Rightarrow> (time \<times> stress_op) list \<Rightarrow> bool" where
  "stress_clock t [] \<longleftrightarrow> True"
| "stress_clock t ((t', opn) # evs) \<longleftrightarrow> t \<le> t' \<and> stress_clock t' evs"

lemma stress_history_ok:
  "stress_ok xs t0 s \<Longrightarrow> stress_clock t0 evs \<Longrightarrow>
   (\<exists>t. (\<forall>u. (\<forall>e \<in> set evs. fst e \<le> u) \<longrightarrow> t0 \<le> u \<longrightarrow> t \<le> u) \<and> stress_ok (xs @ evs) t (fold stress_step evs s))
   \<and> same_config (fold stress_step evs s) s"
proof (induction evs arbitrary: xs t0 s)
  case Nil
  then show ?case by (auto simp: same_config_def)
next
  case (Cons ev evs)
  obtain t opn where ev: "ev = (t, opn)" by (cases ev)
  with Cons.prems have t: "t0 \<le> t" "stress_clock t evs" by simp_all
  from Cons.IH [OF stress_step_ok [OF Cons.prems(1) t(1), of opn] t(2)] obtain t' where
    "\<forall>u. (\<forall>e \<in> set evs. fst e \<le> u) \<longrightarrow> t \<le> u \<longrightarrow> t' \<le> u"
    "stress_ok ((xs @ [(t, opn)]) @ evs) t' (fold stress_step evs (stress_step (t, opn) s))"
    "same_config (fold stress_step evs (stress_step (t, opn) s)) (stress_step (t, opn) s)" by blast
  moreover have "same_config (stress_step (t, opn) s) s" using stress_step_history by blast
  ultimately show ?case unfolding ev using same_config_trans by auto
qed

text \<open>
  C19: evicting old entries never changes a verdict.  Over every history of outcomes recorded and
  questions asked, for any corridors and rails, whose clock does not run backwards, \<open>is_stressed\<close>
  answers what the full history of the bucket answers when it is cut to the rail's own windows.  With
  positive minimum counts it always answers, and then \<open>True\<close> exactly when both windows hold at least
  the minimum and the current rate is more than the multiplier times a positive baseline rate, or the
  baseline shows no failure and the current window one.
\<close>

theorem stress_verdict_of_full_history:
  assumes "stress_clock t0 evs" "\<forall>e \<in> set evs. fst e \<le> now" "t0 \<le> now"
  shows "let s = stress_init baseline current mult min_txns producer;
      s' = fold stress_step evs s
    in fst (is_stressed s' now corridor rail) =
        spec_stressed (windows_for s rail) mult now (recorded evs (bucket_key corridor rail))
     \<and> (0 < min_txns \<longrightarrow> (\<exists>b. fst (is_stressed s' now corridor rail) = Inr b))"
proof -
  let ?s = "stress_init baseline current mult min_txns producer"
  let ?s' = "fold stress_step evs ?s" and ?key = "bucket_key corridor rail"
  have "stress_ok [] t0 ?s"
    by (simp add: stress_ok_def bucket_ok_def recorded_def stress_init_def)
  from stress_history_ok [OF this assms(1)] obtain t where
    "t \<le> now" and ok: "stress_ok evs t ?s'" and cfg: "same_config ?s' ?s"
    using assms(2,3) by auto
  have w: "windows_for ?s' = windows_for ?s" "window_of_key ?s' = window_of_key ?s"
    using config_windows [OF cfg] by simp_all
  have m: "sd_multiplier ?s' = mult" using cfg by (simp add: same_config_def stress_init_def)
  obtain b c n where win: "windows_for ?s rail = (b, c, n)" by (cases "windows_for ?s rail")
  have key: "window_of_key ?s ?key = b" using windows_key [of ?s rail corridor] win by simp
  have bok: "bucket_ok b t (recorded evs ?key) (sd_history ?s' ?key)"
    using ok unfolding stress_ok_def w key [symmetric] by (rule spec)
  then have sorted: "sorted (map fst (sd_history ?s' ?key))" by (auto simp: bucket_ok_def sorted_append)
  have "sd_history (stress_cleanup ?s' now corridor rail) ?key =
      filter (\<lambda>(u, _). now - of_int b \<le> u) (recorded evs ?key)"
    unfolding bucket_ok_filter [OF bok \<open>t \<le> now\<close>, symmetric] dropWhile_sorted [OF sorted, symmetric]
    by (simp add: stress_cleanup_history w key Let_def)
  moreover have "windows_for (stress_cleanup ?s' now corridor rail) = windows_for ?s"
    "sd_multiplier (stress_cleanup ?s' now corridor rail) = mult"
    using config_windows [OF stress_cleanup_config [of ?s' now corridor rail]] w
      stress_cleanup_config [of ?s' now corridor rail] m by (simp_all add: same_config_def)
  ultimately have eq: "fst (is_stressed ?s' now corridor rail) =
      spec_stressed (windows_for ?s rail) mult now (recorded evs ?key)"
    by (simp add: is_stressed_def spec_stressed_def win Let_def)
  have "0 < n" if "0 < min_txns"
    using that win by (auto simp: windows_for_def stress_init_def RAIL_STRESS_WINDOWS_def Let_def
        split: option.splits if_splits)
  then have "\<exists>b. spec_stressed (windows_for ?s rail) mult now (recorded evs ?key) = Inr b" if "0 < min_txns"
    using that unfolding win
    by (auto simp: spec_stressed_def stress_verdict_def failure_rate_def Let_def)
  with eq show ?thesis by (simp add: Let_def)
qed

text \<open>Witness: three payments succeed, then three fail within half a minute, on the tightest rail.\<close>

definition sample_stress :: "(time \<times> stress_op) list" where
  "sample_stress =
     [(0, OpRecord ''EUR_USD'' False (Some ''CBDC_NEXUS'')), (1, OpRecord ''EUR_USD'' False (Some ''CBDC_NEXUS'')),
      (2, OpRecord ''EUR_USD'' False (Some ''CBDC_NEXUS'')), (100, OpRecord ''EUR_USD'' True (Some ''CBDC_NEXUS'')),
      (110, OpIsStressed ''EUR_USD'' (Some ''CBDC_NEXUS'')), (111, OpRecord ''EUR_USD'' True (Some ''CBDC_NEXUS'')),
      (112, OpRecord ''EUR_USD'' True (Some ''CBDC_NEXUS''))]"

lemma stress_verdict_of_full_history_witness:
  "fst (is_stressed (fold stress_step sample_stress (stress_init 86400 3600 3 20 False)) 113 ''EUR_USD''
     (Some ''CBDC_NEXUS'')) = Inr True"
proof -
  have c: "stress_clock 0 sample_stress" "\<forall>e \<in> set sample_stress. fst e \<le> 113" "(0 :: time) \<le> 113"
    by (simp_all add: sample_stress_def)
  have u: "py_upper ''CBDC_NEXUS'' = ''CBDC_NEXUS''" by code_simp
  then have w: "windows_for (stress_init 86400 3600 3 20 False) (Some ''CBDC_NEXUS'') = (300, 30, 3)"
    by (simp add: windows_for_def RAIL_STRESS_WINDOWS_def)
  have "recorded sample_stress (bucket_key ''EUR_USD'' (Some ''CBDC_NEXUS'')) =
      [(0, False), (1, False), (2, False), (100, True), (111, True), (112, True)]"
    by (simp add: recorded_def sample_stress_def bucket_key_def u)
  then have "spec_stressed (windows_for (stress_init 86400 3600 3 20 False) (Some ''CBDC_NEXUS'')) 3 113
      (recorded sample_stress (bucket_key ''EUR_USD'' (Some ''CBDC_NEXUS''))) = Inr True"
    by (simp add: w spec_stressed_def stress_verdict_def failure_rate_def failures_def)
  then show ?thesis
    using stress_verdict_of_full_history [OF c, of 86400 3600 3 20 False "''EUR_USD''" "Some ''CBDC_NEXUS''"]
    by (simp add: Let_def)
qed

end
