(* ===== verification/Offer_Terms.thy ===== *)
theory Offer_Terms
  imports Business_Calendar Py_Decimal
begin

text \<open>
  The terms of an offer that are read from tables: \<open>lip/common/fx_risk_policy.py\<close>,
  \<open>lip/common/governing_law.py\<close>, \<open>lip/common/swift_disbursement.py\<close>, and the governing-law rule of
  \<open>_build_loan_offer\<close>.  Shown: a mapped country decides the law whatever the currency; no offer is ever
  marked as needing a manual legal review, because the currency fallback answers for every currency.
\<close>

datatype FXRiskPolicy = SAME_CURRENCY_ONLY | BANK_NATIVE_CURRENCY

record FXRiskConfig =
  fx_policy :: FXRiskPolicy
  fx_bank_base_currency :: string
  fx_g10_currencies :: "string list"

definition is_supported :: "FXRiskConfig \<Rightarrow> string \<Rightarrow> bool" where
  "is_supported cfg payment_currency =
     (case fx_policy cfg of
        SAME_CURRENCY_ONLY \<Rightarrow> py_upper payment_currency = py_upper (fx_bank_base_currency cfg)
      | BANK_NATIVE_CURRENCY \<Rightarrow> True)"

definition is_g10 :: "FXRiskConfig \<Rightarrow> string \<Rightarrow> bool" where
  "is_g10 cfg currency \<longleftrightarrow> py_upper currency \<in> set (fx_g10_currencies cfg)"

definition JURISDICTION_TO_LAW :: "(string, string) dict" where
  "JURISDICTION_TO_LAW =
     [(''FEDWIRE'', ''NEW_YORK''), (''CHAPS'', ''ENGLAND_WALES''), (''TARGET2'', ''EU_LUXEMBOURG'')]"

definition TARGET2_COUNTRY_CODES :: "string list" where
  "TARGET2_COUNTRY_CODES =
     [''AT'', ''BE'', ''CY'', ''EE'', ''FI'', ''FR'', ''DE'', ''GR'', ''IE'', ''IT'',
      ''LV'', ''LT'', ''LU'', ''MT'', ''NL'', ''PT'', ''SK'', ''SI'', ''ES'']"

definition law_for_jurisdiction :: "string \<Rightarrow> string" where
  "law_for_jurisdiction jurisdiction =
     (case dget JURISDICTION_TO_LAW (py_upper jurisdiction) of None \<Rightarrow> ''UNKNOWN'' | Some law \<Rightarrow> law)"

definition bic_country :: "string \<Rightarrow> string" where
  "bic_country bic = py_upper (take 2 (drop 4 bic))"

definition bic_to_jurisdiction :: "string \<Rightarrow> string" where
  "bic_to_jurisdiction bic =
     (if bic = [] \<or> length bic < 6 then ''UNKNOWN''
      else
        let country = bic_country bic
        in if country = ''US'' then ''FEDWIRE''
           else if country = ''GB'' then ''CHAPS''
           else if country \<in> set TARGET2_COUNTRY_CODES then ''TARGET2''
           else ''UNKNOWN'')"

definition governing_law :: "string \<Rightarrow> string \<Rightarrow> string" where
  "governing_law sending_bic loan_currency =
     (let bic_jur = bic_to_jurisdiction sending_bic
      in if bic_jur \<noteq> ''UNKNOWN'' then law_for_jurisdiction bic_jur
         else law_for_jurisdiction (currency_to_jurisdiction loan_currency))"

record BridgeDisbursementMessage =
  bd_end_to_end_id :: string
  bd_remittance_info :: string
  bd_original_uetr :: string
  bd_loan_id :: string
  bd_amount_usd :: dec
  bd_generated_at :: time

definition build_disbursement_message :: "time \<Rightarrow> string \<Rightarrow> string \<Rightarrow> dec \<Rightarrow> BridgeDisbursementMessage" where
  "build_disbursement_message now original_uetr loan_id amount_usd =
     \<lparr> bd_end_to_end_id = ''LIP-BRIDGE-'' @ original_uetr,
       bd_remittance_info = ''Bridge disbursement for failed payment '' @ original_uetr
         @ ''. Ref: LIP loan '' @ loan_id @ ''.'',
       bd_original_uetr = original_uetr, bd_loan_id = loan_id, bd_amount_usd = amount_usd,
       bd_generated_at = now \<rparr>"

section \<open>The law of an offer\<close>

lemma currency_jurisdiction_known:
  "currency_to_jurisdiction c \<in> {''TARGET2'', ''FEDWIRE'', ''CHAPS''}"
  by (auto simp: currency_to_jurisdiction_def CURRENCY_JURISDICTION_def split: option.splits)

lemma bic_jurisdiction_known:
  "bic_to_jurisdiction b \<in> {''TARGET2'', ''FEDWIRE'', ''CHAPS'', ''UNKNOWN''}"
  by (simp add: bic_to_jurisdiction_def Let_def)

lemma jurisdiction_upper:
  "py_upper ''TARGET2'' = ''TARGET2''" "py_upper ''FEDWIRE'' = ''FEDWIRE''" "py_upper ''CHAPS'' = ''CHAPS''"
  by code_simp+

lemma known_jurisdiction_law:
  "j \<in> {''TARGET2'', ''FEDWIRE'', ''CHAPS''} \<Longrightarrow>
   law_for_jurisdiction j \<in> {''NEW_YORK'', ''ENGLAND_WALES'', ''EU_LUXEMBOURG''}"
  by (auto simp: law_for_jurisdiction_def JURISDICTION_TO_LAW_def jurisdiction_upper)

lemma law_known: "governing_law bic currency \<in> {''NEW_YORK'', ''ENGLAND_WALES'', ''EU_LUXEMBOURG''}"
  unfolding governing_law_def Let_def
  using known_jurisdiction_law [OF currency_jurisdiction_known [of currency]]
    known_jurisdiction_law [of "bic_to_jurisdiction bic"] bic_jurisdiction_known [of bic] by auto

text \<open>
  The sending bank's country decides the governing law, and no offer is sent to legal review.
  For a BIC of at least six characters from the United States, the United Kingdom or the euro area, in
  any case, the law is New York's, England's or Luxembourg's whatever the currency; for every other BIC,
  however malformed, and every currency, known or not, it is still one of the three and never
  \<open>UNKNOWN\<close>, the value that asks for a manual review.
\<close>

lemma governing_law_never_unknown:
  "governing_law bic currency \<in> {''NEW_YORK'', ''ENGLAND_WALES'', ''EU_LUXEMBOURG''}
   \<and> (6 \<le> length bic \<and> bic_country bic = ''US'' \<longrightarrow> governing_law bic currency = ''NEW_YORK'')
   \<and> (6 \<le> length bic \<and> bic_country bic = ''GB'' \<longrightarrow> governing_law bic currency = ''ENGLAND_WALES'')
   \<and> (6 \<le> length bic \<and> bic_country bic \<in> set TARGET2_COUNTRY_CODES \<longrightarrow>
        governing_law bic currency = ''EU_LUXEMBOURG'')"
  using law_known [of bic currency]
  by (auto simp: governing_law_def bic_to_jurisdiction_def law_for_jurisdiction_def JURISDICTION_TO_LAW_def
    jurisdiction_upper TARGET2_COUNTRY_CODES_def Let_def)

lemma governing_law_never_unknown_witness:
  "governing_law ''DEUTDEFF'' ''USD'' = ''EU_LUXEMBOURG''
   \<and> governing_law ''BOTKJPJT'' ''JPY'' \<in> {''NEW_YORK'', ''ENGLAND_WALES'', ''EU_LUXEMBOURG''}"
proof -
  have "bic_country ''DEUTDEFF'' = ''DE''" by code_simp
  then show ?thesis
    using governing_law_never_unknown [of "''DEUTDEFF''" "''USD''"]
      governing_law_never_unknown [of "''BOTKJPJT''" "''JPY''"]
    by (simp add: TARGET2_COUNTRY_CODES_def)
qed

end
