(* ===== verification/Loan_Offer.thy ===== *)
theory Loan_Offer
  imports Fee Py_Value Rejection_Taxonomy Offer_Terms
begin

text \<open>
  The offer the execution agent builds: \<open>_build_loan_offer\<close> of \<open>lip/c7_execution_agent/agent.py\<close>, with
  the payment context it reads.  A text key of the context holds text or is missing; the numeric keys
  hold any value, and converting them may raise.  The C9 settlement predictor is an injected object: the
  days it predicts for a corridor, class and amount, or the exception it raises.

  Shown: an offer respects the fee floors, the cap, the amount check and the static maturity, and what it
  says of maturity hours is the rail's entry of the table whatever the maturity of the loan.
\<close>

record PaymentContext =
  pc_uetr :: "string option"
  pc_individual_payment_id :: "string option"
  pc_tenant_id :: "string option"
  pc_sending_bic :: "string option"
  pc_receiving_bic :: "string option"
  pc_failure_probability :: "pyval option"
  pc_pd_score :: "pyval option"
  pc_fee_bps :: "pyval option"
  pc_loan_amount :: "pyval option"
  pc_original_payment_amount_usd :: "pyval option"
  pc_dispute_class :: "string option"
  pc_aml_passed :: "pyval option"
  pc_anomaly_flagged :: "pyval option"
  pc_rejection_code :: "string option"
  pc_rejection_class :: "string option"
  pc_human_override_decision :: "string option"
  pc_corridor :: "string option"
  pc_rail :: "string option"
  pc_currency :: "string option"
  pc_maturity_days :: "pyval option"
  pc_lgd :: "pyval option"
  pc_aml_entity_id :: "string option"
  pc_aml_beneficiary_id :: "string option"

text \<open>\<open>payment_context.get(key, default)\<close>.\<close>

definition ctx_get :: "'a option \<Rightarrow> 'a \<Rightarrow> 'a" where
  "ctx_get o' d = (case o' of None \<Rightarrow> d | Some v \<Rightarrow> v)"

lemma ctx_get_simps [simp]: "ctx_get None d = d" "ctx_get (Some v) d = v"
  by (simp_all add: ctx_get_def)

text \<open>\<open>int\<close> of a \<open>Decimal\<close>.\<close>

definition py_trunc :: "rat \<Rightarrow> int" where
  "py_trunc d = (if 0 \<le> d then \<lfloor>d\<rfloor> else \<lceil>d\<rceil>)"

record loan_offer =
  lo_loan_id :: string
  lo_uetr :: string
  lo_individual_payment_id :: string
  lo_loan_amount :: dec
  lo_fee_bps :: int
  lo_maturity_days :: int
  lo_maturity_hours :: pyfloat
  lo_rail :: string
  lo_pd_score :: pyfloat
  lo_lgd :: pyval
  lo_offered_at :: time
  lo_expires_at :: time
  lo_swift_disbursement_ref :: string
  lo_swift_remittance_info :: string
  lo_governing_law :: string
  lo_loan_currency :: string
  lo_corridor :: string
  lo_rejection_class :: string
  lo_sending_bic :: string
  lo_receiving_bic :: string
  lo_aml_entity_id :: string
  lo_aml_beneficiary_id :: string
  lo_deployment_phase :: string

text \<open>The dictionary, key for key; a time stands for its ISO text, the amount for its decimal text.\<close>

definition offer_dict :: "loan_offer \<Rightarrow> (string, pyval) dict" where
  "offer_dict l =
     [(''loan_id'', PStr (lo_loan_id l)),
      (''uetr'', PStr (lo_uetr l)),
      (''individual_payment_id'', PStr (lo_individual_payment_id l)),
      (''loan_amount'', PNum (lo_loan_amount l)),
      (''fee_bps'', PNum (of_int (lo_fee_bps l))),
      (''maturity_days'', PNum (of_int (lo_maturity_days l))),
      (''maturity_hours'', PNum (lo_maturity_hours l)),
      (''rail'', PStr (lo_rail l)),
      (''pd_score'', PNum (lo_pd_score l)),
      (''lgd'', lo_lgd l),
      (''offered_at'', PTime (lo_offered_at l)),
      (''expires_at'', PTime (lo_expires_at l)),
      (''swift_disbursement_ref'', PStr (lo_swift_disbursement_ref l)),
      (''swift_remittance_info'', PStr (lo_swift_remittance_info l)),
      (''governing_law'', PStr (lo_governing_law l)),
      (''loan_currency'', PStr (lo_loan_currency l)),
      (''corridor'', PStr (lo_corridor l)),
      (''rejection_class'', PStr (lo_rejection_class l)),
      (''sending_bic'', PStr (lo_sending_bic l)),
      (''receiving_bic'', PStr (lo_receiving_bic l)),
      (''aml_entity_id'', PStr (lo_aml_entity_id l)),
      (''aml_beneficiary_id'', PStr (lo_aml_beneficiary_id l)),
      (''deployment_phase'', PStr (lo_deployment_phase l))]"

section \<open>Maturity\<close>

type_synonym settlement_predictor = "string \<Rightarrow> string \<Rightarrow> pyfloat \<Rightarrow> py_exc + int"

definition rail_upper_of :: "PaymentContext \<Rightarrow> string" where
  "rail_upper_of c = py_upper (case pc_rail c of None \<Rightarrow> ''SWIFT'' | Some r \<Rightarrow> if r = [] then ''SWIFT'' else r)"

definition offer_maturity_hours :: "PaymentContext \<Rightarrow> py_exc + pyfloat" where
  "offer_maturity_hours c =
     (case dget RAIL_MATURITY_HOURS (rail_upper_of c) of
        Some h \<Rightarrow> Inr h
      | None \<Rightarrow> res_bind (py_int (ctx_get (pc_maturity_days c) (PNum 7))) (\<lambda>d. Inr (of_int (d * 24))))"

definition dynamic_maturity ::
    "settlement_predictor option \<Rightarrow> PaymentContext \<Rightarrow> dec \<Rightarrow> int \<Rightarrow> py_exc + int" where
  "dynamic_maturity predictor c capped static_maturity_days =
     (case predictor of
        None \<Rightarrow> Inr static_maturity_days
      | Some predict \<Rightarrow>
          (case predict (ctx_get (pc_corridor c) ''UNKNOWN'') (ctx_get (pc_rejection_class c) ''CLASS_B'') capped of
             Inr dynamic_days \<Rightarrow> Inr (min dynamic_days static_maturity_days)
           | Inl e \<Rightarrow>
               if e \<in> {ValueError, TypeError, RuntimeError, OSError} then Inr static_maturity_days
               else Inl e))"

section \<open>The offer\<close>

text \<open>The dictionary returned at the end, from the amount, fee and maturities computed before.\<close>

definition offer_record ::
    "string \<Rightarrow> time \<Rightarrow> string \<Rightarrow> PaymentContext \<Rightarrow> pyfloat \<Rightarrow> dec \<Rightarrow> int \<Rightarrow> pyfloat \<Rightarrow> int \<Rightarrow> loan_offer" where
  "offer_record deployment_phase now loan_id c pd capped fee_bps maturity_hours final_days =
     (let uetr = ctx_get (pc_uetr c) '''';
          rail_upper = rail_upper_of c;
          swift_msg = build_disbursement_message now uetr loan_id capped;
          loan_currency = ctx_get (pc_currency c) ''USD'';
          sending_bic = ctx_get (pc_sending_bic c) '''';
          schema_maturity_days =
            (if dget RAIL_MATURITY_HOURS rail_upper \<noteq> None \<and> maturity_hours < 24 then 1 else final_days)
      in \<lparr> lo_loan_id = loan_id, lo_uetr = uetr,
           lo_individual_payment_id = ctx_get (pc_individual_payment_id c) '''',
           lo_loan_amount = capped, lo_fee_bps = fee_bps, lo_maturity_days = schema_maturity_days,
           lo_maturity_hours = maturity_hours, lo_rail = rail_upper, lo_pd_score = pd,
           lo_lgd = ctx_get (pc_lgd c) (PNum (45 / 100)), lo_offered_at = now,
           lo_expires_at = now + 15 * 60,
           lo_swift_disbursement_ref = bd_end_to_end_id swift_msg,
           lo_swift_remittance_info = bd_remittance_info swift_msg,
           lo_governing_law = governing_law sending_bic loan_currency,
           lo_loan_currency = loan_currency,
           lo_corridor = ctx_get (pc_corridor c) (loan_currency @ ''_USD''),
           lo_rejection_class = ctx_get (pc_rejection_class c) ''CLASS_B'',
           lo_sending_bic = sending_bic, lo_receiving_bic = ctx_get (pc_receiving_bic c) '''',
           lo_aml_entity_id = ctx_get (pc_aml_entity_id c) sending_bic,
           lo_aml_beneficiary_id =
             ctx_get (pc_aml_beneficiary_id c) (ctx_get (pc_receiving_bic c) ''''),
           lo_deployment_phase = deployment_phase \<rparr>)"

definition build_loan_offer ::
    "settlement_predictor option \<Rightarrow> dec \<Rightarrow> string \<Rightarrow> time \<Rightarrow> string \<Rightarrow> PaymentContext \<Rightarrow> pyfloat \<Rightarrow> int \<Rightarrow>
     py_exc + loan_offer option" where
  "build_loan_offer predictor max_loan_amount deployment_phase now loan_uuid c pd fee_bps =
     res_bind (decimal_of (ctx_get (pc_loan_amount c) (PStr ''0''))) (\<lambda>loan_amount.
     let tiered_floor = py_trunc (compute_tiered_fee_floor loan_amount);
         fee_bps = max fee_bps tiered_floor
     in res_bind (offer_maturity_hours c) (\<lambda>maturity_hours.
     let subday_floor_bps = py_trunc (applicable_fee_floor_bps maturity_hours);
         fee_bps = max fee_bps subday_floor_bps
     in res_bind (decimal_of (ctx_get (pc_original_payment_amount_usd c) (PNum loan_amount))) (\<lambda>original_amt.
     if \<bar>dsub loan_amount original_amt\<bar> > AMOUNT_VALIDATION_TOLERANCE_USD then Inr None
     else
       let capped = min loan_amount max_loan_amount
       in res_bind (py_int (ctx_get (pc_maturity_days c) (PNum 7))) (\<lambda>static_maturity_days.
       res_bind (dynamic_maturity predictor c capped static_maturity_days) (\<lambda>maturity_days.
         Inr (Some (offer_record deployment_phase now loan_uuid c pd capped fee_bps maturity_hours
           maturity_days)))))))"

section \<open>What an offer says\<close>

lemma floor_bps_values:
  "py_trunc (compute_tiered_fee_floor a) = 300"
  "py_trunc (applicable_fee_floor_bps h) = (if h < 48 then 1200 else 300)"
  by (simp_all add: py_trunc_def compute_tiered_fee_floor_def applicable_fee_floor_bps_def
      is_subday_rail_def fee_constants)

lemma dynamic_maturity_le: "dynamic_maturity p c a n = Inr d \<Longrightarrow> d \<le> n"
  by (auto simp: dynamic_maturity_def split: option.splits sum.splits if_splits)

lemma build_loan_offer_cases:
  assumes "build_loan_offer p cap phase now u c pd fee = Inr (Some l)"
  obtains amount hours original n d where
    "decimal_of (ctx_get (pc_loan_amount c) (PStr ''0'')) = Inr amount"
    "offer_maturity_hours c = Inr hours"
    "decimal_of (ctx_get (pc_original_payment_amount_usd c) (PNum amount)) = Inr original"
    "\<bar>dsub amount original\<bar> \<le> AMOUNT_VALIDATION_TOLERANCE_USD"
    "py_int (ctx_get (pc_maturity_days c) (PNum 7)) = Inr n"
    "dynamic_maturity p c (min amount cap) n = Inr d" "d \<le> n"
    "l = offer_record phase now u c pd (min amount cap)
      (max (max fee 300) (if hours < 48 then 1200 else 300)) hours d"
proof -
  from assms obtain amount hours original n d where
    "decimal_of (ctx_get (pc_loan_amount c) (PStr ''0'')) = Inr amount"
    "offer_maturity_hours c = Inr hours"
    "decimal_of (ctx_get (pc_original_payment_amount_usd c) (PNum amount)) = Inr original"
    "\<not> \<bar>dsub amount original\<bar> > AMOUNT_VALIDATION_TOLERANCE_USD"
    "py_int (ctx_get (pc_maturity_days c) (PNum 7)) = Inr n"
    "dynamic_maturity p c (min amount cap) n = Inr d"
    "l = offer_record phase now u c pd (min amount cap)
      (max (max fee 300) (if hours < 48 then 1200 else 300)) hours d"
    unfolding build_loan_offer_def res_bind_Inr_iff Let_def floor_bps_values
    by (force simp: res_bind_Inr_iff split: if_splits)
  with that dynamic_maturity_le show thesis by (simp add: not_less)
qed

lemma offer_record_simps [simp]:
  "lo_loan_id (offer_record phase now u c pd a f h d) = u"
  "lo_uetr (offer_record phase now u c pd a f h d) = ctx_get (pc_uetr c) ''''"
  "lo_loan_amount (offer_record phase now u c pd a f h d) = a"
  "lo_fee_bps (offer_record phase now u c pd a f h d) = f"
  "lo_maturity_hours (offer_record phase now u c pd a f h d) = h"
  "lo_maturity_days (offer_record phase now u c pd a f h d) =
    (if dget RAIL_MATURITY_HOURS (rail_upper_of c) \<noteq> None \<and> h < 24 then 1 else d)"
  "lo_rail (offer_record phase now u c pd a f h d) = rail_upper_of c"
  "lo_pd_score (offer_record phase now u c pd a f h d) = pd"
  "lo_expires_at (offer_record phase now u c pd a f h d) = now + 15 * 60"
  "lo_governing_law (offer_record phase now u c pd a f h d) =
    governing_law (ctx_get (pc_sending_bic c) '''') (ctx_get (pc_currency c) ''USD'')"
  by (simp_all add: offer_record_def Let_def)

end
