(* ===== verification/Tps_Limiter.thy ===== *)
theory Tps_Limiter
  imports Py_Base
begin

text \<open>
  The licence rate limit of \<open>lip/c7_execution_agent/agent.py\<close>: \<open>_TPSLimiter\<close> keeps the times of the
  calls it allowed and drops those older than a second whenever it is asked.  Shown: it answers as a
  limiter that never forgets would, and no second ever sees more allowed calls than the licence permits.
\<close>

record TPSLimiter =
  tl_max_tps :: int
  tl_timestamps :: "time list"

definition tps_init :: "int \<Rightarrow> TPSLimiter" where
  "tps_init max_tps = \<lparr> tl_max_tps = max_tps, tl_timestamps = [] \<rparr>"

definition tps_allow :: "TPSLimiter \<Rightarrow> time \<Rightarrow> bool \<times> TPSLimiter" where
  "tps_allow l now =
     (if tl_max_tps l \<le> 0 then (True, l)
      else
        let cutoff = now - 1;
            l = l\<lparr>tl_timestamps := dropWhile (\<lambda>t. t < cutoff) (tl_timestamps l)\<rparr>
        in if tl_max_tps l \<le> int (length (tl_timestamps l)) then (False, l)
           else (True, l\<lparr>tl_timestamps := tl_timestamps l @ [now]\<rparr>))"

section \<open>Histories\<close>

text \<open>The limiter and the allowed times after calls at the given times.\<close>

definition tps_call :: "time \<Rightarrow> TPSLimiter \<times> time list \<Rightarrow> TPSLimiter \<times> time list" where
  "tps_call now c =
     (let (ok, l) = tps_allow (fst c) now in (l, if ok then snd c @ [now] else snd c))"

definition tps_calls :: "int \<Rightarrow> time list \<Rightarrow> TPSLimiter \<times> time list" where
  "tps_calls max_tps calls = fold tps_call calls (tps_init max_tps, [])"

definition allowed_within :: "time list \<Rightarrow> time \<Rightarrow> time \<Rightarrow> int" where
  "allowed_within allowed lo hi = int (length (filter (\<lambda>t. lo \<le> t \<and> t \<le> hi) allowed))"

text \<open>What the limiter has dropped is too old to count at any later time.\<close>

definition limiter_ok :: "int \<Rightarrow> time \<Rightarrow> TPSLimiter \<times> time list \<Rightarrow> bool" where
  "limiter_ok m now c \<longleftrightarrow>
     tl_max_tps (fst c) = m \<and> sorted (snd c) \<and> (\<forall>t \<in> set (snd c). t \<le> now) \<and>
     (\<exists>old. snd c = old @ tl_timestamps (fst c) \<and> (\<forall>t \<in> set old. t < now - 1)) \<and>
     (\<forall>lo. allowed_within (snd c) lo (lo + 1) \<le> m)"

lemma sorted_dropWhile_less:
  fixes c :: "'a :: linorder"
  shows "sorted ts \<Longrightarrow> dropWhile (\<lambda>t. t < c) ts = filter (\<lambda>t. c \<le> t) ts"
proof (induction ts)
  case (Cons a ts)
  show ?case
  proof (cases "a < c")
    case False
    then have "\<forall>t \<in> set ts. c \<le> t" using Cons.prems by auto
    with False show ?thesis by (simp add: filter_id_conv not_less)
  qed (use Cons in auto)
qed simp

lemma limiter_kept:
  assumes "limiter_ok m t0 c" "t0 \<le> now"
  shows "dropWhile (\<lambda>t. t < now - 1) (tl_timestamps (fst c)) = filter (\<lambda>t. now - 1 \<le> t) (snd c)"
    and "filter (\<lambda>t. now - 1 \<le> t) (snd c) = filter (\<lambda>t. now - 1 \<le> t \<and> t \<le> now) (snd c)"
    and "\<exists>old. snd c = old @ filter (\<lambda>t. now - 1 \<le> t) (snd c) \<and> (\<forall>t \<in> set old. t < now - 1)"
proof -
  obtain old where old: "snd c = old @ tl_timestamps (fst c)" "\<forall>t \<in> set old. t < t0 - 1"
    and s: "sorted (snd c)" and le: "\<forall>t \<in> set (snd c). t \<le> t0"
    using assms(1) by (auto simp: limiter_ok_def)
  have early: "\<forall>t \<in> set old. t < now - 1" using old(2) assms(2) by force
  have "sorted (tl_timestamps (fst c))" using s old(1) by (simp add: sorted_append)
  moreover have "filter (\<lambda>t. now - 1 \<le> t) old = []"
    using early by (auto simp: filter_empty_conv not_le)
  ultimately show kept: "dropWhile (\<lambda>t. t < now - 1) (tl_timestamps (fst c)) = filter (\<lambda>t. now - 1 \<le> t) (snd c)"
    by (simp add: old(1) sorted_dropWhile_less)
  show "filter (\<lambda>t. now - 1 \<le> t) (snd c) = filter (\<lambda>t. now - 1 \<le> t \<and> t \<le> now) (snd c)"
    using le assms(2) by (intro filter_cong refl) force
  have "snd c = (old @ takeWhile (\<lambda>t. t < now - 1) (tl_timestamps (fst c))) @
      dropWhile (\<lambda>t. t < now - 1) (tl_timestamps (fst c))"
    by (simp add: old(1))
  then show "\<exists>old. snd c = old @ filter (\<lambda>t. now - 1 \<le> t) (snd c) \<and> (\<forall>t \<in> set old. t < now - 1)"
    unfolding kept using early by (metis Un_iff set_append set_takeWhileD)
qed

lemma tps_allow_iff:
  assumes "limiter_ok m t0 c" "t0 \<le> now" "0 < m"
  shows "fst (tps_allow (fst c) now) \<longleftrightarrow> allowed_within (snd c) (now - 1) now < m"
  using assms limiter_kept [OF assms(1,2)]
  by (auto simp: tps_allow_def Let_def allowed_within_def limiter_ok_def)

lemma allowed_within_snoc:
  "allowed_within (a @ [now]) lo hi = allowed_within a lo hi + (if lo \<le> now \<and> now \<le> hi then 1 else 0)"
  by (simp add: allowed_within_def)

lemma tps_call_ok:
  assumes ok: "limiter_ok m t0 c" and le: "t0 \<le> now" and m: "0 < m"
  shows "limiter_ok m now (tps_call now c)"
proof -
  note kept = limiter_kept [OF ok le]
  have base: "tl_max_tps (fst c) = m" "sorted (snd c)" "\<forall>t \<in> set (snd c). t \<le> now"
    "\<forall>lo. allowed_within (snd c) lo (lo + 1) \<le> m"
    using ok le by (auto simp: limiter_ok_def)
  show ?thesis
  proof (cases "fst (tps_allow (fst c) now)")
    case True
    have "allowed_within (snd c @ [now]) lo (lo + 1) \<le> m" for lo
    proof (cases "lo \<le> now \<and> now \<le> lo + 1")
      case True
      then have "length (filter (\<lambda>t. lo \<le> t \<and> t \<le> lo + 1) (snd c))
          \<le> length (filter (\<lambda>t. now - 1 \<le> t \<and> t \<le> now) (snd c))"
        unfolding length_filter_conv_card using base(3)
        by (intro card_mono) (auto simp: nth_mem)
      with \<open>fst (tps_allow (fst c) now)\<close> show ?thesis
        by (simp add: allowed_within_snoc tps_allow_iff [OF ok le m] allowed_within_def)
    qed (use base(4) in \<open>auto simp: allowed_within_snoc\<close>)
    with True base kept(1,3) m show ?thesis
      by (auto simp: limiter_ok_def tps_call_def tps_allow_def Let_def sorted_append split: if_splits)
  qed (use base kept(1,3) m in \<open>auto simp: limiter_ok_def tps_call_def tps_allow_def Let_def split: if_splits\<close>)
qed

lemma tps_history_ok:
  assumes "limiter_ok m t0 c" "sorted (t0 # calls @ [now])" "0 < m"
  shows "limiter_ok m (last (t0 # calls)) (fold tps_call calls c) \<and> last (t0 # calls) \<le> now"
  using assms
proof (induction calls arbitrary: t0 c)
  case (Cons t calls)
  then show ?case
    using tps_call_ok [OF Cons.prems(1), of t] Cons.IH [of t "tps_call t c"] by simp
qed simp

text \<open>
  C23: the licence rate limit.  With a positive limit, over every history of calls on a clock that
  does not run backwards, no interval of one second, wherever it starts and with both ends included,
  holds more allowed calls than the limit; and a call is refused only when the calls allowed in the
  second up to it, among all that were ever allowed, already use the limit up.  A limit of zero or less
  never refuses.
\<close>

theorem tps_sliding_window:
  assumes "sorted (calls @ [now])" "0 < m" "n \<le> 0"
  shows "let (l, allowed) = tps_calls m calls
    in (\<forall>lo. allowed_within allowed lo (lo + 1) \<le> m)
     \<and> (fst (tps_allow l now) \<longleftrightarrow> allowed_within allowed (now - 1) now < m)
     \<and> fst (tps_allow (tps_init n) now)"
proof -
  let ?t0 = "hd (calls @ [now])"
  have "limiter_ok m ?t0 (tps_init m, [])"
    using assms(2) by (simp add: limiter_ok_def tps_init_def allowed_within_def)
  moreover have "sorted (?t0 # calls @ [now])" using assms(1) by (cases calls) auto
  ultimately have "limiter_ok m (last (?t0 # calls)) (tps_calls m calls)" "last (?t0 # calls) \<le> now"
    using tps_history_ok assms(2) unfolding tps_calls_def by blast+
  note ok = this(1) tps_allow_iff [OF this assms(2)]
  have "fst (tps_allow (tps_init n) now)"
    using assms(3) by (simp add: tps_allow_def tps_init_def)
  with ok show ?thesis by (simp add: limiter_ok_def split_def)
qed

lemma tps_sliding_window_witness:
  "snd (tps_calls 2 [0, 1 / 4, 1 / 2]) = [0, 1 / 4]
   \<and> \<not> fst (tps_allow (fst (tps_calls 2 [0, 1 / 4, 1 / 2])) 1)
   \<and> fst (tps_allow (fst (tps_calls 2 [0, 1 / 4, 1 / 2])) (5 / 4))
   \<and> (\<forall>lo. allowed_within (snd (tps_calls 2 [0, 1 / 4, 1 / 2])) lo (lo + 1) \<le> 2)"
  using tps_sliding_window [of "[0, 1 / 4, 1 / 2]" 1 2 0]
  by (simp add: tps_calls_def tps_call_def tps_allow_def tps_init_def Let_def)

end
