(* ===== verification/Execution_Agent.thy ===== *)
theory Execution_Agent
  imports Loan_Offer Tps_Limiter Kill_Switch Degraded_Mode Human_Override Decision_Log
    Borrower_Registry Offer_Delivery Stress_Detector
begin

text \<open>
  The execution agent, \<open>ExecutionAgent\<close> of \<open>lip/c7_execution_agent/agent.py\<close>: every gate of
  \<open>process_payment\<close> in its order, over the states of the kill switch, decision log, override interface,
  degraded mode, rate limiter, borrower registry, stress detector and offer delivery.

  The record \<open>agent_world\<close> holds what is not the agent's: the Redis clients, the signature of a log
  entry, the settlement predictor, the Go offer router (whether it accepts an offer; any failure of the
  client is a \<open>GoRouterError\<close>), SHA-256, and the text of a float.  \<open>agent_call\<close> is what a call reads from
  outside: the two clocks, whether the Redis of the kill switch and that of the registry answer, and the fresh identifiers.  One call reads each clock
  once.
\<close>

section \<open>State\<close>

record LicenseeContext =
  lc_licensee_id :: string
  lc_max_tps :: int
  lc_aml_dollar_cap_usd :: int
  lc_aml_count_cap :: int
  lc_permitted_components :: "string list"
  lc_token_expiry :: string
  lc_min_loan_amount_usd :: int
  lc_deployment_phase :: string

record 's ExecutionConfig =
  ec_high_risk_threshold :: pyfloat
  ec_max_loan_amount :: dec
  ec_auto_approve_threshold :: pyfloat
  ec_require_human_review_above_pd :: pyfloat
  ec_borrower_registry :: "'s BorrowerRegistry"

record ('r, 's, 'c) ExecutionAgent =
  ea_kill_switch :: "'r KillSwitch"
  ea_decision_logger :: DecisionLogger
  ea_human_override :: "'c HumanOverrideInterface"
  ea_degraded_mode_manager :: DegradedModeManager
  ea_config :: "'s ExecutionConfig"
  ea_licensee_id :: string
  ea_max_tps :: int
  ea_aml_dollar_cap_usd :: int
  ea_aml_count_cap :: int
  ea_min_loan_amount_usd :: int
  ea_deployment_phase :: string
  ea_tps_limiter :: TPSLimiter
  ea_stress_detector :: "StressRegimeDetector option"
  ea_offer_delivery :: "OfferDeliveryService option"
  ea_fx_risk_config :: "FXRiskConfig option"

definition agent_init ::
    "'r KillSwitch \<Rightarrow> DecisionLogger \<Rightarrow> 'c HumanOverrideInterface \<Rightarrow> DegradedModeManager \<Rightarrow> 's ExecutionConfig \<Rightarrow>
     string \<Rightarrow> int \<Rightarrow> int \<Rightarrow> int \<Rightarrow> int \<Rightarrow> LicenseeContext option \<Rightarrow> StressRegimeDetector option \<Rightarrow>
     OfferDeliveryService option \<Rightarrow> FXRiskConfig option \<Rightarrow> ('r, 's, 'c) ExecutionAgent" where
  "agent_init kill_switch decision_logger human_override degraded_mode_manager config licensee_id max_tps
      aml_dollar_cap_usd aml_count_cap min_loan_amount_usd licensee_context stress_detector offer_delivery
      fx_risk_config =
     (let lc = (case licensee_context of
            Some lc \<Rightarrow> lc
          | None \<Rightarrow> \<lparr> lc_licensee_id = licensee_id, lc_max_tps = max_tps,
                      lc_aml_dollar_cap_usd = aml_dollar_cap_usd, lc_aml_count_cap = aml_count_cap,
                      lc_permitted_components = [], lc_token_expiry = [],
                      lc_min_loan_amount_usd = min_loan_amount_usd, lc_deployment_phase = ''LICENSOR'' \<rparr>)
      in \<lparr> ea_kill_switch = kill_switch, ea_decision_logger = decision_logger,
           ea_human_override = human_override, ea_degraded_mode_manager = degraded_mode_manager,
           ea_config = config, ea_licensee_id = lc_licensee_id lc, ea_max_tps = lc_max_tps lc,
           ea_aml_dollar_cap_usd = lc_aml_dollar_cap_usd lc, ea_aml_count_cap = lc_aml_count_cap lc,
           ea_min_loan_amount_usd = lc_min_loan_amount_usd lc,
           ea_deployment_phase = lc_deployment_phase lc, ea_tps_limiter = tps_init (lc_max_tps lc),
           ea_stress_detector = stress_detector, ea_offer_delivery = offer_delivery,
           ea_fx_risk_config = fx_risk_config \<rparr>)"

record ('r, 's) agent_world =
  aw_redis :: "'r redis_api"
  aw_redis_sets :: "'s redis_sets"
  aw_sign :: signer
  aw_settlement_predictor :: "settlement_predictor option"
  aw_fromisoformat :: "pyval \<Rightarrow> py_exc + time"
  aw_go_router :: "(loan_offer \<Rightarrow> bool) option"
  aw_canary_pct :: int
  aw_sha256 :: "string \<Rightarrow> nat"
  aw_float_text :: "pyfloat \<Rightarrow> string"
  aw_float_text_3 :: "pyfloat \<Rightarrow> string"

record agent_call =
  cl_monotonic :: time
  cl_now :: time
  cl_redis_up :: bool
  cl_registry_up :: bool
  cl_request_id :: string
  cl_entry_id :: string
  cl_loan_id :: string
  cl_delivery_id :: string
  cl_fallback_uetr :: string

record agent_result =
  ar_status :: string
  ar_loan_offer :: "loan_offer option"
  ar_decision_entry_id :: "string option"
  ar_halt_reason :: "string option"
  ar_override_request_id :: "string option"
  ar_delivery_id :: "string option"

definition returned :: "string \<Rightarrow> string option \<Rightarrow> string option \<Rightarrow> agent_result" where
  "returned status entry_id halt_reason =
     \<lparr> ar_status = status, ar_loan_offer = None, ar_decision_entry_id = entry_id,
       ar_halt_reason = halt_reason, ar_override_request_id = None, ar_delivery_id = None \<rparr>"

definition COMPLIANCE_HOLD_CODES :: "string list" where
  "COMPLIANCE_HOLD_CODES = get_all_codes_for_class BLOCK"

text \<open>
  A stage of the call ends it, by returning (\<open>Inl (Inr r)\<close>) or raising (\<open>Inl (Inl e)\<close>), or hands a value
  to the next stage.
\<close>

type_synonym ('a, 'st) stage = "((py_exc + agent_result) + 'a) \<times> 'st"

definition proceed :: "('a, 'st) stage \<Rightarrow> ('a \<Rightarrow> 'st \<Rightarrow> ('b, 'st) stage) \<Rightarrow> ('b, 'st) stage" where
  "proceed r k = (case r of (Inl out, s) \<Rightarrow> (Inl out, s) | (Inr v, s) \<Rightarrow> k v s)"

definition lift_result :: "py_exc + 'a \<Rightarrow> 'st \<Rightarrow> ('a, 'st) stage" where
  "lift_result r s = (case r of Inl e \<Rightarrow> (Inl (Inl e), s) | Inr v \<Rightarrow> (Inr v, s))"

definition conclude :: "('a, 'st) stage \<Rightarrow> ('a \<Rightarrow> 'st \<Rightarrow> (py_exc + agent_result) \<times> 'st) \<Rightarrow>
    (py_exc + agent_result) \<times> 'st" where
  "conclude r k = (case r of (Inl out, s) \<Rightarrow> (out, s) | (Inr v, s) \<Rightarrow> k v s)"

definition stop :: "(py_exc + agent_result) \<times> 'st \<Rightarrow> ('a, 'st) stage" where
  "stop r = (Inl (fst r), snd r)"

lemma proceed_simps [simp]:
  "proceed (Inl out, s) k = (Inl out, s)"
  "proceed (Inr v, s) k = k v s"
  by (simp_all add: proceed_def)

lemma conclude_simps [simp]:
  "conclude (Inl out, s) k = (out, s)"
  "conclude (Inr v, s) k = k v s"
  by (simp_all add: conclude_def)

lemma lift_result_simps [simp]:
  "lift_result (Inl e) s = (Inl (Inl e), s)"
  "lift_result (Inr v) s = (Inr v, s)"
  by (simp_all add: lift_result_def)

section \<open>Reading the payment context\<close>

record payment_terms =
  pt_failure_prob :: pyfloat
  pt_pd_score :: pyfloat
  pt_fee_bps :: int
  pt_loan_amount :: dec
  pt_dispute_class :: string
  pt_aml_passed :: bool

definition read_terms :: "PaymentContext \<Rightarrow> py_exc + payment_terms" where
  "read_terms c =
     res_bind (py_float (ctx_get (pc_failure_probability c) (PNum 0))) (\<lambda>failure_prob.
     res_bind (py_float (ctx_get (pc_pd_score c) (PNum 0))) (\<lambda>pd_score.
     res_bind (py_int (ctx_get (pc_fee_bps c) (PNum (of_int (py_trunc FEE_FLOOR_BPS))))) (\<lambda>fee_bps.
     res_bind (decimal_of (ctx_get (pc_loan_amount c) (PStr ''0''))) (\<lambda>loan_amount.
       Inr \<lparr> pt_failure_prob = failure_prob, pt_pd_score = pd_score, pt_fee_bps = fee_bps,
             pt_loan_amount = loan_amount,
             pt_dispute_class = ctx_get (pc_dispute_class c) ''NOT_DISPUTE'',
             pt_aml_passed = truth (ctx_get (pc_aml_passed c) (PBool False)) \<rparr>))))"

definition log_decision ::
    "('r, 's) agent_world \<Rightarrow> agent_call \<Rightarrow> PaymentContext \<Rightarrow> payment_terms \<Rightarrow> string \<Rightarrow> bool \<Rightarrow>
     ('r, 's, 'c) ExecutionAgent \<Rightarrow> string \<times> ('r, 's, 'c) ExecutionAgent" where
  "log_decision W call c t decision_type human_override s =
     (let state = get_state_dict (ea_degraded_mode_manager s) (cl_now call);
          entry = \<lparr> de_entry_id = cl_entry_id call, de_uetr = ctx_get (pc_uetr c) '''',
                    de_individual_payment_id = ctx_get (pc_individual_payment_id c) '''',
                    de_decision_type = decision_type, de_decision_timestamp = cl_now call,
                    de_failure_probability = pt_failure_prob t, de_pd_score = pt_pd_score t,
                    de_fee_bps = pt_fee_bps t, de_loan_amount = pt_loan_amount t,
                    de_dispute_class = pt_dispute_class t, de_aml_passed = pt_aml_passed t,
                    de_human_override = human_override, de_degraded_mode = dd_degraded_mode state,
                    de_gpu_fallback = dd_gpu_fallback state,
                    de_kms_unavailable_gap = dd_kms_unavailable_gap state, de_operator_id = None,
                    de_licensee_id = ea_licensee_id s, de_tenant_id = ctx_get (pc_tenant_id c) '''',
                    de_entry_signature = [], de_prev_signature = [] \<rparr>;
          (entry_id, dl) = log_entry (aw_sign W) (cl_entry_id call) entry (ea_decision_logger s)
      in (entry_id, s\<lparr>ea_decision_logger := dl\<rparr>))"

text \<open>\<open>entry_id = self._log_decision(...); return \{...\}\<close>.\<close>

definition refuse ::
    "('r, 's) agent_world \<Rightarrow> agent_call \<Rightarrow> PaymentContext \<Rightarrow> payment_terms \<Rightarrow> string \<Rightarrow> string \<Rightarrow> string option \<Rightarrow>
     ('r, 's, 'c) ExecutionAgent \<Rightarrow> (py_exc + agent_result) \<times> ('r, 's, 'c) ExecutionAgent" where
  "refuse W call c t decision_type status halt_reason s =
     (let (entry_id, s) = log_decision W call c t decision_type False s
      in (Inr (returned status (Some entry_id) halt_reason), s))"

section \<open>The stages\<close>

text \<open>The UETR, the rate limit, and the kill switch.\<close>

definition admit ::
    "('r, 's) agent_world \<Rightarrow> agent_call \<Rightarrow> PaymentContext \<Rightarrow> ('r, 's, 'c) ExecutionAgent \<Rightarrow>
     (unit, ('r, 's, 'c) ExecutionAgent) stage" where
  "admit W call c s =
     (if ctx_get (pc_uetr c) '''' = '''' then
        (Inl (Inr (returned ''DECLINE'' None (Some ''missing_uetr''))), s)
      else
        let (ok, l) = tps_allow (ea_tps_limiter s) (cl_monotonic call);
            s = s\<lparr>ea_tps_limiter := l\<rparr>
        in if \<not> ok then (Inl (Inr (returned ''HALT'' None (Some ''tps_limit_exceeded''))), s)
           else
             proceed (lift_result
               (should_halt_new_offers (aw_redis W) (cl_redis_up call) (ea_kill_switch s) (cl_now call)) s)
               (\<lambda>halted s.
                if halted \<or> degraded_should_halt (ea_degraded_mode_manager s) then
                  proceed (lift_result
                    (is_active (aw_redis W) (cl_redis_up call) (ea_kill_switch s) (cl_now call)) s)
                    (\<lambda>active s.
                      (Inl (Inr (returned ''HALT'' None
                        (Some (if active then ''kill_switch_active'' else ''kms_unavailable'')))), s))
                else (Inr (), s)))"

definition check_enrollment ::
    "('r, 's) agent_world \<Rightarrow> agent_call \<Rightarrow> PaymentContext \<Rightarrow> ('r, 's, 'c) ExecutionAgent \<Rightarrow>
     (payment_terms, ('r, 's, 'c) ExecutionAgent) stage" where
  "check_enrollment W call c s =
     (let registry = ec_borrower_registry (ea_config s);
          (enrolled, registry') =
            (if list_enrolled registry = {} then (True, registry)
             else is_enrolled (aw_redis_sets W) (cl_registry_up call) registry (ctx_get (pc_sending_bic c) ''''));
          s = s\<lparr>ea_config := (ea_config s)\<lparr>ec_borrower_registry := registry'\<rparr>\<rparr>
      in proceed (lift_result (read_terms c) s) (\<lambda>t s.
           if \<not> enrolled then
             stop (refuse W call c t ''BLOCK'' ''BORROWER_NOT_ENROLLED'' (Some ''borrower_not_enrolled'') s)
           else (Inr t, s)))"

definition check_blocks ::
    "('r, 's) agent_world \<Rightarrow> agent_call \<Rightarrow> PaymentContext \<Rightarrow> payment_terms \<Rightarrow> ('r, 's, 'c) ExecutionAgent \<Rightarrow>
     (unit, ('r, 's, 'c) ExecutionAgent) stage" where
  "check_blocks W call c t s =
     (if \<not> pt_aml_passed t then stop (refuse W call c t ''BLOCK'' ''BLOCK'' (Some ''aml_blocked'') s)
      else if pt_dispute_class t \<in> {''DISPUTE_CONFIRMED'', ''DISPUTE_POSSIBLE''} then
        stop (refuse W call c t ''BLOCK'' ''BLOCK'' (Some ''dispute_blocked'') s)
      else if normalise_code (ctx_get (pc_rejection_code c) '''') \<in> set COMPLIANCE_HOLD_CODES then
        stop (refuse W call c t ''BLOCK'' ''COMPLIANCE_HOLD_BLOCKS_BRIDGE'' (Some ''compliance_hold'') s)
      else (Inr (), s))"

text \<open>Human review.\<close>

definition stressed_now ::
    "agent_call \<Rightarrow> PaymentContext \<Rightarrow> ('r, 's, 'c) ExecutionAgent \<Rightarrow> (bool, ('r, 's, 'c) ExecutionAgent) stage" where
  "stressed_now call c s =
     (case ea_stress_detector s of
        None \<Rightarrow> (Inr False, s)
      | Some d \<Rightarrow>
          let (r, d) = Stress_Detector.is_stressed d (cl_now call) (ctx_get (pc_corridor c) ''UNKNOWN'') (pc_rail c)
          in lift_result r (s\<lparr>ea_stress_detector := Some d\<rparr>))"

definition requires_human_review ::
    "agent_call \<Rightarrow> PaymentContext \<Rightarrow> ('r, 's, 'c) ExecutionAgent \<Rightarrow> (bool, ('r, 's, 'c) ExecutionAgent) stage" where
  "requires_human_review call c s =
     proceed (lift_result (py_float (ctx_get (pc_pd_score c) (PNum 0))) s) (\<lambda>pd s.
     if ec_require_human_review_above_pd (ea_config s) < pd then (Inr True, s)
     else
       proceed (stressed_now call c s) (\<lambda>stressed s.
       if stressed then (Inr True, s)
       else if truth (ctx_get (pc_anomaly_flagged c) (PBool False)) then (Inr True, s)
       else (Inr False, s)))"

definition review_reason ::
    "('r, 's) agent_world \<Rightarrow> PaymentContext \<Rightarrow> payment_terms \<Rightarrow> pyfloat \<Rightarrow> bool \<Rightarrow> string" where
  "review_reason W c t pd_limit stressed =
     (let corridor = ctx_get (pc_corridor c) ''UNKNOWN''
      in if truth (ctx_get (pc_anomaly_flagged c) (PBool False)) then
           ''C6 AML anomaly alert for corridor '' @ corridor @ ''. EU AI Act Art.14 human oversight mandatory.''
         else if stressed then
           ''STRESS_REGIME detected in corridor '' @ corridor @ ''. Manual review mandatory.''
         else ''PD '' @ aw_float_text_3 W (pt_pd_score t) @ '' exceeds review threshold '' @ aw_float_text W pd_limit)"

definition human_review ::
    "('r, 's) agent_world \<Rightarrow> agent_call \<Rightarrow> PaymentContext \<Rightarrow> payment_terms \<Rightarrow> ('r, 's, 'c) ExecutionAgent \<Rightarrow>
     (bool, ('r, 's, 'c) ExecutionAgent) stage" where
  "human_review W call c t s =
     proceed (requires_human_review call c s) (\<lambda>required s.
     if \<not> required then (Inr False, s)
     else if pc_human_override_decision c = Some ''APPROVE'' then (Inr True, s)
     else
       proceed (stressed_now call c s) (\<lambda>stressed s.
       let reason = review_reason W c t (ec_require_human_review_above_pd (ea_config s)) stressed;
           (req, ho) = request_override (ea_human_override s) (cl_now call) (cl_request_id call)
             (ctx_get (pc_uetr c) '''') ''OFFER'' (pt_failure_prob t) reason
       in (Inl (Inr ((returned ''PENDING_HUMAN_REVIEW'' None None)
             \<lparr>ar_override_request_id := Some (rq_request_id req)\<rparr>)), s\<lparr>ea_human_override := ho\<rparr>)))"

text \<open>Probability, currency, amount and fee.\<close>

definition CLASS_MINIMUMS :: "(string, dec) dict" where
  "CLASS_MINIMUMS =
     [(''CLASS_A'', MIN_LOAN_AMOUNT_CLASS_A_USD), (''CLASS_B'', MIN_LOAN_AMOUNT_CLASS_B_USD),
      (''CLASS_C'', MIN_LOAN_AMOUNT_CLASS_C_USD)]"

definition effective_loan_min :: "PaymentContext \<Rightarrow> int \<Rightarrow> dec" where
  "effective_loan_min c min_loan_amount_usd =
     (let rejection_class = py_upper (ctx_get (pc_rejection_class c) '''');
          class_floor = (case dget CLASS_MINIMUMS rejection_class of None \<Rightarrow> MIN_LOAN_AMOUNT_USD | Some m \<Rightarrow> m);
          licensee_floor = of_int min_loan_amount_usd
      in max class_floor licensee_floor)"

definition projected_fee :: "PaymentContext \<Rightarrow> payment_terms \<Rightarrow> py_exc + dec" where
  "projected_fee c t =
     res_bind (py_int (ctx_get (pc_maturity_days c) (PNum 7))) (\<lambda>maturity_days_val.
     let tiered_floor = compute_tiered_fee_floor (pt_loan_amount t);
         effective_bps = (if tiered_floor > of_int (pt_fee_bps t) then tiered_floor else of_int (pt_fee_bps t))
     in compute_loan_fee (pt_loan_amount t) effective_bps (of_int maturity_days_val))"

definition currency_supported :: "FXRiskConfig option \<Rightarrow> PaymentContext \<Rightarrow> bool" where
  "currency_supported fx c =
     (case fx of None \<Rightarrow> True | Some cfg \<Rightarrow> is_supported cfg (ctx_get (pc_currency c) (fx_bank_base_currency cfg)))"

definition check_terms ::
    "('r, 's) agent_world \<Rightarrow> agent_call \<Rightarrow> PaymentContext \<Rightarrow> payment_terms \<Rightarrow> ('r, 's, 'c) ExecutionAgent \<Rightarrow>
     (unit, ('r, 's, 'c) ExecutionAgent) stage" where
  "check_terms W call c t s =
     (if pt_failure_prob t < 1 / 10 then stop (refuse W call c t ''DECLINE'' ''DECLINE'' None s)
      else if \<not> currency_supported (ea_fx_risk_config s) c then
        stop (refuse W call c t ''CURRENCY_NOT_SUPPORTED'' ''CURRENCY_NOT_SUPPORTED''
          (Some ''currency_not_supported'') s)
      else if pt_loan_amount t < effective_loan_min c (ea_min_loan_amount_usd s) then
        stop (refuse W call c t ''DECLINE'' ''BELOW_MIN_LOAN_AMOUNT'' (Some ''below_min_loan_amount'') s)
      else
        proceed (lift_result (projected_fee c t) s) (\<lambda>fee s.
        if fee < MIN_CASH_FEE_USD then
          stop (refuse W call c t ''DECLINE'' ''BELOW_MIN_CASH_FEE'' (Some ''below_min_cash_fee'') s)
        else (Inr (), s)))"

text \<open>The offer.\<close>

definition use_go_router :: "(string \<Rightarrow> nat) \<Rightarrow> int \<Rightarrow> string \<Rightarrow> bool" where
  "use_go_router sha256 pct uetr = (if pct \<le> 0 then False else int (sha256 uetr) mod 100 < pct)"

definition route_offer ::
    "('r, 's) agent_world \<Rightarrow> agent_call \<Rightarrow> loan_offer \<Rightarrow> ('r, 's, 'c) ExecutionAgent \<Rightarrow>
     (string option, ('r, 's, 'c) ExecutionAgent) stage" where
  "route_offer W call offer s =
     (let go_routed = (case aw_go_router W of
            None \<Rightarrow> False
          | Some trigger \<Rightarrow> use_go_router (aw_sha256 W) (aw_canary_pct W) (lo_uetr offer) \<and> trigger offer)
      in if go_routed then (Inr None, s)
         else case ea_offer_delivery s of
                None \<Rightarrow> (Inr None, s)
              | Some od \<Rightarrow>
                  let (r, od) = deliver (aw_fromisoformat W) (cl_now call) (cl_delivery_id call)
                    (cl_fallback_uetr call) (offer_dict offer) od
                  in proceed (lift_result r (s\<lparr>ea_offer_delivery := Some od\<rparr>)) (\<lambda>d s.
                       (Inr (Some (ld_delivery_id d)), s)))"

definition make_offer ::
    "('r, 's) agent_world \<Rightarrow> agent_call \<Rightarrow> PaymentContext \<Rightarrow> payment_terms \<Rightarrow> bool \<Rightarrow> ('r, 's, 'c) ExecutionAgent \<Rightarrow>
     (py_exc + agent_result) \<times> ('r, 's, 'c) ExecutionAgent" where
  "make_offer W call c t human_override_applied s =
     conclude (lift_result (build_loan_offer (aw_settlement_predictor W) (ec_max_loan_amount (ea_config s))
         (ea_deployment_phase s) (cl_now call) (cl_loan_id call) c (pt_pd_score t) (pt_fee_bps t)) s)
       (\<lambda>offer s. case offer of
          None \<Rightarrow> refuse W call c t ''LOAN_AMOUNT_MISMATCH'' ''LOAN_AMOUNT_MISMATCH'' (Some ''loan_amount_mismatch'') s
        | Some offer \<Rightarrow>
            conclude (route_offer W call offer s) (\<lambda>delivery_id s.
            let (entry_id, s) = log_decision W call c t ''OFFER'' human_override_applied s
            in (Inr ((returned ''OFFER'' (Some entry_id) None)
                  \<lparr>ar_loan_offer := Some offer, ar_delivery_id := delivery_id\<rparr>), s)))"

definition process_payment ::
    "('r, 's) agent_world \<Rightarrow> agent_call \<Rightarrow> PaymentContext \<Rightarrow> ('r, 's, 'c) ExecutionAgent \<Rightarrow>
     (py_exc + agent_result) \<times> ('r, 's, 'c) ExecutionAgent" where
  "process_payment W call c s =
     conclude (admit W call c s) (\<lambda>_ s.
     conclude (check_enrollment W call c s) (\<lambda>t s.
     conclude (check_blocks W call c t s) (\<lambda>_ s.
     conclude (human_review W call c t s) (\<lambda>human_override_applied s.
     conclude (check_terms W call c t s) (\<lambda>_ s.
     make_offer W call c t human_override_applied s)))))"

record agent_status =
  as_kill_switch :: KillSwitchState
  as_kms :: KMSState
  as_degraded :: bool
  as_pending_overrides :: int

definition agent_get_status ::
    "('r, 's) agent_world \<Rightarrow> bool \<Rightarrow> time \<Rightarrow> ('r, 's, 'c) ExecutionAgent \<Rightarrow> py_exc + agent_status" where
  "agent_get_status W up now s =
     res_bind (kill_switch_status (aw_redis W) up (ea_kill_switch s) now) (\<lambda>st.
       Inr \<lparr> as_kill_switch = st_kill_switch_state st, as_kms = st_kms_state st,
             as_degraded = Degraded_Mode.is_degraded (ea_degraded_mode_manager s),
             as_pending_overrides = int (length (get_pending_overrides (ea_human_override s) now)) \<rparr>)"

section \<open>Which payments are offered a loan\<close>

lemma conclude_iff:
  "conclude r k = p \<longleftrightarrow>
     (\<exists>out s. r = (Inl out, s) \<and> p = (out, s)) \<or> (\<exists>v s. r = (Inr v, s) \<and> k v s = p)"
  by (cases r; cases "fst r") (auto simp: conclude_def)

lemma proceed_Inr_iff:
  "proceed r k = (Inr v, s') \<longleftrightarrow> (\<exists>u s. r = (Inr u, s) \<and> k u s = (Inr v, s'))"
  by (cases r; cases "fst r") (auto simp: proceed_def)

lemma proceed_Inl_iff:
  "proceed r k = (Inl out, s') \<longleftrightarrow>
     r = (Inl out, s') \<or> (\<exists>u s. r = (Inr u, s) \<and> k u s = (Inl out, s'))"
  by (cases r; cases "fst r") (auto simp: proceed_def)

lemma lift_result_iff:
  "lift_result r s = (Inr v, s') \<longleftrightarrow> r = Inr v \<and> s' = s"
  "lift_result r s = (Inl out, s') \<longleftrightarrow> (\<exists>e. r = Inl e \<and> out = Inl e) \<and> s' = s"
  by (cases r; auto)+

lemma stop_iff [simp]:
  "stop r = (Inr v, s') \<longleftrightarrow> False"
  "stop r = (Inl out, s') \<longleftrightarrow> r = (out, s')"
  by (cases r; auto simp: stop_def)+

lemmas stage_iffs = proceed_Inr_iff proceed_Inl_iff lift_result_iff

text \<open>The gates, each as the condition a payment has to meet.\<close>

definition admitted :: "('r, 's) agent_world \<Rightarrow> agent_call \<Rightarrow> PaymentContext \<Rightarrow> ('r, 's, 'c) ExecutionAgent \<Rightarrow> bool" where
  "admitted W call c s \<longleftrightarrow>
     ctx_get (pc_uetr c) '''' \<noteq> '''' \<and>
     fst (tps_allow (ea_tps_limiter s) (cl_monotonic call)) \<and>
     should_halt_new_offers (aw_redis W) (cl_redis_up call) (ea_kill_switch s) (cl_now call) = Inr False \<and>
     \<not> degraded_should_halt (ea_degraded_mode_manager s)"

definition enrolled_or_open :: "('r, 's) agent_world \<Rightarrow> agent_call \<Rightarrow> PaymentContext \<Rightarrow> 's BorrowerRegistry \<Rightarrow> bool" where
  "enrolled_or_open W call c registry \<longleftrightarrow>
     list_enrolled registry = {} \<or>
     fst (is_enrolled (aw_redis_sets W) (cl_registry_up call) registry (ctx_get (pc_sending_bic c) ''''))"

definition unblocked :: "PaymentContext \<Rightarrow> payment_terms \<Rightarrow> bool" where
  "unblocked c t \<longleftrightarrow>
     pt_aml_passed t \<and> pt_dispute_class t \<notin> {''DISPUTE_CONFIRMED'', ''DISPUTE_POSSIBLE''} \<and>
     normalise_code (ctx_get (pc_rejection_code c) '''') \<notin> ALL_BLOCK_CODES"

definition reviewed :: "agent_call \<Rightarrow> PaymentContext \<Rightarrow> payment_terms \<Rightarrow> ('r, 's, 'c) ExecutionAgent \<Rightarrow> bool" where
  "reviewed call c t s \<longleftrightarrow>
     (if ec_require_human_review_above_pd (ea_config s) < pt_pd_score t
      then pc_human_override_decision c = Some ''APPROVE''
      else case ea_stress_detector s of
             None \<Rightarrow> truth (ctx_get (pc_anomaly_flagged c) (PBool False)) \<longrightarrow>
               pc_human_override_decision c = Some ''APPROVE''
           | Some d \<Rightarrow>
               (\<exists>stressed. fst (Stress_Detector.is_stressed d (cl_now call)
                   (ctx_get (pc_corridor c) ''UNKNOWN'') (pc_rail c)) = Inr stressed \<and>
                 (stressed \<or> truth (ctx_get (pc_anomaly_flagged c) (PBool False)) \<longrightarrow>
                   pc_human_override_decision c = Some ''APPROVE'')))"

definition economic :: "PaymentContext \<Rightarrow> payment_terms \<Rightarrow> ('r, 's, 'c) ExecutionAgent \<Rightarrow> bool" where
  "economic c t s \<longleftrightarrow>
     1 / 10 \<le> pt_failure_prob t \<and> currency_supported (ea_fx_risk_config s) c \<and>
     effective_loan_min c (ea_min_loan_amount_usd s) \<le> pt_loan_amount t \<and>
     (\<exists>fee. projected_fee c t = Inr fee \<and> MIN_CASH_FEE_USD \<le> fee)"

definition gates_open ::
    "('r, 's) agent_world \<Rightarrow> agent_call \<Rightarrow> PaymentContext \<Rightarrow> payment_terms \<Rightarrow> ('r, 's, 'c) ExecutionAgent \<Rightarrow> bool" where
  "gates_open W call c t s \<longleftrightarrow>
     admitted W call c s \<and> enrolled_or_open W call c (ec_borrower_registry (ea_config s)) \<and>
     read_terms c = Inr t \<and> unblocked c t \<and> reviewed call c t s \<and> economic c t s"

text \<open>What the gates leave alone.\<close>

definition same_setup :: "('r, 's, 'c) ExecutionAgent \<Rightarrow> ('r, 's, 'c) ExecutionAgent \<Rightarrow> bool" where
  "same_setup s s' \<longleftrightarrow>
     ea_decision_logger s' = ea_decision_logger s \<and>
     ea_degraded_mode_manager s' = ea_degraded_mode_manager s \<and>
     ea_fx_risk_config s' = ea_fx_risk_config s \<and>
     ea_min_loan_amount_usd s' = ea_min_loan_amount_usd s \<and>
     ea_offer_delivery s' = ea_offer_delivery s \<and> ea_deployment_phase s' = ea_deployment_phase s \<and>
     ea_licensee_id s' = ea_licensee_id s \<and>
     ec_max_loan_amount (ea_config s') = ec_max_loan_amount (ea_config s) \<and>
     ec_require_human_review_above_pd (ea_config s') = ec_require_human_review_above_pd (ea_config s)"

lemma same_setup_refl [simp]: "same_setup s s"
  by (simp add: same_setup_def)

lemma same_setup_trans: "same_setup s s' \<Longrightarrow> same_setup s' s'' \<Longrightarrow> same_setup s s''"
  by (simp add: same_setup_def)

lemma admit_Inr:
  "admit W call c s = (Inr u, s') \<longleftrightarrow>
     admitted W call c s \<and> s' = s\<lparr>ea_tps_limiter := snd (tps_allow (ea_tps_limiter s) (cl_monotonic call))\<rparr>"
  by (cases "tps_allow (ea_tps_limiter s) (cl_monotonic call)")
    (auto simp: admit_def admitted_def Let_def stage_iffs split: if_splits)

lemma check_enrollment_Inr:
  "check_enrollment W call c s = (Inr t, s') \<longleftrightarrow>
     enrolled_or_open W call c (ec_borrower_registry (ea_config s)) \<and> read_terms c = Inr t \<and>
     s' = s\<lparr>ea_config := (ea_config s)\<lparr>ec_borrower_registry :=
       (if list_enrolled (ec_borrower_registry (ea_config s)) = {} then ec_borrower_registry (ea_config s)
        else snd (is_enrolled (aw_redis_sets W) (cl_registry_up call) (ec_borrower_registry (ea_config s))
          (ctx_get (pc_sending_bic c) '''')))\<rparr>\<rparr>"
  by (auto simp: check_enrollment_def enrolled_or_open_def Let_def stage_iffs split_def split: if_splits)

lemma check_blocks_Inr:
  "check_blocks W call c t s = (Inr u, s') \<longleftrightarrow> unblocked c t \<and> s' = s"
  by (auto simp: check_blocks_def unblocked_def COMPLIANCE_HOLD_CODES_def block_codes_table)

lemma check_terms_Inr:
  "check_terms W call c t s = (Inr u, s') \<longleftrightarrow> economic c t s \<and> s' = s"
  by (auto simp: check_terms_def economic_def stage_iffs not_less split: if_splits)

lemma read_terms_pd: "read_terms c = Inr t \<Longrightarrow> py_float (ctx_get (pc_pd_score c) (PNum 0)) = Inr (pt_pd_score t)"
  by (auto simp: read_terms_def res_bind_Inr_iff)

lemma stressed_now_Inr:
  "stressed_now call c s = (Inr b, s') \<longleftrightarrow>
     (case ea_stress_detector s of
        None \<Rightarrow> \<not> b \<and> s' = s
      | Some d \<Rightarrow>
          fst (Stress_Detector.is_stressed d (cl_now call) (ctx_get (pc_corridor c) ''UNKNOWN'') (pc_rail c)) = Inr b \<and>
          s' = s\<lparr>ea_stress_detector := Some (snd (Stress_Detector.is_stressed d (cl_now call)
            (ctx_get (pc_corridor c) ''UNKNOWN'') (pc_rail c)))\<rparr>)"
  by (auto simp: stressed_now_def split_def Let_def lift_result_iff split: option.split)

lemma stressed_now_setup: "stressed_now call c s = (r, s') \<Longrightarrow> same_setup s s' \<and> ea_human_override s' = ea_human_override s"
  by (auto simp: stressed_now_def split_def Let_def lift_result_def same_setup_def split: option.splits sum.splits)

lemma requires_human_review_setup:
  "requires_human_review call c s = (r, s') \<Longrightarrow> same_setup s s' \<and> ea_human_override s' = ea_human_override s"
proof (cases "py_float (ctx_get (pc_pd_score c) (PNum 0))")
  case (Inr pd)
  moreover assume "requires_human_review call c s = (r, s')"
  moreover obtain q s1 where "stressed_now call c s = (q, s1)" by fastforce
  moreover from this have "same_setup s s1 \<and> ea_human_override s1 = ea_human_override s"
    by (rule stressed_now_setup)
  ultimately show ?thesis
    by (cases q) (auto simp: requires_human_review_def split: if_splits)
qed (auto simp: requires_human_review_def same_setup_def)

lemma requires_human_review_Inr:
  assumes "read_terms c = Inr t"
  shows "(\<exists>s'. requires_human_review call c s = (Inr b, s')) \<longleftrightarrow>
    (if ec_require_human_review_above_pd (ea_config s) < pt_pd_score t then b
     else \<exists>stressed s1. stressed_now call c s = (Inr stressed, s1) \<and>
       b = (stressed \<or> truth (ctx_get (pc_anomaly_flagged c) (PBool False))))"
proof -
  obtain q s1 where q: "stressed_now call c s = (q, s1)" by fastforce
  then show ?thesis
    using read_terms_pd [OF assms] by (cases q) (auto simp: requires_human_review_def)
qed

lemma human_review_Inr:
  "human_review W call c t s = (Inr ov, s') \<longleftrightarrow>
     (\<exists>required. requires_human_review call c s = (Inr required, s') \<and> ov = required \<and>
       (required \<longrightarrow> pc_human_override_decision c = Some ''APPROVE''))"
proof -
  obtain q s1 where q: "requires_human_review call c s = (q, s1)" by fastforce
  then show ?thesis
    by (cases q) (auto simp: human_review_def stage_iffs Let_def split_def)
qed

lemma human_review_reviewed:
  assumes "read_terms c = Inr t"
  shows "(\<exists>ov s'. human_review W call c t s = (Inr ov, s')) \<longleftrightarrow> reviewed call c t s"
proof -
  have "(\<exists>ov s'. human_review W call c t s = (Inr ov, s')) \<longleftrightarrow>
    (\<exists>required. (\<exists>s'. requires_human_review call c s = (Inr required, s')) \<and>
      (required \<longrightarrow> pc_human_override_decision c = Some ''APPROVE''))"
    by (auto simp: human_review_Inr)
  then show ?thesis
    unfolding requires_human_review_Inr [OF assms] stressed_now_Inr reviewed_def
    by (cases "ea_stress_detector s") auto
qed

text \<open>The payment reaches \<open>make_offer\<close> exactly when the gates are open.\<close>

lemma gates_open_reaches:
  assumes "gates_open W call c t s"
  shows "\<exists>ov s'. same_setup s s' \<and> process_payment W call c s = make_offer W call c t ov s'
    \<and> (ov \<longrightarrow> pc_human_override_decision c = Some ''APPROVE'')"
proof -
  define s1 where "s1 = s\<lparr>ea_tps_limiter := snd (tps_allow (ea_tps_limiter s) (cl_monotonic call))\<rparr>"
  have a: "admit W call c s = (Inr (), s1)"
    using assms by (simp add: gates_open_def admit_Inr s1_def)
  obtain s2 where b: "check_enrollment W call c s1 = (Inr t, s2)" and st2: "same_setup s s2"
    "ea_stress_detector s2 = ea_stress_detector s"
    using assms by (simp add: gates_open_def check_enrollment_Inr s1_def same_setup_def)
  have "reviewed call c t s2"
    using assms st2 by (simp add: gates_open_def reviewed_def same_setup_def)
  then obtain ov s3 where d: "human_review W call c t s2 = (Inr ov, s3)"
    using human_review_reviewed assms by (metis gates_open_def)
  then have st3: "same_setup s2 s3" "ov \<longrightarrow> pc_human_override_decision c = Some ''APPROVE''"
    using requires_human_review_setup by (fastforce simp: human_review_Inr)+
  have st: "same_setup s s3" using st2(1) st3(1) by (rule same_setup_trans)
  then have "check_terms W call c t s3 = (Inr (), s3)"
    using assms by (simp add: gates_open_def check_terms_Inr economic_def same_setup_def)
  moreover have "check_blocks W call c t s2 = (Inr (), s2)"
    using assms by (simp add: gates_open_def check_blocks_Inr)
  ultimately show ?thesis
    using st st3(2) by (auto simp: process_payment_def a b d)
qed

section \<open>What is logged\<close>

definition logged_type :: "string \<Rightarrow> string" where
  "logged_type status =
     (if status \<in> {''BORROWER_NOT_ENROLLED'', ''BLOCK'', ''COMPLIANCE_HOLD_BLOCKS_BRIDGE''} then ''BLOCK''
      else if status \<in> {''DECLINE'', ''BELOW_MIN_LOAN_AMOUNT'', ''BELOW_MIN_CASH_FEE''} then ''DECLINE''
      else status)"

definition entry_about :: "PaymentContext \<Rightarrow> string \<Rightarrow> DecisionLogEntryData \<Rightarrow> bool" where
  "entry_about c status e \<longleftrightarrow>
     de_uetr e = ctx_get (pc_uetr c) '''' \<and> de_decision_type e = logged_type status \<and>
     (\<exists>t. read_terms c = Inr t \<and> de_fee_bps e = pt_fee_bps t \<and> de_loan_amount e = pt_loan_amount t \<and>
          de_aml_passed e = pt_aml_passed t \<and> de_pd_score e = pt_pd_score t \<and>
          de_failure_probability e = pt_failure_prob t \<and> de_dispute_class e = pt_dispute_class t)"

text \<open>A call that ends with \<open>out\<close> takes the log from \<open>dl\<close> to \<open>dl'\<close>.\<close>

definition log_kept ::
    "('r, 's) agent_world \<Rightarrow> agent_call \<Rightarrow> PaymentContext \<Rightarrow> py_exc + agent_result \<Rightarrow> DecisionLogger \<Rightarrow> DecisionLogger \<Rightarrow> bool" where
  "log_kept W call c out dl dl' \<longleftrightarrow>
     (case out of
        Inl e \<Rightarrow> dl' = dl
      | Inr r \<Rightarrow>
          (case ar_decision_entry_id r of
             None \<Rightarrow> dl' = dl \<and>
               (ar_status r \<in> {''HALT'', ''PENDING_HUMAN_REVIEW''} \<or> ar_halt_reason r = Some ''missing_uetr'')
           | Some eid \<Rightarrow>
               \<exists>e. log_entry (aw_sign W) (cl_entry_id call) e dl = (eid, dl') \<and> entry_about c (ar_status r) e))"

definition refused :: "py_exc + agent_result \<Rightarrow> bool" where
  "refused out \<longleftrightarrow> (case out of Inl e \<Rightarrow> True | Inr r \<Rightarrow> ar_status r \<noteq> ''OFFER'' \<and> ar_loan_offer r = None)"

lemma log_decision_entry:
  assumes "log_decision W call c t ty ov s = (eid, s')" "read_terms c = Inr t" "ty = logged_type status"
  shows "\<exists>e. log_entry (aw_sign W) (cl_entry_id call) e (ea_decision_logger s) = (eid, ea_decision_logger s')
    \<and> entry_about c status e"
  using assms unfolding log_decision_def Let_def entry_about_def
  by (force split: prod.splits)

lemma log_decision_frame:
  "log_decision W call c t ty ov s = (eid, s') \<Longrightarrow> \<exists>dl. s' = s\<lparr>ea_decision_logger := dl\<rparr>"
  by (auto simp: log_decision_def Let_def split: prod.splits)

lemma returned_simps [simp]:
  "ar_status (returned st eid why) = st" "ar_decision_entry_id (returned st eid why) = eid"
  "ar_halt_reason (returned st eid why) = why" "ar_loan_offer (returned st eid why) = None"
  "ar_delivery_id (returned st eid why) = None"
  by (simp_all add: returned_def)

lemma refuse_logged:
  assumes "refuse W call c t ty status why s = (out, s')" "read_terms c = Inr t" "ty = logged_type status"
    and "status \<noteq> ''OFFER''"
  shows "log_kept W call c out (ea_decision_logger s) (ea_decision_logger s') \<and> refused out"
proof -
  obtain eid s1 where l: "log_decision W call c t ty False s = (eid, s1)" by fastforce
  with assms(1) have "out = Inr (returned status (Some eid) why)" "s' = s1"
    by (simp_all add: refuse_def)
  with log_decision_entry [OF l assms(2,3)] assms(4) show ?thesis
    by (simp add: log_kept_def refused_def)
qed

lemma refusals:
  assumes "read_terms c = Inr t"
  shows
    "refuse W call c t ''BLOCK'' ''BORROWER_NOT_ENROLLED'' why s = (out, s') \<Longrightarrow>
      log_kept W call c out (ea_decision_logger s) (ea_decision_logger s') \<and> refused out"
    "refuse W call c t ''BLOCK'' ''BLOCK'' why s = (out, s') \<Longrightarrow>
      log_kept W call c out (ea_decision_logger s) (ea_decision_logger s') \<and> refused out"
    "refuse W call c t ''BLOCK'' ''COMPLIANCE_HOLD_BLOCKS_BRIDGE'' why s = (out, s') \<Longrightarrow>
      log_kept W call c out (ea_decision_logger s) (ea_decision_logger s') \<and> refused out"
    "refuse W call c t ''DECLINE'' ''DECLINE'' why s = (out, s') \<Longrightarrow>
      log_kept W call c out (ea_decision_logger s) (ea_decision_logger s') \<and> refused out"
    "refuse W call c t ''CURRENCY_NOT_SUPPORTED'' ''CURRENCY_NOT_SUPPORTED'' why s = (out, s') \<Longrightarrow>
      log_kept W call c out (ea_decision_logger s) (ea_decision_logger s') \<and> refused out"
    "refuse W call c t ''DECLINE'' ''BELOW_MIN_LOAN_AMOUNT'' why s = (out, s') \<Longrightarrow>
      log_kept W call c out (ea_decision_logger s) (ea_decision_logger s') \<and> refused out"
    "refuse W call c t ''DECLINE'' ''BELOW_MIN_CASH_FEE'' why s = (out, s') \<Longrightarrow>
      log_kept W call c out (ea_decision_logger s) (ea_decision_logger s') \<and> refused out"
    "refuse W call c t ''LOAN_AMOUNT_MISMATCH'' ''LOAN_AMOUNT_MISMATCH'' why s = (out, s') \<Longrightarrow>
      log_kept W call c out (ea_decision_logger s) (ea_decision_logger s') \<and> refused out"
  by - (erule refuse_logged [OF _ assms]; simp add: logged_type_def)+

lemma admit_Inl:
  "admit W call c s = (Inl out, s') \<Longrightarrow>
   log_kept W call c out (ea_decision_logger s) (ea_decision_logger s') \<and> refused out"
  by (cases "tps_allow (ea_tps_limiter s) (cl_monotonic call)")
    (auto simp: admit_def Let_def stage_iffs log_kept_def refused_def split: if_splits)

lemma check_enrollment_Inl:
  assumes "check_enrollment W call c s = (Inl out, s')"
  shows "log_kept W call c out (ea_decision_logger s) (ea_decision_logger s') \<and> refused out"
proof -
  obtain ok reg where "(if list_enrolled (ec_borrower_registry (ea_config s)) = {}
      then (True, ec_borrower_registry (ea_config s))
      else is_enrolled (aw_redis_sets W) (cl_registry_up call) (ec_borrower_registry (ea_config s))
        (ctx_get (pc_sending_bic c) '''')) = (ok, reg)" by fastforce
  note * = assms [unfolded check_enrollment_def Let_def this]
  show ?thesis
  proof (cases "read_terms c")
    case (Inl e)
    with * show ?thesis by (auto simp: log_kept_def refused_def)
  next
    case (Inr t)
    with * have "refuse W call c t ''BLOCK'' ''BORROWER_NOT_ENROLLED'' (Some ''borrower_not_enrolled'')
        (s\<lparr>ea_config := (ea_config s)\<lparr>ec_borrower_registry := reg\<rparr>\<rparr>) = (out, s')"
      by (auto split: if_splits)
    from refusals(1) [OF Inr this] show ?thesis by simp
  qed
qed

lemma check_blocks_Inl:
  assumes "check_blocks W call c t s = (Inl out, s')" "read_terms c = Inr t"
  shows "log_kept W call c out (ea_decision_logger s) (ea_decision_logger s') \<and> refused out"
  using assms(1) refusals(2,3) [OF assms(2), of W call _ s out s']
  by (auto simp: check_blocks_def split: if_splits)

lemma raised_kept [simp]: "log_kept W call c (Inl e) dl dl' \<longleftrightarrow> dl' = dl" "refused (Inl e)"
  by (auto simp: log_kept_def refused_def)

lemma check_terms_Inl:
  assumes "check_terms W call c t s = (Inl out, s')" "read_terms c = Inr t"
  shows "log_kept W call c out (ea_decision_logger s) (ea_decision_logger s') \<and> refused out"
  using assms(1) refusals(4-7) [OF assms(2), of W call _ s out s']
  by (auto simp: check_terms_def stage_iffs split: if_splits)

lemma human_review_Inl:
  assumes "human_review W call c t s = (Inl out, s')"
  shows "log_kept W call c out (ea_decision_logger s) (ea_decision_logger s') \<and> refused out"
proof -
  obtain q s1 where q: "requires_human_review call c s = (q, s1)" by fastforce
  obtain q2 s2 where q2: "stressed_now call c s1 = (q2, s2)" by fastforce
  have st: "ea_decision_logger s1 = ea_decision_logger s" "ea_decision_logger s2 = ea_decision_logger s1"
    using requires_human_review_setup [OF q] stressed_now_setup [OF q2] by (simp_all add: same_setup_def)
  show ?thesis
  proof (cases q)
    case (Inl r)
    then have "(out, s') = (r, s1)" using assms q by (simp add: human_review_def)
    moreover have "\<exists>e. r = Inl e"
      using q Inl by (auto simp: requires_human_review_def stressed_now_def stage_iffs split_def Let_def
          split: if_splits option.splits)
    ultimately show ?thesis using st by auto
  next
    case (Inr b)
    note * = assms [unfolded human_review_def q Inr proceed_simps q2]
    show ?thesis
    proof (cases q2)
      case (Inl r)
      moreover have "\<exists>e. r = Inl e"
        using q2 Inl by (auto simp: stressed_now_def lift_result_iff split_def Let_def split: option.splits)
      ultimately show ?thesis using * st by (auto split: if_splits)
    next
      case (Inr stressed)
      with * st show ?thesis
        by (auto simp: Let_def log_kept_def refused_def split: if_splits prod.splits)
    qed
  qed
qed

lemma route_offer_setup:
  "route_offer W call l s = (r, s') \<Longrightarrow>
   ea_decision_logger s' = ea_decision_logger s \<and> (\<forall>out. r = Inl out \<longrightarrow> (\<exists>e. out = Inl e))"
  by (auto simp: route_offer_def Let_def split_def proceed_def lift_result_def
      split: option.splits sum.splits if_splits)

lemma result_option_exhaust:
  fixes x :: "'e + 'a option"
  obtains e where "x = Inl e" | "x = Inr None" | l where "x = Inr (Some l)"
proof (cases x)
  case (Inr y)
  then show thesis using that by (cases y) auto
qed (use that in auto)

lemma concludeE:
  assumes "conclude r k = (out, s')"
    and "r = (Inl out, s') \<Longrightarrow> P"
    and "\<And>v s. r = (Inr v, s) \<Longrightarrow> k v s = (out, s') \<Longrightarrow> P"
  shows P
  using assms by (auto simp: conclude_iff)

lemma make_offer_outcome:
  assumes "make_offer W call c t ov s = (out, s')" "read_terms c = Inr t"
  shows "log_kept W call c out (ea_decision_logger s) (ea_decision_logger s')
    \<and> (refused out \<or>
       (\<exists>l d s1 eid. build_loan_offer (aw_settlement_predictor W) (ec_max_loan_amount (ea_config s))
            (ea_deployment_phase s) (cl_now call) (cl_loan_id call) c (pt_pd_score t) (pt_fee_bps t) = Inr (Some l)
        \<and> route_offer W call l s = (Inr d, s1)
        \<and> log_decision W call c t ''OFFER'' ov s1 = (eid, s')
        \<and> out = Inr ((returned ''OFFER'' (Some eid) None)\<lparr>ar_loan_offer := Some l, ar_delivery_id := d\<rparr>)))"
proof -
  let ?b = "build_loan_offer (aw_settlement_predictor W) (ec_max_loan_amount (ea_config s))
            (ea_deployment_phase s) (cl_now call) (cl_loan_id call) c (pt_pd_score t) (pt_fee_bps t)"
  consider e where "?b = Inl e" | "?b = Inr None" | l where "?b = Inr (Some l)"
    by (rule result_option_exhaust)
  then show ?thesis
  proof cases
    case 1
    with assms(1) show ?thesis by (auto simp: make_offer_def)
  next
    case 2
    with assms(1) show ?thesis
      using refusals(8) [OF assms(2), of W call _ s out s'] by (auto simp: make_offer_def)
  next
    case (3 l)
    obtain r s1 where r: "route_offer W call l s = (r, s1)" by fastforce
    note st = route_offer_setup [OF r]
    show ?thesis
    proof (cases r)
      case (Inl out')
      with 3 r st assms(1) show ?thesis by (auto simp: make_offer_def)
    next
      case (Inr d)
      obtain eid s2 where e: "log_decision W call c t ''OFFER'' ov s1 = (eid, s2)" by fastforce
      with 3 r Inr assms(1) have out: "s' = s2"
        "out = Inr ((returned ''OFFER'' (Some eid) None)\<lparr>ar_loan_offer := Some l, ar_delivery_id := d\<rparr>)"
        by (simp_all add: make_offer_def)
      have "log_kept W call c out (ea_decision_logger s) (ea_decision_logger s')"
        using log_decision_entry [OF e assms(2), of "''OFFER''"] st out
        by (auto simp: log_kept_def logged_type_def)
      with 3 r Inr e out show ?thesis by blast
    qed
  qed
qed

text \<open>One statement for every call: the log, and what an offer implies.\<close>

lemma reviewed_same:
  "same_setup s s' \<Longrightarrow> ea_stress_detector s' = ea_stress_detector s \<Longrightarrow>
   reviewed call c t s' \<longleftrightarrow> reviewed call c t s"
  by (simp add: reviewed_def same_setup_def)

lemma closed_gates_refuse:
  assumes "process_payment W call c s = (out, s')" "\<nexists>t. gates_open W call c t s"
  shows "log_kept W call c out (ea_decision_logger s) (ea_decision_logger s') \<and> refused out"
  using assms(1) unfolding process_payment_def
proof (rule concludeE)
  assume "admit W call c s = (Inl out, s')"
  then show ?thesis by (rule admit_Inl)
next
  fix u s1
  assume a: "admit W call c s = (Inr u, s1)"
    and k1: "conclude (check_enrollment W call c s1) (\<lambda>t s. conclude (check_blocks W call c t s) (\<lambda>_ s.
      conclude (human_review W call c t s) (\<lambda>ov s. conclude (check_terms W call c t s) (\<lambda>_ s.
      make_offer W call c t ov s)))) = (out, s')"
  have 1: "admitted W call c s" "same_setup s s1" "ea_stress_detector s1 = ea_stress_detector s"
    "ec_borrower_registry (ea_config s1) = ec_borrower_registry (ea_config s)"
    using a by (simp_all add: admit_Inr same_setup_def)
  from k1 show ?thesis
  proof (rule concludeE)
    assume "check_enrollment W call c s1 = (Inl out, s')"
    from check_enrollment_Inl [OF this] 1(2) show ?thesis by (simp add: same_setup_def)
  next
    fix t s2
    assume b: "check_enrollment W call c s1 = (Inr t, s2)"
      and k2: "conclude (check_blocks W call c t s2) (\<lambda>_ s. conclude (human_review W call c t s) (\<lambda>ov s.
        conclude (check_terms W call c t s) (\<lambda>_ s. make_offer W call c t ov s))) = (out, s')"
    have 2: "enrolled_or_open W call c (ec_borrower_registry (ea_config s))" "read_terms c = Inr t"
      "same_setup s1 s2" "ea_stress_detector s2 = ea_stress_detector s1"
      using b 1(4) by (simp_all add: check_enrollment_Inr same_setup_def)
    have st: "same_setup s s2" using 1(2) 2(3) by (rule same_setup_trans)
    have ends: "unblocked c t \<and> reviewed call c t s \<and> economic c t s \<Longrightarrow> False"
      using assms(2) 1(1) 2(1,2) by (auto simp: gates_open_def)
    from k2 show ?thesis
    proof (rule concludeE)
      assume "check_blocks W call c t s2 = (Inl out, s')"
      from check_blocks_Inl [OF this 2(2)] st show ?thesis by (simp add: same_setup_def)
    next
      fix u s3
      assume d: "check_blocks W call c t s2 = (Inr u, s3)"
        and k3: "conclude (human_review W call c t s3) (\<lambda>ov s. conclude (check_terms W call c t s) (\<lambda>_ s.
          make_offer W call c t ov s)) = (out, s')"
      have 3: "unblocked c t" "s3 = s2" using d by (simp_all add: check_blocks_Inr)
      from k3 show ?thesis
      proof (rule concludeE)
        assume "human_review W call c t s3 = (Inl out, s')"
        from human_review_Inl [OF this] 3 st show ?thesis by (simp add: same_setup_def)
      next
        fix ov s4
        assume e: "human_review W call c t s3 = (Inr ov, s4)"
          and k4: "conclude (check_terms W call c t s4) (\<lambda>_ s. make_offer W call c t ov s) = (out, s')"
        have "reviewed call c t s2"
          using e 3 human_review_reviewed [OF 2(2)] by blast
        then have rev: "reviewed call c t s"
          using reviewed_same [OF st] 1(3) 2(4) by simp
        have "same_setup s3 s4"
          using e requires_human_review_setup by (fastforce simp: human_review_Inr)
        with 3 st have st4: "same_setup s s4" using same_setup_trans by blast
        have "\<not> economic c t s4"
          using ends 3 rev st4 by (auto simp: economic_def same_setup_def)
        then have "\<nexists>u s5. check_terms W call c t s4 = (Inr u, s5)"
          by (simp add: check_terms_Inr)
        with k4 have "check_terms W call c t s4 = (Inl out, s')"
          by (auto simp: conclude_iff)
        from check_terms_Inl [OF this 2(2)] st4 show ?thesis by (simp add: same_setup_def)
      qed
    qed
  qed
qed

lemma process_payment_outcome:
  assumes "process_payment W call c s = (out, s')"
  shows "log_kept W call c out (ea_decision_logger s) (ea_decision_logger s')
    \<and> (refused out \<or> (\<exists>t ov s1. gates_open W call c t s \<and> same_setup s s1 \<and>
          (ov \<longrightarrow> pc_human_override_decision c = Some ''APPROVE'') \<and> make_offer W call c t ov s1 = (out, s')))"
proof (cases "\<exists>t. gates_open W call c t s")
  case True
  then obtain t where t: "gates_open W call c t s" by blast
  then have rt: "read_terms c = Inr t" by (simp add: gates_open_def)
  obtain ov s1 where st: "same_setup s s1" "make_offer W call c t ov s1 = (out, s')"
    "ov \<longrightarrow> pc_human_override_decision c = Some ''APPROVE''"
    using gates_open_reaches [OF t] assms by metis
  have "log_kept W call c out (ea_decision_logger s) (ea_decision_logger s')"
    using make_offer_outcome [OF st(2) rt] st(1) by (simp add: same_setup_def)
  with t st show ?thesis by blast
next
  case False
  with closed_gates_refuse [OF assms] show ?thesis by simp
qed

lemma route_offer_same:
  "same_setup s s1 \<Longrightarrow> fst (route_offer W call l s1) = fst (route_offer W call l s)"
  by (auto simp: route_offer_def same_setup_def Let_def split_def proceed_def lift_result_def
      split: option.splits sum.splits)

abbreviation offer_for ::
    "('r, 's) agent_world \<Rightarrow> agent_call \<Rightarrow> PaymentContext \<Rightarrow> payment_terms \<Rightarrow> ('r, 's, 'c) ExecutionAgent \<Rightarrow>
     py_exc + loan_offer option" where
  "offer_for W call c t s \<equiv>
     build_loan_offer (aw_settlement_predictor W) (ec_max_loan_amount (ea_config s))
       (ea_deployment_phase s) (cl_now call) (cl_loan_id call) c (pt_pd_score t) (pt_fee_bps t)"

text \<open>What a returned offer comes from.\<close>

lemma offered_cases:
  assumes "process_payment W call c s = (Inr r, s')" "ar_status r = ''OFFER'' \<or> ar_loan_offer r \<noteq> None"
  obtains t l d s1 s2 ov eid where
    "gates_open W call c t s" "same_setup s s1" "offer_for W call c t s = Inr (Some l)"
    "route_offer W call l s1 = (Inr d, s2)" "log_decision W call c t ''OFFER'' ov s2 = (eid, s')"
    "r = (returned ''OFFER'' (Some eid) None)\<lparr>ar_loan_offer := Some l, ar_delivery_id := d\<rparr>"
proof -
  have "\<not> refused (Inr r)" using assms(2) by (auto simp: refused_def)
  with process_payment_outcome [OF assms(1)] obtain t ov s1 where
    g: "gates_open W call c t s" "same_setup s s1" "make_offer W call c t ov s1 = (Inr r, s')" by blast
  from make_offer_outcome [OF g(3)] g(1) \<open>\<not> refused (Inr r)\<close> obtain l d s2 eid where
    "offer_for W call c t s1 = Inr (Some l)" "route_offer W call l s1 = (Inr d, s2)"
    "log_decision W call c t ''OFFER'' ov s2 = (eid, s')"
    "r = (returned ''OFFER'' (Some eid) None)\<lparr>ar_loan_offer := Some l, ar_delivery_id := d\<rparr>"
    by (auto simp: gates_open_def)
  moreover from this g(2) have "offer_for W call c t s = Inr (Some l)" by (simp add: same_setup_def)
  ultimately show thesis using that g by blast
qed


text \<open>
  C13: the terms of an offer.  The amount is the requested one, capped, and within a cent of the
  original payment; the fee is at least the requested one, 300 basis points, and 1200 when the rail
  matures within 48 hours; the maturity is at most the static window (or the one-day envelope of a rail
  that matures within a day); the offer is for this payment, lapses after fifteen minutes, and is
  governed by the law of New York, England or Luxembourg.
\<close>

theorem offer_terms_bounded:
  assumes "process_payment W call c s = (Inr r, s')" "ar_loan_offer r = Some l"
  shows "\<exists>t original n. read_terms c = Inr t
    \<and> lo_loan_amount l = min (pt_loan_amount t) (ec_max_loan_amount (ea_config s))
    \<and> decimal_of (ctx_get (pc_original_payment_amount_usd c) (PNum (pt_loan_amount t))) = Inr original
    \<and> \<bar>dsub (pt_loan_amount t) original\<bar> \<le> AMOUNT_VALIDATION_TOLERANCE_USD
    \<and> max (pt_fee_bps t) (if lo_maturity_hours l < 48 then 1200 else 300) \<le> lo_fee_bps l
    \<and> py_int (ctx_get (pc_maturity_days c) (PNum 7)) = Inr n
    \<and> lo_maturity_days l \<le> (if lo_maturity_hours l < 24 then max 1 n else n)
    \<and> lo_uetr l = ctx_get (pc_uetr c) '''' \<and> lo_expires_at l = cl_now call + 900
    \<and> lo_governing_law l \<in> {''NEW_YORK'', ''ENGLAND_WALES'', ''EU_LUXEMBOURG''}"
proof -
  have some: "ar_status r = ''OFFER'' \<or> ar_loan_offer r \<noteq> None" using assms(2) by simp
  from assms(1) some obtain t where t: "gates_open W call c t s" and b: "offer_for W call c t s = Inr (Some l)"
    by (rule offered_cases) (use assms(2) in auto)
  then have rt: "read_terms c = Inr t" by (simp add: gates_open_def)
  then have a: "decimal_of (ctx_get (pc_loan_amount c) (PStr ''0'')) = Inr (pt_loan_amount t)"
    by (auto simp: read_terms_def res_bind_Inr_iff)
  from b show ?thesis
    by (rule build_loan_offer_cases) (use rt a law_known in auto)
qed

text \<open>The calls that leave the log alone: those that raise, halt, park the payment, or have no UETR.\<close>

lemma unlogged_calls:
  "case process_payment W call c s of
     (Inl e, s') \<Rightarrow> ea_decision_logger s' = ea_decision_logger s
   | (Inr r, s') \<Rightarrow> ar_decision_entry_id r = None \<longrightarrow>
       ea_decision_logger s' = ea_decision_logger s \<and>
       (ar_status r \<in> {''HALT'', ''PENDING_HUMAN_REVIEW''} \<or> ar_halt_reason r = Some ''missing_uetr'')"
proof -
  obtain out s' where p: "process_payment W call c s = (out, s')" by fastforce
  have "log_kept W call c out (ea_decision_logger s) (ea_decision_logger s')"
    using process_payment_outcome [OF p] by blast
  then show ?thesis
    unfolding p by (auto simp: log_kept_def split: sum.splits option.splits)
qed

text \<open>
  The halt of the kill switch is not logged: with the switch on and the server reached, a call with a UETR
  that the rate limit lets in returns a halt without an entry id and leaves the log as it was.
\<close>

lemma halt_not_logged:
  assumes "ctx_get (pc_uetr c) '''' \<noteq> ''''" "fst (tps_allow (ea_tps_limiter s) (cl_monotonic call))"
    and "should_halt_new_offers (aw_redis W) (cl_redis_up call) (ea_kill_switch s) (cl_now call) = Inr True"
    and "is_active (aw_redis W) (cl_redis_up call) (ea_kill_switch s) (cl_now call) = Inr True"
  shows "\<exists>s'. process_payment W call c s = (Inr (returned ''HALT'' None (Some ''kill_switch_active'')), s') \<and>
    ea_decision_logger s' = ea_decision_logger s"
  using assms
  by (cases "tps_allow (ea_tps_limiter s) (cl_monotonic call)")
    (auto simp: process_payment_def admit_def Let_def)

text \<open>
  C14: every decision of the agent is logged once.  A call that returns an offer, a decline, a block or a
  compliance hold (anything but a halt, a request for human review or the refusal of a payment without
  UETR) seals exactly one entry in the decision log and returns its id: an entry about this payment, with
  the decision type that goes with the status, and with the default probability, the AML result,
  the failure probability and the dispute class that the decision was made on.
\<close>

theorem every_decision_logged_once:
  assumes "process_payment W call c s = (Inr r, s')" "ar_status r \<notin> {''HALT'', ''PENDING_HUMAN_REVIEW''}"
    and "ar_halt_reason r \<noteq> Some ''missing_uetr''"
  shows "\<exists>eid e t. ar_decision_entry_id r = Some eid
    \<and> log_entry (aw_sign W) (cl_entry_id call) e (ea_decision_logger s) = (eid, ea_decision_logger s')
    \<and> de_uetr e = ctx_get (pc_uetr c) '''' \<and> de_decision_type e = logged_type (ar_status r)
    \<and> read_terms c = Inr t \<and> de_pd_score e = pt_pd_score t \<and> de_aml_passed e = pt_aml_passed t
    \<and> de_failure_probability e = pt_failure_prob t \<and> de_dispute_class e = pt_dispute_class t"
proof -
  have "log_kept W call c (Inr r) (ea_decision_logger s) (ea_decision_logger s')"
    using process_payment_outcome [OF assms(1)] by blast
  with assms(2,3) show ?thesis
    by (cases "ar_decision_entry_id r") (auto simp: log_kept_def entry_about_def)
qed

section \<open>Delivery\<close>

lemma deliver_offer_dict:
  assumes "deliver fromiso now du fu (offer_dict l) od = (Inr d, od')"
  shows "od' = store_delivery d (PDict (offer_dict l)) od"
    and "py_uuid (lo_loan_id l) = Inr (ld_offer_id d)" "ld_delivery_id d = du"
    and "ld_principal_usd d = lo_loan_amount l" "ld_fee_bps d = of_int (lo_fee_bps l)"
    and "ld_maturity_days d = lo_maturity_days l" "ld_offer_expiry d = lo_expires_at l"
    and "ld_pd_score d = lo_pd_score l"
    and "ld_rejection_code_class d = ''B''" "ld_elo_entity_id d = ''''" "ld_fee_amount_usd d = 0"
proof -
  obtain d' where r: "deliver_record fromiso now du fu (od_delivery_endpoint od) (offer_dict l) = Inr d'"
    and d: "d' = d" "od' = store_delivery d (PDict (offer_dict l)) od"
    using assms by (auto simp: deliver_def split: sum.splits)
  show "od' = store_delivery d (PDict (offer_dict l)) od" by (rule d)
  have z: "py_decimal ''0'' = Inr 0"
    by (simp add: py_decimal_def py_strip_def py_space_def split_at_def is_digit_def digits_value_def
        digit_value_def Let_def)
  have "py_uuid (lo_loan_id l) = Inr (ld_offer_id d) \<and> ld_delivery_id d = du \<and>
    ld_principal_usd d = lo_loan_amount l \<and> ld_fee_bps d = of_int (lo_fee_bps l) \<and>
    ld_maturity_days d = lo_maturity_days l \<and> ld_offer_expiry d = lo_expires_at l \<and>
    ld_pd_score d = lo_pd_score l \<and>
    ld_rejection_code_class d = ''B'' \<and> ld_elo_entity_id d = '''' \<and> ld_fee_amount_usd d = 0"
    using r d(1) by (auto simp: deliver_record_def offer_dict_def res_bind_Inr_iff z Let_def split: if_splits)
  then show "py_uuid (lo_loan_id l) = Inr (ld_offer_id d)" "ld_delivery_id d = du"
    "ld_principal_usd d = lo_loan_amount l" "ld_fee_bps d = of_int (lo_fee_bps l)"
    "ld_maturity_days d = lo_maturity_days l" "ld_offer_expiry d = lo_expires_at l"
    "ld_pd_score d = lo_pd_score l"
    "ld_rejection_code_class d = ''B''" "ld_elo_entity_id d = ''''" "ld_fee_amount_usd d = 0"
    by simp_all
qed

text \<open>
  An offer is in the book before it is returned.  When no Go router is used, an agent with an
  offer service that returns an offer has put it there under its loan id, pending, with the amount, the
  fee, the maturity and the expiry of the offer, and returns its delivery id; the rest of the book is
  untouched.  But whatever the class of the rejection, it is delivered as class B, with no lender named
  and a fee amount of zero: the service reads keys that the offer does not have.
\<close>

lemma offer_delivered_as_class_b:
  assumes "process_payment W call c s = (Inr r, s')" "ar_loan_offer r = Some l"
    and "aw_go_router W = None" "ea_offer_delivery s = Some od" "service_inv od"
    and "py_uuid (lo_loan_id l) = Inr oid" "service_book od oid = None"
  shows "\<exists>od' d. ea_offer_delivery s' = Some od' \<and> service_inv od'
    \<and> service_book od' = (service_book od)(oid \<mapsto> (d, StPending))
    \<and> ar_delivery_id r = Some (ld_delivery_id d)
    \<and> ld_principal_usd d = lo_loan_amount l \<and> ld_fee_bps d = of_int (lo_fee_bps l)
    \<and> ld_maturity_days d = lo_maturity_days l \<and> ld_offer_expiry d = cl_now call + 900
    \<and> ld_rejection_code_class d = ''B'' \<and> ld_elo_entity_id d = '''' \<and> ld_fee_amount_usd d = 0"
proof -
  have some: "ar_status r = ''OFFER'' \<or> ar_loan_offer r \<noteq> None" using assms(2) by simp
  from assms(1) some obtain t d' s1 s2 ov eid where o: "same_setup s s1" "offer_for W call c t s = Inr (Some l)"
    "route_offer W call l s1 = (Inr d', s2)" "log_decision W call c t ''OFFER'' ov s2 = (eid, s')"
    "ar_delivery_id r = d'"
    by (rule offered_cases) (use assms(2) in auto)
  obtain q od' where q: "deliver (aw_fromisoformat W) (cl_now call) (cl_delivery_id call)
      (cl_fallback_uetr call) (offer_dict l) od = (q, od')" by fastforce
  with o(1,3) assms(3,4) obtain d where d: "q = Inr d" "d' = Some (ld_delivery_id d)"
    "ea_offer_delivery s2 = Some od'"
    by (cases q) (auto simp: route_offer_def same_setup_def Let_def)
  have "ea_offer_delivery s' = Some od'" using log_decision_frame [OF o(4)] d(3) by auto
  moreover note deliver_offer_dict [OF q [unfolded d(1)]]
  moreover have "lo_expires_at l = cl_now call + 900"
    using o(2) by (rule build_loan_offer_cases) auto
  moreover have "ld_offer_id d = oid"
    using deliver_offer_dict(2) [OF q [unfolded d(1)]] assms(6) by simp
  ultimately show ?thesis
    using store_delivery_refines [of od d "PDict (offer_dict l)"] assms(5,7) o(5) d(2) by auto
qed

section \<open>A run\<close>

text \<open>A class C payment of a million on a rail that matures in four hours.\<close>

definition sample_context :: PaymentContext where
  "sample_context =
     \<lparr> pc_uetr = Some ''U1'', pc_individual_payment_id = None, pc_tenant_id = None,
       pc_sending_bic = Some ''DEUTDEFF'', pc_receiving_bic = None,
       pc_failure_probability = Some (PNum (1 / 2)), pc_pd_score = Some (PNum (1 / 20)),
       pc_fee_bps = None, pc_loan_amount = Some (PNum 1000000),
       pc_original_payment_amount_usd = None, pc_dispute_class = None,
       pc_aml_passed = Some (PBool True), pc_anomaly_flagged = None, pc_rejection_code = None,
       pc_rejection_class = Some ''CLASS_C'', pc_human_override_decision = None, pc_corridor = None,
       pc_rail = Some ''CBDC_ECNY'', pc_currency = None, pc_maturity_days = None, pc_lgd = None,
       pc_aml_entity_id = None, pc_aml_beneficiary_id = None \<rparr>"

definition sample_world :: "(redis_map, string \<Rightarrow> string list) agent_world" where
  "sample_world =
     \<lparr> aw_redis = map_redis, aw_redis_sets = list_sets, aw_sign = sample_sign,
       aw_settlement_predictor = None, aw_fromisoformat = (\<lambda>_. Inl ValueError), aw_go_router = None,
       aw_canary_pct = 0, aw_sha256 = (\<lambda>_. 0), aw_float_text = (\<lambda>_. []), aw_float_text_3 = (\<lambda>_. []) \<rparr>"

definition sample_call :: agent_call where
  "sample_call =
     \<lparr> cl_monotonic = 10, cl_now = 100, cl_redis_up = True, cl_registry_up = True, cl_request_id = ''R1'',
       cl_entry_id = ''E1'', cl_loan_id = ''00000000000000000000000000000007'', cl_delivery_id = ''D1'',
       cl_fallback_uetr = ''F1'' \<rparr>"

definition sample_agent :: "(redis_map, string \<Rightarrow> string list, unit) ExecutionAgent" where
  "sample_agent =
     agent_init (kill_switch_init None False) sample_logger
       \<lparr> ho_requires_dual_approval = False, ho_timeout_seconds = 900, ho_timeout_action = ''DECLINE'',
         ho_pending = [], ho_responses = [], ho_context_store = [] \<rparr>
       clean_state
       \<lparr> ec_high_risk_threshold = 8 / 10, ec_max_loan_amount = 10000000, ec_auto_approve_threshold = 95 / 100,
         ec_require_human_review_above_pd = 2 / 10, ec_borrower_registry = borrower_init list_sets True [] None \<rparr>
       ''L1'' 5 0 0 500000 None None (Some (sample_service None)) None"

definition sample_terms :: payment_terms where
  "sample_terms =
     \<lparr> pt_failure_prob = 1 / 2, pt_pd_score = 1 / 20, pt_fee_bps = 300, pt_loan_amount = 1000000,
       pt_dispute_class = ''NOT_DISPUTE'', pt_aml_passed = True \<rparr>"

lemma sample_upper: "py_upper ''CBDC_ECNY'' = ''CBDC_ECNY''" "py_upper ''CLASS_C'' = ''CLASS_C''"
  "normalise_code '''' = ''''" "py_upper ''DEUTDEFF'' = ''DEUTDEFF''"
  by code_simp+

lemma sample_read: "read_terms sample_context = Inr sample_terms"
  by (simp add: read_terms_def sample_context_def sample_terms_def py_trunc_def FEE_FLOOR_BPS_def)

lemma sample_gates: "gates_open sample_world sample_call sample_context sample_terms sample_agent"
proof -
  have "admitted sample_world sample_call sample_context sample_agent"
    by (simp add: admitted_def sample_context_def sample_agent_def agent_init_def kill_switch_init_def
        tps_init_def tps_allow_def should_halt_new_offers_def is_active_def degraded_should_halt_def
        clean_state_def Let_def)
  moreover have "enrolled_or_open sample_world sample_call sample_context
      (ec_borrower_registry (ea_config sample_agent))"
    by (simp add: enrolled_or_open_def sample_agent_def agent_init_def borrower_init_def load_enrolled_def
        list_enrolled_def Let_def)
  moreover have "unblocked sample_context sample_terms"
    by (simp add: unblocked_def sample_terms_def sample_context_def sample_upper ALL_BLOCK_CODES_def
        EPG19_COMPLIANCE_HOLD_CODES_def DISPUTE_FRAUD_BLOCK_CODES_def)
  moreover have "reviewed sample_call sample_context sample_terms sample_agent"
    by (simp add: reviewed_def sample_agent_def agent_init_def sample_terms_def sample_context_def Let_def)
  moreover have "economic sample_context sample_terms sample_agent"
  proof -
    have "projected_fee sample_context sample_terms = Inr (57534 / 100)"
      by (simp add: projected_fee_def sample_context_def sample_terms_def compute_tiered_fee_floor_def
          FEE_FLOOR_BPS_def compute_loan_fee_example)
    moreover have "MIN_CASH_FEE_USD \<le> 57534 / 100" by (simp add: MIN_CASH_FEE_USD_def)
    moreover have "1 / 10 \<le> pt_failure_prob sample_terms"
      "currency_supported (ea_fx_risk_config sample_agent) sample_context"
      "effective_loan_min sample_context (ea_min_loan_amount_usd sample_agent) \<le> pt_loan_amount sample_terms"
      by (simp_all add: sample_terms_def sample_agent_def agent_init_def sample_context_def
          currency_supported_def effective_loan_min_def CLASS_MINIMUMS_def sample_upper
          MIN_LOAN_AMOUNT_CLASS_C_USD_def Let_def)
    ultimately show ?thesis unfolding economic_def by blast
  qed
  ultimately show ?thesis by (simp add: gates_open_def sample_read)
qed

definition sample_offer :: loan_offer where
  "sample_offer = offer_record ''LICENSOR'' 100 (cl_loan_id sample_call) sample_context (1 / 20) 1000000 1200 4 7"

lemma sample_offer_for: "offer_for sample_world sample_call sample_context sample_terms sample_agent = Inr (Some sample_offer)"
proof -
  have c: "pc_loan_amount sample_context = Some (PNum 1000000)" "pc_maturity_days sample_context = None"
    "pc_original_payment_amount_usd sample_context = None" "pc_rail sample_context = Some ''CBDC_ECNY''"
    by (simp_all add: sample_context_def)
  have t: "pt_pd_score sample_terms = 1 / 20" "pt_fee_bps sample_terms = 300"
    "aw_settlement_predictor sample_world = None" "cl_now sample_call = 100"
    "ec_max_loan_amount (ea_config sample_agent) = 10000000" "ea_deployment_phase sample_agent = ''LICENSOR''"
    by (simp_all add: sample_terms_def sample_world_def sample_call_def sample_agent_def agent_init_def Let_def)
  have h: "offer_maturity_hours sample_context = Inr 4"
    by (simp add: offer_maturity_hours_def rail_upper_of_def c sample_upper RAIL_MATURITY_HOURS_def)
  show ?thesis
    by (simp add: build_loan_offer_def h c t floor_bps_values dynamic_maturity_def sample_offer_def dsub_def
        AMOUNT_VALIDATION_TOLERANCE_USD_def Let_def)
qed

lemma sample_uuid: "py_uuid (lo_loan_id sample_offer) = Inr ''00000000-0000-0000-0000-000000000007''"
proof -
  have "py_uuid ''00000000000000000000000000000007'' = Inr ''00000000-0000-0000-0000-000000000007''"
    by code_simp
  then show ?thesis by (simp add: sample_offer_def sample_call_def)
qed

lemma sample_delivers:
  assumes l: "lo_loan_amount l = 1000000" "lo_fee_bps l = 1200" "lo_maturity_days l = 1" "lo_pd_score l = 1 / 20"
    "lo_loan_id l = cl_loan_id sample_call"
  shows "\<exists>d. fst (route_offer sample_world sample_call l sample_agent) = Inr d"
proof -
  have z: "py_decimal ''0'' = Inr 0"
    by (simp add: py_decimal_def py_strip_def py_space_def split_at_def is_digit_def digits_value_def
        digit_value_def Let_def)
  have u: "py_uuid (lo_loan_id l) = Inr ''00000000-0000-0000-0000-000000000007''"
    using sample_uuid by (simp add: l sample_offer_def)
  have "\<exists>d. deliver_record fromiso now du fu endpoint (offer_dict l) = Inr d" for fromiso now du fu endpoint
    by (simp add: deliver_record_def offer_dict_def z l(1-4) u delivery_valid_def FEE_FLOOR_BPS_def Let_def)
  then obtain d where "deliver_record (aw_fromisoformat sample_world) (cl_now sample_call)
      (cl_delivery_id sample_call) (cl_fallback_uetr sample_call)
      (od_delivery_endpoint (sample_service None)) (offer_dict l) = Inr d" by blast
  moreover have "ea_offer_delivery sample_agent = Some (sample_service None)" "aw_go_router sample_world = None"
    by (simp_all add: sample_agent_def agent_init_def sample_world_def Let_def)
  ultimately show ?thesis by (simp add: route_offer_def deliver_def Let_def)
qed

lemma sample_routed: "\<exists>d. fst (route_offer sample_world sample_call sample_offer sample_agent) = Inr d"
  by (rule sample_delivers)
    (simp_all add: sample_offer_def rail_upper_of_def sample_context_def sample_upper RAIL_MATURITY_HOURS_def)

lemma sample_run:
  obtains r s' where "process_payment sample_world sample_call sample_context sample_agent = (Inr r, s')"
    "ar_loan_offer r = Some sample_offer" "ar_status r = ''OFFER''"
proof -
  obtain ov s1 where st: "same_setup sample_agent s1"
    "process_payment sample_world sample_call sample_context sample_agent
      = make_offer sample_world sample_call sample_context sample_terms ov s1"
    using gates_open_reaches [OF sample_gates] by blast
  have o: "offer_for sample_world sample_call sample_context sample_terms s1 = Inr (Some sample_offer)"
    using sample_offer_for st(1) by (simp add: same_setup_def)
  obtain q s2 where q: "route_offer sample_world sample_call sample_offer s1 = (q, s2)" by fastforce
  then obtain d where "q = Inr d" using sample_routed route_offer_same [OF st(1)] by (metis fst_conv)
  with that show thesis by (simp add: st(2) make_offer_def o q split_def Let_def)
qed

lemma offer_terms_bounded_witness:
  "\<exists>r s' l. process_payment sample_world sample_call sample_context sample_agent = (Inr r, s')
    \<and> ar_loan_offer r = Some l \<and> lo_maturity_hours l = 4 \<and> 1200 \<le> lo_fee_bps l \<and> lo_loan_amount l = 1000000"
proof -
  obtain r s' where r: "process_payment sample_world sample_call sample_context sample_agent = (Inr r, s')"
    "ar_loan_offer r = Some sample_offer"
    by (rule sample_run)
  have v: "lo_maturity_hours sample_offer = 4" "ec_max_loan_amount (ea_config sample_agent) = 10000000"
    "pt_loan_amount sample_terms = 1000000"
    by (simp_all add: sample_offer_def sample_agent_def agent_init_def sample_terms_def Let_def)
  with offer_terms_bounded [OF r] r show ?thesis
    by (auto simp: sample_read)
qed

lemma every_decision_logged_once_witness:
  "\<exists>r s' eid e. process_payment sample_world sample_call sample_context sample_agent = (Inr r, s')
    \<and> ar_decision_entry_id r = Some eid \<and> de_uetr e = ''U1'' \<and> de_decision_type e = ''OFFER''
    \<and> log_entry (aw_sign sample_world) (cl_entry_id sample_call) e (ea_decision_logger sample_agent)
      = (eid, ea_decision_logger s')"
proof -
  obtain r s' where r: "process_payment sample_world sample_call sample_context sample_agent = (Inr r, s')"
    "ar_loan_offer r = Some sample_offer"
    by (rule sample_run)
  have status: "ar_status r = ''OFFER''" "ar_halt_reason r = None"
    using offered_cases [OF r(1), where thesis = "ar_status r = ''OFFER'' \<and> ar_halt_reason r = None"] r(2) by auto
  then have "ar_status r \<notin> {''HALT'', ''PENDING_HUMAN_REVIEW''}" "ar_halt_reason r \<noteq> Some ''missing_uetr''" by auto
  from every_decision_logged_once [OF r(1) this] r(1) show ?thesis
    by (auto simp: status logged_type_def sample_context_def)
qed

lemma offer_delivered_as_class_b_witness:
  "\<exists>r s' od d. process_payment sample_world sample_call sample_context sample_agent = (Inr r, s')
    \<and> ea_offer_delivery s' = Some od
    \<and> service_book od ''00000000-0000-0000-0000-000000000007'' = Some (d, StPending)
    \<and> ld_principal_usd d = lo_loan_amount sample_offer \<and> ld_rejection_code_class d = ''B''"
proof -
  obtain r s' where r: "process_payment sample_world sample_call sample_context sample_agent = (Inr r, s')"
    "ar_loan_offer r = Some sample_offer"
    by (rule sample_run)
  have s: "aw_go_router sample_world = None" "ea_offer_delivery sample_agent = Some (sample_service None)"
    by (simp_all add: sample_world_def sample_agent_def agent_init_def Let_def)
  have "service_inv (sample_service None)" "service_book (sample_service None) oid = None" for oid
    by (simp_all add: sample_service_inv sample_service_book)
  from offer_delivered_as_class_b [OF r s this(1) sample_uuid this(2)] r(1) show ?thesis by fastforce
qed

end
