(* ===== verification/Sliding_Window.thy ===== *)
theory Sliding_Window
  imports Py_Base
begin

text \<open>
  Rate limits over a rolling window.  Entries arrive with a time and a weight; the locale
  \<open>sliding_window\<close> says that the times are those of a clock and the weights not negative, and \<open>admitted\<close>
  that each entry fitted under the cap together with the earlier ones of its own window.  Shown once for
  all limits: then no window, wherever it starts, exceeds the cap.
\<close>

locale sliding_window =
  fixes at_time :: "'e \<Rightarrow> time"
    and weight :: "'e \<Rightarrow> rat"
    and window :: time
  assumes weight_nonneg: "0 \<le> weight e"
begin

definition load :: "(time \<Rightarrow> bool) \<Rightarrow> 'e list \<Rightarrow> rat" where
  "load P es = sum_list (map weight (filter (\<lambda>e. P (at_time e)) es))"

definition admitted :: "rat \<Rightarrow> 'e list \<Rightarrow> bool" where
  "admitted cap es \<longleftrightarrow>
     (\<forall>pre e post. es = pre @ e # post \<longrightarrow> load (\<lambda>t. at_time e - window < t) pre + weight e \<le> cap)"

lemma load_snoc: "load P (es @ [e]) = load P es + (if P (at_time e) then weight e else 0)"
  by (simp add: load_def)

lemma load_mono:
  assumes "\<And>e. e \<in> set es \<Longrightarrow> P (at_time e) \<Longrightarrow> Q (at_time e)"
  shows "load P es \<le> load Q es"
  using assms
proof (induction es)
  case (Cons e es)
  then have "load P es \<le> load Q es" by simp
  with Cons.prems [of e] weight_nonneg [of e] show ?case by (auto simp: load_def)
qed (simp add: load_def)

lemma load_nonneg: "0 \<le> load P es"
  unfolding load_def by (rule sum_list_nonneg) (auto simp: weight_nonneg)

lemma admitted_Nil [simp]: "admitted cap []"
  by (simp add: admitted_def)

lemma admitted_snoc:
  "admitted cap (es @ [e]) \<longleftrightarrow>
     admitted cap es \<and> load (\<lambda>t. at_time e - window < t) es + weight e \<le> cap" (is "?l \<longleftrightarrow> ?r")
proof
  assume l: ?l
  have "load (\<lambda>t. at_time x - window < t) pre + weight x \<le> cap" if "es = pre @ x # post" for pre x post
    using l that by (auto simp: admitted_def)
  with l show ?r by (auto simp: admitted_def)
next
  assume ?r
  then show ?l
    unfolding admitted_def by (auto simp: append_eq_append_conv2 Cons_eq_append_conv append_eq_Cons_conv)
qed

lemma window_capped:
  assumes "admitted cap es" "sorted (map at_time es)" "0 \<le> cap"
  shows "load (\<lambda>t. lo < t \<and> t \<le> lo + window) es \<le> cap"
  using assms
proof (induction es rule: rev_induct)
  case (snoc e es)
  then have IH: "load (\<lambda>t. lo < t \<and> t \<le> lo + window) es \<le> cap"
    by (simp add: admitted_snoc sorted_append)
  show ?case
  proof (cases "lo < at_time e \<and> at_time e \<le> lo + window")
    case True
    then have "load (\<lambda>t. lo < t \<and> t \<le> lo + window) es \<le> load (\<lambda>t. at_time e - window < t) es"
      by (intro load_mono) auto
    with True snoc.prems(1) show ?thesis by (simp add: load_snoc admitted_snoc)
  qed (use IH in \<open>auto simp: load_snoc\<close>)
qed (simp add: load_def)

end

end
