(* ===== verification/Velocity.thy ===== *)
theory Velocity
  imports Constants Sliding_Window "HOL-Library.Multiset"
begin

text \<open>
  AML velocity limits: \<open>lip/c6_aml_velocity/velocity.py\<close>.  A rolling window keeps, per hashed entity, the
  transactions of the last day, in a process or in a Redis sorted set; a checker decides whether one more
  fits under the dollar cap, the count cap and the beneficiary concentration limit.

  Parameters: SHA-256, and the sorted sets of a Redis server (\<open>zset_api\<close>, with the documented behaviour as
  \<open>zset_laws\<close>).  A member \<open>amount:beneficiary:uuid\<close> is the triple its text stands for.  The Lua script is
  one atomic step; its numbers are doubles, modelled like floats by rationals.

  Shown: on a server shared by any number of processes the caps hold in every window of a day.
\<close>

section \<open>Redis sorted sets\<close>

type_synonym zmember = "dec \<times> string \<times> string"

record 'r zset_api =
  z_remrangebyscore :: "'r \<Rightarrow> time \<Rightarrow> string \<Rightarrow> time \<Rightarrow> 'r"
  z_range :: "'r \<Rightarrow> time \<Rightarrow> string \<Rightarrow> (time \<times> zmember) list"
  z_add_expire :: "'r \<Rightarrow> time \<Rightarrow> string \<Rightarrow> zmember \<Rightarrow> int \<Rightarrow> 'r"
  z_number_text :: "rat \<Rightarrow> dec"

text \<open>
  \<open>ZREMRANGEBYSCORE key -inf max\<close> removes the members scored up to \<open>max\<close>; \<open>ZADD\<close> then \<open>EXPIRE\<close> adds a new
  member scored with the time of the call and keeps the whole set for \<open>n\<close> seconds more; neither touches
  another key.  \<open>z_number_text\<close> is the number that Lua's \<open>tostring\<close> writes.
\<close>

definition zset_laws :: "'r zset_api \<Rightarrow> bool" where
  "zset_laws Z \<longleftrightarrow>
     (\<forall>r t k m t' k'. t \<le> t' \<longrightarrow>
        z_range Z (z_remrangebyscore Z r t k m) t' k' =
          (if k' = k then filter (\<lambda>(s, _). m < s) (z_range Z r t' k') else z_range Z r t' k')) \<and>
     (\<forall>r t k x n t' k'. t \<le> t' \<longrightarrow> x \<notin> snd ` set (z_range Z r t k) \<longrightarrow>
        mset (z_range Z (z_add_expire Z r t k x n) t' k') =
          (if k' = k then (if t' < t + of_int n then add_mset (t, x) (mset (z_range Z r t k)) else {#})
           else mset (z_range Z r t' k')))"

section \<open>The window\<close>

definition VELOCITY_KEY_PREFIX :: string where "VELOCITY_KEY_PREFIX = ''lip:velocity:events:''"

type_synonym vrecord = "time \<times> dec \<times> string"  \<comment> \<open>time, amount, beneficiary hash\<close>

record RollingWindow =
  rw_window_seconds :: int
  rw_records :: "string \<Rightarrow> vrecord list"

definition window_init :: "int \<Rightarrow> RollingWindow" where
  "window_init window_seconds = \<lparr> rw_window_seconds = window_seconds, rw_records = (\<lambda>_. []) \<rparr>"

definition window_key :: "string \<Rightarrow> string" where
  "window_key entity_hash = VELOCITY_KEY_PREFIX @ entity_hash"

definition window_cleanup :: "RollingWindow \<Rightarrow> time \<Rightarrow> string \<Rightarrow> RollingWindow" where
  "window_cleanup w now entity_hash =
     (let cutoff = now - of_int (rw_window_seconds w)
      in w\<lparr>rw_records := (rw_records w)(entity_hash := dropWhile (\<lambda>(t, _). t < cutoff) (rw_records w entity_hash))\<rparr>)"

definition get_records ::
    "'r zset_api \<Rightarrow> 'r option \<Rightarrow> RollingWindow \<Rightarrow> time \<Rightarrow> string \<Rightarrow> vrecord list \<times> 'r option \<times> RollingWindow" where
  "get_records Z redis w now entity_hash =
     (case redis of
        Some r \<Rightarrow>
          let key = window_key entity_hash;
              cutoff = now - of_int (rw_window_seconds w);
              r = z_remrangebyscore Z r now key cutoff;
              entries = filter (\<lambda>(s, _). cutoff \<le> s) (z_range Z r now key)
          in (map (\<lambda>(s, amount, bene, uuid). (s, amount, bene)) entries, Some r, w)
      | None \<Rightarrow>
          let w = window_cleanup w now entity_hash in (rw_records w entity_hash, None, w))"

definition window_add ::
    "'r zset_api \<Rightarrow> 'r option \<Rightarrow> RollingWindow \<Rightarrow> time \<Rightarrow> string \<Rightarrow> string \<Rightarrow> dec \<Rightarrow> string \<Rightarrow> 'r option \<times> RollingWindow" where
  "window_add Z redis w now uuid entity_hash amount beneficiary_hash =
     (case redis of
        Some r \<Rightarrow>
          (Some (z_add_expire Z r now (window_key entity_hash) (amount, beneficiary_hash, uuid)
             (rw_window_seconds w + 60)), w)
      | None \<Rightarrow>
          let w = window_cleanup w now entity_hash
          in (None, w\<lparr>rw_records := (rw_records w)(entity_hash :=
                 rw_records w entity_hash @ [(now, amount, beneficiary_hash)])\<rparr>))"

definition decimal_sum :: "dec list \<Rightarrow> dec" where
  "decimal_sum xs = foldl dadd 0 xs"

definition amounts :: "vrecord list \<Rightarrow> dec list" where
  "amounts records = map (\<lambda>(t, a, b). a) records"

definition add_to :: "string \<Rightarrow> dec \<Rightarrow> (string, dec) dict \<Rightarrow> (string, dec) dict" where
  "add_to bene amount d = dset bene (dadd (case dget d bene of None \<Rightarrow> 0 | Some v \<Rightarrow> v) amount) d"

definition by_beneficiary :: "vrecord list \<Rightarrow> (string, dec) dict" where
  "by_beneficiary records = foldl (\<lambda>d (t, a, b). add_to b a d) [] records"

definition max_value :: "(string, dec) dict \<Rightarrow> dec" where
  "max_value d = Max (set (dvalues d))"

definition get_volume ::
    "'r zset_api \<Rightarrow> 'r option \<Rightarrow> RollingWindow \<Rightarrow> time \<Rightarrow> string \<Rightarrow> dec \<times> 'r option \<times> RollingWindow" where
  "get_volume Z redis w now entity_hash =
     (let (records, st) = get_records Z redis w now entity_hash in (decimal_sum (amounts records), st))"

definition get_count ::
    "'r zset_api \<Rightarrow> 'r option \<Rightarrow> RollingWindow \<Rightarrow> time \<Rightarrow> string \<Rightarrow> int \<times> 'r option \<times> RollingWindow" where
  "get_count Z redis w now entity_hash =
     (let (records, st) = get_records Z redis w now entity_hash in (int (length records), st))"

definition get_beneficiary_concentration ::
    "'r zset_api \<Rightarrow> 'r option \<Rightarrow> RollingWindow \<Rightarrow> time \<Rightarrow> string \<Rightarrow> dec \<times> 'r option \<times> RollingWindow" where
  "get_beneficiary_concentration Z redis w now entity_hash =
     (let (records, st) = get_records Z redis w now entity_hash;
          total = decimal_sum (amounts records)
      in (if records = [] then 0 else if total = 0 then 0
          else ctx (max_value (by_beneficiary records) / total), st))"

section \<open>The verdict\<close>

text \<open>What the three limits say of a candidate, given the live records; both back ends report a reason.\<close>

definition current_concentration :: "vrecord list \<Rightarrow> dec option" where
  "current_concentration records =
     (if records = [] then None
      else
        let total_cur = decimal_sum (amounts records)
        in if total_cur > 0 then Some (ctx (max_value (by_beneficiary records) / total_cur)) else Some 0)"

text \<open>\<open>check\<close>: the reason, if any, and the concentration it reports.\<close>

definition memory_verdict ::
    "vrecord list \<Rightarrow> dec \<Rightarrow> string \<Rightarrow> dec \<Rightarrow> int \<Rightarrow> string option \<times> dec option" where
  "memory_verdict records amount bene_hash dollar_cap count_cap =
     (let vol = decimal_sum (amounts records);
          cnt = int (length records);
          conc = current_concentration records
      in if dollar_cap \<noteq> 0 \<and> dadd vol amount > dollar_cap then (Some ''DOLLAR_CAP_EXCEEDED'', conc)
         else if count_cap > 0 \<and> cnt + 1 > count_cap then (Some ''COUNT_CAP_EXCEEDED'', conc)
         else
           let total_after = dadd vol amount;
               by_bene = add_to bene_hash amount (by_beneficiary records);
               new_conc = ctx (max_value by_bene / total_after)
           in if total_after > 0 \<and> cnt \<ge> 2 \<and> 2 \<le> length by_bene \<and> new_conc > BENEFICIARY_CONCENTRATION
              then (Some ''BENEFICIARY_CONCENTRATION_EXCEEDED'', Some new_conc)
              else (None, conc))"

text \<open>The script: sums of doubles per beneficiary, and no reported concentration.\<close>

definition lua_volume :: "(time \<times> zmember) list \<Rightarrow> rat" where
  "lua_volume entries = sum_list (map (\<lambda>(s, a, b, u). a) entries)"

definition lua_by_bene :: "(time \<times> zmember) list \<Rightarrow> string \<Rightarrow> rat" where
  "lua_by_bene entries bene = lua_volume (filter (\<lambda>(s, a, b, u). b = bene) entries)"

definition lua_verdict ::
    "(time \<times> zmember) list \<Rightarrow> dec \<Rightarrow> string \<Rightarrow> dec \<Rightarrow> int \<Rightarrow> string option" where
  "lua_verdict entries candidate bene_hash dollar_cap count_cap =
     (let vol = lua_volume entries;
          cnt = int (length entries)
      in if dollar_cap > 0 \<and> vol + candidate > dollar_cap then Some ''DOLLAR_CAP_EXCEEDED''
         else if count_cap > 0 \<and> cnt + 1 > count_cap then Some ''COUNT_CAP_EXCEEDED''
         else
           let total_after = vol + candidate;
               benes = remdups (bene_hash # map (\<lambda>(s, a, b, u). b) entries);
               projected = (\<lambda>b. lua_by_bene entries b + (if b = bene_hash then candidate else 0));
               max_v = Max (insert 0 (set (map projected benes)))
           in if cnt \<ge> 2 \<and> total_after > 0 \<and> 2 \<le> length benes \<and>
                 max_v / total_after > BENEFICIARY_CONCENTRATION
              then Some ''BENEFICIARY_CONCENTRATION_EXCEEDED''
              else None)"

definition lua_check_record ::
    "'r zset_api \<Rightarrow> 'r \<Rightarrow> time \<Rightarrow> string \<Rightarrow> time \<Rightarrow> dec \<Rightarrow> dec \<Rightarrow> int \<Rightarrow> string \<Rightarrow> zmember \<Rightarrow> int \<Rightarrow>
     (string option \<times> dec \<times> int) \<times> 'r" where
  "lua_check_record Z r now key cutoff candidate dollar_cap count_cap bene_hash new_member ttl =
     (let r = z_remrangebyscore Z r now key cutoff;
          entries = z_range Z r now key;
          reason = lua_verdict entries candidate bene_hash dollar_cap count_cap;
          r = (if reason = None then z_add_expire Z r now key new_member ttl else r)
      in ((reason, z_number_text Z (lua_volume entries), int (length entries)), r))"

definition redis_check_and_add ::
    "'r zset_api \<Rightarrow> 'r \<Rightarrow> RollingWindow \<Rightarrow> time \<Rightarrow> string \<Rightarrow> string \<Rightarrow> string \<Rightarrow> dec \<Rightarrow> dec \<Rightarrow> int \<Rightarrow>
     (string option \<times> dec \<times> int) \<times> 'r" where
  "redis_check_and_add Z r w now uuid entity_hash beneficiary_hash amount dollar_cap count_cap =
     lua_check_record Z r now (window_key entity_hash) (now - of_int (rw_window_seconds w)) amount dollar_cap
       count_cap beneficiary_hash (amount, beneficiary_hash, uuid) (rw_window_seconds w + 60)"

definition atomic_check_and_add ::
    "'r zset_api \<Rightarrow> 'r option \<Rightarrow> RollingWindow \<Rightarrow> time \<Rightarrow> string \<Rightarrow> string \<Rightarrow> string \<Rightarrow> dec \<Rightarrow> dec \<Rightarrow> int \<Rightarrow>
     py_exc + (string option \<times> dec \<times> int) \<times> 'r" where
  "atomic_check_and_add Z redis w now uuid entity_hash beneficiary_hash amount dollar_cap count_cap =
     (case redis of
        None \<Rightarrow> Inl RuntimeError
      | Some r \<Rightarrow>
          Inr (redis_check_and_add Z r w now uuid entity_hash beneficiary_hash amount dollar_cap count_cap))"

section \<open>The checker\<close>

record VelocityResult =
  vr_passed :: bool
  vr_reason :: "string option"
  vr_entity_id_hash :: string
  vr_dollar_volume_24h :: dec
  vr_count_24h :: int
  vr_beneficiary_concentration :: "dec option"

record 'r VelocityChecker =
  vc_salt :: string
  vc_redis :: "'r option"
  vc_window :: RollingWindow

definition velocity_init :: "string \<Rightarrow> 'r option \<Rightarrow> 'r VelocityChecker" where
  "velocity_init salt redis = \<lparr> vc_salt = salt, vc_redis = redis, vc_window = window_init 86400 \<rparr>"

definition set_redis_client :: "'r VelocityChecker \<Rightarrow> 'r \<Rightarrow> 'r VelocityChecker" where
  "set_redis_client c r = c\<lparr>vc_redis := Some r\<rparr>"

definition hash_entity :: "(string \<Rightarrow> string) \<Rightarrow> string \<Rightarrow> string \<Rightarrow> string" where
  "hash_entity sha256 salt entity_id = sha256 (entity_id @ salt)"

definition cap_or_0 :: "'a :: zero option \<Rightarrow> 'a" where
  "cap_or_0 override = (case override of Some c \<Rightarrow> c | None \<Rightarrow> 0)"

definition velocity_check ::
    "'r zset_api \<Rightarrow> (string \<Rightarrow> string) \<Rightarrow> time \<Rightarrow> 'r VelocityChecker \<Rightarrow> string \<Rightarrow> dec \<Rightarrow> string \<Rightarrow> dec option \<Rightarrow> int option \<Rightarrow>
     VelocityResult \<times> 'r VelocityChecker" where
  "velocity_check Z sha256 now c entity_id amount beneficiary_id dollar_cap_override count_cap_override =
     (let entity_hash = hash_entity sha256 (vc_salt c) entity_id;
          bene_hash = hash_entity sha256 (vc_salt c) beneficiary_id;
          (records, redis, w) = get_records Z (vc_redis c) (vc_window c) now entity_hash;
          (reason, conc) = memory_verdict records amount bene_hash (cap_or_0 dollar_cap_override)
            (cap_or_0 count_cap_override)
      in (\<lparr> vr_passed = (reason = None), vr_reason = reason, vr_entity_id_hash = entity_hash,
            vr_dollar_volume_24h = decimal_sum (amounts records), vr_count_24h = int (length records),
            vr_beneficiary_concentration = conc \<rparr>, c\<lparr>vc_redis := redis, vc_window := w\<rparr>))"

definition velocity_record ::
    "'r zset_api \<Rightarrow> (string \<Rightarrow> string) \<Rightarrow> time \<Rightarrow> string \<Rightarrow> 'r VelocityChecker \<Rightarrow> string \<Rightarrow> dec \<Rightarrow> string \<Rightarrow> 'r VelocityChecker" where
  "velocity_record Z sha256 now uuid c entity_id amount beneficiary_id =
     (let (redis, w) = window_add Z (vc_redis c) (vc_window c) now uuid
            (hash_entity sha256 (vc_salt c) entity_id) amount (hash_entity sha256 (vc_salt c) beneficiary_id)
      in c\<lparr>vc_redis := redis, vc_window := w\<rparr>)"

definition check_and_record ::
    "'r zset_api \<Rightarrow> (string \<Rightarrow> string) \<Rightarrow> time \<Rightarrow> string \<Rightarrow> 'r VelocityChecker \<Rightarrow> string \<Rightarrow> dec \<Rightarrow> string \<Rightarrow>
     dec option \<Rightarrow> int option \<Rightarrow> VelocityResult \<times> 'r VelocityChecker" where
  "check_and_record Z sha256 now uuid c entity_id amount beneficiary_id dollar_cap_override count_cap_override =
     (let entity_hash = hash_entity sha256 (vc_salt c) entity_id;
          bene_hash = hash_entity sha256 (vc_salt c) beneficiary_id
      in case vc_redis c of
           Some r \<Rightarrow>
             let ((reason, vol, cnt), r) = redis_check_and_add Z r (vc_window c) now uuid entity_hash bene_hash
                   amount (cap_or_0 dollar_cap_override) (cap_or_0 count_cap_override)
             in (\<lparr> vr_passed = (reason = None), vr_reason = reason, vr_entity_id_hash = entity_hash,
                   vr_dollar_volume_24h = vol, vr_count_24h = cnt, vr_beneficiary_concentration = None \<rparr>,
                 c\<lparr>vc_redis := Some r\<rparr>)
         | None \<Rightarrow>
             let (result, c) = velocity_check Z sha256 now c entity_id amount beneficiary_id
                   dollar_cap_override count_cap_override
             in if vr_passed result then
                  (result, velocity_record Z sha256 now uuid c entity_id amount beneficiary_id)
                else (result, c))"

section \<open>A shared server\<close>

text \<open>
  Calls of any number of processes on one server: time, salt, entity, beneficiary, amount and the uuid the
  call draws.  Each is one atomic step; the log holds the time, entity hash and amount of those that passed.
\<close>

record velocity_event =
  ve_time :: time
  ve_salt :: string
  ve_entity :: string
  ve_beneficiary :: string
  ve_amount :: dec
  ve_uuid :: string

type_synonym velocity_log = "(time \<times> string \<times> dec) list"

definition velocity_step ::
    "'r zset_api \<Rightarrow> (string \<Rightarrow> string) \<Rightarrow> dec \<Rightarrow> int \<Rightarrow> velocity_event \<Rightarrow> 'r \<times> velocity_log \<Rightarrow> 'r \<times> velocity_log" where
  "velocity_step Z sha256 dollar_cap count_cap ev st =
     (let (result, c) = check_and_record Z sha256 (ve_time ev) (ve_uuid ev)
            (velocity_init (ve_salt ev) (Some (fst st))) (ve_entity ev) (ve_amount ev) (ve_beneficiary ev)
            (Some dollar_cap) (Some count_cap)
      in (case vc_redis c of Some r \<Rightarrow> r | None \<Rightarrow> fst st,
          if vr_passed result then snd st @ [(ve_time ev, vr_entity_id_hash result, ve_amount ev)] else snd st))"

definition entries_of :: "string \<Rightarrow> velocity_log \<Rightarrow> (time \<times> dec) list" where
  "entries_of h acc = map (\<lambda>(t, h, a). (t, a)) (filter (\<lambda>(t, h', a). h' = h) acc)"

text \<open>What a server reads as live for a hash at a time, without beneficiary and uuid.\<close>

definition live :: "'r zset_api \<Rightarrow> 'r \<Rightarrow> time \<Rightarrow> string \<Rightarrow> (time \<times> dec) multiset" where
  "live Z r t h =
     image_mset (\<lambda>(s, a, b, u). (s, a)) (filter_mset (\<lambda>(s, m). t - 86400 < s) (mset (z_range Z r t (window_key h))))"

definition server_agrees ::
    "'r zset_api \<Rightarrow> string set \<Rightarrow> time \<Rightarrow> 'r \<times> velocity_log \<Rightarrow> bool" where
  "server_agrees Z used now st \<longleftrightarrow>
     (\<forall>t h. now \<le> t \<longrightarrow> live Z (fst st) t h =
        mset (filter (\<lambda>(s, a). t - 86400 < s) (entries_of h (snd st)))) \<and>
     (\<forall>t k m. now \<le> t \<longrightarrow> m \<in> snd ` set (z_range Z (fst st) t k) \<longrightarrow> snd (snd m) \<in> used) \<and>
     (\<forall>(t, h, a) \<in> set (snd st). t \<le> now) \<and> sorted (map fst (snd st))"

lemma zset_remrange:
  "zset_laws Z \<Longrightarrow> t \<le> t' \<Longrightarrow>
   z_range Z (z_remrangebyscore Z r t k m) t' k' =
     (if k' = k then filter (\<lambda>(s, _). m < s) (z_range Z r t' k') else z_range Z r t' k')"
  unfolding zset_laws_def by (elim conjE) (simp only: simp_thms)

lemma zset_add:
  "zset_laws Z \<Longrightarrow> t \<le> t' \<Longrightarrow> x \<notin> snd ` set (z_range Z r t k) \<Longrightarrow>
   mset (z_range Z (z_add_expire Z r t k x n) t' k') =
     (if k' = k then (if t' < t + of_int n then add_mset (t, x) (mset (z_range Z r t k)) else {#})
      else mset (z_range Z r t' k'))"
  unfolding zset_laws_def by (elim conjE) (simp only: simp_thms)

lemma window_key_inject [simp]: "window_key a = window_key b \<longleftrightarrow> a = b"
  by (simp add: window_key_def)

definition ev_hash :: "(string \<Rightarrow> string) \<Rightarrow> velocity_event \<Rightarrow> string" where
  "ev_hash sha256 ev = hash_entity sha256 (ve_salt ev) (ve_entity ev)"

definition ev_bene :: "(string \<Rightarrow> string) \<Rightarrow> velocity_event \<Rightarrow> string" where
  "ev_bene sha256 ev = hash_entity sha256 (ve_salt ev) (ve_beneficiary ev)"

definition pruned :: "'r zset_api \<Rightarrow> (string \<Rightarrow> string) \<Rightarrow> velocity_event \<Rightarrow> 'r \<Rightarrow> 'r" where
  "pruned Z sha256 ev r =
     z_remrangebyscore Z r (ve_time ev) (window_key (ev_hash sha256 ev)) (ve_time ev - 86400)"

lemma velocity_step_cases:
  "velocity_step Z sha256 D C ev (r, acc) =
    (if lua_verdict (z_range Z (pruned Z sha256 ev r) (ve_time ev) (window_key (ev_hash sha256 ev)))
          (ve_amount ev) (ev_bene sha256 ev) D C = None
     then (z_add_expire Z (pruned Z sha256 ev r) (ve_time ev) (window_key (ev_hash sha256 ev))
             (ve_amount ev, ev_bene sha256 ev, ve_uuid ev) 86460,
           acc @ [(ve_time ev, ev_hash sha256 ev, ve_amount ev)])
     else (pruned Z sha256 ev r, acc))"
  by (simp add: velocity_step_def check_and_record_def velocity_init_def redis_check_and_add_def
      lua_check_record_def window_init_def cap_or_0_def ev_hash_def ev_bene_def pruned_def Let_def split_def)

lemma live_pruned:
  assumes "zset_laws Z" "ve_time ev \<le> t"
  shows "live Z (pruned Z sha256 ev r) t h = live Z r t h"
proof -
  have "filter_mset (\<lambda>(s, m). t - 86400 < s) (filter_mset (\<lambda>(s, m). ve_time ev - 86400 < s) M) =
      filter_mset (\<lambda>(s, m). t - 86400 < s) M" for M :: "(time \<times> zmember) multiset"
    unfolding filter_filter_mset using assms(2) by (intro filter_mset_cong refl) auto
  then show ?thesis
    by (simp add: live_def pruned_def zset_remrange [OF assms] mset_filter)
qed

lemma members_pruned:
  "zset_laws Z \<Longrightarrow> ve_time ev \<le> t \<Longrightarrow>
   set (z_range Z (pruned Z sha256 ev r) t k) \<subseteq> set (z_range Z r t k)"
  by (auto simp: pruned_def zset_remrange)

lemma entries_snoc:
  "entries_of h (acc @ [(t, h', a)]) = entries_of h acc @ (if h' = h then [(t, a)] else [])"
  by (simp add: entries_of_def)

lemma live_added:
  assumes Z: "zset_laws Z" and le: "t0 \<le> t" and fresh: "(a, b, u) \<notin> snd ` set (z_range Z r t0 (window_key h))"
  shows "live Z (z_add_expire Z r t0 (window_key h) (a, b, u) 86460) t h' =
    (if h' = h then
       (if t < t0 + 86460 then
          (if t - 86400 < t0 then {#(t0, a)#} else {#}) + filter_mset (\<lambda>(s, a). t - 86400 < s) (live Z r t0 h)
        else {#})
     else live Z r t h')"
proof (cases "h' = h")
  case True
  have "filter_mset (\<lambda>(s, a). t - 86400 < s) (live Z r t0 h) =
      image_mset (\<lambda>(s, a, b, u). (s, a)) (filter_mset (\<lambda>(s, m). t - 86400 < s) (mset (z_range Z r t0 (window_key h))))"
    unfolding live_def filter_mset_image_mset filter_filter_mset using le
    by (intro arg_cong [where f = "image_mset _"] filter_mset_cong refl) auto
  with True show ?thesis
    unfolding live_def by (simp add: zset_add [OF Z le fresh])
qed (simp add: live_def zset_add [OF Z le fresh])

lemma agrees_live:
  "server_agrees Z used now (r, acc) \<Longrightarrow> now \<le> t \<Longrightarrow>
   live Z r t h = mset (filter (\<lambda>(s, a). t - 86400 < s) (entries_of h acc))"
  unfolding server_agrees_def fst_conv snd_conv by blast

lemma agrees_used:
  "server_agrees Z used now (r, acc) \<Longrightarrow> now \<le> t \<Longrightarrow> m \<in> snd ` set (z_range Z r t k) \<Longrightarrow> snd (snd m) \<in> used"
  unfolding server_agrees_def fst_conv by blast

lemma agrees_log:
  assumes "server_agrees Z used now (r, acc)"
  shows "sorted (map fst acc)" "(s, h, a) \<in> set acc \<Longrightarrow> s \<le> now" "(s, a) \<in> set (entries_of h acc) \<Longrightarrow> s \<le> now"
proof -
  show "sorted (map fst acc)" using assms by (simp add: server_agrees_def)
  have *: "\<forall>(t, h, a) \<in> set acc. t \<le> now" using assms unfolding server_agrees_def fst_conv snd_conv by blast
  then show "(s, h, a) \<in> set acc \<Longrightarrow> s \<le> now" by blast
  show "(s, a) \<in> set (entries_of h acc) \<Longrightarrow> s \<le> now"
    using * by (force simp: entries_of_def)
qed

lemma server_agreesI:
  assumes "\<And>t h. now \<le> t \<Longrightarrow> live Z r t h = mset (filter (\<lambda>(s, a). t - 86400 < s) (entries_of h acc))"
    and "\<And>t k m. now \<le> t \<Longrightarrow> m \<in> snd ` set (z_range Z r t k) \<Longrightarrow> snd (snd m) \<in> used"
    and "\<And>s h a. (s, h, a) \<in> set acc \<Longrightarrow> s \<le> now" and "sorted (map fst acc)"
  shows "server_agrees Z used now (r, acc)"
  unfolding server_agrees_def fst_conv snd_conv using assms by blast

lemma server_agrees_pruned:
  assumes Z: "zset_laws Z" and agrees: "server_agrees Z used t0 (r, acc)" and le: "t0 \<le> ve_time ev"
  shows "server_agrees Z used (ve_time ev) (pruned Z sha256 ev r, acc)"
proof (rule server_agreesI)
  fix t h assume "ve_time ev \<le> t"
  with le show "live Z (pruned Z sha256 ev r) t h = mset (filter (\<lambda>(s, a). t - 86400 < s) (entries_of h acc))"
    by (simp add: live_pruned [OF Z] agrees_live [OF agrees])
next
  fix t k m assume t: "ve_time ev \<le> t" and m: "m \<in> snd ` set (z_range Z (pruned Z sha256 ev r) t k)"
  from m members_pruned [OF Z t] have "m \<in> snd ` set (z_range Z r t k)" by blast
  with t le show "snd (snd m) \<in> used" by (intro agrees_used [OF agrees]) auto
next
  show "s \<le> ve_time ev" if "(s, h, a) \<in> set acc" for s h a
    using agrees_log(2) [OF agrees that] le by simp
qed (rule agrees_log(1) [OF agrees])

lemma narrower_window:
  assumes "t0 \<le> t"
  shows "filter_mset (\<lambda>(s, a). t - 86400 < s) (filter_mset (\<lambda>(s, a). t0 - 86400 < s) M) =
    filter_mset (\<lambda>(s, a). (t :: rat) - 86400 < s) M"
  unfolding filter_filter_mset using assms by (intro filter_mset_cong refl) auto

lemma server_agrees_added:
  assumes Z: "zset_laws Z" and agrees: "server_agrees Z used t0 (r, acc)" and u: "u \<notin> used"
  shows "server_agrees Z (insert u used) t0
    (z_add_expire Z r t0 (window_key h) (a, b, u) 86460, acc @ [(t0, h, a)])"
proof (rule server_agreesI)
  have fresh: "(a, b, u) \<notin> snd ` set (z_range Z r t0 k)" for k
    using agrees_used [OF agrees, of t0 "(a, b, u)" k] u by auto
  fix t assume t: "t0 \<le> t"
  {
    fix h'
    have "\<not> t - 86400 < s" if "t0 + 86460 \<le> t" "(s, a) \<in> set (entries_of h acc)" for s a
      using agrees_log(3) [OF agrees that(2)] that(1) by simp
    then show "live Z (z_add_expire Z r t0 (window_key h) (a, b, u) 86460) t h' =
        mset (filter (\<lambda>(s, a). t - 86400 < s) (entries_of h' (acc @ [(t0, h, a)])))"
      by (simp add: live_added [OF Z t fresh] agrees_live [OF agrees] narrower_window [OF t] t entries_snoc)
  }
  fix k m assume m: "m \<in> snd ` set (z_range Z (z_add_expire Z r t0 (window_key h) (a, b, u) 86460) t k)"
  have "set_mset (mset (z_range Z (z_add_expire Z r t0 (window_key h) (a, b, u) 86460) t k))
      \<subseteq> insert (t0, a, b, u) (set (z_range Z r t0 (window_key h)) \<union> set (z_range Z r t k))"
    unfolding zset_add [OF Z t fresh] by auto
  with m have "m = (a, b, u) \<or> m \<in> snd ` set (z_range Z r t0 (window_key h)) \<or> m \<in> snd ` set (z_range Z r t k)"
    by force
  then show "snd (snd m) \<in> insert u used"
    using agrees_used [OF agrees, of t0 m "window_key h"] agrees_used [OF agrees t, of m k] by auto
next
  show "s \<le> t0" if "(s, h', a') \<in> set (acc @ [(t0, h, a)])" for s h' a'
    using that agrees_log(2) [OF agrees] by auto
  show "sorted (map fst (acc @ [(t0, h, a)]))"
    using agrees_log(1,2) [OF agrees] by (force simp: sorted_append)
qed

section \<open>The caps hold on the whole cluster\<close>

definition velocity_history ::
    "'r zset_api \<Rightarrow> (string \<Rightarrow> string) \<Rightarrow> dec \<Rightarrow> int \<Rightarrow> velocity_event list \<Rightarrow> 'r \<Rightarrow> 'r \<times> velocity_log" where
  "velocity_history Z sha256 dollar_cap count_cap evs r = fold (velocity_step Z sha256 dollar_cap count_cap) evs (r, [])"

definition passed_within :: "velocity_log \<Rightarrow> string \<Rightarrow> time \<Rightarrow> dec list" where
  "passed_within acc h lo = map snd (filter (\<lambda>(t, a). lo < t \<and> t \<le> lo + 86400) (entries_of h acc))"

interpretation vol: sliding_window fst "\<lambda>e. max 0 (snd e) :: rat" 86400
  by unfold_locales simp

interpretation cnt: sliding_window fst "\<lambda>e :: time \<times> dec. 1 :: rat" 86400
  by unfold_locales simp

definition under_caps :: "dec \<Rightarrow> int \<Rightarrow> velocity_log \<Rightarrow> bool" where
  "under_caps D C acc \<longleftrightarrow>
     (\<forall>h. (\<forall>e \<in> set (entries_of h acc). 0 \<le> snd e) \<and> (0 < D \<longrightarrow> vol.admitted D (entries_of h acc)) \<and>
        (0 < C \<longrightarrow> cnt.admitted (of_int C) (entries_of h acc)))"

lemma under_caps_nonneg: "under_caps D C acc \<Longrightarrow> e \<in> set (entries_of h acc) \<Longrightarrow> 0 \<le> snd e"
  unfolding under_caps_def by blast

lemma lua_verdict_NoneD:
  "lua_verdict es a b D C = None \<Longrightarrow> 0 < D \<Longrightarrow> lua_volume es + a \<le> D"
  "lua_verdict es a b D C = None \<Longrightarrow> 0 < C \<Longrightarrow> int (length es) + 1 \<le> C"
  by (auto simp: lua_verdict_def Let_def split: if_splits)

lemma entries_live:
  assumes Z: "zset_laws Z" and agrees: "server_agrees Z used t0 (r, acc)" and le: "t0 \<le> ve_time ev"
    and h: "h = ev_hash sha256 ev"
  defines "es \<equiv> z_range Z (pruned Z sha256 ev r) (ve_time ev) (window_key h)"
    and "past \<equiv> filter (\<lambda>e. ve_time ev - 86400 < fst e) (entries_of h acc)"
  shows "lua_volume es = sum_list (map snd past)" "length es = length past"
proof -
  have "mset (map (\<lambda>(s, a, b, u). (s, a)) es) = live Z r (ve_time ev) h"
    by (simp add: es_def h live_def pruned_def zset_remrange [OF Z order_refl] mset_filter)
  also have "\<dots> = mset past"
    by (simp add: agrees_live [OF agrees le] past_def split_def)
  finally have *: "mset (map (\<lambda>(s, a, b, u). (s, a)) es) = mset past" .
  from arg_cong [OF *, of size] show "length es = length past" by simp
  have "lua_volume es = sum_list (map snd (map (\<lambda>(s, a, b, u). (s, a)) es))"
    by (simp add: lua_volume_def comp_def split_def)
  also have "\<dots> = sum_mset (image_mset snd (mset (map (\<lambda>(s, a, b, u). (s, a)) es)))"
    by (simp only: mset_map [symmetric] sum_mset_sum_list)
  also have "\<dots> = sum_list (map snd past)"
    unfolding * by (simp only: mset_map [symmetric] sum_mset_sum_list)
  finally show "lua_volume es = sum_list (map snd past)" .
qed

lemma under_caps_step:
  assumes Z: "zset_laws Z" and agrees: "server_agrees Z used t0 (r, acc)" and le: "t0 \<le> ve_time ev"
    and caps: "under_caps D C acc" and a: "0 \<le> ve_amount ev"
    and ok: "lua_verdict (z_range Z (pruned Z sha256 ev r) (ve_time ev) (window_key (ev_hash sha256 ev)))
          (ve_amount ev) (ev_bene sha256 ev) D C = None"
  shows "under_caps D C (acc @ [(ve_time ev, ev_hash sha256 ev, ve_amount ev)])"
proof -
  define h where "h = ev_hash sha256 ev"
  define past where "past = filter (\<lambda>e. ve_time ev - 86400 < fst e) (entries_of h acc)"
  have nn: "\<forall>e \<in> set past. 0 \<le> snd e" using under_caps_nonneg [OF caps] by (simp only: past_def set_filter) blast
  have "vol.load (\<lambda>t. ve_time ev - 86400 < t) (entries_of h acc) = sum_list (map snd past)"
    unfolding vol.load_def past_def [symmetric] using nn by (intro arg_cong [where f = sum_list] map_cong) auto
  moreover have "cnt.load (\<lambda>t. ve_time ev - 86400 < t) (entries_of h acc) = of_nat (length past)"
    unfolding cnt.load_def past_def [symmetric] by (simp add: sum_list_triv)
  moreover note entries_live [OF Z agrees le h_def, folded past_def]
    lua_verdict_NoneD [OF ok [folded h_def]]
  moreover have "of_nat n + 1 \<le> (of_int C :: rat)" if "int n + 1 \<le> C" for n
    using that by (metis of_int_1 of_int_add of_int_le_iff of_int_of_nat_eq)
  ultimately have new: "0 < D \<Longrightarrow> vol.load (\<lambda>t. ve_time ev - 86400 < t) (entries_of h acc) + ve_amount ev \<le> D"
    "0 < C \<Longrightarrow> cnt.load (\<lambda>t. ve_time ev - 86400 < t) (entries_of h acc) + 1 \<le> of_int C"
    by simp_all
  show ?thesis
    using caps a new unfolding under_caps_def h_def [symmetric]
    by (simp add: entries_snoc vol.admitted_snoc cnt.admitted_snoc)
qed

definition history_inv ::
    "'r zset_api \<Rightarrow> dec \<Rightarrow> int \<Rightarrow> string set \<Rightarrow> time \<Rightarrow> 'r \<times> velocity_log \<Rightarrow> bool" where
  "history_inv Z D C used now st \<longleftrightarrow> server_agrees Z used now st \<and> under_caps D C (snd st)"

lemma history_inv_step:
  assumes Z: "zset_laws Z" and inv: "history_inv Z D C used t0 st" and le: "t0 \<le> ve_time ev"
    and a: "0 \<le> ve_amount ev" and u: "ve_uuid ev \<notin> used"
  shows "history_inv Z D C (insert (ve_uuid ev) used) (ve_time ev) (velocity_step Z sha256 D C ev st)"
proof (cases st)
  case (Pair r acc)
  from inv have agrees: "server_agrees Z used t0 (r, acc)" and caps: "under_caps D C acc"
    by (simp_all add: history_inv_def Pair)
  note pr = server_agrees_pruned [OF Z agrees le, of sha256]
  have "server_agrees Z (insert (ve_uuid ev) used) (ve_time ev) (pruned Z sha256 ev r, acc)"
    using agrees_live [OF pr] agrees_used [OF pr] agrees_log [OF pr] by (intro server_agreesI) auto
  then show ?thesis
    using server_agrees_added [OF Z pr u] under_caps_step [OF Z agrees le caps a] caps
    by (simp add: Pair history_inv_def velocity_step_cases)
qed

lemma history_inv_run:
  assumes Z: "zset_laws Z" and inv: "history_inv Z D C used t0 st"
    and evs: "sorted (map ve_time evs)" "\<forall>ev \<in> set evs. t0 \<le> ve_time ev" "\<forall>ev \<in> set evs. 0 \<le> ve_amount ev"
      "distinct (map ve_uuid evs)" "\<forall>ev \<in> set evs. ve_uuid ev \<notin> used"
  shows "\<exists>used now. history_inv Z D C used now (fold (velocity_step Z sha256 D C) evs st)"
  using inv evs
proof (induction evs arbitrary: used t0 st)
  case (Cons ev evs)
  from Cons.prems have "history_inv Z D C (insert (ve_uuid ev) used) (ve_time ev) (velocity_step Z sha256 D C ev st)"
    by (intro history_inv_step [OF Z Cons.prems(1)]) auto
  moreover have "\<forall>x \<in> set evs. ve_uuid x \<notin> insert (ve_uuid ev) used"
    using Cons.prems(5,6) by (auto simp: rev_image_eqI)
  ultimately show ?case
    using Cons.IH [of "insert (ve_uuid ev) used" "ve_time ev"] Cons.prems(2-) by simp
qed auto

text \<open>
  C5: Any number of processes share one Redis server, empty at the start, and their checks arrive in clock
  order with fresh uuids.  Then in every window of a day, wherever it starts, what passed for one entity
  stays within its dollar cap, and the number of transfers within its count cap, when these are positive.
\<close>

theorem velocity_caps_hold_cluster_wide:
  assumes "zset_laws Z" "\<And>t k. z_range Z r0 t k = []"
    and "sorted (map ve_time evs)" "distinct (map ve_uuid evs)" "\<forall>ev \<in> set evs. 0 \<le> ve_amount ev"
  shows "(0 < dollar_cap \<longrightarrow>
      sum_list (passed_within (snd (velocity_history Z sha256 dollar_cap count_cap evs r0)) h lo) \<le> dollar_cap) \<and>
    (0 < count_cap \<longrightarrow>
      int (length (passed_within (snd (velocity_history Z sha256 dollar_cap count_cap evs r0)) h lo)) \<le> count_cap)"
proof -
  define t0 where "t0 = Min (insert 0 (set (map ve_time evs)))"
  define acc where "acc = snd (velocity_history Z sha256 dollar_cap count_cap evs r0)"
  have "history_inv Z dollar_cap count_cap {} t0 (r0, [])"
    by (simp add: history_inv_def server_agrees_def live_def assms(2) under_caps_def entries_of_def)
  with assms obtain used now where "history_inv Z dollar_cap count_cap used now (velocity_history Z sha256 dollar_cap count_cap evs r0)"
    unfolding velocity_history_def using history_inv_run [of Z dollar_cap count_cap "{}" t0 "(r0, [])" evs sha256]
    by (auto simp: t0_def)
  then have agrees: "sorted (map fst acc)" and caps: "under_caps dollar_cap count_cap acc"
    by (auto simp: history_inv_def acc_def server_agrees_def)
  have sorted: "sorted (map fst (entries_of h acc))"
    using sorted_filter [OF agrees, of "\<lambda>(t, h', a). h' = h"] by (simp add: entries_of_def comp_def split_def)
  have "vol.load (\<lambda>t. lo < t \<and> t \<le> lo + 86400) (entries_of h acc) = sum_list (passed_within acc h lo)"
    unfolding vol.load_def passed_within_def using under_caps_nonneg [OF caps, of _ h]
    by (intro arg_cong [where f = sum_list] map_cong) (auto simp: split_def)
  moreover have "cnt.load (\<lambda>t. lo < t \<and> t \<le> lo + 86400) (entries_of h acc) = of_int (int (length (passed_within acc h lo)))"
    by (simp add: cnt.load_def passed_within_def split_def sum_list_triv)
  ultimately show ?thesis
    using vol.window_capped [OF _ sorted, of dollar_cap lo] cnt.window_capped [OF _ sorted, of "of_int count_cap" lo] caps
    unfolding acc_def [symmetric] by (auto simp: under_caps_def)
qed

text \<open>A server with a key's time to live and members, and three transfers of one entity: the third waits a day.\<close>

type_synonym zset_server = "string \<Rightarrow> time \<times> (time \<times> zmember) list"

definition server_range :: "zset_server \<Rightarrow> time \<Rightarrow> string \<Rightarrow> (time \<times> zmember) list" where
  "server_range r t k = (if t < fst (r k) then snd (r k) else [])"

definition zset_example :: "zset_server zset_api" where
  "zset_example = \<lparr> z_remrangebyscore = (\<lambda>r t k m. r(k := (fst (r k), filter (\<lambda>(s, _). m < s) (server_range r t k)))),
     z_range = server_range,
     z_add_expire = (\<lambda>r t k x n. r(k := (t + of_int n, server_range r t k @ [(t, x)]))),
     z_number_text = (\<lambda>x. x) \<rparr>"

definition zset_empty :: zset_server where "zset_empty k = (0, [])"

lemma zset_example_laws: "zset_laws zset_example"
  by (auto simp: zset_laws_def zset_example_def server_range_def)

definition example_events :: "velocity_event list" where
  "example_events =
     [\<lparr> ve_time = 100, ve_salt = ''s'', ve_entity = ''E'', ve_beneficiary = ''B'', ve_amount = 60, ve_uuid = ''1'' \<rparr>,
      \<lparr> ve_time = 200, ve_salt = ''s'', ve_entity = ''E'', ve_beneficiary = ''C'', ve_amount = 50, ve_uuid = ''2'' \<rparr>,
      \<lparr> ve_time = 86600, ve_salt = ''s'', ve_entity = ''E'', ve_beneficiary = ''C'', ve_amount = 50, ve_uuid = ''3'' \<rparr>]"

theorem velocity_caps_hold_cluster_wide_witness:
  "snd (velocity_history zset_example (\<lambda>x. x) 100 5 example_events zset_empty) =
     [(100, ''Es'', 60), (86600, ''Es'', 50)] \<and>
   sum_list (passed_within (snd (velocity_history zset_example (\<lambda>x. x) 100 5 example_events zset_empty)) ''Es'' 99) \<le> 100 \<and>
   int (length (passed_within (snd (velocity_history zset_example (\<lambda>x. x) 100 5 example_events zset_empty)) ''Es'' 99)) \<le> 5"
proof -
  have "snd (velocity_history zset_example (\<lambda>x. x) 100 5 example_events zset_empty) =
     [(100, ''Es'', 60), (86600, ''Es'', 50)]" by code_simp
  then show ?thesis
    using velocity_caps_hold_cluster_wide [of zset_example zset_empty example_events 100 "\<lambda>x. x" 5 "''Es''" 99]
    by (simp add: zset_example_laws, simp add: zset_example_def server_range_def zset_empty_def example_events_def)
qed

text \<open>A negative dollar cap blocks everything in memory and nothing on a server.\<close>

lemma negative_cap_backends_differ:
  "D < 0 \<Longrightarrow> fst (memory_verdict [] 0 b D 0) = Some ''DOLLAR_CAP_EXCEEDED'' \<and> lua_verdict [] 0 b D 0 = None"
  by (simp add: memory_verdict_def lua_verdict_def Let_def decimal_sum_def amounts_def dadd_def)

end
