(* ===== verification/Sanctions.thy ===== *)
theory Sanctions
  imports Py_Base
begin

text \<open>
  Sanctions screening: \<open>lip/c6_aml_velocity/sanctions.py\<close> and \<open>bic_name_resolver.py\<close>.  A name is split into
  words and compared with every list entry by the overlap of words and of their Soundex codes.

  A score is modelled by the rational it approximates.  Text is ASCII, where NFKD leaves everything as it
  is; the order in which a Python set lists its members is the order of the model's list.  Parameter:
  SHA-256 of the name, which a hit only carries.

  Shown: every code has the Soundex shape; a name whose words are those of a listed entry, in any order, case
  and spacing, is a hit with full confidence; a name without a letter is never screened as clear.
\<close>

section \<open>Words\<close>

definition is_alpha :: "char \<Rightarrow> bool" where
  "is_alpha c = (let n = of_char c :: nat in 65 \<le> n \<and> n \<le> 90 \<or> 97 \<le> n \<and> n \<le> 122)"

fun split_on :: "(char \<Rightarrow> bool) \<Rightarrow> string \<Rightarrow> string list" where
  "split_on P [] = [[]]"
| "split_on P (c # cs) =
     (if P c then [] # split_on P cs
      else case split_on P cs of w # ws \<Rightarrow> (c # w) # ws | [] \<Rightarrow> [[c]])"

definition py_split :: "string \<Rightarrow> string list" where
  "py_split s = filter (\<lambda>w. w \<noteq> []) (split_on py_space s)"

definition transliterate :: "string \<Rightarrow> string" where
  "transliterate text = filter (\<lambda>c. (of_char c :: nat) < 128) text"

section \<open>Soundex\<close>

definition soundex_digit :: "char \<Rightarrow> char" where
  "soundex_digit c =
     (if c \<in> set ''BFPV'' then CHR ''1''
      else if c \<in> set ''CGJKQSXZ'' then CHR ''2''
      else if c \<in> set ''DT'' then CHR ''3''
      else if c = CHR ''L'' then CHR ''4''
      else if c \<in> set ''MN'' then CHR ''5''
      else if c = CHR ''R'' then CHR ''6''
      else CHR ''0'')"

fun soundex_loop :: "string \<Rightarrow> char \<Rightarrow> string \<Rightarrow> string" where
  "soundex_loop code prev_digit [] = code"
| "soundex_loop code prev_digit (ch # chs) =
     (let digit = soundex_digit ch;
          code = (if digit \<noteq> CHR ''0'' \<and> digit \<noteq> prev_digit then code @ [digit] else code);
          prev_digit = (if digit \<noteq> CHR ''0'' then digit else prev_digit)
      in if length code = 4 then code else soundex_loop code prev_digit chs)"

definition ljust :: "nat \<Rightarrow> char \<Rightarrow> string \<Rightarrow> string" where
  "ljust n c s = s @ replicate (n - length s) c"

definition soundex :: "string \<Rightarrow> string" where
  "soundex name =
     (case filter is_alpha (py_upper name) of
        [] \<Rightarrow> ''''
      | c # cs \<Rightarrow> ljust 4 (CHR ''0'') (soundex_loop [c] (soundex_digit c) cs))"

definition soundex_tokens :: "string \<Rightarrow> string set" where
  "soundex_tokens text = set (filter (\<lambda>code. code \<noteq> '''') (map soundex (py_split text)))"

lemma soundex_loop_shape:
  "1 \<le> length code \<Longrightarrow> length code < 4 \<Longrightarrow> set (tl code) \<subseteq> set ''123456'' \<Longrightarrow>
   hd (soundex_loop code p cs) = hd code \<and> length (soundex_loop code p cs) \<le> 4 \<and>
   1 \<le> length (soundex_loop code p cs) \<and> set (tl (soundex_loop code p cs)) \<subseteq> set ''123456''"
proof (induction code p cs rule: soundex_loop.induct)
  case (2 code p c cs)
  define code' where "code' = (if soundex_digit c \<noteq> CHR ''0'' \<and> soundex_digit c \<noteq> p then code @ [soundex_digit c] else code)"
  have "soundex_digit c \<noteq> CHR ''0'' \<Longrightarrow> soundex_digit c \<in> set ''123456''"
    unfolding soundex_digit_def by (auto split: if_splits)
  with "2.prems" have *: "hd code' = hd code" "1 \<le> length code'" "length code' \<le> 4" "set (tl code') \<subseteq> set ''123456''"
    by (cases code; auto simp: code'_def)+
  show ?case
  proof (cases "length code' = 4")
    case True
    then have "soundex_loop code p (c # cs) = code'" by (simp add: Let_def code'_def)
    with * show ?thesis by simp
  next
    case False
    then have "soundex_loop code p (c # cs) = soundex_loop code' (if soundex_digit c \<noteq> CHR ''0'' then soundex_digit c else p) cs"
      by (simp add: Let_def code'_def)
    with "2.IH" [OF refl, OF code'_def refl] * False show ?thesis by simp
  qed
qed simp

lemma soundex_shape:
  "soundex w = '''' \<or> (\<exists>c ds. soundex w = c # ds \<and> is_alpha c \<and> length ds = 3 \<and> set ds \<subseteq> set ''0123456'')"
proof (cases "filter is_alpha (py_upper w)")
  case Nil
  then show ?thesis by (simp add: soundex_def)
next
  case (Cons c cs)
  then have c: "is_alpha c" by (metis (no_types) filter_eq_ConsD)
  let ?l = "soundex_loop [c] (soundex_digit c) cs"
  have "hd ?l = c" "length ?l \<le> 4" "1 \<le> length ?l" "set (tl ?l) \<subseteq> set ''123456''"
    using soundex_loop_shape [of "[c]" "soundex_digit c" cs] by auto
  then obtain ds where "?l = c # ds" "length ds \<le> 3" "set ds \<subseteq> set ''123456''"
    by (cases ?l) auto
  with c Cons show ?thesis by (auto simp: soundex_def ljust_def)
qed

section \<open>The screener\<close>

definition validate_entity_name :: "string \<Rightarrow> bool \<times> string" where
  "validate_entity_name entity_name =
     (let stripped = py_strip entity_name
      in if entity_name = '''' then (False, ''empty_name'')
         else if stripped = '''' then (False, ''whitespace_only'')
         else if \<not> list_ex is_alpha stripped then (False, ''non_alphabetic_only'')
         else (True, ''valid''))"

record SanctionsHit =
  sh_entity_name_hash :: string
  sh_list_name :: string
  sh_confidence :: pyfloat
  sh_reference :: string

definition jaccard :: "'a set \<Rightarrow> 'a set \<Rightarrow> pyfloat" where
  "jaccard a b = (if a \<union> b = {} then 0 else of_nat (card (a \<inter> b)) / of_nat (card (a \<union> b)))"

definition match_score :: "string \<Rightarrow> string \<Rightarrow> pyfloat" where
  "match_score name entry =
     max (jaccard (set (py_split name)) (set (py_split entry)))
       (jaccard (soundex_tokens name) (soundex_tokens entry) * (9 / 10))"

definition fuzzy_match :: "string \<Rightarrow> string list \<Rightarrow> (string \<times> pyfloat) list" where
  "fuzzy_match name sanctions_set =
     filter (\<lambda>(entry, score). score > 0)
       (map (\<lambda>entry. (entry, match_score name entry)) (filter (\<lambda>entry. py_split entry \<noteq> []) sanctions_set))"

definition merge_match :: "string \<times> pyfloat \<Rightarrow> (string, pyfloat) dict \<Rightarrow> (string, pyfloat) dict" where
  "merge_match m d =
     (case dget d (fst m) of
        None \<Rightarrow> dset (fst m) (snd m) d
      | Some conf \<Rightarrow> if snd m > conf then dset (fst m) (snd m) d else d)"

type_synonym sanctions_lists = "(string, string list) dict"

definition name_matches :: "string \<Rightarrow> string list \<Rightarrow> (string \<times> pyfloat) list" where
  "name_matches normalized entries =
     (let transliterated = py_strip (py_upper (transliterate normalized));
          matches = fuzzy_match normalized entries
      in if transliterated \<noteq> normalized then fold merge_match (fuzzy_match transliterated entries) matches
         else matches)"

definition screen :: "(string \<Rightarrow> string) \<Rightarrow> sanctions_lists \<Rightarrow> string \<Rightarrow> py_exc + SanctionsHit list" where
  "screen sha256 sl entity_name =
     (if \<not> fst (validate_entity_name entity_name) then Inl ValueError
      else
        let normalized = py_strip (py_upper entity_name);
            name_hash = sha256 normalized
        in Inr (concat (map (\<lambda>(list_name, entries).
             map (\<lambda>(matched, confidence). \<lparr> sh_entity_name_hash = name_hash, sh_list_name = list_name,
                    sh_confidence = confidence, sh_reference = matched \<rparr>)
               (filter (\<lambda>(matched, confidence). confidence \<ge> 8 / 10) (name_matches normalized entries))) sl)))"

definition is_clear :: "(string \<Rightarrow> string) \<Rightarrow> sanctions_lists \<Rightarrow> string \<Rightarrow> py_exc + bool" where
  "is_clear sha256 sl entity_name = res_bind (screen sha256 sl entity_name) (\<lambda>hits. Inr (hits = []))"

definition MOCK_SANCTIONS_ENTRIES :: sanctions_lists where
  "MOCK_SANCTIONS_ENTRIES =
     [(''OFAC'', [''ACME SHELL CORP'', ''DUMMY SANCTIONS ENTITY'', ''TEST BLOCKED PARTY'']),
      (''EU'', [''EU BLOCKED ENTITY'', ''TEST EU SANCTIONS'']),
      (''UN'', [''UN BLOCKED ENTITY'', ''TEST UN SANCTIONS''])]"

text \<open>\<open>_load_lists\<close>: the content of the file, if there is one; only the three known lists are read.\<close>

definition load_lists :: "(string, string list) dict option \<Rightarrow> sanctions_lists" where
  "load_lists file =
     (case file of
        None \<Rightarrow> MOCK_SANCTIONS_ENTRIES
      | Some data \<Rightarrow> map (\<lambda>l. (l, case dget data l of Some es \<Rightarrow> remdups es | None \<Rightarrow> [])) [''OFAC'', ''EU'', ''UN''])"

section \<open>What the screener finds\<close>

lemma jaccard_same [simp]: "finite a \<Longrightarrow> a \<noteq> {} \<Longrightarrow> jaccard a a = 1"
  by (simp add: jaccard_def)

lemma jaccard_le_1: "finite a \<Longrightarrow> finite b \<Longrightarrow> jaccard a b \<le> 1"
  using card_mono [of "a \<union> b" "a \<inter> b"] by (auto simp: jaccard_def divide_le_eq)

lemma match_score_le_1: "match_score name entry \<le> 1"
  using jaccard_le_1 [of "set (py_split name)" "set (py_split entry)"]
    jaccard_le_1 [of "soundex_tokens name" "soundex_tokens entry"]
  by (simp add: match_score_def soundex_tokens_def)

lemma match_score_same_words:
  assumes "set (py_split name) = set (py_split entry)" "py_split entry \<noteq> []"
  shows "match_score name entry = 1"
proof (rule antisym [OF match_score_le_1])
  show "1 \<le> match_score name entry" using assms by (simp add: match_score_def)
qed

lemma fuzzy_match_score_le_1: "m \<in> set (fuzzy_match name entries) \<Longrightarrow> snd m \<le> 1"
  by (auto simp: fuzzy_match_def match_score_le_1)

lemma fuzzy_match_full:
  assumes "e \<in> set entries" "py_split e \<noteq> []" "match_score name e = 1"
  shows "dget (fuzzy_match name entries) e = Some 1"
  using assms(1)
proof (induction entries)
  case (Cons x xs)
  with assms(2,3) show ?case by (cases "x = e") (auto simp: fuzzy_match_def)
qed simp

lemma merge_matches_keep:
  "dget d e = Some 1 \<Longrightarrow> \<forall>m \<in> set ms. snd m \<le> 1 \<Longrightarrow> dget (fold merge_match ms d) e = Some 1"
proof (induction ms arbitrary: d)
  case (Cons m ms)
  then have "dget (merge_match m d) e = Some 1"
    by (cases "e = fst m") (auto simp: merge_match_def update_conv' split: option.split)
  with Cons show ?case by simp
qed simp

lemma name_matches_full:
  assumes "e \<in> set entries" "py_split e \<noteq> []" "match_score normalized e = 1"
  shows "(e, 1) \<in> set (name_matches normalized entries)"
proof -
  note full = fuzzy_match_full [OF assms]
  show ?thesis
    using full merge_matches_keep [OF full, of "fuzzy_match (py_strip (py_upper (transliterate normalized))) entries"]
    by (auto simp: name_matches_def Let_def fuzzy_match_score_le_1 intro: map_of_SomeD)
qed

lemma split_on_nonempty [simp]: "split_on P s \<noteq> []"
  by (cases s) (auto split: list.split)

lemma split_on_snoc: "P c \<Longrightarrow> split_on P (s @ [c]) = split_on P s @ [[]]"
proof (induction s)
  case (Cons a s)
  obtain w ws where "split_on P s = w # ws" by (cases "split_on P s") simp_all
  with Cons show ?case by simp
qed simp

lemma py_split_space [simp]:
  "py_space c \<Longrightarrow> py_split (c # s) = py_split s"
  "py_space c \<Longrightarrow> py_split (s @ [c]) = py_split s"
  by (simp_all add: py_split_def split_on_snoc)

lemma py_split_dropWhile [simp]: "py_split (dropWhile py_space s) = py_split s"
  by (induction s) auto

lemma py_split_drop_rev: "py_split (rev (dropWhile py_space (rev s))) = py_split s"
  by (induction s rule: rev_induct) auto

lemma py_split_strip [simp]: "py_split (py_strip s) = py_split s"
  by (simp add: py_strip_def py_split_drop_rev)

lemma screen_listed:
  assumes "(l, entries) \<in> set sl" "e \<in> set entries" "py_split e \<noteq> []"
    and "set (py_split (py_upper name)) = set (py_split e)" and "screen sha256 sl name = Inr hits"
  shows "\<exists>h \<in> set hits. sh_list_name h = l \<and> sh_reference h = e \<and> sh_confidence h = 1"
proof -
  have "(e, 1) \<in> set (name_matches (py_strip (py_upper name)) entries)"
    using assms by (intro name_matches_full match_score_same_words) simp_all
  then show ?thesis
    using assms(1,5) by (force simp: screen_def Let_def split: if_splits)
qed

lemma screen_letterless: "\<not> list_ex is_alpha name \<Longrightarrow> screen sha256 sl name = Inl ValueError"
proof -
  assume *: "\<not> list_ex is_alpha name"
  have "set (py_strip name) \<subseteq> set name"
    by (auto simp: py_strip_def dest!: set_dropWhileD)
  with * show ?thesis by (auto simp: screen_def validate_entity_name_def Let_def list_ex_iff)
qed

section \<open>The default BIC resolver\<close>

definition curated_bic_names :: "(string, string) dict" where
  "curated_bic_names =
     [(''CHASUS33'', ''JPMORGAN CHASE BANK''), (''BOFAUS3N'', ''BANK OF AMERICA''), (''CITIUS33'', ''CITIBANK''),
      (''WFBIUS6S'', ''WELLS FARGO BANK''), (''BKTRUS33'', ''BANK OF NEW YORK MELLON''),
      (''ROYCCAT2'', ''ROYAL BANK OF CANADA''), (''TDOMCATT'', ''TORONTO-DOMINION BANK''),
      (''BOFMCAM2'', ''BANK OF MONTREAL''), (''NOSCCATT'', ''BANK OF NOVA SCOTIA''),
      (''CIBCCATT'', ''CANADIAN IMPERIAL BANK OF COMMERCE''), (''DEUTDEFF'', ''DEUTSCHE BANK''),
      (''COBADEFF'', ''COMMERZBANK''), (''BNPAFRPP'', ''BNP PARIBAS''), (''SOGEFRPP'', ''SOCIETE GENERALE''),
      (''CRLYFRPP'', ''CREDIT AGRICOLE''), (''BARCGB22'', ''BARCLAYS BANK''), (''HSBCGB2L'', ''HSBC BANK''),
      (''LOYDGB2L'', ''LLOYDS BANK''), (''NWBKGB2L'', ''NATWEST BANK''), (''UBSWCHZH'', ''UBS''),
      (''CRESCHZZ'', ''CREDIT SUISSE''), (''INGBNL2A'', ''ING BANK''), (''ABNANL2A'', ''ABN AMRO BANK''),
      (''RABONL2U'', ''RABOBANK''), (''UNCRITMM'', ''UNICREDIT''), (''BCITITMM'', ''INTESA SANPAOLO''),
      (''BBVAESMM'', ''BBVA''), (''BSCHESMM'', ''BANCO SANTANDER''), (''BOTKJPJT'', ''MUFG BANK''),
      (''SMBCJPJT'', ''SUMITOMO MITSUI BANKING CORPORATION''), (''MHCBJPJT'', ''MIZUHO BANK''),
      (''HSBCHKHH'', ''HSBC HONG KONG''), (''SCBLHKHH'', ''STANDARD CHARTERED BANK HONG KONG''),
      (''DBSSSGSG'', ''DBS BANK''), (''OCBCSGSG'', ''OCBC BANK''), (''UOVBSGSG'', ''UNITED OVERSEAS BANK''),
      (''CBAUAU2S'', ''COMMONWEALTH BANK OF AUSTRALIA''),
      (''ANZBAU3M'', ''AUSTRALIA AND NEW ZEALAND BANKING GROUP'')]"

definition build_bic_name_resolver :: "(string, string) dict \<Rightarrow> string \<Rightarrow> string option" where
  "build_bic_name_resolver extra_map =
     (let merged = foldl (\<lambda>d (k, v). dset (take 8 (py_upper k)) v d) curated_bic_names extra_map
      in (\<lambda>bic. if bic = '''' then None else dget merged (take 8 (py_upper bic))))"

lemma resolver_ignores_tail:
  "length bic = 8 \<Longrightarrow> build_bic_name_resolver extra (bic @ account) = build_bic_name_resolver extra bic"
  by (auto simp: build_bic_name_resolver_def Let_def py_upper_def)

end
