(* ===== verification/Aml_Checker.thy ===== *)
theory Aml_Checker
  imports Velocity Sanctions
begin

text \<open>
  The combined AML gate: \<open>lip/c6_aml_velocity/aml_checker.py\<close> and \<open>tenant_velocity.py\<close>.  Both parties are
  screened for sanctions, then the velocity limits of the bank, or of the processor's tenant, are checked and
  the transfer recorded, then an anomaly detector may flag it.

  Objects built with the same Redis client share one server, which the model keeps in the velocity checker.
  Parameters: SHA-256, the sorted sets and hashes of the server, the anomaly detector.

  Shown: the gate passes exactly what both screenings and the velocity limits let through and a blocked party
  leaves no trace; a listed party never passes; with the default resolver a BIC it does not know raises.
\<close>

section \<open>Structuring across processors\<close>

record 'r hash_api =
  h_incrbyfloat_expire :: "'r \<Rightarrow> time \<Rightarrow> string \<Rightarrow> string \<Rightarrow> pyfloat \<Rightarrow> int \<Rightarrow> 'r"
  h_getall :: "'r \<Rightarrow> time \<Rightarrow> string \<Rightarrow> (string, dec) dict"

definition STRUCTURING_KEY_PREFIX :: string where "STRUCTURING_KEY_PREFIX = ''lip:c6:structuring:''"
definition STRUCTURING_TTL_SECONDS :: int where "STRUCTURING_TTL_SECONDS = 7 * 24 * 3600"

record StructuringResult =
  sr_flagged :: bool
  sr_tenant_count :: int
  sr_combined_volume :: dec
  sr_tenants :: "string set"

record StructuringDetector =
  sd_redis :: bool
  sd_registry :: "string \<Rightarrow> (string, dec) dict"

definition structuring_init :: "bool \<Rightarrow> bool \<Rightarrow> py_exc + StructuringDetector" where
  "structuring_init single_replica redis_client =
     (if redis_client \<and> single_replica then Inl ValueError
      else if \<not> redis_client \<and> \<not> single_replica then Inl ValueError
      else Inr \<lparr> sd_redis = redis_client, sd_registry = (\<lambda>_. []) \<rparr>)"

definition structuring_key :: "string \<Rightarrow> string" where
  "structuring_key entity_hash = STRUCTURING_KEY_PREFIX @ entity_hash"

definition structuring_record ::
    "'r hash_api \<Rightarrow> time \<Rightarrow> StructuringDetector \<Rightarrow> 'r option \<Rightarrow> string \<Rightarrow> string \<Rightarrow> dec \<Rightarrow> 'r option \<times> StructuringDetector" where
  "structuring_record H now d server entity_hash tenant_id amount =
     (if sd_redis d then
        (map_option (\<lambda>r. h_incrbyfloat_expire H r now (structuring_key entity_hash) tenant_id amount
           STRUCTURING_TTL_SECONDS) server, d)
      else (server, d\<lparr>sd_registry := (sd_registry d)(entity_hash := add_to tenant_id amount (sd_registry d entity_hash))\<rparr>))"

definition structuring_check ::
    "'r hash_api \<Rightarrow> time \<Rightarrow> StructuringDetector \<Rightarrow> 'r option \<Rightarrow> string \<Rightarrow> dec \<Rightarrow> StructuringResult" where
  "structuring_check H now d server entity_hash dollar_cap =
     (let tenant_volumes =
            (if sd_redis d then (case server of Some r \<Rightarrow> h_getall H r now (structuring_key entity_hash) | None \<Rightarrow> [])
             else sd_registry d entity_hash);
          tenant_count = int (length tenant_volumes);
          combined = decimal_sum (dvalues tenant_volumes)
      in \<lparr> sr_flagged = (2 \<le> tenant_count \<and> 0 < dollar_cap \<and> dollar_cap < combined),
           sr_tenant_count = tenant_count, sr_combined_volume = combined, sr_tenants = set (dkeys tenant_volumes) \<rparr>)"

section \<open>Velocity per tenant\<close>

record TenantVelocityChecker =
  tv_tenant_id :: string
  tv_bpi_salt :: string
  tv_salt :: string  \<comment> \<open>of the tenant's own checker\<close>
  tv_redis :: bool
  tv_window :: RollingWindow

definition tenant_init :: "string \<Rightarrow> string \<Rightarrow> bool \<Rightarrow> TenantVelocityChecker" where
  "tenant_init salt tenant_id redis_client =
     \<lparr> tv_tenant_id = tenant_id, tv_bpi_salt = salt, tv_salt = salt @ tenant_id, tv_redis = redis_client,
       tv_window = window_init 86400 \<rparr>"

definition tenant_entity_hash :: "(string \<Rightarrow> string) \<Rightarrow> TenantVelocityChecker \<Rightarrow> string \<Rightarrow> string" where
  "tenant_entity_hash sha256 tv entity_id = hash_entity sha256 (tv_salt tv) entity_id"

definition bpi_entity_hash :: "(string \<Rightarrow> string) \<Rightarrow> TenantVelocityChecker \<Rightarrow> string \<Rightarrow> string" where
  "bpi_entity_hash sha256 tv entity_id = sha256 (entity_id @ tv_bpi_salt tv)"

text \<open>The shared window of all tenants is on the server or in memory.\<close>

definition tenant_check_and_record ::
    "'r zset_api \<Rightarrow> (string \<Rightarrow> string) \<Rightarrow> time \<Rightarrow> string \<times> string \<Rightarrow> TenantVelocityChecker \<Rightarrow> bool \<Rightarrow> RollingWindow \<Rightarrow>
     'r option \<Rightarrow> string \<Rightarrow> dec \<Rightarrow> string \<Rightarrow> dec option \<Rightarrow> int option \<Rightarrow>
     VelocityResult \<times> TenantVelocityChecker \<times> RollingWindow \<times> 'r option" where
  "tenant_check_and_record Z sha256 now uuids tv bpi_redis bpi server entity_id amount beneficiary_id
      dollar_cap_override count_cap_override =
     (let checker = \<lparr> vc_salt = tv_salt tv, vc_redis = (if tv_redis tv then server else None), vc_window = tv_window tv \<rparr>;
          (result, checker) = check_and_record Z sha256 now (fst uuids) checker entity_id amount beneficiary_id
            dollar_cap_override count_cap_override;
          server = (if tv_redis tv then vc_redis checker else server);
          tv = tv\<lparr>tv_window := vc_window checker\<rparr>
      in if vr_passed result then
           let (redis, bpi) = window_add Z (if bpi_redis then server else None) bpi now (snd uuids)
                 (bpi_entity_hash sha256 tv entity_id) amount (bpi_entity_hash sha256 tv beneficiary_id)
           in (result, tv, bpi, if bpi_redis then redis else server)
         else (result, tv, bpi, server))"

section \<open>The gate\<close>

record AMLResult =
  ar_passed :: bool
  ar_reason :: "string option"
  ar_anomaly_flagged :: bool
  ar_triggered_rules :: "string list"
  ar_sanctions_hits :: "string list"
  ar_velocity_result :: "VelocityResult option"
  ar_structuring_flagged :: bool

record 'r AMLChecker =
  am_velocity :: "'r VelocityChecker"
  am_sanctions :: sanctions_lists
  am_anomaly :: "((string, pyfloat) dict \<Rightarrow> py_exc + bool) option"
  am_resolve_name :: "(string \<Rightarrow> string option) option"
  am_tenant_checkers :: "(string, TenantVelocityChecker) dict"
  am_bpi_rolling_window :: RollingWindow
  am_redis :: bool  \<comment> \<open>a client was passed: shared window and structuring detector use the server\<close>
  am_structuring_detector :: StructuringDetector
  am_base_salt :: string

text \<open>
  Construction.  The resolver may be left out, be \<open>None\<close>, or a function; the screener is given or loads
  the file that \<open>LIP_SANCTIONS_PATH\<close> names, if there is one.
\<close>

definition aml_init ::
    "'r VelocityChecker \<Rightarrow> sanctions_lists option \<Rightarrow> (string, string list) dict option \<Rightarrow>
     ((string, pyfloat) dict \<Rightarrow> py_exc + bool) option \<Rightarrow> (string \<Rightarrow> string option) option option \<Rightarrow> 'r option \<Rightarrow>
     py_exc + 'r AMLChecker" where
  "aml_init velocity_checker sanctions_screener sanctions_file anomaly_detector entity_name_resolver redis_client =
     (case entity_name_resolver of
        None \<Rightarrow> Inl OtherException
      | Some resolver \<Rightarrow>
          let velocity = (case redis_client of Some r \<Rightarrow> set_redis_client velocity_checker r | None \<Rightarrow> velocity_checker)
          in res_bind (structuring_init (redis_client = None) (redis_client \<noteq> None)) (\<lambda>structuring.
             Inr \<lparr> am_velocity = velocity,
                   am_sanctions = (case sanctions_screener of Some s \<Rightarrow> s | None \<Rightarrow> load_lists sanctions_file),
                   am_anomaly = anomaly_detector, am_resolve_name = resolver, am_tenant_checkers = [],
                   am_bpi_rolling_window = window_init 86400, am_redis = (redis_client \<noteq> None),
                   am_structuring_detector = structuring, am_base_salt = vc_salt velocity \<rparr>))"

definition get_or_create_tenant_checker ::
    "'r AMLChecker \<Rightarrow> string \<Rightarrow> TenantVelocityChecker \<times> 'r AMLChecker" where
  "get_or_create_tenant_checker c tenant_id =
     (case dget (am_tenant_checkers c) tenant_id of
        Some tv \<Rightarrow> (tv, c)
      | None \<Rightarrow>
          let tv = tenant_init (am_base_salt c) tenant_id (vc_redis (am_velocity c) \<noteq> None)
          in (tv, c\<lparr>am_tenant_checkers := dset tenant_id tv (am_tenant_checkers c)\<rparr>))"

text \<open>The name to screen; the resolver may have none for the entity.\<close>

definition party_name :: "'r AMLChecker \<Rightarrow> string option \<Rightarrow> string \<Rightarrow> string option" where
  "party_name c given entity_id =
     (case given of
        Some n \<Rightarrow> if n \<noteq> '''' then Some n
                   else (case am_resolve_name c of Some f \<Rightarrow> f entity_id | None \<Rightarrow> Some entity_id)
      | None \<Rightarrow> (case am_resolve_name c of Some f \<Rightarrow> f entity_id | None \<Rightarrow> Some entity_id))"

definition aml_blocked :: "string option \<Rightarrow> string list \<Rightarrow> string list \<Rightarrow> VelocityResult option \<Rightarrow> AMLResult" where
  "aml_blocked reason rules hits vel =
     \<lparr> ar_passed = False, ar_reason = reason, ar_anomaly_flagged = False, ar_triggered_rules = rules,
       ar_sanctions_hits = hits, ar_velocity_result = vel, ar_structuring_flagged = False \<rparr>"

text \<open>
  One turn of the screening loop over the rules and hits so far: a result to return (left), or the longer
  lists.  Without a name \<open>screen\<close> fails, and so does the slice of the name in the handler of that failure.
\<close>

definition screen_party ::
    "(string \<Rightarrow> string) \<Rightarrow> sanctions_lists \<Rightarrow> string option \<Rightarrow> string list \<times> string list \<Rightarrow>
     py_exc + (AMLResult + string list \<times> string list)" where
  "screen_party sha256 sl name rh =
     (let (rules, hits) = rh in
      case name of
        None \<Rightarrow> Inl TypeError
      | Some n \<Rightarrow>
          (case screen sha256 sl n of
             Inr found \<Rightarrow>
               Inr (Inr (rules @ map (\<lambda>hit. ''SANCTIONS_'' @ sh_list_name hit @ ''_HIT'') found,
                         hits @ map (\<lambda>hit. sh_list_name hit @ '':'' @ sh_reference hit) found))
           | Inl ValueError \<Rightarrow>
               Inr (Inl (aml_blocked (Some ''SANCTIONS_INVALID_NAME'') (rules @ [''SANCTIONS_INVALID_NAME_BLOCK'']) [] None))
           | Inl _ \<Rightarrow> Inr (Inl (aml_blocked (Some ''SANCTIONS_SCREENING_ERROR'') rules [] None))))"

definition sanctions_step ::
    "(string \<Rightarrow> string) \<Rightarrow> sanctions_lists \<Rightarrow> string option \<Rightarrow> string option \<Rightarrow>
     py_exc + (AMLResult + string list \<times> string list)" where
  "sanctions_step sha256 sl sender_name bene_name =
     res_bind (screen_party sha256 sl sender_name ([], [])) (\<lambda>v. case v of
       Inl blocked \<Rightarrow> Inr (Inl blocked)
     | Inr rh \<Rightarrow>
         res_bind (screen_party sha256 sl bene_name rh) (\<lambda>v. case v of
           Inl blocked \<Rightarrow> Inr (Inl blocked)
         | Inr (rules, hits) \<Rightarrow>
             if hits \<noteq> [] then Inr (Inl (aml_blocked (Some ''SANCTIONS_HIT'') rules hits None))
             else Inr (Inr (rules, hits))))"

definition velocity_gate ::
    "'r zset_api \<Rightarrow> 'r hash_api \<Rightarrow> (string \<Rightarrow> string) \<Rightarrow> time \<Rightarrow> string \<times> string \<Rightarrow> 'r AMLChecker \<Rightarrow>
     string \<Rightarrow> dec \<Rightarrow> string \<Rightarrow> dec option \<Rightarrow> int option \<Rightarrow> string option \<Rightarrow> VelocityResult \<times> bool \<times> 'r AMLChecker" where
  "velocity_gate Z H sha256 now uuids c entity_id amount beneficiary_id dollar_cap count_cap tenant =
     (case tenant of
        Some tenant_id \<Rightarrow>
          let (tv, c) = get_or_create_tenant_checker c tenant_id;
              (vel, tv, bpi, server) = tenant_check_and_record Z sha256 now uuids tv (am_redis c)
                (am_bpi_rolling_window c) (vc_redis (am_velocity c)) entity_id amount beneficiary_id dollar_cap count_cap;
              c = c\<lparr>am_tenant_checkers := dset tenant_id tv (am_tenant_checkers c), am_bpi_rolling_window := bpi,
                    am_velocity := (am_velocity c)\<lparr>vc_redis := server\<rparr>\<rparr>
          in if vr_passed vel then
               let bpi_hash = bpi_entity_hash sha256 tv entity_id;
                   (server, d) = structuring_record H now (am_structuring_detector c) server bpi_hash tenant_id amount;
                   flagged = sr_flagged (structuring_check H now d server bpi_hash (cap_or_0 dollar_cap))
               in (vel, flagged, c\<lparr>am_structuring_detector := d, am_velocity := (am_velocity c)\<lparr>vc_redis := server\<rparr>\<rparr>)
             else (vel, False, c)
      | None \<Rightarrow>
          let (vel, v) = check_and_record Z sha256 now (fst uuids) (am_velocity c) entity_id amount beneficiary_id
                dollar_cap count_cap
          in (vel, False, c\<lparr>am_velocity := v\<rparr>))"

definition anomaly_step :: "'r AMLChecker \<Rightarrow> dec \<Rightarrow> VelocityResult \<Rightarrow> bool" where
  "anomaly_step c amount vel =
     (case am_anomaly c of
        None \<Rightarrow> False
      | Some predict \<Rightarrow>
          or_else (predict [(''amount'', amount), (''hour'', 0), (''day_of_week'', 0),
            (''dollar_volume_24h'', vr_dollar_volume_24h vel), (''count_24h'', of_int (vr_count_24h vel)),
            (''beneficiary_concentration'', case vr_beneficiary_concentration vel of Some x \<Rightarrow> x | None \<Rightarrow> 0)]) False)"

definition aml_check ::
    "'r zset_api \<Rightarrow> 'r hash_api \<Rightarrow> (string \<Rightarrow> string) \<Rightarrow> time \<Rightarrow> string \<times> string \<Rightarrow> 'r AMLChecker \<Rightarrow>
     string \<Rightarrow> dec \<Rightarrow> string \<Rightarrow> string option \<Rightarrow> string option \<Rightarrow> dec option \<Rightarrow> int option \<Rightarrow> string option \<Rightarrow>
     py_exc + AMLResult \<times> 'r AMLChecker" where
  "aml_check Z H sha256 now uuids c entity_id amount beneficiary_id entity_name beneficiary_name
      dollar_cap_override count_cap_override tenant_id =
     res_bind (sanctions_step sha256 (am_sanctions c) (party_name c entity_name entity_id)
         (party_name c beneficiary_name beneficiary_id)) (\<lambda>v. case v of
       Inl blocked \<Rightarrow> Inr (blocked, c)
     | Inr (rules, hits) \<Rightarrow>
         let (vel, structuring_flagged, c) = velocity_gate Z H sha256 now uuids c entity_id amount beneficiary_id
               dollar_cap_override count_cap_override tenant_id;
             rules = rules @ (if structuring_flagged then [''CROSS_PROCESSOR_STRUCTURING''] else [])
         in if \<not> vr_passed vel then
              let rule = (case vr_reason vel of Some r \<Rightarrow> if r = '''' then ''VELOCITY_BLOCKED'' else r
                          | None \<Rightarrow> ''VELOCITY_BLOCKED'')
              in Inr (aml_blocked (vr_reason vel) (rules @ [rule]) [] (Some vel), c)
            else
              let anomaly_flagged = anomaly_step c amount vel
              in Inr (\<lparr> ar_passed = True, ar_reason = None, ar_anomaly_flagged = anomaly_flagged,
                        ar_triggered_rules = rules @ (if anomaly_flagged then [''ANOMALY_SOFT_ALERT''] else []),
                        ar_sanctions_hits = [], ar_velocity_result = Some vel,
                        ar_structuring_flagged = structuring_flagged \<rparr>, c))"

section \<open>What the gate lets through\<close>

lemma screen_party_Inr_iff:
  "screen_party sha256 sl name rh = Inr (Inr rh') \<longleftrightarrow>
    (\<exists>n found. name = Some n \<and> screen sha256 sl n = Inr found \<and>
       rh' = (fst rh @ map (\<lambda>hit. ''SANCTIONS_'' @ sh_list_name hit @ ''_HIT'') found,
              snd rh @ map (\<lambda>hit. sh_list_name hit @ '':'' @ sh_reference hit) found))"
  by (auto simp: screen_party_def Let_def split: option.splits sum.splits py_exc.splits prod.splits)

lemma stop_or_go_iff:
  "(case v of Inl blocked \<Rightarrow> Inr (Inl blocked) | Inr x \<Rightarrow> f x) = Inr (Inr y) \<longleftrightarrow> (\<exists>x. v = Inr x \<and> f x = Inr (Inr y))"
  by (cases v) auto

lemma blocked_iff:
  "(case v of Inl blocked \<Rightarrow> Inr (Inl blocked) | Inr x \<Rightarrow> f x) = Inr (Inl y) \<longleftrightarrow>
     v = Inl y \<or> (\<exists>x. v = Inr x \<and> f x = Inr (Inl y))"
  by (cases v) auto

lemma sanctions_step_Inr_iff:
  "sanctions_step sha256 sl sender bene = Inr (Inr rh) \<longleftrightarrow>
    (\<exists>s b. sender = Some s \<and> bene = Some b \<and> screen sha256 sl s = Inr [] \<and> screen sha256 sl b = Inr [] \<and>
       rh = ([], []))"
  unfolding sanctions_step_def res_bind_Inr_iff stop_or_go_iff
  by (auto simp: screen_party_Inr_iff split: if_splits prod.splits)

lemma screen_party_blocked:
  "screen_party sha256 sl name rh = Inr (Inl r) \<Longrightarrow> \<not> ar_passed r \<and> ar_velocity_result r = None"
  by (auto simp: screen_party_def aml_blocked_def Let_def split: option.splits sum.splits py_exc.splits prod.splits)

lemma sanctions_step_blocked:
  "sanctions_step sha256 sl sender bene = Inr (Inl r) \<Longrightarrow> \<not> ar_passed r \<and> ar_velocity_result r = None"
  unfolding sanctions_step_def res_bind_Inr_iff blocked_iff
  by (auto simp: aml_blocked_def dest: screen_party_blocked split: if_splits prod.splits)

lemma step_cases [case_names raises blocked screened]:
  fixes v :: "py_exc + ('a + 'b)"
  obtains e where "v = Inl e" | b where "v = Inr (Inl b)" | x where "v = Inr (Inr x)"
  by (cases v rule: sum.exhaust; cases "projr v" rule: sum.exhaust; simp)

text \<open>Whatever the resolver says of the parties: a transfer passes only if both have a name.\<close>

lemma aml_passes_only_if_named:
  "(\<exists>r c'. aml_check Z H sha256 now uuids c eid amount bid en bn dc cc tenant = Inr (r, c') \<and> ar_passed r) \<longleftrightarrow>
   (\<exists>s b. party_name c en eid = Some s \<and> party_name c bn bid = Some b \<and>
      screen sha256 (am_sanctions c) s = Inr [] \<and> screen sha256 (am_sanctions c) b = Inr []) \<and>
   vr_passed (fst (velocity_gate Z H sha256 now uuids c eid amount bid dc cc tenant))"
  (is "?l \<longleftrightarrow> ?names \<and> ?v")
proof (cases "sanctions_step sha256 (am_sanctions c) (party_name c en eid) (party_name c bn bid)")
  case (Inl e)
  then have "\<not> ?names" using sanctions_step_Inr_iff by (metis sum.distinct(1))
  with Inl show ?thesis by (simp add: aml_check_def)
next
  case (Inr v)
  show ?thesis
  proof (cases v)
    case (Inl blocked)
    with Inr have s: "sanctions_step sha256 (am_sanctions c) (party_name c en eid) (party_name c bn bid) = Inr (Inl blocked)"
      by simp
    then have "\<not> ?names" using sanctions_step_Inr_iff by (metis sum.distinct(1) sum.inject(2))
    with s sanctions_step_blocked [OF s] show ?thesis by (simp add: aml_check_def)
  next
    case (Inr rh)
    with \<open>sanctions_step _ _ _ _ = Inr v\<close>
    have s: "sanctions_step sha256 (am_sanctions c) (party_name c en eid) (party_name c bn bid) = Inr (Inr rh)"
      by simp
    then have "?names" by (auto simp: sanctions_step_Inr_iff)
    with s show ?thesis
      by (cases "velocity_gate Z H sha256 now uuids c eid amount bid dc cc tenant")
        (auto simp: aml_check_def aml_blocked_def Let_def split: prod.split)
  qed
qed

lemma screen_party_named: "\<exists>v. screen_party sha256 sl (Some n) rh = Inr v"
  by (auto simp: screen_party_def Let_def split: sum.splits py_exc.splits prod.splits)

lemma sanctions_step_named: "\<exists>v. sanctions_step sha256 sl (Some s) (Some b) = Inr v"
proof -
  obtain v where v: "screen_party sha256 sl (Some s) ([], []) = Inr v" using screen_party_named by blast
  show ?thesis
  proof (cases v)
    case (Inl blocked)
    with v show ?thesis by (simp add: sanctions_step_def)
  next
    case (Inr rh)
    obtain w where "screen_party sha256 sl (Some b) rh = Inr w" using screen_party_named by blast
    with v Inr show ?thesis by (cases w) (auto simp: sanctions_step_def)
  qed
qed


text \<open>
  C11: A party whose name consists of the words of a listed entry, in any order, case and spacing, never
  passes: if the gate answers at all, it blocks without a velocity result and leaves windows, tenants and
  server as they were.
\<close>

theorem sanctioned_party_never_passes:
  assumes "(l, entries) \<in> set (am_sanctions c)" "e \<in> set entries" "py_split e \<noteq> []"
    and "n \<in> {party_name c en eid, party_name c bn bid}" "n = Some name" "set (py_split (py_upper name)) = set (py_split e)"
    and "aml_check Z H sha256 now uuids c eid amount bid en bn dc cc tenant = Inr (r, c')"
  shows "\<not> ar_passed r \<and> ar_velocity_result r = None \<and> c' = c"
proof -
  have "screen sha256 (am_sanctions c) name \<noteq> Inr []"
    using screen_listed [OF assms(1-3,6)] by fastforce
  then have "sanctions_step sha256 (am_sanctions c) (party_name c en eid) (party_name c bn bid) \<noteq> Inr (Inr rh)" for rh
    using assms(4,5) by (auto simp: sanctions_step_Inr_iff)
  with assms(7) show ?thesis
    by (cases "sanctions_step sha256 (am_sanctions c) (party_name c en eid) (party_name c bn bid)" rule: step_cases)
      (auto simp: aml_check_def dest: sanctions_step_blocked)
qed

text \<open>With the default resolver, a BIC it does not know has no name, and the gate raises.\<close>

lemma unknown_bic_raises:
  assumes "am_resolve_name c = Some (build_bic_name_resolver [])" "take 8 (py_upper eid) \<notin> fst ` set curated_bic_names"
  shows "aml_check Z H sha256 now uuids c eid amount bid None bn dc cc tenant = Inl TypeError"
proof -
  have "dget curated_bic_names (take 8 (py_upper eid)) = None"
    using assms(2) by (simp add: map_of_eq_None_iff)
  with assms(1) have "party_name c None eid = None"
    by (simp add: party_name_def build_bic_name_resolver_def Let_def)
  then show ?thesis by (simp add: aml_check_def sanctions_step_def screen_party_def)
qed

section \<open>An example\<close>

definition hash_example :: "zset_server hash_api" where
  "hash_example = \<lparr> h_incrbyfloat_expire = (\<lambda>r t k f x n. r), h_getall = (\<lambda>r t k. []) \<rparr>"

definition aml_example :: "zset_server AMLChecker" where
  "aml_example =
     (case aml_init (velocity_init ''salt'' None) (Some [(''UN'', [''ACME CO''])]) None None (Some None) None of
        Inr c \<Rightarrow> c
      | Inl e \<Rightarrow> \<lparr> am_velocity = velocity_init '''' None, am_sanctions = [], am_anomaly = None, am_resolve_name = None,
          am_tenant_checkers = [], am_bpi_rolling_window = window_init 0, am_redis = False,
          am_structuring_detector = \<lparr> sd_redis = False, sd_registry = (\<lambda>_. []) \<rparr>, am_base_salt = '''' \<rparr>)"

lemma aml_example_names:
  "am_sanctions aml_example = [(''UN'', [''ACME CO''])]" "am_resolve_name aml_example = None"
  by (simp_all add: aml_example_def aml_init_def structuring_init_def Let_def)


theorem sanctioned_party_never_passes_witness:
  "\<exists>r. aml_check zset_example hash_example (\<lambda>x. x) 0 (''1'', ''2'') aml_example ''ALICE'' 10 ''B''
        None (Some ''co  Acme'') None None None = Inr (r, aml_example) \<and>
     ar_reason r = Some ''SANCTIONS_HIT'' \<and> \<not> ar_passed r \<and> ar_velocity_result r = None"
proof -
  let ?check = "aml_check zset_example hash_example (\<lambda>x. x) 0 (''1'', ''2'') aml_example ''ALICE'' 10 ''B''
        None (Some ''co  Acme'') None None None"
  have "case ?check of Inr (r, c) \<Rightarrow> ar_reason r = Some ''SANCTIONS_HIT'' | Inl e \<Rightarrow> False"
    by code_simp
  then obtain r c' where run: "?check = Inr (r, c')" "ar_reason r = Some ''SANCTIONS_HIT''"
    by (auto split: sum.splits)
  have "set (py_split (py_upper ''co  Acme'')) = set (py_split ''ACME CO'')"
    "py_split ''ACME CO'' \<noteq> []" by code_simp+
  moreover have "party_name aml_example (Some ''co  Acme'') ''B'' = Some ''co  Acme''"
    by (simp add: party_name_def aml_example_names)
  ultimately show ?thesis
    using sanctioned_party_never_passes [of "''UN''" "[''ACME CO'']"
        aml_example "''ACME CO''" "Some ''co  Acme''" None "''ALICE''" "Some ''co  Acme''" "''B''"
        "''co  Acme''", OF _ _ _ _ _ _ run(1)] run
    by (simp add: aml_example_names)
qed

end
