(* ===== verification/Exception_Assessment.thy ===== *)
theory Exception_Assessment
  imports Rejection_Taxonomy
begin

text \<open>
  Exception OS: \<open>lip/exception_intelligence/assessment.py\<close>, which reads a finished pipeline result and names
  the kind of exception and the recommended response.  The constant explanatory sentence of each rule is
  dropped; an f-string is the concatenation of its parts.

  Shown: a bridge is only ever recommended when there is an offer, so never for a payment that the agent
  halted, declined or parked; what was screened out before the agent (a retry, a hold, an AML or dispute block, a
  block code, a score below the threshold) is recommended for neither a bridge nor a guarantee; a guarantee only
  for a sub-day maturity with the AML gate passed.
\<close>

datatype ExceptionType =
    TECHNICAL_RETRYABLE
  | ACCOUNT_OR_ADDRESS
  | INSUFFICIENT_FUNDS_OR_LIQUIDITY
  | COMPLIANCE_OR_LEGAL_HOLD
  | DISPUTE_OR_COMMERCIAL_CONTEST
  | SANCTIONS_AML_RISK
  | CROSS_RAIL_HANDOFF_FAILURE
  | SETTLEMENT_TIMEOUT_OR_FINALITY
  | STRESS_REGIME
  | UNKNOWN_EXCEPTION

datatype RecommendedAction =
    RETRY | HOLD | DECLINE | HUMAN_REVIEW | OFFER_BRIDGE | GUARANTEE_CANDIDATE | TELEMETRY_ONLY

text \<open>What \<open>assess_exception\<close> is told of a result; its \<open>signals\<close> are these, with the code normalised.\<close>

record exception_inputs =
  xi_outcome :: string
  xi_rail :: "string option"
  xi_rejection_code :: "string option"
  xi_maturity_hours :: "pyfloat option"
  xi_failure_probability :: pyfloat
  xi_above_threshold :: bool
  xi_dispute_hard_block :: bool
  xi_aml_hard_block :: bool
  xi_aml_passed :: "bool option"
  xi_compliance_hold :: bool
  xi_pd_estimate :: "pyfloat option"
  xi_c7_status :: "string option"
  xi_handoff_parent_uetr :: "string option"
  xi_stress_regime :: bool
  xi_loan_offer_present :: bool

record ExceptionAssessment =
  xa_exception_type :: ExceptionType
  xa_recommended_action :: RecommendedAction
  xa_reason_code :: string
  xa_rail :: "string option"
  xa_maturity_hours :: "pyfloat option"
  xa_is_subday :: bool
  xa_confidence :: pyfloat
  xa_signals :: exception_inputs
  xa_rejection_class :: "RejectionClass option"

definition ACCOUNT_OR_ADDRESS_CODES :: "string list" where
  "ACCOUNT_OR_ADDRESS_CODES =
     [''AC01'', ''AC04'', ''AC06'', ''AGNT'', ''BE01'', ''BE05'', ''INVB'', ''INVR'', ''MD01'', ''MD02'', ''RC01'']"

definition INSUFFICIENT_FUNDS_CODES :: "string list" where
  "INSUFFICIENT_FUNDS_CODES = [''AM01'', ''AM02'', ''AM04'', ''AM06'', ''AM09'', ''AM12'', ''UMKA'']"

definition SETTLEMENT_FINALITY_CODES :: "string list" where
  "SETTLEMENT_FINALITY_CODES = [''ED05'', ''RCON'', ''TIMO'', ''CBDC-CF01'', ''CBDC-CB01'']"

definition TECHNICAL_CODES :: "string list" where
  "TECHNICAL_CODES =
     [''AG02'', ''AM03'', ''AM05'', ''AM10'', ''CURR'', ''CVCY'', ''DT01'', ''ED01'', ''ED03'', ''FF01'', ''FF03'',
      ''FF05'', ''FOCR'', ''NARR'', ''NOAS'', ''NOOR'', ''OPAY'', ''PCOR'', ''PTNA'', ''QMIS'', ''SVNR'', ''TECH'', ''UPAY'']"

definition COMPLIANCE_OR_LEGAL_CODES :: "string list" where
  "COMPLIANCE_OR_LEGAL_CODES = [''AG01'', ''CNOR'', ''DNOR'', ''LEGL'', ''RR01'', ''RR02'', ''RR03'', ''RR04'']"

definition DISPUTE_CODES :: "string list" where
  "DISPUTE_CODES = [''DISP'', ''DUPL'', ''FRAD'', ''FRAU'', ''MD06'', ''CUST'', ''INDM'', ''MS02'']"

definition assessed_code :: "string option \<Rightarrow> string option" where
  "assessed_code code = (case code of None \<Rightarrow> None | Some c \<Rightarrow> if c = '''' then None else Some (normalise_code c))"

definition starts_with :: "string \<Rightarrow> string \<Rightarrow> bool" where
  "starts_with p s \<longleftrightarrow> take (length p) s = p"

definition is_known_code :: "string option \<Rightarrow> bool" where
  "is_known_code code =
     (case code of
        None \<Rightarrow> False
      | Some c \<Rightarrow> starts_with ''CBDC-'' c \<or> (case classify_rejection_code c of Inr _ \<Rightarrow> True | Inl _ \<Rightarrow> False))"

definition assessed_class :: "string option \<Rightarrow> RejectionClass option" where
  "assessed_class code =
     (case code of
        None \<Rightarrow> None
      | Some c \<Rightarrow> (case classify_rejection_code c of Inr cls \<Rightarrow> Some cls | Inl _ \<Rightarrow> None))"

definition assessed_is_subday_rail :: "string option \<Rightarrow> pyfloat option \<Rightarrow> bool" where
  "assessed_is_subday_rail rail maturity_hours \<longleftrightarrow>
     (case maturity_hours of Some h \<Rightarrow> h < 24 | None \<Rightarrow> False) \<or>
     (case rail of Some r \<Rightarrow> r \<noteq> '''' \<and> starts_with ''CBDC_'' (py_upper r) | None \<Rightarrow> False)"

definition map_rejection_code :: "string option \<Rightarrow> string option \<Rightarrow> pyfloat option \<Rightarrow> ExceptionType" where
  "map_rejection_code code rail maturity_hours =
     (case code of
        None \<Rightarrow> if assessed_is_subday_rail rail maturity_hours then SETTLEMENT_TIMEOUT_OR_FINALITY else UNKNOWN_EXCEPTION
      | Some c \<Rightarrow>
          if c \<in> set COMPLIANCE_OR_LEGAL_CODES then COMPLIANCE_OR_LEGAL_HOLD
          else if c \<in> set DISPUTE_CODES then DISPUTE_OR_COMMERCIAL_CONTEST
          else if c \<in> set ACCOUNT_OR_ADDRESS_CODES then ACCOUNT_OR_ADDRESS
          else if c \<in> set INSUFFICIENT_FUNDS_CODES then INSUFFICIENT_FUNDS_OR_LIQUIDITY
          else if c \<in> set SETTLEMENT_FINALITY_CODES then SETTLEMENT_TIMEOUT_OR_FINALITY
          else if c \<in> set TECHNICAL_CODES then
            (if assessed_is_subday_rail rail maturity_hours then SETTLEMENT_TIMEOUT_OR_FINALITY else TECHNICAL_RETRYABLE)
          else UNKNOWN_EXCEPTION)"

definition clean_underwriting_signals :: "bool \<Rightarrow> bool option \<Rightarrow> pyfloat option \<Rightarrow> bool" where
  "clean_underwriting_signals dispute_hard_block aml_passed pd_estimate \<longleftrightarrow>
     \<not> dispute_hard_block \<and> aml_passed = Some True \<and> pd_estimate \<noteq> None"

definition code_or :: "string option \<Rightarrow> string \<Rightarrow> string" where
  "code_or code fallback = (case code of Some c \<Rightarrow> if c = '''' then fallback else c | None \<Rightarrow> fallback)"

definition code_in :: "string option \<Rightarrow> string list \<Rightarrow> bool" where
  "code_in code codes = (case code of Some c \<Rightarrow> c \<in> set codes | None \<Rightarrow> False)"

text \<open>The rules in their order: type, action, reason code and confidence.\<close>

definition assessment_rule :: "exception_inputs \<Rightarrow> ExceptionType \<times> RecommendedAction \<times> string \<times> pyfloat" where
  "assessment_rule i =
     (let code = assessed_code (xi_rejection_code i);
          outcome = xi_outcome i;
          mapped_type = map_rejection_code code (xi_rail i) (xi_maturity_hours i);
          known_code = is_known_code code;
          is_subday = (case xi_maturity_hours i of Some h \<Rightarrow> h < 24 | None \<Rightarrow> False);
          existing_bridge_offer = (outcome \<in> {''OFFERED'', ''DOMESTIC_LEG_FAILURE''} \<or> xi_loan_offer_present i)
      in if outcome = ''RETRY_BLOCKED'' then (TECHNICAL_RETRYABLE, HOLD, ''RETRY_BLOCKED'', 92 / 100)
         else if xi_compliance_hold i \<or> outcome = ''COMPLIANCE_HOLD'' \<or> code_in code COMPLIANCE_OR_LEGAL_CODES then
           (COMPLIANCE_OR_LEGAL_HOLD, HOLD, ''COMPLIANCE_HOLD_'' @ code_or code ''OUTCOME'', 95 / 100)
         else if outcome \<in> {''AML_BLOCKED'', ''AML_CHECK_UNAVAILABLE''} \<or> xi_aml_hard_block i then
           (SANCTIONS_AML_RISK, HOLD, ''AML_GATE_'' @ outcome, 92 / 100)
         else if outcome = ''DISPUTE_BLOCKED'' \<or> xi_dispute_hard_block i \<or> code_in code DISPUTE_CODES then
           (DISPUTE_OR_COMMERCIAL_CONTEST, DECLINE, ''DISPUTE_'' @ code_or code ''C4'', 93 / 100)
         else if \<not> xi_above_threshold i \<or> outcome = ''BELOW_THRESHOLD'' then
           (mapped_type, TELEMETRY_ONLY, ''BELOW_C1_THRESHOLD_'' @ code_or code ''NO_CODE'',
            if known_code then 84 / 100 else 62 / 100)
         else if (case xi_handoff_parent_uetr i of Some u \<Rightarrow> u \<noteq> '''' | None \<Rightarrow> False) then
           (CROSS_RAIL_HANDOFF_FAILURE, if existing_bridge_offer then OFFER_BRIDGE else HUMAN_REVIEW,
            ''CROSS_RAIL_PARENT_UETR'', 9 / 10)
         else if xi_stress_regime i then (STRESS_REGIME, HUMAN_REVIEW, ''STRESSED_RAIL_CORRIDOR'', 88 / 100)
         else if outcome = ''SYSTEM_ERROR'' then (UNKNOWN_EXCEPTION, HUMAN_REVIEW, ''SYSTEM_ERROR'', 1 / 2)
         else if code \<noteq> None \<and> \<not> known_code then
           (UNKNOWN_EXCEPTION, HUMAN_REVIEW, ''UNKNOWN_REJECTION_CODE_'' @ the code, 52 / 100)
         else if existing_bridge_offer then
           (mapped_type, OFFER_BRIDGE, ''C7_OFFER_'' @ code_or code ''NO_CODE'', if known_code then 86 / 100 else 6 / 10)
         else if is_subday \<and> clean_underwriting_signals (xi_dispute_hard_block i) (xi_aml_passed i) (xi_pd_estimate i) then
           (if mapped_type \<noteq> UNKNOWN_EXCEPTION then mapped_type else SETTLEMENT_TIMEOUT_OR_FINALITY,
            GUARANTEE_CANDIDATE, ''SUBDAY_ADVISORY_'' @ code_or code ''NO_CODE'', if known_code then 76 / 100 else 58 / 100)
         else if outcome \<in> {''HALT'', ''PENDING_HUMAN_REVIEW''} then
           (mapped_type, HUMAN_REVIEW, outcome @ ''_'' @ code_or code ''NO_CODE'', if known_code then 78 / 100 else 55 / 100)
         else if outcome = ''DECLINED'' then
           (mapped_type, DECLINE, ''C7_DECLINE_'' @ code_or code ''NO_CODE'', if known_code then 8 / 10 else 55 / 100)
         else (mapped_type, if xi_above_threshold i then HUMAN_REVIEW else TELEMETRY_ONLY,
               ''UNKNOWN_OUTCOME_'' @ outcome, 1 / 2))"

definition assess_exception :: "exception_inputs \<Rightarrow> ExceptionAssessment" where
  "assess_exception i =
     (let (ty, action, reason_code, confidence) = assessment_rule i
      in \<lparr> xa_exception_type = ty, xa_recommended_action = action, xa_reason_code = reason_code,
           xa_rail = xi_rail i, xa_maturity_hours = xi_maturity_hours i,
           xa_is_subday = (case xi_maturity_hours i of Some h \<Rightarrow> h < 24 | None \<Rightarrow> False), xa_confidence = confidence,
           xa_signals = i\<lparr>xi_rejection_code := assessed_code (xi_rejection_code i)\<rparr>,
           xa_rejection_class = assessed_class (assessed_code (xi_rejection_code i)) \<rparr>)"

section \<open>When a bridge or a guarantee is recommended\<close>

text \<open>What was stopped before the agent was asked, and what the agent itself stopped.\<close>

definition screened_out :: "exception_inputs \<Rightarrow> bool" where
  "screened_out i \<longleftrightarrow>
     xi_outcome i \<in> {''RETRY_BLOCKED'', ''COMPLIANCE_HOLD'', ''AML_BLOCKED'', ''AML_CHECK_UNAVAILABLE'',
       ''DISPUTE_BLOCKED'', ''BELOW_THRESHOLD''} \<or>
     xi_compliance_hold i \<or> xi_aml_hard_block i \<or> xi_dispute_hard_block i \<or> \<not> xi_above_threshold i \<or>
     (\<exists>c. xi_rejection_code i = Some c \<and> normalise_code c \<in> ALL_BLOCK_CODES)"

definition agent_stopped :: "exception_inputs \<Rightarrow> bool" where
  "agent_stopped i \<longleftrightarrow>
     xi_outcome i \<in> {''HALT'', ''DECLINED'', ''PENDING_HUMAN_REVIEW''} \<and> \<not> xi_loan_offer_present i"

lemma normalise_Nil [simp]: "normalise_code '''' = ''''"
  by (simp add: normalise_code_def)

lemma block_code_assessed:
  "xi_rejection_code i = Some c \<Longrightarrow> normalise_code c \<in> ALL_BLOCK_CODES \<Longrightarrow>
   code_in (assessed_code (xi_rejection_code i)) COMPLIANCE_OR_LEGAL_CODES \<or>
   code_in (assessed_code (xi_rejection_code i)) DISPUTE_CODES"
  by (auto simp: assessed_code_def code_in_def COMPLIANCE_OR_LEGAL_CODES_def DISPUTE_CODES_def
      ALL_BLOCK_CODES_def EPG19_COMPLIANCE_HOLD_CODES_def DISPUTE_FRAUD_BLOCK_CODES_def)

lemma blocked_rule:
  assumes "screened_out i"
  shows "fst (snd (assessment_rule i)) \<in> {HOLD, DECLINE, TELEMETRY_ONLY}"
proof -
  define code where "code = assessed_code (xi_rejection_code i)"
  define o1 o2 o3 o4 o5 where "o1 = (xi_outcome i = ''RETRY_BLOCKED'')"
    and "o2 = (xi_compliance_hold i \<or> xi_outcome i = ''COMPLIANCE_HOLD'' \<or> code_in code COMPLIANCE_OR_LEGAL_CODES)"
    and "o3 = (xi_outcome i \<in> {''AML_BLOCKED'', ''AML_CHECK_UNAVAILABLE''} \<or> xi_aml_hard_block i)"
    and "o4 = (xi_outcome i = ''DISPUTE_BLOCKED'' \<or> xi_dispute_hard_block i \<or> code_in code DISPUTE_CODES)"
    and "o5 = (\<not> xi_above_threshold i \<or> xi_outcome i = ''BELOW_THRESHOLD'')"
  have "o1 \<or> o2 \<or> o3 \<or> o4 \<or> o5"
    using assms block_code_assessed [of i] unfolding screened_out_def o1_def o2_def o3_def o4_def o5_def code_def
    by blast
  then show ?thesis
    unfolding assessment_rule_def Let_def
    by (simp only: code_def [symmetric] o1_def [symmetric] o2_def [symmetric] o3_def [symmetric] o4_def [symmetric]
        o5_def [symmetric]) (cases o1; cases o2; cases o3; cases o4; cases o5; simp)
qed

lemma bridge_rule:
  "fst (snd (assessment_rule i)) = OFFER_BRIDGE \<Longrightarrow>
   xi_outcome i \<in> {''OFFERED'', ''DOMESTIC_LEG_FAILURE''} \<or> xi_loan_offer_present i"
  unfolding assessment_rule_def Let_def by (simp split: if_splits)

lemma no_retry_rule: "fst (snd (assessment_rule i)) \<noteq> RETRY"
  unfolding assessment_rule_def Let_def by (simp split: if_splits)

lemma guarantee_rule:
  "fst (snd (assessment_rule i)) = GUARANTEE_CANDIDATE \<Longrightarrow>
   (\<exists>h. xi_maturity_hours i = Some h \<and> h < 24) \<and> xi_aml_passed i = Some True \<and> xi_pd_estimate i \<noteq> None"
  unfolding assessment_rule_def Let_def clean_underwriting_signals_def
  by (simp split: if_splits option.splits)

text \<open>
  The converse fails: a payment with a class A, B or C code of the dispute list was offered a bridge, and its
  assessment says to decline.
\<close>

lemma offered_dispute_codes:
  "normalise_code ''MD06'' = ''MD06''" "normalise_code ''CUST'' = ''CUST''" "normalise_code ''INDM'' = ''INDM''"
  "normalise_code ''MS02'' = ''MS02''" "classify_rejection_code ''MD06'' = Inr CLASS_A"
  "classify_rejection_code ''CUST'' = Inr CLASS_B" "classify_rejection_code ''INDM'' = Inr CLASS_C"
  "classify_rejection_code ''MS02'' = Inr CLASS_B"
  by code_simp+

lemma offered_dispute_code_declined:
  assumes "xi_outcome i = ''OFFERED''" "xi_rejection_code i = Some c" "c \<in> {''MD06'', ''CUST'', ''INDM'', ''MS02''}"
    and "\<not> xi_compliance_hold i" "\<not> xi_aml_hard_block i"
  shows "fst (snd (assessment_rule i)) = DECLINE \<and> (\<exists>cls. classify_rejection_code c = Inr cls \<and> cls \<noteq> BLOCK)"
proof -
  have "normalise_code c = c \<and> (\<exists>cls. classify_rejection_code c = Inr cls \<and> cls \<noteq> BLOCK)"
    using assms(3) by (elim insertE emptyE; simp add: offered_dispute_codes)
  moreover from this assms(2,3) have "assessed_code (xi_rejection_code i) = Some c"
    by (auto simp: assessed_code_def)
  ultimately show ?thesis
    using assms unfolding assessment_rule_def Let_def
    by (auto simp: code_in_def DISPUTE_CODES_def COMPLIANCE_OR_LEGAL_CODES_def)
qed

text \<open>
  C22: Whatever the result.  An exception that was screened out before the agent (a retry, a compliance
  hold, an AML or dispute block, a score below the threshold, a block code) is held, declined or
  kept as telemetry.  One that the agent halted, declined or parked for review gets no bridge and no
  retry.  A bridge is recommended only when an offer exists; a guarantee, which is advisory, only for a payment
  not screened out, with a maturity below a day, the AML gate passed, no dispute block and a PD estimate.
\<close>

theorem assessment_never_overrides_gates:
  "(screened_out i \<longrightarrow> xa_recommended_action (assess_exception i) \<in> {HOLD, DECLINE, TELEMETRY_ONLY}) \<and>
   (agent_stopped i \<longrightarrow> xa_recommended_action (assess_exception i) \<notin> {OFFER_BRIDGE, RETRY}) \<and>
   (xa_recommended_action (assess_exception i) = OFFER_BRIDGE \<longrightarrow>
      xi_outcome i \<in> {''OFFERED'', ''DOMESTIC_LEG_FAILURE''} \<or> xi_loan_offer_present i) \<and>
   (xa_recommended_action (assess_exception i) = GUARANTEE_CANDIDATE \<longrightarrow>
      \<not> screened_out i \<and> (\<exists>h. xi_maturity_hours i = Some h \<and> h < 24) \<and> xi_aml_passed i = Some True \<and>
      \<not> xi_dispute_hard_block i \<and> xi_pd_estimate i \<noteq> None)"
proof -
  have a: "xa_recommended_action (assess_exception i) = fst (snd (assessment_rule i))"
    by (simp add: assess_exception_def split_def Let_def)
  have "agent_stopped i \<Longrightarrow> fst (snd (assessment_rule i)) \<notin> {OFFER_BRIDGE, RETRY}"
    using bridge_rule [of i] no_retry_rule [of i] by (auto simp: agent_stopped_def)
  moreover have "fst (snd (assessment_rule i)) = GUARANTEE_CANDIDATE \<Longrightarrow> \<not> screened_out i"
    using blocked_rule [of i] by auto
  moreover have "\<not> screened_out i \<Longrightarrow> \<not> xi_dispute_hard_block i" by (simp add: screened_out_def)
  ultimately show ?thesis using a blocked_rule bridge_rule guarantee_rule by presburger
qed

text \<open>An AML block on an instant rail: the assessment declines.\<close>

definition blocked_example :: exception_inputs where
  "blocked_example =
     \<lparr> xi_outcome = ''AML_BLOCKED'', xi_rail = Some ''FEDNOW'', xi_rejection_code = Some ''AC01'',
       xi_maturity_hours = Some 24, xi_failure_probability = 1 / 2, xi_above_threshold = True,
       xi_dispute_hard_block = False, xi_aml_hard_block = True, xi_aml_passed = Some False,
       xi_compliance_hold = False, xi_pd_estimate = None, xi_c7_status = None, xi_handoff_parent_uetr = None,
       xi_stress_regime = False, xi_loan_offer_present = False \<rparr>"

theorem assessment_never_overrides_gates_witness:
  "screened_out blocked_example \<and>
   xa_recommended_action (assess_exception blocked_example) \<in> {HOLD, DECLINE, TELEMETRY_ONLY} \<and>
   agent_stopped (blocked_example\<lparr>xi_outcome := ''HALT''\<rparr>) \<and>
   xa_recommended_action (assess_exception (blocked_example\<lparr>xi_outcome := ''HALT''\<rparr>)) \<noteq> OFFER_BRIDGE"
proof -
  have "screened_out blocked_example" by (simp add: screened_out_def blocked_example_def)
  moreover have "agent_stopped (blocked_example\<lparr>xi_outcome := ''HALT''\<rparr>)"
    by (simp add: agent_stopped_def blocked_example_def)
  ultimately show ?thesis
    using assessment_never_overrides_gates [of blocked_example]
      assessment_never_overrides_gates [of "blocked_example\<lparr>xi_outcome := ''HALT''\<rparr>"] by blast
qed

text \<open>A payment that the kill switch halted, with clean screens and a maturity below a day, is named a guarantee candidate.\<close>

lemma halted_guarantee_candidate:
  "xa_recommended_action (assess_exception
     (blocked_example\<lparr>xi_outcome := ''HALT'', xi_aml_hard_block := False, xi_aml_passed := Some True,
        xi_maturity_hours := Some 4, xi_pd_estimate := Some (1 / 20)\<rparr>)) = GUARANTEE_CANDIDATE"
  by code_simp

end
