(* ===== verification/Portfolio_Risk.thy ===== *)
theory Portfolio_Risk
  imports Repayment_Loop
begin

text \<open>
  The position book of \<open>PortfolioRiskEngine\<close> (\<open>lip/risk/portfolio_risk.py\<close>): positions by loan id, replaced
  when a loan is registered again.  The value-at-risk figures computed from it are not modelled.
\<close>

record RiskPosition =
  rp_loan_id :: string
  rp_corridor :: string
  rp_bic :: string
  rp_principal :: dec
  rp_pd :: pyfloat
  rp_lgd :: pyfloat
  rp_rejection_class :: string
  rp_maturity_days :: int

type_synonym PortfolioRiskEngine = "(string, RiskPosition) dict"

text \<open>\<open>timedelta.days\<close> is the floor.\<close>

definition risk_position :: "ActiveLoan \<Rightarrow> pyfloat \<Rightarrow> pyfloat \<Rightarrow> RiskPosition" where
  "risk_position loan pd lgd =
     \<lparr> rp_loan_id = loan_id loan, rp_corridor = corridor loan,
       rp_bic = (if licensee_id loan \<noteq> '''' then licensee_id loan else corridor loan),
       rp_principal = principal loan, rp_pd = pd, rp_lgd = lgd, rp_rejection_class = rejection_class loan,
       rp_maturity_days = max \<lfloor>(maturity_date loan - funded_at loan) / 86400\<rfloor> 1 \<rparr>"

definition add_position :: "PortfolioRiskEngine \<Rightarrow> ActiveLoan \<Rightarrow> pyfloat \<Rightarrow> pyfloat \<Rightarrow> PortfolioRiskEngine" where
  "add_position ps loan pd lgd = dset (loan_id loan) (risk_position loan pd lgd) ps"

definition remove_position :: "PortfolioRiskEngine \<Rightarrow> string \<Rightarrow> py_exc + PortfolioRiskEngine" where
  "remove_position ps lid = (case dget ps lid of None \<Rightarrow> Inl KeyError | Some _ \<Rightarrow> Inr (dpop lid ps))"

definition risk_positions :: "PortfolioRiskEngine \<Rightarrow> RiskPosition list" where
  "risk_positions ps = dvalues ps"

lemma remove_added [simp]:
  "dict_ok ps \<Longrightarrow> dget ps (loan_id loan) = None \<Longrightarrow> remove_position (add_position ps loan pd lgd) (loan_id loan) = Inr ps"
  by (simp add: remove_position_def add_position_def dict_simps)
    (induction ps; auto simp: delete_id dict_ok_def)

end
