(* ===== verification/Pipeline.thy ===== *)
theory Pipeline
  imports Execution_Agent Aml_Checker Exception_Assessment UETR_Tracker State_Machines Portfolio_Risk
    Business_Calendar
begin

text \<open>
  The processing pipeline, \<open>lip/pipeline.py\<close> and \<open>lip/pipeline_result.py\<close>: retry detection, the failure
  model, dispute and AML gates, pricing, the execution agent, and what follows an accepted offer.

  \<open>pipeline_world\<close> holds what is not the pipeline's: the models (C1, C2 and the conformal interval), the
  dispute classifier, and the Redis clients.  A call reads one clock; \<open>uuids\<close> are the two fresh identifiers
  of the AML windows.  The two threads of the dispute and AML gates share no state.  The pipeline and its
  agent have their own stress detectors.  Latencies, SHAP lists and the drift monitor, whose results no
  decision reads, are left out.
\<close>

section \<open>Events, results and state\<close>

record NormalizedEvent =
  ne_uetr :: string
  ne_individual_payment_id :: string
  ne_sending_bic :: string
  ne_receiving_bic :: string
  ne_amount :: dec
  ne_currency :: string
  ne_timestamp :: time
  ne_rail :: string
  ne_rejection_code :: "string option"
  ne_narrative :: "string option"
  ne_original_payment_amount_usd :: "dec option"
  ne_debtor_account :: "string option"

record PipelineResult =
  pr_outcome :: string
  pr_uetr :: string
  pr_failure_probability :: pyfloat
  pr_above_threshold :: bool
  pr_dispute_class :: "string option"
  pr_dispute_hard_block :: bool
  pr_aml_passed :: "bool option"
  pr_aml_hard_block :: bool
  pr_aml_anomaly_flagged :: bool
  pr_compliance_hold :: bool
  pr_pd_estimate :: "pyfloat option"
  pr_fee_bps :: "int option"
  pr_tier :: "int option"
  pr_loan_offer :: "loan_offer option"
  pr_parent_uetr :: "string option"  \<comment> \<open>the key added to the offer\<close>
  pr_decision_entry_id :: "string option"
  pr_delivery_id :: "string option"
  pr_override_request_id :: "string option"
  pr_payment_state :: "PaymentState option"
  pr_loan_state :: "LoanState option"
  pr_payment_state_history :: "PaymentState list"
  pr_prediction_interval :: "(pyfloat \<times> pyfloat \<times> pyfloat) option"
  pr_exception_assessment :: "ExceptionAssessment option"

record payment_dict =
  pd_amount_usd :: pyfloat
  pd_currency_pair :: string
  pd_sending_bic :: string
  pd_receiving_bic :: string
  pd_timestamp :: time
  pd_failure_rate_7d :: pyfloat
  pd_failure_rate_30d :: pyfloat
  pd_uetr :: string
  pd_rejection_code :: "string option"
  pd_narrative :: "string option"

record c2_result =
  c2_pd_score :: pyfloat
  c2_fee_bps :: int
  c2_tier :: int

record conformal_interval =
  ci_lower :: pyfloat
  ci_upper :: pyfloat
  ci_coverage_level :: pyfloat

record ('r, 's, 'z, 'u, 'b) pipeline_world =
  pw_agent :: "('r, 's) agent_world"
  pw_zset :: "'z zset_api"
  pw_hash :: "'z hash_api"
  pw_sha256 :: "string \<Rightarrow> string"
  pw_tracker_redis :: "'u redis_api"
  pw_c1 :: "payment_dict \<Rightarrow> py_exc + pyfloat"
  pw_c2 :: "payment_dict \<Rightarrow> 'b option \<Rightarrow> py_exc + c2_result"
  pw_c4 :: "string option \<Rightarrow> string option \<Rightarrow> dec \<Rightarrow> string \<Rightarrow> string \<Rightarrow> py_exc + string"
  pw_conformal :: "(pyfloat \<Rightarrow> py_exc + conformal_interval) option"

record compliance_notification =
  cn_uetr :: string
  cn_sending_bic :: string
  cn_rejection_code :: "string option"
  cn_rejection_class :: string
  cn_decision_entry_id :: "string option"

record ('r, 's, 'c, 'z, 'u, 'm) LIPPipeline =
  pl_c6 :: "'z AMLChecker"
  pl_c7 :: "('r, 's, 'c) ExecutionAgent"
  pl_c3 :: "'m SettlementMonitor option"
  pl_stress_detector :: "StressRegimeDetector option"
  pl_notifications :: "compliance_notification list option"
  pl_uetr_tracker :: "'u UETRTracker"
  pl_threshold :: pyfloat
  pl_corridor_rates :: "(string, pyfloat) dict"
  pl_risk_engine :: "PortfolioRiskEngine option"

definition FAILURE_PROBABILITY_THRESHOLD :: pyfloat where "FAILURE_PROBABILITY_THRESHOLD = 11 / 100"

definition DISPUTE_BLOCK_CLASSES :: "string list" where
  "DISPUTE_BLOCK_CLASSES = [''DISPUTE_CONFIRMED'', ''DISPUTE_POSSIBLE'']"

section \<open>Helpers\<close>

definition corridor_of :: "NormalizedEvent \<Rightarrow> string" where
  "corridor_of ev = ne_currency ev @ ''_USD''"

definition event_to_payment_dict :: "(string, pyfloat) dict \<Rightarrow> NormalizedEvent \<Rightarrow> payment_dict" where
  "event_to_payment_dict corridor_rates ev =
     (let rate = (case dget corridor_rates (corridor_of ev) of Some r \<Rightarrow> r | None \<Rightarrow> 35 / 1000)
      in \<lparr> pd_amount_usd = ne_amount ev, pd_currency_pair = corridor_of ev, pd_sending_bic = ne_sending_bic ev,
           pd_receiving_bic = ne_receiving_bic ev, pd_timestamp = ne_timestamp ev, pd_failure_rate_7d = rate,
           pd_failure_rate_30d = rate, pd_uetr = ne_uetr ev, pd_rejection_code = ne_rejection_code ev,
           pd_narrative = ne_narrative ev \<rparr>)"

text \<open>\<open>if not rejection_code\<close>: missing or empty.\<close>

definition derive_maturity_days :: "string option \<Rightarrow> int" where
  "derive_maturity_days rejection_code =
     (case rejection_code of
        None \<Rightarrow> 7
      | Some code \<Rightarrow>
          if code = '''' then 7
          else (case classify_rejection_code code of
                  Inr cls \<Rightarrow> (let days = Rejection_Taxonomy.maturity_days cls in if days = 0 then 0 else days)
                | Inl _ \<Rightarrow> 0))"

definition derive_maturity_hours :: "string \<Rightarrow> string option \<Rightarrow> pyfloat" where
  "derive_maturity_hours rail rejection_code =
     (case dget RAIL_MATURITY_HOURS (py_upper rail) of
        Some h \<Rightarrow> h
      | None \<Rightarrow> of_int (derive_maturity_days rejection_code * 24))"

fun class_value :: "RejectionClass \<Rightarrow> string" where
  "class_value CLASS_A = ''CLASS_A''"
| "class_value CLASS_B = ''CLASS_B''"
| "class_value CLASS_C = ''CLASS_C''"
| "class_value BLOCK = ''BLOCK''"

definition derive_rejection_class :: "string option \<Rightarrow> string" where
  "derive_rejection_class rejection_code =
     (case rejection_code of
        None \<Rightarrow> ''CLASS_B''
      | Some code \<Rightarrow>
          if code = '''' then ''CLASS_B''
          else (case classify_rejection_code code of Inr cls \<Rightarrow> class_value cls | Inl _ \<Rightarrow> ''BLOCK''))"

definition normalise_rejection_class :: "string \<Rightarrow> string" where
  "normalise_rejection_class v =
     (let normalized = py_upper (py_strip v)
      in if normalized \<in> {''A'', ''CLASS_A''} then ''CLASS_A''
         else if normalized \<in> {''B'', ''CLASS_B''} then ''CLASS_B''
         else if normalized \<in> {''C'', ''CLASS_C''} then ''CLASS_C''
         else if normalized = ''BLOCK'' then ''BLOCK''
         else ''CLASS_B'')"

definition is_known_block_code :: "string \<Rightarrow> bool" where
  "is_known_block_code code = (case classify_rejection_code code of Inr cls \<Rightarrow> cls = BLOCK | Inl _ \<Rightarrow> False)"

definition UNCERTAINTY_SCALE_FACTOR :: pyfloat where "UNCERTAINTY_SCALE_FACTOR = 1 / 2"
definition CONFORMAL_UNCERTAINTY_MAX_MULTIPLIER :: pyfloat where "CONFORMAL_UNCERTAINTY_MAX_MULTIPLIER = 2"

definition uncertainty_fee_adjustment :: "pyfloat \<Rightarrow> int \<Rightarrow> int" where
  "uncertainty_fee_adjustment interval_width baseline_fee_bps =
     (let adjusted = of_int baseline_fee_bps * (1 + interval_width * UNCERTAINTY_SCALE_FACTOR);
          ceiling = of_int baseline_fee_bps * CONFORMAL_UNCERTAINTY_MAX_MULTIPLIER;
          adjusted = min adjusted ceiling
      in max \<lceil>adjusted\<rceil> (py_trunc FEE_FLOOR_BPS))"

text \<open>\<open>_record_payment_transition\<close>; an invalid transition raises.\<close>

definition advance :: "PaymentState list \<Rightarrow> PaymentState \<Rightarrow> py_exc + PaymentState list" where
  "advance history new_state =
     (case payment_transition (last history) new_state of
        Inr s \<Rightarrow> Inr (history @ [s])
      | Inl _ \<Rightarrow> Inl OtherException)"

text \<open>A result with the defaults of its class, and one of a payment with machines.\<close>

definition bare_result :: "string \<Rightarrow> string \<Rightarrow> pyfloat \<Rightarrow> bool \<Rightarrow> PipelineResult" where
  "bare_result outcome uetr failure_probability above_threshold =
     \<lparr> pr_outcome = outcome, pr_uetr = uetr, pr_failure_probability = failure_probability,
       pr_above_threshold = above_threshold, pr_dispute_class = None, pr_dispute_hard_block = False,
       pr_aml_passed = None, pr_aml_hard_block = False, pr_aml_anomaly_flagged = False,
       pr_compliance_hold = False, pr_pd_estimate = None, pr_fee_bps = None, pr_tier = None,
       pr_loan_offer = None, pr_parent_uetr = None, pr_decision_entry_id = None, pr_delivery_id = None,
       pr_override_request_id = None, pr_payment_state = None, pr_loan_state = None,
       pr_payment_state_history = [], pr_prediction_interval = None, pr_exception_assessment = None \<rparr>"

definition staged_result :: "string \<Rightarrow> string \<Rightarrow> pyfloat \<Rightarrow> bool \<Rightarrow> PaymentState list \<Rightarrow> PipelineResult" where
  "staged_result outcome uetr failure_probability above_threshold history =
     (bare_result outcome uetr failure_probability above_threshold)
       \<lparr>pr_payment_state := Some (last history), pr_loan_state := Some loan_initial,
        pr_payment_state_history := history\<rparr>"

section \<open>Steps shared by the branches\<close>

definition retry_context :: "NormalizedEvent \<Rightarrow> payment_context option" where
  "retry_context ev =
     Some \<lparr> ctx_sending_bic = Some (ne_sending_bic ev), ctx_receiving_bic = Some (ne_receiving_bic ev),
            ctx_currency = Some (ne_currency ev), ctx_amount = Inr (ne_amount ev) \<rparr>"

definition stress_regime_active ::
    "time \<Rightarrow> NormalizedEvent \<Rightarrow> ('r, 's, 'c, 'z, 'u, 'm) LIPPipeline \<Rightarrow> bool \<times> ('r, 's, 'c, 'z, 'u, 'm) LIPPipeline" where
  "stress_regime_active now ev st =
     (case pl_stress_detector st of
        None \<Rightarrow> (False, st)
      | Some d \<Rightarrow>
          let (r, d) = Stress_Detector.is_stressed d now (corridor_of ev) (Some (ne_rail ev))
          in (or_else r False, st\<lparr>pl_stress_detector := Some d\<rparr>))"

definition exception_inputs_of ::
    "NormalizedEvent \<Rightarrow> string option \<Rightarrow> string option \<Rightarrow> bool \<Rightarrow> PipelineResult \<Rightarrow> exception_inputs" where
  "exception_inputs_of ev c7_status handoff_parent stress res =
     \<lparr> xi_outcome = pr_outcome res, xi_rail = Some (ne_rail ev), xi_rejection_code = ne_rejection_code ev,
       xi_maturity_hours = Some (derive_maturity_hours (ne_rail ev) (ne_rejection_code ev)),
       xi_failure_probability = pr_failure_probability res, xi_above_threshold = pr_above_threshold res,
       xi_dispute_hard_block = pr_dispute_hard_block res, xi_aml_hard_block = pr_aml_hard_block res,
       xi_aml_passed = pr_aml_passed res, xi_compliance_hold = pr_compliance_hold res,
       xi_pd_estimate = pr_pd_estimate res, xi_c7_status = c7_status, xi_handoff_parent_uetr = handoff_parent,
       xi_stress_regime = stress, xi_loan_offer_present = (pr_loan_offer res \<noteq> None) \<rparr>"

definition enrich_result ::
    "time \<Rightarrow> NormalizedEvent \<Rightarrow> string option \<Rightarrow> string option \<Rightarrow> PipelineResult \<Rightarrow> ('r, 's, 'c, 'z, 'u, 'm) LIPPipeline \<Rightarrow>
     PipelineResult \<times> ('r, 's, 'c, 'z, 'u, 'm) LIPPipeline" where
  "enrich_result now ev c7_status handoff_parent res st =
     (let (stress, st) = stress_regime_active now ev st
      in (res\<lparr>pr_exception_assessment :=
              Some (assess_exception (exception_inputs_of ev c7_status handoff_parent stress res))\<rparr>, st))"

definition tracker_record ::
    "('r, 's, 'z, 'u, 'b) pipeline_world \<Rightarrow> time \<Rightarrow> NormalizedEvent \<Rightarrow> string \<Rightarrow> string \<Rightarrow>
     ('r, 's, 'c, 'z, 'u, 'm) LIPPipeline \<Rightarrow> (py_exc + unit) \<times> ('r, 's, 'c, 'z, 'u, 'm) LIPPipeline" where
  "tracker_record P now ev uetr outcome st =
     (let (r, tr) = record_uetr (pw_tracker_redis P) (pl_uetr_tracker st) now uetr outcome (retry_context ev)
      in (r, st\<lparr>pl_uetr_tracker := tr\<rparr>))"

definition record_and_return ::
    "('r, 's, 'z, 'u, 'b) pipeline_world \<Rightarrow> time \<Rightarrow> NormalizedEvent \<Rightarrow> string option \<Rightarrow> string option \<Rightarrow> PipelineResult \<Rightarrow>
     ('r, 's, 'c, 'z, 'u, 'm) LIPPipeline \<Rightarrow> (py_exc + PipelineResult) \<times> ('r, 's, 'c, 'z, 'u, 'm) LIPPipeline" where
  "record_and_return P now ev c7_status handoff_parent res st =
     (let (res, st) = enrich_result now ev c7_status handoff_parent res st;
          (r, st) = tracker_record P now ev (pr_uetr res) (pr_outcome res) st
      in (case r of Inl e \<Rightarrow> Inl e | Inr _ \<Rightarrow> Inr res, st))"

text \<open>\<open>_log_block\<close>: the context has none of the bank, code, rail and currency keys.\<close>

definition block_context :: "NormalizedEvent \<Rightarrow> pyfloat \<Rightarrow> string \<Rightarrow> PaymentContext" where
  "block_context ev failure_probability block_reason =
     \<lparr> pc_uetr = Some (ne_uetr ev), pc_individual_payment_id = Some (ne_individual_payment_id ev),
       pc_tenant_id = None, pc_sending_bic = None, pc_receiving_bic = None,
       pc_failure_probability = Some (PNum failure_probability), pc_pd_score = Some (PNum 0),
       pc_fee_bps = Some (PNum 0), pc_loan_amount = Some (PNum (ne_amount ev)),
       pc_original_payment_amount_usd = None,
       pc_dispute_class = Some (if block_reason = ''dispute_blocked'' then ''DISPUTE_CONFIRMED'' else ''NOT_DISPUTE''),
       pc_aml_passed = Some (PBool (block_reason \<notin> {''aml_blocked'', ''aml_check_unavailable''})),
       pc_anomaly_flagged = None, pc_rejection_code = None, pc_rejection_class = None,
       pc_human_override_decision = None, pc_corridor = None, pc_rail = None, pc_currency = None,
       pc_maturity_days = Some (PNum 0), pc_lgd = None, pc_aml_entity_id = None, pc_aml_beneficiary_id = None \<rparr>"

definition log_block ::
    "('r, 's, 'z, 'u, 'b) pipeline_world \<Rightarrow> agent_call \<Rightarrow> NormalizedEvent \<Rightarrow> pyfloat \<Rightarrow> string \<Rightarrow>
     ('r, 's, 'c, 'z, 'u, 'm) LIPPipeline \<Rightarrow> string option \<times> ('r, 's, 'c, 'z, 'u, 'm) LIPPipeline" where
  "log_block P call ev failure_probability block_reason st =
     (let (out, c7) = process_payment (pw_agent P) call (block_context ev failure_probability block_reason) (pl_c7 st)
      in (case out of Inl _ \<Rightarrow> None | Inr r \<Rightarrow> ar_decision_entry_id r, st\<lparr>pl_c7 := c7\<rparr>))"

text \<open>The two gates; a C4 that fails is a possible dispute, a C6 that fails has no answer.\<close>

definition run_c4 :: "('r, 's, 'z, 'u, 'b) pipeline_world \<Rightarrow> NormalizedEvent \<Rightarrow> string" where
  "run_c4 P ev =
     or_else (pw_c4 P (ne_rejection_code ev) (ne_narrative ev) (ne_amount ev) (ne_currency ev) (ne_sending_bic ev))
       ''DISPUTE_POSSIBLE''"

definition run_c6 ::
    "('r, 's, 'z, 'u, 'b) pipeline_world \<Rightarrow> time \<Rightarrow> string \<times> string \<Rightarrow> NormalizedEvent \<Rightarrow> string \<Rightarrow> string \<Rightarrow> string option \<Rightarrow>
     ('r, 's, 'c, 'z, 'u, 'm) LIPPipeline \<Rightarrow> AMLResult option \<times> ('r, 's, 'c, 'z, 'u, 'm) LIPPipeline" where
  "run_c6 P now uuids ev entity_id beneficiary_id tenant_id st =
     (case aml_check (pw_zset P) (pw_hash P) (pw_sha256 P) now uuids (pl_c6 st) entity_id (ne_amount ev) beneficiary_id
         None None (Some (of_int (ea_aml_dollar_cap_usd (pl_c7 st)))) (Some (ea_aml_count_cap (pl_c7 st))) tenant_id of
        Inl _ \<Rightarrow> (None, st)
      | Inr (r, c6) \<Rightarrow> (Some r, st\<lparr>pl_c6 := c6\<rparr>))"

section \<open>The decision of the agent\<close>

record scored =
  sc_failure_probability :: pyfloat
  sc_dispute_class :: string
  sc_history :: "PaymentState list"
  sc_entity_id :: string
  sc_beneficiary_id :: string
  sc_tenant_id :: "string option"
  sc_handoff_parent :: "string option"
  sc_human_override_decision :: "string option"

definition agent_context :: "NormalizedEvent \<Rightarrow> scored \<Rightarrow> c2_result \<Rightarrow> int \<Rightarrow> PaymentContext" where
  "agent_context ev sc c2 bps =
     \<lparr> pc_uetr = Some (ne_uetr ev), pc_individual_payment_id = Some (ne_individual_payment_id ev),
       pc_tenant_id = Some (case sc_tenant_id sc of Some t \<Rightarrow> t | None \<Rightarrow> ''''),
       pc_sending_bic = Some (ne_sending_bic ev), pc_receiving_bic = Some (ne_receiving_bic ev),
       pc_failure_probability = Some (PNum (sc_failure_probability sc)), pc_pd_score = Some (PNum (c2_pd_score c2)),
       pc_fee_bps = Some (PNum (of_int bps)), pc_loan_amount = Some (PNum (ne_amount ev)),
       pc_original_payment_amount_usd =
         Some (PNum (case ne_original_payment_amount_usd ev of Some a \<Rightarrow> a | None \<Rightarrow> ne_amount ev)),
       pc_dispute_class = Some (sc_dispute_class sc), pc_aml_passed = Some (PBool True),
       pc_anomaly_flagged = Some (PBool False), pc_rejection_code = ne_rejection_code ev,
       pc_rejection_class = Some (derive_rejection_class (ne_rejection_code ev)),
       pc_human_override_decision = sc_human_override_decision sc, pc_corridor = Some (corridor_of ev),
       pc_rail = Some (ne_rail ev), pc_currency = Some (ne_currency ev),
       pc_maturity_days = Some (PNum (of_int (derive_maturity_days (ne_rejection_code ev)))), pc_lgd = None,
       pc_aml_entity_id = Some (sc_entity_id sc), pc_aml_beneficiary_id = Some (sc_beneficiary_id sc) \<rparr>"

definition DECLINE_STATUSES :: "string list" where
  "DECLINE_STATUSES =
     [''DECLINE'', ''BLOCK'', ''CURRENCY_NOT_SUPPORTED'', ''BORROWER_NOT_ENROLLED'', ''BELOW_MIN_LOAN_AMOUNT'',
      ''BELOW_MIN_CASH_FEE'', ''LOAN_AMOUNT_MISMATCH'']"

definition priced_result :: "string \<Rightarrow> NormalizedEvent \<Rightarrow> scored \<Rightarrow> c2_result \<Rightarrow> int \<Rightarrow> PaymentState list \<Rightarrow> PipelineResult" where
  "priced_result outcome ev sc c2 bps history =
     (staged_result outcome (ne_uetr ev) (sc_failure_probability sc) True history)
       \<lparr>pr_dispute_class := Some (sc_dispute_class sc), pr_aml_passed := Some True,
        pr_pd_estimate := Some (c2_pd_score c2), pr_fee_bps := Some bps, pr_tier := Some (c2_tier c2)\<rparr>"

text \<open>What becomes of the agent's answer; \<open>interval\<close> is the conformal interval, if any.\<close>

definition conclude_decision ::
    "('r, 's, 'z, 'u, 'b) pipeline_world \<Rightarrow> time \<Rightarrow> NormalizedEvent \<Rightarrow> scored \<Rightarrow> c2_result \<Rightarrow> int \<Rightarrow>
     (pyfloat \<times> pyfloat \<times> pyfloat) option \<Rightarrow> agent_result \<Rightarrow> ('r, 's, 'c, 'z, 'u, 'm) LIPPipeline \<Rightarrow>
     (py_exc + PipelineResult) \<times> ('r, 's, 'c, 'z, 'u, 'm) LIPPipeline" where
  "conclude_decision P now ev sc c2 bps interval c7 st =
     (let c7_status = ar_status c7;
          parent = sc_handoff_parent sc;
          result = (\<lambda>outcome. (priced_result outcome ev sc c2 bps (sc_history sc))
            \<lparr>pr_decision_entry_id := ar_decision_entry_id c7\<rparr>);
          done' = record_and_return P now ev (Some c7_status) parent
      in if c7_status = ''COMPLIANCE_HOLD_BLOCKS_BRIDGE'' then
           let note = \<lparr> cn_uetr = ne_uetr ev, cn_sending_bic = ne_sending_bic ev, cn_rejection_code = ne_rejection_code ev,
                        cn_rejection_class = derive_rejection_class (ne_rejection_code ev),
                        cn_decision_entry_id = ar_decision_entry_id c7 \<rparr>
           in done' ((result ''COMPLIANCE_HOLD'')\<lparr>pr_compliance_hold := True\<rparr>)
                (st\<lparr>pl_notifications := map_option (\<lambda>ns. ns @ [note]) (pl_notifications st)\<rparr>)
         else if c7_status = ''HALT'' then done' (result ''HALT'') st
         else if c7_status = ''PENDING_HUMAN_REVIEW'' then
           done' ((result ''PENDING_HUMAN_REVIEW'')\<lparr>pr_override_request_id := ar_override_request_id c7\<rparr>) st
         else if c7_status \<in> set DECLINE_STATUSES then
           done' ((result ''DECLINED'')\<lparr>pr_prediction_interval := interval\<rparr>) st
         else
           case advance (sc_history sc) BRIDGE_OFFERED of
             Inl e \<Rightarrow> (Inl e, st)
           | Inr history \<Rightarrow>
               let handoff = (case parent of Some u \<Rightarrow> u \<noteq> '''' | None \<Rightarrow> False);
                   outcome = (if handoff then ''DOMESTIC_LEG_FAILURE'' else ''OFFERED'')
               in done' ((priced_result outcome ev sc c2 bps history)
                    \<lparr>pr_decision_entry_id := ar_decision_entry_id c7, pr_loan_offer := ar_loan_offer c7,
                     pr_parent_uetr := (if handoff \<and> ar_loan_offer c7 \<noteq> None then parent else None),
                     pr_delivery_id := ar_delivery_id c7, pr_prediction_interval := interval\<rparr>) st)"

definition conformal_step ::
    "('r, 's, 'z, 'u, 'b) pipeline_world \<Rightarrow> c2_result \<Rightarrow> (pyfloat \<times> pyfloat \<times> pyfloat) option \<times> int" where
  "conformal_step P c2 =
     (case pw_conformal P of
        None \<Rightarrow> (None, c2_fee_bps c2)
      | Some predict \<Rightarrow>
          (case predict (c2_pd_score c2) of
             Inl _ \<Rightarrow> (None, c2_fee_bps c2)
           | Inr i \<Rightarrow> (Some (ci_lower i, ci_upper i, ci_coverage_level i),
                       uncertainty_fee_adjustment (ci_upper i - ci_lower i) (c2_fee_bps c2))))"

definition decide ::
    "('r, 's, 'z, 'u, 'b) pipeline_world \<Rightarrow> agent_call \<Rightarrow> NormalizedEvent \<Rightarrow> 'b option \<Rightarrow> payment_dict \<Rightarrow> scored \<Rightarrow>
     ('r, 's, 'c, 'z, 'u, 'm) LIPPipeline \<Rightarrow> (py_exc + PipelineResult) \<times> ('r, 's, 'c, 'z, 'u, 'm) LIPPipeline" where
  "decide P call ev borrower pd sc st =
     (case pw_c2 P pd borrower of
        Inl e \<Rightarrow> (Inl e, st)
      | Inr c2 \<Rightarrow>
          let (interval, bps) = conformal_step P c2;
              (out, c7) = process_payment (pw_agent P) call (agent_context ev sc c2 bps) (pl_c7 st);
              st = st\<lparr>pl_c7 := c7\<rparr>
          in case out of
               Inl _ \<Rightarrow>
                 record_and_return P (cl_now call) ev None (sc_handoff_parent sc)
                   ((staged_result ''SYSTEM_ERROR'' (ne_uetr ev) (sc_failure_probability sc) True (sc_history sc))
                     \<lparr>pr_dispute_class := Some (sc_dispute_class sc), pr_aml_passed := Some True\<rparr>) st
             | Inr r \<Rightarrow> conclude_decision P (cl_now call) ev sc c2 bps interval r st)"

section \<open>The gates\<close>

definition gates ::
    "('r, 's, 'z, 'u, 'b) pipeline_world \<Rightarrow> agent_call \<Rightarrow> string \<times> string \<Rightarrow> NormalizedEvent \<Rightarrow> 'b option \<Rightarrow> payment_dict \<Rightarrow>
     scored \<Rightarrow> ('r, 's, 'c, 'z, 'u, 'm) LIPPipeline \<Rightarrow> (py_exc + PipelineResult) \<times> ('r, 's, 'c, 'z, 'u, 'm) LIPPipeline" where
  "gates P call uuids ev borrower pd sc st =
     (let now = cl_now call;
          dispute_class = run_c4 P ev;
          (c6_result, st) = run_c6 P now uuids ev (sc_entity_id sc) (sc_beneficiary_id sc) (sc_tenant_id sc) st;
          sc = sc\<lparr>sc_dispute_class := dispute_class\<rparr>;
          fp = sc_failure_probability sc;
          done' = record_and_return P now ev None (sc_handoff_parent sc);
          result = (\<lambda>outcome history. (staged_result outcome (ne_uetr ev) fp True history)
            \<lparr>pr_dispute_class := Some dispute_class\<rparr>)
      in case c6_result of
           None \<Rightarrow>
             let (entry_id, st) = log_block P call ev fp ''aml_check_unavailable'' st
             in done' ((result ''AML_CHECK_UNAVAILABLE'' (sc_history sc @ [AML_BLOCKED]))
                  \<lparr>pr_aml_hard_block := True, pr_decision_entry_id := entry_id\<rparr>) st
         | Some aml \<Rightarrow>
             if dispute_class \<in> set DISPUTE_BLOCK_CLASSES then
               case advance (sc_history sc) DISPUTE_BLOCKED of
                 Inl e \<Rightarrow> (Inl e, st)
               | Inr history \<Rightarrow>
                   let (entry_id, st) = log_block P call ev fp ''dispute_blocked'' st
                   in done' ((result ''DISPUTE_BLOCKED'' history)
                        \<lparr>pr_dispute_hard_block := True, pr_aml_passed := Some (ar_passed aml),
                         pr_aml_hard_block := \<not> ar_passed aml, pr_decision_entry_id := entry_id\<rparr>) st
             else if \<not> ar_passed aml then
               case advance (sc_history sc) AML_BLOCKED of
                 Inl e \<Rightarrow> (Inl e, st)
               | Inr history \<Rightarrow>
                   let (entry_id, st) = log_block P call ev fp ''aml_blocked'' st
                   in done' ((result ''AML_BLOCKED'' history)
                        \<lparr>pr_aml_passed := Some False, pr_aml_hard_block := True, pr_decision_entry_id := entry_id\<rparr>) st
             else if ar_anomaly_flagged aml then
               done' ((result ''PENDING_HUMAN_REVIEW'' (sc_history sc))
                    \<lparr>pr_aml_passed := Some True, pr_aml_anomaly_flagged := True\<rparr>) st
             else decide P call ev borrower pd sc st)"

section \<open>The whole call\<close>

definition HANDOFF_RAILS :: "string list" where "HANDOFF_RAILS = [''FEDNOW'', ''RTP'', ''SEPA'']"

definition handoff_parent_of ::
    "time \<Rightarrow> NormalizedEvent \<Rightarrow> ('r, 's, 'c, 'z, 'u, 'm) LIPPipeline \<Rightarrow> string option" where
  "handoff_parent_of now ev st =
     (if ne_rail ev \<noteq> '''' \<and> py_upper (ne_rail ev) \<in> set HANDOFF_RAILS \<and> truthy (ne_rejection_code ev)
      then find_parent (pl_uetr_tracker st) now (ne_uetr ev) None else None)"

definition note_failure :: "time \<Rightarrow> NormalizedEvent \<Rightarrow> ('r, 's, 'c, 'z, 'u, 'm) LIPPipeline \<Rightarrow> ('r, 's, 'c, 'z, 'u, 'm) LIPPipeline" where
  "note_failure now ev st =
     st\<lparr>pl_stress_detector :=
         map_option (\<lambda>d. record_event d now (corridor_of ev) True (Some (ne_rail ev))) (pl_stress_detector st)\<rparr>"

definition score ::
    "('r, 's, 'z, 'u, 'b) pipeline_world \<Rightarrow> agent_call \<Rightarrow> string \<times> string \<Rightarrow> NormalizedEvent \<Rightarrow> 'b option \<Rightarrow> scored \<Rightarrow>
     ('r, 's, 'c, 'z, 'u, 'm) LIPPipeline \<Rightarrow> (py_exc + PipelineResult) \<times> ('r, 's, 'c, 'z, 'u, 'm) LIPPipeline" where
  "score P call uuids ev borrower sc st =
     (let pd = event_to_payment_dict (pl_corridor_rates st) ev
      in case pw_c1 P pd of
           Inl e \<Rightarrow> (Inl e, st)
         | Inr fp \<Rightarrow>
             if \<not> pl_threshold st \<le> fp then
               record_and_return P (cl_now call) ev None (sc_handoff_parent sc)
                 (staged_result ''BELOW_THRESHOLD'' (ne_uetr ev) fp False (sc_history sc)) st
             else
               case advance (sc_history sc) FAILURE_DETECTED of
                 Inl e \<Rightarrow> (Inl e, st)
               | Inr history \<Rightarrow>
                   gates P call uuids ev borrower pd (sc\<lparr>sc_failure_probability := fp, sc_history := history\<rparr>) st)"

text \<open>The AML entity of a payment, unless the caller names one.\<close>

definition entity_of :: "NormalizedEvent \<Rightarrow> string option \<Rightarrow> string" where
  "entity_of ev entity_id =
     (case entity_id of
        Some e \<Rightarrow> e
      | None \<Rightarrow> (case ne_debtor_account ev of
            Some a \<Rightarrow> if a \<noteq> '''' then ne_sending_bic ev @ '':'' @ a else ne_sending_bic ev
          | None \<Rightarrow> ne_sending_bic ev))"

definition process ::
    "('r, 's, 'z, 'u, 'b) pipeline_world \<Rightarrow> agent_call \<Rightarrow> string \<times> string \<Rightarrow> NormalizedEvent \<Rightarrow> 'b option \<Rightarrow> string option \<Rightarrow>
     string option \<Rightarrow> string option \<Rightarrow> string option \<Rightarrow> ('r, 's, 'c, 'z, 'u, 'm) LIPPipeline \<Rightarrow>
     (py_exc + PipelineResult) \<times> ('r, 's, 'c, 'z, 'u, 'm) LIPPipeline" where
  "process P call uuids ev borrower entity_id beneficiary_id human_override_decision tenant_id st =
     (let now = cl_now call;
          (retry, tr) = is_retry (pw_tracker_redis P) (pl_uetr_tracker st) now (ne_uetr ev) (retry_context ev);
          st = st\<lparr>pl_uetr_tracker := tr\<rparr>
      in case retry of
           Inl e \<Rightarrow> (Inl e, st)
         | Inr True \<Rightarrow>
             let (res, st) = enrich_result now ev None None (bare_result ''RETRY_BLOCKED'' (ne_uetr ev) 0 False) st
             in (Inr res, st)
         | Inr False \<Rightarrow>
             let parent = handoff_parent_of now ev st;
                 st = note_failure now ev st
             in if (case ne_rejection_code ev of Some c \<Rightarrow> c \<noteq> '''' \<and> is_known_block_code c | None \<Rightarrow> False) then
                  let (entry_id, st) = log_block P call ev 0 ''dispute_blocked'' st;
                      (r, st) = tracker_record P now ev (ne_uetr ev) ''DISPUTE_BLOCKED'' st
                  in (case r of
                        Inl e \<Rightarrow> (Inl e, st)
                      | Inr _ \<Rightarrow>
                          let (res, st) = enrich_result now ev None parent
                            ((bare_result ''DISPUTE_BLOCKED'' (ne_uetr ev) 0 False)
                              \<lparr>pr_dispute_hard_block := True, pr_aml_passed := Some True, pr_decision_entry_id := entry_id,
                               pr_payment_state := Some DISPUTE_BLOCKED, pr_loan_state := Some LOAN_OFFER_PENDING,
                               pr_payment_state_history := [MONITORING, DISPUTE_BLOCKED]\<rparr>) st
                          in (Inr res, st))
                else
                  score P call uuids ev borrower
                    \<lparr> sc_failure_probability = 0, sc_dispute_class = '''', sc_history = [payment_initial],
                      sc_entity_id = entity_of ev entity_id,
                      sc_beneficiary_id = (case beneficiary_id of Some b \<Rightarrow> if b \<noteq> '''' then b else ne_receiving_bic ev
                        | None \<Rightarrow> ne_receiving_bic ev),
                      sc_tenant_id = tenant_id, sc_handoff_parent = parent,
                      sc_human_override_decision = human_override_decision \<rparr> st)"

section \<open>After acceptance\<close>

text \<open>The text keys of an offer hold text.\<close>

fun offer_text :: "pyval \<Rightarrow> string" where
  "offer_text (PStr s) = s"
| "offer_text _ = ''''"

definition EPOCH :: date where "EPOCH = date 1970 1 1"

text \<open>\<open>datetime.combine(add_business_days(t.date(), days, jurisdiction), t.time(), utc)\<close>.\<close>

definition business_maturity :: "time \<Rightarrow> int \<Rightarrow> string \<Rightarrow> py_exc + time" where
  "business_maturity t days jurisdiction =
     (let day = \<lfloor>t / 86400\<rfloor>
      in res_bind (add_business_days (EPOCH + day) days jurisdiction) (\<lambda>d.
           Inr (of_int (d - EPOCH) * 86400 + (t - of_int day * 86400))))"

record accepted_terms =
  at_amount :: dec
  at_fee_bps :: int
  at_maturity_days :: int
  at_entity_id :: string
  at_beneficiary_id :: string

definition read_offer :: "LoanOfferDelivery \<Rightarrow> pyval \<Rightarrow> py_exc + accepted_terms" where
  "read_offer delivery offer =
     res_bind (res_bind (pget offer ''loan_amount'' (PNum (ld_principal_usd delivery))) decimal_of) (\<lambda>amount.
     res_bind (res_bind (pget offer ''fee_bps'' (PNum (ld_fee_bps delivery))) decimal_of) (\<lambda>bps.
     res_bind (res_bind (pget offer ''maturity_days'' (PNum (of_int (ld_maturity_days delivery)))) py_int) (\<lambda>days.
     res_bind (por (pget offer ''aml_entity_id'' PNone) (por (pget offer ''sending_bic'' PNone)
       (Inr (PStr (ld_elo_entity_id delivery))))) (\<lambda>entity.
     res_bind (por (pget offer ''aml_beneficiary_id'' PNone) (por (pget offer ''receiving_bic'' PNone)
       (Inr (PStr (ld_elo_entity_id delivery))))) (\<lambda>beneficiary.
       Inr \<lparr> at_amount = amount, at_fee_bps = py_trunc bps, at_maturity_days = days,
             at_entity_id = offer_text entity, at_beneficiary_id = offer_text beneficiary \<rparr>)))))"

text \<open>The AML gate has no \<open>record\<close>, so its velocity checker is the recorder.\<close>

definition record_c6_after_acceptance ::
    "('r, 's, 'z, 'u, 'b) pipeline_world \<Rightarrow> time \<Rightarrow> string \<Rightarrow> accepted_terms \<Rightarrow> ('r, 's, 'c, 'z, 'u, 'm) LIPPipeline \<Rightarrow>
     ('r, 's, 'c, 'z, 'u, 'm) LIPPipeline" where
  "record_c6_after_acceptance P now uuid a st =
     st\<lparr>pl_c6 := (pl_c6 st)\<lparr>am_velocity := velocity_record (pw_zset P) (pw_sha256 P) now uuid (am_velocity (pl_c6 st))
       (at_entity_id a) (at_amount a) (at_beneficiary_id a)\<rparr>\<rparr>"

definition offer_class :: "LoanOfferDelivery \<Rightarrow> pyval \<Rightarrow> py_exc + string" where
  "offer_class delivery offer =
     res_bind (por (pget offer ''rejection_class'' PNone) (Inr (PStr (ld_rejection_code_class delivery)))) (\<lambda>v.
       Inr (normalise_rejection_class (offer_text v)))"

definition offer_payment_id :: "LoanOfferDelivery \<Rightarrow> pyval \<Rightarrow> py_exc + string" where
  "offer_payment_id delivery offer =
     res_bind (por (pget offer ''individual_payment_id'' PNone) (Inr (PStr (ld_delivery_id delivery)))) (\<lambda>v.
       Inr (offer_text v))"

text \<open>The loan has the default rail, SWIFT.\<close>

definition accepted_loan ::
    "string \<Rightarrow> LoanOfferAcceptance \<Rightarrow> LoanOfferDelivery \<Rightarrow> pyval \<Rightarrow> accepted_terms \<Rightarrow> py_exc + ActiveLoan" where
  "accepted_loan licensee acceptance delivery offer a =
     res_bind (pget offer ''loan_currency'' (PStr ''USD'')) (\<lambda>currency.
     res_bind (business_maturity (la_accepted_at acceptance) (at_maturity_days a)
       (currency_to_jurisdiction (offer_text currency))) (\<lambda>maturity.
     res_bind (offer_payment_id delivery offer) (\<lambda>payment_id.
     res_bind (offer_class delivery offer) (\<lambda>cls.
     res_bind (pget offer ''corridor'' (PStr (offer_text currency @ ''_USD''))) (\<lambda>corr.
     res_bind (pget offer ''deployment_phase'' (PStr ''LICENSOR'')) (\<lambda>phase.
       Inr \<lparr> loan_id = la_offer_id acceptance, loan_uetr = la_uetr acceptance, individual_payment_id = payment_id,
             principal = at_amount a, fee_bps = at_fee_bps a, maturity_date = maturity, rejection_class = cls,
             corridor = offer_text corr, funded_at = la_accepted_at acceptance, licensee_id = licensee,
             deployment_phase = offer_text phase, loan_rail = ''SWIFT'' \<rparr>))))))"

definition register_accepted_offer_with_c3 ::
    "LoanOfferAcceptance \<Rightarrow> LoanOfferDelivery \<Rightarrow> pyval \<Rightarrow> accepted_terms \<Rightarrow> ('r, 's, 'c, 'z, 'u, 'm) LIPPipeline \<Rightarrow>
     ('r, 's, 'c, 'z, 'u, 'm) LIPPipeline" where
  "register_accepted_offer_with_c3 acceptance delivery offer a st =
     (case pl_c3 st of
        None \<Rightarrow> st
      | Some m \<Rightarrow>
          (case accepted_loan (ea_licensee_id (pl_c7 st)) acceptance delivery offer a of
             Inl _ \<Rightarrow> st
           | Inr loan \<Rightarrow> st\<lparr>pl_c3 := Some (monitor_register_loan m loan)\<rparr>))"

definition risk_loan ::
    "LoanOfferAcceptance \<Rightarrow> LoanOfferDelivery \<Rightarrow> pyval \<Rightarrow> accepted_terms \<Rightarrow> py_exc + ActiveLoan \<times> pyfloat \<times> pyfloat" where
  "risk_loan acceptance delivery offer a =
     res_bind (offer_payment_id delivery offer) (\<lambda>payment_id.
     res_bind (offer_class delivery offer) (\<lambda>cls.
     res_bind (pget offer ''corridor'' (PStr ''USD_USD'')) (\<lambda>corr.
     res_bind (res_bind (pget offer ''pd_score'' (PNum (ld_pd_score delivery))) py_float) (\<lambda>pd.
     res_bind (res_bind (pget offer ''lgd'' (PNum (45 / 100))) py_float) (\<lambda>lgd.
       Inr (\<lparr> loan_id = la_offer_id acceptance, loan_uetr = la_uetr acceptance, individual_payment_id = payment_id,
              principal = at_amount a, fee_bps = at_fee_bps a,
              maturity_date = la_accepted_at acceptance + of_int (at_maturity_days a * 86400), rejection_class = cls,
              corridor = offer_text corr, funded_at = la_accepted_at acceptance, licensee_id = '''',
              deployment_phase = ''LICENSOR'', loan_rail = ''SWIFT'' \<rparr>, pd, lgd))))))"

definition add_accepted_offer_to_risk_engine ::
    "LoanOfferAcceptance \<Rightarrow> LoanOfferDelivery \<Rightarrow> pyval \<Rightarrow> accepted_terms \<Rightarrow> ('r, 's, 'c, 'z, 'u, 'm) LIPPipeline \<Rightarrow>
     ('r, 's, 'c, 'z, 'u, 'm) LIPPipeline" where
  "add_accepted_offer_to_risk_engine acceptance delivery offer a st =
     (case pl_risk_engine st of
        None \<Rightarrow> st
      | Some ps \<Rightarrow>
          (case risk_loan acceptance delivery offer a of
             Inl _ \<Rightarrow> st
           | Inr (loan, pd, lgd) \<Rightarrow> st\<lparr>pl_risk_engine := Some (add_position ps loan pd lgd)\<rparr>))"

definition finalize_accepted_offer ::
    "('r, 's, 'z, 'u, 'b) pipeline_world \<Rightarrow> time \<Rightarrow> string \<Rightarrow> LoanOfferAcceptance \<Rightarrow> LoanOfferDelivery \<Rightarrow> pyval \<Rightarrow>
     ('r, 's, 'c, 'z, 'u, 'm) LIPPipeline \<Rightarrow> (py_exc + unit) \<times> ('r, 's, 'c, 'z, 'u, 'm) LIPPipeline" where
  "finalize_accepted_offer P now uuid acceptance delivery offer st =
     (case read_offer delivery offer of
        Inl e \<Rightarrow> (Inl e, st)
      | Inr a \<Rightarrow>
          let st = record_c6_after_acceptance P now uuid a st;
              st = register_accepted_offer_with_c3 acceptance delivery offer a st;
              st = add_accepted_offer_to_risk_engine acceptance delivery offer a st
          in (Inr (), st))"

text \<open>\<open>_register_with_c3\<close>, which knows the rail and which nothing calls.\<close>

definition register_with_c3 ::
    "time \<Rightarrow> NormalizedEvent \<Rightarrow> loan_offer \<Rightarrow> int \<Rightarrow> ('r, 's, 'c, 'z, 'u, 'm) LIPPipeline \<Rightarrow> ('r, 's, 'c, 'z, 'u, 'm) LIPPipeline" where
  "register_with_c3 now ev offer days st =
     (case pl_c3 st of
        None \<Rightarrow> st
      | Some m \<Rightarrow>
          let rail_upper = py_upper (if ne_rail ev = '''' then ''SWIFT'' else ne_rail ev);
              maturity =
                (case dget RAIL_MATURITY_HOURS rail_upper of
                   Some h \<Rightarrow> if h < 24 then Inr (now + h * 3600)
                             else business_maturity now days (currency_to_jurisdiction (ne_currency ev))
                 | None \<Rightarrow> business_maturity now days (currency_to_jurisdiction (ne_currency ev)));
              cls = (case ne_rejection_code ev of
                  None \<Rightarrow> ''CLASS_B''
                | Some code \<Rightarrow> if code = '''' then ''CLASS_B''
                    else (case classify_rejection_code code of Inr c \<Rightarrow> class_value c | Inl _ \<Rightarrow> ''CLASS_B''))
          in case maturity of
               Inl _ \<Rightarrow> st
             | Inr maturity \<Rightarrow>
                 st\<lparr>pl_c3 := Some (monitor_register_loan m
                   \<lparr> loan_id = lo_loan_id offer, loan_uetr = ne_uetr ev,
                     individual_payment_id = ne_individual_payment_id ev, principal = ne_amount ev,
                     fee_bps = lo_fee_bps offer, maturity_date = maturity, rejection_class = cls,
                     corridor = corridor_of ev, funded_at = now, licensee_id = ea_licensee_id (pl_c7 st),
                     deployment_phase = lo_deployment_phase offer, loan_rail = rail_upper \<rparr>)\<rparr>)"

end
