(* ===== verification/Pipeline_Properties.thy ===== *)
theory Pipeline_Properties
  imports Pipeline
begin

text \<open>
  What the pipeline guarantees: an offer leaves it only through every gate, a payment with a
  final outcome is not decided again within the tracker's time to live (as long as the tracker's server, if it has
  one, answers), and which state it ends in; and two behaviours of its parts together.
\<close>

section \<open>The answers of the agent\<close>

definition AGENT_STATUSES :: "string list" where
  "AGENT_STATUSES =
     ''OFFER'' # ''HALT'' # ''PENDING_HUMAN_REVIEW'' # ''COMPLIANCE_HOLD_BLOCKS_BRIDGE'' # DECLINE_STATUSES"

definition answered :: "py_exc + agent_result \<Rightarrow> bool" where
  "answered out \<longleftrightarrow> (\<forall>r. out = Inr r \<longrightarrow> ar_status r \<in> set AGENT_STATUSES)"

lemma answered_simps [simp]:
  "answered (Inl e)" "answered (Inr r) \<longleftrightarrow> ar_status r \<in> set AGENT_STATUSES"
  by (simp_all add: answered_def)

lemma AGENT_STATUSES_mem [simp]:
  "x \<in> set AGENT_STATUSES \<longleftrightarrow>
     x \<in> {''OFFER'', ''HALT'', ''PENDING_HUMAN_REVIEW'', ''COMPLIANCE_HOLD_BLOCKS_BRIDGE'', ''DECLINE'', ''BLOCK'',
       ''CURRENCY_NOT_SUPPORTED'', ''BORROWER_NOT_ENROLLED'', ''BELOW_MIN_LOAN_AMOUNT'', ''BELOW_MIN_CASH_FEE'',
       ''LOAN_AMOUNT_MISMATCH''}"
  by (simp add: AGENT_STATUSES_def DECLINE_STATUSES_def)

lemma refuse_status: "refuse W call c t ty status why s = (out, s') \<Longrightarrow> \<exists>r. out = Inr r \<and> ar_status r = status"
  by (auto simp: refuse_def split: prod.splits)

lemma admit_answered: "admit W call c s = (Inl out, s') \<Longrightarrow> answered out"
  by (cases "tps_allow (ea_tps_limiter s) (cl_monotonic call)")
    (auto simp: admit_def Let_def stage_iffs split: if_splits)

lemma check_enrollment_answered: "check_enrollment W call c s = (Inl out, s') \<Longrightarrow> answered out"
  by (auto simp: check_enrollment_def Let_def stage_iffs split: if_splits prod.splits dest!: refuse_status)

lemma check_blocks_answered: "check_blocks W call c t s = (Inl out, s') \<Longrightarrow> answered out"
  by (auto simp: check_blocks_def split: if_splits dest!: refuse_status)

lemma check_terms_answered: "check_terms W call c t s = (Inl out, s') \<Longrightarrow> answered out"
  by (auto simp: check_terms_def Let_def stage_iffs split: if_splits dest!: refuse_status)

lemma stressed_now_Inl: "stressed_now call c s = (Inl out, s') \<Longrightarrow> answered out"
  by (auto simp: stressed_now_def lift_result_iff Let_def split_def split: option.splits)

lemma requires_human_review_Inl: "requires_human_review call c s = (Inl out, s') \<Longrightarrow> answered out"
  by (auto simp: requires_human_review_def stage_iffs split: if_splits dest: stressed_now_Inl)

lemma human_review_answered:
  assumes "human_review W call c t s = (Inl out, s')"
  shows "answered out"
  using assms unfolding human_review_def proceed_Inl_iff
proof (elim disjE exE conjE)
  fix required s1
  assume "(if \<not> required then (Inr False, s1)
     else if pc_human_override_decision c = Some ''APPROVE'' then (Inr True, s1)
     else
       proceed (stressed_now call c s1) (\<lambda>stressed s.
       let reason = review_reason W c t (ec_require_human_review_above_pd (ea_config s)) stressed;
           (req, ho) = request_override (ea_human_override s) (cl_now call) (cl_request_id call)
             (ctx_get (pc_uetr c) '''') ''OFFER'' (pt_failure_prob t) reason
       in (Inl (Inr ((returned ''PENDING_HUMAN_REVIEW'' None None)
             \<lparr>ar_override_request_id := Some (rq_request_id req)\<rparr>)), s\<lparr>ea_human_override := ho\<rparr>))) = (Inl out, s')"
  then show ?thesis
    by (auto simp: proceed_Inl_iff Let_def split_def split: if_splits dest: stressed_now_Inl)
qed (rule requires_human_review_Inl)

lemma route_offer_Inl: "route_offer W call l s = (Inl out, s') \<Longrightarrow> answered out"
  by (auto simp: route_offer_def Let_def split_def stage_iffs split: if_splits option.splits)

lemma make_offer_answered: "make_offer W call c t ov s = (out, s') \<Longrightarrow> answered out"
  by (auto simp: make_offer_def conclude_iff lift_result_iff Let_def split_def
      split: option.splits dest!: refuse_status route_offer_Inl)

lemma agent_answered:
  assumes "process_payment W call c s = (out, s')"
  shows "answered out"
  using assms unfolding process_payment_def conclude_iff
  by (elim disjE exE conjE)
    (simp_all add: admit_answered check_enrollment_answered check_blocks_answered human_review_answered
      check_terms_answered make_offer_answered)

section \<open>One call\<close>

lemma record_ok: "\<not> redis_raises R s now \<Longrightarrow> fst (record_uetr R s now u out (retry_context ev)) = Inr ()"
  by (auto simp: record_uetr_def retry_context_def index_tuple_def Let_def split: option.splits)

lemma record_raises:
  "redis_raises R s now \<Longrightarrow> record_uetr R s now u out c = (Inl OtherException, maybe_cleanup s now)"
  by (simp add: record_uetr_def)

lemma stress_regime_state: "\<exists>d. snd (stress_regime_active now ev st) = st\<lparr>pl_stress_detector := d\<rparr>"
proof (cases "pl_stress_detector st")
  case None
  then have "snd (stress_regime_active now ev st) = st\<lparr>pl_stress_detector := pl_stress_detector st\<rparr>"
    by (simp add: stress_regime_active_def)
  then show ?thesis by blast
qed (auto simp: stress_regime_active_def split_def Let_def)

lemma enrichE:
  assumes "enrich_result now ev c7 parent res st = (res', st')"
  obtains a d where "res' = res\<lparr>pr_exception_assessment := Some a\<rparr>" "st' = st\<lparr>pl_stress_detector := d\<rparr>"
  using assms stress_regime_state [of now ev st] that by (auto simp: enrich_result_def Let_def split_def)

text \<open>The tracker after a payment was recorded with an outcome.\<close>

abbreviation recorded ::
    "('r, 's, 'z, 'u, 'b) pipeline_world \<Rightarrow> time \<Rightarrow> NormalizedEvent \<Rightarrow> string \<Rightarrow> 'u UETRTracker \<Rightarrow> 'u UETRTracker" where
  "recorded P now ev outcome tr \<equiv> snd (record_uetr (pw_tracker_redis P) tr now (ne_uetr ev) outcome (retry_context ev))"

lemma record_and_returnE:
  assumes "record_and_return P now ev c7 parent res st = (out, st')" "pr_uetr res = ne_uetr ev"
  obtains (returned) a d where "out = Inr (res\<lparr>pr_exception_assessment := Some a\<rparr>)"
    "st' = st\<lparr>pl_stress_detector := d, pl_uetr_tracker := recorded P now ev (pr_outcome res) (pl_uetr_tracker st)\<rparr>"
    "\<not> redis_raises (pw_tracker_redis P) (pl_uetr_tracker st) now"
  | (raised) d where "out = Inl OtherException"
    "st' = st\<lparr>pl_stress_detector := d, pl_uetr_tracker := maybe_cleanup (pl_uetr_tracker st) now\<rparr>"
    "redis_raises (pw_tracker_redis P) (pl_uetr_tracker st) now"
proof -
  obtain res1 st1 where e: "enrich_result now ev c7 parent res st = (res1, st1)" by fastforce
  then obtain a d where ad: "res1 = res\<lparr>pr_exception_assessment := Some a\<rparr>" "st1 = st\<lparr>pl_stress_detector := d\<rparr>"
    by (rule enrichE)
  show thesis
  proof (cases "redis_raises (pw_tracker_redis P) (pl_uetr_tracker st) now")
    case True
    with assms ad show thesis
      by (intro raised [of d]) (auto simp: record_and_return_def tracker_record_def e record_raises Let_def)
  next
    case False
    then have "out = Inr res1"
      "st' = st1\<lparr>pl_uetr_tracker := recorded P now ev (pr_outcome res1) (pl_uetr_tracker st1)\<rparr>"
      using assms record_ok [of "pw_tracker_redis P" "pl_uetr_tracker st1" now "ne_uetr ev" "pr_outcome res1" ev] ad
      by (auto simp: record_and_return_def tracker_record_def e Let_def split_def)
    with ad False show thesis using returned [of a d] by simp
  qed
qed

text \<open>Which history goes with which outcome.\<close>

definition OFFER_OUTCOMES :: "string list" where "OFFER_OUTCOMES = [''OFFERED'', ''DOMESTIC_LEG_FAILURE'']"

definition outcome_histories :: "(string \<times> PaymentState list) list" where
  "outcome_histories =
     [(''RETRY_BLOCKED'', []), (''DISPUTE_BLOCKED'', [MONITORING, DISPUTE_BLOCKED]),
      (''BELOW_THRESHOLD'', [MONITORING]), (''AML_CHECK_UNAVAILABLE'', [MONITORING, FAILURE_DETECTED, AML_BLOCKED]),
      (''DISPUTE_BLOCKED'', [MONITORING, FAILURE_DETECTED, DISPUTE_BLOCKED]),
      (''AML_BLOCKED'', [MONITORING, FAILURE_DETECTED, AML_BLOCKED]),
      (''PENDING_HUMAN_REVIEW'', [MONITORING, FAILURE_DETECTED]), (''SYSTEM_ERROR'', [MONITORING, FAILURE_DETECTED]),
      (''COMPLIANCE_HOLD'', [MONITORING, FAILURE_DETECTED]), (''HALT'', [MONITORING, FAILURE_DETECTED]),
      (''DECLINED'', [MONITORING, FAILURE_DETECTED]), (''OFFERED'', [MONITORING, FAILURE_DETECTED, BRIDGE_OFFERED]),
      (''DOMESTIC_LEG_FAILURE'', [MONITORING, FAILURE_DETECTED, BRIDGE_OFFERED])]"

definition well_formed_result :: "PipelineResult \<Rightarrow> bool" where
  "well_formed_result r \<longleftrightarrow>
     (pr_outcome r, pr_payment_state_history r) \<in> set outcome_histories \<and>
     pr_payment_state r = (if pr_payment_state_history r = [] then None else Some (last (pr_payment_state_history r))) \<and>
     (pr_loan_offer r \<noteq> None \<longleftrightarrow> pr_outcome r \<in> set OFFER_OUTCOMES)"

text \<open>
  The end of a call that decides: a result, recorded; or an exception before anything was recorded, also
  the tracker's own when its server does not answer.
\<close>

definition decided ::
    "('r, 's, 'z, 'u, 'b) pipeline_world \<Rightarrow> time \<Rightarrow> NormalizedEvent \<Rightarrow> 'u UETRTracker \<Rightarrow> py_exc + PipelineResult \<Rightarrow>
     ('r, 's, 'c, 'z, 'u, 'm) LIPPipeline \<Rightarrow> bool" where
  "decided P now ev tr out st' \<longleftrightarrow>
     (case out of
        Inl e \<Rightarrow> pl_uetr_tracker st' \<in> {tr, maybe_cleanup tr now}
      | Inr r \<Rightarrow> well_formed_result r \<and> pr_uetr r = ne_uetr ev \<and> pr_outcome r \<noteq> ''RETRY_BLOCKED'' \<and>
          \<not> redis_raises (pw_tracker_redis P) tr now \<and>
          pl_uetr_tracker st' = recorded P now ev (pr_outcome r) tr)"

lemma decided_returned:
  assumes "record_and_return P now ev c7 parent res st = (out, st')" "pr_uetr res = ne_uetr ev"
    and "well_formed_result res" "pr_outcome res \<noteq> ''RETRY_BLOCKED''" "pl_uetr_tracker st = tr"
  shows "decided P now ev tr out st'"
  using assms(1,2)
  by (rule record_and_returnE) (use assms(2-5) in \<open>simp_all add: decided_def well_formed_result_def\<close>)

lemma advance_simps [simp]:
  "advance [MONITORING] FAILURE_DETECTED = Inr [MONITORING, FAILURE_DETECTED]"
  "advance [MONITORING, FAILURE_DETECTED] BRIDGE_OFFERED = Inr [MONITORING, FAILURE_DETECTED, BRIDGE_OFFERED]"
  "advance [MONITORING, FAILURE_DETECTED] DISPUTE_BLOCKED = Inr [MONITORING, FAILURE_DETECTED, DISPUTE_BLOCKED]"
  "advance [MONITORING, FAILURE_DETECTED] AML_BLOCKED = Inr [MONITORING, FAILURE_DETECTED, AML_BLOCKED]"
  by (simp_all add: advance_def payment_transition_def)

lemmas result_defs = priced_result_def staged_result_def bare_result_def well_formed_result_def
  outcome_histories_def OFFER_OUTCOMES_def

lemma agent_offer_status:
  assumes "process_payment W call c s = (Inr r, s')"
  shows "(ar_status r = ''OFFER'') = (ar_loan_offer r \<noteq> None)"
proof (cases "ar_status r = ''OFFER'' \<or> ar_loan_offer r \<noteq> None")
  case True
  with assms show ?thesis by (rule offered_cases) simp
qed simp

lemma conclude_decision_decided:
  assumes "conclude_decision P now ev sc c2 bps interval c7 st = (out, st')"
    and h: "sc_history sc = [MONITORING, FAILURE_DETECTED]" and "ar_status c7 \<in> set AGENT_STATUSES"
    and offer: "(ar_status c7 = ''OFFER'') = (ar_loan_offer c7 \<noteq> None)" and tr: "pl_uetr_tracker st = tr"
  shows "decided P now ev tr out st'"
proof -
  from assms(3) consider "ar_status c7 = ''COMPLIANCE_HOLD_BLOCKS_BRIDGE''" | "ar_status c7 = ''HALT''"
    | "ar_status c7 = ''PENDING_HUMAN_REVIEW''" | "ar_status c7 \<in> set DECLINE_STATUSES" | "ar_status c7 = ''OFFER''"
    by (auto simp: DECLINE_STATUSES_def)
  then show ?thesis
  proof cases
    case 4
    then have "ar_status c7 \<notin> {''COMPLIANCE_HOLD_BLOCKS_BRIDGE'', ''HALT'', ''PENDING_HUMAN_REVIEW''}"
      by (auto simp: DECLINE_STATUSES_def)
    with assms(1) 4 show ?thesis
      by (simp add: conclude_decision_def Let_def) (erule decided_returned; simp add: result_defs h tr)
  next
    case 5
    with offer assms(1) show ?thesis
      by (simp add: conclude_decision_def Let_def h DECLINE_STATUSES_def)
        (erule decided_returned; simp add: result_defs tr)
  next
    case 1
    with assms(1) show ?thesis
      by (simp add: conclude_decision_def Let_def) (erule decided_returned; simp add: result_defs h tr)
  next
    case 2
    with assms(1) show ?thesis
      by (simp add: conclude_decision_def Let_def) (erule decided_returned; simp add: result_defs h tr)
  next
    case 3
    with assms(1) show ?thesis
      by (simp add: conclude_decision_def Let_def) (erule decided_returned; simp add: result_defs h tr)
  qed
qed

lemma decide_decided:
  assumes "decide P call ev borrower pd sc st = (out, st')" and h: "sc_history sc = [MONITORING, FAILURE_DETECTED]"
    and tr: "pl_uetr_tracker st = tr"
  shows "decided P (cl_now call) ev tr out st'"
proof (cases "pw_c2 P pd borrower")
  case (Inl e)
  with assms show ?thesis by (auto simp: decide_def decided_def)
next
  case (Inr c2)
  obtain interval bps where ci: "conformal_step P c2 = (interval, bps)" by fastforce
  obtain r c7 where c7: "process_payment (pw_agent P) call (agent_context ev sc c2 bps) (pl_c7 st) = (r, c7)" by fastforce
  show ?thesis
  proof (cases r)
    case (Inl e)
    with assms(1) Inr ci c7 show ?thesis
      by (simp add: decide_def) (erule decided_returned; simp add: result_defs h tr)
  next
    case r: (Inr a)
    from assms(1) Inr ci c7 r
    have "conclude_decision P (cl_now call) ev sc c2 bps interval a (st\<lparr>pl_c7 := c7\<rparr>) = (out, st')"
      by (simp add: decide_def)
    then show ?thesis
      by (rule conclude_decision_decided)
        (use h tr agent_answered [OF c7 [unfolded r]] agent_offer_status [OF c7 [unfolded r]] in simp_all)
  qed
qed

lemma run_c6_frame:
  assumes "run_c6 P now uuids ev e b t st = (r, st')"
  shows "\<exists>c6. st' = st\<lparr>pl_c6 := c6\<rparr>"
proof (cases r)
  case None
  with assms have "st' = st\<lparr>pl_c6 := pl_c6 st\<rparr>" by (auto simp: run_c6_def split: sum.splits prod.splits)
  then show ?thesis by blast
qed (use assms in \<open>auto simp: run_c6_def split: sum.splits prod.splits\<close>)

lemma log_block_frame: "log_block P call ev fp why st = (eid, st') \<Longrightarrow> \<exists>c7. st' = st\<lparr>pl_c7 := c7\<rparr>"
  by (auto simp: log_block_def Let_def split_def)

lemma gates_decided:
  assumes "gates P call uuids ev borrower pd sc st = (out, st')" and h: "sc_history sc = [MONITORING, FAILURE_DETECTED]"
    and tr: "pl_uetr_tracker st = tr"
  shows "decided P (cl_now call) ev tr out st'"
proof -
  obtain c6 st1 where r: "run_c6 P (cl_now call) uuids ev (sc_entity_id sc) (sc_beneficiary_id sc) (sc_tenant_id sc) st = (c6, st1)"
    by fastforce
  then have tr1: "pl_uetr_tracker st1 = tr" using run_c6_frame tr by fastforce
  have kept: "pl_uetr_tracker st2 = tr" if "log_block P call ev fp why st1 = (eid, st2)" for fp why eid st2
    using log_block_frame [OF that] tr1 by auto
  note run = assms(1) [unfolded gates_def Let_def r prod.case]
  show ?thesis
  proof (cases c6)
    case None
    obtain eid st2 where l: "log_block P call ev (sc_failure_probability sc) ''aml_check_unavailable'' st1 = (eid, st2)"
      by fastforce
    from run None l show ?thesis
      by simp (erule decided_returned; simp add: result_defs h kept [OF l])
  next
    case (Some aml)
    consider (dispute) "run_c4 P ev \<in> set DISPUTE_BLOCK_CLASSES"
      | (blocked) "run_c4 P ev \<notin> set DISPUTE_BLOCK_CLASSES" "\<not> ar_passed aml"
      | (anomaly) "run_c4 P ev \<notin> set DISPUTE_BLOCK_CLASSES" "ar_passed aml" "ar_anomaly_flagged aml"
      | (pass) "run_c4 P ev \<notin> set DISPUTE_BLOCK_CLASSES" "ar_passed aml" "\<not> ar_anomaly_flagged aml"
      by blast
    then show ?thesis
    proof cases
      case dispute
      obtain eid st2 where l: "log_block P call ev (sc_failure_probability sc) ''dispute_blocked'' st1 = (eid, st2)"
        by fastforce
      from run Some dispute l h show ?thesis
        by simp (erule decided_returned; simp add: result_defs kept [OF l])
    next
      case blocked
      obtain eid st2 where l: "log_block P call ev (sc_failure_probability sc) ''aml_blocked'' st1 = (eid, st2)"
        by fastforce
      from run Some blocked(1,2) l h show ?thesis
        by simp (erule decided_returned; simp add: result_defs kept [OF l])
    next
      case anomaly
      with run Some show ?thesis
        by simp (erule decided_returned; simp add: result_defs h tr1)
    next
      case pass
      with run Some have "decide P call ev borrower pd (sc\<lparr>sc_dispute_class := run_c4 P ev\<rparr>) st1 = (out, st')" by simp
      then show ?thesis by (rule decide_decided) (simp_all add: h tr1)
    qed
  qed
qed

lemma score_decided:
  assumes "score P call uuids ev borrower sc st = (out, st')" and h: "sc_history sc = [MONITORING]"
    and tr: "pl_uetr_tracker st = tr"
  shows "decided P (cl_now call) ev tr out st'"
proof (cases "pw_c1 P (event_to_payment_dict (pl_corridor_rates st) ev)")
  case (Inl e)
  with assms show ?thesis by (auto simp: score_def decided_def Let_def)
next
  case (Inr fp)
  show ?thesis
  proof (cases "pl_threshold st \<le> fp")
    case True
    with assms(1) Inr h have "gates P call uuids ev borrower (event_to_payment_dict (pl_corridor_rates st) ev)
        (sc\<lparr>sc_failure_probability := fp, sc_history := [MONITORING, FAILURE_DETECTED]\<rparr>) st = (out, st')"
      by (simp add: score_def Let_def)
    then show ?thesis by (rule gates_decided) (simp_all add: tr)
  next
    case False
    with assms(1) Inr show ?thesis
      by (simp add: score_def Let_def) (erule decided_returned; simp add: result_defs h tr)
  qed
qed

text \<open>Every call: a retry, or a decision on a payment that is not one.\<close>

lemma process_cases:
  assumes "process P call uuids ev borrower e b ov t st = (out, st')"
  shows "(\<exists>r. out = Inr r \<and> pr_outcome r = ''RETRY_BLOCKED'' \<and> well_formed_result r \<and> pr_uetr r = ne_uetr ev \<and>
       fst (is_retry (pw_tracker_redis P) (pl_uetr_tracker st) (cl_now call) (ne_uetr ev) (retry_context ev)) = Inr True \<and>
       pl_uetr_tracker st' = maybe_cleanup (pl_uetr_tracker st) (cl_now call)) \<or>
     fst (is_retry (pw_tracker_redis P) (pl_uetr_tracker st) (cl_now call) (ne_uetr ev) (retry_context ev)) \<noteq> Inr True \<and>
       decided P (cl_now call) ev (maybe_cleanup (pl_uetr_tracker st) (cl_now call)) out st'"
proof -
  obtain retry tr where i: "is_retry (pw_tracker_redis P) (pl_uetr_tracker st) (cl_now call) (ne_uetr ev) (retry_context ev)
      = (retry, tr)" by fastforce
  then have tr: "tr = maybe_cleanup (pl_uetr_tracker st) (cl_now call)"
    using is_retry_state [of "pw_tracker_redis P" "pl_uetr_tracker st" "cl_now call" "ne_uetr ev" "retry_context ev"] by simp
  note run = assms [unfolded process_def Let_def i prod.case]
  consider (raised) exc where "retry = Inl exc" | (retry) "retry = Inr True" | (new) "retry = Inr False"
    by (cases retry) auto
  then show ?thesis
  proof cases
    case raised
    with run i show ?thesis by (auto simp: decided_def tr)
  next
    case retry
    obtain res st1 where en: "enrich_result (cl_now call) ev None None (bare_result ''RETRY_BLOCKED'' (ne_uetr ev) 0 False)
        (st\<lparr>pl_uetr_tracker := tr\<rparr>) = (res, st1)" by fastforce
    then obtain a d where "res = (bare_result ''RETRY_BLOCKED'' (ne_uetr ev) 0 False)\<lparr>pr_exception_assessment := Some a\<rparr>"
      "st1 = st\<lparr>pl_uetr_tracker := tr\<rparr>\<lparr>pl_stress_detector := d\<rparr>"
      by (rule enrichE)
    moreover from this(1) have "well_formed_result res" "pr_outcome res = ''RETRY_BLOCKED''" "pr_uetr res = ne_uetr ev"
      by (simp_all add: result_defs)
    ultimately show ?thesis using run retry i en tr by auto
  next
    case new
    define st1 where "st1 = note_failure (cl_now call) ev (st\<lparr>pl_uetr_tracker := tr\<rparr>)"
    have tr1: "pl_uetr_tracker st1 = tr" by (simp add: st1_def note_failure_def)
    have "decided P (cl_now call) ev tr out st'"
    proof (cases "case ne_rejection_code ev of Some c \<Rightarrow> c \<noteq> '''' \<and> is_known_block_code c | None \<Rightarrow> False")
      case True
      obtain eid st2 where l: "log_block P call ev 0 ''dispute_blocked'' st1 = (eid, st2)" by fastforce
      then have tr2: "pl_uetr_tracker st2 = tr" using log_block_frame [OF l] tr1 by auto
      let ?st3 = "st2\<lparr>pl_uetr_tracker := recorded P (cl_now call) ev ''DISPUTE_BLOCKED'' tr\<rparr>"
      have up: "\<not> redis_raises (pw_tracker_redis P) tr (cl_now call)"
        using i by (auto simp: is_retry_def Let_def tr new split: if_splits)
      have rec: "tracker_record P (cl_now call) ev (ne_uetr ev) ''DISPUTE_BLOCKED'' st2 = (Inr (), ?st3)"
        using record_ok [OF up, of "ne_uetr ev" "''DISPUTE_BLOCKED''" ev]
        by (simp add: tracker_record_def tr2 split_def prod_eq_iff)
      let ?res = "(bare_result ''DISPUTE_BLOCKED'' (ne_uetr ev) 0 False)
          \<lparr>pr_dispute_hard_block := True, pr_aml_passed := Some True, pr_decision_entry_id := eid,
           pr_payment_state := Some DISPUTE_BLOCKED, pr_loan_state := Some LOAN_OFFER_PENDING,
           pr_payment_state_history := [MONITORING, DISPUTE_BLOCKED]\<rparr>"
      obtain res st4 where en: "enrich_result (cl_now call) ev None (handoff_parent_of (cl_now call) ev
          (st\<lparr>pl_uetr_tracker := tr\<rparr>)) ?res ?st3 = (res, st4)" by fastforce
      then obtain a d where "res = ?res\<lparr>pr_exception_assessment := Some a\<rparr>" "st4 = ?st3\<lparr>pl_stress_detector := d\<rparr>"
        by (rule enrichE)
      with run new True l rec en st1_def up show ?thesis by (auto simp: decided_def result_defs)
    next
      case False
      from run new False obtain sc where "score P call uuids ev borrower sc st1 = (out, st')" "sc_history sc = [MONITORING]"
        by (auto simp: st1_def payment_initial_def)
      then show ?thesis using tr1 by (rule score_decided)
    qed
    with new i tr show ?thesis by simp
  qed
qed

section \<open>A payment is decided once\<close>

record 'b submission =
  sb_call :: agent_call
  sb_uuids :: "string \<times> string"
  sb_event :: NormalizedEvent
  sb_borrower :: "'b option"
  sb_entity_id :: "string option"
  sb_beneficiary_id :: "string option"
  sb_human_override_decision :: "string option"
  sb_tenant_id :: "string option"

definition submit ::
    "('r, 's, 'z, 'u, 'b) pipeline_world \<Rightarrow> 'b submission \<Rightarrow> ('r, 's, 'c, 'z, 'u, 'm) LIPPipeline \<Rightarrow>
     (py_exc + PipelineResult) \<times> ('r, 's, 'c, 'z, 'u, 'm) LIPPipeline" where
  "submit P sb = process P (sb_call sb) (sb_uuids sb) (sb_event sb) (sb_borrower sb) (sb_entity_id sb)
     (sb_beneficiary_id sb) (sb_human_override_decision sb) (sb_tenant_id sb)"

definition submissions ::
    "('r, 's, 'z, 'u, 'b) pipeline_world \<Rightarrow> 'b submission list \<Rightarrow> ('r, 's, 'c, 'z, 'u, 'm) LIPPipeline \<Rightarrow>
     ('r, 's, 'c, 'z, 'u, 'm) LIPPipeline" where
  "submissions P sbs st = fold (\<lambda>sb st. snd (submit P sb st)) sbs st"

abbreviation sb_time :: "'b submission \<Rightarrow> time" where "sb_time sb \<equiv> cl_now (sb_call sb)"

text \<open>The tracker holds a payment since a time.\<close>

definition holding :: "int \<Rightarrow> string \<Rightarrow> time \<Rightarrow> 'u UETRTracker \<Rightarrow> bool" where
  "holding ttl u t0 tr \<longleftrightarrow> tracker_inv tr \<and> tr_ttl tr = ttl \<and> held_since tr u t0"

lemma holding_cleanup:
  "holding ttl u t0 tr \<Longrightarrow> t < t0 + of_int ttl \<Longrightarrow> holding ttl u t0 (maybe_cleanup tr t)"
  by (simp add: holding_def held_cleanup maybe_cleanup_inv)

lemma holding_recorded:
  assumes "holding ttl u t0 tr" "t0 \<le> t" "t < t0 + of_int ttl"
  shows "holding ttl u t0 (snd (record_uetr R tr t u' out c))"
  using held_step [of tr u t0 "OpRecord t u' out c" R] assms by (simp add: holding_def)

lemma submit_holding:
  assumes "holding ttl u t0 (pl_uetr_tracker st)" "t0 \<le> sb_time sb" "sb_time sb < t0 + of_int ttl"
  shows "holding ttl u t0 (pl_uetr_tracker (snd (submit P sb st)))"
proof -
  obtain out st' where s: "submit P sb st = (out, st')" by fastforce
  note clean = holding_cleanup [OF assms(1,3)]
  from process_cases [OF s [unfolded submit_def]] show ?thesis
    using clean holding_recorded [OF clean assms(2,3)] holding_cleanup [OF clean assms(3)]
    by (auto simp: s decided_def split: sum.splits)
qed

lemma submissions_holding:
  assumes "holding ttl u t0 (pl_uetr_tracker st)" "\<forall>sb \<in> set sbs. t0 \<le> sb_time sb \<and> sb_time sb < t0 + of_int ttl"
  shows "holding ttl u t0 (pl_uetr_tracker (submissions P sbs st))"
  using assms by (induction sbs arbitrary: st) (simp_all add: submissions_def submit_holding)

lemma decided_holding:
  assumes "submit P sb st = (Inr r, st')" "pr_outcome r \<noteq> ''RETRY_BLOCKED''" "tracker_inv (pl_uetr_tracker st)"
  shows "holding (tr_ttl (pl_uetr_tracker st)) (ne_uetr (sb_event sb)) (sb_time sb) (pl_uetr_tracker st')"
  using process_cases [OF assms(1) [unfolded submit_def]] assms(2,3)
  by (auto simp: decided_def holding_def record_inv maybe_cleanup_inv held_since_def record_processed dict_simps)

lemma held_is_retry:
  assumes "holding ttl u t0 tr" "t < t0 + of_int ttl" "\<not> redis_raises R tr t"
  shows "fst (is_retry R tr t u c) = Inr True"
proof -
  from holding_cleanup [OF assms(1,2)] obtain out ts where
    "dget (tr_processed (maybe_cleanup tr t)) u = Some (out, ts)" "t0 \<le> ts" "tr_ttl tr = ttl"
    by (auto simp: holding_def held_since_def)
  with assms(2,3) show ?thesis by (auto simp: is_retry_def processed_live_def Let_def split: option.splits)
qed

lemma held_not_new:
  assumes "holding ttl u t0 tr" "t < t0 + of_int ttl"
  shows "fst (is_retry R tr t u c) = (if redis_raises R tr t then Inl OtherException else Inr True)"
proof (cases "redis_raises R tr t")
  case False
  with held_is_retry [OF assms False] show ?thesis by simp
qed (simp add: is_retry_def)

text \<open>The outcomes that decide a payment for good: the funded ones, and the refusals of the gates.\<close>

definition FINAL_OUTCOMES :: "string list" where
  "FINAL_OUTCOMES =
     [''OFFERED'', ''DOMESTIC_LEG_FAILURE'', ''DECLINED'', ''COMPLIANCE_HOLD'', ''DISPUTE_BLOCKED'', ''AML_BLOCKED'']"

text \<open>
  Whatever was returned, but for a blocked retry: a request for human review and a halt too, which the
  tracker records like any other outcome.
\<close>

lemma returned_payment_is_retry:
  assumes "tracker_inv (pl_uetr_tracker st)" "submit P first st = (Inr r, st1)" "pr_outcome r \<noteq> ''RETRY_BLOCKED''"
    and "\<forall>sb \<in> set others. sb_time first \<le> sb_time sb \<and> sb_time sb < sb_time first + of_int (tr_ttl (pl_uetr_tracker st))"
    and "ne_uetr (sb_event again) = ne_uetr (sb_event first)"
    and "sb_time again < sb_time first + of_int (tr_ttl (pl_uetr_tracker st))"
  shows "case submit P again (submissions P others st1) of
      (Inr r2, st2) \<Rightarrow> pr_outcome r2 = ''RETRY_BLOCKED'' \<and> pr_loan_offer r2 = None
    | (Inl e, st2) \<Rightarrow> redis_raises (pw_tracker_redis P) (pl_uetr_tracker (submissions P others st1)) (sb_time again)"
proof -
  let ?tr = "pl_uetr_tracker (submissions P others st1)"
  have "holding (tr_ttl (pl_uetr_tracker st)) (ne_uetr (sb_event first)) (sb_time first) ?tr"
    by (rule submissions_holding [OF decided_holding [OF assms(2,3,1)] assms(4)])
  from held_not_new [OF this assms(6)] assms(5)
  have retry: "fst (is_retry (pw_tracker_redis P) ?tr (sb_time again) (ne_uetr (sb_event again))
        (retry_context (sb_event again)))
      = (if redis_raises (pw_tracker_redis P) ?tr (sb_time again) then Inl OtherException else Inr True)" by simp
  obtain out st2 where s: "submit P again (submissions P others st1) = (out, st2)" by fastforce
  from process_cases [OF s [unfolded submit_def]] retry show ?thesis
    by (auto simp: s decided_def well_formed_result_def OFFER_OUTCOMES_def split: if_splits sum.splits)
qed

text \<open>
  C2: A payment is decided at most once.  Once the pipeline has returned a decision for a UETR (an
  offer, a decline, a compliance hold, a dispute block or an AML block), then whatever other payments are
  processed within the tracker's time to live, the same UETR sent again never gets a second decision, for any bank,
  amount, AML entity and operator decision it is sent with: it comes back as a blocked retry with no offer, or, when the
  tracker's Redis server does not answer at that moment, the call raises.  The other calls may be
  retries, offers and calls that raise, and the server may fail during any of them.
\<close>

theorem payment_decided_once:
  assumes "tracker_inv (pl_uetr_tracker st)" "submit P first st = (Inr r, st1)" "pr_outcome r \<in> set FINAL_OUTCOMES"
    and "\<forall>sb \<in> set others. sb_time first \<le> sb_time sb \<and> sb_time sb < sb_time first + of_int (tr_ttl (pl_uetr_tracker st))"
    and "ne_uetr (sb_event again) = ne_uetr (sb_event first)"
    and "sb_time again < sb_time first + of_int (tr_ttl (pl_uetr_tracker st))"
  shows "case submit P again (submissions P others st1) of
      (Inr r2, st2) \<Rightarrow> pr_outcome r2 = ''RETRY_BLOCKED'' \<and> pr_loan_offer r2 = None
    | (Inl e, st2) \<Rightarrow> redis_raises (pw_tracker_redis P) (pl_uetr_tracker (submissions P others st1)) (sb_time again)"
  by (rule returned_payment_is_retry [OF assms(1,2) _ assms(4-6)]) (use assms(3) in \<open>auto simp: FINAL_OUTCOMES_def\<close>)

text \<open>
  C15: Every returned result is one of the thirteen combinations of outcome and payment history, its
  payment state is where the history ends, it is about the payment, and it carries an offer exactly when the
  outcome says so.
\<close>

theorem pipeline_result_well_formed:
  "case submit P sb st of
     (Inl e, st') \<Rightarrow> True
   | (Inr r, st') \<Rightarrow>
       (pr_outcome r, pr_payment_state_history r) \<in> set outcome_histories \<and>
       pr_payment_state r = (if pr_payment_state_history r = [] then None else Some (last (pr_payment_state_history r))) \<and>
       successively (\<lambda>s s'. s' \<in> set (PAYMENT_TRANSITIONS s)) (pr_payment_state_history r) \<and>
       pr_uetr r = ne_uetr (sb_event sb) \<and> (pr_loan_offer r \<noteq> None \<longleftrightarrow> pr_outcome r \<in> set OFFER_OUTCOMES)"
proof -
  obtain out st' where s: "submit P sb st = (out, st')" by fastforce
  have path: "successively (\<lambda>s s'. s' \<in> set (PAYMENT_TRANSITIONS s)) h" if "(oc, h) \<in> set outcome_histories" for oc h
    using that by (auto simp: outcome_histories_def)
  from process_cases [OF s [unfolded submit_def]] show ?thesis
    by (auto simp: s decided_def well_formed_result_def split: sum.splits intro: path)
qed

section \<open>Where an offer comes from\<close>

lemma returned_outcome:
  assumes "record_and_return P now ev c7 parent res st = (Inr r, st')" "pr_uetr res = ne_uetr ev"
  shows "pr_outcome r = pr_outcome res" "pr_loan_offer r = pr_loan_offer res"
    "pr_failure_probability r = pr_failure_probability res" "pr_aml_passed r = pr_aml_passed res"
    "pr_dispute_class r = pr_dispute_class res"
  using assms by - (erule record_and_returnE; simp)+

lemma enriched_outcome:
  "enrich_result now ev c7 parent res st = (res', st') \<Longrightarrow> pr_outcome res' = pr_outcome res"
  by (erule enrichE) simp

text \<open>The agent made the offer of a result, for a payment that was scored and passed the gates.\<close>

definition offer_made ::
    "('r, 's, 'z, 'u, 'b) pipeline_world \<Rightarrow> agent_call \<Rightarrow> NormalizedEvent \<Rightarrow> scored \<Rightarrow> ('r, 's, 'c, 'z, 'u, 'm) LIPPipeline \<Rightarrow>
     PipelineResult \<Rightarrow> bool" where
  "offer_made P call ev sc st r \<longleftrightarrow>
     (\<exists>c2 bps a c7. process_payment (pw_agent P) call (agent_context ev sc c2 bps) (pl_c7 st) = (Inr a, c7) \<and>
        ar_loan_offer a \<noteq> None \<and> pr_loan_offer r = ar_loan_offer a) \<and>
     pr_failure_probability r = sc_failure_probability sc \<and> pr_aml_passed r = Some True \<and>
     pr_dispute_class r = Some (sc_dispute_class sc)"

lemma conclude_decision_offer:
  assumes "conclude_decision P now ev sc c2 bps interval c7 st = (Inr r, st')" "pr_outcome r \<in> set OFFER_OUTCOMES"
    and "ar_status c7 \<in> set AGENT_STATUSES"
  shows "ar_status c7 = ''OFFER'' \<and> pr_loan_offer r = ar_loan_offer c7 \<and>
    pr_failure_probability r = sc_failure_probability sc \<and> pr_aml_passed r = Some True \<and>
    pr_dispute_class r = Some (sc_dispute_class sc)"
proof -
  from assms(3) consider "ar_status c7 = ''COMPLIANCE_HOLD_BLOCKS_BRIDGE''" | "ar_status c7 = ''HALT''"
    | "ar_status c7 = ''PENDING_HUMAN_REVIEW''" | "ar_status c7 \<in> set DECLINE_STATUSES" | "ar_status c7 = ''OFFER''"
    by (auto simp: DECLINE_STATUSES_def)
  then show ?thesis
  proof cases
    case 1
    with assms(1) have "pr_outcome r = ''COMPLIANCE_HOLD''"
      by (simp add: conclude_decision_def Let_def) (drule returned_outcome(1); simp add: result_defs)
    with assms(2) show ?thesis by (simp add: OFFER_OUTCOMES_def)
  next
    case 2
    with assms(1) have "pr_outcome r = ''HALT''"
      by (simp add: conclude_decision_def Let_def) (drule returned_outcome(1); simp add: result_defs)
    with assms(2) show ?thesis by (simp add: OFFER_OUTCOMES_def)
  next
    case 3
    with assms(1) have "pr_outcome r = ''PENDING_HUMAN_REVIEW''"
      by (simp add: conclude_decision_def Let_def) (drule returned_outcome(1); simp add: result_defs)
    with assms(2) show ?thesis by (simp add: OFFER_OUTCOMES_def)
  next
    case 4
    then have "ar_status c7 \<notin> {''COMPLIANCE_HOLD_BLOCKS_BRIDGE'', ''HALT'', ''PENDING_HUMAN_REVIEW''}"
      by (auto simp: DECLINE_STATUSES_def)
    with assms(1) 4 have "pr_outcome r = ''DECLINED''"
      by (simp add: conclude_decision_def Let_def) (drule returned_outcome(1); simp add: result_defs)
    with assms(2) show ?thesis by (simp add: OFFER_OUTCOMES_def)
  next
    case 5
    with assms(1) show ?thesis
      by (simp add: conclude_decision_def Let_def DECLINE_STATUSES_def split: sum.splits)
        (frule returned_outcome(2), simp add: result_defs, frule returned_outcome(3), simp add: result_defs,
         frule returned_outcome(4), simp add: result_defs, drule returned_outcome(5), simp_all add: result_defs)
  qed
qed

lemma decide_offer:
  assumes "decide P call ev borrower pd sc st = (Inr r, st')" "pr_outcome r \<in> set OFFER_OUTCOMES"
  shows "offer_made P call ev sc st r"
proof (cases "pw_c2 P pd borrower")
  case (Inr c2)
  obtain interval bps where ci: "conformal_step P c2 = (interval, bps)" by fastforce
  obtain q c7 where c7: "process_payment (pw_agent P) call (agent_context ev sc c2 bps) (pl_c7 st) = (q, c7)" by fastforce
  show ?thesis
  proof (cases q)
    case (Inl e)
    with assms(1) Inr ci c7 have "pr_outcome r = ''SYSTEM_ERROR''"
      by (simp add: decide_def) (drule returned_outcome(1); simp add: result_defs)
    with assms(2) show ?thesis by (simp add: OFFER_OUTCOMES_def)
  next
    case q: (Inr a)
    from assms(1) Inr ci c7 q
    have "conclude_decision P (cl_now call) ev sc c2 bps interval a (st\<lparr>pl_c7 := c7\<rparr>) = (Inr r, st')"
      by (simp add: decide_def)
    from conclude_decision_offer [OF this assms(2)] agent_answered [OF c7 [unfolded q]]
      agent_offer_status [OF c7 [unfolded q]]
    show ?thesis using c7 q unfolding offer_made_def by auto
  qed
qed (use assms in \<open>simp add: decide_def\<close>)

lemma run_c6_agent: "run_c6 P now uuids ev e b t st = (r, st') \<Longrightarrow> pl_c7 st' = pl_c7 st"
  using run_c6_frame by fastforce

lemma gates_offer:
  assumes "gates P call uuids ev borrower pd sc st = (Inr r, st')" "pr_outcome r \<in> set OFFER_OUTCOMES"
    and h: "sc_history sc = [MONITORING, FAILURE_DETECTED]"
  shows "run_c4 P ev \<notin> set DISPUTE_BLOCK_CLASSES \<and>
    (\<exists>aml c6. fst (run_c6 P (cl_now call) uuids ev (sc_entity_id sc) (sc_beneficiary_id sc) (sc_tenant_id sc) st) = Some aml \<and>
      ar_passed aml \<and> \<not> ar_anomaly_flagged aml) \<and>
    offer_made P call ev (sc\<lparr>sc_dispute_class := run_c4 P ev\<rparr>) st r"
proof -
  obtain c6 st1 where c6: "run_c6 P (cl_now call) uuids ev (sc_entity_id sc) (sc_beneficiary_id sc) (sc_tenant_id sc) st = (c6, st1)"
    by fastforce
  note run = assms(1) [unfolded gates_def Let_def c6 prod.case]
  have no: False if "pr_outcome r \<in> {''AML_CHECK_UNAVAILABLE'', ''DISPUTE_BLOCKED'', ''AML_BLOCKED'', ''PENDING_HUMAN_REVIEW''}"
    using that assms(2) by (auto simp: OFFER_OUTCOMES_def)
  show ?thesis
  proof (cases c6)
    case None
    with run have "pr_outcome r = ''AML_CHECK_UNAVAILABLE''"
      by (simp add: split_def) (drule returned_outcome(1); simp add: result_defs)
    with no show ?thesis by simp
  next
    case (Some aml)
    consider (dispute) "run_c4 P ev \<in> set DISPUTE_BLOCK_CLASSES"
      | (blocked) "run_c4 P ev \<notin> set DISPUTE_BLOCK_CLASSES" "\<not> ar_passed aml"
      | (anomaly) "run_c4 P ev \<notin> set DISPUTE_BLOCK_CLASSES" "ar_passed aml" "ar_anomaly_flagged aml"
      | (pass) "run_c4 P ev \<notin> set DISPUTE_BLOCK_CLASSES" "ar_passed aml" "\<not> ar_anomaly_flagged aml"
      by blast
    then show ?thesis
    proof cases
      case dispute
      with run Some h have "pr_outcome r = ''DISPUTE_BLOCKED''"
        by (simp add: split_def) (drule returned_outcome(1); simp add: result_defs)
      with no show ?thesis by simp
    next
      case blocked
      with run Some h have "pr_outcome r = ''AML_BLOCKED''"
        by (simp add: split_def) (drule returned_outcome(1); simp add: result_defs)
      with no show ?thesis by simp
    next
      case anomaly
      with run Some have "pr_outcome r = ''PENDING_HUMAN_REVIEW''"
        by simp (drule returned_outcome(1); simp add: result_defs)
      with no show ?thesis by simp
    next
      case pass
      with run Some have "decide P call ev borrower pd (sc\<lparr>sc_dispute_class := run_c4 P ev\<rparr>) st1 = (Inr r, st')" by simp
      from decide_offer [OF this assms(2)] run_c6_agent [OF c6] pass Some c6 show ?thesis
        by (simp add: offer_made_def)
    qed
  qed
qed

lemma score_offer:
  assumes "score P call uuids ev borrower sc st = (Inr r, st')" "pr_outcome r \<in> set OFFER_OUTCOMES"
    and h: "sc_history sc = [MONITORING]"
  obtains fp where "pw_c1 P (event_to_payment_dict (pl_corridor_rates st) ev) = Inr fp" "pl_threshold st \<le> fp"
    "gates P call uuids ev borrower (event_to_payment_dict (pl_corridor_rates st) ev)
       (sc\<lparr>sc_failure_probability := fp, sc_history := [MONITORING, FAILURE_DETECTED]\<rparr>) st = (Inr r, st')"
proof (cases "pw_c1 P (event_to_payment_dict (pl_corridor_rates st) ev)")
  case (Inr fp)
  show thesis
  proof (cases "pl_threshold st \<le> fp")
    case True
    with assms(1) Inr h that show thesis by (simp add: score_def Let_def)
  next
    case False
    with assms(1) Inr have "pr_outcome r = ''BELOW_THRESHOLD''"
      by (simp add: score_def Let_def) (drule returned_outcome(1); simp add: result_defs)
    with assms(2) show thesis by (simp add: OFFER_OUTCOMES_def)
  qed
qed (use assms in \<open>simp add: score_def Let_def\<close>)

definition scored_start :: "NormalizedEvent \<Rightarrow> 'b submission \<Rightarrow> string option \<Rightarrow> scored" where
  "scored_start ev sb parent =
     \<lparr> sc_failure_probability = 0, sc_dispute_class = '''', sc_history = [MONITORING],
       sc_entity_id = entity_of ev (sb_entity_id sb),
       sc_beneficiary_id = (case sb_beneficiary_id sb of Some b \<Rightarrow> if b \<noteq> '''' then b else ne_receiving_bic ev
         | None \<Rightarrow> ne_receiving_bic ev),
       sc_tenant_id = sb_tenant_id sb, sc_handoff_parent = parent,
       sc_human_override_decision = sb_human_override_decision sb \<rparr>"

lemma submit_offer:
  assumes "submit P sb st = (Inr r, st')" "pr_outcome r \<in> set OFFER_OUTCOMES"
  obtains parent st1 where
    "fst (is_retry (pw_tracker_redis P) (pl_uetr_tracker st) (sb_time sb) (ne_uetr (sb_event sb))
       (retry_context (sb_event sb))) = Inr False"
    "\<not> (case ne_rejection_code (sb_event sb) of Some c \<Rightarrow> c \<noteq> '''' \<and> is_known_block_code c | None \<Rightarrow> False)"
    "score P (sb_call sb) (sb_uuids sb) (sb_event sb) (sb_borrower sb) (scored_start (sb_event sb) sb parent) st1 = (Inr r, st')"
    "pl_c6 st1 = pl_c6 st" "pl_c7 st1 = pl_c7 st" "pl_threshold st1 = pl_threshold st"
    "pl_corridor_rates st1 = pl_corridor_rates st"
proof -
  obtain retry tr where i: "is_retry (pw_tracker_redis P) (pl_uetr_tracker st) (sb_time sb) (ne_uetr (sb_event sb))
      (retry_context (sb_event sb)) = (retry, tr)" by fastforce
  note run = assms(1) [unfolded submit_def process_def Let_def i prod.case]
  have no: False if "pr_outcome r \<in> {''RETRY_BLOCKED'', ''DISPUTE_BLOCKED''}"
    using that assms(2) by (auto simp: OFFER_OUTCOMES_def)
  have "retry = Inr False"
  proof (rule ccontr)
    assume "retry \<noteq> Inr False"
    with run obtain st2 where "enrich_result (sb_time sb) (sb_event sb) None None
        (bare_result ''RETRY_BLOCKED'' (ne_uetr (sb_event sb)) 0 False) (st\<lparr>pl_uetr_tracker := tr\<rparr>) = (r, st2)"
      by (auto split: sum.splits bool.splits prod.splits)
    from enriched_outcome [OF this] no show False by (simp add: bare_result_def)
  qed
  let ?st = "st\<lparr>pl_uetr_tracker := tr\<rparr>"
  have nb: "\<not> (case ne_rejection_code (sb_event sb) of Some c \<Rightarrow> c \<noteq> '''' \<and> is_known_block_code c | None \<Rightarrow> False)"
  proof
    assume "case ne_rejection_code (sb_event sb) of Some c \<Rightarrow> c \<noteq> '''' \<and> is_known_block_code c | None \<Rightarrow> False"
    note block = this
    obtain eid st2 where l: "log_block P (sb_call sb) (sb_event sb) 0 ''dispute_blocked''
        (note_failure (sb_time sb) (sb_event sb) ?st) = (eid, st2)" by fastforce
    obtain q st3 where rec: "tracker_record P (sb_time sb) (sb_event sb) (ne_uetr (sb_event sb)) ''DISPUTE_BLOCKED'' st2 = (q, st3)"
      by fastforce
    let ?res = "(bare_result ''DISPUTE_BLOCKED'' (ne_uetr (sb_event sb)) 0 False)
        \<lparr>pr_dispute_hard_block := True, pr_aml_passed := Some True, pr_decision_entry_id := eid,
         pr_payment_state := Some DISPUTE_BLOCKED, pr_loan_state := Some LOAN_OFFER_PENDING,
         pr_payment_state_history := [MONITORING, DISPUTE_BLOCKED]\<rparr>"
    obtain res st4 where en: "enrich_result (sb_time sb) (sb_event sb) None
        (handoff_parent_of (sb_time sb) (sb_event sb) ?st) ?res st3 = (res, st4)" by fastforce
    have "r = res"
      using run \<open>retry = Inr False\<close> block l rec en by (cases q) simp_all
    with enriched_outcome [OF en] no show False by (simp add: bare_result_def)
  qed
  show thesis
    by (rule that [of "handoff_parent_of (sb_time sb) (sb_event sb) ?st" "note_failure (sb_time sb) (sb_event sb) ?st"])
      (use run \<open>retry = Inr False\<close> nb i in \<open>simp_all add: scored_start_def note_failure_def payment_initial_def\<close>)
qed

lemma run_c6_cong:
  "pl_c6 st' = pl_c6 st \<Longrightarrow> pl_c7 st' = pl_c7 st \<Longrightarrow>
   fst (run_c6 P now uuids ev e b t st') = fst (run_c6 P now uuids ev e b t st)"
  by (auto simp: run_c6_def split: sum.splits)

text \<open>Without a maturity the projected fee is nothing, and no offer is made.\<close>

lemma quant_0 [simp]: "quant n 0 = 0"
proof -
  have "\<lfloor>1 / 2 :: rat\<rfloor> = 0" by (simp add: floor_unique)
  then show ?thesis by (simp add: quant_def round_half_up_def)
qed

lemma no_maturity_no_offer:
  assumes "economic c t s" "pc_maturity_days c = Some (PNum (of_int d))"
  shows "d \<noteq> 0"
proof
  assume "d = 0"
  from assms(1) obtain fee where "projected_fee c t = Inr fee" "MIN_CASH_FEE_USD \<le> fee"
    by (auto simp: economic_def)
  with assms(2) \<open>d = 0\<close> have "fee = quant 2 (raw_loan_fee (pt_loan_amount t)
      (if of_int (pt_fee_bps t) < compute_tiered_fee_floor (pt_loan_amount t)
       then compute_tiered_fee_floor (pt_loan_amount t) else of_int (pt_fee_bps t)) 0)"
    by (auto simp: projected_fee_def Let_def dest!: compute_loan_fee_Inr)
  then have "fee = 0" by (simp add: raw_loan_fee_def dmul_def ctx_def)
  with \<open>MIN_CASH_FEE_USD \<le> fee\<close> show False by (simp add: MIN_CASH_FEE_USD_def)
qed

text \<open>What the offer of a payment tells of the agent's state, and of the code and amount of the payment.\<close>

lemma agent_offer_facts:
  assumes "process_payment W call (agent_context ev sc c2 bps) c7 = (Inr a, c7')" "ar_loan_offer a \<noteq> None"
  obtains l where "ar_loan_offer a = Some l" "lo_uetr l = ne_uetr ev"
    "lo_loan_amount l = min (ne_amount ev) (ec_max_loan_amount (ea_config c7))"
    "max bps (if lo_maturity_hours l < 48 then 1200 else 300) \<le> lo_fee_bps l"
    "should_halt_new_offers (aw_redis W) (cl_redis_up call) (ea_kill_switch c7) (cl_now call) = Inr False"
    "derive_maturity_days (ne_rejection_code ev) \<noteq> 0"
proof -
  from assms(1) disjI2 [OF assms(2)] obtain t l where
    g: "gates_open W call (agent_context ev sc c2 bps) t c7"
    and b: "offer_for W call (agent_context ev sc c2 bps) t c7 = Inr (Some l)"
    and a: "ar_loan_offer a = Some l"
    by (rule offered_cases) auto
  have terms: "pt_fee_bps t = bps"
    using g by (auto simp: gates_open_def read_terms_def res_bind_Inr_iff agent_context_def)
  have "derive_maturity_days (ne_rejection_code ev) \<noteq> 0"
    by (rule no_maturity_no_offer [of "agent_context ev sc c2 bps" t c7])
      (use g in \<open>simp_all add: gates_open_def agent_context_def\<close>)
  moreover from b have "lo_uetr l = ne_uetr ev \<and> lo_loan_amount l = min (ne_amount ev) (ec_max_loan_amount (ea_config c7)) \<and>
      max bps (if lo_maturity_hours l < 48 then 1200 else 300) \<le> lo_fee_bps l"
    by (rule build_loan_offer_cases) (auto simp: agent_context_def terms)
  moreover have "should_halt_new_offers (aw_redis W) (cl_redis_up call) (ea_kill_switch c7) (cl_now call) = Inr False"
    using g by (simp add: gates_open_def admitted_def)
  ultimately show thesis using that a by blast
qed

lemma matured_code:
  assumes "derive_maturity_days code \<noteq> 0"
  shows "case code of None \<Rightarrow> True | Some c \<Rightarrow> c = '''' \<or> classify_rejection_code c \<in> {Inr CLASS_A, Inr CLASS_B, Inr CLASS_C}"
proof (cases code)
  case (Some c)
  show ?thesis
  proof (cases "classify_rejection_code c")
    case (Inr cls)
    with Some assms show ?thesis by (cases cls) (simp_all add: derive_maturity_days_def split: if_splits)
  qed (use Some assms in \<open>simp add: derive_maturity_days_def split: if_splits\<close>)
qed simp

end
