(* ===== verification/Pipeline_Examples.thy ===== *)
theory Pipeline_Examples
  imports Pipeline_Properties
begin

text \<open>
  A pipeline with a Redis-free tracker, the AML gate and the agent of the earlier examples, and models that answer
  one probability and one price: a payment goes through it to an offer and is not decided again when it is sent a second
  time; one that the anomaly detector flags is held for review, and its re-entry is refused as a retry too.
\<close>

definition sample_event :: NormalizedEvent where
  "sample_event =
     \<lparr> ne_uetr = ''U1'', ne_individual_payment_id = ''P1'', ne_sending_bic = ''DEUTDEFF'', ne_receiving_bic = ''CHASUS33'',
       ne_amount = 1000000, ne_currency = ''USD'', ne_timestamp = 90, ne_rail = ''CBDC_ECNY'', ne_rejection_code = None,
       ne_narrative = None, ne_original_payment_amount_usd = None, ne_debtor_account = None \<rparr>"

definition sample_submission :: "unit submission" where
  "sample_submission =
     \<lparr> sb_call = sample_call, sb_uuids = (''V1'', ''V2''), sb_event = sample_event, sb_borrower = None,
       sb_entity_id = None, sb_beneficiary_id = None, sb_human_override_decision = None, sb_tenant_id = None \<rparr>"

definition sample_c2 :: c2_result where
  "sample_c2 = \<lparr> c2_pd_score = 1 / 20, c2_fee_bps = 300, c2_tier = 1 \<rparr>"

definition sample_pipeline_world :: "(redis_map, string \<Rightarrow> string list, zset_server, redis_map, unit) pipeline_world" where
  "sample_pipeline_world =
     \<lparr> pw_agent = sample_world, pw_zset = zset_example, pw_hash = hash_example, pw_sha256 = (\<lambda>x. x),
       pw_tracker_redis = map_redis, pw_c1 = (\<lambda>_. Inr (1 / 2)), pw_c2 = (\<lambda>_ _. Inr sample_c2),
       pw_c4 = (\<lambda>_ _ _ _ _. Inr ''NOT_DISPUTE''), pw_conformal = None \<rparr>"

definition sample_pipeline :: "(redis_map, string \<Rightarrow> string list, unit, zset_server, redis_map, unit) LIPPipeline" where
  "sample_pipeline =
     \<lparr> pl_c6 = aml_example, pl_c7 = sample_agent, pl_c3 = None, pl_stress_detector = None, pl_notifications = None,
       pl_uetr_tracker = tracker_init UETR_TTL_SECONDS None, pl_threshold = FAILURE_PROBABILITY_THRESHOLD,
       pl_corridor_rates = [], pl_risk_engine = None \<rparr>"

text \<open>The anomaly detector flags the payment; an operator approves it, and it is sent again an hour later.\<close>

definition flagging_pipeline :: "(redis_map, string \<Rightarrow> string list, unit, zset_server, redis_map, unit) LIPPipeline" where
  "flagging_pipeline = sample_pipeline\<lparr>pl_c6 := aml_example\<lparr>am_anomaly := Some (\<lambda>_. Inr True)\<rparr>\<rparr>"

definition approved_submission :: "unit submission" where
  "approved_submission =
     sample_submission\<lparr>sb_call := sample_call\<lparr>cl_now := 3700\<rparr>, sb_human_override_decision := Some ''APPROVE''\<rparr>"

lemma reviewed_payment_is_retry_example:
  "\<exists>r st1 r2 st2. submit sample_pipeline_world sample_submission flagging_pipeline = (Inr r, st1) \<and>
     pr_outcome r = ''PENDING_HUMAN_REVIEW'' \<and>
     submit sample_pipeline_world approved_submission st1 = (Inr r2, st2) \<and> pr_outcome r2 = ''RETRY_BLOCKED''"
proof -
  have "case submit sample_pipeline_world sample_submission flagging_pipeline of
      (Inr r, st1) \<Rightarrow> pr_outcome r = ''PENDING_HUMAN_REVIEW'' | (Inl e, st1) \<Rightarrow> False"
    by code_simp
  then obtain r st1 where run: "submit sample_pipeline_world sample_submission flagging_pipeline = (Inr r, st1)"
    "pr_outcome r = ''PENDING_HUMAN_REVIEW''" by (auto split: prod.splits sum.splits)
  have "pl_uetr_tracker flagging_pipeline = tracker_init UETR_TTL_SECONDS None"
    by (simp add: flagging_pipeline_def sample_pipeline_def)
  then have "case submit sample_pipeline_world approved_submission (submissions sample_pipeline_world [] st1) of
      (Inr r2, st2) \<Rightarrow> pr_outcome r2 = ''RETRY_BLOCKED'' \<and> pr_loan_offer r2 = None
    | (Inl e, st2) \<Rightarrow> redis_raises (pw_tracker_redis sample_pipeline_world)
        (pl_uetr_tracker (submissions sample_pipeline_world [] st1)) (sb_time approved_submission)"
    by (intro returned_payment_is_retry [OF _ run(1)])
      (simp_all add: run(2) approved_submission_def sample_submission_def sample_call_def tracker_init_def
        UETR_TTL_SECONDS_def UETR_TTL_BUFFER_DAYS_def tracker_inv_def)
  moreover have "\<not> redis_raises (pw_tracker_redis sample_pipeline_world) s t" for s t
    by (simp add: redis_raises_def sample_pipeline_world_def map_redis_def split: option.splits)
  ultimately show ?thesis using run by (auto simp: submissions_def split: sum.splits prod.splits)
qed

text \<open>Without the flag it is offered a bridge.\<close>

definition sample_scored :: scored where
  "sample_scored =
     (scored_start sample_event sample_submission None)
       \<lparr>sc_failure_probability := 1 / 2, sc_history := [MONITORING, FAILURE_DETECTED], sc_dispute_class := ''NOT_DISPUTE''\<rparr>"

abbreviation sample_bridge :: PaymentContext where
  "sample_bridge \<equiv> agent_context sample_event sample_scored sample_c2 300"

lemma sample_bridge_fields:
  "pc_uetr sample_bridge = Some ''U1''" "pc_sending_bic sample_bridge = Some ''DEUTDEFF''"
  "pc_failure_probability sample_bridge = Some (PNum (1 / 2))" "pc_pd_score sample_bridge = Some (PNum (1 / 20))"
  "pc_fee_bps sample_bridge = Some (PNum 300)" "pc_loan_amount sample_bridge = Some (PNum 1000000)"
  "pc_original_payment_amount_usd sample_bridge = Some (PNum 1000000)"
  "pc_dispute_class sample_bridge = Some ''NOT_DISPUTE''" "pc_aml_passed sample_bridge = Some (PBool True)"
  "pc_anomaly_flagged sample_bridge = Some (PBool False)" "pc_rejection_code sample_bridge = None"
  "pc_rejection_class sample_bridge = Some ''CLASS_B''" "pc_human_override_decision sample_bridge = None"
  "pc_rail sample_bridge = Some ''CBDC_ECNY''" "pc_currency sample_bridge = Some ''USD''"
  "pc_maturity_days sample_bridge = Some (PNum 7)" "pc_corridor sample_bridge = Some ''USD_USD''" "pc_lgd sample_bridge = None"
  by (simp_all add: agent_context_def sample_event_def sample_scored_def scored_start_def sample_c2_def
      sample_submission_def derive_rejection_class_def derive_maturity_days_def corridor_of_def)

lemma sample_bridge_read: "read_terms sample_bridge = Inr sample_terms"
  by (simp add: read_terms_def sample_bridge_fields sample_terms_def py_trunc_def)

lemma sample_bridge_gates: "gates_open sample_world sample_call sample_bridge sample_terms sample_agent"
proof -
  have "admitted sample_world sample_call sample_bridge sample_agent"
    using sample_gates by (simp add: gates_open_def admitted_def sample_bridge_fields sample_context_def)
  moreover have "enrolled_or_open sample_world sample_call sample_bridge (ec_borrower_registry (ea_config sample_agent))"
    using sample_gates by (simp add: gates_open_def enrolled_or_open_def sample_bridge_fields sample_context_def)
  moreover have "unblocked sample_bridge sample_terms"
    using sample_gates by (simp add: gates_open_def unblocked_def sample_bridge_fields sample_context_def)
  moreover have "reviewed sample_call sample_bridge sample_terms sample_agent"
    by (simp add: reviewed_def sample_agent_def agent_init_def sample_terms_def sample_bridge_fields Let_def)
  moreover have "economic sample_bridge sample_terms sample_agent"
  proof -
    have "projected_fee sample_bridge sample_terms = Inr (57534 / 100)"
      by (simp add: projected_fee_def sample_bridge_fields sample_terms_def compute_tiered_fee_floor_def
          FEE_FLOOR_BPS_def compute_loan_fee_example)
    moreover have u: "py_upper ''CLASS_B'' = ''CLASS_B''" "py_upper ''USD'' = ''USD''" by code_simp+
    moreover have "1 / 10 \<le> pt_failure_prob sample_terms"
      "currency_supported (ea_fx_risk_config sample_agent) sample_bridge"
      "effective_loan_min sample_bridge (ea_min_loan_amount_usd sample_agent) \<le> pt_loan_amount sample_terms"
      by (simp_all add: sample_terms_def sample_agent_def agent_init_def sample_bridge_fields
          currency_supported_def effective_loan_min_def CLASS_MINIMUMS_def u
          MIN_LOAN_AMOUNT_CLASS_A_USD_def MIN_LOAN_AMOUNT_CLASS_B_USD_def MIN_LOAN_AMOUNT_CLASS_C_USD_def Let_def)
    moreover have "MIN_CASH_FEE_USD \<le> 57534 / 100" by (simp add: MIN_CASH_FEE_USD_def)
    ultimately show ?thesis unfolding economic_def by blast
  qed
  ultimately show ?thesis by (simp add: gates_open_def sample_bridge_read)
qed

lemma sample_bridge_offered:
  obtains a c7 where "process_payment sample_world sample_call sample_bridge sample_agent = (Inr a, c7)"
    "ar_status a = ''OFFER''"
proof -
  obtain ov s1 where st: "same_setup sample_agent s1"
    "process_payment sample_world sample_call sample_bridge sample_agent
      = make_offer sample_world sample_call sample_bridge sample_terms ov s1"
    using gates_open_reaches [OF sample_bridge_gates] by blast
  define l where "l = offer_record ''LICENSOR'' 100 (cl_loan_id sample_call) sample_bridge (1 / 20) 1000000 1200 4 7"
  have t: "pt_pd_score sample_terms = 1 / 20" "pt_fee_bps sample_terms = 300"
    "aw_settlement_predictor sample_world = None" "cl_now sample_call = 100"
    "ec_max_loan_amount (ea_config sample_agent) = 10000000" "ea_deployment_phase sample_agent = ''LICENSOR''"
    by (simp_all add: sample_terms_def sample_world_def sample_call_def sample_agent_def agent_init_def Let_def)
  have h: "offer_maturity_hours sample_bridge = Inr 4"
    by (simp add: offer_maturity_hours_def rail_upper_of_def sample_bridge_fields sample_upper RAIL_MATURITY_HOURS_def)
  have "offer_for sample_world sample_call sample_bridge sample_terms sample_agent = Inr (Some l)"
    by (simp add: build_loan_offer_def h sample_bridge_fields t floor_bps_values dynamic_maturity_def l_def dsub_def
        AMOUNT_VALIDATION_TOLERANCE_USD_def Let_def)
  then have o: "offer_for sample_world sample_call sample_bridge sample_terms s1 = Inr (Some l)"
    using st(1) by (simp add: same_setup_def)
  obtain d where d: "fst (route_offer sample_world sample_call l sample_agent) = Inr d"
    using sample_delivers [of l]
    by (auto simp: l_def rail_upper_of_def sample_bridge_fields sample_upper RAIL_MATURITY_HOURS_def)
  obtain q s2 where q: "route_offer sample_world sample_call l s1 = (q, s2)" by fastforce
  then have "q = Inr d" using d route_offer_same [OF st(1)] by (metis fst_conv)
  with that show thesis by (simp add: st(2) make_offer_def o q split_def Let_def)
qed

lemma sample_not_blocked: "\<not> py_upper ''CBDC_ECNY'' \<in> set HANDOFF_RAILS"
  by (simp add: sample_upper HANDOFF_RAILS_def)

lemma sample_retry: "fst (is_retry map_redis (tracker_init UETR_TTL_SECONDS None) 100 ''U1'' (retry_context sample_event)) = Inr False"
  by code_simp

lemma sample_clear:
  obtains aml c6 where
    "aml_check zset_example hash_example (\<lambda>x. x) 100 (''V1'', ''V2'') aml_example ''DEUTDEFF'' 1000000 ''CHASUS33''
       None None (Some 0) (Some 0) None = Inr (aml, c6)" "ar_passed aml" "\<not> ar_anomaly_flagged aml"
proof -
  have "case aml_check zset_example hash_example (\<lambda>x. x) 100 (''V1'', ''V2'') aml_example ''DEUTDEFF'' 1000000 ''CHASUS33''
        None None (Some 0) (Some 0) None of Inr (r, c) \<Rightarrow> ar_passed r \<and> \<not> ar_anomaly_flagged r | Inl e \<Rightarrow> False"
    by code_simp
  with that show thesis by (auto split: sum.splits)
qed

lemma sample_offered:
  obtains r st' where "submit sample_pipeline_world sample_submission sample_pipeline = (Inr r, st')"
    "pr_outcome r = ''OFFERED''"
proof -
  obtain a c7 where c7: "process_payment sample_world sample_call sample_bridge sample_agent = (Inr a, c7)"
    "ar_status a = ''OFFER''" by (rule sample_bridge_offered)
  obtain aml c6 where c6:
    "aml_check zset_example hash_example (\<lambda>x. x) 100 (''V1'', ''V2'') aml_example ''DEUTDEFF'' 1000000 ''CHASUS33''
       None None (Some 0) (Some 0) None = Inr (aml, c6)" "ar_passed aml" "\<not> ar_anomaly_flagged aml"
    by (rule sample_clear)
  obtain tr where tr: "is_retry map_redis (tracker_init UETR_TTL_SECONDS None) 100 ''U1'' (retry_context sample_event) =
      (Inr False, tr)"
    using sample_retry by (metis prod.collapse)
  define st1 where "st1 = sample_pipeline\<lparr>pl_uetr_tracker := tr\<rparr>"
  have e: "ne_uetr sample_event = ''U1''" "ne_rail sample_event = ''CBDC_ECNY''" "ne_rejection_code sample_event = None"
    "cl_now sample_call = 100" "pl_uetr_tracker sample_pipeline = tracker_init UETR_TTL_SECONDS None"
    "ne_amount sample_event = 1000000" "pl_stress_detector sample_pipeline = None"
    by (simp_all add: sample_event_def sample_call_def sample_pipeline_def)
  have caps: "ea_aml_dollar_cap_usd sample_agent = 0" "ea_aml_count_cap sample_agent = 0"
    by (simp_all add: sample_agent_def agent_init_def Let_def)
  define sc where "sc = (scored_start sample_event sample_submission None)
       \<lparr>sc_failure_probability := 1 / 2, sc_history := [MONITORING, FAILURE_DETECTED]\<rparr>"
  have sc: "sc\<lparr>sc_dispute_class := ''NOT_DISPUTE''\<rparr> = sample_scored" by (simp add: sc_def sample_scored_def)
  have submit: "submit sample_pipeline_world sample_submission sample_pipeline =
      gates sample_pipeline_world sample_call (''V1'', ''V2'') sample_event None
        (event_to_payment_dict (pl_corridor_rates st1) sample_event) sc st1"
    using tr sample_not_blocked
    by (simp add: submit_def process_def sample_submission_def e Let_def handoff_parent_of_def note_failure_def
        score_def sample_pipeline_world_def st1_def sample_pipeline_def payment_initial_def advance_def sc_def scored_start_def
        payment_transition_def PAYMENT_TRANSITIONS.simps FAILURE_PROBABILITY_THRESHOLD_def)
  have "run_c6 sample_pipeline_world 100 (''V1'', ''V2'') sample_event (sc_entity_id sc) (sc_beneficiary_id sc) (sc_tenant_id sc) st1
      = (Some aml, st1\<lparr>pl_c6 := c6\<rparr>)"
    using c6(1) by (simp add: run_c6_def sample_pipeline_world_def st1_def sample_pipeline_def caps sc_def scored_start_def
        sample_submission_def entity_of_def sample_event_def)
  moreover have "run_c4 sample_pipeline_world sample_event = ''NOT_DISPUTE''"
    by (simp add: run_c4_def sample_pipeline_world_def)
  moreover have "conformal_step sample_pipeline_world sample_c2 = (None, 300)"
    by (simp add: conformal_step_def sample_pipeline_world_def sample_c2_def)
  moreover have "pl_c7 (st1\<lparr>pl_c6 := c6\<rparr>) = sample_agent" by (simp add: st1_def sample_pipeline_def)
  moreover have "pw_c2 sample_pipeline_world pd b = Inr sample_c2" "pw_agent sample_pipeline_world = sample_world" for pd b
    by (simp_all add: sample_pipeline_world_def)
  ultimately have decided: "submit sample_pipeline_world sample_submission sample_pipeline =
      conclude_decision sample_pipeline_world 100 sample_event sample_scored sample_c2 300 None a
        (st1\<lparr>pl_c6 := c6, pl_c7 := c7\<rparr>)"
    using c6(2,3) c7(1) by (simp add: submit gates_def decide_def e DISPUTE_BLOCK_CLASSES_def Let_def sc)
  obtain q st2 where q: "conclude_decision sample_pipeline_world 100 sample_event sample_scored sample_c2 300 None a
        (st1\<lparr>pl_c6 := c6, pl_c7 := c7\<rparr>) = (q, st2)" by fastforce
  have h: "sc_history sample_scored = [MONITORING, FAILURE_DETECTED]" "sc_handoff_parent sample_scored = None"
    by (simp_all add: sample_scored_def scored_start_def)
  from q c7(2) obtain res st3 where rr: "record_and_return sample_pipeline_world 100 sample_event (Some ''OFFER'') None res st3 = (q, st2)"
    "pr_outcome res = ''OFFERED''" "pr_uetr res = ne_uetr sample_event"
    by (auto simp: conclude_decision_def DECLINE_STATUSES_def h advance_def payment_transition_def priced_result_def
        staged_result_def bare_result_def Let_def)
  moreover have "\<not> redis_raises (pw_tracker_redis sample_pipeline_world) tr t" for tr t
    by (simp add: redis_raises_def sample_pipeline_world_def map_redis_def split: option.splits)
  ultimately obtain r where "q = Inr r" by (auto elim: record_and_returnE)
  moreover from this have "pr_outcome r = ''OFFERED''" using rr(2) returned_outcome(1) [OF rr(1)[unfolded \<open>q = Inr r\<close>] rr(3)] by simp
  ultimately show thesis using that decided q by simp
qed

text \<open>The payment that got the offer is sent again an hour later, with the approval of an operator.\<close>

lemma payment_decided_once_witness:
  "\<exists>r st1 r2 st2. submit sample_pipeline_world sample_submission sample_pipeline = (Inr r, st1) \<and>
     pr_outcome r = ''OFFERED'' \<and>
     submit sample_pipeline_world approved_submission st1 = (Inr r2, st2) \<and> pr_outcome r2 = ''RETRY_BLOCKED''"
proof -
  obtain r st1 where run: "submit sample_pipeline_world sample_submission sample_pipeline = (Inr r, st1)"
    "pr_outcome r = ''OFFERED''" by (rule sample_offered)
  have "pl_uetr_tracker sample_pipeline = tracker_init UETR_TTL_SECONDS None" by (simp add: sample_pipeline_def)
  then have "case submit sample_pipeline_world approved_submission (submissions sample_pipeline_world [] st1) of
      (Inr r2, st2) \<Rightarrow> pr_outcome r2 = ''RETRY_BLOCKED'' \<and> pr_loan_offer r2 = None
    | (Inl e, st2) \<Rightarrow> redis_raises (pw_tracker_redis sample_pipeline_world)
        (pl_uetr_tracker (submissions sample_pipeline_world [] st1)) (sb_time approved_submission)"
    by (intro payment_decided_once [OF _ run(1)])
      (simp_all add: run(2) approved_submission_def sample_submission_def sample_call_def tracker_init_def
        UETR_TTL_SECONDS_def UETR_TTL_BUFFER_DAYS_def tracker_inv_def FINAL_OUTCOMES_def)
  moreover have "\<not> redis_raises (pw_tracker_redis sample_pipeline_world) s t" for s t
    by (simp add: redis_raises_def sample_pipeline_world_def map_redis_def split: option.splits)
  ultimately show ?thesis using run by (auto simp: submissions_def split: sum.splits prod.splits)
qed


end
