(* ===== verification/Py_Month.thy ===== *)
theory Py_Month
  imports Py_Date
begin

text \<open>
  The year and the month of a date and of an aware UTC \<open>datetime\<close>.  Shown: they are the ones whose first
  and last day enclose it, so that two dates of one month are at most thirty days apart.
\<close>

definition year_of :: "date \<Rightarrow> int" where
  "year_of d =
     (let y = 400 * (d - 1) div 146097 + 1
      in if days_before_year (y + 1) < d then y + 1 else if days_before_year y < d then y else y - 1)"

definition month_of :: "date \<Rightarrow> int" where
  "month_of d =
     (case filter (\<lambda>m. d < date (year_of d) (m + 1) 1) [1 .. 11] of [] \<Rightarrow> 12 | m # _ \<Rightarrow> m)"

definition day_of :: "date \<Rightarrow> int" where
  "day_of d = d - date (year_of d) (month_of d) 0"

definition day_of_time :: "time \<Rightarrow> date" where
  "day_of_time t = date 1970 1 1 + \<lfloor>t / 86400\<rfloor>"

definition month_bucket :: "time \<Rightarrow> int \<times> int" where
  "month_bucket t = (year_of (day_of_time t), month_of (day_of_time t))"

lemma div_succ:
  assumes "0 < (n :: int)"
  shows "(k + 1) div n = k div n + (if (k + 1) mod n = 0 then 1 else 0)"
proof -
  have r: "k = n * (k div n) + k mod n" "0 \<le> k mod n" "k mod n < n" using assms by simp_all
  show ?thesis
  proof (cases "k mod n + 1 = n")
    case True
    have "k + 1 = n * (k div n) + (k mod n + 1)" using r(1) by linarith
    then have e: "k + 1 = n * (k div n + 1) + 0" unfolding True by (simp only: distrib_left mult_1_right add_0_right)
    show ?thesis using int_div_pos_eq [OF e] int_mod_pos_eq [OF e] assms by simp
  next
    case False
    have e: "k + 1 = n * (k div n) + (k mod n + 1)" "k mod n + 1 < n" using r False by linarith+
    show ?thesis using int_div_pos_eq [OF e(1)] int_mod_pos_eq [OF e(1)] r e(2) by simp
  qed
qed

lemma leap_step:
  fixes k :: int
  assumes "Q \<Longrightarrow> P" "R \<Longrightarrow> Q"
  shows "(k + 1) * 365 + (a + (if P then 1 else 0)) - (b + (if Q then 1 else 0)) + (c + (if R then 1 else 0)) =
    k * 365 + a - b + c + (if P \<and> (\<not> Q \<or> R) then 366 else 365)"
  using assms by (cases P; cases Q; cases R) simp_all

lemma days_before_next_year:
  "days_before_year (y + 1) = days_before_year y + (if leap_year y then 366 else 365)"
proof -
  define k where "k = y - 1"
  have y: "y = k + 1" by (simp add: k_def)
  have m: "(k + 1) mod 100 = 0 \<Longrightarrow> (k + 1) mod 4 = 0" "(k + 1) mod 400 = 0 \<Longrightarrow> (k + 1) mod 100 = 0"
    using dvd_trans [of 4 100 "k + 1"] dvd_trans [of 100 400 "k + 1"] by (simp_all add: dvd_eq_mod_eq_0)
  have "days_before_year (y + 1) = (k + 1) * 365 + (k + 1) div 4 - (k + 1) div 100 + (k + 1) div 400"
    "days_before_year y = k * 365 + k div 4 - k div 100 + k div 400"
    unfolding days_before_year_def Let_def y by (simp_all only: add_diff_cancel_right')
  moreover have "(k + 1) div 4 = k div 4 + (if (k + 1) mod 4 = 0 then 1 else 0)"
    "(k + 1) div 100 = k div 100 + (if (k + 1) mod 100 = 0 then 1 else 0)"
    "(k + 1) div 400 = k div 400 + (if (k + 1) mod 400 = 0 then 1 else 0)"
    by (rule div_succ, simp only: zero_less_numeral)+
  moreover have "leap_year y \<longleftrightarrow> (k + 1) mod 4 = 0 \<and> ((k + 1) mod 100 \<noteq> 0 \<or> (k + 1) mod 400 = 0)"
    by (simp only: leap_year_def y)
  ultimately show ?thesis using m by (simp only: leap_step)
qed

lemma days_before_year_approx:
  "400 * days_before_year (k + 1) \<le> 146097 * k + 396 \<and> 146097 * k - 699 \<le> 400 * days_before_year (k + 1)"
proof -
  define a b c where "a = k div 4" and "b = k div 100" and "c = k div 400"
  have "4 * a \<le> k" "k < 4 * a + 4" "100 * b \<le> k" "k < 100 * b + 100" "400 * c \<le> k" "k < 400 * c + 400"
    unfolding a_def b_def c_def by presburger+
  moreover have "days_before_year (k + 1) = k * 365 + a - b + c"
    by (simp add: days_before_year_def a_def b_def c_def Let_def)
  ultimately show ?thesis by linarith
qed

lemma year_of_bounds: "days_before_year (year_of d) < d \<and> d \<le> days_before_year (year_of d + 1)"
proof -
  define q where "q = 400 * (d - 1) div 146097"
  have q: "146097 * q \<le> 400 * (d - 1)" "400 * (d - 1) < 146097 * q + 146097"
    using mult_div_mod_eq [of 146097 "400 * (d - 1)"] pos_mod_sign [of 146097 "400 * (d - 1)"]
      pos_mod_bound [of 146097 "400 * (d - 1)"] unfolding q_def [symmetric] by linarith+
  have "400 * days_before_year q \<le> 146097 * (q - 1) + 396" using days_before_year_approx [of "q - 1"] by simp
  then have lo: "days_before_year q < d" using q(1) by simp
  have "146097 * (q + 2) - 699 \<le> 400 * days_before_year (q + 2 + 1)" using days_before_year_approx by blast
  then have hi: "d \<le> days_before_year (q + 2 + 1)" using q(2) by simp
  have y: "year_of d = (if days_before_year (q + 1 + 1) < d then q + 1 + 1 else if days_before_year (q + 1) < d then q + 1 else q + 1 - 1)"
    unfolding year_of_def Let_def q_def [symmetric] by (rule refl)
  have e: "q + 1 + 1 = q + 2" "q + 1 - 1 = q" by simp_all
  show ?thesis
    using lo hi unfolding y e by (simp only: not_less split: if_split) (auto simp only: not_less e)
qed

lemma upto_11: "[1 .. 11 :: int] = [1, 2, 3, 4, 5, 6, 7, 8, 9, 10, 11]"
  by (simp add: upto.simps)

lemma month_cases: "m \<in> {1 .. 11 :: int} \<Longrightarrow> m \<in> {1, 2, 3, 4, 5, 6, 7, 8, 9, 10, 11}"
  unfolding atLeastAtMost_iff insert_iff empty_iff by presburger

lemma month_start_next:
  "m \<in> {1 .. 11} \<Longrightarrow> date y (m + 1) 1 = date y m 1 + days_in_month y m"
  "date (y + 1) 1 1 = date y 12 1 + days_in_month y 12"
proof -
  show "m \<in> {1 .. 11} \<Longrightarrow> date y (m + 1) 1 = date y m 1 + days_in_month y m"
    by (drule month_cases, elim insertE emptyE; simp add: date_def days_before_month_def days_in_month_def)
  show "date (y + 1) 1 1 = date y 12 1 + days_in_month y 12"
    by (simp add: date_def days_before_month_def days_in_month_def days_before_next_year)
qed

lemma month_of_bounds:
  "month_of d \<in> {1 .. 12} \<and> date (year_of d) (month_of d) 1 \<le> d \<and>
   d < date (year_of d) (month_of d) 1 + days_in_month (year_of d) (month_of d)"
proof -
  let ?y = "year_of d"
  have first: "date ?y 1 1 \<le> d" and last: "d < date (?y + 1) 1 1"
    using year_of_bounds [of d] by (simp_all add: date_def days_before_month_def)
  define ms where "ms = filter (\<lambda>m. d < date ?y (m + 1) 1) [1 .. 11]"
  show ?thesis
  proof (cases ms)
    case Nil
    then have "\<forall>m \<in> {1 .. 11}. date ?y (m + 1) 1 \<le> d" by (auto simp: ms_def filter_empty_conv not_less)
    then have "date ?y 12 1 \<le> d" by (auto dest: bspec [of _ _ 11])
    moreover have "month_of d = 12" using Nil by (simp add: month_of_def ms_def)
    ultimately show ?thesis using last month_start_next(2) [of ?y] by simp
  next
    case (Cons m rest)
    then have m: "month_of d = m" by (simp add: month_of_def ms_def)
    from Cons obtain us vs where split: "[1 .. 11] = us @ m # vs" "d < date ?y (m + 1) 1"
      "\<forall>u \<in> set us. \<not> d < date ?y (u + 1) 1"
      unfolding ms_def filter_eq_Cons_iff by blast
    have range: "m \<in> {1 .. 11}" using split(1) by (metis in_set_conv_decomp set_upto)
    have "date ?y m 1 \<le> d"
    proof (cases "m = 1")
      case False
      with range have "m - 1 \<in> set us"
      proof -
        have "sorted [1 .. 11 :: int]" "distinct [1 .. 11 :: int]" by simp_all
        then have "\<forall>v \<in> set vs. m < v" unfolding split(1) by (auto simp: sorted_append less_le)
        moreover have "m - 1 \<in> set [1 .. 11]" using range False by simp
        then have "m - 1 \<in> set us \<union> {m} \<union> set vs" unfolding split(1) by auto
        ultimately show ?thesis by auto
      qed
      with split(3) show ?thesis by (auto dest: bspec [of _ _ "m - 1"])
    qed (use first in simp)
    with m range split(2) month_start_next(1) [OF range, of ?y] show ?thesis by simp
  qed
qed

lemma same_month_close:
  assumes "(year_of d, month_of d) = (year_of e, month_of e)"
  shows "\<bar>d - e\<bar> \<le> 30"
proof -
  have "days_in_month y m \<le> 31" for y m by (simp add: days_in_month_def)
  then show ?thesis using month_of_bounds [of d] month_of_bounds [of e] assms by (smt (verit) prod.inject)
qed

lemma same_bucket_close:
  assumes "month_bucket s = month_bucket t" "s \<le> t"
  shows "t < s + 31 * 86400"
proof -
  have "\<bar>day_of_time t - day_of_time s\<bar> \<le> 30"
    using same_month_close assms(1) by (simp add: month_bucket_def)
  then have "\<lfloor>t / 86400\<rfloor> \<le> \<lfloor>s / 86400\<rfloor> + 30" by (simp add: day_of_time_def)
  moreover have "of_int \<lfloor>s / 86400\<rfloor> \<le> s / 86400" "t / 86400 < of_int \<lfloor>t / 86400\<rfloor> + 1" by linarith+
  ultimately have "t / 86400 < s / 86400 + 31" by linarith
  then show ?thesis by (simp add: field_simps)
qed

text \<open>29 February 2024, and the first Saturday of August 2026.\<close>

lemma calendar_examples:
  "(year_of (date 2024 2 29), month_of (date 2024 2 29), day_of (date 2024 2 29)) = (2024, 2, 29)"
  "(year_of (date 2026 8 1), month_of (date 2026 8 1), weekday (date 2026 8 1)) = (2026, 8, 5)"
  "month_bucket 0 = (1970, 1)"
  by code_simp+

section \<open>Text\<close>

text \<open>\<open>str\<close> of a number, and \<open>strftime("%Y-%m")\<close>.\<close>

definition digit_char :: "nat \<Rightarrow> char" where
  "digit_char n = char_of (48 + n)"

fun nat_text :: "nat \<Rightarrow> string" where
  "nat_text n = (if n < 10 then [digit_char n] else nat_text (n div 10) @ [digit_char (n mod 10)])"

declare nat_text.simps [simp del]

definition two_digits :: "int \<Rightarrow> string" where
  "two_digits m = [digit_char (nat (m div 10)), digit_char (nat (m mod 10))]"

definition month_text :: "time \<Rightarrow> string" where
  "month_text t = nat_text (nat (fst (month_bucket t))) @ ''-'' @ two_digits (snd (month_bucket t))"

lemma of_char_digit [simp]: "n < 208 \<Longrightarrow> (of_char (digit_char n) :: nat) = 48 + n"
  unfolding digit_char_def of_char_of by (rule mod_less) linarith

lemma digit_char_inj:
  assumes "m < 10" "n < 10"
  shows "digit_char m = digit_char n \<longleftrightarrow> m = n"
proof
  assume "digit_char m = digit_char n"
  then have "(of_char (digit_char m) :: nat) = of_char (digit_char n)" by simp
  with assms show "m = n" by simp
qed simp

lemma nat_text_nonempty [simp]: "nat_text n \<noteq> []" "[] \<noteq> nat_text n"
  by (subst nat_text.simps, simp)+

lemma nat_text_inj: "nat_text m = nat_text n \<Longrightarrow> m = n"
proof (induction m arbitrary: n rule: nat_text.induct)
  case (1 m)
  show ?case
  proof (cases "m < 10"; cases "n < 10")
    assume "m < 10" "n < 10"
    with "1.prems" show ?thesis by (simp add: nat_text.simps [of m] nat_text.simps [of n] digit_char_inj)
  next
    assume "m < 10" "\<not> n < 10"
    with "1.prems" show ?thesis by (simp add: nat_text.simps [of m] nat_text.simps [of n])
  next
    assume "\<not> m < 10" "n < 10"
    with "1.prems" show ?thesis by (simp add: nat_text.simps [of m] nat_text.simps [of n])
  next
    assume big: "\<not> m < 10" "\<not> n < 10"
    with "1.prems" have "nat_text (m div 10) = nat_text (n div 10)" "m mod 10 = n mod 10"
      by (simp_all add: nat_text.simps [of m] nat_text.simps [of n] digit_char_inj)
    with "1.IH" [OF big(1)] show ?thesis by (metis div_mult_mod_eq)
  qed
qed

lemma two_digits_inj:
  assumes "two_digits m = two_digits n" "0 \<le> m" "m < 100" "0 \<le> n" "n < 100"
  shows "m = n"
proof -
  have "nat (m div 10) < 10" "nat (n div 10) < 10" "nat (m mod 10) < 10" "nat (n mod 10) < 10"
    using assms(2-5) by (simp_all add: nat_less_iff)
  with assms(1) have "nat (m div 10) = nat (n div 10)" "nat (m mod 10) = nat (n mod 10)"
    by (simp_all add: two_digits_def digit_char_inj)
  then have "m div 10 = n div 10" "m mod 10 = n mod 10"
    using assms(2,4) by (simp_all add: eq_nat_nat_iff pos_imp_zdiv_nonneg_iff)
  then show ?thesis by (metis div_mult_mod_eq)
qed

lemma year_of_pos: "1 \<le> d \<Longrightarrow> 0 \<le> year_of d"
  using year_of_bounds [of d] days_before_year_approx [of "year_of d"] by simp

lemma month_text_inj:
  assumes "month_text s = month_text t" "0 \<le> s" "0 \<le> t"
  shows "month_bucket s = month_bucket t"
proof -
  have pos: "1 \<le> day_of_time x" if "0 \<le> x" for x
    using that by (simp add: day_of_time_def date_def days_before_year_def days_before_month_def leap_year_def)
  obtain y m y' m' where b: "month_bucket s = (y, m)" "month_bucket t = (y', m')" by fastforce
  then have r: "0 \<le> y" "0 \<le> y'" "0 \<le> m" "m < 100" "0 \<le> m'" "m' < 100"
    using year_of_pos pos assms(2,3) month_of_bounds [of "day_of_time s"] month_of_bounds [of "day_of_time t"]
    by (auto simp: month_bucket_def)
  have "nat_text (nat y) = nat_text (nat y')" "two_digits m = two_digits m'"
    using assms(1) b by (simp_all add: month_text_def two_digits_def)
  then have "nat y = nat y'" "m = m'" using nat_text_inj two_digits_inj r(3-6) by blast+
  with r(1,2) show ?thesis by (simp add: b eq_nat_nat_iff)
qed

lemma month_text_colon: "CHR '':'' \<notin> set (month_text t)"
proof -
  have d: "digit_char n \<noteq> CHR '':''" if "n < 10" for n
  proof
    assume "digit_char n = CHR '':''"
    then have "of_char (digit_char n) = (58 :: nat)" by simp
    with that show False by simp
  qed
  have "CHR '':'' \<notin> set (nat_text n)" for n
  proof (induction n rule: nat_text.induct)
    case (1 n)
    then show ?case using d by (subst nat_text.simps) (auto dest: sym)
  qed
  moreover have "1 \<le> month_of (day_of_time t)" "month_of (day_of_time t) \<le> 12" using month_of_bounds [of "day_of_time t"] by simp_all
  then have "nat (month_of (day_of_time t) div 10) < 10" "nat (month_of (day_of_time t) mod 10) < 10"
    by (simp_all add: nat_less_iff)
  from d [OF this(1)] d [OF this(2)] have "CHR '':'' \<notin> set (two_digits (month_of (day_of_time t)))"
    by (auto simp: two_digits_def dest: sym)
  ultimately show ?thesis by (auto simp: month_text_def month_bucket_def)
qed

end
