(* ===== verification/Metered_Budget.thy ===== *)
theory Metered_Budget
  imports Py_Base
begin

text \<open>
  Budgets metered by counters.  An operation on a key may run only if one more fits under the largest count and
  its cost under the largest sum; then the store counts both.  The store may lose up to a fraction
  \<open>loss\<close> of the sum when it writes the sum, and forgets a key that was not written for \<open>window\<close> seconds.

  Shown in the locale: over any history of operations in clock order in which the operations on one key
  lie within the window, every operation that ran was within both of its limits, counting all that ran on its
  key before.
\<close>

definition BUDGET_TOLERANCE :: pyfloat where "BUDGET_TOLERANCE = 1 / 10 ^ 12"

datatype budget_error = QueryBudgetExceededError | PrivacyBudgetExceededError

record 'k metered =
  mo_time :: time
  mo_key :: 'k
  mo_max_count :: int
  mo_max_sum :: rat
  mo_cost :: rat

text \<open>How many of the operations that ran were on a key, and their cost.\<close>

definition ran_on :: "'k \<Rightarrow> 'k metered list \<Rightarrow> 'k metered list" where
  "ran_on k xs = filter (\<lambda>x. mo_key x = k) xs"

definition total_cost :: "'k metered list \<Rightarrow> rat" where
  "total_cost xs = sum_list (map mo_cost xs)"

lemma ran_on_append [simp]: "ran_on k (xs @ ys) = ran_on k xs @ ran_on k ys"
  by (simp add: ran_on_def)

lemma ran_on_single [simp]: "ran_on k [x] = (if mo_key x = k then [x] else [])"
  by (simp add: ran_on_def)

lemma total_cost_simps [simp]: "total_cost [] = 0" "total_cost (xs @ ys) = total_cost xs + total_cost ys"
  "total_cost [x] = mo_cost x"
  by (simp_all add: total_cost_def)

definition within_budgets :: "rat \<Rightarrow> 'k metered list \<Rightarrow> bool" where
  "within_budgets loss acc \<longleftrightarrow>
     (\<forall>xs x ys. acc = xs @ x # ys \<longrightarrow>
        int (length (ran_on (mo_key x) xs)) + 1 \<le> mo_max_count x \<and>
        (1 - loss) ^ length (ran_on (mo_key x) xs) * (total_cost (ran_on (mo_key x) xs) + mo_cost x)
          \<le> mo_max_sum x + BUDGET_TOLERANCE)"

lemma within_budgets_Nil [simp]: "within_budgets loss []"
  by (simp add: within_budgets_def)

lemma within_budgets_snoc:
  assumes "within_budgets loss acc" "int (length (ran_on (mo_key x) acc)) + 1 \<le> mo_max_count x"
    "(1 - loss) ^ length (ran_on (mo_key x) acc) * (total_cost (ran_on (mo_key x) acc) + mo_cost x)
       \<le> mo_max_sum x + BUDGET_TOLERANCE"
  shows "within_budgets loss (acc @ [x])"
  unfolding within_budgets_def
proof (intro allI impI)
  fix xs y ys assume split: "acc @ [x] = xs @ y # ys"
  show "int (length (ran_on (mo_key y) xs)) + 1 \<le> mo_max_count y \<and>
      (1 - loss) ^ length (ran_on (mo_key y) xs) * (total_cost (ran_on (mo_key y) xs) + mo_cost y)
        \<le> mo_max_sum y + BUDGET_TOLERANCE"
  proof (cases ys rule: rev_cases)
    case Nil
    with split assms(2,3) show ?thesis by simp
  next
    case (snoc zs z)
    with split have "acc = xs @ y # zs" by simp
    with assms(1) show ?thesis unfolding within_budgets_def by blast
  qed
qed

text \<open>An operation, and the operations that ran so far.\<close>

definition metered_run :: "('o \<Rightarrow> 's \<Rightarrow> ('e + 'v) \<times> 's) \<Rightarrow> 'o \<Rightarrow> 's \<times> 'o list \<Rightarrow> 's \<times> 'o list" where
  "metered_run step op st =
     (case step op (fst st) of (r, s') \<Rightarrow> (s', case r of Inr _ \<Rightarrow> snd st @ [op] | Inl _ \<Rightarrow> snd st))"

locale metered_budget =
  fixes meter :: "'o \<Rightarrow> 'k metered"
    and step :: "'o \<Rightarrow> 's \<Rightarrow> ('e + 'v) \<times> 's"
    and count_of :: "'s \<Rightarrow> time \<Rightarrow> 'k \<Rightarrow> int"
    and sum_of :: "'s \<Rightarrow> time \<Rightarrow> 'k \<Rightarrow> rat"
    and good_key :: "'k \<Rightarrow> bool"
    and window :: rat
    and loss :: rat
  assumes loss_range: "0 \<le> loss" "loss \<le> 1"
    and ran_fits: "step op s = (Inr v, s') \<Longrightarrow> meter op = x \<Longrightarrow>
      count_of s (mo_time x) (mo_key x) + 1 \<le> mo_max_count x \<and>
      sum_of s (mo_time x) (mo_key x) + mo_cost x \<le> mo_max_sum x + BUDGET_TOLERANCE"
    and ran_counted: "step op s = (Inr v, s') \<Longrightarrow> meter op = x \<Longrightarrow> good_key (mo_key x) \<Longrightarrow> 0 \<le> mo_cost x \<Longrightarrow>
      0 \<le> sum_of s (mo_time x) (mo_key x) \<Longrightarrow> mo_time x \<le> t \<Longrightarrow> t < mo_time x + window \<Longrightarrow>
      count_of s' t (mo_key x) = count_of s (mo_time x) (mo_key x) + 1 \<and>
      (1 - loss) * (sum_of s (mo_time x) (mo_key x) + mo_cost x) \<le> sum_of s' t (mo_key x)"
    and refused_frame: "step op s = (Inl e, s') \<Longrightarrow> s' = s"
    and other_frame: "step op s = (r, s') \<Longrightarrow> meter op = x \<Longrightarrow> mo_time x \<le> t \<Longrightarrow> good_key (mo_key x) \<Longrightarrow> good_key k \<Longrightarrow>
      k \<noteq> mo_key x \<Longrightarrow> count_of s' t k = count_of s t k \<and> sum_of s' t k = sum_of s t k"
begin

text \<open>The counters hold what ran, as long as nothing on the key has left the window.\<close>

definition counted :: "time \<Rightarrow> 's \<Rightarrow> 'k metered list \<Rightarrow> bool" where
  "counted now s acc \<longleftrightarrow>
     (\<forall>k t. good_key k \<longrightarrow> now \<le> t \<longrightarrow> (\<forall>x \<in> set (ran_on k acc). t < mo_time x + window) \<longrightarrow>
        count_of s t k = int (length (ran_on k acc)) \<and> 0 \<le> total_cost (ran_on k acc) \<and>
        (1 - loss) ^ length (ran_on k acc) * total_cost (ran_on k acc) \<le> sum_of s t k)"

lemma counted_later: "counted now s acc \<Longrightarrow> now \<le> t \<Longrightarrow> counted t s acc"
  unfolding counted_def by force

lemma run_step:
  assumes c: "counted (mo_time x) s acc" and b: "within_budgets loss acc"
    and k: "good_key (mo_key x)" "0 \<le> mo_cost x"
    and w: "\<forall>y \<in> set (ran_on (mo_key x) acc). mo_time y \<le> mo_time x \<and> mo_time x < mo_time y + window"
    and m: "meter op = x" "map meter ops = acc" and r: "metered_run step op (s, ops) = (s', ops')"
  shows "counted (mo_time x) s' (map meter ops') \<and> within_budgets loss (map meter ops')"
proof -
  let ?k = "mo_key x" and ?n = "length (ran_on (mo_key x) acc)" and ?S = "total_cost (ran_on (mo_key x) acc)"
  let ?u = "sum_of s (mo_time x) (mo_key x)"
  have here: "count_of s (mo_time x) ?k = int ?n" "0 \<le> ?S" "(1 - loss) ^ ?n * ?S \<le> ?u"
    using c k(1) w unfolding counted_def by auto
  have p: "0 \<le> (1 - loss) ^ m" "(1 - loss) ^ m \<le> 1" for m
    using loss_range by (simp_all add: power_le_one)
  show ?thesis
  proof (cases "step op s")
    case (Pair res s1)
    show ?thesis
    proof (cases res)
      case (Inl e)
      with Pair r have "s' = s1" "ops' = ops" by (simp_all add: metered_run_def)
      with b refused_frame [OF Pair [unfolded Inl]] c m(2) show ?thesis by simp
    next
      case (Inr v)
      define acc' where "acc' = acc @ [x]"
      with Inr Pair r m have s': "s' = s1" "acc' = acc @ [x]" "map meter ops' = acc'" by (auto simp: metered_run_def)
      note step = Pair [unfolded Inr]
      have u0: "0 \<le> ?u" using here(2,3) p(1) [of ?n] by (smt (verit) mult_nonneg_nonneg order_trans)
      have scaled: "(1 - loss) ^ ?n * (?S + mo_cost x) \<le> ?u + mo_cost x"
        using here(3) mult_right_mono [OF p(2) [of ?n] k(2)] by (simp add: distrib_left)
      have "within_budgets loss acc'"
        unfolding s'(2) using ran_fits [OF step m(1)] here(1) scaled b by (intro within_budgets_snoc) auto
      moreover have "counted (mo_time x) s' acc'"
        unfolding counted_def
      proof (intro allI impI)
        fix k t assume g: "good_key k" "mo_time x \<le> t" "\<forall>y \<in> set (ran_on k acc'). t < mo_time y + window"
        show "count_of s' t k = int (length (ran_on k acc')) \<and> 0 \<le> total_cost (ran_on k acc') \<and>
            (1 - loss) ^ length (ran_on k acc') * total_cost (ran_on k acc') \<le> sum_of s' t k"
        proof (cases "k = ?k")
          case True
          with g(3) have "t < mo_time x + window" by (simp add: s'(2))
          from ran_counted [OF step m(1) k u0 g(2) this] here(1)
          have "count_of s' t ?k = int ?n + 1" "(1 - loss) * (?u + mo_cost x) \<le> sum_of s' t ?k"
            by (simp_all add: s'(1))
          moreover have "(1 - loss) ^ Suc ?n * (?S + mo_cost x) \<le> (1 - loss) * (?u + mo_cost x)"
            using mult_left_mono [OF scaled, of "1 - loss"] loss_range by (simp add: mult.assoc)
          ultimately show ?thesis using True here(2) k(2) by (simp add: s'(2))
        next
          case False
          with c g show ?thesis
            using other_frame [OF step m(1) g(2) k(1) g(1) False] unfolding counted_def s' by auto
        qed
      qed
      ultimately show ?thesis by (simp add: s'(3))
    qed
  qed
qed

lemma budgets_hold:
  assumes "\<And>t k. count_of s t k = 0 \<and> sum_of s t k = 0"
    and "sorted (map (mo_time \<circ> meter) ops)" "\<forall>op \<in> set ops. good_key (mo_key (meter op)) \<and> 0 \<le> mo_cost (meter op)"
    and close: "\<forall>x \<in> set ops. \<forall>y \<in> set ops. mo_key (meter x) = mo_key (meter y) \<longrightarrow>
      mo_time (meter y) < mo_time (meter x) + window"
  shows "within_budgets loss (map meter (snd (fold (metered_run step) ops (s, []))))"
proof -
  let ?st = "\<lambda>ops. fold (metered_run step) ops (s, [])"
  have "(\<forall>t. (\<forall>op \<in> set ops. mo_time (meter op) \<le> t) \<longrightarrow> counted t (fst (?st ops)) (map meter (snd (?st ops)))) \<and>
      within_budgets loss (map meter (snd (?st ops))) \<and> set (snd (?st ops)) \<subseteq> set ops"
    using assms(2-)
  proof (induction ops rule: rev_induct)
    case Nil
    show ?case using assms(1) by (simp add: counted_def ran_on_def)
  next
    case (snoc op ops)
    define x where "x = meter op"
    obtain s1 done1 where f: "?st ops = (s1, done1)" by fastforce
    obtain s2 done2 where r: "metered_run step op (s1, done1) = (s2, done2)" by fastforce
    have IH: "\<And>t. \<forall>op \<in> set ops. mo_time (meter op) \<le> t \<Longrightarrow> counted t s1 (map meter done1)"
      "within_budgets loss (map meter done1)" "set done1 \<subseteq> set ops"
      using snoc f by (auto simp: sorted_append)
    have before: "\<forall>y \<in> set ops. mo_time (meter y) \<le> mo_time x" using snoc.prems(1) by (auto simp: sorted_append x_def)
    have sub: "set done2 \<subseteq> insert op (set ops)"
      using IH(3) r by (auto simp: metered_run_def split: prod.splits sum.splits)
    have win: "\<forall>y \<in> set (ran_on (mo_key x) (map meter done1)). mo_time y \<le> mo_time x \<and> mo_time x < mo_time y + window"
      using before IH(3) snoc.prems(3) by (auto simp: ran_on_def x_def)
    have xg: "good_key (mo_key x)" "0 \<le> mo_cost x" using snoc.prems(2) by (auto simp: x_def)
    from run_step [OF IH(1) [OF before] IH(2) xg win _ refl r] x_def
    have "counted (mo_time x) s2 (map meter done2) \<and> within_budgets loss (map meter done2)" by simp
    with sub show ?case using f r by (auto intro: counted_later simp: x_def)
  qed
  then show ?thesis by blast
qed

end

end
