(* ===== verification/Query_Metering.thy ===== *)
theory Query_Metering
  imports Py_Month Py_Value Metered_Budget "HOL-Library.List_Lexorder" "HOL-Library.Char_ord"
begin

text \<open>
  Regulator queries: \<open>lip/c8_license_manager/query_metering.py\<close> and the token of
  \<open>regulator_subscription.py\<close>.  A query is billed and counted against the monthly number of queries and the
  monthly privacy budget of the token, in one process or on a Redis server.

  Parameters: HMAC-SHA256 over the canonical JSON, as a function of the key and of the record whose fields
  the JSON holds; the Redis commands of the Lua script and of the readers, as numbers where the code
  converts (\<open>metering_api\<close>, with the documented behaviour as \<open>metering_laws\<close>); the parser of the bearer text
  (base64 and JSON).  The script is one atomic step.  An entry pushed as JSON is read back as it was.

  Shown: over any history of queries, on any number of replicas, every recorded query was within both
  budgets; the usage that is reported is what was recorded; a token is accepted only within its validity and
  under its signature.
\<close>

section \<open>Regulator tokens\<close>

definition REGULATOR_SUBSCRIPTION_TIERS :: "string list" where
  "REGULATOR_SUBSCRIPTION_TIERS = [''STANDARD'', ''QUERY'', ''STRESS_TEST'', ''REALTIME'']"

record RegulatorSubscriptionToken =
  rt_regulator_id :: string
  rt_regulator_name :: string
  rt_subscription_tier :: string
  rt_permitted_corridors :: "string list option"
  rt_query_budget_monthly :: int
  rt_privacy_budget_allocation :: pyfloat
  rt_valid_from :: time
  rt_valid_until :: time
  rt_hmac_signature :: string

text \<open>What is signed: every field but the signature, the corridors sorted.\<close>

definition token_payload :: "RegulatorSubscriptionToken \<Rightarrow> RegulatorSubscriptionToken" where
  "token_payload token =
     token\<lparr>rt_permitted_corridors := map_option sort (rt_permitted_corridors token), rt_hmac_signature := ''''\<rparr>"

definition token_is_active :: "RegulatorSubscriptionToken \<Rightarrow> time \<Rightarrow> bool" where
  "token_is_active token now \<longleftrightarrow> rt_valid_from token \<le> now \<and> now \<le> rt_valid_until token"

definition sign_regulator_token ::
    "(string \<Rightarrow> RegulatorSubscriptionToken \<Rightarrow> string) \<Rightarrow> RegulatorSubscriptionToken \<Rightarrow> string \<Rightarrow> RegulatorSubscriptionToken" where
  "sign_regulator_token hmac token signing_key = token\<lparr>rt_hmac_signature := hmac signing_key (token_payload token)\<rparr>"

definition verify_regulator_token ::
    "(string \<Rightarrow> RegulatorSubscriptionToken \<Rightarrow> string) \<Rightarrow> RegulatorSubscriptionToken \<Rightarrow> string \<Rightarrow> time \<Rightarrow> bool" where
  "verify_regulator_token hmac token signing_key now =
     (if rt_hmac_signature token = '''' then False
      else if rt_hmac_signature token \<noteq> hmac signing_key (token_payload token) then False
      else token_is_active token now)"

text \<open>\<open>str(v)\<close> of a value that is text; \<open>other\<close> is the text of any other value.\<close>

definition py_str :: "(pyval \<Rightarrow> string) \<Rightarrow> pyval \<Rightarrow> string" where
  "py_str other v = (case v of PStr s \<Rightarrow> s | _ \<Rightarrow> other v)"

definition py_elements :: "(pyval \<Rightarrow> string) \<Rightarrow> pyval \<Rightarrow> py_exc + string list" where
  "py_elements other v = res_bind (py_list v) (\<lambda>vs. Inr (map (py_str other) vs))"

definition regulator_token_from_dict ::
    "(pyval \<Rightarrow> string) \<Rightarrow> (string \<Rightarrow> py_exc + time) \<Rightarrow> pyval \<Rightarrow> py_exc + RegulatorSubscriptionToken" where
  "regulator_token_from_dict other fromiso data =
     res_bind (pitem data ''subscription_tier'') (\<lambda>tier_v.
     let tier = py_upper (py_str other tier_v) in
     if tier \<notin> set REGULATOR_SUBSCRIPTION_TIERS then Inl ValueError
     else
     res_bind (pget data ''permitted_corridors'' PNone) (\<lambda>corr.
     res_bind (if corr = PNone then Inr None else res_bind (py_elements other corr) (\<lambda>cs. Inr (Some cs))) (\<lambda>corridors.
     res_bind (pitem data ''regulator_id'') (\<lambda>rid.
     res_bind (pitem data ''regulator_name'') (\<lambda>rname.
     res_bind (res_bind (pitem data ''query_budget_monthly'') py_int) (\<lambda>queries.
     res_bind (res_bind (pitem data ''privacy_budget_allocation'') py_float) (\<lambda>epsilon.
     res_bind (res_bind (pitem data ''valid_from'') (\<lambda>v. fromiso (py_str other v))) (\<lambda>vfrom.
     res_bind (res_bind (pitem data ''valid_until'') (\<lambda>v. fromiso (py_str other v))) (\<lambda>vuntil.
     res_bind (pget data ''hmac_signature'' (PStr '''')) (\<lambda>sig.
       if queries \<le> 0 then Inl ValueError
       else if epsilon \<le> 0 then Inl ValueError
       else if vuntil \<le> vfrom then Inl ValueError
       else Inr \<lparr> rt_regulator_id = py_str other rid, rt_regulator_name = py_str other rname, rt_subscription_tier = tier,
                  rt_permitted_corridors = corridors, rt_query_budget_monthly = queries,
                  rt_privacy_budget_allocation = epsilon, rt_valid_from = vfrom, rt_valid_until = vuntil,
                  rt_hmac_signature = py_str other sig \<rparr>))))))))))"

text \<open>\<open>parse\<close>: base64 and JSON; a failure of either is a \<open>ValueError\<close>.\<close>

definition decode_regulator_token ::
    "(string \<Rightarrow> pyval option) \<Rightarrow> (pyval \<Rightarrow> string) \<Rightarrow> (string \<Rightarrow> py_exc + time) \<Rightarrow> string \<Rightarrow> py_exc + RegulatorSubscriptionToken" where
  "decode_regulator_token parse other fromiso encoded =
     (if encoded = '''' then Inl ValueError
      else case parse encoded of None \<Rightarrow> Inl ValueError | Some data \<Rightarrow> regulator_token_from_dict other fromiso data)"

section \<open>Entries and back ends\<close>

record QueryMeterEntry =
  qe_query_id :: string
  qe_regulator_id :: string
  qe_endpoint :: string
  qe_corridors_queried :: "string list"
  qe_epsilon_consumed :: pyfloat
  qe_response_latency_ms :: int
  qe_timestamp :: time
  qe_billing_amount_usd :: dec
  qe_hmac_signature :: string

type_synonym meter_key = "string \<times> string"  \<comment> \<open>regulator and month\<close>

record memory_backend =
  mb_entries :: "QueryMeterEntry list"
  mb_monthly_queries :: "meter_key \<Rightarrow> int option"
  mb_monthly_epsilon :: "meter_key \<Rightarrow> pyfloat option"

definition memory_backend_init :: memory_backend where
  "memory_backend_init = \<lparr> mb_entries = [], mb_monthly_queries = (\<lambda>_. None), mb_monthly_epsilon = (\<lambda>_. None) \<rparr>"

definition memory_atomic_record ::
    "meter_key \<Rightarrow> int \<Rightarrow> pyfloat \<Rightarrow> pyfloat \<Rightarrow> QueryMeterEntry \<Rightarrow> memory_backend \<Rightarrow>
     (budget_error + int \<times> pyfloat) \<times> memory_backend" where
  "memory_atomic_record key max_queries max_epsilon epsilon_cost entry b =
     (let query_count = value_or 0 (mb_monthly_queries b key);
          epsilon_used = value_or 0 (mb_monthly_epsilon b key)
      in if query_count + 1 > max_queries then (Inl QueryBudgetExceededError, b)
         else
           let epsilon_next = epsilon_used + epsilon_cost
           in if epsilon_next > max_epsilon + BUDGET_TOLERANCE then (Inl PrivacyBudgetExceededError, b)
              else (Inr (query_count + 1, epsilon_next),
                    b\<lparr>mb_entries := mb_entries b @ [entry],
                      mb_monthly_queries := (mb_monthly_queries b)(key \<mapsto> query_count + 1),
                      mb_monthly_epsilon := (mb_monthly_epsilon b)(key \<mapsto> epsilon_next)\<rparr>))"

definition memory_usage :: "memory_backend \<Rightarrow> meter_key \<Rightarrow> int \<times> pyfloat" where
  "memory_usage b key = (value_or 0 (mb_monthly_queries b key), value_or 0 (mb_monthly_epsilon b key))"

definition memory_monthly_entries :: "memory_backend \<Rightarrow> meter_key \<Rightarrow> QueryMeterEntry list" where
  "memory_monthly_entries b key =
     filter (\<lambda>e. qe_regulator_id e = fst key \<and> month_text (qe_timestamp e) = snd key) (mb_entries b)"

text \<open>
  The commands.  \<open>my_get\<close> is the number a \<open>GET\<close> returns; \<open>INCR\<close>, \<open>SET\<close> and \<open>RPUSH\<close> are each followed by
  \<open>EXPIRE\<close>.  Lua's \<open>tostring\<close> keeps 14 significant digits of a number: \<open>my_tostring\<close> is the number it writes.
\<close>

record 'r metering_api =
  my_get :: "'r \<Rightarrow> time \<Rightarrow> string \<Rightarrow> rat option"
  my_incr_expire :: "'r \<Rightarrow> time \<Rightarrow> string \<Rightarrow> int \<Rightarrow> 'r"
  my_set_expire :: "'r \<Rightarrow> time \<Rightarrow> string \<Rightarrow> rat \<Rightarrow> int \<Rightarrow> 'r"
  my_rpush_expire :: "'r \<Rightarrow> time \<Rightarrow> string \<Rightarrow> QueryMeterEntry \<Rightarrow> int \<Rightarrow> 'r"
  my_lrange :: "'r \<Rightarrow> time \<Rightarrow> string \<Rightarrow> QueryMeterEntry list"
  my_tostring :: "rat \<Rightarrow> rat"

definition metering_laws :: "'r metering_api \<Rightarrow> bool" where
  "metering_laws R \<longleftrightarrow>
     (\<forall>r t k n t' k'. t \<le> t' \<longrightarrow> my_get R (my_incr_expire R r t k n) t' k' =
        (if k' = k then (if t' < t + of_int n then Some (value_or 0 (my_get R r t k) + 1) else None) else my_get R r t' k')) \<and>
     (\<forall>r t k v n t' k'. t \<le> t' \<longrightarrow> my_get R (my_set_expire R r t k v n) t' k' =
        (if k' = k then (if t' < t + of_int n then Some v else None) else my_get R r t' k')) \<and>
     (\<forall>r t k x n t' k'. t \<le> t' \<longrightarrow> k' \<noteq> k \<longrightarrow> my_get R (my_rpush_expire R r t k x n) t' k' = my_get R r t' k') \<and>
     (\<forall>r t k x n t' k'. t \<le> t' \<longrightarrow> my_lrange R (my_rpush_expire R r t k x n) t' k' =
        (if k' = k then (if t' < t + of_int n then my_lrange R r t k @ [x] else []) else my_lrange R r t' k')) \<and>
     (\<forall>r t k n t' k'. t \<le> t' \<longrightarrow> k' \<noteq> k \<longrightarrow> my_lrange R (my_incr_expire R r t k n) t' k' = my_lrange R r t' k') \<and>
     (\<forall>r t k v n t' k'. t \<le> t' \<longrightarrow> k' \<noteq> k \<longrightarrow> my_lrange R (my_set_expire R r t k v n) t' k' = my_lrange R r t' k') \<and>
     (\<forall>x. 0 \<le> x \<longrightarrow> \<bar>my_tostring R x - x\<bar> \<le> x / 10 ^ 13)"

definition MONTHLY_TTL_SECONDS :: int where "MONTHLY_TTL_SECONDS = 62 * 24 * 3600"

definition query_key :: "meter_key \<Rightarrow> string" where
  "query_key key = ''lip:c8:metering:q:'' @ fst key @ '':'' @ snd key"
definition epsilon_key :: "meter_key \<Rightarrow> string" where
  "epsilon_key key = ''lip:c8:metering:e:'' @ fst key @ '':'' @ snd key"
definition entries_key :: "meter_key \<Rightarrow> string" where
  "entries_key key = ''lip:c8:metering:entries:'' @ fst key @ '':'' @ snd key"

definition redis_atomic_record ::
    "'r metering_api \<Rightarrow> time \<Rightarrow> meter_key \<Rightarrow> int \<Rightarrow> pyfloat \<Rightarrow> pyfloat \<Rightarrow> QueryMeterEntry \<Rightarrow> 'r \<Rightarrow>
     (budget_error + int \<times> pyfloat) \<times> 'r" where
  "redis_atomic_record R now key max_queries max_epsilon epsilon_cost entry r =
     (let q = value_or 0 (my_get R r now (query_key key));
          e = value_or 0 (my_get R r now (epsilon_key key))
      in if q + 1 > of_int max_queries then (Inl QueryBudgetExceededError, r)
         else
           let e_next = e + epsilon_cost
           in if e_next > max_epsilon + BUDGET_TOLERANCE then (Inl PrivacyBudgetExceededError, r)
              else
                let r = my_incr_expire R r now (query_key key) MONTHLY_TTL_SECONDS;
                    r = my_set_expire R r now (epsilon_key key) (my_tostring R e_next) MONTHLY_TTL_SECONDS;
                    r = my_rpush_expire R r now (entries_key key) entry MONTHLY_TTL_SECONDS
                in (Inr (\<lfloor>q + 1\<rfloor>, my_tostring R e_next), r))"

definition redis_usage :: "'r metering_api \<Rightarrow> time \<Rightarrow> 'r \<Rightarrow> meter_key \<Rightarrow> int \<times> pyfloat" where
  "redis_usage R now r key =
     (\<lfloor>value_or 0 (my_get R r now (query_key key))\<rfloor>, value_or 0 (my_get R r now (epsilon_key key)))"

definition redis_monthly_entries :: "'r metering_api \<Rightarrow> time \<Rightarrow> 'r \<Rightarrow> meter_key \<Rightarrow> QueryMeterEntry list" where
  "redis_monthly_entries R now r key = my_lrange R r now (entries_key key)"

section \<open>The service\<close>

datatype metering_error = MeteringValueError | BudgetError budget_error

record 'r RegulatoryQueryMetering =
  rq_metering_key :: string
  rq_backend :: "memory_backend + 'r"

definition metering_init :: "string \<Rightarrow> bool \<Rightarrow> 'r option \<Rightarrow> py_exc + 'r RegulatoryQueryMetering" where
  "metering_init metering_key single_replica redis_client =
     (if redis_client \<noteq> None \<and> single_replica then Inl ValueError
      else if redis_client = None \<and> \<not> single_replica then Inl ValueError
      else if metering_key = '''' then Inl ValueError
      else Inr \<lparr> rq_metering_key = metering_key,
                 rq_backend = (case redis_client of Some r \<Rightarrow> Inr r | None \<Rightarrow> Inl memory_backend_init) \<rparr>)"

definition meter_usage :: "'r metering_api \<Rightarrow> time \<Rightarrow> 'r RegulatoryQueryMetering \<Rightarrow> string \<Rightarrow> time option \<Rightarrow> int \<times> pyfloat" where
  "meter_usage R now m regulator_id as_of =
     (let key = (regulator_id, month_text (value_or now as_of))
      in case rq_backend m of Inl b \<Rightarrow> memory_usage b key | Inr r \<Rightarrow> redis_usage R now r key)"

definition assert_within_budget ::
    "'r metering_api \<Rightarrow> time \<Rightarrow> 'r RegulatoryQueryMetering \<Rightarrow> RegulatorSubscriptionToken \<Rightarrow> pyfloat \<Rightarrow> time option \<Rightarrow>
     budget_error + unit" where
  "assert_within_budget R now m token epsilon_cost as_of =
     (let (query_count, epsilon_used) = meter_usage R now m (rt_regulator_id token) as_of
      in if query_count + 1 > rt_query_budget_monthly token then Inl QueryBudgetExceededError
         else if epsilon_used + epsilon_cost > rt_privacy_budget_allocation token + BUDGET_TOLERANCE
         then Inl PrivacyBudgetExceededError
         else Inr ())"

definition sign_meter_entry :: "(string \<Rightarrow> QueryMeterEntry \<Rightarrow> string) \<Rightarrow> string \<Rightarrow> QueryMeterEntry \<Rightarrow> string" where
  "sign_meter_entry hmac key entry =
     hmac key (entry\<lparr>qe_corridors_queried := sort (qe_corridors_queried entry), qe_hmac_signature := ''''\<rparr>)"

definition meter_entry ::
    "(string \<Rightarrow> QueryMeterEntry \<Rightarrow> string) \<Rightarrow> string \<Rightarrow> string \<Rightarrow> RegulatorSubscriptionToken \<Rightarrow> string \<Rightarrow> string list \<Rightarrow>
     pyfloat \<Rightarrow> int \<Rightarrow> dec \<Rightarrow> time \<Rightarrow> QueryMeterEntry" where
  "meter_entry hmac metering_key query_id token endpoint corridors epsilon latency billing now =
     (let e = \<lparr> qe_query_id = query_id, qe_regulator_id = rt_regulator_id token, qe_endpoint = endpoint,
                qe_corridors_queried = corridors, qe_epsilon_consumed = epsilon, qe_response_latency_ms = latency,
                qe_timestamp = now, qe_billing_amount_usd = billing, qe_hmac_signature = '''' \<rparr>
      in e\<lparr>qe_hmac_signature := sign_meter_entry hmac metering_key e\<rparr>)"

text \<open>\<open>query_id\<close> is the fresh id \<open>QRY-...\<close>; \<open>now\<close> the clock of process and server.\<close>

definition record_query ::
    "'r metering_api \<Rightarrow> (string \<Rightarrow> QueryMeterEntry \<Rightarrow> string) \<Rightarrow> time \<Rightarrow> string \<Rightarrow> RegulatorSubscriptionToken \<Rightarrow> string \<Rightarrow>
     string list \<Rightarrow> pyfloat \<Rightarrow> int \<Rightarrow> dec \<Rightarrow> time option \<Rightarrow> 'r RegulatoryQueryMetering \<Rightarrow>
     (metering_error + QueryMeterEntry) \<times> 'r RegulatoryQueryMetering" where
  "record_query R hmac now query_id token endpoint corridors epsilon latency billing given m =
     (if latency < 0 then (Inl MeteringValueError, m)
      else
        let stamp = value_or now given;
            key = (rt_regulator_id token, month_text stamp);
            entry = meter_entry hmac (rq_metering_key m) query_id token endpoint corridors epsilon latency billing stamp;
            (r, backend) =
              (case rq_backend m of
                 Inl b \<Rightarrow>
                   let (r, b) = memory_atomic_record key (rt_query_budget_monthly token)
                         (rt_privacy_budget_allocation token) epsilon entry b
                   in (r, Inl b)
               | Inr s \<Rightarrow>
                   let (r, s) = redis_atomic_record R now key (rt_query_budget_monthly token)
                         (rt_privacy_budget_allocation token) epsilon entry s
                   in (r, Inr s))
        in (case r of Inl e \<Rightarrow> Inl (BudgetError e) | Inr _ \<Rightarrow> Inr entry, m\<lparr>rq_backend := backend\<rparr>))"

record billing_summary =
  bs_query_count :: int
  bs_epsilon_consumed :: pyfloat
  bs_total_billing_usd :: dec
  bs_mean_latency_ms :: pyfloat
  bs_p95_latency_ms :: int
  bs_endpoints_breakdown :: "(string, int) dict"
  bs_corridors_queried :: "string list"
  bs_first_query_at :: "time option"
  bs_last_query_at :: "time option"

definition count_in :: "string \<Rightarrow> (string, int) dict \<Rightarrow> (string, int) dict" where
  "count_in k d = dset k (value_or 0 (dget d k) + 1) d"

definition summarize :: "QueryMeterEntry list \<Rightarrow> billing_summary" where
  "summarize matching =
     (let latencies = map qe_response_latency_ms matching;
          n = length latencies
      in \<lparr> bs_query_count = int (length matching),
           bs_epsilon_consumed = sum_list (map qe_epsilon_consumed matching),
           bs_total_billing_usd = foldl dadd 0 (map qe_billing_amount_usd matching),
           bs_mean_latency_ms = (if matching = [] then 0 else of_int (sum_list latencies) / of_nat n),
           bs_p95_latency_ms =
             (if matching = [] then 0 else sort latencies ! min (nat \<lfloor>95 / 100 * (of_nat n :: rat)\<rfloor>) (n - 1)),
           bs_endpoints_breakdown = fold (\<lambda>e. count_in (qe_endpoint e)) matching [],
           bs_corridors_queried = sort (remdups (concat (map qe_corridors_queried matching))),
           bs_first_query_at = (if matching = [] then None else Some (Min (set (map qe_timestamp matching)))),
           bs_last_query_at = (if matching = [] then None else Some (Max (set (map qe_timestamp matching)))) \<rparr>)"

definition get_billing_summary ::
    "'r metering_api \<Rightarrow> time \<Rightarrow> 'r RegulatoryQueryMetering \<Rightarrow> string \<Rightarrow> time option \<Rightarrow> billing_summary" where
  "get_billing_summary R now m regulator_id as_of =
     (let key = (regulator_id, month_text (value_or now as_of))
      in summarize (case rq_backend m of
           Inl b \<Rightarrow> memory_monthly_entries b key | Inr r \<Rightarrow> redis_monthly_entries R now r key))"

section \<open>Tokens\<close>

lemma signed_token_verifies:
  assumes "hmac key (token_payload token) \<noteq> ''''" "token_is_active token now"
  shows "verify_regulator_token hmac (sign_regulator_token hmac token key) key now"
  using assms by (simp add: verify_regulator_token_def sign_regulator_token_def token_payload_def token_is_active_def)

text \<open>An accepted token is active and its content is the one that was signed, if no two contents collide.\<close>

lemma verified_token_signed:
  assumes "verify_regulator_token hmac token key now" "rt_hmac_signature token = hmac key (token_payload issued)"
    and "\<And>a b. hmac key a = hmac key b \<Longrightarrow> a = b"
  shows "token_payload token = token_payload issued \<and> rt_valid_from issued \<le> now \<and> now \<le> rt_valid_until issued"
proof -
  have "hmac key (token_payload token) = hmac key (token_payload issued)" and act: "token_is_active token now"
    using assms(1,2) by (auto simp: verify_regulator_token_def split: if_splits)
  then have same: "token_payload token = token_payload issued" using assms(3) by blast
  then have "rt_valid_from token = rt_valid_from issued" "rt_valid_until token = rt_valid_until issued"
    by (metis (no_types, lifting) RegulatorSubscriptionToken.select_convs RegulatorSubscriptionToken.surjective
        RegulatorSubscriptionToken.update_convs token_payload_def)+
  with same act show ?thesis by (simp add: token_is_active_def)
qed

lemma decoded_token_valid:
  assumes "regulator_token_from_dict other fromiso data = Inr token"
  shows "rt_subscription_tier token \<in> set REGULATOR_SUBSCRIPTION_TIERS \<and> 0 < rt_query_budget_monthly token \<and>
    0 < rt_privacy_budget_allocation token \<and> rt_valid_from token < rt_valid_until token"
  using assms unfolding regulator_token_from_dict_def by (auto simp: res_bind_Inr_iff Let_def split: if_splits)

section \<open>Budgets\<close>

record query_call =
  qc_time :: time
  qc_metering_key :: string
  qc_query_id :: string
  qc_token :: RegulatorSubscriptionToken
  qc_endpoint :: string
  qc_corridors :: "string list"
  qc_epsilon :: pyfloat
  qc_latency :: int
  qc_billing :: dec

definition query_meter :: "query_call \<Rightarrow> meter_key metered" where
  "query_meter q =
     \<lparr> mo_time = qc_time q, mo_key = (rt_regulator_id (qc_token q), month_text (qc_time q)),
       mo_max_count = rt_query_budget_monthly (qc_token q),
       mo_max_sum = rt_privacy_budget_allocation (qc_token q), mo_cost = qc_epsilon q \<rparr>"

definition query_on ::
    "'r metering_api \<Rightarrow> (string \<Rightarrow> QueryMeterEntry \<Rightarrow> string) \<Rightarrow> query_call \<Rightarrow> memory_backend + 'r \<Rightarrow>
     (metering_error + QueryMeterEntry) \<times> (memory_backend + 'r)" where
  "query_on R hmac q backend =
     (let (out, m) = record_query R hmac (qc_time q) (qc_query_id q) (qc_token q) (qc_endpoint q) (qc_corridors q)
           (qc_epsilon q) (qc_latency q) (qc_billing q) None \<lparr> rq_metering_key = qc_metering_key q, rq_backend = backend \<rparr>
      in (out, rq_backend m))"

text \<open>A history of queries: the back end, and the queries that were recorded.\<close>

definition query_history ::
    "'r metering_api \<Rightarrow> (string \<Rightarrow> QueryMeterEntry \<Rightarrow> string) \<Rightarrow> query_call list \<Rightarrow> memory_backend + 'r \<Rightarrow>
     (memory_backend + 'r) \<times> query_call list" where
  "query_history R hmac qs backend =
     fold (\<lambda>q (b, recorded). case query_on R hmac q b of (out, b') \<Rightarrow>
       (b', case out of Inr _ \<Rightarrow> recorded @ [q] | Inl _ \<Rightarrow> recorded)) qs (backend, [])"

definition backend_count :: "'r metering_api \<Rightarrow> memory_backend + 'r \<Rightarrow> time \<Rightarrow> meter_key \<Rightarrow> int" where
  "backend_count R b t k = fst (case b of Inl m \<Rightarrow> memory_usage m k | Inr r \<Rightarrow> redis_usage R t r k)"

definition backend_epsilon :: "'r metering_api \<Rightarrow> memory_backend + 'r \<Rightarrow> time \<Rightarrow> meter_key \<Rightarrow> rat" where
  "backend_epsilon R b t k = snd (case b of Inl m \<Rightarrow> memory_usage m k | Inr r \<Rightarrow> redis_usage R t r k)"

definition good_month :: "meter_key \<Rightarrow> bool" where
  "good_month k \<longleftrightarrow> CHR '':'' \<notin> set (snd k)"

lemma colon_split:
  assumes "CHR '':'' \<notin> set b" "CHR '':'' \<notin> set d" "a @ CHR '':'' # b = c @ CHR '':'' # d"
  shows "a = c \<and> b = d"
proof -
  have first: "takeWhile (\<lambda>x. x \<noteq> CHR '':'') (rev u @ CHR '':'' # v) = rev u" if "CHR '':'' \<notin> set u" for u v
    using that by (auto simp: takeWhile_append)
  have "rev b @ CHR '':'' # rev a = rev d @ CHR '':'' # rev c" using arg_cong [OF assms(3), of rev] by simp
  then have "rev b = rev d" using first [OF assms(1)] first [OF assms(2)] by metis
  with assms(3) show ?thesis by simp
qed

lemma meter_keys_differ:
  "query_key k \<noteq> epsilon_key k'" "epsilon_key k \<noteq> query_key k'" "query_key k \<noteq> entries_key k'"
  "entries_key k \<noteq> query_key k'" "epsilon_key k \<noteq> entries_key k'" "entries_key k \<noteq> epsilon_key k'"
  by (simp_all add: query_key_def epsilon_key_def entries_key_def)

lemma meter_key_inj:
  assumes "good_month k" "good_month k'"
  shows "query_key k = query_key k' \<longleftrightarrow> k = k'" "epsilon_key k = epsilon_key k' \<longleftrightarrow> k = k'"
  using assms colon_split [of "snd k" "snd k'" "fst k" "fst k'"]
  by (auto simp: query_key_def epsilon_key_def good_month_def prod_eq_iff)

lemma metering_incr:
  "metering_laws R \<Longrightarrow> t \<le> t' \<Longrightarrow> my_get R (my_incr_expire R r t k n) t' k' =
     (if k' = k then (if t' < t + of_int n then Some (value_or 0 (my_get R r t k) + 1) else None) else my_get R r t' k')"
  unfolding metering_laws_def by (elim conjE) (simp only: simp_thms)

lemma metering_set:
  "metering_laws R \<Longrightarrow> t \<le> t' \<Longrightarrow> my_get R (my_set_expire R r t k v n) t' k' =
     (if k' = k then (if t' < t + of_int n then Some v else None) else my_get R r t' k')"
  unfolding metering_laws_def by (elim conjE) (simp only: simp_thms)

lemma metering_rpush:
  "metering_laws R \<Longrightarrow> t \<le> t' \<Longrightarrow> k' \<noteq> k \<Longrightarrow> my_get R (my_rpush_expire R r t k x n) t' k' = my_get R r t' k'"
  unfolding metering_laws_def by (elim conjE) (simp only: simp_thms)

lemmas metering_gets = metering_incr metering_set metering_rpush

lemma metering_tostring:
  assumes "metering_laws R" "0 \<le> x"
  shows "(1 - 1 / 10 ^ 13) * x \<le> my_tostring R x"
proof -
  have "\<bar>my_tostring R x - x\<bar> \<le> x / 10 ^ 13"
    using assms unfolding metering_laws_def by (elim conjE) (simp only: simp_thms)
  then have "x - x / 10 ^ 13 \<le> my_tostring R x" by linarith
  then show ?thesis by (simp add: left_diff_distrib)
qed

lemma redis_record_get:
  assumes "metering_laws R" "now \<le> t"
    and "redis_atomic_record R now key Q E c entry r = (Inr v, r')"
  shows "my_get R r' t (query_key k) =
      (if query_key k = query_key key
       then (if t < now + of_int MONTHLY_TTL_SECONDS then Some (value_or 0 (my_get R r now (query_key key)) + 1) else None)
       else my_get R r t (query_key k))"
    "my_get R r' t (epsilon_key k) =
      (if epsilon_key k = epsilon_key key
       then (if t < now + of_int MONTHLY_TTL_SECONDS
             then Some (my_tostring R (value_or 0 (my_get R r now (epsilon_key key)) + c)) else None)
       else my_get R r t (epsilon_key k))"
  using assms
  by (auto simp: redis_atomic_record_def Let_def metering_gets meter_keys_differ split: if_splits)

lemma query_on_simps:
  "query_on R hmac q (Inl b) =
     (if qc_latency q < 0 then (Inl MeteringValueError, Inl b)
      else case memory_atomic_record (mo_key (query_meter q)) (mo_max_count (query_meter q)) (mo_max_sum (query_meter q))
             (mo_cost (query_meter q)) (meter_entry hmac (qc_metering_key q) (qc_query_id q) (qc_token q) (qc_endpoint q)
               (qc_corridors q) (qc_epsilon q) (qc_latency q) (qc_billing q) (qc_time q)) b of
           (Inl e, b') \<Rightarrow> (Inl (BudgetError e), Inl b')
         | (Inr v, b') \<Rightarrow> (Inr (meter_entry hmac (qc_metering_key q) (qc_query_id q) (qc_token q) (qc_endpoint q)
               (qc_corridors q) (qc_epsilon q) (qc_latency q) (qc_billing q) (qc_time q)), Inl b'))"
  "query_on R hmac q (Inr r) =
     (if qc_latency q < 0 then (Inl MeteringValueError, Inr r)
      else case redis_atomic_record R (qc_time q) (mo_key (query_meter q)) (mo_max_count (query_meter q)) (mo_max_sum (query_meter q))
             (mo_cost (query_meter q)) (meter_entry hmac (qc_metering_key q) (qc_query_id q) (qc_token q) (qc_endpoint q)
               (qc_corridors q) (qc_epsilon q) (qc_latency q) (qc_billing q) (qc_time q)) r of
           (Inl e, r') \<Rightarrow> (Inl (BudgetError e), Inr r')
         | (Inr v, r') \<Rightarrow> (Inr (meter_entry hmac (qc_metering_key q) (qc_query_id q) (qc_token q) (qc_endpoint q)
               (qc_corridors q) (qc_epsilon q) (qc_latency q) (qc_billing q) (qc_time q)), Inr r'))"
  by (auto simp: query_on_def record_query_def query_meter_def Let_def split: prod.splits sum.splits)

lemma refused_record:
  "memory_atomic_record key Q E c entry b = (Inl e, b') \<Longrightarrow> b' = b"
  "redis_atomic_record R now key Q E c entry r = (Inl e, r') \<Longrightarrow> r' = r"
  by (auto simp: memory_atomic_record_def redis_atomic_record_def Let_def split: if_splits)

lemma floor_fits: "q + 1 \<le> of_int Q \<Longrightarrow> \<lfloor>q\<rfloor> + 1 \<le> Q" for q :: rat
  by linarith

lemma redis_metered_budget:
  assumes "metering_laws R"
  shows "metered_budget query_meter (\<lambda>q r. map_prod id projr (query_on R hmac q (Inr r)))
     (\<lambda>r. backend_count R (Inr r)) (\<lambda>r. backend_epsilon R (Inr r)) good_month (of_int MONTHLY_TTL_SECONDS) (1 / 10 ^ 13)"
proof (unfold_locales, goal_cases)
  case (3 q r v r' x)
  then show ?case
    by (auto simp: query_on_simps redis_atomic_record_def backend_count_def backend_epsilon_def redis_usage_def Let_def query_meter_def
        intro!: floor_fits split: if_splits)
next
  case (4 q r v r' x t)
  then obtain w where rec: "redis_atomic_record R (mo_time x) (mo_key x) (mo_max_count x) (mo_max_sum x) (mo_cost x)
      (meter_entry hmac (qc_metering_key q) (qc_query_id q) (qc_token q) (qc_endpoint q)
        (qc_corridors q) (qc_epsilon q) (qc_latency q) (qc_billing q) (qc_time q)) r = (Inr w, r')"
    by (auto simp: query_on_simps query_meter_def split: if_splits prod.splits sum.splits)
  from redis_record_get [OF assms 4(6) this, of "mo_key x"] 4(3-)
  show ?case
    using metering_tostring [OF assms, of "value_or 0 (my_get R r (mo_time x) (epsilon_key (mo_key x))) + mo_cost x"]
    by (auto simp: backend_count_def backend_epsilon_def redis_usage_def)
next
  case (5 q r e r')
  then show ?case by (auto simp: query_on_simps dest: refused_record split: if_splits prod.splits sum.splits)
next
  case (6 q r res r' x t k)
  show ?case
  proof (cases "\<exists>e. res = Inl e")
    case True
    with 6(1) have "r' = r"
      by (auto simp: query_on_simps dest: refused_record split: if_splits prod.splits sum.splits)
    then show ?thesis by simp
  next
    case False
    with 6(1,2) obtain w where rec: "redis_atomic_record R (mo_time x) (mo_key x) (mo_max_count x) (mo_max_sum x) (mo_cost x)
      (meter_entry hmac (qc_metering_key q) (qc_query_id q) (qc_token q) (qc_endpoint q)
        (qc_corridors q) (qc_epsilon q) (qc_latency q) (qc_billing q) (qc_time q)) r = (Inr w, r')"
      by (auto simp: query_on_simps query_meter_def split: if_splits prod.splits sum.splits)
    from redis_record_get [OF assms 6(3) this, of k] 6(4-6) meter_key_inj [of k "mo_key x"]
    show ?thesis by (simp add: backend_count_def backend_epsilon_def redis_usage_def)
  qed
qed simp_all


lemma memory_metered_budget:
  "metered_budget query_meter (\<lambda>q b. map_prod id projl (query_on R hmac q (Inl b)))
     (\<lambda>b. backend_count R (Inl b)) (\<lambda>b. backend_epsilon R (Inl b)) (\<lambda>_. True) w 0"
proof (unfold_locales, goal_cases)
  case (3 q b v b' x)
  then show ?case
    by (auto simp: query_on_simps memory_atomic_record_def backend_count_def backend_epsilon_def memory_usage_def Let_def
        query_meter_def split: if_splits)
next
  case (4 q b v b' x t)
  then show ?case
    by (auto simp: query_on_simps memory_atomic_record_def backend_count_def backend_epsilon_def memory_usage_def Let_def
        query_meter_def split: if_splits)
next
  case (5 q b e b')
  then show ?case by (auto simp: query_on_simps dest: refused_record split: if_splits prod.splits sum.splits)
next
  case (6 q b res b' x t k)
  then show ?case
    by (auto simp: query_on_simps memory_atomic_record_def backend_count_def backend_epsilon_def memory_usage_def Let_def
        query_meter_def split: if_splits)
qed simp_all

interpretation memory_meter: metered_budget query_meter "\<lambda>q b. map_prod id projl (query_on R hmac q (Inl b))"
    "\<lambda>b. backend_count R (Inl b)" "\<lambda>b. backend_epsilon R (Inl b)" "\<lambda>_. True" w 0 for R hmac w
  by (rule memory_metered_budget)

lemma query_on_kind: "query_on R hmac q (Inl b) = (out, x) \<Longrightarrow> \<exists>b'. x = Inl b'"
  "query_on R hmac q (Inr r) = (out, x) \<Longrightarrow> \<exists>r'. x = Inr r'"
  by (auto simp: query_on_simps split: if_splits prod.splits sum.splits)

lemma memory_history:
  "query_history R hmac qs (Inl b) = map_prod Inl id (fold (metered_run (\<lambda>q b. map_prod id projl (query_on R hmac q (Inl b)))) qs (b, []))"
proof -
  have "fold (\<lambda>q (b, recorded). case query_on R hmac q b of (out, b') \<Rightarrow>
       (b', case out of Inr _ \<Rightarrow> recorded @ [q] | Inl _ \<Rightarrow> recorded)) qs (Inl b, acc) =
      map_prod Inl id (fold (metered_run (\<lambda>q b. map_prod id projl (query_on R hmac q (Inl b)))) qs (b, acc))" for acc
  proof (induction qs arbitrary: b acc)
    case (Cons q qs)
    obtain out x where q: "query_on R hmac q (Inl b) = (out, x)" by fastforce
    from query_on_kind(1) [OF this] obtain b' where "x = Inl b'" by blast
    with q Cons show ?case by (cases out) (simp_all add: metered_run_def)
  qed simp
  then show ?thesis by (simp add: query_history_def)
qed

lemma redis_history:
  "query_history R hmac qs (Inr r) =
    map_prod Inr id (fold (metered_run (\<lambda>q r. map_prod id projr (query_on R hmac q (Inr r)))) qs (r, []))"
proof -
  have "fold (\<lambda>q (b, recorded). case query_on R hmac q b of (out, b') \<Rightarrow>
       (b', case out of Inr _ \<Rightarrow> recorded @ [q] | Inl _ \<Rightarrow> recorded)) qs (Inr r, acc) =
      map_prod Inr id (fold (metered_run (\<lambda>q r. map_prod id projr (query_on R hmac q (Inr r)))) qs (r, acc))" for acc
  proof (induction qs arbitrary: r acc)
    case (Cons q qs)
    obtain out x where q: "query_on R hmac q (Inr r) = (out, x)" by fastforce
    from query_on_kind(2) [OF this] obtain r' where "x = Inr r'" by blast
    with q Cons show ?case by (cases out) (simp_all add: metered_run_def)
  qed simp
  then show ?thesis by (simp add: query_history_def)
qed

text \<open>Queries on the same budget come before its counters expire.\<close>

lemma queries_close:
  assumes "0 \<le> qc_time x" "0 \<le> qc_time y" "mo_key (query_meter x) = mo_key (query_meter y)"
  shows "mo_time (query_meter y) < mo_time (query_meter x) + of_int MONTHLY_TTL_SECONDS"
proof (cases "qc_time x \<le> qc_time y")
  case True
  have "month_bucket (qc_time x) = month_bucket (qc_time y)"
    using assms by (intro month_text_inj) (auto simp: query_meter_def)
  from same_bucket_close [OF this True] show ?thesis by (simp add: query_meter_def MONTHLY_TTL_SECONDS_def)
qed (simp add: query_meter_def MONTHLY_TTL_SECONDS_def)

text \<open>
  C26: Privacy and query budgets hold for every regulator.  Any number of replicas share a Redis server with
  no counters yet, and queries arrive in clock order with costs that are not negative.  Then every query that was
  recorded is, with those recorded before it for the same regulator in the same month, within the number of
  queries of its token; and their privacy cost is within the allocation of its token, up to the tolerance
  of the code and to the fraction that Lua's 14-digit numbers may lose at each query.
\<close>

theorem query_budgets_hold:
  assumes "metering_laws R" "\<And>t k. my_get R r0 t k = None"
    and "sorted (map qc_time qs)" "\<forall>q \<in> set qs. 0 \<le> qc_time q \<and> 0 \<le> qc_epsilon q"
    and "snd (query_history R hmac qs (Inr r0)) = before @ q # later"
  shows "let same = filter (\<lambda>p. rt_regulator_id (qc_token p) = rt_regulator_id (qc_token q) \<and>
               month_text (qc_time p) = month_text (qc_time q)) before
    in int (length same) + 1 \<le> rt_query_budget_monthly (qc_token q) \<and>
       (1 - 1 / 10 ^ 13) ^ length same * (sum_list (map qc_epsilon same) + qc_epsilon q)
         \<le> rt_privacy_budget_allocation (qc_token q) + 1 / 10 ^ 12"
proof -
  note B = redis_metered_budget [OF assms(1)]
  have good: "\<forall>q \<in> set qs. good_month (mo_key (query_meter q)) \<and> 0 \<le> mo_cost (query_meter q)"
    using assms(4) month_text_colon by (simp add: query_meter_def good_month_def)
  have close: "\<forall>x \<in> set qs. \<forall>y \<in> set qs. mo_key (query_meter x) = mo_key (query_meter y) \<longrightarrow>
      mo_time (query_meter y) < mo_time (query_meter x) + of_int MONTHLY_TTL_SECONDS"
    using assms(4) queries_close by blast
  have "mo_time \<circ> query_meter = qc_time" by (simp add: comp_def query_meter_def)
  then have "sorted (map (mo_time \<circ> query_meter) qs)" using assms(3) by simp
  moreover have "backend_count R (Inr r0) t k = 0 \<and> backend_epsilon R (Inr r0) t k = 0" for t k
    using assms(2) by (simp add: backend_count_def backend_epsilon_def redis_usage_def)
  moreover have "snd (fold (metered_run (\<lambda>q r. map_prod id projr (query_on R hmac q (Inr r)))) qs (r0, [])) = before @ q # later"
    using assms(5) by (simp add: redis_history)
  ultimately have "within_budgets (1 / 10 ^ 13) (map query_meter (before @ q # later))"
    using metered_budget.budgets_hold [OF B, of r0 qs hmac] good close by simp
  then have "int (length (ran_on (mo_key (query_meter q)) (map query_meter before))) + 1 \<le> mo_max_count (query_meter q) \<and>
      (1 - 1 / 10 ^ 13) ^ length (ran_on (mo_key (query_meter q)) (map query_meter before)) *
        (total_cost (ran_on (mo_key (query_meter q)) (map query_meter before)) + mo_cost (query_meter q))
          \<le> mo_max_sum (query_meter q) + BUDGET_TOLERANCE"
    unfolding within_budgets_def by simp
  moreover have "ran_on (mo_key (query_meter q)) (map query_meter before) =
      map query_meter (filter (\<lambda>p. rt_regulator_id (qc_token p) = rt_regulator_id (qc_token q) \<and>
        month_text (qc_time p) = month_text (qc_time q)) before)"
    by (simp add: ran_on_def filter_map comp_def query_meter_def)
  ultimately show ?thesis by (simp add: Let_def total_cost_def comp_def query_meter_def BUDGET_TOLERANCE_def)
qed

text \<open>A server, and two queries under a token that permits one a month.\<close>

type_synonym meter_server =
  "(string \<Rightarrow> (time \<times> rat) option) \<times> (string \<Rightarrow> (time \<times> QueryMeterEntry list) option)"

definition server_number :: "meter_server \<Rightarrow> time \<Rightarrow> string \<Rightarrow> rat option" where
  "server_number r t k = (case fst r k of Some (expiry, v) \<Rightarrow> if t < expiry then Some v else None | None \<Rightarrow> None)"

definition server_list :: "meter_server \<Rightarrow> time \<Rightarrow> string \<Rightarrow> QueryMeterEntry list" where
  "server_list r t k = (case snd r k of Some (expiry, xs) \<Rightarrow> if t < expiry then xs else [] | None \<Rightarrow> [])"

definition map_metering :: "meter_server metering_api" where
  "map_metering =
     \<lparr> my_get = server_number,
       my_incr_expire = (\<lambda>r t k n. ((fst r)(k \<mapsto> (t + of_int n, value_or 0 (server_number r t k) + 1)), snd r)),
       my_set_expire = (\<lambda>r t k v n. ((fst r)(k \<mapsto> (t + of_int n, v)), snd r)),
       my_rpush_expire = (\<lambda>r t k x n. (fst r, (snd r)(k \<mapsto> (t + of_int n, server_list r t k @ [x])))),
       my_lrange = server_list, my_tostring = (\<lambda>x. x) \<rparr>"

lemma map_metering_laws: "metering_laws map_metering"
  by (auto simp: metering_laws_def map_metering_def server_number_def server_list_def)

interpretation redis_meter: metered_budget query_meter "\<lambda>q r. map_prod id projr (query_on map_metering hmac q (Inr r))"
    "\<lambda>r. backend_count map_metering (Inr r)" "\<lambda>r. backend_epsilon map_metering (Inr r)" good_month
    "of_int MONTHLY_TTL_SECONDS" "1 / 10 ^ 13" for hmac
  by (rule redis_metered_budget [OF map_metering_laws])

definition sample_query :: "time \<Rightarrow> query_call" where
  "sample_query t =
     \<lparr> qc_time = t, qc_metering_key = ''k'', qc_query_id = ''QRY-1'',
       qc_token = \<lparr> rt_regulator_id = ''FED'', rt_regulator_name = ''Fed'', rt_subscription_tier = ''QUERY'',
         rt_permitted_corridors = None, rt_query_budget_monthly = 1, rt_privacy_budget_allocation = 5,
         rt_valid_from = 0, rt_valid_until = 1000, rt_hmac_signature = '''' \<rparr>,
       qc_endpoint = ''/corridors'', qc_corridors = [''EUR_USD''], qc_epsilon = 2, qc_latency = 3, qc_billing = 10 \<rparr>"

lemma query_budgets_hold_witness:
  "snd (query_history map_metering (\<lambda>k e. ''s'') [sample_query 10, sample_query 20] (Inr (\<lambda>_. None, \<lambda>_. None))) =
     [sample_query 10] \<and> qc_epsilon (sample_query 10) \<le> 5 + 1 / 10 ^ 12"
proof -
  have run: "snd (query_history map_metering (\<lambda>k e. ''s'') [sample_query 10, sample_query 20] (Inr (\<lambda>_. None, \<lambda>_. None))) =
     [] @ sample_query 10 # []"
    by code_simp
  have empty: "my_get map_metering (\<lambda>_. None, \<lambda>_. None) t k = None" for t k
    by (simp add: map_metering_def server_number_def)
  have order: "sorted (map qc_time [sample_query 10, sample_query 20])"
    "\<forall>q \<in> set [sample_query 10, sample_query 20]. 0 \<le> qc_time q \<and> 0 \<le> qc_epsilon q"
    by (simp_all add: sample_query_def)
  from query_budgets_hold [OF map_metering_laws empty order run] run show ?thesis
    by (simp add: Let_def sample_query_def)
qed

section \<open>Billing\<close>

definition ledger_agrees :: "memory_backend \<Rightarrow> bool" where
  "ledger_agrees b \<longleftrightarrow>
     (\<forall>k. memory_usage b k = (int (length (memory_monthly_entries b k)),
        sum_list (map qe_epsilon_consumed (memory_monthly_entries b k))))"

lemma ledger_init: "ledger_agrees memory_backend_init"
  by (simp add: ledger_agrees_def memory_backend_init_def memory_usage_def memory_monthly_entries_def)

lemma ledger_record:
  assumes "ledger_agrees b" "key = (qe_regulator_id e, month_text (qe_timestamp e))"
    and "memory_atomic_record key Q E (qe_epsilon_consumed e) e b = (out, b')"
  shows "ledger_agrees b'"
proof -
  have k: "value_or 0 (mb_monthly_queries b k) = int (length (memory_monthly_entries b k)) \<and>
      value_or 0 (mb_monthly_epsilon b k) = sum_list (map qe_epsilon_consumed (memory_monthly_entries b k))" for k
    using assms(1) by (cases k) (simp add: ledger_agrees_def memory_usage_def)
  show ?thesis
    using assms(3) k
    by (auto simp: ledger_agrees_def memory_usage_def memory_atomic_record_def memory_monthly_entries_def Let_def assms(2)
        split: if_splits)
qed

lemma query_on_ledger:
  assumes "ledger_agrees b" "query_on R hmac q (Inl b) = (out, Inl b')"
  shows "ledger_agrees b'"
proof (cases "qc_latency q < 0")
  case False
  define e where "e = meter_entry hmac (qc_metering_key q) (qc_query_id q) (qc_token q) (qc_endpoint q)
      (qc_corridors q) (qc_epsilon q) (qc_latency q) (qc_billing q) (qc_time q)"
  have f: "mo_cost (query_meter q) = qe_epsilon_consumed e" "mo_key (query_meter q) = (qe_regulator_id e, month_text (qe_timestamp e))"
    by (simp_all add: e_def meter_entry_def query_meter_def Let_def)
  obtain r b2 where r: "memory_atomic_record (mo_key (query_meter q)) (mo_max_count (query_meter q)) (mo_max_sum (query_meter q))
      (mo_cost (query_meter q)) e b = (r, b2)" by fastforce
  then have "b2 = b'" using assms(2) False by (cases r) (simp_all add: query_on_simps e_def)
  with ledger_record [OF assms(1) f(2) r [unfolded f(1)]] show ?thesis by simp
qed (use assms in \<open>simp add: query_on_simps\<close>)

text \<open>
  In one process, what counts against a regulator's budgets is what it is billed for: after any history of
  queries, for every regulator and month, the number of queries and the privacy cost of its usage are
  those of its billing summary.
\<close>

lemma usage_is_billed:
  "case query_history R hmac qs (Inl memory_backend_init) of (backend, recorded) \<Rightarrow>
     let m = \<lparr> rq_metering_key = key, rq_backend = backend \<rparr>;
         summary = get_billing_summary R now m regulator as_of
     in meter_usage R now m regulator as_of = (bs_query_count summary, bs_epsilon_consumed summary)"
proof -
  have "\<exists>b'. fst (fold (\<lambda>q (b, recorded). case query_on R hmac q b of (out, b') \<Rightarrow>
       (b', case out of Inr _ \<Rightarrow> recorded @ [q] | Inl _ \<Rightarrow> recorded)) qs (Inl b, acc)) = Inl b' \<and> ledger_agrees b'"
    if "ledger_agrees b" for b acc
    using that
  proof (induction qs arbitrary: b acc)
    case (Cons q qs)
    obtain out x where q: "query_on R hmac q (Inl b) = (out, x)" by fastforce
    from query_on_kind(1) [OF this] obtain b1 where x: "x = Inl b1" by blast
    with q Cons.prems query_on_ledger have "ledger_agrees b1" by blast
    from Cons.IH [OF this] show ?case using q x by (cases out) simp_all
  qed simp
  from this [OF ledger_init, of "[]"] obtain b' where b':
    "fst (query_history R hmac qs (Inl memory_backend_init)) = Inl b'" "ledger_agrees b'"
    unfolding query_history_def by blast
  then have "memory_usage b' k = (int (length (memory_monthly_entries b' k)),
      sum_list (map qe_epsilon_consumed (memory_monthly_entries b' k)))" for k
    by (cases k) (simp add: ledger_agrees_def)
  with b'(1) show ?thesis
    by (cases "query_history R hmac qs (Inl memory_backend_init)")
      (simp add: meter_usage_def get_billing_summary_def summarize_def Let_def)
qed

end
