(* ===== verification/Py_Iso.thy ===== *)
theory Py_Iso
  imports Py_Month Py_Value
begin

text \<open>
  \<open>date.fromisoformat\<close> of Python 3.11, the version of the images: \<open>YYYY-MM-DD\<close>, \<open>YYYYMMDD\<close> and the ISO week
  dates \<open>YYYY-Www-D\<close>, \<open>YYYYWwwD\<close>, \<open>YYYY-Www\<close> and \<open>YYYYWww\<close>, in ASCII digits; anything else raises
  \<open>ValueError\<close>.  And \<open>bytes.fromhex\<close>.
\<close>

definition digits_opt :: "nat \<Rightarrow> string \<Rightarrow> int option" where
  "digits_opt n s = (if length s = n \<and> list_all is_digit s then Some (digits_value s) else None)"

definition calendar_date :: "string \<Rightarrow> string \<Rightarrow> string \<Rightarrow> py_exc + date" where
  "calendar_date ys ms ds =
     (case (digits_opt 4 ys, digits_opt 2 ms, digits_opt 2 ds) of
        (Some y, Some m, Some d) \<Rightarrow>
          if 1 \<le> y \<and> 1 \<le> m \<and> m \<le> 12 \<and> 1 \<le> d \<and> d \<le> days_in_month y m then Inr (date y m d) else Inl ValueError
      | _ \<Rightarrow> Inl ValueError)"

definition long_year :: "int \<Rightarrow> bool" where
  "long_year y \<longleftrightarrow> weekday (date y 1 1) = 3 \<or> (weekday (date y 1 1) = 2 \<and> leap_year y)"

definition week_date :: "string \<Rightarrow> string \<Rightarrow> string \<Rightarrow> py_exc + date" where
  "week_date ys ws ds =
     (case (digits_opt 4 ys, digits_opt 2 ws, digits_opt 1 ds) of
        (Some y, Some w, Some d) \<Rightarrow>
          if 1 \<le> y \<and> 1 \<le> w \<and> w \<le> (if long_year y then 53 else 52) \<and> 1 \<le> d \<and> d \<le> 7
          then Inr (date y 1 4 - weekday (date y 1 4) + 7 * (w - 1) + (d - 1)) else Inl ValueError
      | _ \<Rightarrow> Inl ValueError)"

definition date_fromisoformat :: "string \<Rightarrow> py_exc + date" where
  "date_fromisoformat s =
     (if length s \<notin> {7, 8, 10} then Inl ValueError
      else
        let y = take 4 s;
            sep = (s ! 4 = CHR ''-'');
            r = drop (if sep then 5 else 4) s;
            last_part = (\<lambda>t. if sep then (if take 1 t = ''-'' then drop 1 t else []) else t)
        in if take 1 r = ''W'' then
             (if drop 3 r = [] then week_date y (drop 1 r) ''1'' else week_date y (take 2 (drop 1 r)) (last_part (drop 3 r)))
           else calendar_date y (take 2 r) (last_part (drop 2 r)))"

definition hex_value :: "char \<Rightarrow> nat option" where
  "hex_value c =
     (let n = of_char c
      in if 48 \<le> n \<and> n \<le> 57 then Some (n - 48) else if 65 \<le> n \<and> n \<le> 70 then Some (n - 55)
         else if 97 \<le> n \<and> n \<le> 102 then Some (n - 87) else None)"

definition hex_space :: "char \<Rightarrow> bool" where
  "hex_space c \<longleftrightarrow> (let n = of_char c :: nat in n = 32 \<or> 9 \<le> n \<and> n \<le> 13)"

fun bytes_fromhex :: "string \<Rightarrow> py_exc + nat list" where
  "bytes_fromhex [] = Inr []"
| "bytes_fromhex [c] = (if hex_space c then Inr [] else Inl ValueError)"
| "bytes_fromhex (c # d # s) =
     (if hex_space c then bytes_fromhex (d # s)
      else case (hex_value c, hex_value d) of
             (Some h, Some l) \<Rightarrow> res_bind (bytes_fromhex s) (\<lambda>bs. Inr ((16 * h + l) # bs))
           | _ \<Rightarrow> Inl ValueError)"

lemma iso_examples:
  "date_fromisoformat ''2026-03-05'' = Inr (date 2026 3 5)"
  "date_fromisoformat ''20260305'' = Inr (date 2026 3 5)"
  "date_fromisoformat ''2026-W10-4'' = Inr (date 2026 3 5)"
  "date_fromisoformat ''2026-02-30'' = Inl ValueError"
  "date_fromisoformat ''05/03/2026'' = Inl ValueError"
  "bytes_fromhex ''00 fF'' = Inr [0, 255]" "bytes_fromhex ''0'' = Inl ValueError"
  by code_simp+

lemma date_fromisoformat_error: "date_fromisoformat s = Inl e \<Longrightarrow> e = ValueError"
  by (auto simp: date_fromisoformat_def calendar_date_def week_date_def Let_def split: option.splits if_splits)

end
