(* ===== verification/License_Boot.thy ===== *)
theory License_Boot
  imports Kill_Switch Py_Iso Constants "HOL-Library.List_Lexorder" "HOL-Library.Char_ord"
begin

text \<open>
  The licence of a deployment: \<open>lip/c8_license_manager/license_token.py\<close>, the check of it when a container
  starts (\<open>boot_validator.py\<close>) and the helper the services call (\<open>runtime.py\<close>).

  The token comes from JSON and the code converts only some of its fields, so the others keep the dynamic
  value.  Parameters: the JSON parser (\<open>None\<close> is \<open>JSONDecodeError\<close>) and HMAC-SHA256, a function of the key
  and of the record whose fields the canonical JSON holds.  Of mixed or nested lists, sorting raises
  \<open>TypeError\<close>.

  Shown: a service gets a licence context exactly from an authentic, unexpired, complete token that permits
  its component, and only while the kill switch is not engaged; a refused token halts offers in every
  process on the server; an exception the validator does not expect escapes and leaves the switch as it was.
\<close>

definition ALL_COMPONENTS :: "string list" where
  "ALL_COMPONENTS = [''C1'', ''C2'', ''C3'', ''C4'', ''C5'', ''C6'', ''C7'']"

definition AML_CAP_UNSET :: int where "AML_CAP_UNSET = -1"

definition VALID_PHASES :: "string list" where "VALID_PHASES = [''LICENSOR'', ''HYBRID'', ''FULL_MLO'']"
definition VALID_LICENSEE_TYPES :: "string list" where "VALID_LICENSEE_TYPES = [''BANK'', ''PROCESSOR'']"

definition PROCESSOR_TAKE_RATE_MIN_PCT :: dec where "PROCESSOR_TAKE_RATE_MIN_PCT = 15 / 100"
definition PROCESSOR_TAKE_RATE_MAX_PCT :: dec where "PROCESSOR_TAKE_RATE_MAX_PCT = 30 / 100"

record LicenseToken =
  lt_schema_version :: int
  lt_licensee_id :: pyval
  lt_issue_date :: pyval
  lt_expiry_date :: pyval
  lt_max_tps :: int
  lt_aml_dollar_cap_usd :: int
  lt_aml_count_cap :: int
  lt_min_loan_amount_usd :: int
  lt_deployment_phase :: string
  lt_licensee_type :: string
  lt_sub_licensee_bics :: "pyval list"
  lt_annual_minimum_usd :: int
  lt_performance_premium_pct :: pyfloat
  lt_platform_take_rate_pct :: pyfloat
  lt_permitted_components :: "pyval list"
  lt_hmac_signature :: pyval

section \<open>Parsing\<close>

text \<open>\<open>v not in frozenset\<close>: a list or dictionary cannot be hashed; only a string can be a member.\<close>

definition member_of :: "string list \<Rightarrow> pyval \<Rightarrow> py_exc + string" where
  "member_of valid v =
     (case v of PStr s \<Rightarrow> if s \<in> set valid then Inr s else Inl ValueError
      | PList _ \<Rightarrow> Inl TypeError | PDict _ \<Rightarrow> Inl TypeError | _ \<Rightarrow> Inl ValueError)"

definition license_from_dict :: "pyval \<Rightarrow> py_exc + LicenseToken" where
  "license_from_dict data =
     res_bind (pget data ''deployment_phase'' (PStr ''LICENSOR'')) (\<lambda>phase_v.
     res_bind (member_of VALID_PHASES phase_v) (\<lambda>phase.
     res_bind (pget data ''licensee_type'' (PStr ''BANK'')) (\<lambda>type_v.
     res_bind (member_of VALID_LICENSEE_TYPES type_v) (\<lambda>licensee_type.
     res_bind (res_bind (pget data ''schema_version'' (PNum 1)) py_int) (\<lambda>version.
     res_bind (pitem data ''licensee_id'') (\<lambda>licensee.
     res_bind (pitem data ''issue_date'') (\<lambda>issue.
     res_bind (pitem data ''expiry_date'') (\<lambda>expiry.
     res_bind (res_bind (pitem data ''max_tps'') py_int) (\<lambda>tps.
     res_bind (res_bind (pitem data ''aml_dollar_cap_usd'') py_int) (\<lambda>dollars.
     res_bind (res_bind (pitem data ''aml_count_cap'') py_int) (\<lambda>count.
     res_bind (res_bind (pget data ''min_loan_amount_usd'' (PNum MIN_LOAN_AMOUNT_USD)) py_int) (\<lambda>min_loan.
     res_bind (res_bind (pget data ''sub_licensee_bics'' (PList [])) py_list) (\<lambda>bics.
     res_bind (res_bind (pget data ''annual_minimum_usd'' (PNum 0)) py_int) (\<lambda>annual.
     res_bind (res_bind (pget data ''performance_premium_pct'' (PNum 0)) py_float) (\<lambda>premium.
     res_bind (res_bind (pget data ''platform_take_rate_pct'' (PNum 0)) py_float) (\<lambda>take_rate.
     res_bind (res_bind (pget data ''permitted_components'' (PList (map PStr ALL_COMPONENTS))) py_list) (\<lambda>components.
     res_bind (pget data ''hmac_signature'' (PStr '''')) (\<lambda>sig.
     Inr \<lparr> lt_schema_version = version, lt_licensee_id = licensee, lt_issue_date = issue, lt_expiry_date = expiry,
           lt_max_tps = tps, lt_aml_dollar_cap_usd = dollars, lt_aml_count_cap = count,
           lt_min_loan_amount_usd = min_loan, lt_deployment_phase = phase, lt_licensee_type = licensee_type,
           lt_sub_licensee_bics = bics, lt_annual_minimum_usd = annual, lt_performance_premium_pct = premium,
           lt_platform_take_rate_pct = take_rate, lt_permitted_components = components,
           lt_hmac_signature = sig \<rparr>))))))))))))))))))"

section \<open>Signature and expiry\<close>

fun is_text :: "pyval \<Rightarrow> bool" where "is_text (PStr s) = True" | "is_text _ = False"
fun text_of :: "pyval \<Rightarrow> string" where "text_of (PStr s) = s" | "text_of _ = ''''"

fun is_number :: "pyval \<Rightarrow> bool" where
  "is_number (PNum d) = True" | "is_number (PBool b) = True" | "is_number _ = False"

fun number_of :: "pyval \<Rightarrow> dec" where
  "number_of (PNum d) = d" | "number_of (PBool b) = (if b then 1 else 0)" | "number_of _ = 0"

definition py_sorted :: "pyval list \<Rightarrow> py_exc + pyval list" where
  "py_sorted vs =
     (if length vs \<le> 1 then Inr vs
      else if list_all is_text vs then Inr (sort_key text_of vs)
      else if list_all is_number vs then Inr (sort_key number_of vs)
      else Inl TypeError)"

fun sorted_field :: "pyval \<Rightarrow> py_exc + pyval" where
  "sorted_field (PList vs) = res_bind (py_sorted vs) (\<lambda>ws. Inr (PList ws))"
| "sorted_field v = Inr v"

text \<open>What is signed: every field but the signature, lists sorted.\<close>

definition canonical_payload :: "LicenseToken \<Rightarrow> py_exc + LicenseToken" where
  "canonical_payload token =
     res_bind (sorted_field (lt_licensee_id token)) (\<lambda>licensee.
     res_bind (sorted_field (lt_issue_date token)) (\<lambda>issue.
     res_bind (sorted_field (lt_expiry_date token)) (\<lambda>expiry.
     res_bind (py_sorted (lt_sub_licensee_bics token)) (\<lambda>bics.
     res_bind (py_sorted (lt_permitted_components token)) (\<lambda>components.
     Inr (token\<lparr>lt_licensee_id := licensee, lt_issue_date := issue, lt_expiry_date := expiry,
                lt_sub_licensee_bics := bics, lt_permitted_components := components,
                lt_hmac_signature := PStr ''''\<rparr>))))))"

definition license_expired :: "LicenseToken \<Rightarrow> date \<Rightarrow> py_exc + bool" where
  "license_expired token today =
     (case lt_expiry_date token of
        PStr s \<Rightarrow> res_bind (date_fromisoformat s) (\<lambda>expiry. Inr (today > expiry))
      | _ \<Rightarrow> Inl TypeError)"

definition sign_token :: "(nat list \<Rightarrow> LicenseToken \<Rightarrow> string) \<Rightarrow> LicenseToken \<Rightarrow> nat list \<Rightarrow> py_exc + LicenseToken" where
  "sign_token hmac token key =
     res_bind (canonical_payload token) (\<lambda>p. Inr (token\<lparr>lt_hmac_signature := PStr (hmac key p)\<rparr>))"

text \<open>The text of the log line for an unsigned token takes the length and a prefix of the licensee.\<close>

fun log_licensee :: "pyval \<Rightarrow> py_exc + unit" where
  "log_licensee (PStr s) = Inr ()"
| "log_licensee (PList l) = (if 8 < length l then Inl TypeError else Inr ())"
| "log_licensee (PDict d) = (if 8 < length d then Inl TypeError else Inr ())"
| "log_licensee _ = Inl TypeError"

definition verify_token ::
    "(nat list \<Rightarrow> LicenseToken \<Rightarrow> string) \<Rightarrow> LicenseToken \<Rightarrow> nat list \<Rightarrow> date \<Rightarrow> py_exc + bool" where
  "verify_token hmac token key today =
     (if \<not> truth (lt_hmac_signature token) then res_bind (log_licensee (lt_licensee_id token)) (\<lambda>_. Inr False)
      else
        res_bind (canonical_payload token) (\<lambda>p.
          case lt_hmac_signature token of
            PStr s \<Rightarrow>
              if s \<noteq> hmac key p then Inr False
              else res_bind (license_expired token today) (\<lambda>expired. Inr (\<not> expired))
          | _ \<Rightarrow> Inl TypeError))"

section \<open>The check at start-up\<close>

text \<open>The context with the token's own values; \<open>Execution_Agent\<close> has it with text for the licensee.\<close>

record BootContext =
  bx_licensee_id :: pyval
  bx_max_tps :: int
  bx_aml_dollar_cap_usd :: int
  bx_aml_count_cap :: int
  bx_permitted_components :: "pyval list"
  bx_token_expiry :: pyval
  bx_min_loan_amount_usd :: int
  bx_deployment_phase :: string

record ProcessorBootContext = BootContext +
  pc_licensee_type :: string
  pc_sub_licensee_bics :: "pyval list"
  pc_annual_minimum_usd :: int
  pc_performance_premium_pct :: pyfloat
  pc_platform_take_rate_pct :: pyfloat

datatype licensee_context = BankContext BootContext | ProcessorContext ProcessorBootContext

definition context_of_token :: "LicenseToken \<Rightarrow> licensee_context" where
  "context_of_token token =
     (let ctx = \<lparr> bx_licensee_id = lt_licensee_id token, bx_max_tps = lt_max_tps token,
                  bx_aml_dollar_cap_usd = lt_aml_dollar_cap_usd token, bx_aml_count_cap = lt_aml_count_cap token,
                  bx_permitted_components = lt_permitted_components token, bx_token_expiry = lt_expiry_date token,
                  bx_min_loan_amount_usd = lt_min_loan_amount_usd token,
                  bx_deployment_phase = lt_deployment_phase token \<rparr>
      in if lt_licensee_type token = ''PROCESSOR'' then
           ProcessorContext
             (BootContext.extend ctx
               \<lparr> pc_licensee_type = lt_licensee_type token, pc_sub_licensee_bics = lt_sub_licensee_bics token,
                 pc_annual_minimum_usd = lt_annual_minimum_usd token,
                 pc_performance_premium_pct = lt_performance_premium_pct token,
                 pc_platform_take_rate_pct = lt_platform_take_rate_pct token \<rparr>)
         else BankContext ctx)"

text \<open>\<open>^[A-Z0-9]{8}([A-Z0-9]{3})?$\<close> with \<open>re.match\<close>: the dollar also matches before a final newline.\<close>

definition bic_char :: "char \<Rightarrow> bool" where
  "bic_char c \<longleftrightarrow> is_digit c \<or> (let n = of_char c :: nat in 65 \<le> n \<and> n \<le> 90)"

definition bic_pattern :: "string \<Rightarrow> bool" where
  "bic_pattern s \<longleftrightarrow>
     (let t = (if s \<noteq> '''' \<and> last s = CHR 0x0A then butlast s else s)
      in length t \<in> {8, 11} \<and> list_all bic_char t)"

fun bics_check :: "pyval list \<Rightarrow> py_exc + bool" where
  "bics_check [] = Inr True"
| "bics_check (PStr s # bics) = (if bic_pattern s then bics_check bics else Inr False)"
| "bics_check (_ # bics) = Inl TypeError"

text \<open>The reason for which a processor's token is refused.\<close>

definition processor_check :: "LicenseToken \<Rightarrow> py_exc + string option" where
  "processor_check token =
     (if lt_sub_licensee_bics token = [] then Inr (Some ''processor_no_sub_licensees'')
      else
        res_bind (bics_check (lt_sub_licensee_bics token)) (\<lambda>ok.
          if \<not> ok then Inr (Some ''processor_invalid_bic'')
          else
            let take_rate = lt_platform_take_rate_pct token
            in if \<not> (PROCESSOR_TAKE_RATE_MIN_PCT \<le> take_rate \<and> take_rate \<le> PROCESSOR_TAKE_RATE_MAX_PCT)
               then Inr (Some ''processor_take_rate_out_of_bounds'') else Inr None))"

record 'r LicenseBootValidator =
  bv_ks :: "'r KillSwitch"
  bv_required_component :: string
  bv_context :: "licensee_context option"

definition boot_validator_init :: "'r KillSwitch \<Rightarrow> string \<Rightarrow> 'r LicenseBootValidator" where
  "boot_validator_init ks required = \<lparr> bv_ks = ks, bv_required_component = required, bv_context = None \<rparr>"

definition engage :: "'r redis_api \<Rightarrow> bool \<Rightarrow> time \<Rightarrow> string \<Rightarrow> 'r LicenseBootValidator \<Rightarrow>
     (py_exc + unit) \<times> 'r LicenseBootValidator" where
  "engage R up now reason v = (case activate R up (bv_ks v) now reason of (r, ks) \<Rightarrow> (r, v\<lparr>bv_ks := ks\<rparr>))"

definition TOKEN_ENV :: string where "TOKEN_ENV = ''LIP_LICENSE_TOKEN_JSON''"
definition KEY_ENV :: string where "KEY_ENV = ''LIP_LICENSE_KEY_HEX''"

text \<open>The token and the key, or the reason for which there are none; other exceptions escape.\<close>

definition load_token_and_key ::
    "(string \<Rightarrow> pyval option) \<Rightarrow> (string \<Rightarrow> string option) \<Rightarrow> py_exc + string + LicenseToken \<times> nat list" where
  "load_token_and_key parse env =
     (case env TOKEN_ENV of None \<Rightarrow> Inr (Inl ''license_missing'') | Some token_json \<Rightarrow>
      if token_json = '''' then Inr (Inl ''license_missing'')
      else case env KEY_ENV of None \<Rightarrow> Inr (Inl ''license_missing'') | Some key_hex \<Rightarrow>
      if key_hex = '''' then Inr (Inl ''license_missing'')
      else
        (case (case parse token_json of None \<Rightarrow> Inl ValueError | Some data \<Rightarrow> license_from_dict data) of
           Inl e \<Rightarrow> if e \<in> {KeyError, ValueError} then Inr (Inl ''license_parse_error'') else Inl e
         | Inr token \<Rightarrow>
             (case bytes_fromhex key_hex of
                Inl e \<Rightarrow> if e = ValueError then Inr (Inl ''license_parse_error'') else Inl e
              | Inr key \<Rightarrow> Inr (Inr (token, key)))))"

text \<open>\<open>self._engage(reason); return None\<close>.\<close>

definition refuse_license :: "'r redis_api \<Rightarrow> bool \<Rightarrow> time \<Rightarrow> string \<Rightarrow> 'r LicenseBootValidator \<Rightarrow>
     (py_exc + licensee_context option) \<times> 'r LicenseBootValidator" where
  "refuse_license R up now reason v = (case engage R up now reason v of (r, v) \<Rightarrow> (res_bind r (\<lambda>_. Inr None), v))"

definition validate_license ::
    "'r redis_api \<Rightarrow> bool \<Rightarrow> (nat list \<Rightarrow> LicenseToken \<Rightarrow> string) \<Rightarrow> (string \<Rightarrow> pyval option) \<Rightarrow> (string \<Rightarrow> string option) \<Rightarrow>
     time \<Rightarrow> 'r LicenseBootValidator \<Rightarrow> (py_exc + licensee_context option) \<times> 'r LicenseBootValidator" where
  "validate_license R up hmac parse env now v =
     (case load_token_and_key parse env of
        Inl e \<Rightarrow> (Inl e, v)
      | Inr (Inl reason) \<Rightarrow> refuse_license R up now reason v
      | Inr (Inr (token, key)) \<Rightarrow>
     (case verify_token hmac token key (day_of_time now) of
        Inl e \<Rightarrow> (Inl e, v)
      | Inr False \<Rightarrow> refuse_license R up now ''license_invalid_or_expired'' v
      | Inr True \<Rightarrow>
     (if lt_aml_dollar_cap_usd token = AML_CAP_UNSET then refuse_license R up now ''aml_cap_not_configured'' v
      else
     (case (if lt_licensee_type token = ''PROCESSOR'' then processor_check token else Inr None) of
        Inl e \<Rightarrow> (Inl e, v)
      | Inr (Some reason) \<Rightarrow> refuse_license R up now reason v
      | Inr None \<Rightarrow>
          if PStr (bv_required_component v) \<notin> set (lt_permitted_components token) then
            (case engage R up now ''component_not_licensed'' v of (r, v) \<Rightarrow> (res_bind r (\<lambda>_. Inl RuntimeError), v))
          else
            let ctx = context_of_token token
            in (Inr (Some ctx), v\<lparr>bv_context := Some ctx\<rparr>)))))"

section \<open>The services\<close>

definition license_validation_enabled :: "(string \<Rightarrow> string option) \<Rightarrow> bool" where
  "license_validation_enabled env \<longleftrightarrow>
     py_lower (py_strip (case env ''LIP_ENFORCE_LICENSE_VALIDATION'' of Some s \<Rightarrow> s | None \<Rightarrow> ''''))
       \<in> {''1'', ''true'', ''yes'', ''on''}"

definition enforce_component_license ::
    "'r redis_api \<Rightarrow> bool \<Rightarrow> (nat list \<Rightarrow> LicenseToken \<Rightarrow> string) \<Rightarrow> (string \<Rightarrow> pyval option) \<Rightarrow> (string \<Rightarrow> string option) \<Rightarrow>
     time \<Rightarrow> string \<Rightarrow> 'r KillSwitch option \<Rightarrow> (py_exc + licensee_context option) \<times> 'r KillSwitch option" where
  "enforce_component_license R up hmac parse env now required kill_switch =
     (if \<not> license_validation_enabled env then (Inr None, kill_switch)
      else
        let ks = (case kill_switch of Some ks \<Rightarrow> ks | None \<Rightarrow> kill_switch_init None False);
            (r, v) = validate_license R up hmac parse env now (boot_validator_init ks required);
            given = (if kill_switch = None then None else Some (bv_ks v))
        in (res_bind r (\<lambda>context.
              if context = None then Inl RuntimeError
              else res_bind (is_active R up (bv_ks v) now) (\<lambda>active.
                if active then Inl RuntimeError else Inr context)), given))"

section \<open>What the check grants\<close>

definition license_accepted ::
    "(nat list \<Rightarrow> LicenseToken \<Rightarrow> string) \<Rightarrow> date \<Rightarrow> string \<Rightarrow> LicenseToken \<Rightarrow> nat list \<Rightarrow> bool" where
  "license_accepted hmac today required token key \<longleftrightarrow>
     (\<exists>signature payload text expiry.
        lt_hmac_signature token = PStr signature \<and> signature \<noteq> '''' \<and>
        canonical_payload token = Inr payload \<and> signature = hmac key payload \<and>
        lt_expiry_date token = PStr text \<and> date_fromisoformat text = Inr expiry \<and> today \<le> expiry) \<and>
     lt_aml_dollar_cap_usd token \<noteq> -1 \<and>
     (lt_licensee_type token = ''PROCESSOR'' \<longrightarrow>
        lt_sub_licensee_bics token \<noteq> [] \<and>
        (\<forall>b \<in> set (lt_sub_licensee_bics token). \<exists>s. b = PStr s \<and> bic_pattern s) \<and>
        15 / 100 \<le> lt_platform_take_rate_pct token \<and> lt_platform_take_rate_pct token \<le> 30 / 100) \<and>
     PStr required \<in> set (lt_permitted_components token)"

lemma bics_check_iff: "bics_check bics = Inr True \<longleftrightarrow> (\<forall>b \<in> set bics. \<exists>s. b = PStr s \<and> bic_pattern s)"
  by (induction bics rule: bics_check.induct) auto

lemma processor_check_iff:
  "processor_check token = Inr None \<longleftrightarrow>
     lt_sub_licensee_bics token \<noteq> [] \<and> (\<forall>b \<in> set (lt_sub_licensee_bics token). \<exists>s. b = PStr s \<and> bic_pattern s) \<and>
     15 / 100 \<le> lt_platform_take_rate_pct token \<and> lt_platform_take_rate_pct token \<le> 30 / 100"
  unfolding processor_check_def bics_check_iff [symmetric] PROCESSOR_TAKE_RATE_MIN_PCT_def PROCESSOR_TAKE_RATE_MAX_PCT_def
  by (cases "bics_check (lt_sub_licensee_bics token)") (auto simp: Let_def)

lemma verify_token_iff:
  "verify_token hmac token key today = Inr True \<longleftrightarrow>
     (\<exists>signature payload text expiry.
        lt_hmac_signature token = PStr signature \<and> signature \<noteq> '''' \<and>
        canonical_payload token = Inr payload \<and> signature = hmac key payload \<and>
        lt_expiry_date token = PStr text \<and> date_fromisoformat text = Inr expiry \<and> today \<le> expiry)"
proof (cases "lt_hmac_signature token")
  case sig: (PStr s)
  show ?thesis
  proof (cases "canonical_payload token")
    case pay: (Inr p)
    have "(\<exists>text expiry. lt_expiry_date token = PStr text \<and> date_fromisoformat text = Inr expiry \<and> today \<le> expiry) \<longleftrightarrow>
        license_expired token today = Inr False"
      by (cases "lt_expiry_date token") (auto simp: license_expired_def res_bind_Inr_iff)
    then show ?thesis
      by (cases "s = ''''"; cases "s = hmac key p"; cases "license_expired token today")
        (simp_all add: verify_token_def sig pay res_bind_Inr_iff)
  qed (simp add: verify_token_def sig res_bind_Inr_iff)
qed (simp_all add: verify_token_def res_bind_Inr_iff)

lemma license_accepted_iff:
  "license_accepted hmac today required token key \<longleftrightarrow>
     verify_token hmac token key today = Inr True \<and> lt_aml_dollar_cap_usd token \<noteq> AML_CAP_UNSET \<and>
     (if lt_licensee_type token = ''PROCESSOR'' then processor_check token else Inr None) = Inr None \<and>
     PStr required \<in> set (lt_permitted_components token)"
  unfolding license_accepted_def verify_token_iff AML_CAP_UNSET_def by (simp add: processor_check_iff)

lemma engage_context [simp]: "bv_context (snd (engage R up now reason v)) = bv_context v"
  by (simp add: engage_def split: prod.split)

lemma refuse_license_none: "fst (refuse_license R up now reason v) \<noteq> Inr (Some c)"
  by (auto simp: refuse_license_def res_bind_Inr_iff split: prod.split)

text \<open>No step before the component test raises \<open>RuntimeError\<close>.\<close>

lemma parse_steps_raise [simp]:
  "pget v k d \<noteq> Inl RuntimeError" "pitem v k \<noteq> Inl RuntimeError" "py_list v \<noteq> Inl RuntimeError"
  "py_int v \<noteq> Inl RuntimeError" "py_float v \<noteq> Inl RuntimeError" "member_of valid v \<noteq> Inl RuntimeError"
  "bytes_fromhex s \<noteq> Inl RuntimeError" "date_fromisoformat s \<noteq> Inl RuntimeError"
proof -
  show "pget v k d \<noteq> Inl RuntimeError" by (cases v) simp_all
  show "pitem v k \<noteq> Inl RuntimeError" by (cases v) (simp_all split: option.split)
  show "py_list v \<noteq> Inl RuntimeError" by (cases v) simp_all
  show "py_int v \<noteq> Inl RuntimeError" by (cases v) (simp_all split: option.split)
  show "py_float v \<noteq> Inl RuntimeError" by (cases v) (simp_all split: sum.split)
  show "member_of valid v \<noteq> Inl RuntimeError" by (cases v) (simp_all add: member_of_def)
  show "bytes_fromhex s \<noteq> Inl RuntimeError"
    by (induction s rule: bytes_fromhex.induct) (auto simp: res_bind_Inl_iff split: option.split prod.split)
  show "date_fromisoformat s \<noteq> Inl RuntimeError" using date_fromisoformat_error by blast
qed

lemma license_from_dict_raise [simp]: "license_from_dict data \<noteq> Inl RuntimeError"
  unfolding license_from_dict_def by (simp add: res_bind_Inl_iff)

lemma load_raise [simp]: "load_token_and_key parse env \<noteq> Inl RuntimeError"
  by (auto simp: load_token_and_key_def split: option.split sum.split)

lemma verify_steps_raise [simp]:
  "canonical_payload token \<noteq> Inl RuntimeError" "log_licensee v \<noteq> Inl RuntimeError"
  "license_expired token today \<noteq> Inl RuntimeError" "bics_check bics \<noteq> Inl RuntimeError"
proof -
  have s: "py_sorted vs \<noteq> Inl RuntimeError" for vs by (simp add: py_sorted_def)
  have f: "sorted_field v \<noteq> Inl RuntimeError" for v by (cases v) (simp_all add: res_bind_Inl_iff s)
  show "canonical_payload token \<noteq> Inl RuntimeError" by (simp add: canonical_payload_def res_bind_Inl_iff s f)
  show "log_licensee v \<noteq> Inl RuntimeError" by (cases v) simp_all
  show "license_expired token today \<noteq> Inl RuntimeError"
    by (simp add: license_expired_def res_bind_Inl_iff split: pyval.split)
  show "bics_check bics \<noteq> Inl RuntimeError" by (induction bics rule: bics_check.induct) simp_all
qed

lemma verify_raise [simp]: "verify_token hmac token key today \<noteq> Inl RuntimeError"
  by (cases "lt_hmac_signature token") (auto simp: verify_token_def res_bind_Inl_iff)

lemma processor_raise [simp]: "processor_check token \<noteq> Inl RuntimeError"
  by (auto simp: processor_check_def res_bind_Inl_iff Let_def)

lemma validate_license_cases:
  obtains e where "validate_license R up hmac parse env now v = (Inl e, v)" "e \<noteq> RuntimeError"
      "\<nexists>token key. load_token_and_key parse env = Inr (Inr (token, key)) \<and>
        license_accepted hmac (day_of_time now) (bv_required_component v) token key"
    | reason where "validate_license R up hmac parse env now v = refuse_license R up now reason v"
      "\<nexists>token key. load_token_and_key parse env = Inr (Inr (token, key)) \<and>
        license_accepted hmac (day_of_time now) (bv_required_component v) token key"
    | "validate_license R up hmac parse env now v =
        (case engage R up now ''component_not_licensed'' v of (r, v) \<Rightarrow> (res_bind r (\<lambda>_. Inl RuntimeError), v))"
      "\<nexists>token key. load_token_and_key parse env = Inr (Inr (token, key)) \<and>
        license_accepted hmac (day_of_time now) (bv_required_component v) token key"
    | token key where "load_token_and_key parse env = Inr (Inr (token, key))"
      "license_accepted hmac (day_of_time now) (bv_required_component v) token key"
      "validate_license R up hmac parse env now v =
        (Inr (Some (context_of_token token)), v\<lparr>bv_context := Some (context_of_token token)\<rparr>)"
proof (cases "load_token_and_key parse env")
  case (Inl e)
  moreover have "e \<noteq> RuntimeError" using Inl load_raise by metis
  ultimately show ?thesis using that(1) [of e] by (auto simp: validate_license_def)
next
  case (Inr loaded)
  show ?thesis
  proof (cases loaded)
    case (Inl reason)
    with Inr show ?thesis using that(2) [of reason] by (auto simp: validate_license_def)
  next
    case pair: (Inr p)
    obtain token key where p: "p = (token, key)" by fastforce
    let ?check = "if lt_licensee_type token = ''PROCESSOR'' then processor_check token else Inr None"
    have load: "load_token_and_key parse env = Inr (Inr (token, key))" using Inr pair p by simp
    note acc = license_accepted_iff [of hmac "day_of_time now" "bv_required_component v" token key]
    note V = validate_license_def load sum.case prod.case bool.case
    show ?thesis
    proof (cases "verify_token hmac token key (day_of_time now)")
      case (Inl e)
      moreover have "e \<noteq> RuntimeError" using Inl verify_raise by metis
      ultimately show ?thesis using that(1) [of e] acc load by (auto simp: V)
    next
      case ver: (Inr ok)
      show ?thesis
      proof (cases "ok \<and> lt_aml_dollar_cap_usd token \<noteq> AML_CAP_UNSET")
        case False
        then show ?thesis
          using that(2) [of "if ok then ''aml_cap_not_configured'' else ''license_invalid_or_expired''"] acc load ver
          by (cases ok) (auto simp: V)
      next
        case ok: True
        show ?thesis
        proof (cases ?check)
          case (Inl e)
          then have "e \<noteq> RuntimeError" using processor_raise [of token] by (metis sum.distinct(1))
          with Inl ok acc load ver show ?thesis using that(1) [of e] by (auto simp: V)
        next
          case check: (Inr r)
          show ?thesis
          proof (cases r)
            case (Some reason)
            with check ok acc load ver show ?thesis using that(2) [of reason] by (auto simp: V)
          next
            case None
            show ?thesis
            proof (cases "PStr (bv_required_component v) \<in> set (lt_permitted_components token)")
              case True
              with None check ok acc load ver show ?thesis using that(4) [of token key] by (auto simp: V Let_def)
            next
              case False
              with None check ok acc load ver show ?thesis using that(3) by (auto simp: V)
            qed
          qed
        qed
      qed
    qed
  qed
qed

lemma engage_halts:
  assumes "redis_laws R" "now \<le> t"
  shows "is_active R True (bv_ks (snd (engage R True now reason v))) t = Inr True"
    "fst (engage R True now reason v) = Inr ()"
  using redis_get_set [OF assms]
  by (auto simp: engage_def activate_def is_active_def Let_def split: option.split)

lemma engage_halts_all:
  assumes "redis_laws R" "now \<le> t" "ks = bv_ks v' \<or> ks_redis ks = ks_redis (bv_ks v') \<and> ks_redis ks \<noteq> None"
    and "v' = snd (engage R True now reason v)"
  shows "is_active R True ks t = Inr True"
proof (cases "ks = bv_ks v'")
  case True
  with engage_halts(1) [OF assms(1,2)] assms(4) show ?thesis by simp
next
  case False
  with assms(3) have "is_active R True ks t = is_active R True (bv_ks v') t"
    by (cases "ks_redis (bv_ks v')") (auto simp: is_active_def)
  with engage_halts(1) [OF assms(1,2)] assms(4) show ?thesis by simp
qed

lemma refuse_license_True: "fst (refuse_license R True now reason v) = Inr None"
  by (simp add: refuse_license_def engage_def activate_def Let_def split: option.split)

lemma refuse_license_snd: "snd (refuse_license R up now reason v) = snd (engage R up now reason v)"
  by (simp add: refuse_license_def split: prod.split)

section \<open>Properties\<close>

text \<open>What the check grants, to the letter: also a token whose count cap is the sentinel of an unset cap.\<close>

lemma license_enforced_any_cap:
  "fst (enforce_component_license R up hmac parse env now required kill_switch) = Inr result \<longleftrightarrow>
     (case result of
        None \<Rightarrow> \<not> license_validation_enabled env
      | Some context \<Rightarrow> license_validation_enabled env \<and>
          (\<exists>token key. load_token_and_key parse env = Inr (Inr (token, key)) \<and>
             license_accepted hmac (day_of_time now) required token key \<and> context = context_of_token token) \<and>
          is_active R up (case kill_switch of Some ks \<Rightarrow> ks | None \<Rightarrow> kill_switch_init None False) now = Inr False)"
proof (cases "license_validation_enabled env")
  case True
  define v where "v = boot_validator_init (case kill_switch of Some ks \<Rightarrow> ks | None \<Rightarrow> kill_switch_init None False) required"
  have v: "bv_required_component v = required"
    "bv_ks v = (case kill_switch of Some ks \<Rightarrow> ks | None \<Rightarrow> kill_switch_init None False)"
    by (simp_all add: v_def boot_validator_init_def)
  have e: "fst (enforce_component_license R up hmac parse env now required kill_switch) =
      (case validate_license R up hmac parse env now v of (r, v') \<Rightarrow>
        res_bind r (\<lambda>context. if context = None then Inl RuntimeError
          else res_bind (is_active R up (bv_ks v') now) (\<lambda>active. if active then Inl RuntimeError else Inr context)))"
    using True by (simp add: enforce_component_license_def Let_def v_def split: prod.split)
  show ?thesis
  proof (cases rule: validate_license_cases [of R up hmac parse env now v])
    case (1 e')
    then show ?thesis using e True v by (auto split: option.split)
  next
    case (2 reason)
    obtain r v' where r: "validate_license R up hmac parse env now v = (r, v')" by fastforce
    then have "r \<noteq> Inr (Some c)" for c using 2(1) refuse_license_none [of R up now reason v c] by simp
    with 2(2) r show ?thesis using e True v by (cases r) (auto split: option.splits)
  next
    case 3
    then show ?thesis using e True v by (auto simp: res_bind_Inr_iff split: option.splits prod.splits)
  next
    case (4 token key)
    then show ?thesis using e True v by (auto simp: res_bind_Inr_iff split: option.splits)
  qed
qed (auto simp: enforce_component_license_def split: option.split)

text \<open>
  C28: the licence is enforced.  With validation switched on, a service that asks for its licence
  gets a context exactly when the environment holds a token and a key such that the signature is that of
  the token's content, the token has not expired, its dollar cap is set, a processor's banks and take
  rate are valid and the component is permitted, and the kill switch is read as not engaged; the context is
  that of the token.  It gets none only when validation is switched off; in every other case it
  raises.  This is for environments whose token, if there is one, has its count cap set: one that has not is
  let through, although it is documented as refused.
\<close>

theorem license_enforced:
  assumes "\<forall>token key. load_token_and_key parse env = Inr (Inr (token, key)) \<longrightarrow> lt_aml_count_cap token \<noteq> AML_CAP_UNSET"
  shows "fst (enforce_component_license R up hmac parse env now required kill_switch) = Inr result \<longleftrightarrow>
     (case result of
        None \<Rightarrow> \<not> license_validation_enabled env
      | Some context \<Rightarrow> license_validation_enabled env \<and>
          (\<exists>token key. load_token_and_key parse env = Inr (Inr (token, key)) \<and>
             license_accepted hmac (day_of_time now) required token key \<and> context = context_of_token token) \<and>
          is_active R up (case kill_switch of Some ks \<Rightarrow> ks | None \<Rightarrow> kill_switch_init None False) now = Inr False)"
  by (rule license_enforced_any_cap)

text \<open>
  C29: A refused licence halts the cluster.  When the check refuses the licence (it returns none: the token or the
  key is missing or does not parse, the signature is wrong, the token has expired, a cap is missing or a
  processor's terms are invalid) or the component is not licensed (it raises \<open>RuntimeError\<close>), and the Redis
  server answers, then the kill switch is engaged from then on: for every process whose switch is on the same
  server, as the validator left it, or for the validator's own process when its switch has no server.  Each of
  them halts new offers.  The validator's context stays what it was.
\<close>

theorem refused_license_halts:
  assumes "redis_laws R" "now \<le> t"
    and "validate_license R True hmac parse env now v = (outcome, v')"
    and "outcome = Inr None \<or> outcome = Inl RuntimeError"
    and "ks = bv_ks v' \<or> ks_redis ks = ks_redis (bv_ks v') \<and> ks_redis ks \<noteq> None"
  shows "is_active R True ks t = Inr True \<and> should_halt_new_offers R True ks t = Inr True
    \<and> bv_context v' = bv_context v"
proof (cases rule: validate_license_cases [of R True hmac parse env now v])
  case (1 e')
  then show ?thesis using assms(3,4) by auto
next
  case (2 reason)
  then have r: "refuse_license R True now reason v = (outcome, v')" using assms(3) by simp
  have "v' = snd (engage R True now reason v)"
    using refuse_license_snd [of R True now reason v] unfolding r by simp
  then show ?thesis using engage_halts_all [OF assms(1,2)] assms(5) by (simp add: should_halt_new_offers_def)
next
  case 3
  then have "v' = snd (engage R True now ''component_not_licensed'' v)"
    using assms(3) by (auto split: prod.splits)
  then show ?thesis using engage_halts_all [OF assms(1,2)] assms(5) by (simp add: should_halt_new_offers_def)
next
  case (4 token key)
  then show ?thesis using assms(3,4) by auto
qed

text \<open>A deployment without a token: another process on the server, which never saw the licence, halts.\<close>

lemma refused_license_halts_witness:
  "let v = boot_validator_init (kill_switch_init (Some Map.empty) False) ''C7'';
       v' = snd (validate_license map_redis True (\<lambda>k p. ''s'') (\<lambda>_. None) (\<lambda>_. None) 0 v);
       other = kill_switch_init (ks_redis (bv_ks v')) False
   in should_halt_new_offers map_redis True other 5 = Inr True"
proof -
  let ?v = "boot_validator_init (kill_switch_init (Some Map.empty) False) ''C7''"
  let ?v' = "snd (validate_license map_redis True (\<lambda>k p. ''s'') (\<lambda>_. None) (\<lambda>_. None) 0 ?v)"
  have run: "validate_license map_redis True (\<lambda>k p. ''s'') (\<lambda>_. None) (\<lambda>_. None) 0 ?v = (Inr None, ?v')"
    "ks_redis (bv_ks ?v') \<noteq> None"
    by (simp_all add: validate_license_def load_token_and_key_def refuse_license_def engage_def activate_def
        boot_validator_init_def kill_switch_init_def)
  then show ?thesis
    using refused_license_halts [OF map_redis_laws _ run(1), of 5 "kill_switch_init (ks_redis (bv_ks ?v')) False"]
    by (simp add: Let_def kill_switch_init_def)
qed

text \<open>A token that is not an object.\<close>

lemma malformed_license_escapes:
  "validate_license R True hmac (\<lambda>_. Some (PList [])) (\<lambda>_. Some ''00'') now v = (Inl AttributeError, v)"
  by (simp add: validate_license_def load_token_and_key_def license_from_dict_def)

text \<open>A signed token passes, before and on its expiry date.\<close>

definition sample_license :: LicenseToken where
  "sample_license =
     \<lparr> lt_schema_version = 1, lt_licensee_id = PStr ''BANK_1'', lt_issue_date = PStr ''2026-01-01'',
       lt_expiry_date = PStr ''2026-12-31'', lt_max_tps = 100, lt_aml_dollar_cap_usd = 0, lt_aml_count_cap = 10,
       lt_min_loan_amount_usd = 500000, lt_deployment_phase = ''LICENSOR'', lt_licensee_type = ''PROCESSOR'',
       lt_sub_licensee_bics = [PStr ''DEUTDEFF''], lt_annual_minimum_usd = 0, lt_performance_premium_pct = 0,
       lt_platform_take_rate_pct = 2 / 10, lt_permitted_components = map PStr ALL_COMPONENTS,
       lt_hmac_signature = PStr ''s'' \<rparr>"

lemma sample_license_accepted:
  "license_accepted (\<lambda>k p. ''s'') (date 2026 12 31) ''C7'' sample_license [0]"
  "\<not> license_accepted (\<lambda>k p. ''s'') (date 2027 1 1) ''C7'' sample_license [0]"
proof -
  have "verify_token (\<lambda>k p. ''s'') sample_license [0] (date 2026 12 31) = Inr True"
    "verify_token (\<lambda>k p. ''s'') sample_license [0] (date 2027 1 1) = Inr False"
    "processor_check sample_license = Inr None"
    by code_simp+
  then show "license_accepted (\<lambda>k p. ''s'') (date 2026 12 31) ''C7'' sample_license [0]"
    "\<not> license_accepted (\<lambda>k p. ''s'') (date 2027 1 1) ''C7'' sample_license [0]"
    by (simp_all add: license_accepted_iff) (simp_all add: sample_license_def ALL_COMPONENTS_def AML_CAP_UNSET_def)
qed

definition sample_license_json :: pyval where
  "sample_license_json =
     PDict [(''licensee_id'', PStr ''BANK_1''), (''issue_date'', PStr ''2026-01-01''), (''expiry_date'', PStr ''2026-12-31''),
       (''max_tps'', PNum 100), (''aml_dollar_cap_usd'', PNum 0), (''aml_count_cap'', PNum 10),
       (''licensee_type'', PStr ''PROCESSOR''), (''sub_licensee_bics'', PList [PStr ''DEUTDEFF'']),
       (''platform_take_rate_pct'', PNum (2 / 10)), (''hmac_signature'', PStr ''s'')]"

lemma sample_license_loads:
  "load_token_and_key (\<lambda>_. Some sample_license_json) (\<lambda>_. Some ''01'') = Inr (Inr (sample_license, [1]))"
  by code_simp

lemma license_enforced_witness:
  "fst (enforce_component_license map_redis True (\<lambda>k p. ''s'') (\<lambda>_. Some sample_license_json)
     (\<lambda>name. if name = ''LIP_ENFORCE_LICENSE_VALIDATION'' then Some ''on'' else Some ''01'') 0 ''C7'' None)
   = Inr (Some (context_of_token sample_license))"
proof -
  let ?env = "\<lambda>name. if name = ''LIP_ENFORCE_LICENSE_VALIDATION'' then Some ''on'' else Some ''01''"
  have load: "load_token_and_key (\<lambda>_. Some sample_license_json) ?env = Inr (Inr (sample_license, [1]))" by code_simp
  have caps: "\<forall>token key. load_token_and_key (\<lambda>_. Some sample_license_json) ?env = Inr (Inr (token, key)) \<longrightarrow>
      lt_aml_count_cap token \<noteq> AML_CAP_UNSET"
    unfolding load by (simp add: sample_license_def AML_CAP_UNSET_def)
  have "license_validation_enabled ?env" by code_simp
  moreover have "license_accepted (\<lambda>k p. ''s'') (day_of_time 0) ''C7'' sample_license [1]"
  proof -
    have "verify_token (\<lambda>k p. ''s'') sample_license [1] (day_of_time 0) = Inr True" "processor_check sample_license = Inr None"
      by code_simp+
    then show ?thesis
      by (simp add: license_accepted_iff) (simp add: sample_license_def ALL_COMPONENTS_def AML_CAP_UNSET_def)
  qed
  moreover have "is_active map_redis True (kill_switch_init None False) 0 = Inr False"
    by (simp add: is_active_def kill_switch_init_def)
  ultimately show ?thesis
    by (subst license_enforced [OF caps]) (auto simp: load)
qed

text \<open>A final newline passes the pattern of a bank's identifier.\<close>

lemma bic_newline_passes: "bic_pattern (''DEUTDEFF'' @ [CHR 0x0A])" "\<not> bic_pattern ''deutdeff''"
  by code_simp+

end
