(* ===== verification/Royalty.thy ===== *)
theory Royalty
  imports Py_Month Py_Value
begin

text \<open>
  Royalties of repaid loans: \<open>lip/common/royalty_settlement.py\<close>, and the monthly scheduler of
  \<open>lip/common/royalty_batch.py\<close>.

  A record of a repayment is the dictionary the repayment loop hands to its callback.  Parameters: \<open>fromiso\<close>
  reads the ISO text of an aware UTC time; the Redis list holds the records themselves, as a record pushed as
  JSON is read back as it was.  The text \<open>YYYY-MM\<close> of the scheduler is the pair it stands for, and what it
  writes and sends is kept in logs.

  Shown: a monthly settlement reports every royalty of the month once, under its licensee, and its totals
  add up; the scheduler's first business day is that of the calendar unless the month begins on a weekend,
  and a settled month is settled again at every check of that day.
\<close>

section \<open>Records\<close>

record BPIRoyaltyRecord =
  br_uetr :: pyval
  br_licensee_id :: pyval
  br_royalty_usd :: dec
  br_repaid_at :: time
  br_loan_id :: pyval
  br_deployment_phase :: pyval
  br_income_type :: pyval

record MonthlySettlementReport =
  ms_licensee_id :: pyval
  ms_month :: int
  ms_year :: int
  ms_total_royalty_usd :: dec
  ms_transaction_count :: int
  ms_records :: "BPIRoyaltyRecord list"

text \<open>\<open>LRANGE 0 -1\<close> and \<open>RPUSH\<close> on the one list of royalties.\<close>

record 'l royalty_list =
  rl_lrange :: "'l \<Rightarrow> BPIRoyaltyRecord list"
  rl_rpush :: "'l \<Rightarrow> BPIRoyaltyRecord \<Rightarrow> 'l"

record 'l BPIRoyaltySettlement =
  rs_redis :: "'l option"
  rs_records :: "BPIRoyaltyRecord list"

definition royalty_settlement_init :: "'l royalty_list \<Rightarrow> bool \<Rightarrow> 'l option \<Rightarrow> 'l BPIRoyaltySettlement" where
  "royalty_settlement_init L up redis =
     \<lparr> rs_redis = redis, rs_records = (case redis of Some r \<Rightarrow> if up then rl_lrange L r else [] | None \<Rightarrow> []) \<rparr>"

definition persist_record :: "'l royalty_list \<Rightarrow> bool \<Rightarrow> BPIRoyaltyRecord \<Rightarrow> 'l BPIRoyaltySettlement \<Rightarrow> 'l BPIRoyaltySettlement" where
  "persist_record L up rec s =
     (case rs_redis s of None \<Rightarrow> s | Some r \<Rightarrow> if up then s\<lparr>rs_redis := Some (rl_rpush L r rec)\<rparr> else s)"

fun iso_time :: "(string \<Rightarrow> py_exc + time) \<Rightarrow> pyval \<Rightarrow> py_exc + time" where
  "iso_time fromiso (PStr s) = fromiso s"
| "iso_time fromiso _ = Inl TypeError"

definition royalty_of_repayment :: "(string \<Rightarrow> py_exc + time) \<Rightarrow> pyval \<Rightarrow> py_exc + BPIRoyaltyRecord" where
  "royalty_of_repayment fromiso repayment =
     res_bind (pitem repayment ''uetr'') (\<lambda>uetr.
     res_bind (pget repayment ''licensee_id'' (PStr ''UNKNOWN'')) (\<lambda>licensee.
     res_bind (res_bind (pitem repayment ''platform_royalty'') decimal_of) (\<lambda>royalty.
     res_bind (res_bind (pitem repayment ''repaid_at'') (iso_time fromiso)) (\<lambda>repaid_at.
     res_bind (pitem repayment ''loan_id'') (\<lambda>loan.
     res_bind (pget repayment ''deployment_phase'' (PStr ''LICENSOR'')) (\<lambda>phase.
     res_bind (pget repayment ''income_type'' (PStr ''ROYALTY'')) (\<lambda>income.
     Inr \<lparr> br_uetr = uetr, br_licensee_id = licensee, br_royalty_usd = royalty, br_repaid_at = repaid_at,
           br_loan_id = loan, br_deployment_phase = phase, br_income_type = income \<rparr>)))))))"

text \<open>\<open>InvalidOperation\<close> of \<open>Decimal\<close> is none of the exceptions that are caught.\<close>

definition record_repayment ::
    "'l royalty_list \<Rightarrow> bool \<Rightarrow> (string \<Rightarrow> py_exc + time) \<Rightarrow> pyval \<Rightarrow> 'l BPIRoyaltySettlement \<Rightarrow>
     (py_exc + unit) \<times> 'l BPIRoyaltySettlement" where
  "record_repayment L up fromiso repayment s =
     (case royalty_of_repayment fromiso repayment of
        Inl e \<Rightarrow> (if e \<in> {KeyError, ValueError, TypeError} then Inr () else Inl e, s)
      | Inr rec \<Rightarrow> (Inr (), persist_record L up rec (s\<lparr>rs_records := rs_records s @ [rec]\<rparr>)))"

definition royalty_clear :: "'l BPIRoyaltySettlement \<Rightarrow> 'l BPIRoyaltySettlement" where
  "royalty_clear s = s\<lparr>rs_records := []\<rparr>"

section \<open>Monthly settlement\<close>

definition paid_in :: "int \<Rightarrow> int \<Rightarrow> BPIRoyaltyRecord \<Rightarrow> bool" where
  "paid_in month year r \<longleftrightarrow> month_bucket (br_repaid_at r) = (year, month)"

fun hashable :: "pyval \<Rightarrow> bool" where
  "hashable (PList _) = False"
| "hashable (PDict _) = False"
| "hashable _ = True"

text \<open>\<open>if licensee_id and r.licensee_id != licensee_id: continue\<close>\<close>

definition other_licensee :: "string option \<Rightarrow> BPIRoyaltyRecord \<Rightarrow> bool" where
  "other_licensee wanted r \<longleftrightarrow> (case wanted of Some l \<Rightarrow> l \<noteq> [] \<and> br_licensee_id r \<noteq> PStr l | None \<Rightarrow> False)"

fun group_by_licensee ::
    "string option \<Rightarrow> BPIRoyaltyRecord list \<Rightarrow> (pyval, BPIRoyaltyRecord list) dict \<Rightarrow>
     py_exc + (pyval, BPIRoyaltyRecord list) dict" where
  "group_by_licensee wanted [] d = Inr d"
| "group_by_licensee wanted (r # rs) d =
     (if other_licensee wanted r then group_by_licensee wanted rs d
      else if \<not> hashable (br_licensee_id r) then Inl TypeError
      else group_by_licensee wanted rs
             (dset (br_licensee_id r) (value_or [] (dget d (br_licensee_id r)) @ [r]) d))"

definition settlement_report :: "int \<Rightarrow> int \<Rightarrow> pyval \<Rightarrow> BPIRoyaltyRecord list \<Rightarrow> MonthlySettlementReport" where
  "settlement_report month year licensee rs =
     \<lparr> ms_licensee_id = licensee, ms_month = month, ms_year = year,
       ms_total_royalty_usd = foldl dadd 0 (map br_royalty_usd rs), ms_transaction_count = int (length rs),
       ms_records = rs \<rparr>"

definition generate_monthly_settlement ::
    "int \<Rightarrow> int \<Rightarrow> string option \<Rightarrow> 'l BPIRoyaltySettlement \<Rightarrow> py_exc + MonthlySettlementReport list" where
  "generate_monthly_settlement month year licensee_id s =
     res_bind (group_by_licensee licensee_id (filter (paid_in month year) (rs_records s)) []) (\<lambda>by_licensee.
       Inr (map (\<lambda>(licensee, rs). settlement_report month year licensee rs) by_licensee))"

section \<open>The scheduler\<close>

record batch_notice =
  bn_licensee_id :: pyval
  bn_month :: int
  bn_year :: int
  bn_total_royalty_usd :: dec
  bn_transaction_count :: int

record 'l RoyaltyBatchScheduler =
  rb_settlement :: "'l BPIRoyaltySettlement"
  rb_notification :: bool
  rb_redis :: bool
  rb_stored :: "((int \<times> int) \<times> MonthlySettlementReport list) list"
  rb_notified :: "batch_notice list"
  rb_last_generated_month :: "(int \<times> int) option"

definition previous_month :: "int \<times> int \<Rightarrow> int \<times> int" where
  "previous_month b = (if snd b = 1 then (fst b - 1, 12) else (fst b, snd b - 1))"

definition generate_now ::
    "bool \<Rightarrow> time \<Rightarrow> int option \<Rightarrow> int option \<Rightarrow> 'l RoyaltyBatchScheduler \<Rightarrow>
     (py_exc + MonthlySettlementReport list) \<times> 'l RoyaltyBatchScheduler" where
  "generate_now up now month year s =
     (let (year, month) =
            (case (year, month) of (Some y, Some m) \<Rightarrow> (y, m) | _ \<Rightarrow> previous_month (month_bucket now))
      in case generate_monthly_settlement month year None (rb_settlement s) of
           Inl e \<Rightarrow> (Inl e, s)
         | Inr reports \<Rightarrow>
             (Inr reports,
              s\<lparr>rb_stored :=
                  (if rb_redis s \<and> reports \<noteq> [] \<and> up then rb_stored s @ [((year, month), reports)] else rb_stored s),
                rb_notified :=
                  (if rb_notification s then rb_notified s @
                     map (\<lambda>r. \<lparr> bn_licensee_id = ms_licensee_id r, bn_month = month, bn_year = year,
                                bn_total_royalty_usd = ms_total_royalty_usd r,
                                bn_transaction_count = ms_transaction_count r \<rparr>) reports
                   else rb_notified s),
                rb_last_generated_month := Some (year, month)\<rparr>))"

definition is_first_business_day :: "time \<Rightarrow> bool" where
  "is_first_business_day now =
     (let d = day_of_time now;
          first_weekday = weekday (date (year_of d) (month_of d) 1)
      in if weekday d \<ge> 5 then False
         else if day_of d = 1 then True
         else if day_of d = 2 \<and> first_weekday \<ge> 5 then True
         else if day_of d = 3 \<and> first_weekday = 6 then True
         else False)"

definition should_generate :: "time \<Rightarrow> 'l RoyaltyBatchScheduler \<Rightarrow> bool" where
  "should_generate now s =
     (if rb_last_generated_month s = Some (month_bucket now) then False else is_first_business_day now)"

text \<open>One round of the background thread: exceptions are logged.\<close>

definition batch_tick :: "bool \<Rightarrow> time \<Rightarrow> 'l RoyaltyBatchScheduler \<Rightarrow> 'l RoyaltyBatchScheduler" where
  "batch_tick up now s = (if should_generate now s then snd (generate_now up now None None s) else s)"

section \<open>Whole cents\<close>

definition whole_cents :: "dec \<Rightarrow> bool" where
  "whole_cents x \<longleftrightarrow> (\<exists>k :: int. 0 \<le> k \<and> x = of_int k / 100)"

lemma whole_cents_nonneg: "whole_cents x \<Longrightarrow> 0 \<le> x"
  by (auto simp: whole_cents_def)

lemma whole_cents_add:
  assumes "whole_cents a" "whole_cents b"
  shows "whole_cents (a + b)"
proof -
  obtain j k :: int where "0 \<le> j" "a = of_int j / 100" "0 \<le> k" "b = of_int k / 100"
    using assms by (auto simp: whole_cents_def)
  then have "0 \<le> j + k" "a + b = of_int (j + k) / 100" by (simp_all add: add_divide_distrib)
  then show ?thesis unfolding whole_cents_def by blast
qed

lemma dadd_cents:
  assumes "whole_cents a" "whole_cents b" "a + b < 10 ^ 26"
  shows "dadd a b = a + b"
proof -
  obtain k :: int where k: "0 \<le> k" "a + b = of_int k / 100"
    using whole_cents_add [OF assms(1,2)] by (auto simp: whole_cents_def)
  then have "of_int k < (10 ^ 28 :: rat)" using assms(3) by simp
  then have "\<bar>k\<bar> < 10 ^ 28" using k(1) by (simp add: of_int_less_numeral_power_cancel_iff)
  from ctx_cents [OF this] show ?thesis by (simp add: dadd_def k(2))
qed

lemma foldl_dadd_cents:
  assumes "\<forall>x \<in> set xs. whole_cents x" "whole_cents a" "a + sum_list xs < 10 ^ 26"
  shows "foldl dadd a xs = a + sum_list xs"
  using assms
proof (induction xs arbitrary: a)
  case (Cons x xs)
  have "0 \<le> sum_list xs" using Cons.prems(1) by (intro sum_list_nonneg) (simp add: whole_cents_nonneg)
  then have "dadd a x = a + x" using Cons.prems by (intro dadd_cents) simp_all
  moreover have "whole_cents (a + x)" using Cons.prems by (simp add: whole_cents_add)
  ultimately show ?case using Cons.IH [of "a + x"] Cons.prems by (simp add: add.assoc)
qed simp

section \<open>Settlements\<close>

lemma sum_dset:
  fixes w :: "'b list \<Rightarrow> 'c :: ab_group_add"
  assumes "dict_ok d" "w [] = 0"
  shows "sum_list (map (\<lambda>x. w (snd x)) (dset k v d)) =
    sum_list (map (\<lambda>x. w (snd x)) d) - w (value_or [] (dget d k)) + w v"
  using assms(1)
proof (induction d)
  case (Cons x d)
  then have d: "dict_ok d" "fst x \<notin> fst ` set d" by (simp_all add: dict_ok_def)
  then have "dget d (fst x) = None" by (simp add: map_of_eq_None_iff)
  then show ?case using Cons.IH [OF d(1)] assms(2) by (cases x) (auto simp: algebra_simps)
qed (simp add: assms(2))

lemma group_spec:
  assumes "group_by_licensee w rs d = Inr d'" "dict_ok d"
  shows "dict_ok d'"
    and "value_or [] (dget d' l) = value_or [] (dget d l) @ filter (\<lambda>r. br_licensee_id r = l \<and> \<not> other_licensee w r) rs"
    and "F [] = 0 \<Longrightarrow> (\<And>xs x. F (xs @ [x]) = F xs + F [x]) \<Longrightarrow>
      sum_list (map (\<lambda>x. F (snd x)) d') =
        sum_list (map (\<lambda>x. F (snd x)) d) + sum_list (map (\<lambda>r. F [r]) (filter (\<lambda>r. \<not> other_licensee w r) rs) :: 'c :: ab_group_add list)"
proof -
  have "dict_ok d' \<and> (\<forall>l. value_or [] (dget d' l) = value_or [] (dget d l) @
      filter (\<lambda>r. br_licensee_id r = l \<and> \<not> other_licensee w r) rs) \<and>
    (F [] = 0 \<longrightarrow> (\<forall>xs x. F (xs @ [x]) = F xs + F [x]) \<longrightarrow>
      sum_list (map (\<lambda>x. F (snd x)) d') =
        sum_list (map (\<lambda>x. F (snd x)) d) + sum_list (map (\<lambda>r. F [r]) (filter (\<lambda>r. \<not> other_licensee w r) rs)))"
    for F :: "BPIRoyaltyRecord list \<Rightarrow> 'c"
    using assms
  proof (induction w rs d rule: group_by_licensee.induct)
    case (2 w r rs d)
    show ?case
    proof (cases "other_licensee w r")
      case False
      let ?d = "dset (br_licensee_id r) (value_or [] (dget d (br_licensee_id r)) @ [r]) d"
      have h: "hashable (br_licensee_id r)" using 2(3) False by (simp split: if_splits)
      have "group_by_licensee w rs ?d = Inr d'" "dict_ok ?d" using 2(3,4) False h by simp_all
      from 2(2) [OF False _ this] h show ?thesis
        using False by (auto simp: dict_simps sum_dset [OF 2(4)] add.assoc)
    qed (use 2 in simp)
  qed simp
  then show "dict_ok d'"
    "value_or [] (dget d' l) = value_or [] (dget d l) @ filter (\<lambda>r. br_licensee_id r = l \<and> \<not> other_licensee w r) rs"
    "F [] = 0 \<Longrightarrow> (\<And>xs x. F (xs @ [x]) = F xs + F [x]) \<Longrightarrow>
      sum_list (map (\<lambda>x. F (snd x)) d') =
        sum_list (map (\<lambda>x. F (snd x)) d) + sum_list (map (\<lambda>r. F [r]) (filter (\<lambda>r. \<not> other_licensee w r) rs))"
    by blast+
qed

lemma sum_le_sum_list: "\<forall>x \<in> set xs. 0 \<le> f x \<Longrightarrow> sum_list (map f (filter P xs)) \<le> (sum_list (map f xs) :: rat)"
  by (induction xs) auto

text \<open>
  A monthly settlement reports every royalty once.  When the royalties on record are whole cents and
  together below 10^26 dollars, the reports of a month have distinct licensees, the records of a report are
  the royalties of that licensee repaid in the month, in order, and its total is their sum; counts and totals of
  all reports add up to the number and the sum of the royalties of the month.
\<close>

lemma royalty_settlement_conserves:
  assumes "\<forall>r \<in> set (rs_records s). whole_cents (br_royalty_usd r)"
    and "sum_list (map br_royalty_usd (rs_records s)) < 10 ^ 26"
    and "generate_monthly_settlement month year None s = Inr reports"
  shows "let due = filter (\<lambda>r. month_bucket (br_repaid_at r) = (year, month)) (rs_records s) in
    distinct (map ms_licensee_id reports) \<and>
    (\<forall>rp \<in> set reports. ms_records rp = filter (\<lambda>r. br_licensee_id r = ms_licensee_id rp) due \<and>
       ms_total_royalty_usd rp = sum_list (map br_royalty_usd (ms_records rp))) \<and>
    sum_list (map ms_total_royalty_usd reports) = sum_list (map br_royalty_usd due) \<and>
    sum_list (map ms_transaction_count reports) = int (length due)"
proof -
  define due where "due = filter (paid_in month year) (rs_records s)"
  obtain d where d: "group_by_licensee None due [] = Inr d"
    "reports = map (\<lambda>(l, rs). settlement_report month year l rs) d"
    using assms(3) by (auto simp: generate_monthly_settlement_def due_def res_bind_Inr_iff)
  note G = group_spec [OF d(1)]
  have ok: "dict_ok d" by (rule G(1)) simp
  have none: "other_licensee None = (\<lambda>r. False)" by (simp add: other_licensee_def fun_eq_iff)
  have rs: "rs = filter (\<lambda>r. br_licensee_id r = l) due" if "(l, rs) \<in> set d" for l rs
    using G(2) [of l] that ok by (simp add: none mem_dget)
  have exact: "foldl dadd 0 (map br_royalty_usd rs) = sum_list (map br_royalty_usd rs)" if "(l, rs) \<in> set d" for l rs
  proof -
    have sub: "rs = filter (\<lambda>r. br_licensee_id r = l \<and> paid_in month year r) (rs_records s)"
      using rs [OF that] by (simp add: due_def conj_commute)
    have "sum_list (map br_royalty_usd rs) \<le> sum_list (map br_royalty_usd (rs_records s))"
      unfolding sub using assms(1) by (intro sum_le_sum_list) (simp add: whole_cents_nonneg)
    moreover have "\<forall>x \<in> set (map br_royalty_usd rs). whole_cents x" using assms(1) unfolding sub by simp
    moreover have "whole_cents 0" unfolding whole_cents_def by (intro exI [of _ 0]) simp
    ultimately show ?thesis using foldl_dadd_cents [of "map br_royalty_usd rs" 0] assms(2) by simp
  qed
  have "sum_list (map ms_total_royalty_usd reports) = sum_list (map (\<lambda>x. sum_list (map br_royalty_usd (snd x))) d)"
    using exact by (auto simp: d(2) settlement_report_def intro!: arg_cong [of _ _ sum_list])
  moreover have "sum_list (map ms_transaction_count reports) = sum_list (map (\<lambda>x. int (length (snd x))) d)"
    by (simp add: d(2) settlement_report_def split_def comp_def)
  moreover have "sum_list (map (\<lambda>x. sum_list (map br_royalty_usd (snd x))) d) = sum_list (map br_royalty_usd due)"
    using G(3) [of "\<lambda>rs. sum_list (map br_royalty_usd rs)"] by (simp add: none)
  moreover have "sum_list (map (\<lambda>x. int (length (snd x))) d) = int (length due)"
    using G(3) [of "\<lambda>rs. int (length rs)"] by (simp add: none sum_list_triv)
  moreover have "distinct (map ms_licensee_id reports)"
    using ok by (simp add: d(2) dict_ok_def settlement_report_def split_def comp_def)
  moreover have "\<forall>rp \<in> set reports. ms_records rp = filter (\<lambda>r. br_licensee_id r = ms_licensee_id rp) due \<and>
       ms_total_royalty_usd rp = sum_list (map br_royalty_usd (ms_records rp))"
    using rs exact by (auto simp: d(2) settlement_report_def)
  ultimately show ?thesis unfolding due_def paid_in_def Let_def by simp
qed

definition sample_royalty :: "string \<Rightarrow> int \<Rightarrow> time \<Rightarrow> BPIRoyaltyRecord" where
  "sample_royalty licensee cents t =
     \<lparr> br_uetr = PStr ''u'', br_licensee_id = PStr licensee, br_royalty_usd = of_int cents / 100, br_repaid_at = t,
       br_loan_id = PStr ''l'', br_deployment_phase = PStr ''LICENSOR'', br_income_type = PStr ''ROYALTY'' \<rparr>"

definition sample_settlement :: "unit BPIRoyaltySettlement" where
  "sample_settlement =
     \<lparr> rs_redis = None,
       rs_records = [sample_royalty ''A'' 1050 0, sample_royalty ''B'' 200 86400, sample_royalty ''A'' 5 (31 * 86400),
                     sample_royalty ''A'' 25 172800] \<rparr>"

lemma royalty_settlement_conserves_witness:
  "\<exists>reports. generate_monthly_settlement 1 1970 None sample_settlement = Inr reports \<and>
     sum_list (map ms_total_royalty_usd reports) = 1275 / 100 \<and> sum_list (map ms_transaction_count reports) = 3"
proof -
  have due: "filter (\<lambda>r. month_bucket (br_repaid_at r) = (1970, 1)) (rs_records sample_settlement) =
      [sample_royalty ''A'' 1050 0, sample_royalty ''B'' 200 86400, sample_royalty ''A'' 25 172800]"
    by code_simp
  have cents: "\<forall>r \<in> set (rs_records sample_settlement). whole_cents (br_royalty_usd r)"
    unfolding whole_cents_def sample_settlement_def sample_royalty_def by (auto intro: exI [of _ "1050 :: int"]
        exI [of _ "200 :: int"] exI [of _ "5 :: int"] exI [of _ "25 :: int"])
  have small: "sum_list (map br_royalty_usd (rs_records sample_settlement)) < 10 ^ 26"
    by (simp add: sample_settlement_def sample_royalty_def)
  obtain reports where g: "generate_monthly_settlement 1 1970 None sample_settlement = Inr reports"
    unfolding generate_monthly_settlement_def due [folded paid_in_def]
    by (simp add: sample_royalty_def other_licensee_def)
  from royalty_settlement_conserves [OF cents small g] show ?thesis
    unfolding due using g by (auto simp: Let_def sample_royalty_def)
qed

section \<open>The scheduler's day\<close>

lemma weekday_next: "weekday (d + 1) = (if weekday d = 6 then 0 else weekday d + 1)"
proof -
  have "weekday (d + 1) = (weekday d + 1) mod 7"
    using mod_add_left_eq [of "d + 6" 7 1] by (simp only: weekday_def ac_simps)
  moreover have "0 \<le> weekday d" "weekday d \<le> 6" by (rule weekday_range)+
  ultimately show ?thesis by (cases "weekday d = 6") simp_all
qed

text \<open>
  C88: The scheduler's first business day.  In a month that begins on a weekday it is the first; in one
  that begins on a Sunday both Monday the second and Tuesday the third; in one that begins on a Saturday
  no day at all, although Monday the third is the first business day.
\<close>

theorem first_business_day_iff:
  "is_first_business_day now \<longleftrightarrow>
     (let d = day_of_time now; first = weekday (date (year_of d) (month_of d) 1)
      in if first = 5 then False else if first = 6 then day_of d = 2 \<or> day_of d = 3 else day_of d = 1)"
proof -
  define d where "d = day_of_time now"
  define f where "f = date (year_of d) (month_of d) 1"
  have day: "day_of d = d - f + 1" by (simp add: day_of_def f_def date_def)
  have w: "0 \<le> weekday f" "weekday f \<le> 6" by (rule weekday_range)+
  have "weekday d = weekday f" if "day_of d = 1" using that day by simp
  moreover have "weekday d = (if weekday f = 6 then 0 else weekday f + 1)" if "day_of d = 2"
    using that day weekday_next [of f] by (simp add: algebra_simps)
  moreover have "weekday d = 1" if "day_of d = 3" "weekday f = 6"
  proof -
    have "d = f + 1 + 1" using that(1) day by simp
    then show ?thesis using weekday_next [of f] weekday_next [of "f + 1"] that(2) by simp
  qed
  ultimately show ?thesis
    unfolding is_first_business_day_def Let_def d_def [symmetric] f_def [symmetric] using w by auto
qed

lemma previous_month_differs: "previous_month b \<noteq> b"
  by (cases b) (auto simp: previous_month_def)

lemma generated_month:
  "rb_last_generated_month (snd (generate_now up now None None s)) \<in> {rb_last_generated_month s, Some (previous_month (month_bucket now))}"
  by (auto simp: generate_now_def Let_def split: prod.split sum.split)

text \<open>
  A settled month is settled again.  On its day the scheduler generates at the first check and at every
  later one, however many came before: it remembers the month it settled and compares it with the current
  one.
\<close>

lemma batch_generates_again:
  assumes "\<forall>t \<in> set checks. month_bucket t = month_bucket now" "is_first_business_day now"
    and "rb_last_generated_month s \<noteq> Some (month_bucket now)"
  shows "should_generate now (fold (batch_tick up) checks s)"
proof -
  have "rb_last_generated_month (fold (batch_tick up) checks s) \<noteq> Some (month_bucket now)"
    using assms(1,3)
  proof (induction checks arbitrary: s)
    case (Cons t checks)
    have "rb_last_generated_month (batch_tick up t s) \<noteq> Some (month_bucket now)"
      using generated_month [of up t s] Cons.prems previous_month_differs [of "month_bucket t"]
      by (auto simp: batch_tick_def)
    with Cons show ?case by simp
  qed simp
  with assms(2) show ?thesis by (simp add: should_generate_def)
qed

definition sample_scheduler :: "unit RoyaltyBatchScheduler" where
  "sample_scheduler =
     \<lparr> rb_settlement = sample_settlement, rb_notification = True, rb_redis = True, rb_stored = [], rb_notified = [],
       rb_last_generated_month = None \<rparr>"

text \<open>Monday the second of February 1970, twice.\<close>

lemma batch_generates_again_witness:
  "should_generate (32 * 86400 + 3600) (fold (batch_tick True) [32 * 86400] sample_scheduler)"
proof -
  have "\<forall>t \<in> set [32 * 86400]. month_bucket t = month_bucket (32 * 86400 + 3600)" by code_simp
  moreover have "is_first_business_day (32 * 86400 + 3600)" by code_simp
  ultimately show ?thesis by (rule batch_generates_again) (simp add: sample_scheduler_def)
qed

end
