(* ===== verification/Settlement_Bridge.thy ===== *)
theory Settlement_Bridge
  imports Royalty Repayment_Loop "HOL-Library.List_Lexorder" "HOL-Library.Char_ord"
begin

text \<open>
  What happens to a repayment after the loop: \<open>lip/c3_repayment_engine/settlement_bridge.py\<close> hands it to the
  royalty settlement, and in processor mode to the revenue metering (\<open>lip/c8_license_manager/revenue_metering.py\<close>)
  and to the history of \<open>lip/c3_repayment_engine/nav_emitter.py\<close>, which reports each tenant's active loans
  and recent settlements.

  A repayment is the dictionary of the loop; \<open>fromiso\<close> and \<open>to_iso\<close> read and write the ISO text of a time.  The
  semaphore is its number of permits.  Exceptions of a consumer are logged, so that only its effect is kept.

  Shown: a metered fee is split without loss, each share within the fee; every repayment is booked once, in
  order, with each consumer that is configured; the settlements of the last hour are reported as the full
  history has them although old ones are dropped.
\<close>

section \<open>Revenue metering\<close>

record TransactionMeterEntry =
  tm_tenant_id :: pyval
  tm_uetr :: pyval
  tm_gross_fee_usd :: dec
  tm_processor_take_usd :: dec
  tm_bpi_net_usd :: dec
  tm_metered_at :: time

record QuarterlyRevenueSummary =
  qr_tenant_id :: pyval
  qr_quarter :: string
  qr_transaction_count :: int
  qr_gross_fee_usd :: dec
  qr_processor_take_usd :: dec
  qr_bpi_net_usd :: dec
  qr_annual_minimum_usd :: dec
  qr_minimum_shortfall_usd :: dec
  qr_performance_baseline_usd :: dec
  qr_above_baseline_usd :: dec
  qr_performance_premium_usd :: dec
  qr_total_bpi_revenue_usd :: dec

type_synonym RevenueMetering = "(pyval, TransactionMeterEntry list) dict"

definition metered_entry :: "time \<Rightarrow> pyval \<Rightarrow> pyval \<Rightarrow> dec \<Rightarrow> dec \<Rightarrow> py_exc + TransactionMeterEntry" where
  "metered_entry now tenant_id uetr gross_fee_usd take_rate =
     res_bind (quantize 2 (dmul gross_fee_usd take_rate)) (\<lambda>processor_take.
     let bpi_net = dsub gross_fee_usd processor_take
     in Inr \<lparr> tm_tenant_id = tenant_id, tm_uetr = uetr, tm_gross_fee_usd = gross_fee_usd,
              tm_processor_take_usd = processor_take, tm_bpi_net_usd = bpi_net, tm_metered_at = now \<rparr>)"

definition entries_of :: "pyval \<Rightarrow> RevenueMetering \<Rightarrow> TransactionMeterEntry list" where
  "entries_of tenant_id m = value_or [] (dget m tenant_id)"

definition record_transaction ::
    "time \<Rightarrow> pyval \<Rightarrow> pyval \<Rightarrow> dec \<Rightarrow> dec \<Rightarrow> RevenueMetering \<Rightarrow> (py_exc + TransactionMeterEntry) \<times> RevenueMetering" where
  "record_transaction now tenant_id uetr gross_fee_usd take_rate m =
     (case metered_entry now tenant_id uetr gross_fee_usd take_rate of
        Inl e \<Rightarrow> (Inl e, m)
      | Inr entry \<Rightarrow>
          if \<not> hashable tenant_id then (Inl TypeError, m)
          else (Inr entry, dset tenant_id (entries_of tenant_id m @ [entry]) m))"

definition decimal_total :: "dec list \<Rightarrow> dec" where
  "decimal_total xs = foldl dadd 0 xs"

definition compute_quarterly_summary ::
    "pyval \<Rightarrow> string \<Rightarrow> dec \<Rightarrow> dec \<Rightarrow> dec \<Rightarrow> RevenueMetering \<Rightarrow> py_exc + QuarterlyRevenueSummary" where
  "compute_quarterly_summary tenant_id quarter annual_minimum premium_pct baseline m =
     (let entries = entries_of tenant_id m;
          gross = decimal_total (map tm_gross_fee_usd entries);
          proc_take = decimal_total (map tm_processor_take_usd entries);
          bpi_net = decimal_total (map tm_bpi_net_usd entries);
          above_baseline = max 0 (dsub bpi_net baseline)
      in res_bind (quantize 2 (dmul above_baseline premium_pct)) (\<lambda>premium.
         let total_bpi = dadd bpi_net premium;
             shortfall = max 0 (dsub annual_minimum bpi_net)
         in Inr \<lparr> qr_tenant_id = tenant_id, qr_quarter = quarter, qr_transaction_count = int (length entries),
                  qr_gross_fee_usd = gross, qr_processor_take_usd = proc_take, qr_bpi_net_usd = bpi_net,
                  qr_annual_minimum_usd = annual_minimum, qr_minimum_shortfall_usd = shortfall,
                  qr_performance_baseline_usd = baseline, qr_above_baseline_usd = above_baseline,
                  qr_performance_premium_usd = premium, qr_total_bpi_revenue_usd = total_bpi \<rparr>))"

definition check_annual_minimum_shortfall :: "pyval \<Rightarrow> dec \<Rightarrow> int \<Rightarrow> RevenueMetering \<Rightarrow> dec" where
  "check_annual_minimum_shortfall tenant_id annual_minimum year m =
     max 0 (dsub annual_minimum (decimal_total (map tm_bpi_net_usd (entries_of tenant_id m))))"

section \<open>NAV snapshots\<close>

record NAVEvent =
  nv_tenant_id :: string
  nv_active_loans :: int
  nv_total_exposure_usd :: dec
  nv_settled_last_60min :: int
  nv_settled_amount_last_60min_usd :: dec
  nv_trailing_loss_rate_30d :: dec
  nv_timestamp :: time

type_synonym settlement_record = "dec \<times> time"

record NAVEventEmitter =
  ne_history :: "(pyval, settlement_record list) dict"
  ne_callbacks :: "NAVEvent list"

definition HISTORY_MAXLEN :: nat where "HISTORY_MAXLEN = 100000"

definition history_of :: "pyval \<Rightarrow> NAVEventEmitter \<Rightarrow> settlement_record list" where
  "history_of tenant_id e = value_or [] (dget (ne_history e) tenant_id)"

text \<open>A \<open>deque\<close> with \<open>maxlen\<close> drops from the left.\<close>

definition deque_append :: "nat \<Rightarrow> 'a \<Rightarrow> 'a list \<Rightarrow> 'a list" where
  "deque_append maxlen x xs = drop (length xs + 1 - maxlen) (xs @ [x])"

definition record_settlement :: "pyval \<Rightarrow> dec \<Rightarrow> time \<Rightarrow> NAVEventEmitter \<Rightarrow> (py_exc + unit) \<times> NAVEventEmitter" where
  "record_settlement tenant_id amount timestamp e =
     (if \<not> hashable tenant_id then (Inl TypeError, e)
      else (Inr (), e\<lparr>ne_history :=
              dset tenant_id (deque_append HISTORY_MAXLEN (amount, timestamp) (history_of tenant_id e)) (ne_history e)\<rparr>))"

definition settled_last_60min :: "time \<Rightarrow> settlement_record list \<Rightarrow> int \<times> dec" where
  "settled_last_60min now history =
     (let recent = filter (\<lambda>(amount, timestamp). timestamp \<ge> now - 3600) history
      in (int (length recent), decimal_total (map fst recent)))"

definition purge_old_history :: "time \<Rightarrow> NAVEventEmitter \<Rightarrow> NAVEventEmitter" where
  "purge_old_history now e =
     e\<lparr>ne_history :=
         filter (\<lambda>(tenant_id, dq). dq \<noteq> [])
           (map (\<lambda>(tenant_id, dq). (tenant_id, dropWhile (\<lambda>(amount, timestamp). timestamp < now - 30 * 86400) dq))
             (ne_history e))\<rparr>"

definition nav_event :: "time \<Rightarrow> NAVEventEmitter \<Rightarrow> string \<Rightarrow> ActiveLoan list \<Rightarrow> NAVEvent" where
  "nav_event now e tenant_id loans =
     (let (settled_count, settled_amount) = settled_last_60min now (history_of (PStr tenant_id) e)
      in \<lparr> nv_tenant_id = tenant_id, nv_active_loans = int (length loans),
           nv_total_exposure_usd = decimal_total (map principal loans), nv_settled_last_60min = settled_count,
           nv_settled_amount_last_60min_usd = settled_amount, nv_trailing_loss_rate_30d = 0, nv_timestamp = now \<rparr>)"

text \<open>The schema refuses a negative amount, which is a \<open>ValueError\<close>.\<close>

fun emit_tenants ::
    "time \<Rightarrow> (string \<times> ActiveLoan list) list \<Rightarrow> NAVEvent list \<Rightarrow> NAVEventEmitter \<Rightarrow>
     (py_exc + NAVEvent list) \<times> NAVEventEmitter" where
  "emit_tenants now [] events e = (Inr events, e)"
| "emit_tenants now ((tenant_id, loans) # rest) events e =
     (let nav = nav_event now e tenant_id loans
      in if nv_total_exposure_usd nav < 0 \<or> nv_settled_amount_last_60min_usd nav < 0 then (Inl ValueError, e)
         else emit_tenants now rest (events @ [nav]) (e\<lparr>ne_callbacks := ne_callbacks e @ [nav]\<rparr>))"

text \<open>The active loans by tenant, sorted by tenant.\<close>

definition loans_by_tenant :: "ActiveLoan list \<Rightarrow> (string \<times> ActiveLoan list) list" where
  "loans_by_tenant loans =
     map (\<lambda>t. (t, filter (\<lambda>l. licensee_id l = t) loans))
       (sort (remdups (filter (\<lambda>t. t \<noteq> '''') (map licensee_id loans))))"

definition emit_snapshot :: "time \<Rightarrow> ActiveLoan list \<Rightarrow> NAVEventEmitter \<Rightarrow> (py_exc + NAVEvent list) \<times> NAVEventEmitter" where
  "emit_snapshot now active_loans e =
     (case emit_tenants now (loans_by_tenant active_loans) [] e of
        (Inl x, e) \<Rightarrow> (Inl x, e)
      | (Inr events, e) \<Rightarrow> (Inr events, purge_old_history now e))"

section \<open>The bridge\<close>

record 'l SettlementCallbackBridge =
  sb_royalty :: "'l BPIRoyaltySettlement"
  sb_revenue :: "RevenueMetering option"
  sb_nav :: "NAVEventEmitter option"
  sb_take_rate :: "dec option"
  sb_permits :: int

definition MAX_CONCURRENT_CALLBACKS :: int where "MAX_CONCURRENT_CALLBACKS = 100"

definition bridge_init :: "'l BPIRoyaltySettlement \<Rightarrow> 'l SettlementCallbackBridge" where
  "bridge_init royalty =
     \<lparr> sb_royalty = royalty, sb_revenue = None, sb_nav = None, sb_take_rate = None,
       sb_permits = MAX_CONCURRENT_CALLBACKS \<rparr>"

definition upgrade_to_processor_mode ::
    "RevenueMetering \<Rightarrow> NAVEventEmitter \<Rightarrow> dec \<Rightarrow> 'l SettlementCallbackBridge \<Rightarrow> 'l SettlementCallbackBridge" where
  "upgrade_to_processor_mode revenue nav take_rate b =
     b\<lparr>sb_revenue := Some revenue, sb_nav := Some nav, sb_take_rate := Some take_rate\<rparr>"

text \<open>\<open>Decimal(v)\<close>.\<close>

fun decimal_new :: "pyval \<Rightarrow> py_exc + dec" where
  "decimal_new (PNum d) = Inr d"
| "decimal_new (PStr s) = py_decimal s"
| "decimal_new (PBool b) = Inr (if b then 1 else 0)"
| "decimal_new _ = Inl TypeError"

definition meter_repayment :: "time \<Rightarrow> pyval \<Rightarrow> pyval \<Rightarrow> dec \<Rightarrow> RevenueMetering \<Rightarrow> RevenueMetering" where
  "meter_repayment now tenant_id repayment take_rate m =
     (case res_bind (pitem repayment ''uetr'') (\<lambda>uetr.
             res_bind (res_bind (pitem repayment ''fee'') decimal_new) (\<lambda>fee. Inr (uetr, fee))) of
        Inl _ \<Rightarrow> m
      | Inr (uetr, fee) \<Rightarrow> snd (record_transaction now tenant_id uetr fee take_rate m))"

definition nav_repayment :: "(string \<Rightarrow> py_exc + time) \<Rightarrow> pyval \<Rightarrow> pyval \<Rightarrow> NAVEventEmitter \<Rightarrow> NAVEventEmitter" where
  "nav_repayment fromiso tenant_id repayment e =
     (case res_bind (res_bind (pitem repayment ''settlement_amount'') decimal_new) (\<lambda>amount.
             res_bind (res_bind (pitem repayment ''repaid_at'') (iso_time fromiso)) (\<lambda>t. Inr (amount, t))) of
        Inl _ \<Rightarrow> e
      | Inr (amount, t) \<Rightarrow> snd (record_settlement tenant_id amount t e))"

definition bridge_dispatch ::
    "'l royalty_list \<Rightarrow> bool \<Rightarrow> (string \<Rightarrow> py_exc + time) \<Rightarrow> time \<Rightarrow> pyval \<Rightarrow> 'l SettlementCallbackBridge \<Rightarrow>
     (py_exc + unit) \<times> 'l SettlementCallbackBridge" where
  "bridge_dispatch L up fromiso now repayment b =
     (let b = b\<lparr>sb_royalty := snd (record_repayment L up fromiso repayment (sb_royalty b))\<rparr>
      in case pget repayment ''licensee_id'' (PStr '''') of
           Inl e \<Rightarrow> (Inl e, b)
         | Inr tenant_id \<Rightarrow>
             if \<not> truth tenant_id then (Inr (), b)
             else (Inr (),
               b\<lparr>sb_revenue :=
                   (case (sb_revenue b, sb_take_rate b) of
                      (Some m, Some rate) \<Rightarrow> Some (meter_repayment now tenant_id repayment rate m)
                    | _ \<Rightarrow> sb_revenue b),
                 sb_nav := map_option (nav_repayment fromiso tenant_id repayment) (sb_nav b)\<rparr>))"

definition bridge_call ::
    "'l royalty_list \<Rightarrow> bool \<Rightarrow> (string \<Rightarrow> py_exc + time) \<Rightarrow> time \<Rightarrow> pyval \<Rightarrow> 'l SettlementCallbackBridge \<Rightarrow>
     (py_exc + unit) \<times> 'l SettlementCallbackBridge" where
  "bridge_call L up fromiso now repayment b =
     (if sb_permits b \<le> 0 then (Inr (), b)
      else
        let (r, b) = bridge_dispatch L up fromiso now repayment (b\<lparr>sb_permits := sb_permits b - 1\<rparr>)
        in (r, b\<lparr>sb_permits := sb_permits b + 1\<rparr>))"

text \<open>The dictionary of the repayment loop.\<close>

fun trigger_value :: "RepaymentTrigger \<Rightarrow> string" where
  "trigger_value SETTLEMENT_CONFIRMED = ''SETTLEMENT_CONFIRMED''"
| "trigger_value MATURITY_REACHED = ''MATURITY_REACHED''"
| "trigger_value BUFFER_SETTLEMENT = ''BUFFER_SETTLEMENT''"
| "trigger_value MANUAL = ''MANUAL''"

text \<open>\<open>str\<close> of an amount is a text that \<open>Decimal\<close> reads back: the number stands for it.\<close>

definition repayment_dict :: "(time \<Rightarrow> string) \<Rightarrow> RepaymentRecord \<Rightarrow> pyval" where
  "repayment_dict to_iso rec =
     PDict
      [(''loan_id'', PStr (rec_loan_id rec)), (''uetr'', PStr (rec_uetr rec)),
       (''individual_payment_id'', PStr (rec_individual_payment_id rec)),
       (''principal'', PNum (rec_principal rec)), (''fee'', PNum (rec_fee rec)),
       (''bpi_fee_share_usd'', PNum (rec_bpi_fee_share_usd rec)),
       (''platform_royalty'', PNum (rec_platform_royalty rec)),
       (''net_fee_to_entities'', PNum (rec_net_fee_to_entities rec)),
       (''bank_capital_return_usd'', PNum (rec_bank_capital_return_usd rec)),
       (''bank_distribution_premium_usd'', PNum (rec_bank_distribution_premium_usd rec)),
       (''income_type'', PStr (rec_income_type rec)), (''deployment_phase'', PStr (rec_deployment_phase rec)),
       (''licensee_id'', PStr (rec_licensee_id rec)), (''fee_bps'', PNum (of_int (rec_fee_bps rec))),
       (''settlement_amount'', PNum (rec_settlement_amount rec)), (''corridor'', PStr (rec_corridor rec)),
       (''rejection_class'', PStr (rec_rejection_class rec)), (''trigger'', PStr (trigger_value (rec_trigger rec))),
       (''funded_at'', PStr (to_iso (rec_funded_at rec))), (''maturity_date'', PStr (to_iso (rec_maturity_date rec))),
       (''repaid_at'', PStr (to_iso (rec_repaid_at rec))), (''is_partial'', PBool (rec_is_partial rec)),
       (''shortfall_amount'', PNum (rec_shortfall_amount rec)), (''shortfall_pct'', PNum (rec_shortfall_pct rec))]"

section \<open>Metered fees\<close>

lemma whole_cents_diff:
  assumes "whole_cents a" "whole_cents b" "b \<le> a"
  shows "whole_cents (a - b)"
proof -
  obtain j k :: int where jk: "0 \<le> j" "a = of_int j / 100" "0 \<le> k" "b = of_int k / 100"
    using assms(1,2) by (auto simp: whole_cents_def)
  then have "0 \<le> j - k" "a - b = of_int (j - k) / 100" using assms(3) by (simp_all add: diff_divide_distrib)
  then show ?thesis unfolding whole_cents_def by blast
qed

lemma ctx_whole_cents:
  assumes "whole_cents x" "x < 10 ^ 26"
  shows "ctx x = x"
  using dadd_cents [of 0 x] assms by (simp add: dadd_def whole_cents_def exI [of _ 0])

lemma metered_entry_splits:
  assumes "whole_cents gross" "gross < 10 ^ 25" "0 \<le> rate" "rate \<le> 1"
  shows "\<exists>entry. metered_entry now tenant uetr gross rate = Inr entry \<and>
    tm_gross_fee_usd entry = gross \<and> whole_cents (tm_processor_take_usd entry) \<and> whole_cents (tm_bpi_net_usd entry) \<and>
    tm_processor_take_usd entry + tm_bpi_net_usd entry = gross"
proof -
  have g: "0 \<le> gross" "ctx gross = gross" using assms(1,2) by (simp_all add: whole_cents_nonneg ctx_whole_cents)
  let ?x = "dmul gross rate"
  have "gross * rate \<le> gross" using g(1) assms(4) mult_left_mono [of rate 1 gross] by simp
  then have x: "0 \<le> ?x" "?x \<le> gross"
    using g assms(3) ctx_mono [of "gross * rate" gross] by (simp_all add: dmul_def ctx_nonneg)
  then have "\<bar>?x\<bar> * 10 ^ 2 < 10 ^ 28 - 1" using assms(2) by simp
  then have q: "quantize 2 ?x = Inr (quant 2 ?x)" by (rule quantize_Inr)
  obtain k :: int where "gross = of_int k / 100" using assms(1) by (auto simp: whole_cents_def)
  then have "gross * 10 ^ 2 = of_int k" by simp
  then have "quant 2 gross = gross" by (rule quant_fixed)
  then have t: "0 \<le> quant 2 ?x" "quant 2 ?x \<le> gross"
    using x quant_mono [of ?x gross 2] by (simp_all add: quant_nonneg)
  have "0 \<le> round_half_up (?x * 10 ^ 2)" using x(1) by (simp add: round_half_up_nonneg)
  then have take_cents: "whole_cents (quant 2 ?x)" unfolding whole_cents_def quant_def by auto
  have net: "whole_cents (gross - quant 2 ?x)" using assms(1) take_cents t(2) by (rule whole_cents_diff)
  moreover have "gross - quant 2 ?x < 10 ^ 26" using t(1) assms(2) by simp
  ultimately have "dsub gross (quant 2 ?x) = gross - quant 2 ?x" by (simp add: dsub_def ctx_whole_cents)
  then show ?thesis using q take_cents net by (simp add: metered_entry_def Let_def)
qed

text \<open>A call of the metering: tenant, payment, fee and take rate.\<close>

type_synonym metering_call = "time \<times> string \<times> pyval \<times> dec \<times> dec"

definition meter_call :: "metering_call \<Rightarrow> RevenueMetering \<Rightarrow> RevenueMetering" where
  "meter_call c m = (case c of (now, tenant, uetr, gross, rate) \<Rightarrow> snd (record_transaction now (PStr tenant) uetr gross rate m))"

definition call_ok :: "metering_call \<Rightarrow> bool" where
  "call_ok c \<longleftrightarrow> (case c of (now, tenant, uetr, gross, rate) \<Rightarrow> whole_cents gross \<and> gross < 10 ^ 25 \<and> 0 \<le> rate \<and> rate \<le> 1)"

definition fees_of :: "string \<Rightarrow> metering_call list \<Rightarrow> dec list" where
  "fees_of t calls = map (\<lambda>(now, tenant, uetr, gross, rate). gross) (filter (\<lambda>(now, tenant, uetr, gross, rate). tenant = t) calls)"

definition entry_ok :: "TransactionMeterEntry \<Rightarrow> bool" where
  "entry_ok e \<longleftrightarrow> whole_cents (tm_processor_take_usd e) \<and> whole_cents (tm_bpi_net_usd e) \<and>
     tm_processor_take_usd e + tm_bpi_net_usd e = tm_gross_fee_usd e"

lemma entries_of_dset: "entries_of k' (dset k v m) = (if k' = k then v else entries_of k' m)"
  by (simp add: entries_of_def dict_simps)

lemma metered_history:
  assumes "\<forall>c \<in> set calls. call_ok c"
  shows "map tm_gross_fee_usd (entries_of (PStr t) (fold meter_call calls [])) = fees_of t calls \<and>
    (\<forall>e \<in> set (entries_of (PStr t) (fold meter_call calls [])). entry_ok e)"
  using assms
proof (induction calls rule: rev_induct)
  case (snoc c calls)
  obtain now tenant uetr gross rate where c: "c = (now, tenant, uetr, gross, rate)" by (cases c)
  obtain e where e: "metered_entry now (PStr tenant) uetr gross rate = Inr e" "tm_gross_fee_usd e = gross" "entry_ok e"
    using metered_entry_splits [of gross rate now "PStr tenant" uetr] snoc.prems c by (auto simp: call_ok_def entry_ok_def)
  then have "fold meter_call (calls @ [c]) [] =
      dset (PStr tenant) (entries_of (PStr tenant) (fold meter_call calls []) @ [e]) (fold meter_call calls [])"
    by (simp add: meter_call_def c record_transaction_def)
  with snoc e show ?case by (auto simp: entries_of_dset fees_of_def c)
qed (simp add: entries_of_def fees_of_def)

text \<open>
  Revenue adds up.  After any calls whose fees are whole cents below 10^25 dollars, at take rates between
  0 and 1, the summary of a tenant counts its calls and has their sum as gross fee, as long as that is below
  10^25 dollars; the processor's take and the net revenue add up to it exactly, and neither is negative.
\<close>

lemma revenue_adds_up:
  assumes "\<forall>c \<in> set calls. call_ok c" "sum_list (fees_of t calls) < 10 ^ 25"
    and "compute_quarterly_summary (PStr t) quarter minimum premium baseline (fold meter_call calls []) = Inr s"
  shows "qr_transaction_count s = int (length (fees_of t calls)) \<and> qr_gross_fee_usd s = sum_list (fees_of t calls) \<and>
    qr_processor_take_usd s + qr_bpi_net_usd s = qr_gross_fee_usd s \<and>
    0 \<le> qr_processor_take_usd s \<and> 0 \<le> qr_bpi_net_usd s"
proof -
  define es where "es = entries_of (PStr t) (fold meter_call calls [])"
  have h: "map tm_gross_fee_usd es = fees_of t calls" "\<forall>e \<in> set es. entry_ok e"
    using metered_history [OF assms(1)] by (simp_all add: es_def)
  have split: "sum_list (map tm_gross_fee_usd es) = sum_list (map tm_processor_take_usd es) + sum_list (map tm_bpi_net_usd es)"
    using h(2) by (induction es) (auto simp: entry_ok_def)
  have nonneg: "0 \<le> sum_list (map tm_processor_take_usd es)" "0 \<le> sum_list (map tm_bpi_net_usd es)"
    using h(2) by (auto intro!: sum_list_nonneg simp: entry_ok_def whole_cents_nonneg)
  have exact: "decimal_total xs = sum_list xs" if "\<forall>x \<in> set xs. whole_cents x" "sum_list xs < 10 ^ 26" for xs
    using foldl_dadd_cents [of xs 0] that by (simp add: decimal_total_def whole_cents_def exI [of _ 0])
  have g: "\<forall>x \<in> set (map tm_gross_fee_usd es). whole_cents x"
    using h(2) whole_cents_add by (force simp: entry_ok_def)
  have "decimal_total (map tm_gross_fee_usd es) = sum_list (map tm_gross_fee_usd es)"
    "decimal_total (map tm_processor_take_usd es) = sum_list (map tm_processor_take_usd es)"
    "decimal_total (map tm_bpi_net_usd es) = sum_list (map tm_bpi_net_usd es)"
    using exact [OF g] h split nonneg assms(2) by (auto intro!: exact simp: entry_ok_def)
  moreover have "qr_transaction_count s = int (length es)" "qr_gross_fee_usd s = decimal_total (map tm_gross_fee_usd es)"
    "qr_processor_take_usd s = decimal_total (map tm_processor_take_usd es)" "qr_bpi_net_usd s = decimal_total (map tm_bpi_net_usd es)"
    using assms(3) by (auto simp: compute_quarterly_summary_def Let_def es_def res_bind_Inr_iff)
  moreover have "length es = length (fees_of t calls)" using h(1) by (metis length_map)
  ultimately show ?thesis using split nonneg h(1) by simp
qed

definition sample_fees :: "metering_call list" where
  "sample_fees = [(0, ''T'', PStr ''u1'', 10001 / 100, 15 / 100), (60, ''U'', PStr ''u2'', 7, 1 / 5), (90, ''T'', PStr ''u3'', 5 / 100, 3 / 10)]"

lemma revenue_adds_up_witness:
  "\<exists>s. compute_quarterly_summary (PStr ''T'') ''2026-Q1'' 0 (1 / 10) 0 (fold meter_call sample_fees []) = Inr s \<and>
     qr_gross_fee_usd s = 10006 / 100 \<and> qr_processor_take_usd s + qr_bpi_net_usd s = 10006 / 100"
proof -
  have "whole_cents (10001 / 100)" "whole_cents 7" "whole_cents (5 / 100)"
    unfolding whole_cents_def by (rule exI [of _ 10001], simp, rule exI [of _ 700], simp, rule exI [of _ 5], simp)
  then have ok: "\<forall>c \<in> set sample_fees. call_ok c" by (simp add: sample_fees_def call_ok_def)
  have fees: "fees_of ''T'' sample_fees = [10001 / 100, 5 / 100]" by (simp add: fees_of_def sample_fees_def)
  then have small: "sum_list (fees_of ''T'' sample_fees) < 10 ^ 25" by simp
  have total: "\<And>s. compute_quarterly_summary (PStr ''T'') ''2026-Q1'' 0 (1 / 10) 0 (fold meter_call sample_fees []) = Inr s \<Longrightarrow>
      qr_gross_fee_usd s = 10006 / 100 \<and> qr_processor_take_usd s + qr_bpi_net_usd s = 10006 / 100"
    using revenue_adds_up [OF ok small] by (auto simp: fees)
  have "\<not> isl (compute_quarterly_summary (PStr ''T'') ''2026-Q1'' 0 (1 / 10) 0 (fold meter_call sample_fees []))"
    by code_simp
  with total show ?thesis by (cases "compute_quarterly_summary (PStr ''T'') ''2026-Q1'' 0 (1 / 10) 0 (fold meter_call sample_fees [])") auto
qed

section \<open>Every repayment is booked\<close>

definition booked_royalty :: "RepaymentRecord \<Rightarrow> BPIRoyaltyRecord" where
  "booked_royalty rec =
     \<lparr> br_uetr = PStr (rec_uetr rec), br_licensee_id = PStr (rec_licensee_id rec),
       br_royalty_usd = rec_platform_royalty rec, br_repaid_at = rec_repaid_at rec,
       br_loan_id = PStr (rec_loan_id rec), br_deployment_phase = PStr (rec_deployment_phase rec),
       br_income_type = PStr (rec_income_type rec) \<rparr>"

definition repayments_of :: "string \<Rightarrow> (time \<times> RepaymentRecord) list \<Rightarrow> RepaymentRecord list" where
  "repayments_of t calls = filter (\<lambda>rec. rec_licensee_id rec = t) (map snd calls)"

definition bridge_history ::
    "'l royalty_list \<Rightarrow> bool \<Rightarrow> (time \<Rightarrow> string) \<Rightarrow> (string \<Rightarrow> py_exc + time) \<Rightarrow> (time \<times> RepaymentRecord) list \<Rightarrow>
     'l SettlementCallbackBridge \<Rightarrow> 'l SettlementCallbackBridge" where
  "bridge_history L up to_iso fromiso calls b =
     fold (\<lambda>(now, rec) b. snd (bridge_call L up fromiso now (repayment_dict to_iso rec) b)) calls b"

lemma repayment_items:
  "pitem (repayment_dict to_iso rec) ''uetr'' = Inr (PStr (rec_uetr rec))"
  "pget (repayment_dict to_iso rec) ''licensee_id'' d = Inr (PStr (rec_licensee_id rec))"
  "pitem (repayment_dict to_iso rec) ''platform_royalty'' = Inr (PNum (rec_platform_royalty rec))"
  "pitem (repayment_dict to_iso rec) ''repaid_at'' = Inr (PStr (to_iso (rec_repaid_at rec)))"
  "pitem (repayment_dict to_iso rec) ''loan_id'' = Inr (PStr (rec_loan_id rec))"
  "pget (repayment_dict to_iso rec) ''deployment_phase'' d = Inr (PStr (rec_deployment_phase rec))"
  "pget (repayment_dict to_iso rec) ''income_type'' d = Inr (PStr (rec_income_type rec))"
  "pitem (repayment_dict to_iso rec) ''fee'' = Inr (PNum (rec_fee rec))"
  "pitem (repayment_dict to_iso rec) ''settlement_amount'' = Inr (PNum (rec_settlement_amount rec))"
  by (simp_all add: repayment_dict_def)

lemma history_of_settled:
  "hashable k \<Longrightarrow> history_of k' (snd (record_settlement k amount t e)) =
     (if k' = k then deque_append HISTORY_MAXLEN (amount, t) (history_of k e) else history_of k' e)"
  by (simp add: record_settlement_def history_of_def dict_simps)

lemma bridge_call_booked:
  assumes "fromiso (to_iso (rec_repaid_at rec)) = Inr (rec_repaid_at rec)" "0 < sb_permits b"
    and "sb_revenue b = Some m" "sb_nav b = Some e" "sb_take_rate b = Some rate"
  shows "let b' = snd (bridge_call L up fromiso now (repayment_dict to_iso rec) b); t = rec_licensee_id rec in
    sb_permits b' = sb_permits b \<and> sb_take_rate b' = Some rate \<and>
    rs_records (sb_royalty b') = rs_records (sb_royalty b) @ [booked_royalty rec] \<and>
    sb_revenue b' = Some (if t = '''' then m else snd (record_transaction now (PStr t) (PStr (rec_uetr rec)) (rec_fee rec) rate m)) \<and>
    sb_nav b' = Some (if t = '''' then e else snd (record_settlement (PStr t) (rec_settlement_amount rec) (rec_repaid_at rec) e))"
proof -
  have "royalty_of_repayment fromiso (repayment_dict to_iso rec) = Inr (booked_royalty rec)"
    by (simp add: royalty_of_repayment_def repayment_items assms(1) booked_royalty_def)
  then have "rs_records (snd (record_repayment L up fromiso (repayment_dict to_iso rec) s)) = rs_records s @ [booked_royalty rec]"
    for s :: "'a BPIRoyaltySettlement"
    by (simp add: record_repayment_def persist_record_def split: option.split)
  then show ?thesis
    using assms by (simp add: bridge_call_def bridge_dispatch_def repayment_items meter_repayment_def nav_repayment_def Let_def)
qed

text \<open>
  C37: Every repayment is booked once.  A bridge in processor mode with a free permit that is called with the
  records of the repayment loop appends to the royalties exactly one record for each, with its royalty, licensee and
  time; it meters for each tenant exactly the fees of its repayments, and keeps for each tenant exactly
  its settled amounts, as long as these are no more than the 100000 the history holds.  The text of a
  time is read back as that time.
\<close>

theorem every_repayment_booked:
  assumes "\<forall>c \<in> set calls. fromiso (to_iso (rec_repaid_at (snd c))) = Inr (rec_repaid_at (snd c))" "0 < sb_permits b"
    and "sb_revenue b = Some m" "sb_nav b = Some e" "sb_take_rate b = Some rate" "0 \<le> rate" "rate \<le> 1"
    and "\<forall>c \<in> set calls. whole_cents (rec_fee (snd c)) \<and> rec_fee (snd c) < 10 ^ 25"
    and "t \<noteq> ''''" "length (history_of (PStr t) e) + length calls \<le> 100000"
  shows "let b' = bridge_history L up to_iso fromiso calls b in
    rs_records (sb_royalty b') = rs_records (sb_royalty b) @ map (booked_royalty \<circ> snd) calls \<and>
    map tm_gross_fee_usd (entries_of (PStr t) (the (sb_revenue b'))) =
      map tm_gross_fee_usd (entries_of (PStr t) m) @ map rec_fee (repayments_of t calls) \<and>
    history_of (PStr t) (the (sb_nav b')) =
      history_of (PStr t) e @ map (\<lambda>rec. (rec_settlement_amount rec, rec_repaid_at rec)) (repayments_of t calls)"
  using assms(1-5,8,10)
proof (induction calls arbitrary: b m e)
  case Nil
  then show ?case by (simp add: bridge_history_def repayments_of_def)
next
  case (Cons c calls)
  obtain now rec where c: "c = (now, rec)" by fastforce
  let ?l = "rec_licensee_id rec"
  define b1 where "b1 = snd (bridge_call L up fromiso now (repayment_dict to_iso rec) b)"
  define m1 where "m1 = (if ?l = '''' then m else snd (record_transaction now (PStr ?l) (PStr (rec_uetr rec)) (rec_fee rec) rate m))"
  define e1 where "e1 = (if ?l = '''' then e else snd (record_settlement (PStr ?l) (rec_settlement_amount rec) (rec_repaid_at rec) e))"
  have b1: "sb_permits b1 = sb_permits b" "sb_take_rate b1 = Some rate" "sb_revenue b1 = Some m1" "sb_nav b1 = Some e1"
    "rs_records (sb_royalty b1) = rs_records (sb_royalty b) @ [booked_royalty rec]"
    using bridge_call_booked [OF _ Cons.prems(2-5), of fromiso to_iso rec L up now] Cons.prems(1) c by (simp_all add: Let_def b1_def m1_def e1_def)
  obtain entry where entry: "metered_entry now (PStr ?l) (PStr (rec_uetr rec)) (rec_fee rec) rate = Inr entry"
    "tm_gross_fee_usd entry = rec_fee rec"
    using metered_entry_splits [of "rec_fee rec" rate now "PStr ?l" "PStr (rec_uetr rec)"] assms(6,7) Cons.prems(6) c by auto
  have m1: "map tm_gross_fee_usd (entries_of (PStr t) m1) =
      map tm_gross_fee_usd (entries_of (PStr t) m) @ (if ?l = t then [rec_fee rec] else [])"
    using entry assms(9) by (auto simp: m1_def record_transaction_def entries_of_dset)
  have len: "length (history_of (PStr t) e) < HISTORY_MAXLEN" using Cons.prems(7) by (simp add: HISTORY_MAXLEN_def)
  then have e1: "history_of (PStr t) e1 =
      history_of (PStr t) e @ (if ?l = t then [(rec_settlement_amount rec, rec_repaid_at rec)] else [])"
    using assms(9) by (auto simp: e1_def history_of_settled deque_append_def)
  have "bridge_history L up to_iso fromiso (c # calls) b = bridge_history L up to_iso fromiso calls b1"
    by (simp add: bridge_history_def c b1_def)
  moreover have "repayments_of t (c # calls) = (if ?l = t then [rec] else []) @ repayments_of t calls"
    by (simp add: repayments_of_def c)
  ultimately show ?case
    using Cons.IH [OF _ _ b1(3,4,2)] Cons.prems(1,2,6,7) b1(1,5) m1 e1 by (auto simp: Let_def c split: if_splits)
qed

definition sample_repayment :: "string \<Rightarrow> dec \<Rightarrow> RepaymentRecord" where
  "sample_repayment licensee fee =
     \<lparr> rec_loan_id = ''L1'', rec_uetr = ''U1'', rec_individual_payment_id = ''E1'', rec_principal = 1000, rec_fee = fee,
       rec_bpi_fee_share_usd = 3, rec_platform_royalty = 3, rec_net_fee_to_entities = 7,
       rec_bank_capital_return_usd = 0, rec_bank_distribution_premium_usd = 7, rec_income_type = ''ROYALTY'',
       rec_deployment_phase = ''LICENSOR'', rec_licensee_id = licensee, rec_fee_bps = 300, rec_settlement_amount = 1000,
       rec_corridor = ''USD_EUR'', rec_rejection_class = ''CLASS_A'', rec_trigger = MATURITY_REACHED,
       rec_funded_at = 0, rec_maturity_date = 5, rec_repaid_at = 5, rec_is_partial = False, rec_shortfall_amount = 0,
       rec_shortfall_pct = 0 \<rparr>"

definition sample_bridge :: "unit SettlementCallbackBridge" where
  "sample_bridge = upgrade_to_processor_mode [] \<lparr> ne_history = [], ne_callbacks = [] \<rparr> (1 / 5)
     (bridge_init \<lparr> rs_redis = None, rs_records = [] \<rparr>)"

lemma every_repayment_booked_witness:
  "map tm_gross_fee_usd (entries_of (PStr ''T'') (the (sb_revenue (bridge_history
     \<lparr> rl_lrange = (\<lambda>_. []), rl_rpush = (\<lambda>l _. l) \<rparr> True (\<lambda>_. ''1970'') (\<lambda>_. Inr 5)
     [(5, sample_repayment ''T'' 10), (6, sample_repayment ''U'' 20), (7, sample_repayment ''T'' 30)] sample_bridge)))) =
   [10, 30]"
proof -
  let ?calls = "[(5, sample_repayment ''T'' 10), (6, sample_repayment ''U'' 20), (7, sample_repayment ''T'' 30)]"
  have b: "0 < sb_permits sample_bridge" "sb_revenue sample_bridge = Some []"
    "sb_nav sample_bridge = Some \<lparr> ne_history = [], ne_callbacks = [] \<rparr>" "sb_take_rate sample_bridge = Some (1 / 5)"
    by (simp_all add: sample_bridge_def upgrade_to_processor_mode_def bridge_init_def MAX_CONCURRENT_CALLBACKS_def)
  have "whole_cents 10" "whole_cents 20" "whole_cents 30"
    unfolding whole_cents_def by (rule exI [of _ 1000], simp, rule exI [of _ 2000], simp, rule exI [of _ 3000], simp)
  then have fees: "\<forall>c \<in> set ?calls. whole_cents (rec_fee (snd c)) \<and> rec_fee (snd c) < 10 ^ 25"
    by (simp add: sample_repayment_def)
  have rate: "0 \<le> (1 / 5 :: rat)" "1 / 5 \<le> (1 :: rat)" by simp_all
  have times: "\<forall>c \<in> set ?calls. (\<lambda>_. Inr 5) ((\<lambda>_. ''1970'') (rec_repaid_at (snd c))) = Inr (rec_repaid_at (snd c))"
    by (simp add: sample_repayment_def)
  show ?thesis
    using every_repayment_booked [OF times b rate fees, of "''T''" "\<lparr> rl_lrange = (\<lambda>_. []), rl_rpush = (\<lambda>l _. l) \<rparr>" True]
    by (simp add: Let_def history_of_def entries_of_def repayments_of_def sample_repayment_def)
qed

section \<open>The last hour\<close>

datatype nav_op = NavSettled string dec time | NavSnapshot time "ActiveLoan list"

fun nav_step :: "nav_op \<Rightarrow> NAVEventEmitter \<Rightarrow> NAVEventEmitter" where
  "nav_step (NavSettled tenant amount t) e = snd (record_settlement (PStr tenant) amount t e)"
| "nav_step (NavSnapshot now loans) e = snd (emit_snapshot now loans e)"

fun settled_by :: "pyval \<Rightarrow> nav_op \<Rightarrow> settlement_record list" where
  "settled_by k (NavSettled tenant amount t) = (if PStr tenant = k then [(amount, t)] else [])"
| "settled_by k (NavSnapshot now loans) = []"

fun snapshot_before :: "time \<Rightarrow> nav_op \<Rightarrow> bool" where
  "snapshot_before t (NavSnapshot now loans) \<longleftrightarrow> now \<le> t"
| "snapshot_before t (NavSettled tenant amount t') \<longleftrightarrow> True"

definition settled_before :: "pyval \<Rightarrow> nav_op list \<Rightarrow> settlement_record list" where
  "settled_before k ops = concat (map (settled_by k) ops)"

lemma emit_tenants_history [simp]: "ne_history (snd (emit_tenants now ts events e)) = ne_history e"
  by (induction now ts events e rule: emit_tenants.induct) (simp_all add: Let_def)

lemma history_of_purged:
  assumes "dict_ok (ne_history e)"
  shows "history_of k (purge_old_history now e) =
    dropWhile (\<lambda>(amount, timestamp). timestamp < now - 30 * 86400) (history_of k e)"
proof -
  let ?f = "\<lambda>dq. dropWhile (\<lambda>(amount, timestamp). timestamp < now - 30 * 86400) dq"
  have "value_or [] (dget (filter (\<lambda>(k, dq). dq \<noteq> []) (map (\<lambda>(k, dq). (k, ?f dq)) d)) k) = ?f (value_or [] (dget d k))"
    if "dict_ok d" for d :: "(pyval, settlement_record list) dict"
    using that
  proof (induction d)
    case (Cons x d)
    obtain k' dq where x: "x = (k', dq)" by fastforce
    have d: "dict_ok d" "dget d k' = None" using Cons.prems by (simp_all add: dict_ok_def x map_of_eq_None_iff)
    show ?case using Cons.IH [OF d(1)] d(2)
      by (auto simp: x intro!: dropWhile_eq_Nil_conv [THEN iffD2, symmetric])
  qed simp
  from this [OF assms] show ?thesis by (simp add: history_of_def purge_old_history_def)
qed

lemma dropWhile_split: "\<exists>old. xs = old @ dropWhile P xs \<and> (\<forall>x \<in> set old. P x)"
  using set_takeWhileD [of _ P xs] by (intro exI [of _ "takeWhile P xs"]) auto

definition nav_ok :: "time \<Rightarrow> nat \<Rightarrow> (pyval \<Rightarrow> settlement_record list) \<Rightarrow> NAVEventEmitter \<Rightarrow> bool" where
  "nav_ok t n full e \<longleftrightarrow> dict_ok (ne_history e) \<and>
     (\<forall>k. length (full k) \<le> n \<and>
        (\<exists>old. full k = old @ history_of k e \<and> (\<forall>x \<in> set old. snd x < t - 30 * 86400)))"

lemma nav_ok_settled:
  assumes "nav_ok t n full e" "n < 100000"
  shows "nav_ok t (Suc n) (\<lambda>k. full k @ settled_by k (NavSettled tenant amount ts)) (snd (record_settlement (PStr tenant) amount ts e))"
  unfolding nav_ok_def
proof (intro conjI allI)
  show "dict_ok (ne_history (snd (record_settlement (PStr tenant) amount ts e)))"
    using assms(1) by (auto simp: nav_ok_def record_settlement_def)
  fix k
  obtain old where old: "full k = old @ history_of k e" "\<forall>x \<in> set old. snd x < t - 30 * 86400" "length (full k) \<le> n"
    using assms(1) unfolding nav_ok_def by blast
  then have "length (history_of k e) < HISTORY_MAXLEN" using assms(2) by (simp add: HISTORY_MAXLEN_def)
  then have "history_of k (snd (record_settlement (PStr tenant) amount ts e)) =
      history_of k e @ settled_by k (NavSettled tenant amount ts)"
    by (auto simp: history_of_settled deque_append_def)
  with old show "\<exists>old. full k @ settled_by k (NavSettled tenant amount ts) = old @ history_of k (snd (record_settlement (PStr tenant) amount ts e)) \<and>
      (\<forall>x \<in> set old. snd x < t - 30 * 86400)" by (intro exI [of _ old]) simp
  show "length (full k @ settled_by k (NavSettled tenant amount ts)) \<le> Suc n" using old(3) by simp
qed

lemma nav_ok_purged:
  assumes "nav_ok t n full e" "now \<le> t"
  shows "nav_ok t n full (purge_old_history now e)"
  unfolding nav_ok_def
proof (intro conjI allI)
  have ok: "dict_ok (ne_history e)" using assms(1) by (simp add: nav_ok_def)
  then show "dict_ok (ne_history (purge_old_history now e))"
    by (auto simp: purge_old_history_def dict_ok_def split_def comp_def intro!: distinct_map_filter)
  fix k
  obtain old where old: "full k = old @ history_of k e" "\<forall>x \<in> set old. snd x < t - 30 * 86400" "length (full k) \<le> n"
    using assms(1) unfolding nav_ok_def by blast
  obtain more where more: "history_of k e = more @ history_of k (purge_old_history now e)"
    "\<forall>x \<in> set more. snd x < now - 30 * 86400"
    using dropWhile_split [of "history_of k e" "\<lambda>(amount, timestamp). timestamp < now - 30 * 86400"]
    unfolding history_of_purged [OF ok] by (auto simp: split_def)
  have "full k = (old @ more) @ history_of k (purge_old_history now e)" using old(1) more(1) by simp
  moreover have "\<forall>x \<in> set (old @ more). snd x < t - 30 * 86400" using old(2) more(2) assms(2) by fastforce
  ultimately show "\<exists>old. full k = old @ history_of k (purge_old_history now e) \<and> (\<forall>x \<in> set old. snd x < t - 30 * 86400)"
    by blast
  show "length (full k) \<le> n" by (rule old(3))
qed

lemma nav_history:
  assumes "\<forall>op \<in> set ops. snapshot_before t op" "length ops \<le> 100000"
  shows "nav_ok t (length ops) (\<lambda>k. settled_before k ops) (fold nav_step ops \<lparr> ne_history = [], ne_callbacks = [] \<rparr>)"
  using assms
proof (induction ops rule: rev_induct)
  case Nil
  show ?case by (simp add: nav_ok_def settled_before_def history_of_def)
next
  case (snoc op ops)
  let ?e = "fold nav_step ops \<lparr> ne_history = [], ne_callbacks = [] \<rparr>"
  have IH: "nav_ok t (length ops) (\<lambda>k. settled_before k ops) ?e" using snoc by simp
  show ?case
  proof (cases op)
    case (NavSettled tenant amount ts)
    then show ?thesis using nav_ok_settled [OF IH, of tenant amount ts] snoc.prems(2) by (simp add: settled_before_def)
  next
    case (NavSnapshot now loans)
    have emitted: "nav_ok t (length ops) (\<lambda>k. settled_before k ops) (snd (emit_tenants now ts evs ?e))" for ts evs
      using IH by (simp add: nav_ok_def history_of_def)
    have "now \<le> t" using snoc.prems(1) NavSnapshot by simp
    with emitted [of "loans_by_tenant loans" "[]"]
    have "nav_ok t (length ops) (\<lambda>k. settled_before k ops) (snd (emit_snapshot now loans ?e))"
      by (auto simp: emit_snapshot_def intro: nav_ok_purged split: prod.split sum.split)
    then have "nav_ok t (Suc (length ops)) (\<lambda>k. settled_before k ops) (snd (emit_snapshot now loans ?e))"
      unfolding nav_ok_def by (meson le_SucI)
    then show ?thesis by (simp add: NavSnapshot settled_before_def)
  qed
qed

text \<open>
  A snapshot reports the last hour.  After any settlements and snapshots, no more than 100000 and the
  snapshots not later than the present one, a tenant's event has the number and the sum of all its
  settlements of the last hour, although each snapshot drops what is older than 30 days.
\<close>

lemma nav_reports_last_hour:
  assumes "\<forall>op \<in> set ops. snapshot_before now op" "length ops \<le> 100000"
  shows "let nav = nav_event now (fold nav_step ops \<lparr> ne_history = [], ne_callbacks = [] \<rparr>) tenant loans;
      recent = filter (\<lambda>(amount, timestamp). now - 3600 \<le> timestamp) (settled_before (PStr tenant) ops)
    in nv_settled_last_60min nav = int (length recent) \<and>
       nv_settled_amount_last_60min_usd nav = foldl dadd 0 (map fst recent)"
proof -
  let ?e = "fold nav_step ops \<lparr> ne_history = [], ne_callbacks = [] \<rparr>"
  obtain old where old: "settled_before (PStr tenant) ops = old @ history_of (PStr tenant) ?e"
    "\<forall>x \<in> set old. snd x < now - 30 * 86400"
    using nav_history [OF assms] unfolding nav_ok_def by blast
  have "filter (\<lambda>(amount, timestamp). now - 3600 \<le> timestamp) old = []"
    using old(2) by (fastforce simp: filter_empty_conv)
  then show ?thesis by (simp add: nav_event_def settled_last_60min_def decimal_total_def Let_def old(1))
qed

lemma nav_reports_last_hour_witness:
  "let nav = nav_event 3000000 (fold nav_step
       [NavSettled ''T'' 5 0, NavSnapshot 2999000 [], NavSettled ''T'' 7 2998000, NavSettled ''U'' 9 2998000]
       \<lparr> ne_history = [], ne_callbacks = [] \<rparr>) ''T'' []
   in nv_settled_last_60min nav = 1"
  using nav_reports_last_hour [of "[NavSettled ''T'' 5 0, NavSnapshot 2999000 [], NavSettled ''T'' 7 2998000,
      NavSettled ''U'' 9 2998000]" 3000000 "''T''" "[]"]
  by (simp add: Let_def settled_before_def)

end
