(* ===== verification/Corridor_Buffer.thy ===== *)
theory Corridor_Buffer
  imports Py_Base "HOL-Library.List_Lexorder" "HOL-Library.Char_ord"
begin

text \<open>
  \<open>lip/c3_repayment_engine/corridor_buffer.py\<close>: how long settlement takes in a currency corridor, from the
  observations of the last 90 days.  A method reads the clock once in the model; \<open>numpy.percentile\<close> is its
  documented linear interpolation.  JSON holds a state as the dictionaries it is made of.

  Shown: although old observations are dropped at every call, the estimate is the one over the full history,
  cut to the last 90 days; it lies between the bounds of its tier; a saved buffer is read back as it was.
\<close>

definition WINDOW_SECONDS :: time where "WINDOW_SECONDS = 90 * 86400"
definition TIER1_MAX :: nat where "TIER1_MAX = 29"
definition TIER2_MAX :: nat where "TIER2_MAX = 100"

definition default_corridor_defaults :: "(string, pyfloat) dict" where
  "default_corridor_defaults =
     [(''USD_EUR'', 3), (''USD_GBP'', 3), (''USD_JPY'', 3 / 2), (''USD_CNY'', 5), (''EUR_GBP'', 3 / 2),
      (''EUR_USD'', 3), (''GBP_USD'', 3), (''DEFAULT'', 7)]"

definition corridor_key :: "string \<Rightarrow> string" where
  "corridor_key corridor = py_upper (py_strip corridor)"

definition corridor_default :: "(string, pyfloat) dict \<Rightarrow> string \<Rightarrow> pyfloat" where
  "corridor_default defaults corridor =
     value_or (value_or 7 (dget defaults ''DEFAULT'')) (dget defaults (corridor_key corridor))"

type_synonym observation = "time \<times> pyfloat"

record CorridorBuffer =
  cb_defaults :: "(string, pyfloat) dict"
  cb_observations :: "(string, observation list) dict"

definition corridor_buffer_init :: CorridorBuffer where
  "corridor_buffer_init = \<lparr> cb_defaults = default_corridor_defaults, cb_observations = [] \<rparr>"

definition observations_of :: "string \<Rightarrow> CorridorBuffer \<Rightarrow> observation list" where
  "observations_of key b = value_or [] (dget (cb_observations b) key)"

definition prune_locked :: "time \<Rightarrow> string \<Rightarrow> CorridorBuffer \<Rightarrow> CorridorBuffer" where
  "prune_locked now key b =
     b\<lparr>cb_observations :=
         dset key (filter (\<lambda>(ts, days). ts \<ge> now - WINDOW_SECONDS) (observations_of key b)) (cb_observations b)\<rparr>"

definition add_observation :: "time \<Rightarrow> string \<Rightarrow> pyfloat \<Rightarrow> CorridorBuffer \<Rightarrow> (py_exc + unit) \<times> CorridorBuffer" where
  "add_observation now corridor settlement_days b =
     (if settlement_days < 0 then (Inl ValueError, b)
      else
        let key = corridor_key corridor;
            b = prune_locked now key b
        in (Inr (), b\<lparr>cb_observations :=
              dset key (observations_of key b @ [(now, settlement_days)]) (cb_observations b)\<rparr>))"

text \<open>The number of observations that were removed, and the buffer.\<close>

definition purge_expired :: "time \<Rightarrow> CorridorBuffer \<Rightarrow> nat \<times> CorridorBuffer" where
  "purge_expired now b =
     fold (\<lambda>key (n, b).
         (n + (length (observations_of key b) - length (observations_of key (prune_locked now key b))),
          prune_locked now key b))
       (dkeys (cb_observations b)) (0, b)"

definition tier_of_count :: "nat \<Rightarrow> nat" where
  "tier_of_count n = (if n = 0 then 0 else if n \<le> TIER1_MAX then 1 else if n \<le> TIER2_MAX then 2 else 3)"

definition get_buffer_tier :: "time \<Rightarrow> string \<Rightarrow> CorridorBuffer \<Rightarrow> nat \<times> CorridorBuffer" where
  "get_buffer_tier now corridor b =
     (let b = prune_locked now (corridor_key corridor) b
      in (tier_of_count (length (observations_of (corridor_key corridor) b)), b))"

text \<open>Linear interpolation between the two closest ranks.\<close>

definition percentile95 :: "pyfloat list \<Rightarrow> pyfloat" where
  "percentile95 xs =
     (let s = sort xs;
          rank = 95 / 100 * of_nat (length s - 1) :: rat;
          i = nat \<lfloor>rank\<rfloor>;
          j = min (i + 1) (length s - 1)
      in s ! i + (rank - of_nat i) * (s ! j - s ! i))"

definition blended_p95 :: "pyfloat \<Rightarrow> pyfloat list \<Rightarrow> pyfloat" where
  "blended_p95 default_p95 observations =
     (let tier = tier_of_count (length observations)
      in if tier = 0 then default_p95
         else
           let empirical_p95 = percentile95 observations
           in if tier = 1 then default_p95 * (3 / 2)
              else if tier = 2 then 1 / 2 * empirical_p95 + 1 / 2 * default_p95
              else empirical_p95)"

definition estimate_p95 :: "time \<Rightarrow> string \<Rightarrow> CorridorBuffer \<Rightarrow> pyfloat \<times> CorridorBuffer" where
  "estimate_p95 now corridor b =
     (let key = corridor_key corridor;
          b = prune_locked now key b
      in (blended_p95 (corridor_default (cb_defaults b) key) (map snd (observations_of key b)), b))"

definition get_maturity_extension :: "time \<Rightarrow> string \<Rightarrow> CorridorBuffer \<Rightarrow> int \<times> CorridorBuffer" where
  "get_maturity_extension now corridor b = (let (p95, b) = estimate_p95 now corridor b in (\<lceil>p95\<rceil>, b))"

section \<open>Saving\<close>

text \<open>An entry of a saved list: a pair, or the bare number of an older format.\<close>

datatype saved_entry = SavedPair time pyfloat | SavedDays pyfloat

record saved_buffer =
  sv_defaults :: "(string, pyfloat) dict"
  sv_observations :: "(string, saved_entry list) dict"

definition buffer_to_dict :: "CorridorBuffer \<Rightarrow> saved_buffer" where
  "buffer_to_dict b =
     \<lparr> sv_defaults = cb_defaults b,
       sv_observations = map (\<lambda>(c, obs). (c, map (\<lambda>(ts, days). SavedPair ts days) obs)) (cb_observations b) \<rparr>"

definition buffer_from_dict :: "time \<Rightarrow> saved_buffer \<Rightarrow> CorridorBuffer" where
  "buffer_from_dict now d =
     \<lparr> cb_defaults = sv_defaults d,
       cb_observations =
         fold (\<lambda>(c, entries). dset (py_upper c)
             (map (\<lambda>e. case e of SavedPair ts days \<Rightarrow> (ts, days) | SavedDays days \<Rightarrow> (now, days)) entries))
           (sv_observations d) [] \<rparr>"

section \<open>The window of the history\<close>

datatype buffer_op = AddObservation string pyfloat | GetTier string | EstimateP95 string | PurgeExpired

fun buffer_step :: "time \<times> buffer_op \<Rightarrow> CorridorBuffer \<Rightarrow> CorridorBuffer" where
  "buffer_step (now, AddObservation c d) b = snd (add_observation now c d b)"
| "buffer_step (now, GetTier c) b = snd (get_buffer_tier now c b)"
| "buffer_step (now, EstimateP95 c) b = snd (estimate_p95 now c b)"
| "buffer_step (now, PurgeExpired) b = snd (purge_expired now b)"

text \<open>Every observation that was ever accepted for a corridor.\<close>

fun observed_by :: "string \<Rightarrow> time \<times> buffer_op \<Rightarrow> observation list" where
  "observed_by key (now, AddObservation c d) = (if 0 \<le> d \<and> corridor_key c = key then [(now, d)] else [])"
| "observed_by key _ = []"

definition observed :: "string \<Rightarrow> (time \<times> buffer_op) list \<Rightarrow> observation list" where
  "observed key ops = concat (map (observed_by key) ops)"

definition recent :: "time \<Rightarrow> observation list \<Rightarrow> observation list" where
  "recent now obs = filter (\<lambda>(ts, days). ts \<ge> now - WINDOW_SECONDS) obs"

lemma recent_later: "now \<le> t \<Longrightarrow> recent t (recent now obs) = recent t obs"
  by (auto simp: recent_def intro!: filter_cong)

lemma recent_append [simp]: "recent t (xs @ ys) = recent t xs @ recent t ys" "recent t [] = []"
  by (simp_all add: recent_def)

lemma observations_pruned:
  "observations_of k (prune_locked now key b) = (if k = key then recent now (observations_of key b) else observations_of k b)"
  by (simp add: observations_of_def prune_locked_def recent_def dict_simps)

lemma pruned_defaults [simp]: "cb_defaults (prune_locked now key b) = cb_defaults b"
  by (simp add: prune_locked_def)

definition window_ok :: "time \<Rightarrow> (string \<Rightarrow> observation list) \<Rightarrow> CorridorBuffer \<Rightarrow> bool" where
  "window_ok now full b \<longleftrightarrow> (\<forall>key t. now \<le> t \<longrightarrow> recent t (observations_of key b) = recent t (full key))"

lemma window_ok_pruned: "window_ok now full b \<Longrightarrow> window_ok now full (prune_locked now key b)"
  by (simp add: window_ok_def observations_pruned recent_later)

lemma window_ok_later: "window_ok now full b \<Longrightarrow> now \<le> t \<Longrightarrow> window_ok t full b"
  by (simp add: window_ok_def)

lemma purge_keeps:
  assumes "window_ok now full b"
  shows "window_ok now full (snd (fold (\<lambda>key (n, b).
      (n + (length (observations_of key b) - length (observations_of key (prune_locked now key b))),
       prune_locked now key b)) keys (n, b)))"
  using assms by (induction keys arbitrary: n b) (simp_all add: window_ok_pruned)

lemma buffer_step_window:
  assumes "window_ok now full b"
  shows "window_ok now (\<lambda>key. full key @ observed_by key (now, opn)) (buffer_step (now, opn) b)"
proof (cases opn)
  case (AddObservation c d)
  show ?thesis
  proof (cases "d < 0")
    case False
    let ?b = "prune_locked now (corridor_key c) b"
    have "observations_of k (buffer_step (now, opn) b) =
        (if k = corridor_key c then observations_of k ?b @ [(now, d)] else observations_of k ?b)" for k
      using False AddObservation by (simp add: add_observation_def Let_def) (simp add: observations_of_def dict_simps)
    then show ?thesis
      using window_ok_pruned [OF assms, of "corridor_key c"] False AddObservation by (auto simp: window_ok_def)
  qed (use assms AddObservation in \<open>simp add: add_observation_def\<close>)
qed (use assms in \<open>simp_all add: get_buffer_tier_def estimate_p95_def Let_def window_ok_pruned purge_expired_def purge_keeps\<close>)

lemma purge_defaults:
  "cb_defaults (snd (fold (\<lambda>key (n, b).
      (n + (length (observations_of key b) - length (observations_of key (prune_locked now key b))),
       prune_locked now key b)) keys (n, b))) = cb_defaults b"
  by (induction keys arbitrary: n b) simp_all

lemma buffer_step_defaults: "cb_defaults (buffer_step e b) = cb_defaults b"
  by (cases e rule: observed_by.cases [of "([], _)", simplified])
    (simp_all add: add_observation_def get_buffer_tier_def estimate_p95_def purge_expired_def purge_defaults Let_def)

lemma buffer_history:
  assumes "sorted (map fst ops)" "\<forall>op \<in> set ops. fst op \<le> t"
  shows "window_ok t (\<lambda>key. observed key ops) (fold buffer_step ops corridor_buffer_init) \<and>
    cb_defaults (fold buffer_step ops corridor_buffer_init) = default_corridor_defaults"
  using assms
proof (induction ops arbitrary: t rule: rev_induct)
  case Nil
  show ?case by (simp add: window_ok_def observed_def corridor_buffer_init_def observations_of_def)
next
  case (snoc e ops)
  obtain now opn where e: "e = (now, opn)" by fastforce
  have "sorted (map fst ops)" "\<forall>op \<in> set ops. fst op \<le> now" using snoc.prems e by (auto simp: sorted_append)
  from snoc.IH [OF this] have IH: "window_ok now (\<lambda>key. observed key ops) (fold buffer_step ops corridor_buffer_init)"
    "cb_defaults (fold buffer_step ops corridor_buffer_init) = default_corridor_defaults" by blast+
  from buffer_step_window [OF IH(1), of opn]
  have "window_ok now (\<lambda>key. observed key (ops @ [e])) (fold buffer_step (ops @ [e]) corridor_buffer_init)"
    by (simp add: e observed_def)
  moreover have "now \<le> t" using snoc.prems(2) e by simp
  ultimately show ?case using IH(2) window_ok_later by (auto simp: buffer_step_defaults)
qed

text \<open>
  The estimate is that of the full history.  Whatever observations, queries and purges came before, in
  clock order, the estimated settlement time of a corridor is the one computed from all observations
  ever accepted for it that are at most 90 days old, and from its default.
\<close>

lemma corridor_estimate_of_history:
  assumes "sorted (map fst ops)" "\<forall>op \<in> set ops. fst op \<le> t"
  shows "fst (estimate_p95 t corridor (fold buffer_step ops corridor_buffer_init)) =
    blended_p95 (corridor_default default_corridor_defaults corridor)
      (map snd (filter (\<lambda>(ts, days). t - 90 * 86400 \<le> ts) (observed (corridor_key corridor) ops)))"
proof -
  let ?b = "fold buffer_step ops corridor_buffer_init"
  have "recent t (observations_of (corridor_key corridor) ?b) = recent t (observed (corridor_key corridor) ops)"
    using buffer_history [OF assms] by (simp add: window_ok_def)
  moreover have "corridor_default d (corridor_key corridor) = corridor_default d corridor" for d
    by (simp add: corridor_default_def corridor_key_def strip_upper)
  ultimately show ?thesis
    using buffer_history [OF assms]
    by (simp add: estimate_p95_def Let_def observations_pruned) (simp add: recent_def WINDOW_SECONDS_def)
qed

definition sample_observations :: "(time \<times> buffer_op) list" where
  "sample_observations =
     [(0, AddObservation ''usd_eur'' 9), (86400, GetTier ''EUR_USD''), (90 * 86400 + 1, AddObservation '' USD_EUR '' 2),
      (90 * 86400 + 2, PurgeExpired)]"

lemma corridor_estimate_of_history_witness:
  "fst (estimate_p95 (90 * 86400 + 3) ''USD_EUR'' (fold buffer_step sample_observations corridor_buffer_init)) = 9 / 2"
proof -
  have "sorted (map fst sample_observations)" "\<forall>op \<in> set sample_observations. fst op \<le> 90 * 86400 + 3"
    by (simp_all add: sample_observations_def)
  note estimate = corridor_estimate_of_history [OF this, of "''USD_EUR''"]
  have "observed (corridor_key ''USD_EUR'') sample_observations = [(0, 9), (90 * 86400 + 1, 2)]"
    "corridor_default default_corridor_defaults ''USD_EUR'' = 3"
    by code_simp+
  then show ?thesis unfolding estimate by (simp add: blended_p95_def tier_of_count_def TIER1_MAX_def Let_def)
qed

section \<open>Bounds\<close>

lemma percentile95_bounds:
  assumes "xs \<noteq> []"
  shows "Min (set xs) \<le> percentile95 xs \<and> percentile95 xs \<le> Max (set xs)"
proof -
  define s where "s = sort xs"
  define rank :: rat where "rank = 95 / 100 * of_nat (length s - 1)"
  define i where "i = nat \<lfloor>rank\<rfloor>"
  define j where "j = min (i + 1) (length s - 1)"
  have s: "set s = set xs" "sorted s" "length s = length xs" by (simp_all add: s_def)
  have r: "0 \<le> rank" "rank \<le> of_nat (length s - 1)" by (simp_all add: rank_def)
  have "(of_nat i :: rat) = of_int \<lfloor>rank\<rfloor>" using r(1) by (simp add: i_def)
  then have i: "of_nat i \<le> rank" "rank < of_nat i + 1" using floor_correct [of rank] by simp_all
  have "of_nat i \<le> (of_nat (length s - 1) :: rat)" using i(1) r(2) by linarith
  then have il: "i \<le> length s - 1" by (simp only: of_nat_le_iff)
  then have l: "i < length s" "j < length s" "i \<le> j" using assms s(3) by (cases xs; simp add: j_def)+
  have v: "s ! i \<le> s ! j" using s(2) l by (simp add: sorted_nth_mono)
  have "s ! i \<in> set xs" "s ! j \<in> set xs" using l s(1) nth_mem by metis+
  then have m: "Min (set xs) \<le> s ! i" "s ! j \<le> Max (set xs)" by simp_all
  have p: "percentile95 xs = s ! i + (rank - of_nat i) * (s ! j - s ! i)"
    unfolding percentile95_def s_def [symmetric] Let_def rank_def [symmetric] i_def [symmetric] j_def [symmetric] ..
  have "0 \<le> (rank - of_nat i) * (s ! j - s ! i)" using i v by simp
  moreover have "(rank - of_nat i) * (s ! j - s ! i) \<le> s ! j - s ! i"
    using i v mult_right_mono [of "rank - of_nat i" 1 "s ! j - s ! i"] by simp
  ultimately show ?thesis using m unfolding p by linarith
qed

section \<open>Round trip\<close>

definition saved_ok :: "CorridorBuffer \<Rightarrow> bool" where
  "saved_ok b \<longleftrightarrow> dict_ok (cb_observations b) \<and> (\<forall>k \<in> set (map fst (cb_observations b)). py_upper k = k)"

lemma saved_ok_dset: "saved_ok b \<Longrightarrow> py_upper k = k \<Longrightarrow> saved_ok (b\<lparr>cb_observations := dset k v (cb_observations b)\<rparr>)"
  by (auto simp: saved_ok_def dom_update)

lemma corridor_key_upper [simp]: "py_upper (corridor_key c) = corridor_key c"
  by (simp add: corridor_key_def)

lemma saved_ok_prune: "saved_ok b \<Longrightarrow> py_upper k = k \<Longrightarrow> saved_ok (prune_locked now k b)"
  by (simp add: prune_locked_def saved_ok_dset)

lemma saved_ok_purge:
  "saved_ok b \<Longrightarrow> \<forall>k \<in> set keys. py_upper k = k \<Longrightarrow> saved_ok (snd (fold (\<lambda>key (n, b).
      (n + (length (observations_of key b) - length (observations_of key (prune_locked now key b))),
       prune_locked now key b)) keys (n, b)))"
  by (induction keys arbitrary: n b) (simp_all add: saved_ok_prune)

lemma saved_ok_step: "saved_ok b \<Longrightarrow> saved_ok (buffer_step (now, opn) b)"
proof (cases opn)
  case PurgeExpired
  assume b: "saved_ok b"
  then have "\<forall>k \<in> set (dkeys (cb_observations b)). py_upper k = k" by (simp add: saved_ok_def dkeys_def)
  with b PurgeExpired show ?thesis by (simp add: purge_expired_def saved_ok_purge)
qed (auto simp: add_observation_def get_buffer_tier_def estimate_p95_def Let_def saved_ok_prune intro!: saved_ok_dset)

lemma fold_dset_distinct:
  assumes "distinct (map f xs)" "\<forall>x \<in> set xs. f x \<notin> set (map fst d)"
  shows "fold (\<lambda>x. dset (f x) (g x)) xs d = d @ map (\<lambda>x. (f x, g x)) xs"
  using assms
proof (induction xs arbitrary: d)
  case (Cons x xs)
  then have "dset (f x) (g x) d = d @ [(f x, g x)]" by (intro dset_fresh) (simp add: map_of_eq_None_iff)
  moreover have "\<forall>y \<in> set xs. f y \<notin> set (map fst (d @ [(f x, g x)]))" using Cons.prems by (simp add: image_iff) metis
  ultimately show ?case using Cons.IH [of "d @ [(f x, g x)]"] Cons.prems by simp
qed simp

text \<open>
  C40: Saving keeps a buffer.  Whatever happened to it, a buffer written with \<open>to_dict\<close> and read back with
  \<open>from_dict\<close>, at any time, is the same buffer.
\<close>

theorem corridor_buffer_roundtrip:
  "buffer_from_dict now (buffer_to_dict (fold buffer_step ops corridor_buffer_init)) =
     fold buffer_step ops corridor_buffer_init"
proof -
  let ?b = "fold buffer_step ops corridor_buffer_init"
  have "saved_ok ?b"
  proof (induction ops rule: rev_induct)
    case (snoc e ops)
    then show ?case using saved_ok_step by (cases e) simp
  qed (simp add: corridor_buffer_init_def saved_ok_def)
  then have k: "distinct (map fst (cb_observations ?b))" "\<forall>x \<in> set (cb_observations ?b). py_upper (fst x) = fst x"
    by (auto simp: saved_ok_def dict_ok_def)
  let ?xs = "sv_observations (buffer_to_dict ?b)"
  have xs: "map (\<lambda>x. py_upper (fst x)) ?xs = map fst (cb_observations ?b)"
    using k(2) by (auto simp: buffer_to_dict_def split_def)
  have "fold (\<lambda>x. dset (py_upper (fst x))
      (map (\<lambda>e. case e of SavedPair ts days \<Rightarrow> (ts, days) | SavedDays days \<Rightarrow> (now, days)) (snd x))) ?xs [] =
    map (\<lambda>x. (py_upper (fst x), map (\<lambda>e. case e of SavedPair ts days \<Rightarrow> (ts, days) | SavedDays days \<Rightarrow> (now, days)) (snd x))) ?xs"
    using fold_dset_distinct [of "\<lambda>x. py_upper (fst x)" ?xs "[]"] k(1) unfolding xs by simp
  also have "\<dots> = cb_observations ?b"
    using k(2) by (auto simp: buffer_to_dict_def split_def comp_def intro!: map_idI)
  finally show ?thesis by (simp add: buffer_from_dict_def split_def) (simp add: buffer_to_dict_def)
qed

end
