(* ===== verification/Cascade_Graph.thy ===== *)
theory Cascade_Graph
  imports Py_Decimal
begin

text \<open>
  The corporate graph of the cascade engine (\<open>lip/p5_cascade_engine/corporate_graph.py\<close>) and the propagation of a
  failure over it (\<open>cascade_propagation.py\<close>).  Volumes, scores and probabilities are floats, rationals here.
  The mutable nodes of a result are replaced under their key.

  The breadth-first search is a \<open>function\<close> over its queue: it ends because each edge either leaves the state
  alone or visits one of finitely many targets for the first time.

  Shown: the nodes of a cascade form a tree rooted at the origin, each with the product of the dependencies on
  its path, at least the threshold, within the hop limit of at least one; nearer than the limit the search
  leaves out only nodes whose probability is too small; the value at risk below a node is that of its children and
  what is below them, so that the total is what hangs below the origin.
\<close>

section \<open>The graph\<close>

record CorporateNode =
  cn_corporate_id :: string
  cn_name_hash :: string
  cn_bics :: "string set"
  cn_sector :: string
  cn_jurisdiction :: string
  cn_total_incoming_volume_30d :: pyfloat
  cn_total_outgoing_volume_30d :: pyfloat
  cn_dependency_scores :: "(string, pyfloat) dict"
  cn_cascade_centrality :: pyfloat

record CorporateEdge =
  ce_source_corporate_id :: string
  ce_target_corporate_id :: string
  ce_total_volume_30d :: pyfloat
  ce_payment_count_30d :: int
  ce_dependency_score :: pyfloat
  ce_failure_rate_30d :: pyfloat
  ce_avg_settlement_hours :: pyfloat
  ce_last_payment_timestamp :: time

type_synonym adjacency = "(string, (string, CorporateEdge) dict) dict"

record CascadeGraph =
  cg_nodes :: "(string, CorporateNode) dict"
  cg_edges :: "CorporateEdge list"
  cg_adjacency :: adjacency
  cg_reverse_adjacency :: adjacency
  cg_build_timestamp :: time
  cg_node_count :: int
  cg_edge_count :: int
  cg_avg_dependency_score :: pyfloat
  cg_max_cascade_centrality_node :: string
  cg_corridor_to_corporates :: "(string, string list) dict"

definition neighbours :: "adjacency \<Rightarrow> string \<Rightarrow> (string, CorporateEdge) dict" where
  "neighbours adj u = value_or [] (dget adj u)"

definition get_downstream_dependents :: "CascadeGraph \<Rightarrow> string \<Rightarrow> pyfloat \<Rightarrow> string list" where
  "get_downstream_dependents g corporate_id threshold =
     map fst (filter (\<lambda>(cid, edge). ce_dependency_score edge \<ge> threshold) (neighbours (cg_adjacency g) corporate_id))"

definition get_corporates_on_corridor :: "CascadeGraph \<Rightarrow> string \<Rightarrow> string list" where
  "get_corporates_on_corridor g corridor = value_or [] (dget (cg_corridor_to_corporates g) corridor)"

section \<open>Propagation\<close>

definition CASCADE_INTERVENTION_THRESHOLD :: pyfloat where "CASCADE_INTERVENTION_THRESHOLD = 70 / 100"
definition CASCADE_MAX_HOPS :: int where "CASCADE_MAX_HOPS = 5"

record CascadeRiskNode =
  rn_corporate_id :: string
  rn_cascade_probability :: pyfloat
  rn_incoming_volume_at_risk_usd :: pyfloat
  rn_downstream_value_at_risk_usd :: pyfloat
  rn_hop_distance :: int
  rn_parent_corporate_id :: string

type_synonym cascade_map = "(string, CascadeRiskNode) dict"

record CascadeResult =
  cr_origin_corporate_id :: string
  cr_trigger_type :: string
  cr_cascade_map :: cascade_map
  cr_total_value_at_risk_usd :: pyfloat
  cr_origin_outgoing_volume_usd :: pyfloat
  cr_cascade_amplification_factor :: pyfloat
  cr_nodes_evaluated :: int
  cr_nodes_above_threshold :: int
  cr_max_hops_reached :: int
  cr_timestamp :: time

text \<open>The state of the search: the cascade map, the visited set, the queue, and the nodes evaluated.\<close>

type_synonym bfs_item = "string \<times> pyfloat \<times> int"
type_synonym bfs_state = "cascade_map \<times> string list \<times> bfs_item list \<times> int"

definition risk_node :: "string \<Rightarrow> pyfloat \<Rightarrow> CorporateEdge \<Rightarrow> int \<Rightarrow> string \<Rightarrow> CascadeRiskNode" where
  "risk_node target p edge hop parent =
     \<lparr> rn_corporate_id = target, rn_cascade_probability = p,
       rn_incoming_volume_at_risk_usd = ce_total_volume_30d edge, rn_downstream_value_at_risk_usd = 0,
       rn_hop_distance = hop, rn_parent_corporate_id = parent \<rparr>"

definition enter_node :: "string \<Rightarrow> pyfloat \<Rightarrow> CorporateEdge \<Rightarrow> int \<Rightarrow> string \<Rightarrow> bfs_state \<Rightarrow> bfs_state" where
  "enter_node target p edge hop parent st =
     (case st of (m, visited, queue, n) \<Rightarrow>
        (dset target (risk_node target p edge hop parent) m, target # visited, queue @ [(target, p, hop)], n))"

definition seed_edge :: "pyfloat \<Rightarrow> string \<Rightarrow> string \<times> CorporateEdge \<Rightarrow> bfs_state \<Rightarrow> bfs_state" where
  "seed_edge threshold origin te st =
     (case (te, st) of ((target, edge), (m, visited, queue, n)) \<Rightarrow>
        let p_child = ce_dependency_score edge
        in if p_child \<ge> threshold \<and> target \<notin> set visited
           then enter_node target p_child edge 1 origin (m, visited, queue, n + 1)
           else (m, visited, queue, n + 1))"

definition visit_edge :: "pyfloat \<Rightarrow> bfs_item \<Rightarrow> string \<times> CorporateEdge \<Rightarrow> bfs_state \<Rightarrow> bfs_state" where
  "visit_edge threshold item te st =
     (case (item, te, st) of ((u, p_u, hop), (target, edge), (m, visited, queue, n)) \<Rightarrow>
        if target \<in> set visited then st
        else
          let p_child = p_u * ce_dependency_score edge
          in if p_child \<ge> threshold then enter_node target p_child edge (hop + 1) u (m, visited, queue, n + 1)
             else (m, visited, queue, n + 1))"

text \<open>Every target of an edge.\<close>

definition all_targets :: "adjacency \<Rightarrow> string set" where
  "all_targets adj = (\<Union>(u, ts) \<in> set adj. fst ` set ts)"

lemma finite_targets [simp]: "finite (all_targets adj)"
  by (auto simp: all_targets_def)

lemma neighbours_targets: "fst ` set (neighbours adj u) \<subseteq> all_targets adj"
  by (cases "dget adj u") (auto simp: neighbours_def all_targets_def dest!: map_of_SomeD)

lemma visit_edges_progress:
  assumes "fst ` set es \<subseteq> T" "finite T"
    and "fold (visit_edge threshold item) es (m, visited, queue, n) = (m', visited', queue', n')"
  shows "card (T - set visited') < card (T - set visited) \<or> visited' = visited \<and> queue' = queue"
  using assms
proof (induction es arbitrary: m visited queue n)
  case (Cons te es)
  obtain target edge where te: "te = (target, edge)" by fastforce
  obtain u p hop where item: "item = (u, p, hop)" by (cases item)
  obtain m1 v1 q1 n1 where s: "visit_edge threshold item te (m, visited, queue, n) = (m1, v1, q1, n1)"
    by (cases "visit_edge threshold item te (m, visited, queue, n)")
  have IH: "card (T - set visited') < card (T - set v1) \<or> visited' = v1 \<and> queue' = q1"
    using Cons s by simp
  show ?case
  proof (cases "v1 = visited")
    case True
    with s have "q1 = queue" by (auto simp: visit_edge_def te item enter_node_def Let_def split: if_splits)
    with IH True show ?thesis by simp
  next
    case False
    with s have v: "v1 = target # visited" "target \<notin> set visited"
      by (auto simp: visit_edge_def te item enter_node_def Let_def split: if_splits)
    have "card (T - set v1) < card (T - set visited)"
      using v Cons.prems(1,2) te by (intro psubset_card_mono) auto
    with IH show ?thesis by auto
  qed
qed simp

function bfs :: "adjacency \<Rightarrow> pyfloat \<Rightarrow> int \<Rightarrow> bfs_state \<Rightarrow> bfs_state" where
  "bfs adj threshold max_hops (m, visited, [], n) = (m, visited, [], n)"
| "bfs adj threshold max_hops (m, visited, (u, p_u, hop) # queue, n) =
     (if hop \<ge> max_hops then bfs adj threshold max_hops (m, visited, queue, n)
      else bfs adj threshold max_hops
             (fold (visit_edge threshold (u, p_u, hop)) (neighbours adj u) (m, visited, queue, n)))"
  by pat_completeness auto

termination
proof (relation "measures [\<lambda>(adj, threshold, max_hops, m, visited, queue, n). card (all_targets adj - set visited),
    \<lambda>(adj, threshold, max_hops, m, visited, queue, n). length queue]", goal_cases)
  case (3 adj threshold max_hops m visited u p_u hop queue n)
  obtain m' v' q' n' where s: "fold (visit_edge threshold (u, p_u, hop)) (neighbours adj u) (m, visited, queue, n) = (m', v', q', n')"
    by (cases "fold (visit_edge threshold (u, p_u, hop)) (neighbours adj u) (m, visited, queue, n)")
  from visit_edges_progress [OF neighbours_targets finite_targets s] show ?case by (auto simp: s)
qed simp_all

section \<open>Value at risk\<close>

definition own_risk :: "CascadeRiskNode \<Rightarrow> pyfloat" where
  "own_risk node = rn_cascade_probability node * rn_incoming_volume_at_risk_usd node"

definition children_of :: "cascade_map \<Rightarrow> string \<Rightarrow> CascadeRiskNode list" where
  "children_of m parent = filter (\<lambda>n. rn_parent_corporate_id n = parent) (dvalues m)"

definition below :: "cascade_map \<Rightarrow> string \<Rightarrow> pyfloat" where
  "below m parent =
     sum_list (map (\<lambda>c. own_risk c + rn_downstream_value_at_risk_usd c) (children_of m parent))"

definition set_downstream :: "CascadeRiskNode \<Rightarrow> cascade_map \<Rightarrow> cascade_map" where
  "set_downstream node m =
     (let k = rn_corporate_id node
      in dset k (node\<lparr>rn_downstream_value_at_risk_usd := below m k\<rparr>) m)"

text \<open>Deepest first; nodes of equal depth in the order of the map.\<close>

definition downstream_pass :: "cascade_map \<Rightarrow> cascade_map" where
  "downstream_pass m = fold set_downstream (sort_key (\<lambda>n. - rn_hop_distance n) (dvalues m)) m"

definition total_at_risk :: "cascade_map \<Rightarrow> pyfloat" where
  "total_at_risk m = sum_list (map own_risk (dvalues m))"

definition seeded :: "adjacency \<Rightarrow> string \<Rightarrow> pyfloat \<Rightarrow> bfs_state" where
  "seeded adj origin threshold = fold (seed_edge threshold origin) (neighbours adj origin) ([], [origin], [], 0)"

definition search :: "adjacency \<Rightarrow> string \<Rightarrow> pyfloat \<Rightarrow> int \<Rightarrow> bfs_state" where
  "search adj origin threshold max_hops = bfs adj threshold max_hops (seeded adj origin threshold)"

definition propagate :: "time \<Rightarrow> CascadeGraph \<Rightarrow> string \<Rightarrow> pyfloat \<Rightarrow> int \<Rightarrow> string \<Rightarrow> CascadeResult" where
  "propagate now graph origin threshold max_hops trigger_type =
     (let empty_result = \<lparr> cr_origin_corporate_id = origin, cr_trigger_type = trigger_type, cr_cascade_map = [],
            cr_total_value_at_risk_usd = 0, cr_origin_outgoing_volume_usd = 0, cr_cascade_amplification_factor = 0,
            cr_nodes_evaluated = 0, cr_nodes_above_threshold = 0, cr_max_hops_reached = 0, cr_timestamp = now \<rparr>
      in if dget (cg_adjacency graph) origin = None then empty_result
         else
           let (m, visited, queue, n) = search (cg_adjacency graph) origin threshold max_hops;
               m = downstream_pass m;
               total_var = total_at_risk m;
               origin_outgoing =
                 sum_list (map (ce_total_volume_30d \<circ> snd) (neighbours (cg_adjacency graph) origin));
               max_hop = foldl max 0 (map rn_hop_distance (dvalues m))
           in empty_result\<lparr>cr_cascade_map := m, cr_total_value_at_risk_usd := total_var,
                cr_origin_outgoing_volume_usd := origin_outgoing,
                cr_cascade_amplification_factor := (if origin_outgoing > 0 then total_var / origin_outgoing else 0),
                cr_nodes_evaluated := n, cr_nodes_above_threshold := int (length m),
                cr_max_hops_reached := max_hop\<rparr>)"

section \<open>The tree of a cascade\<close>

definition tree_node :: "adjacency \<Rightarrow> string \<Rightarrow> pyfloat \<Rightarrow> int \<Rightarrow> cascade_map \<Rightarrow> CascadeRiskNode \<Rightarrow> bool" where
  "tree_node adj origin threshold max_hops m n \<longleftrightarrow>
     rn_corporate_id n \<noteq> origin \<and> threshold \<le> rn_cascade_probability n \<and>
     1 \<le> rn_hop_distance n \<and> rn_hop_distance n \<le> max 1 max_hops \<and>
     (\<exists>edge. (rn_corporate_id n, edge) \<in> set (neighbours adj (rn_parent_corporate_id n)) \<and>
        rn_incoming_volume_at_risk_usd n = ce_total_volume_30d edge \<and>
        (if rn_hop_distance n = 1
         then rn_parent_corporate_id n = origin \<and> rn_cascade_probability n = ce_dependency_score edge
         else \<exists>parent. dget m (rn_parent_corporate_id n) = Some parent \<and>
                rn_hop_distance n = rn_hop_distance parent + 1 \<and>
                rn_cascade_probability n = rn_cascade_probability parent * ce_dependency_score edge))"

definition cascade_tree :: "adjacency \<Rightarrow> string \<Rightarrow> pyfloat \<Rightarrow> int \<Rightarrow> cascade_map \<Rightarrow> bool" where
  "cascade_tree adj origin threshold max_hops m \<longleftrightarrow>
     dict_ok m \<and> (\<forall>(k, n) \<in> set m. rn_corporate_id n = k \<and> tree_node adj origin threshold max_hops m n)"

text \<open>The edges that were followed: their targets were visited, or are too unlikely.\<close>

definition edges_closed :: "string set \<Rightarrow> pyfloat \<Rightarrow> pyfloat \<Rightarrow> (string, CorporateEdge) dict \<Rightarrow> bool" where
  "edges_closed visited p threshold es \<longleftrightarrow>
     (\<forall>(t, e) \<in> set es. t \<in> visited \<or> p * ce_dependency_score e < threshold)"

definition cascade_closed :: "adjacency \<Rightarrow> string \<Rightarrow> pyfloat \<Rightarrow> int \<Rightarrow> cascade_map \<Rightarrow> bool" where
  "cascade_closed adj origin threshold max_hops m \<longleftrightarrow>
     (let visited = insert origin (fst ` set m)
      in edges_closed visited 1 threshold (neighbours adj origin) \<and>
         (\<forall>(k, n) \<in> set m. rn_hop_distance n < max_hops \<longrightarrow>
            edges_closed visited (rn_cascade_probability n) threshold (neighbours adj k)))"

lemma edges_closed_mono: "edges_closed V p t es \<Longrightarrow> V \<subseteq> W \<Longrightarrow> edges_closed W p t es"
  by (auto simp: edges_closed_def)

lemma edges_closed_simps [simp]:
  "edges_closed V p t []"
  "edges_closed V p t ((k, e) # es) \<longleftrightarrow> (k \<in> V \<or> p * ce_dependency_score e < t) \<and> edges_closed V p t es"
  by (auto simp: edges_closed_def)

definition queue_ok :: "cascade_map \<Rightarrow> bfs_item list \<Rightarrow> bool" where
  "queue_ok m queue \<longleftrightarrow>
     (\<forall>(u, p, h) \<in> set queue. \<exists>node. dget m u = Some node \<and> rn_cascade_probability node = p \<and> rn_hop_distance node = h)"

text \<open>Every node but those of \<open>E\<close> had its edges followed.\<close>

definition expanded :: "adjacency \<Rightarrow> pyfloat \<Rightarrow> int \<Rightarrow> string set \<Rightarrow> string set \<Rightarrow> cascade_map \<Rightarrow> bool" where
  "expanded adj threshold max_hops visited E m \<longleftrightarrow>
     (\<forall>(k, node) \<in> set m. rn_hop_distance node < max_hops \<longrightarrow> k \<notin> E \<longrightarrow>
        edges_closed visited (rn_cascade_probability node) threshold (neighbours adj k))"

definition visited_keys :: "string \<Rightarrow> cascade_map \<Rightarrow> string list \<Rightarrow> bool" where
  "visited_keys origin m visited \<longleftrightarrow> set visited = insert origin (fst ` set m)"

definition search_ok :: "adjacency \<Rightarrow> string \<Rightarrow> pyfloat \<Rightarrow> int \<Rightarrow> string set \<Rightarrow> bfs_state \<Rightarrow> bool" where
  "search_ok adj origin threshold max_hops X st \<longleftrightarrow>
     (case st of (m, visited, queue, n) \<Rightarrow>
        cascade_tree adj origin threshold max_hops m \<and> visited_keys origin m visited \<and>
        queue_ok m queue \<and> expanded adj threshold max_hops (set visited) (X \<union> fst ` set queue) m)"

lemma search_ok_count:
  "search_ok adj origin threshold max_hops X (m, visited, queue, n) \<Longrightarrow>
   search_ok adj origin threshold max_hops X (m, visited, queue, n')"
  by (simp add: search_ok_def)

lemma expanded_mono:
  assumes "expanded adj threshold max_hops V E m" "V \<subseteq> W" "E \<subseteq> F"
  shows "expanded adj threshold max_hops W F m"
  unfolding expanded_def
proof (clarify)
  fix k node assume n: "(k, node) \<in> set m" "rn_hop_distance node < max_hops" "k \<notin> F"
  with assms(3) have "k \<notin> E" by blast
  with n assms(1) have "edges_closed V (rn_cascade_probability node) threshold (neighbours adj k)"
    by (auto simp: expanded_def)
  then show "edges_closed W (rn_cascade_probability node) threshold (neighbours adj k)"
    using assms(2) by (rule edges_closed_mono)
qed

lemma tree_node_dset:
  "tree_node adj origin threshold max_hops m n \<Longrightarrow> dget m k = None \<Longrightarrow>
   tree_node adj origin threshold max_hops (dset k v m) n"
  unfolding tree_node_def by (auto simp: dict_simps split: if_splits)

lemma enter_ok:
  assumes ok: "search_ok adj origin threshold max_hops X (m, visited, queue, n)"
    and fresh: "target \<notin> set visited"
    and node: "tree_node adj origin threshold max_hops m (risk_node target p edge hop parent)"
  shows "search_ok adj origin threshold max_hops X (enter_node target p edge hop parent (m, visited, queue, n))"
proof -
  let ?n = "risk_node target p edge hop parent"
  have v: "set visited = insert origin (fst ` set m)" and t: "cascade_tree adj origin threshold max_hops m"
    and q: "queue_ok m queue" and ex: "expanded adj threshold max_hops (set visited) (X \<union> fst ` set queue) m"
    using ok unfolding search_ok_def visited_keys_def prod.case by blast+
  from v fresh have none: "dget m target = None" by (simp add: map_of_eq_None_iff)
  then have m': "dset target ?n m = m @ [(target, ?n)]" by (rule dset_fresh)
  have "dict_ok (dset target ?n m)" using t by (simp add: cascade_tree_def)
  moreover have "tree_node adj origin threshold max_hops (dset target ?n m) ?n"
    using node none by (rule tree_node_dset)
  moreover have "\<forall>(k, n) \<in> set m. rn_corporate_id n = k \<and> tree_node adj origin threshold max_hops (dset target ?n m) n"
    using t none by (auto simp: cascade_tree_def intro: tree_node_dset)
  ultimately have "cascade_tree adj origin threshold max_hops (m @ [(target, ?n)])"
    unfolding cascade_tree_def m' by (simp add: risk_node_def)
  moreover have "queue_ok (m @ [(target, ?n)]) (queue @ [(target, p, hop)])"
    using q none unfolding queue_ok_def by (fastforce simp: risk_node_def map_add_def split: option.splits)
  moreover have "expanded adj threshold max_hops (insert target (set visited))
      (X \<union> fst ` set (queue @ [(target, p, hop)])) m"
    using ex by (rule expanded_mono) auto
  ultimately show ?thesis
    using v by (auto simp: search_ok_def enter_node_def m' expanded_def visited_keys_def)
qed

lemma visit_edges_ok:
  assumes "search_ok adj origin threshold max_hops X (m, visited, queue, n)"
    and "dget m u = Some node" "hop < max_hops" "rn_hop_distance node = hop" "rn_cascade_probability node = p"
    and "set es \<subseteq> set (neighbours adj u)"
    and "fold (visit_edge threshold (u, p, hop)) es (m, visited, queue, n) = (m', visited', queue', n')"
  shows "search_ok adj origin threshold max_hops X (m', visited', queue', n') \<and> dget m' u = Some node \<and>
    set visited \<subseteq> set visited' \<and> edges_closed (set visited') p threshold es"
  using assms(1,2,6,7)
proof (induction es arbitrary: m visited queue n)
  case (Cons te es)
  obtain t e where te: "te = (t, e)" by fastforce
  obtain m1 v1 q1 n1 where s: "visit_edge threshold (u, p, hop) te (m, visited, queue, n) = (m1, v1, q1, n1)"
    by (cases "visit_edge threshold (u, p, hop) te (m, visited, queue, n)")
  have one: "search_ok adj origin threshold max_hops X (m1, v1, q1, n1) \<and> dget m1 u = Some node \<and>
      set visited \<subseteq> set v1 \<and> (t \<in> set v1 \<or> p * ce_dependency_score e < threshold)"
  proof (cases "t \<notin> set visited \<and> threshold \<le> p * ce_dependency_score e")
    case True
    let ?st = "enter_node t (p * ce_dependency_score e) e (hop + 1) u (m, visited, queue, n + 1)"
    have st: "(m1, v1, q1, n1) = ?st" using True s te by (simp add: visit_edge_def Let_def)
    have v: "set visited = insert origin (fst ` set m)" and h: "1 \<le> hop"
      using Cons.prems(1,2) assms(4) by (auto simp: search_ok_def visited_keys_def cascade_tree_def tree_node_def dest!: dget_Some_mem)
    have "(t, e) \<in> set (neighbours adj u)" using Cons.prems(3) te by simp
    then have "tree_node adj origin threshold max_hops m (risk_node t (p * ce_dependency_score e) e (hop + 1) u)"
      using True v h Cons.prems(2) assms(3-5) unfolding tree_node_def
      by (intro conjI exI [of _ e]) (simp_all add: risk_node_def)
    moreover note search_ok_count [OF Cons.prems(1), of "n + 1"]
    ultimately have "search_ok adj origin threshold max_hops X ?st" using True by (intro enter_ok) simp_all
    moreover have "t \<noteq> u" using True v Cons.prems(2) by (auto dest!: dget_Some_mem simp: image_iff)
    ultimately show ?thesis using st Cons.prems(2) by (auto simp: enter_node_def dict_simps)
  next
    case False
    with s te have "m1 = m" "v1 = visited" "q1 = queue" by (auto simp: visit_edge_def Let_def split: if_splits)
    with False search_ok_count [OF Cons.prems(1)] Cons.prems(2) show ?thesis by auto
  qed
  have rest: "fold (visit_edge threshold (u, p, hop)) es (m1, v1, q1, n1) = (m', visited', queue', n')"
    using Cons.prems(4) s by simp
  have "search_ok adj origin threshold max_hops X (m', visited', queue', n') \<and> dget m' u = Some node \<and>
      set v1 \<subseteq> set visited' \<and> edges_closed (set visited') p threshold es"
    using Cons.IH [OF _ _ _ rest] one Cons.prems(3) by simp
  with one show ?case by (auto simp: te)
qed simp

lemma search_ok_pop:
  assumes "search_ok adj origin threshold max_hops X (m, visited, (u, p, hop) # queue, n)"
  shows "search_ok adj origin threshold max_hops (insert u X) (m, visited, queue, n)"
    and "\<exists>node. dget m u = Some node \<and> rn_cascade_probability node = p \<and> rn_hop_distance node = hop"
  using assms by (simp_all add: search_ok_def queue_ok_def)

lemma search_ok_close:
  assumes "search_ok adj origin threshold max_hops {u} (m, visited, queue, n)" "dget m u = Some node"
    and "rn_hop_distance node < max_hops \<longrightarrow>
      edges_closed (set visited) (rn_cascade_probability node) threshold (neighbours adj u)"
  shows "search_ok adj origin threshold max_hops {} (m, visited, queue, n)"
proof -
  have "dict_ok m" using assms(1) by (simp add: search_ok_def cascade_tree_def)
  then have "b = node" if "(u, b) \<in> set m" for b using that assms(2) by (simp add: mem_dget)
  moreover have "expanded adj threshold max_hops (set visited) ({u} \<union> fst ` set queue) m"
    using assms(1) by (simp add: search_ok_def)
  ultimately have "expanded adj threshold max_hops (set visited) (fst ` set queue) m"
    using assms(3) unfolding expanded_def by (fastforce simp del: edges_closed_simps)
  with assms(1) show ?thesis by (simp add: search_ok_def)
qed

lemma bfs_ok:
  "search_ok adj origin threshold max_hops {} st \<Longrightarrow>
   search_ok adj origin threshold max_hops {} (bfs adj threshold max_hops st) \<and>
   fst (snd (snd (bfs adj threshold max_hops st))) = [] \<and>
   set (fst (snd st)) \<subseteq> set (fst (snd (bfs adj threshold max_hops st)))"
proof (induction adj threshold max_hops st rule: bfs.induct)
  case (2 adj threshold max_hops m visited u p hop queue n)
  note pop = search_ok_pop(1) [OF "2.prems"]
  obtain node where node: "dget m u = Some node" "rn_cascade_probability node = p" "rn_hop_distance node = hop"
    using search_ok_pop(2) [OF "2.prems"] by blast
  show ?case
  proof (cases "hop \<ge> max_hops")
    case True
    with search_ok_close [OF pop node(1)] node(3) "2.IH"(1) show ?thesis by simp
  next
    case False
    obtain m' v' q' n' where s: "fold (visit_edge threshold (u, p, hop)) (neighbours adj u) (m, visited, queue, n) = (m', v', q', n')"
      by (cases "fold (visit_edge threshold (u, p, hop)) (neighbours adj u) (m, visited, queue, n)")
    from visit_edges_ok [OF pop node(1) _ node(3,2) subset_refl s] False
    have st: "search_ok adj origin threshold max_hops {u} (m', v', q', n')" "dget m' u = Some node"
      "set visited \<subseteq> set v'" "edges_closed (set v') p threshold (neighbours adj u)" by simp_all
    from search_ok_close [OF st(1,2)] st(4) node(2)
    have "search_ok adj origin threshold max_hops {} (m', v', q', n')" by simp
    with "2.IH"(2) False s st(3) show ?thesis by auto
  qed
qed simp

lemma seed_ok:
  assumes "search_ok adj origin threshold max_hops {} (m, visited, queue, n)"
    and "set es \<subseteq> set (neighbours adj origin)"
    and "fold (seed_edge threshold origin) es (m, visited, queue, n) = (m', visited', queue', n')"
  shows "search_ok adj origin threshold max_hops {} (m', visited', queue', n') \<and>
    set visited \<subseteq> set visited' \<and> edges_closed (set visited') 1 threshold es"
  using assms
proof (induction es arbitrary: m visited queue n)
  case (Cons te es)
  obtain t e where te: "te = (t, e)" by fastforce
  obtain m1 v1 q1 n1 where s: "seed_edge threshold origin te (m, visited, queue, n) = (m1, v1, q1, n1)"
    by (cases "seed_edge threshold origin te (m, visited, queue, n)")
  note ok1 = search_ok_count [OF Cons.prems(1), of "n + 1"]
  have one: "search_ok adj origin threshold max_hops {} (m1, v1, q1, n1) \<and>
      set visited \<subseteq> set v1 \<and> (t \<in> set v1 \<or> ce_dependency_score e < threshold)"
  proof (cases "t \<notin> set visited \<and> threshold \<le> ce_dependency_score e")
    case True
    let ?st = "enter_node t (ce_dependency_score e) e 1 origin (m, visited, queue, n + 1)"
    have st: "(m1, v1, q1, n1) = ?st" using True s te by (simp add: seed_edge_def Let_def)
    have v: "set visited = insert origin (fst ` set m)" using Cons.prems(1) by (auto simp: search_ok_def visited_keys_def)
    have "(t, e) \<in> set (neighbours adj origin)" using Cons.prems(2) te by simp
    then have "tree_node adj origin threshold max_hops m (risk_node t (ce_dependency_score e) e 1 origin)"
      using True v unfolding tree_node_def by (intro conjI exI [of _ e]) (simp_all add: risk_node_def)
    with ok1 True have "search_ok adj origin threshold max_hops {} ?st" by (intro enter_ok) simp_all
    then show ?thesis using st by (auto simp: enter_node_def)
  next
    case False
    with s te have "m1 = m" "v1 = visited" "q1 = queue" by (auto simp: seed_edge_def Let_def split: if_splits)
    with False search_ok_count [OF Cons.prems(1)] show ?thesis by auto
  qed
  have rest: "fold (seed_edge threshold origin) es (m1, v1, q1, n1) = (m', visited', queue', n')"
    using Cons.prems(3) s by simp
  have "search_ok adj origin threshold max_hops {} (m', visited', queue', n') \<and>
      set v1 \<subseteq> set visited' \<and> edges_closed (set visited') 1 threshold es"
    using Cons.IH [OF _ _ rest] one Cons.prems(2) by simp
  with one show ?case by (auto simp: te)
qed simp

lemma search_facts:
  assumes "search adj origin threshold max_hops = (m, visited, queue, n)"
  shows "cascade_tree adj origin threshold max_hops m \<and> cascade_closed adj origin threshold max_hops m"
proof -
  obtain m0 v0 q0 n0 where s: "seeded adj origin threshold = (m0, v0, q0, n0)" by (cases "seeded adj origin threshold")
  have "search_ok adj origin threshold max_hops {} ([], [origin], [], 0)"
    by (simp add: search_ok_def cascade_tree_def queue_ok_def expanded_def visited_keys_def)
  from seed_ok [OF this subset_refl s [unfolded seeded_def]]
  have ok0: "search_ok adj origin threshold max_hops {} (m0, v0, q0, n0)" "edges_closed (set v0) 1 threshold (neighbours adj origin)"
    by simp_all
  from bfs_ok [OF ok0(1)] assms s
  have "search_ok adj origin threshold max_hops {} (m, visited, [], n)" "set v0 \<subseteq> set visited"
    by (auto simp: search_def)
  then have "cascade_tree adj origin threshold max_hops m"
    and v: "set visited = insert origin (fst ` set m)" "set v0 \<subseteq> set visited"
    and ex: "expanded adj threshold max_hops (set visited) {} m"
    by (auto simp: search_ok_def visited_keys_def)
  moreover have "cascade_closed adj origin threshold max_hops m"
    using edges_closed_mono [OF ok0(2) v(2)] ex unfolding cascade_closed_def expanded_def v(1) Let_def by blast
  ultimately show ?thesis by blast
qed

section \<open>The value below a node\<close>

definition same_tree :: "cascade_map \<Rightarrow> cascade_map \<Rightarrow> bool" where
  "same_tree m m' \<longleftrightarrow>
     map (\<lambda>(k, n). (k, n\<lparr>rn_downstream_value_at_risk_usd := 0\<rparr>)) m =
     map (\<lambda>(k, n). (k, n\<lparr>rn_downstream_value_at_risk_usd := 0\<rparr>)) m'"

lemma same_tree_refl [simp]: "same_tree m m"
  by (simp add: same_tree_def)

lemma same_tree_trans: "same_tree a b \<Longrightarrow> same_tree b c \<Longrightarrow> same_tree a c"
  by (simp add: same_tree_def)

lemma same_tree_sym: "same_tree a b \<Longrightarrow> same_tree b a"
  by (simp add: same_tree_def)

lemma same_tree_keys: "same_tree m m' \<Longrightarrow> map fst m = map fst m'"
  unfolding same_tree_def by (drule arg_cong [where f = "map fst"]) (simp add: comp_def split_def)

definition same_node :: "CascadeRiskNode \<Rightarrow> CascadeRiskNode \<Rightarrow> bool" where
  "same_node n n' \<longleftrightarrow> n\<lparr>rn_downstream_value_at_risk_usd := 0\<rparr> = n'\<lparr>rn_downstream_value_at_risk_usd := 0\<rparr>"

lemma same_nodeD:
  assumes "same_node n n'"
  shows "rn_corporate_id n = rn_corporate_id n'" "rn_cascade_probability n = rn_cascade_probability n'"
    "rn_incoming_volume_at_risk_usd n = rn_incoming_volume_at_risk_usd n'" "rn_hop_distance n = rn_hop_distance n'"
    "rn_parent_corporate_id n = rn_parent_corporate_id n'" "own_risk n = own_risk n'"
  using assms unfolding same_node_def own_risk_def by (cases n; cases n'; simp)+

lemma same_tree_mem: "same_tree m m' \<Longrightarrow> (k, n) \<in> set m \<Longrightarrow> \<exists>n'. (k, n') \<in> set m' \<and> same_node n n'"
proof (induction m arbitrary: m')
  case (Cons x m)
  from Cons.prems(1) obtain y m1 where m': "m' = y # m1" by (cases m') (auto simp: same_tree_def)
  obtain kx nx ky ny where xy: "x = (kx, nx)" "y = (ky, ny)" by fastforce
  have "kx = ky" "same_node nx ny" "same_tree m m1"
    using Cons.prems(1) by (simp_all add: same_tree_def same_node_def m' xy)
  with Cons m' xy show ?case by fastforce
qed simp

lemma same_tree_dget:
  assumes "same_tree m m'" "dict_ok m" "dget m k = Some n"
  shows "\<exists>n'. dget m' k = Some n' \<and> same_node n n'"
proof -
  obtain n' where "(k, n') \<in> set m'" "same_node n n'" using same_tree_mem [OF assms(1)] assms(3) dget_Some_mem by metis
  moreover have "dict_ok m'" using assms(2) same_tree_keys [OF assms(1)] by (simp add: dict_ok_def)
  ultimately show ?thesis using mem_dget by metis
qed

lemma cascade_tree_cong:
  assumes "same_tree m m'" "cascade_tree adj origin threshold max_hops m"
  shows "cascade_tree adj origin threshold max_hops m'"
proof -
  have ok: "dict_ok m" "dict_ok m'" using assms same_tree_keys [OF assms(1)] by (simp_all add: cascade_tree_def dict_ok_def)
  have "rn_corporate_id n' = k \<and> tree_node adj origin threshold max_hops m' n'" if mem: "(k, n') \<in> set m'" for k n'
  proof -
    obtain n where n: "(k, n) \<in> set m" "same_node n' n"
      using same_tree_mem [OF same_tree_sym [OF assms(1)] mem] by blast
    with assms(2) have t: "rn_corporate_id n = k" "tree_node adj origin threshold max_hops m n"
      by (auto simp: cascade_tree_def)
    have parent: "\<exists>q. dget m' p = Some q \<and> rn_hop_distance pn = rn_hop_distance q \<and>
        rn_cascade_probability pn = rn_cascade_probability q" if "dget m p = Some pn" for p pn
      using same_tree_dget [OF assms(1) ok(1) that] same_nodeD by blast
    from t(2) obtain edge where e: "(rn_corporate_id n, edge) \<in> set (neighbours adj (rn_parent_corporate_id n))"
        "rn_incoming_volume_at_risk_usd n = ce_total_volume_30d edge"
      and up: "if rn_hop_distance n = 1
         then rn_parent_corporate_id n = origin \<and> rn_cascade_probability n = ce_dependency_score edge
         else \<exists>parent. dget m (rn_parent_corporate_id n) = Some parent \<and>
                rn_hop_distance n = rn_hop_distance parent + 1 \<and>
                rn_cascade_probability n = rn_cascade_probability parent * ce_dependency_score edge"
      unfolding tree_node_def by blast
    have "if rn_hop_distance n = 1
         then rn_parent_corporate_id n = origin \<and> rn_cascade_probability n = ce_dependency_score edge
         else \<exists>parent. dget m' (rn_parent_corporate_id n) = Some parent \<and>
                rn_hop_distance n = rn_hop_distance parent + 1 \<and>
                rn_cascade_probability n = rn_cascade_probability parent * ce_dependency_score edge"
      using up parent by (cases "rn_hop_distance n = 1") (simp, fastforce)
    with t e show ?thesis unfolding tree_node_def same_nodeD [OF n(2)] by blast
  qed
  with ok(2) show ?thesis by (auto simp: cascade_tree_def)
qed

lemma cascade_closed_cong:
  assumes "same_tree m m'" "cascade_closed adj origin threshold max_hops m"
  shows "cascade_closed adj origin threshold max_hops m'"
proof -
  have keys: "fst ` set m = fst ` set m'" using same_tree_keys [OF assms(1)] by (metis list.set_map)
  have "edges_closed (insert origin (fst ` set m')) (rn_cascade_probability n') threshold (neighbours adj k)"
    if mem: "(k, n') \<in> set m'" and hop: "rn_hop_distance n' < max_hops" for k n'
  proof -
    obtain n where "(k, n) \<in> set m" "same_node n' n"
      using same_tree_mem [OF same_tree_sym [OF assms(1)] mem] by blast
    then show ?thesis using assms(2) hop keys by (auto simp: cascade_closed_def Let_def same_nodeD)
  qed
  with assms(2) show ?thesis unfolding cascade_closed_def Let_def keys by blast
qed

lemma dset_present:
  "dict_ok m \<Longrightarrow> k \<in> fst ` set m \<Longrightarrow> dset k v m = map (\<lambda>(a, b). if a = k then (a, v) else (a, b)) m"
proof (induction m)
  case (Cons x m)
  obtain a b where x: "x = (a, b)" by fastforce
  have d: "dict_ok m" "a \<notin> fst ` set m" using Cons.prems(1) by (simp_all add: dict_ok_def x)
  show ?case
  proof (cases "a = k")
    case True
    with d(2) have "map (\<lambda>(a, b). if a = k then (a, v) else (a, b)) m = m" by (force intro: map_idI)
    with True x show ?thesis by simp
  qed (use Cons d x in auto)
qed simp

lemma filter_replaced:
  assumes "\<not> P v" "\<And>b. (k, b) \<in> set m \<Longrightarrow> \<not> P b"
  shows "filter P (map snd (map (\<lambda>(a, b). if a = k then (a, v) else (a, b)) m)) = filter P (map snd m)"
  using assms(2)
proof (induction m)
  case (Cons x m)
  then show ?case using assms(1) by (cases x) auto
qed simp

definition keyed :: "cascade_map \<Rightarrow> bool" where
  "keyed m \<longleftrightarrow> dict_ok m \<and> (\<forall>(k, n) \<in> set m. rn_corporate_id n = k)"

lemma same_tree_keyed:
  assumes "same_tree m m'" "keyed m"
  shows "keyed m'"
proof -
  have "rn_corporate_id n' = k" if mem: "(k, n') \<in> set m'" for k n'
  proof -
    obtain n where "(k, n) \<in> set m" "same_node n' n"
      using same_tree_mem [OF same_tree_sym [OF assms(1)] mem] by blast
    with assms(2) show ?thesis by (auto simp: keyed_def same_nodeD)
  qed
  with assms show ?thesis using same_tree_keys [OF assms(1)] by (auto simp: keyed_def dict_ok_def)
qed

lemma set_downstream_map:
  assumes "keyed m" "(rn_corporate_id n, n') \<in> set m" "same_node n' n"
  shows "set_downstream n m = map (\<lambda>(a, b). if a = rn_corporate_id n
      then (a, n\<lparr>rn_downstream_value_at_risk_usd := below m (rn_corporate_id n)\<rparr>) else (a, b)) m"
    and "same_tree m (set_downstream n m)"
    and "rn_parent_corporate_id n \<noteq> j \<Longrightarrow> below (set_downstream n m) j = below m j"
    and "dget (set_downstream n m) (rn_corporate_id n) =
      Some (n\<lparr>rn_downstream_value_at_risk_usd := below m (rn_corporate_id n)\<rparr>)"
    and "k \<noteq> rn_corporate_id n \<Longrightarrow> dget (set_downstream n m) k = dget m k"
proof -
  let ?k = "rn_corporate_id n" and ?v = "n\<lparr>rn_downstream_value_at_risk_usd := below m (rn_corporate_id n)\<rparr>"
  have ok: "dict_ok m" using assms(1) by (simp add: keyed_def)
  have only: "b = n'" if "(?k, b) \<in> set m" for b
    using ok that assms(2) by (metis mem_dget option.inject)
  have "?k \<in> fst ` set m" using assms(2) by force
  from dset_present [OF ok this]
  show m1: "set_downstream n m = map (\<lambda>(a, b). if a = ?k then (a, ?v) else (a, b)) m"
    by (simp add: set_downstream_def Let_def)
  show "same_tree m (set_downstream n m)"
    using only assms(3) unfolding same_tree_def m1 by (auto simp: same_node_def)
  show "below (set_downstream n m) j = below m j" if "rn_parent_corporate_id n \<noteq> j"
    unfolding below_def children_of_def dvalues_def m1
    using that only same_nodeD(5) [OF assms(3)] by (subst filter_replaced) auto
  show "dget (set_downstream n m) ?k = Some ?v" "k \<noteq> ?k \<Longrightarrow> dget (set_downstream n m) k = dget m k"
    by (simp_all add: set_downstream_def Let_def dict_simps)
qed

definition value_below :: "cascade_map \<Rightarrow> bool" where
  "value_below m \<longleftrightarrow> (\<forall>(k, n) \<in> set m. rn_downstream_value_at_risk_usd n = below m k)"

lemma downstream_prefix:
  assumes "keyed m" "distinct (map rn_corporate_id ns)" "\<forall>n \<in> set ns. (rn_corporate_id n, n) \<in> set m"
    and "sorted_wrt (\<lambda>a b. rn_parent_corporate_id b \<noteq> rn_corporate_id a) ns"
    and "\<forall>n \<in> set ns. rn_parent_corporate_id n \<noteq> rn_corporate_id n"
  shows "same_tree m (fold set_downstream ns m) \<and>
    (\<forall>n \<in> set ns. \<exists>n'. dget (fold set_downstream ns m) (rn_corporate_id n) = Some n' \<and>
       rn_downstream_value_at_risk_usd n' = below (fold set_downstream ns m) (rn_corporate_id n))"
  using assms(2-5)
proof (induction ns rule: rev_induct)
  case (snoc n ns)
  let ?m = "fold set_downstream ns m"
  have IH: "same_tree m ?m" "\<forall>x \<in> set ns. \<exists>n'. dget ?m (rn_corporate_id x) = Some n' \<and>
      rn_downstream_value_at_risk_usd n' = below ?m (rn_corporate_id x)"
    using snoc by (simp_all add: sorted_wrt_append)
  obtain n' where n': "(rn_corporate_id n, n') \<in> set ?m" "same_node n n'"
    using same_tree_mem [OF IH(1), of "rn_corporate_id n" n] snoc.prems(2) by auto
  have kd: "keyed ?m" using same_tree_keyed [OF IH(1) assms(1)] .
  have sn: "same_node n' n" using n'(2) by (simp add: same_node_def)
  note S = set_downstream_map [OF kd n'(1) sn]
  have "rn_parent_corporate_id n \<noteq> rn_corporate_id n" using snoc.prems(4) by simp
  moreover have "\<forall>x \<in> set ns. rn_parent_corporate_id n \<noteq> rn_corporate_id x" using snoc.prems(3) by (simp add: sorted_wrt_append)
  moreover have "\<forall>x \<in> set ns. rn_corporate_id x \<noteq> rn_corporate_id n" using snoc.prems(1) by (auto simp: image_iff)
  ultimately show ?case using S(3,4,5) same_tree_trans [OF IH(1) S(2)] IH(2) by simp
qed simp

lemma dvalues_keys: "keyed m \<Longrightarrow> map rn_corporate_id (dvalues m) = dkeys m"
  by (auto simp: keyed_def dvalues_def dkeys_def)

lemma tree_keyed: "cascade_tree adj origin threshold max_hops m \<Longrightarrow> keyed m"
  by (auto simp: cascade_tree_def keyed_def)

lemma tree_parent:
  assumes "cascade_tree adj origin threshold max_hops m" "n \<in> set (dvalues m)"
  shows "rn_parent_corporate_id n \<in> set (dkeys m) \<longleftrightarrow> rn_parent_corporate_id n \<noteq> origin"
    and "(k, a) \<in> set m \<Longrightarrow> rn_parent_corporate_id n = k \<Longrightarrow> rn_hop_distance n = rn_hop_distance a + 1"
proof -
  have t: "tree_node adj origin threshold max_hops m n" using assms by (auto simp: cascade_tree_def dvalues_def)
  have o: "k \<noteq> origin" if "(k, a) \<in> set m" for k a
    using assms(1) that by (auto simp: cascade_tree_def tree_node_def)
  have ok: "dict_ok m" using assms(1) by (simp add: cascade_tree_def)
  show "rn_parent_corporate_id n \<in> set (dkeys m) \<longleftrightarrow> rn_parent_corporate_id n \<noteq> origin"
    using t o unfolding tree_node_def by (auto simp: dkeys_def split: if_splits dest!: dget_Some_mem) force+
  show "rn_hop_distance n = rn_hop_distance a + 1" if "(k, a) \<in> set m" "rn_parent_corporate_id n = k"
    using t o [OF that(1)] that mem_dget [OF ok, of k a] unfolding tree_node_def by (auto split: if_splits)
qed

lemma downstream_pass_facts:
  assumes "cascade_tree adj origin threshold max_hops m"
  shows "same_tree m (downstream_pass m) \<and> value_below (downstream_pass m)"
proof -
  let ?ns = "sort_key (\<lambda>n. - rn_hop_distance n) (dvalues m)" and ?m = "downstream_pass m"
  have kd: "keyed m" using assms by (rule tree_keyed)
  have mem: "(rn_corporate_id n, n) \<in> set m" if "n \<in> set ?ns" for n
    using that kd by (auto simp: keyed_def dvalues_def)
  have child: "rn_parent_corporate_id b \<noteq> rn_corporate_id a"
    if "a \<in> set ?ns" "b \<in> set ?ns" "rn_hop_distance b \<le> rn_hop_distance a" for a b
    using tree_parent(2) [OF assms, of b, OF _ mem [OF that(1)]] that by auto
  have "distinct (map rn_corporate_id (dvalues m))"
    unfolding dvalues_keys [OF kd] using kd by (simp add: keyed_def dict_ok_def dkeys_def)
  then have dist: "distinct (map rn_corporate_id ?ns)" by (simp add: distinct_map)
  have "sorted (map (\<lambda>n. - rn_hop_distance n) ?ns)" by simp
  then have "sorted_wrt (\<lambda>a b. rn_hop_distance b \<le> rn_hop_distance a) ?ns"
    by (simp add: sorted_wrt_map)
  then have "sorted_wrt (\<lambda>a b. rn_parent_corporate_id b \<noteq> rn_corporate_id a) ?ns"
    by (rule sorted_wrt_mono_rel [rotated]) (rule child)
  then have P: "same_tree m ?m \<and> (\<forall>n \<in> set ?ns. \<exists>n'. dget ?m (rn_corporate_id n) = Some n' \<and>
      rn_downstream_value_at_risk_usd n' = below ?m (rn_corporate_id n))"
    using downstream_prefix [OF kd dist] mem child unfolding downstream_pass_def by blast
  have "rn_downstream_value_at_risk_usd n' = below ?m k" if in_m: "(k, n') \<in> set ?m" for k n'
  proof -
    obtain n where "(k, n) \<in> set m" using same_tree_mem [OF same_tree_sym] P in_m by blast
    then have "n \<in> set ?ns" "rn_corporate_id n = k" using kd by (force simp: dvalues_def keyed_def)+
    moreover have "dget ?m k = Some n'"
      using in_m same_tree_keyed [OF _ kd] P mem_dget by (metis keyed_def)
    ultimately show ?thesis using P by (metis option.inject)
  qed
  with P show ?thesis by (auto simp: value_below_def)
qed

lemma sum_list_by_key:
  fixes f :: "'a \<Rightarrow> rat"
  assumes "distinct ks"
  shows "sum_list (map (\<lambda>k. sum_list (map f (filter (\<lambda>c. g c = k) cs))) ks) =
    sum_list (map f (filter (\<lambda>c. g c \<in> set ks) cs))"
  using assms
proof (induction ks)
  case (Cons k ks)
  have "sum_list (map f (filter (\<lambda>c. g c \<in> set (k # ks)) cs)) =
      sum_list (map f (filter (\<lambda>c. g c = k) cs)) + sum_list (map f (filter (\<lambda>c. g c \<in> set ks) cs))"
    using Cons.prems by (induction cs) auto
  with Cons show ?case by simp
qed simp

lemma sum_list_split:
  fixes f :: "'a \<Rightarrow> rat"
  shows "sum_list (map f xs) = sum_list (map f (filter P xs)) + sum_list (map f (filter (\<lambda>x. \<not> P x) xs))"
  by (induction xs) auto

lemma total_below_origin:
  assumes tree: "cascade_tree adj origin threshold max_hops m" and vb: "value_below m"
  shows "total_at_risk m = below m origin"
proof -
  let ?f = "\<lambda>n. own_risk n + rn_downstream_value_at_risk_usd n"
  have kd: "keyed m" using tree by (rule tree_keyed)
  have "map rn_downstream_value_at_risk_usd (dvalues m) = map (below m) (dkeys m)"
    using vb by (auto simp: value_below_def dvalues_def dkeys_def)
  then have "sum_list (map rn_downstream_value_at_risk_usd (dvalues m)) =
      sum_list (map ?f (filter (\<lambda>c. rn_parent_corporate_id c \<in> set (dkeys m)) (dvalues m)))"
    using sum_list_by_key [of "dkeys m" ?f rn_parent_corporate_id "dvalues m"] kd
    by (simp add: below_def [abs_def] children_of_def keyed_def dict_ok_def dkeys_def)
  moreover have "filter (\<lambda>c. rn_parent_corporate_id c \<in> set (dkeys m)) (dvalues m) =
      filter (\<lambda>c. rn_parent_corporate_id c \<noteq> origin) (dvalues m)"
    using tree_parent(1) [OF tree] by (rule filter_cong [OF refl])
  moreover have "sum_list (map ?f (dvalues m)) = below m origin +
      sum_list (map ?f (filter (\<lambda>c. rn_parent_corporate_id c \<noteq> origin) (dvalues m)))"
    unfolding below_def children_of_def by (rule sum_list_split)
  ultimately show ?thesis by (simp add: total_at_risk_def sum_list_addf)
qed

lemma propagate_map:
  "\<exists>m. cascade_tree (cg_adjacency graph) origin threshold max_hops m \<and>
      cascade_closed (cg_adjacency graph) origin threshold max_hops m \<and>
      cr_cascade_map (propagate now graph origin threshold max_hops trigger_type) = downstream_pass m \<and>
      cr_total_value_at_risk_usd (propagate now graph origin threshold max_hops trigger_type) =
        total_at_risk (downstream_pass m)"
proof (cases "dget (cg_adjacency graph) origin")
  case None
  then show ?thesis
    by (intro exI [of _ "[]"]) (simp add: propagate_def cascade_tree_def cascade_closed_def neighbours_def
      downstream_pass_def dvalues_def total_at_risk_def)
next
  case (Some es)
  obtain m visited queue n where s: "search (cg_adjacency graph) origin threshold max_hops = (m, visited, queue, n)"
    by (cases "search (cg_adjacency graph) origin threshold max_hops")
  with Some show ?thesis
    using search_facts [OF s] by (intro exI [of _ m]) (simp add: propagate_def Let_def)
qed

lemma cascade_closed_tree_any_limit:
  "cascade_tree (cg_adjacency graph) origin threshold max_hops
      (cr_cascade_map (propagate now graph origin threshold max_hops trigger_type)) \<and>
   cascade_closed (cg_adjacency graph) origin threshold max_hops
      (cr_cascade_map (propagate now graph origin threshold max_hops trigger_type))"
  using propagate_map [of graph origin threshold max_hops now trigger_type] downstream_pass_facts
    cascade_tree_cong cascade_closed_cong by metis

lemma cascade_tree_hops:
  assumes "cascade_tree adj origin threshold max_hops m" "1 \<le> max_hops"
  shows "\<forall>n \<in> set (dvalues m). rn_hop_distance n \<le> max_hops"
proof
  fix n assume "n \<in> set (dvalues m)"
  with assms(1) have "tree_node adj origin threshold max_hops m n" by (auto simp: cascade_tree_def dvalues_def)
  with assms(2) show "rn_hop_distance n \<le> max_hops" unfolding tree_node_def by linarith
qed

text \<open>C31: With a hop limit of at least one, the nodes of a cascade are a tree rooted at the failed corporate: each is
  entered over an edge of the graph, from the origin (first hop) or from another node of the cascade one hop nearer,
  with the volume of that edge and with its parent's probability times the edge's dependency; no probability is
  below the threshold and no node is further from the origin than the limit.  And within the limit it is complete:
  an edge out of the origin, or out of a node nearer than the limit, leads to a corporate of the cascade (or back to
  the origin) unless its probability is below the threshold.  Of what leads out of the nodes at the limit itself
  nothing is said: the search stops there.\<close>

theorem cascade_is_a_closed_tree:
  assumes "1 \<le> max_hops"
  shows "let m = cr_cascade_map (propagate now graph origin threshold max_hops trigger_type);
      adj = cg_adjacency graph
    in cascade_tree adj origin threshold max_hops m \<and>
       (\<forall>n \<in> set (dvalues m). rn_hop_distance n \<le> max_hops) \<and>
       cascade_closed adj origin threshold max_hops m"
  using cascade_closed_tree_any_limit [of graph origin threshold max_hops now trigger_type]
    cascade_tree_hops [OF _ assms] unfolding Let_def by blast

text \<open>A supply chain with all dependencies one: at two hops the third corporate is left out.\<close>

definition chain_edge :: "string \<Rightarrow> string \<Rightarrow> string \<times> CorporateEdge" where
  "chain_edge a b = (b, \<lparr> ce_source_corporate_id = a, ce_target_corporate_id = b, ce_total_volume_30d = 100,
     ce_payment_count_30d = 2, ce_dependency_score = 1, ce_failure_rate_30d = 0, ce_avg_settlement_hours = 0,
     ce_last_payment_timestamp = 0 \<rparr>)"

definition chain_graph :: CascadeGraph where
  "chain_graph = \<lparr> cg_nodes = [], cg_edges = [],
     cg_adjacency = [(''O'', [chain_edge ''O'' ''A'']), (''A'', [chain_edge ''A'' ''B'']), (''B'', [chain_edge ''B'' ''C''])],
     cg_reverse_adjacency = [], cg_build_timestamp = 0, cg_node_count = 4, cg_edge_count = 3,
     cg_avg_dependency_score = 1, cg_max_cascade_centrality_node = ''O'', cg_corridor_to_corporates = [] \<rparr>"

theorem cascade_is_a_closed_tree_witness:
  "let m = cr_cascade_map (propagate 0 chain_graph ''O'' (1 / 2) 2 ''PAYMENT_FAILURE'')
   in dkeys m = [''A'', ''B''] \<and> cascade_tree (cg_adjacency chain_graph) ''O'' (1 / 2) 2 m \<and>
      (\<forall>n \<in> set (dvalues m). rn_hop_distance n \<le> 2) \<and> cascade_closed (cg_adjacency chain_graph) ''O'' (1 / 2) 2 m"
proof -
  have "dkeys (cr_cascade_map (propagate 0 chain_graph ''O'' (1 / 2) 2 ''PAYMENT_FAILURE'')) = [''A'', ''B'']"
    by code_simp
  with cascade_is_a_closed_tree [of 2 0 chain_graph "''O''" "1 / 2" "''PAYMENT_FAILURE''"]
  show ?thesis by (simp add: Let_def)
qed

text \<open>At a limit of zero the direct dependents of the origin are entered all the same.\<close>

lemma zero_hops_enters_dependents:
  "dkeys (cr_cascade_map (propagate 0 chain_graph ''O'' (1 / 2) 0 ''PAYMENT_FAILURE'')) = [''A'']"
  by code_simp

text \<open>The value at risk hangs together: what is reported below a node is the risk of its children plus what is
  reported below them, and the total, which the code sums over all nodes on their own, is what is reported
  below the origin.\<close>

lemma value_at_risk_adds_up:
  "let r = propagate now graph origin threshold max_hops trigger_type
   in value_below (cr_cascade_map r) \<and> cr_total_value_at_risk_usd r = below (cr_cascade_map r) origin"
  using propagate_map [of graph origin threshold max_hops now trigger_type] downstream_pass_facts
    cascade_tree_cong total_below_origin unfolding Let_def by metis

section \<open>Concentration and failure rate of a corporate\<close>

definition upstream_edges :: "CascadeGraph \<Rightarrow> string \<Rightarrow> CorporateEdge list" where
  "upstream_edges graph corporate_id = dvalues (neighbours (cg_reverse_adjacency graph) corporate_id)"

definition compute_hhi :: "CascadeGraph \<Rightarrow> string \<Rightarrow> pyfloat" where
  "compute_hhi graph corporate_id =
     (let upstream = upstream_edges graph corporate_id; total = sum_list (map ce_total_volume_30d upstream)
      in if upstream = [] \<or> total \<le> 0 then 0
         else sum_list (map (\<lambda>e. (ce_total_volume_30d e / total)\<^sup>2) upstream))"

definition compute_failure_rate :: "CascadeGraph \<Rightarrow> string \<Rightarrow> pyfloat" where
  "compute_failure_rate graph corporate_id =
     (let upstream = upstream_edges graph corporate_id; total = sum_list (map ce_total_volume_30d upstream)
      in if upstream = [] \<or> total \<le> 0 then 0
         else sum_list (map (\<lambda>e. ce_total_volume_30d e * ce_failure_rate_30d e) upstream) / total)"

lemma sum_list_square_le:
  fixes xs :: "rat list"
  shows "\<forall>x \<in> set xs. 0 \<le> x \<Longrightarrow> sum_list (map (\<lambda>x. x\<^sup>2) xs) \<le> (sum_list xs)\<^sup>2"
proof (induction xs)
  case (Cons x xs)
  then have "0 \<le> x * sum_list xs" by (simp add: sum_list_nonneg)
  with Cons show ?case by (simp add: power2_sum)
qed simp

lemma hhi_is_share:
  assumes "\<forall>e \<in> set (upstream_edges graph corporate_id). 0 \<le> ce_total_volume_30d e"
  shows "0 \<le> compute_hhi graph corporate_id" "compute_hhi graph corporate_id \<le> 1"
proof -
  let ?es = "upstream_edges graph corporate_id"
  let ?T = "sum_list (map ce_total_volume_30d ?es)"
  have "sum_list (map (\<lambda>x. x\<^sup>2) (map (\<lambda>e. ce_total_volume_30d e / ?T) ?es)) \<le> 1" if "0 < ?T"
  proof -
    have "sum_list (map (\<lambda>e. ce_total_volume_30d e / ?T) ?es) = 1"
      using that by (simp add: divide_inverse sum_list_mult_const)
    with sum_list_square_le [of "map (\<lambda>e. ce_total_volume_30d e / ?T) ?es"] that assms show ?thesis by auto
  qed
  then show "compute_hhi graph corporate_id \<le> 1" by (simp add: compute_hhi_def Let_def comp_def)
  show "0 \<le> compute_hhi graph corporate_id"
    by (auto simp: compute_hhi_def Let_def intro!: sum_list_nonneg)
qed

end
