(* ===== verification/Intervention.thy ===== *)
theory Intervention
  imports Cascade_Graph "HOL-Library.List_Lexorder" "HOL-Library.Char_ord"
begin

text \<open>
  The choice of bridge loans against a cascade (\<open>lip/p5_cascade_engine/intervention_optimizer.py\<close>).  The heap of
  pairs (negated ratio, corporate id) is filled before it is popped, so it is the sorted list of its pairs; the
  list that serves the descendants as a stack has its end at the head.

  Shown: the descendants of a node are what its parent links reach; a plan stays within the budget, is redundant
  nowhere, and leaves no affordable node unprotected.
\<close>

record InterventionAction =
  ia_source_corporate_id :: string
  ia_target_corporate_id :: string
  ia_bridge_amount_usd :: pyfloat
  ia_cascade_value_prevented_usd :: pyfloat
  ia_cost_efficiency_ratio :: pyfloat
  ia_priority :: int

record InterventionPlan =
  ip_interventions :: "InterventionAction list"
  ip_total_cost_usd :: pyfloat
  ip_total_value_prevented_usd :: pyfloat
  ip_remaining_budget_usd :: pyfloat
  ip_budget_utilization_pct :: pyfloat

section \<open>Descendants\<close>

type_synonym child_index = "(string, string list) dict"

definition index_child :: "CascadeRiskNode \<Rightarrow> child_index \<Rightarrow> child_index" where
  "index_child node children =
     (let parent = rn_parent_corporate_id node
      in dset parent (value_or [] (dget children parent) @ [rn_corporate_id node]) children)"

definition children_index :: "cascade_map \<Rightarrow> child_index" where
  "children_index m = fold index_child (dvalues m) []"

text \<open>One child: added and pushed unless it is known.\<close>

definition push_child :: "string \<Rightarrow> string list \<times> string list \<Rightarrow> string list \<times> string list" where
  "push_child child_id ds = (case ds of (descendants, stack) \<Rightarrow>
     if child_id \<notin> set descendants then (child_id # descendants, child_id # stack) else (descendants, stack))"

definition all_children :: "child_index \<Rightarrow> string set" where
  "all_children children = (\<Union>(p, cs) \<in> set children. set cs)"

lemma finite_all_children [simp]: "finite (all_children children)"
  by (auto simp: all_children_def)

lemma indexed_children: "set (value_or [] (dget children c)) \<subseteq> all_children children"
  by (cases "dget children c") (auto simp: all_children_def dest!: map_of_SomeD)

lemma push_children:
  assumes "fold push_child cs (descendants, stack) = (descendants', stack')"
  shows "set descendants' = set descendants \<union> set cs \<and> set stack' = set stack \<union> (set cs - set descendants)"
  using assms
proof (induction cs arbitrary: descendants stack)
  case (Cons c cs)
  obtain d1 s1 where one: "push_child c (descendants, stack) = (d1, s1)" by (cases "push_child c (descendants, stack)")
  with Cons.prems have "set descendants' = set d1 \<union> set cs \<and> set stack' = set s1 \<union> (set cs - set d1)"
    by (intro Cons.IH) simp
  with one show ?case by (auto simp: push_child_def split: if_splits)
qed simp

lemma push_children_progress:
  assumes "fold push_child cs (descendants, stack) = (descendants', stack')" "set cs \<subseteq> C" "finite C"
  shows "card (C - set descendants') < card (C - set descendants) \<or>
    descendants' = descendants \<and> stack' = stack"
proof (cases "set cs \<subseteq> set descendants")
  case True
  then have "fold push_child cs (descendants, stack) = (descendants, stack)"
    by (induction cs) (auto simp: push_child_def)
  with assms(1) show ?thesis by simp
next
  case False
  with push_children [OF assms(1)] assms(2) have "C - set descendants' \<subset> C - set descendants" by auto
  with assms(3) show ?thesis by (simp add: psubset_card_mono)
qed

function descend :: "child_index \<Rightarrow> string list \<times> string list \<Rightarrow> string list" where
  "descend children (descendants, []) = descendants"
| "descend children (descendants, current # stack) =
     descend children (fold push_child (value_or [] (dget children current)) (descendants, stack))"
  by pat_completeness auto

termination
proof (relation "measures [\<lambda>(children, descendants, stack). card (all_children children - set descendants),
    \<lambda>(children, descendants, stack). length stack]", goal_cases)
  case (2 children descendants current stack)
  obtain d' s' where s: "fold push_child (value_or [] (dget children current)) (descendants, stack) = (d', s')"
    by (cases "fold push_child (value_or [] (dget children current)) (descendants, stack)")
  from push_children_progress [OF s indexed_children finite_all_children] show ?case by (auto simp: s)
qed simp

definition get_descendants :: "string \<Rightarrow> cascade_map \<Rightarrow> string list" where
  "get_descendants corporate_id cascade_map = descend (children_index cascade_map) ([], [corporate_id])"

text \<open>The parent links of a cascade.\<close>

definition child_links :: "cascade_map \<Rightarrow> (string \<times> string) set" where
  "child_links m = (\<lambda>n. (rn_parent_corporate_id n, rn_corporate_id n)) ` set (dvalues m)"

lemma children_index_links: "set (value_or [] (dget (children_index m) p)) = {c. (p, c) \<in> child_links m}"
proof -
  have "set (value_or [] (dget (fold index_child ns children) p)) =
      set (value_or [] (dget children p)) \<union> {rn_corporate_id n |n. n \<in> set ns \<and> rn_parent_corporate_id n = p}"
    for ns children
    by (induction ns arbitrary: children) (auto simp: index_child_def Let_def dict_simps)
  from this [of "dvalues m" "[]"] show ?thesis by (auto simp: children_index_def child_links_def)
qed

lemma descend_reaches:
  assumes "\<And>p. set (value_or [] (dget children p)) = {c. (p, c) \<in> R}"
    and "\<And>x. x \<in> set descendants \<Longrightarrow> x \<notin> set stack \<Longrightarrow> R `` {x} \<subseteq> set descendants"
    and "x0 \<in> set stack \<or> R `` {x0} \<subseteq> set descendants" "set descendants \<subseteq> R\<^sup>+ `` {x0}" "set stack \<subseteq> insert x0 (set descendants)"
  shows "set (descend children (descendants, stack)) = R\<^sup>+ `` {x0}"
  using assms
proof (induction children "(descendants, stack)" arbitrary: descendants stack rule: descend.induct)
  case (1 children descendants)
  have "y \<in> set descendants" if "(x0, y) \<in> R\<^sup>+" for y
    using that
  proof (induction rule: trancl_induct)
    case (base y)
    then show ?case using "1.prems"(3) by auto
  next
    case (step y z)
    then show ?case using "1.prems"(2) by auto
  qed
  then show ?case using "1.prems"(4) by auto
next
  case (2 children descendants current stack)
  let ?cs = "value_or [] (dget children current)"
  obtain d' s' where s: "fold push_child ?cs (descendants, stack) = (d', s')"
    by (cases "fold push_child ?cs (descendants, stack)")
  note D = conjunct1 [OF push_children [OF s]] conjunct2 [OF push_children [OF s]]
  have cs: "set ?cs = R `` {current}" using "2.prems"(1) by auto
  have cur: "current = x0 \<or> (x0, current) \<in> R\<^sup>+" using "2.prems"(4,5) by auto
  then have new: "R `` {current} \<subseteq> R\<^sup>+ `` {x0}" by (auto intro: trancl_into_trancl)
  have "set (descend children (d', s')) = R\<^sup>+ `` {x0}"
  proof (rule "2.hyps" [OF s "2.prems"(1)])
    show "R `` {x} \<subseteq> set d'" if "x \<in> set d'" "x \<notin> set s'" for x
      using that "2.prems"(2) [of x] D cs by (cases "x = current") auto
    show "x0 \<in> set s' \<or> R `` {x0} \<subseteq> set d'" using "2.prems"(3) D cs by auto
    show "set d' \<subseteq> R\<^sup>+ `` {x0}" using "2.prems"(4) D(1) cs new by auto
    show "set s' \<subseteq> insert x0 (set d')" using "2.prems"(5) D by auto
  qed
  then show ?case by (simp add: s)
qed

lemma get_descendants_reach: "set (get_descendants c m) = (child_links m)\<^sup>+ `` {c}"
  unfolding get_descendants_def by (rule descend_reaches [OF children_index_links]) auto

section \<open>The plan\<close>

definition value_prevented :: "CascadeRiskNode \<Rightarrow> pyfloat" where
  "value_prevented node =
     rn_cascade_probability node * rn_incoming_volume_at_risk_usd node + rn_downstream_value_at_risk_usd node"

definition candidates :: "cascade_map \<Rightarrow> CascadeRiskNode list" where
  "candidates m = filter (\<lambda>node. \<not> rn_incoming_volume_at_risk_usd node \<le> 0) (dvalues m)"

type_synonym heap_entry = "pyfloat \<times> string"

definition heap_of :: "CascadeRiskNode \<Rightarrow> heap_entry" where
  "heap_of node = (- (value_prevented node / rn_incoming_volume_at_risk_usd node), rn_corporate_id node)"

definition build_heap :: "cascade_map \<Rightarrow> heap_entry list" where
  "build_heap m = sort_key fst (sort_key snd (map heap_of (candidates m)))"

definition node_lookup :: "cascade_map \<Rightarrow> cascade_map" where
  "node_lookup m = fold (\<lambda>node. dset (rn_corporate_id node) node) (candidates m) []"

definition intervention :: "CascadeRiskNode \<Rightarrow> pyfloat \<Rightarrow> int \<Rightarrow> InterventionAction" where
  "intervention node ratio priority =
     \<lparr> ia_source_corporate_id = rn_parent_corporate_id node, ia_target_corporate_id = rn_corporate_id node,
       ia_bridge_amount_usd = rn_incoming_volume_at_risk_usd node,
       ia_cascade_value_prevented_usd = value_prevented node,
       ia_cost_efficiency_ratio = ratio, ia_priority = priority \<rparr>"

text \<open>The loop: the actions taken, and the budget that is left.\<close>

fun pick :: "cascade_map \<Rightarrow> cascade_map \<Rightarrow> heap_entry list \<Rightarrow> pyfloat \<Rightarrow> string list \<Rightarrow> int \<Rightarrow>
    py_exc + (InterventionAction list \<times> pyfloat)" where
  "pick m lookup [] remaining protected priority = Inr ([], remaining)"
| "pick m lookup ((neg_ratio, corp_id) # heap) remaining protected priority =
     (if remaining > 0 then
        (if corp_id \<in> set protected then pick m lookup heap remaining protected priority
         else case dget lookup corp_id of
             None \<Rightarrow> Inl KeyError
           | Some node \<Rightarrow>
               let bridge_cost = rn_incoming_volume_at_risk_usd node
               in if bridge_cost > remaining then pick m lookup heap remaining protected priority
                  else res_bind (pick m lookup heap (remaining - bridge_cost)
                           (rn_corporate_id node # get_descendants (rn_corporate_id node) m @ protected) (priority + 1))
                         (\<lambda>(actions, left). Inr (intervention node (- neg_ratio) priority # actions, left)))
      else Inr ([], remaining))"

definition optimize :: "CascadeResult \<Rightarrow> pyfloat \<Rightarrow> py_exc + InterventionPlan" where
  "optimize cascade_result budget_usd =
     (let m = cr_cascade_map cascade_result;
          plan = \<lparr> ip_interventions = [], ip_total_cost_usd = 0, ip_total_value_prevented_usd = 0,
            ip_remaining_budget_usd = budget_usd, ip_budget_utilization_pct = 0 \<rparr>
      in if m = [] \<or> budget_usd \<le> 0 then Inr plan
         else res_bind (pick m (node_lookup m) (build_heap m) budget_usd [] 1) (\<lambda>(actions, remaining).
           let total_cost = budget_usd - remaining
           in Inr (plan\<lparr>ip_interventions := actions, ip_total_cost_usd := total_cost,
                ip_total_value_prevented_usd := sum_list (map ia_cascade_value_prevented_usd actions),
                ip_remaining_budget_usd := remaining,
                ip_budget_utilization_pct := (if budget_usd > 0 then total_cost / budget_usd * 100 else 0)\<rparr>)))"

section \<open>What a plan keeps\<close>

definition nonredundant :: "cascade_map \<Rightarrow> InterventionAction list \<Rightarrow> bool" where
  "nonredundant m = sorted_wrt (\<lambda>a b. ia_target_corporate_id b \<noteq> ia_target_corporate_id a \<and>
     (ia_target_corporate_id a, ia_target_corporate_id b) \<notin> (child_links m)\<^sup>+)"

definition best_first :: "InterventionAction list \<Rightarrow> bool" where
  "best_first = sorted_wrt (\<lambda>a b. ia_cost_efficiency_ratio a \<ge> ia_cost_efficiency_ratio b)"

text \<open>What the targets of the actions and their descendants are.\<close>

definition protected_by :: "cascade_map \<Rightarrow> InterventionAction list \<Rightarrow> string set" where
  "protected_by m actions = (\<Union>a \<in> set actions. insert (ia_target_corporate_id a) ((child_links m)\<^sup>+ `` {ia_target_corporate_id a}))"

definition action_of :: "CascadeRiskNode \<Rightarrow> InterventionAction \<Rightarrow> bool" where
  "action_of node a \<longleftrightarrow> 0 < ia_bridge_amount_usd a \<and>
     a = intervention node (value_prevented node / rn_incoming_volume_at_risk_usd node) (ia_priority a)"

text \<open>The nodes of the heap, with their entry.\<close>

definition heap_ok :: "cascade_map \<Rightarrow> heap_entry list \<Rightarrow> bool" where
  "heap_ok lookup heap \<longleftrightarrow>
     (\<forall>e \<in> set heap. \<exists>node. dget lookup (snd e) = Some node \<and> e = heap_of node \<and> 0 < rn_incoming_volume_at_risk_usd node)"

lemma heap_ok_simps [simp]:
  "heap_ok lookup []"
  "heap_ok lookup (e # heap) \<longleftrightarrow>
     (\<exists>node. dget lookup (snd e) = Some node \<and> e = heap_of node \<and> 0 < rn_incoming_volume_at_risk_usd node) \<and>
     heap_ok lookup heap"
  by (simp_all add: heap_ok_def)

definition picked_ok :: "cascade_map \<Rightarrow> cascade_map \<Rightarrow> heap_entry list \<Rightarrow> pyfloat \<Rightarrow> string list \<Rightarrow> int \<Rightarrow>
    InterventionAction list \<Rightarrow> pyfloat \<Rightarrow> bool" where
  "picked_ok m lookup heap remaining protected priority actions left \<longleftrightarrow>
     0 \<le> left \<and> left + sum_list (map ia_bridge_amount_usd actions) = remaining \<and>
     (\<forall>a \<in> set actions. ia_target_corporate_id a \<notin> set protected \<and>
        (\<exists>e \<in> set heap. snd e = ia_target_corporate_id a \<and> - fst e = ia_cost_efficiency_ratio a) \<and>
        (\<exists>node. dget lookup (ia_target_corporate_id a) = Some node \<and> action_of node a)) \<and>
     nonredundant m actions \<and> best_first actions \<and>
     map ia_priority actions = map (\<lambda>i. priority + int i) [0..<length actions] \<and>
     (\<forall>e \<in> set heap. \<forall>node. dget lookup (snd e) = Some node \<longrightarrow> rn_incoming_volume_at_risk_usd node \<le> left \<longrightarrow>
        snd e \<in> set protected \<union> protected_by m actions)"

lemma picked_nothing:
  "heap_ok lookup heap \<Longrightarrow> picked_ok m lookup heap 0 protected priority [] 0"
  unfolding picked_ok_def heap_ok_def nonredundant_def best_first_def by fastforce

lemma picked_left:
  assumes "picked_ok m lookup heap remaining protected priority actions left"
  shows "left \<le> remaining"
proof -
  have "0 \<le> sum_list (map ia_bridge_amount_usd actions)"
    using assms by (intro sum_list_nonneg) (fastforce simp: picked_ok_def action_of_def intro: less_imp_le)
  moreover have "left + sum_list (map ia_bridge_amount_usd actions) = remaining"
    using assms by (simp add: picked_ok_def)
  ultimately show ?thesis by linarith
qed

lemma picked_skip:
  assumes "picked_ok m lookup heap remaining protected priority actions left"
    and "dget lookup corp_id = Some node" "corp_id \<in> set protected \<or> rn_incoming_volume_at_risk_usd node > left"
  shows "picked_ok m lookup ((ratio, corp_id) # heap) remaining protected priority actions left"
  using assms unfolding picked_ok_def by auto

lemma picked_take:
  assumes node: "dget lookup corp_id = Some node" "(neg_ratio, corp_id) = heap_of node" "0 < rn_incoming_volume_at_risk_usd node"
    and fresh: "corp_id \<notin> set protected" and low: "\<forall>e \<in> set heap. neg_ratio \<le> fst e"
    and P: "picked_ok m lookup heap (remaining - rn_incoming_volume_at_risk_usd node)
      (corp_id # get_descendants corp_id m @ protected) (priority + 1) actions left"
  shows "picked_ok m lookup ((neg_ratio, corp_id) # heap) remaining protected priority
    (intervention node (- neg_ratio) priority # actions) left"
proof -
  let ?a = "intervention node (- neg_ratio) priority"
  have a: "ia_target_corporate_id ?a = corp_id" "ia_bridge_amount_usd ?a = rn_incoming_volume_at_risk_usd node"
    "ia_cost_efficiency_ratio ?a = - neg_ratio" "ia_priority ?a = priority" "action_of node ?a"
    using node(2,3) by (simp_all add: intervention_def heap_of_def action_of_def)
  have "nonredundant m (?a # actions)"
    using P unfolding picked_ok_def nonredundant_def by (auto simp: a get_descendants_reach)
  moreover have "best_first (?a # actions)"
    using P low unfolding picked_ok_def best_first_def by (fastforce simp: a)
  moreover have "map ia_priority (?a # actions) = map (\<lambda>i. priority + int i) [0..<length (?a # actions)]"
    using P unfolding picked_ok_def
    by (auto simp: a map_upt_Suc simp del: upt_Suc intro!: map_cong)
  moreover have "protected_by m (?a # actions) = insert corp_id (set (get_descendants corp_id m)) \<union> protected_by m actions"
    by (simp add: protected_by_def a get_descendants_reach)
  ultimately show ?thesis
    using P node(1) fresh a unfolding picked_ok_def by auto
qed

lemma pick_ok:
  assumes "heap_ok lookup heap" "0 \<le> remaining" "sorted (map fst heap)"
  shows "\<exists>actions left. pick m lookup heap remaining protected priority = Inr (actions, left) \<and>
    picked_ok m lookup heap remaining protected priority actions left"
  using assms
proof (induction m lookup heap remaining protected priority rule: pick.induct)
  case (1 m lookup remaining protected priority)
  then show ?case by (simp add: picked_ok_def nonredundant_def best_first_def)
next
  case (2 m lookup neg_ratio corp_id heap remaining protected priority)
  obtain node where node: "dget lookup corp_id = Some node" "rn_corporate_id node = corp_id"
      "neg_ratio = - (value_prevented node / rn_incoming_volume_at_risk_usd node)" "0 < rn_incoming_volume_at_risk_usd node"
    using "2.prems"(1) by (auto simp: heap_of_def)
  have rest: "heap_ok lookup heap" "sorted (map fst heap)" using "2.prems"(1,3) by simp_all
  consider "\<not> remaining > 0"
    | "remaining > 0" "corp_id \<in> set protected \<or> rn_incoming_volume_at_risk_usd node > remaining"
    | "remaining > 0" "corp_id \<notin> set protected" "rn_incoming_volume_at_risk_usd node \<le> remaining" by fastforce
  then show ?case
  proof cases
    case 1
    with "2.prems"(2) have "remaining = 0" by simp
    with picked_nothing [OF "2.prems"(1)] show ?thesis by simp
  next
    case 2
    then have step: "pick m lookup ((neg_ratio, corp_id) # heap) remaining protected priority =
        pick m lookup heap remaining protected priority" by (auto simp: node Let_def)
    have "\<exists>actions left. pick m lookup heap remaining protected priority = Inr (actions, left) \<and>
        picked_ok m lookup heap remaining protected priority actions left"
      using 2 "2.IH"(1,2) rest "2.prems"(2) node(1) by auto
    then obtain actions left where P: "pick m lookup heap remaining protected priority = Inr (actions, left)"
      "picked_ok m lookup heap remaining protected priority actions left" by blast
    have "corp_id \<in> set protected \<or> rn_incoming_volume_at_risk_usd node > left"
      using 2(2) picked_left [OF P(2)] by auto
    from picked_skip [OF P(2) node(1) this] P(1) step show ?thesis by auto
  next
    case 3
    let ?protected = "corp_id # get_descendants corp_id m @ protected"
      and ?left = "remaining - rn_incoming_volume_at_risk_usd node"
    have "\<exists>actions left. pick m lookup heap ?left ?protected (priority + 1) = Inr (actions, left) \<and>
        picked_ok m lookup heap ?left ?protected (priority + 1) actions left"
      using 3 "2.IH"(3) rest node(1,2) by auto
    then obtain actions left where P: "pick m lookup heap ?left ?protected (priority + 1) = Inr (actions, left)"
      "picked_ok m lookup heap ?left ?protected (priority + 1) actions left" by blast
    have "(neg_ratio, corp_id) = heap_of node" using node by (simp add: heap_of_def)
    from picked_take [OF node(1) this node(4) 3(2) _ P(2)] 3 P(1) node(1,2) "2.prems"(3)
    show ?thesis by (auto simp: Let_def)
  qed
qed

lemma lookup_fold:
  "distinct (map fst d @ map rn_corporate_id ns) \<Longrightarrow>
   fold (\<lambda>node. dset (rn_corporate_id node) node) ns d = d @ map (\<lambda>n. (rn_corporate_id n, n)) ns"
proof (induction ns arbitrary: d)
  case (Cons n ns)
  then have "dget d (rn_corporate_id n) = None" by (auto simp: map_of_eq_None_iff)
  with Cons.prems Cons.IH [of "d @ [(rn_corporate_id n, n)]"] show ?case by (simp add: dset_fresh)
qed simp

lemma node_lookup_filter:
  assumes "keyed m"
  shows "node_lookup m = filter (\<lambda>(k, node). \<not> rn_incoming_volume_at_risk_usd node \<le> 0) m"
proof -
  have "distinct (map rn_corporate_id (dvalues m))"
    unfolding dvalues_keys [OF assms] using assms by (simp add: keyed_def dict_ok_def dkeys_def)
  then have "distinct (map rn_corporate_id (candidates m))"
    unfolding candidates_def by (rule distinct_map_filter)
  then have "node_lookup m = map (\<lambda>n. (rn_corporate_id n, n)) (candidates m)"
    by (simp add: node_lookup_def lookup_fold)
  also have "\<dots> = filter (\<lambda>(k, node). \<not> rn_incoming_volume_at_risk_usd node \<le> 0) m"
    using assms unfolding keyed_def candidates_def dvalues_def by (induction m) (auto simp: dict_ok_def)
  finally show ?thesis .
qed

lemma node_lookup_some:
  assumes "keyed m"
  shows "dget (node_lookup m) k = Some node \<longleftrightarrow> dget m k = Some node \<and> 0 < rn_incoming_volume_at_risk_usd node"
  using assms unfolding node_lookup_filter [OF assms]
  by (simp add: mem_dget [symmetric] keyed_def dict_ok_filter) auto

lemma build_heap_mem:
  assumes "keyed m"
  shows "e \<in> set (build_heap m) \<longleftrightarrow>
    (\<exists>node. dget m (snd e) = Some node \<and> e = heap_of node \<and> 0 < rn_incoming_volume_at_risk_usd node)"
proof -
  have "dict_ok m" using assms by (simp add: keyed_def)
  have id: "snd (heap_of node) = k" if "(k, node) \<in> set m" for k node
    using that assms by (auto simp: keyed_def heap_of_def)
  have "e \<in> set (build_heap m) \<longleftrightarrow>
      (\<exists>k node. (k, node) \<in> set m \<and> 0 < rn_incoming_volume_at_risk_usd node \<and> e = heap_of node)"
    by (force simp: build_heap_def candidates_def dvalues_def not_le)
  also have "\<dots> \<longleftrightarrow> (\<exists>node. (snd e, node) \<in> set m \<and> 0 < rn_incoming_volume_at_risk_usd node \<and> e = heap_of node)"
    using id by blast
  finally show ?thesis using mem_dget [OF \<open>dict_ok m\<close>] by blast
qed

definition plan_ok :: "cascade_map \<Rightarrow> pyfloat \<Rightarrow> InterventionPlan \<Rightarrow> bool" where
  "plan_ok m budget plan \<longleftrightarrow>
     (let actions = ip_interventions plan; remaining = ip_remaining_budget_usd plan
      in ip_total_cost_usd plan = sum_list (map ia_bridge_amount_usd actions) \<and>
         ip_total_cost_usd plan + remaining = budget \<and> min budget 0 \<le> remaining \<and>
         (\<forall>a \<in> set actions. \<exists>node. dget m (ia_target_corporate_id a) = Some node \<and> action_of node a) \<and>
         nonredundant m actions \<and> best_first actions \<and>
         map ia_priority actions = map (\<lambda>i. 1 + int i) [0..<length actions] \<and>
         (\<forall>(k, node) \<in> set m. 0 < rn_incoming_volume_at_risk_usd node \<longrightarrow>
            rn_incoming_volume_at_risk_usd node \<le> remaining \<longrightarrow> k \<in> protected_by m actions))"

lemma optimize_ok:
  assumes "keyed (cr_cascade_map r)"
  shows "\<exists>plan. optimize r budget = Inr plan \<and> plan_ok (cr_cascade_map r) budget plan"
proof (cases "cr_cascade_map r = [] \<or> budget \<le> 0")
  case True
  have "\<not> (0 < x \<and> x \<le> budget)" if "budget \<le> 0" for x using that by linarith
  with True show ?thesis
    by (auto simp: optimize_def Let_def plan_ok_def nonredundant_def best_first_def min_def)
next
  case False
  let ?m = "cr_cascade_map r"
  have "heap_ok (node_lookup ?m) (build_heap ?m)"
    unfolding heap_ok_def using build_heap_mem [OF assms] node_lookup_some [OF assms] by blast
  moreover have "sorted (map fst (build_heap ?m))" by (simp add: build_heap_def)
  ultimately obtain actions left where
    P: "pick ?m (node_lookup ?m) (build_heap ?m) budget [] 1 = Inr (actions, left)"
    and ok: "picked_ok ?m (node_lookup ?m) (build_heap ?m) budget [] 1 actions left"
    using pick_ok [of "node_lookup ?m" "build_heap ?m" budget ?m "[]" 1] False by auto
  have "k \<in> protected_by ?m actions"
    if "(k, node) \<in> set ?m" "0 < rn_incoming_volume_at_risk_usd node" "rn_incoming_volume_at_risk_usd node \<le> left" for k node
  proof -
    have "dget ?m k = Some node" "rn_corporate_id node = k" using that(1) assms by (auto simp: keyed_def mem_dget [symmetric])
    then have "heap_of node \<in> set (build_heap ?m)" "dget (node_lookup ?m) (snd (heap_of node)) = Some node"
      using that(2) build_heap_mem [OF assms, of "heap_of node"] node_lookup_some [OF assms] by (auto simp: heap_of_def)
    with ok that(3) have "snd (heap_of node) \<in> protected_by ?m actions" unfolding picked_ok_def by auto
    then show ?thesis using \<open>rn_corporate_id node = k\<close> by (simp add: heap_of_def)
  qed
  moreover have "\<forall>a \<in> set actions. \<exists>node. dget ?m (ia_target_corporate_id a) = Some node \<and> action_of node a"
    using ok node_lookup_some [OF assms] unfolding picked_ok_def by blast
  ultimately show ?thesis
    using ok False P unfolding optimize_def plan_ok_def picked_ok_def by (auto simp: Let_def min_def)
qed

lemma propagate_keyed: "keyed (cr_cascade_map (propagate now graph origin threshold max_hops trigger_type))"
  using propagate_map [of graph origin threshold max_hops now trigger_type] downstream_pass_facts
    same_tree_keyed tree_keyed by metis

text \<open>C32: Planning never raises, and its plan keeps the bank's interest: the bridges cost no more than the budget, and
  cost and rest add up to it; each bridge is the volume at risk of a node of the cascade; the best ratio of
  value to cost comes first; nobody is bridged who is bridged already or hangs below an earlier bridge; and whoever is
  neither bridged nor below a bridge is too dear for what is left of the budget.\<close>

theorem plan_is_sound_and_maximal:
  "\<exists>plan. optimize (propagate now graph origin threshold max_hops trigger_type) budget = Inr plan \<and>
     plan_ok (cr_cascade_map (propagate now graph origin threshold max_hops trigger_type)) budget plan"
  by (rule optimize_ok [OF propagate_keyed])

end
