(* ===== verification/Cascade_Service.thy ===== *)
theory Cascade_Service
  imports Intervention Stress_Detector Py_Month
begin

text \<open>
  Alerts on a cascade (\<open>lip/p5_cascade_engine/cascade_alerts.py\<close>), what raises them
  (\<open>cascade_settlement_trigger.py\<close>, \<open>stress_cascade_bridge.py\<close>), and the service that keeps them and executes
  their plans (\<open>lip/api/cascade_service.py\<close>, with the execution endpoint of \<open>cascade_router.py\<close>).  The clock
  reading of a call and the date that goes with it are arguments.

  Shown: an alert is made exactly when a million dollars or more are at risk, with a sound plan; over any history of
  analyses and executions an execution stays within the plan and the four hours of its alert.
\<close>

section \<open>Alerts\<close>

definition CASCADE_ALERT_THRESHOLD_USD :: rat where "CASCADE_ALERT_THRESHOLD_USD = 1000000"
definition CASCADE_ALERT_DEPENDENCY_THRESHOLD :: pyfloat where "CASCADE_ALERT_DEPENDENCY_THRESHOLD = 1 / 2"
definition CASCADE_ALERT_EXCLUSIVITY_HOURS :: time where "CASCADE_ALERT_EXCLUSIVITY_HOURS = 4"
definition CASCADE_ALERT_SEVERITY_HIGH_USD :: rat where "CASCADE_ALERT_SEVERITY_HIGH_USD = 10000000"
definition CASCADE_ALERT_SEVERITY_MEDIUM_USD :: rat where "CASCADE_ALERT_SEVERITY_MEDIUM_USD = 1000000"

record CascadeAlert =
  ca_alert_id :: string
  ca_alert_type :: string
  ca_severity :: string
  ca_origin_corporate_id :: string
  ca_origin_sector :: string
  ca_origin_jurisdiction :: string
  ca_cascade_result :: CascadeResult
  ca_intervention_plan :: "InterventionPlan option"
  ca_timestamp :: time
  ca_expires_at :: time

text \<open>\<open>f"{n:05d}"\<close> of a number below 100000.\<close>

definition five_digits :: "int \<Rightarrow> string" where
  "five_digits n = map (\<lambda>d. digit_char (nat (n div d mod 10))) [10000, 1000, 100, 10, 1]"

definition alert_id_at :: "time \<Rightarrow> string \<Rightarrow> string" where
  "alert_id_at now date_str = ''CASC-'' @ date_str @ ''-'' @ five_digits (\<lfloor>now * 1000\<rfloor> mod 100000)"

definition cascade_severity :: "rat \<Rightarrow> string" where
  "cascade_severity total_var =
     (if total_var \<ge> CASCADE_ALERT_SEVERITY_HIGH_USD then ''HIGH''
      else if total_var \<ge> CASCADE_ALERT_SEVERITY_MEDIUM_USD then ''MEDIUM'' else ''LOW'')"

definition build_cascade_alert :: "time \<Rightarrow> string \<Rightarrow> CascadeGraph \<Rightarrow> string \<Rightarrow> pyfloat \<Rightarrow> pyfloat \<Rightarrow> string \<Rightarrow>
    py_exc + CascadeAlert option" where
  "build_cascade_alert now date_str graph origin budget_usd threshold trigger_type =
     (let cascade_result = propagate now graph origin threshold CASCADE_MAX_HOPS trigger_type;
          total_var = cr_total_value_at_risk_usd cascade_result
      in if total_var < CASCADE_ALERT_THRESHOLD_USD then Inr None
         else res_bind (optimize cascade_result budget_usd) (\<lambda>plan.
           let origin_node = dget (cg_nodes graph) origin
           in Inr (Some \<lparr> ca_alert_id = alert_id_at now date_str, ca_alert_type = ''CASCADE_PROPAGATION'',
                ca_severity = cascade_severity total_var, ca_origin_corporate_id = origin,
                ca_origin_sector = (case origin_node of None \<Rightarrow> ''UNKNOWN'' | Some n \<Rightarrow> cn_sector n),
                ca_origin_jurisdiction = (case origin_node of None \<Rightarrow> ''XX'' | Some n \<Rightarrow> cn_jurisdiction n),
                ca_cascade_result = cascade_result, ca_intervention_plan = Some plan,
                ca_timestamp = now, ca_expires_at = now + CASCADE_ALERT_EXCLUSIVITY_HOURS * 3600 \<rparr>)))"

definition default_threshold :: pyfloat where "default_threshold = 1 / 2"

section \<open>What raises an alert\<close>

record CascadeTrigger =
  ct_graph :: CascadeGraph
  ct_bic_to_corp :: "string \<rightharpoonup> string"
  ct_budget_usd :: pyfloat

definition on_settlement_failure :: "time \<Rightarrow> string \<Rightarrow> CascadeTrigger \<Rightarrow> string \<Rightarrow> string \<Rightarrow> pyfloat \<Rightarrow>
    py_exc + CascadeAlert option" where
  "on_settlement_failure now date_str trigger sending_bic receiving_bic dependency_score =
     (if dependency_score < CASCADE_ALERT_DEPENDENCY_THRESHOLD then Inr None
      else case (ct_bic_to_corp trigger sending_bic, ct_bic_to_corp trigger receiving_bic) of
        (Some source_corp, Some target_corp) \<Rightarrow>
          if source_corp = target_corp then Inr None
          else build_cascade_alert now date_str (ct_graph trigger) source_corp (ct_budget_usd trigger)
                 default_threshold ''PAYMENT_FAILURE''
      | _ \<Rightarrow> Inr None)"

record StressCascadeBridge =
  sb_graph :: CascadeGraph
  sb_corridor_map :: "string \<rightharpoonup> string list"
  sb_budget_usd :: pyfloat

text \<open>One clock reading and date per corporate: \<open>clocks\<close>.\<close>

fun corridor_alerts :: "StressCascadeBridge \<Rightarrow> (time \<times> string) list \<Rightarrow> string list \<Rightarrow> py_exc + CascadeAlert list" where
  "corridor_alerts bridge ((now, date_str) # clocks) (corp_id # corporates) =
     res_bind (build_cascade_alert now date_str (sb_graph bridge) corp_id (sb_budget_usd bridge)
         default_threshold ''CORRIDOR_STRESS'') (\<lambda>alert.
       res_bind (corridor_alerts bridge clocks corporates) (\<lambda>alerts.
         Inr (case alert of None \<Rightarrow> alerts | Some a \<Rightarrow> a # alerts)))"
| "corridor_alerts bridge _ _ = Inr []"

definition on_stress_regime_event :: "StressCascadeBridge \<Rightarrow> (time \<times> string) list \<Rightarrow> StressRegimeEvent \<Rightarrow>
    py_exc + CascadeAlert list" where
  "on_stress_regime_event bridge clocks event =
     corridor_alerts bridge clocks (value_or [] (sb_corridor_map bridge (se_corridor event)))"

section \<open>The service\<close>

record InterventionStatus =
  is_alert_id :: string
  is_status :: string
  is_executed_actions :: "int list"
  is_total_bridge_amount_usd :: pyfloat
  is_total_value_prevented_usd :: pyfloat
  is_executed_at :: "time option"

record CascadeService =
  cs_graph :: CascadeGraph
  cs_budget :: pyfloat
  cs_alerts :: "(string, CascadeAlert) dict"
  cs_intervention_status :: "(string, InterventionStatus) dict"

definition new_cascade_service :: "CascadeGraph \<Rightarrow> pyfloat \<Rightarrow> CascadeService" where
  "new_cascade_service graph budget = \<lparr> cs_graph = graph, cs_budget = budget, cs_alerts = [], cs_intervention_status = [] \<rparr>"

definition analyze :: "time \<Rightarrow> string \<Rightarrow> string \<Rightarrow> pyfloat option \<Rightarrow> string \<Rightarrow> CascadeService \<Rightarrow>
    (py_exc + CascadeAlert option) \<times> CascadeService" where
  "analyze now date_str corporate_id budget_usd trigger_type s =
     (let budget = value_or (cs_budget s) budget_usd
      in case build_cascade_alert now date_str (cs_graph s) corporate_id budget default_threshold trigger_type of
           Inr (Some alert) \<Rightarrow> (Inr (Some alert), s\<lparr>cs_alerts := dset (ca_alert_id alert) alert (cs_alerts s)\<rparr>)
         | r \<Rightarrow> (r, s))"

definition list_alerts :: "time \<Rightarrow> string option \<Rightarrow> bool \<Rightarrow> CascadeService \<Rightarrow> CascadeAlert list" where
  "list_alerts now severity active_only s =
     sort_key (\<lambda>a. - ca_timestamp a) (filter (\<lambda>a. \<not> (active_only \<and> ca_expires_at a < now) \<and>
       (severity = None \<or> severity = Some (ca_severity a))) (dvalues (cs_alerts s)))"

definition get_alert :: "string \<Rightarrow> CascadeService \<Rightarrow> CascadeAlert option" where
  "get_alert alert_id s = dget (cs_alerts s) alert_id"

definition selected :: "int list \<Rightarrow> InterventionPlan option \<Rightarrow> InterventionAction list" where
  "selected action_priorities plan =
     (case plan of None \<Rightarrow> []
      | Some p \<Rightarrow> filter (\<lambda>a. ia_priority a \<in> set action_priorities) (ip_interventions p))"

definition execute_intervention :: "time \<Rightarrow> string \<Rightarrow> int list \<Rightarrow> CascadeService \<Rightarrow>
    InterventionStatus option \<times> CascadeService" where
  "execute_intervention now alert_id action_priorities s =
     (case dget (cs_alerts s) alert_id of
        None \<Rightarrow> (None, s)
      | Some alert \<Rightarrow>
          let actions = selected action_priorities (ca_intervention_plan alert);
              status = (if ca_expires_at alert < now
                then \<lparr> is_alert_id = alert_id, is_status = ''EXPIRED'', is_executed_actions = [],
                       is_total_bridge_amount_usd = 0, is_total_value_prevented_usd = 0, is_executed_at = None \<rparr>
                else \<lparr> is_alert_id = alert_id, is_status = ''EXECUTED'', is_executed_actions = map ia_priority actions,
                       is_total_bridge_amount_usd = sum_list (map ia_bridge_amount_usd actions),
                       is_total_value_prevented_usd = sum_list (map ia_cascade_value_prevented_usd actions),
                       is_executed_at = Some now \<rparr>)
          in (Some status, s\<lparr>cs_intervention_status := dset alert_id status (cs_intervention_status s)\<rparr>))"

definition get_intervention_status :: "string \<Rightarrow> CascadeService \<Rightarrow> InterventionStatus option" where
  "get_intervention_status alert_id s = dget (cs_intervention_status s) alert_id"

record neighbour_edge =
  ne_corporate_id :: string
  ne_dependency_score :: pyfloat
  ne_volume_30d :: pyfloat

record CorporateNeighborhood =
  nh_corporate_id :: string
  nh_sector :: string
  nh_jurisdiction :: string
  nh_cascade_centrality :: pyfloat
  nh_upstream :: "neighbour_edge list"
  nh_downstream :: "neighbour_edge list"

definition neighbour_edges :: "adjacency \<Rightarrow> string \<Rightarrow> neighbour_edge list" where
  "neighbour_edges adj corporate_id = map (\<lambda>(cid, edge). \<lparr> ne_corporate_id = cid,
     ne_dependency_score = ce_dependency_score edge, ne_volume_30d = ce_total_volume_30d edge \<rparr>)
     (neighbours adj corporate_id)"

definition get_corporate_neighbors :: "string \<Rightarrow> CascadeService \<Rightarrow> CorporateNeighborhood option" where
  "get_corporate_neighbors corporate_id s =
     (case dget (cg_nodes (cs_graph s)) corporate_id of
        None \<Rightarrow> None
      | Some node \<Rightarrow> Some \<lparr> nh_corporate_id = corporate_id, nh_sector = cn_sector node,
          nh_jurisdiction = cn_jurisdiction node, nh_cascade_centrality = cn_cascade_centrality node,
          nh_upstream = neighbour_edges (cg_reverse_adjacency (cs_graph s)) corporate_id,
          nh_downstream = neighbour_edges (cg_adjacency (cs_graph s)) corporate_id \<rparr>)"

record GraphSummary =
  gs_node_count :: int
  gs_edge_count :: int
  gs_avg_dependency_score :: pyfloat
  gs_max_centrality_node :: string
  gs_build_timestamp :: time

definition get_graph_summary :: "CascadeService \<Rightarrow> GraphSummary" where
  "get_graph_summary s = (let g = cs_graph s in
     \<lparr> gs_node_count = cg_node_count g, gs_edge_count = cg_edge_count g,
       gs_avg_dependency_score = cg_avg_dependency_score g,
       gs_max_centrality_node = cg_max_cascade_centrality_node g, gs_build_timestamp = cg_build_timestamp g \<rparr>)"

text \<open>The execution endpoint: what the service answers, or 404 and 410.\<close>

datatype 'a http = Ok200 'a | Http_error int

definition post_execute :: "time \<Rightarrow> string \<Rightarrow> int list \<Rightarrow> CascadeService \<Rightarrow> InterventionStatus http \<times> CascadeService" where
  "post_execute now alert_id action_priorities s =
     (case execute_intervention now alert_id action_priorities s of
        (None, s) \<Rightarrow> (Http_error 404, s)
      | (Some status, s) \<Rightarrow> (if is_status status = ''EXPIRED'' then Http_error 410 else Ok200 status, s))"

section \<open>Histories\<close>

datatype cascade_op =
    Analyze time string string "pyfloat option" string
  | Execute time string "int list"

fun cascade_step :: "cascade_op \<Rightarrow> CascadeService \<Rightarrow> CascadeService" where
  "cascade_step (Analyze now date_str corporate_id budget trigger_type) s =
     snd (analyze now date_str corporate_id budget trigger_type s)"
| "cascade_step (Execute now alert_id priorities) s = snd (post_execute now alert_id priorities s)"

definition alert_ok :: "pyfloat \<Rightarrow> CascadeAlert \<Rightarrow> bool" where
  "alert_ok budget a \<longleftrightarrow>
     (let r = ca_cascade_result a; total = cr_total_value_at_risk_usd r
      in 1000000 \<le> total \<and> ca_severity a = (if total \<ge> 10000000 then ''HIGH'' else ''MEDIUM'') \<and>
         ca_expires_at a = ca_timestamp a + 4 * 3600 \<and>
         (\<exists>plan. ca_intervention_plan a = Some plan \<and> plan_ok (cr_cascade_map r) budget plan))"

text \<open>Analysing a failure never raises, and makes an alert exactly when at least a million dollars are at risk: HIGH from
  ten million on and MEDIUM below (LOW never occurs, although the code has the branch).\<close>

lemma build_alert_facts:
  "case build_cascade_alert now date_str graph origin budget threshold trigger_type of
     Inl e \<Rightarrow> False
   | Inr None \<Rightarrow> cr_total_value_at_risk_usd (propagate now graph origin threshold CASCADE_MAX_HOPS trigger_type) < 1000000
   | Inr (Some a) \<Rightarrow> alert_ok budget a \<and> ca_timestamp a = now \<and>
       ca_cascade_result a = propagate now graph origin threshold CASCADE_MAX_HOPS trigger_type"
proof -
  let ?r = "propagate now graph origin threshold CASCADE_MAX_HOPS trigger_type"
  obtain plan where "optimize ?r budget = Inr plan" "plan_ok (cr_cascade_map ?r) budget plan"
    using optimize_ok [OF propagate_keyed] by blast
  then show ?thesis
    by (simp add: build_cascade_alert_def Let_def alert_ok_def cascade_severity_def CASCADE_ALERT_THRESHOLD_USD_def
      CASCADE_ALERT_SEVERITY_HIGH_USD_def CASCADE_ALERT_SEVERITY_MEDIUM_USD_def CASCADE_ALERT_EXCLUSIVITY_HOURS_def)
qed

definition service_ok :: "CascadeService \<Rightarrow> bool" where
  "service_ok s \<longleftrightarrow> (\<forall>k a. dget (cs_alerts s) k = Some a \<longrightarrow> ca_alert_id a = k \<and> (\<exists>budget. alert_ok budget a))"

lemma step_ok: "service_ok s \<Longrightarrow> service_ok (cascade_step op s)"
proof (cases op)
  case (Analyze now date_str corporate_id budget trigger_type)
  assume ok: "service_ok s"
  let ?b = "value_or (cs_budget s) budget"
  let ?build = "build_cascade_alert now date_str (cs_graph s) corporate_id ?b default_threshold trigger_type"
  note F = build_alert_facts [where now = now and date_str = date_str and graph = "cs_graph s" and origin = corporate_id
      and budget = ?b and threshold = default_threshold and trigger_type = trigger_type]
  show ?thesis
  proof (cases "\<exists>a. ?build = Inr (Some a)")
    case True
    then obtain a where a: "?build = Inr (Some a)" by blast
    with F have "alert_ok ?b a" by simp
    with ok a show ?thesis
      by (auto simp: Analyze analyze_def service_ok_def dict_simps)
  next
    case False
    then have "snd (analyze now date_str corporate_id budget trigger_type s) = s"
      by (auto simp: analyze_def Let_def split: sum.split option.split)
    with ok Analyze show ?thesis by simp
  qed
next
  case (Execute now alert_id priorities)
  assume "service_ok s"
  moreover have "cs_alerts (snd (post_execute now alert_id priorities s)) = cs_alerts s"
    by (cases "dget (cs_alerts s) alert_id") (simp_all add: post_execute_def execute_intervention_def Let_def)
  ultimately show ?thesis by (simp add: Execute service_ok_def)
qed

lemma run_ok: "service_ok s \<Longrightarrow> service_ok (fold cascade_step ops s)"
  by (induction ops arbitrary: s) (simp_all add: step_ok)

lemma history_ok: "service_ok (fold cascade_step ops (new_cascade_service graph budget))"
  by (rule run_ok) (simp add: new_cascade_service_def service_ok_def)

lemma selected_cost:
  assumes "plan_ok m budget plan"
  shows "0 \<le> sum_list (map ia_bridge_amount_usd (selected priorities (Some plan)))"
    and "sum_list (map ia_bridge_amount_usd (selected priorities (Some plan))) \<le> ip_total_cost_usd plan"
    and "ip_total_cost_usd plan \<le> max budget 0"
proof -
  have pos: "\<forall>a \<in> set (ip_interventions plan). 0 \<le> ia_bridge_amount_usd a"
    using assms unfolding plan_ok_def Let_def action_of_def by (fastforce intro: less_imp_le)
  have "sum_list (map ia_bridge_amount_usd (filter P as)) \<le> sum_list (map ia_bridge_amount_usd as)"
    if "\<forall>a \<in> set as. 0 \<le> ia_bridge_amount_usd a" for P as
    using that by (induction as) auto
  from this [OF pos]
  show "sum_list (map ia_bridge_amount_usd (selected priorities (Some plan))) \<le> ip_total_cost_usd plan"
    using assms by (simp add: selected_def plan_ok_def Let_def)
  show "0 \<le> sum_list (map ia_bridge_amount_usd (selected priorities (Some plan)))"
    using pos by (auto simp: selected_def intro!: sum_list_nonneg)
  show "ip_total_cost_usd plan \<le> max budget 0"
    using assms unfolding plan_ok_def Let_def by (auto simp: min_def max_def split: if_splits)
qed

definition execution_ok :: "time \<Rightarrow> int list \<Rightarrow> CascadeAlert \<Rightarrow> InterventionStatus \<Rightarrow> bool" where
  "execution_ok now priorities alert status \<longleftrightarrow>
     (\<exists>plan budget. ca_intervention_plan alert = Some plan \<and>
        plan_ok (cr_cascade_map (ca_cascade_result alert)) budget plan \<and> ip_total_cost_usd plan \<le> max budget 0 \<and>
        (if now > ca_timestamp alert + 4 * 3600
         then is_status status = ''EXPIRED'' \<and> is_executed_actions status = [] \<and> is_total_bridge_amount_usd status = 0
         else is_status status = ''EXECUTED'' \<and>
           is_executed_actions status = filter (\<lambda>p. p \<in> set priorities) (map ia_priority (ip_interventions plan)) \<and>
           0 \<le> is_total_bridge_amount_usd status \<and> is_total_bridge_amount_usd status \<le> ip_total_cost_usd plan))"

text \<open>C35: After any sequence of analyses and executions, an execution answers 404 exactly when the alert is unknown,
  and otherwise it is of the alert with that number: past its four hours nothing is executed, before that the
  actions asked for, in the order of the plan, at no more than the cost of a plan that is within its budget.\<close>

theorem execution_within_alert:
  "let s = fold cascade_step ops (new_cascade_service graph budget)
   in case (fst (execute_intervention now alert_id priorities s), dget (cs_alerts s) alert_id) of
        (None, a) \<Rightarrow> a = None
      | (Some status, None) \<Rightarrow> False
      | (Some status, Some alert) \<Rightarrow> ca_alert_id alert = alert_id \<and> is_alert_id status = alert_id \<and>
          execution_ok now priorities alert status"
proof (cases "dget (cs_alerts (fold cascade_step ops (new_cascade_service graph budget))) alert_id")
  case None
  then show ?thesis by (simp add: Let_def execute_intervention_def)
next
  case (Some alert)
  with history_ok [of ops graph budget] obtain b plan where ok: "ca_alert_id alert = alert_id"
    "ca_intervention_plan alert = Some plan" "plan_ok (cr_cascade_map (ca_cascade_result alert)) b plan"
    "ca_expires_at alert = ca_timestamp alert + 4 * 3600"
    unfolding service_ok_def alert_ok_def Let_def by blast
  have "map ia_priority (selected priorities (Some plan)) =
      filter (\<lambda>p. p \<in> set priorities) (map ia_priority (ip_interventions plan))"
    by (simp add: selected_def filter_map comp_def)
  with Some ok selected_cost(1,2) [OF ok(3), of priorities] selected_cost(3) [OF ok(3)] show ?thesis
    by (auto simp: Let_def execute_intervention_def execution_ok_def)
qed

text \<open>The number in an alert's identifier repeats every hundred seconds.\<close>

lemma alert_id_repeats: "alert_id_at (now + 100 * of_int k) date_str = alert_id_at now date_str"
proof -
  have "(now + 100 * of_int k) * 1000 = now * 1000 + of_int (k * 100000)" by (simp add: algebra_simps)
  then have "\<lfloor>(now + 100 * of_int k) * 1000\<rfloor> = \<lfloor>now * 1000\<rfloor> + k * 100000" by (simp only: floor_add_int [symmetric])
  then show ?thesis by (simp add: alert_id_at_def)
qed

text \<open>An execution is not remembered by the next: the same bridges can be executed again within the window.\<close>

lemma executed_again:
  assumes "dget (cs_alerts s) alert_id = Some alert" "now \<le> now'" "now' \<le> ca_expires_at alert"
  shows "let (r, s') = execute_intervention now alert_id priorities s;
             (r', s'') = execute_intervention now' alert_id priorities s'
         in map_option is_total_bridge_amount_usd r' = map_option is_total_bridge_amount_usd r \<and>
            map_option is_status r = Some ''EXECUTED'' \<and> map_option is_status r' = Some ''EXECUTED''"
  using assms by (simp add: execute_intervention_def Let_def)

text \<open>The value of protected nodes is counted again when a node above them is bridged later: here A supplies B, B
  supplies C and C supplies D.  C is bridged first, then B, and the plan claims to prevent more than is at risk.\<close>

definition supply_edge :: "string \<Rightarrow> string \<Rightarrow> pyfloat \<Rightarrow> string \<times> (string, CorporateEdge) dict" where
  "supply_edge a b v = (a, [(b, \<lparr> ce_source_corporate_id = a, ce_target_corporate_id = b, ce_total_volume_30d = v,
     ce_payment_count_30d = 2, ce_dependency_score = 1, ce_failure_rate_30d = 0, ce_avg_settlement_hours = 0,
     ce_last_payment_timestamp = 0 \<rparr>)])"

definition supply_chain :: CascadeGraph where
  "supply_chain = \<lparr> cg_nodes = [], cg_edges = [],
     cg_adjacency = [supply_edge ''A'' ''B'' 1000000, supply_edge ''B'' ''C'' 100000, supply_edge ''C'' ''D'' 1000000],
     cg_reverse_adjacency = [], cg_build_timestamp = 0, cg_node_count = 0, cg_edge_count = 3,
     cg_avg_dependency_score = 1, cg_max_cascade_centrality_node = [], cg_corridor_to_corporates = [] \<rparr>"

lemma value_counted_again:
  "let r = propagate 0 supply_chain ''A'' default_threshold CASCADE_MAX_HOPS ''PAYMENT_FAILURE''
   in cr_total_value_at_risk_usd r = 2100000 \<and>
      (case optimize r 2000000 of Inl e \<Rightarrow> False | Inr plan \<Rightarrow> ip_total_value_prevented_usd plan = 3200000)"
  by code_simp

end
