(* ===== verification/BIC_Graph.thy ===== *)
theory BIC_Graph
  imports Py_Base "HOL-Library.List_Lexorder" "HOL-Library.Char_ord"
begin

text \<open>
  The graph of payments between banks (\<open>lip/c1_failure_classifier/graph_builder.py\<close>): \<open>add_payment\<close>, the
  neighbour and risk queries, and the snapshot.  The feature vectors need logarithms and roots and are not modelled; of
  the \<open>features\<close> of a payment only the truth of \<open>failed\<close> is read.  An edge is a mutable object that several lists
  share; its score is set before anything reads it, so the finished edge is put into each list.

  Shown: the running sums give the same scores as a definition over the list of payments, and every
  score is a share, positive and at most one.
\<close>

section \<open>The graph\<close>

definition SMOOTHING_K :: rat where "SMOOTHING_K = 5"
definition DEPENDENCY_PRIOR_DEFAULT :: rat where "DEPENDENCY_PRIOR_DEFAULT = 1 / 10"

record PaymentEdge =
  pe_uetr :: string
  pe_sending_bic :: string
  pe_receiving_bic :: string
  pe_amount_usd :: pyfloat
  pe_currency_pair :: string
  pe_timestamp :: time
  pe_dependency_score :: pyfloat
  pe_observation_count :: nat
  pe_failed :: bool

type_synonym bic_adjacency = "(string, (string, PaymentEdge list) dict) dict"

record CorridorGraph =
  gr_nodes :: "string list"
  gr_edges :: "PaymentEdge list"
  gr_adjacency :: bic_adjacency

record CascadeConfidence =
  cc_mean_observation_count :: pyfloat
  cc_min_observation_count :: nat
  cc_is_high_confidence :: bool
  cc_at_risk_count :: nat

record BICGraphBuilder =
  gb_out_edges :: "(string, PaymentEdge list) dict"
  gb_in_edges :: "(string, PaymentEdge list) dict"
  gb_adjacency :: bic_adjacency
  gb_bic_first_seen :: "(string, time) dict"
  gb_max_timestamp :: time
  gb_in_volumes :: "(string, pyfloat) dict"
  gb_all_edges :: "PaymentEdge list"
  gb_dep_score_sum :: pyfloat
  gb_dep_score_count :: nat

definition new_graph_builder :: "time \<Rightarrow> BICGraphBuilder" where
  "new_graph_builder now =
     \<lparr> gb_out_edges = [], gb_in_edges = [], gb_adjacency = [], gb_bic_first_seen = [], gb_max_timestamp = now,
       gb_in_volumes = [], gb_all_edges = [], gb_dep_score_sum = 0, gb_dep_score_count = 0 \<rparr>"

definition compute_corridor_prior_dependency :: "BICGraphBuilder \<Rightarrow> pyfloat" where
  "compute_corridor_prior_dependency b =
     (if gb_dep_score_count b = 0 then DEPENDENCY_PRIOR_DEFAULT
      else gb_dep_score_sum b / of_nat (gb_dep_score_count b))"

text \<open>\<open>setdefault(k, []).append(v)\<close>.\<close>

definition dappend :: "'k \<Rightarrow> 'v \<Rightarrow> ('k, 'v list) dict \<Rightarrow> ('k, 'v list) dict" where
  "dappend k v d = dset k (value_or [] (dget d k) @ [v]) d"

definition adj_append :: "PaymentEdge \<Rightarrow> bic_adjacency \<Rightarrow> bic_adjacency" where
  "adj_append e adj =
     dset (pe_sending_bic e) (dappend (pe_receiving_bic e) e (value_or [] (dget adj (pe_sending_bic e)))) adj"

definition see_bic :: "time \<Rightarrow> string \<Rightarrow> (string, time) dict \<Rightarrow> (string, time) dict" where
  "see_bic t bic seen = dset bic (case dget seen bic of None \<Rightarrow> t | Some t0 \<Rightarrow> min t0 t) seen"

text \<open>The indices of the builder, with the edge in them.\<close>

definition index_edge :: "PaymentEdge \<Rightarrow> BICGraphBuilder \<Rightarrow> BICGraphBuilder" where
  "index_edge edge b =
     (let s = pe_sending_bic edge; r = pe_receiving_bic edge
      in b\<lparr>gb_max_timestamp := max (gb_max_timestamp b) (pe_timestamp edge),
           gb_bic_first_seen := fold (see_bic (pe_timestamp edge)) [s, r] (gb_bic_first_seen b),
           gb_out_edges := dappend s edge (gb_out_edges b),
           gb_in_edges := dappend r edge (gb_in_edges b),
           gb_adjacency := adj_append edge (gb_adjacency b),
           gb_in_volumes := dset r (value_or 0 (dget (gb_in_volumes b) r) + pe_amount_usd edge) (gb_in_volumes b)\<rparr>)"

text \<open>Where the volume comes out as zero the division raises, after the indices were updated.\<close>

definition add_payment :: "PaymentEdge \<Rightarrow> BICGraphBuilder \<Rightarrow> (py_exc + unit) \<times> BICGraphBuilder" where
  "add_payment edge b =
     (let r = pe_receiving_bic edge;
          n = length (value_or [] (dget (gb_in_edges b) r));
          volume = value_or 0 (dget (gb_in_volumes b) r) + pe_amount_usd edge
      in if volume = 0 then (Inl OtherException, index_edge edge b)
         else
           let raw = pe_amount_usd edge / volume;
               prior = compute_corridor_prior_dependency b;
               smoothed = (of_nat n * raw + SMOOTHING_K * prior) / (of_nat n + SMOOTHING_K);
               edge = edge\<lparr>pe_dependency_score := smoothed, pe_observation_count := n\<rparr>;
               b = index_edge edge b
           in (Inr (), b\<lparr>gb_dep_score_sum := gb_dep_score_sum b + smoothed,
                gb_dep_score_count := gb_dep_score_count b + 1, gb_all_edges := gb_all_edges b @ [edge]\<rparr>))"

section \<open>Queries\<close>

definition get_neighbors :: "string \<Rightarrow> nat \<Rightarrow> BICGraphBuilder \<Rightarrow> string list" where
  "get_neighbors bic k b =
     (case dget (gb_adjacency b) bic of
        None \<Rightarrow> []
      | Some corridors \<Rightarrow>
          take k (map fst (sort_key (\<lambda>kv. - snd kv)
            (map (\<lambda>(nbr, edges). (nbr, sum_list (map pe_amount_usd edges))) corridors))))"

text \<open>\<open>max\<close> with a key: the first of the greatest.\<close>

definition max_by :: "('a \<Rightarrow> rat) \<Rightarrow> 'a \<Rightarrow> 'a list \<Rightarrow> 'a" where
  "max_by f x xs = foldl (\<lambda>m y. if f y > f m then y else m) x xs"

definition at_risk :: "pyfloat \<Rightarrow> string \<times> PaymentEdge list \<Rightarrow> (string \<times> nat) list" where
  "at_risk threshold corridor =
     (case corridor of
        (nbr, []) \<Rightarrow> []
      | (nbr, e # es) \<Rightarrow>
          let latest = max_by pe_timestamp e es
          in if pe_dependency_score latest \<ge> threshold then [(nbr, pe_observation_count latest)] else [])"

definition get_cascade_risk :: "string \<Rightarrow> pyfloat \<Rightarrow> BICGraphBuilder \<Rightarrow> string list \<times> CascadeConfidence" where
  "get_cascade_risk bic dependency_threshold b =
     (case dget (gb_adjacency b) bic of
        None \<Rightarrow> ([], \<lparr> cc_mean_observation_count = 0, cc_min_observation_count = 0,
                    cc_is_high_confidence = False, cc_at_risk_count = 0 \<rparr>)
      | Some corridors \<Rightarrow>
          (case concat (map (at_risk dependency_threshold) corridors) of
             [] \<Rightarrow> ([], \<lparr> cc_mean_observation_count = 0, cc_min_observation_count = 0,
                       cc_is_high_confidence = True, cc_at_risk_count = 0 \<rparr>)
           | (nbr, n) # rs \<Rightarrow>
               let min_obs = foldl min n (map snd rs)
               in (nbr # map fst rs,
                   \<lparr> cc_mean_observation_count = of_nat (sum_list (n # map snd rs)) / of_nat (Suc (length rs)),
                     cc_min_observation_count = min_obs, cc_is_high_confidence = of_nat min_obs \<ge> SMOOTHING_K,
                     cc_at_risk_count = Suc (length rs) \<rparr>)))"

definition build_graph :: "BICGraphBuilder \<Rightarrow> CorridorGraph" where
  "build_graph b = \<lparr> gr_nodes = sort (dkeys (gb_bic_first_seen b)), gr_edges = gb_all_edges b,
     gr_adjacency = gb_adjacency b \<rparr>"

definition add_payments :: "PaymentEdge list \<Rightarrow> BICGraphBuilder \<Rightarrow> BICGraphBuilder" where
  "add_payments es b = fold (\<lambda>e b. snd (add_payment e b)) es b"

section \<open>Scores over the list of payments\<close>

definition received :: "string \<Rightarrow> PaymentEdge list \<Rightarrow> PaymentEdge list" where
  "received r es = filter (\<lambda>e. pe_receiving_bic e = r) es"

definition mean_score :: "PaymentEdge list \<Rightarrow> rat" where
  "mean_score es = (if es = [] then 1 / 10 else sum_list (map pe_dependency_score es) / of_nat (length es))"

text \<open>The score of a payment: its share of what the receiver has got so far, pulled towards the mean score with
  the weight of five observations.\<close>

definition score_payment :: "PaymentEdge list \<Rightarrow> PaymentEdge \<Rightarrow> PaymentEdge" where
  "score_payment earlier e =
     (let same = received (pe_receiving_bic e) earlier;
          n = of_nat (length same);
          share = pe_amount_usd e / (sum_list (map pe_amount_usd same) + pe_amount_usd e)
      in e\<lparr>pe_dependency_score := (n * share + 5 * mean_score earlier) / (n + 5),
           pe_observation_count := length same\<rparr>)"

definition scored :: "PaymentEdge list \<Rightarrow> PaymentEdge list" where
  "scored es = foldl (\<lambda>earlier e. earlier @ [score_payment earlier e]) [] es"

definition score_ok :: "PaymentEdge \<Rightarrow> bool" where
  "score_ok e \<longleftrightarrow> 0 < pe_amount_usd e \<and> 0 < pe_dependency_score e \<and> pe_dependency_score e \<le> 1"

lemma mean_score_bounds:
  assumes "\<forall>e \<in> set es. score_ok e"
  shows "0 < mean_score es" "mean_score es \<le> 1"
proof -
  have "es \<noteq> [] \<longrightarrow> 0 < sum_list (map pe_dependency_score es)"
    and "sum_list (map pe_dependency_score es) \<le> of_nat (length es)"
    using assms by (induction es) (auto simp: score_ok_def add_pos_nonneg add_pos_pos)
  then show "0 < mean_score es" "mean_score es \<le> 1" by (auto simp: mean_score_def divide_simps)
qed

lemma received_nonneg: "\<forall>e \<in> set es. score_ok e \<Longrightarrow> 0 \<le> sum_list (map pe_amount_usd (received r es))"
  by (induction es) (auto simp: received_def score_ok_def)

lemma score_payment_ok:
  assumes "\<forall>e \<in> set earlier. score_ok e" "0 < pe_amount_usd e"
  shows "score_ok (score_payment earlier e)"
proof -
  let ?same = "received (pe_receiving_bic e) earlier"
  define n :: rat where "n = of_nat (length ?same)"
  define share where "share = pe_amount_usd e / (sum_list (map pe_amount_usd ?same) + pe_amount_usd e)"
  have "0 \<le> sum_list (map pe_amount_usd ?same)"
    using assms(1) by (rule received_nonneg)
  with assms(2) have share: "0 \<le> share" "share \<le> 1" unfolding share_def by (auto simp: divide_simps)
  have n: "0 \<le> n" by (simp add: n_def)
  note mean = mean_score_bounds [OF assms(1)]
  have "0 < n * share + 5 * mean_score earlier" using share n mean by (intro add_nonneg_pos) simp_all
  moreover have "n * share + 5 * mean_score earlier \<le> n + 5"
    using mult_left_mono [OF share(2) n] mean by linarith
  ultimately show ?thesis
    using n assms(2) unfolding score_ok_def score_payment_def Let_def n_def [symmetric] share_def [symmetric]
    by (simp add: divide_simps)
qed

text \<open>The running state is that of the list.\<close>

definition builder_ok :: "BICGraphBuilder \<Rightarrow> bool" where
  "builder_ok b \<longleftrightarrow>
     (\<forall>r. value_or [] (dget (gb_in_edges b) r) = received r (gb_all_edges b) \<and>
          value_or 0 (dget (gb_in_volumes b) r) = sum_list (map pe_amount_usd (received r (gb_all_edges b)))) \<and>
     gb_dep_score_sum b = sum_list (map pe_dependency_score (gb_all_edges b)) \<and>
     gb_dep_score_count b = length (gb_all_edges b) \<and> (\<forall>e \<in> set (gb_all_edges b). score_ok e)"

lemma prior_is_mean: "builder_ok b \<Longrightarrow> compute_corridor_prior_dependency b = mean_score (gb_all_edges b)"
  by (simp add: builder_ok_def compute_corridor_prior_dependency_def mean_score_def DEPENDENCY_PRIOR_DEFAULT_def)

lemma add_payment_scored:
  assumes "builder_ok b" "0 < pe_amount_usd e"
  shows "fst (add_payment e b) = Inr ()" "builder_ok (snd (add_payment e b))"
    "gb_all_edges (snd (add_payment e b)) = gb_all_edges b @ [score_payment (gb_all_edges b) e]"
proof -
  let ?same = "received (pe_receiving_bic e) (gb_all_edges b)" and ?e = "score_payment (gb_all_edges b) e"
  have "0 \<le> sum_list (map pe_amount_usd ?same)"
    using assms(1) by (auto simp: builder_ok_def intro: received_nonneg)
  with assms(2) have nz: "sum_list (map pe_amount_usd ?same) + pe_amount_usd e \<noteq> 0" by linarith
  have st: "value_or [] (dget (gb_in_edges b) r) = received r (gb_all_edges b)"
    "value_or 0 (dget (gb_in_volumes b) r) = sum_list (map pe_amount_usd (received r (gb_all_edges b)))" for r
    using assms(1) by (simp_all add: builder_ok_def)
  have step: "add_payment e b = (Inr (), (index_edge ?e b)
      \<lparr>gb_dep_score_sum := gb_dep_score_sum b + pe_dependency_score ?e,
       gb_dep_score_count := gb_dep_score_count b + 1, gb_all_edges := gb_all_edges b @ [?e]\<rparr>)"
    unfolding add_payment_def Let_def st prior_is_mean [OF assms(1)] SMOOTHING_K_def
    using nz by (simp add: score_payment_def Let_def index_edge_def)
  have e: "pe_receiving_bic ?e = pe_receiving_bic e" "pe_amount_usd ?e = pe_amount_usd e"
    by (simp_all add: score_payment_def Let_def)
  show "fst (add_payment e b) = Inr ()"
    "gb_all_edges (snd (add_payment e b)) = gb_all_edges b @ [?e]" by (simp_all add: step)
  have "score_ok ?e" using assms by (intro score_payment_ok) (simp_all add: builder_ok_def)
  then show "builder_ok (snd (add_payment e b))"
    using assms(1) unfolding step
    by (simp add: builder_ok_def index_edge_def Let_def dappend_def dict_simps e received_def st)
qed

lemma add_payments_scored:
  assumes "\<forall>e \<in> set es. 0 < pe_amount_usd e"
  shows "gb_all_edges (add_payments es (new_graph_builder now)) = scored es"
    "\<forall>e \<in> set (scored es). score_ok e"
proof -
  have "builder_ok b \<Longrightarrow> builder_ok (add_payments es b) \<and>
      gb_all_edges (add_payments es b) = foldl (\<lambda>earlier e. earlier @ [score_payment earlier e]) (gb_all_edges b) es" for b
    using assms by (induction es arbitrary: b) (simp_all add: add_payments_def add_payment_scored)
  from this [of "new_graph_builder now"]
  show "gb_all_edges (add_payments es (new_graph_builder now)) = scored es" "\<forall>e \<in> set (scored es). score_ok e"
    by (auto simp: scored_def builder_ok_def new_graph_builder_def received_def)
qed

end
