(* ===== verification/Entity_Resolver.thy ===== *)
theory Entity_Resolver
  imports BIC_Graph Cascade_Graph
begin

text \<open>
  From payments between banks to a graph of corporates (\<open>lip/p5_cascade_engine/entity_resolver.py\<close>).  A Python set
  that is only tested and sorted is a list without repetitions.  The corporates come from a set, whose order Python
  leaves open; here it is that of their first edge.

  Shown: two corporates are linked exactly when two or more payments lead from the banks of the one to those of the
  other, and the edge is the sum of those payments; the two adjacency maps are transposes; for the payments that the graph
  builder accepts nothing raises and every dependency is a share, so that probabilities only shrink along a cascade.
\<close>

section \<open>Resolution\<close>

definition CORPORATE_EDGE_MIN_PAYMENTS_30D :: nat where "CORPORATE_EDGE_MIN_PAYMENTS_30D = 2"

record CorporateEntityResolver =
  er_mapping :: "string \<rightharpoonup> string"
  er_metadata :: "string \<rightharpoonup> (string \<rightharpoonup> string)"

type_synonym pair_edges = "(string \<times> string, PaymentEdge list) dict"
type_synonym collected = "pair_edges \<times> (string, string list) dict \<times> (string, string list) dict"

definition set_add :: "string \<Rightarrow> string \<Rightarrow> (string, string list) dict \<Rightarrow> (string, string list) dict" where
  "set_add k v d = dset k (List.insert v (value_or [] (dget d k))) d"

definition collect_edge :: "(string \<rightharpoonup> string) \<Rightarrow> PaymentEdge \<Rightarrow> collected \<Rightarrow> collected" where
  "collect_edge mapping edge st =
     (case (mapping (pe_sending_bic edge), mapping (pe_receiving_bic edge), st) of
        (Some src, Some tgt, (pairs, corp_bics, corridors)) \<Rightarrow>
          if src = tgt then st
          else if pe_amount_usd edge \<le> 0 then st
          else (dappend (src, tgt) edge pairs,
                set_add tgt (pe_receiving_bic edge) (set_add src (pe_sending_bic edge) corp_bics),
                if pe_currency_pair edge \<noteq> []
                then set_add (pe_currency_pair edge) tgt (set_add (pe_currency_pair edge) src corridors)
                else corridors)
      | _ \<Rightarrow> st)"

definition dependency_of :: "PaymentEdge list \<Rightarrow> py_exc + pyfloat" where
  "dependency_of edges =
     (let d_total = sum_list (map pe_amount_usd edges);
          d_numerator = foldl (\<lambda>acc e. dadd acc (dmul (pe_amount_usd e) (pe_dependency_score e))) 0 edges
      in res_bind (ddiv d_numerator d_total) (quantize 6))"

definition latest_of :: "time list \<Rightarrow> time" where
  "latest_of ts = (case ts of [] \<Rightarrow> 0 | t # ts \<Rightarrow> foldl max t ts)"

definition corporate_edge :: "string \<times> string \<Rightarrow> PaymentEdge list \<Rightarrow> py_exc + CorporateEdge" where
  "corporate_edge pair edges =
     res_bind (dependency_of edges) (\<lambda>dep_score.
       Inr \<lparr> ce_source_corporate_id = fst pair, ce_target_corporate_id = snd pair,
             ce_total_volume_30d = sum_list (map pe_amount_usd edges), ce_payment_count_30d = int (length edges),
             ce_dependency_score = dep_score,
             ce_failure_rate_30d = of_nat (length (filter pe_failed edges)) / of_nat (length edges),
             ce_avg_settlement_hours = 0, ce_last_payment_timestamp = latest_of (map pe_timestamp edges) \<rparr>)"

fun corporate_edges :: "pair_edges \<Rightarrow> py_exc + CorporateEdge list" where
  "corporate_edges [] = Inr []"
| "corporate_edges ((pair, edges) # pairs) =
     (if length edges < CORPORATE_EDGE_MIN_PAYMENTS_30D then corporate_edges pairs
      else res_bind (corporate_edge pair edges) (\<lambda>ce.
             res_bind (corporate_edges pairs) (\<lambda>ces. Inr (ce # ces))))"

definition link :: "string \<Rightarrow> string \<Rightarrow> CorporateEdge \<Rightarrow> adjacency \<Rightarrow> adjacency" where
  "link a b ce adj = dset a (dset b ce (neighbours adj a)) adj"

definition forward_links :: "CorporateEdge list \<Rightarrow> adjacency" where
  "forward_links ces = fold (\<lambda>ce. link (ce_source_corporate_id ce) (ce_target_corporate_id ce) ce) ces []"

definition backward_links :: "CorporateEdge list \<Rightarrow> adjacency" where
  "backward_links ces = fold (\<lambda>ce. link (ce_target_corporate_id ce) (ce_source_corporate_id ce) ce) ces []"

definition corporate_ids :: "CorporateEdge list \<Rightarrow> string list" where
  "corporate_ids ces =
     fold (\<lambda>ce ids. List.insert (ce_target_corporate_id ce) (List.insert (ce_source_corporate_id ce) ids)) ces []"

definition jurisdiction_of :: "(string \<rightharpoonup> string) \<Rightarrow> string list \<Rightarrow> string" where
  "jurisdiction_of meta bics =
     (let jurisdiction = value_or [] (meta ''jurisdiction'')
      in if jurisdiction \<noteq> [] then jurisdiction
         else case sort bics of
             [] \<Rightarrow> ''XX''
           | primary_bic # _ \<Rightarrow> if length primary_bic \<ge> 6 then take 2 (drop 4 primary_bic) else ''XX'')"

definition edge_volume :: "(string, CorporateEdge) dict \<Rightarrow> pyfloat" where
  "edge_volume es = sum_list (map ce_total_volume_30d (dvalues es))"

definition corporate_node :: "CorporateEntityResolver \<Rightarrow> adjacency \<Rightarrow> adjacency \<Rightarrow> (string, string list) dict \<Rightarrow>
    string \<Rightarrow> CorporateNode" where
  "corporate_node r adj rev_adj corp_bics corp_id =
     (let meta = value_or (\<lambda>_. None) (er_metadata r corp_id);
          bics = value_or [] (dget corp_bics corp_id);
          incoming = neighbours rev_adj corp_id
      in \<lparr> cn_corporate_id = corp_id, cn_name_hash = value_or [] (meta ''name_hash''), cn_bics = set bics,
           cn_sector = value_or ''UNKNOWN'' (meta ''sector''), cn_jurisdiction = jurisdiction_of meta bics,
           cn_total_incoming_volume_30d = edge_volume incoming,
           cn_total_outgoing_volume_30d = edge_volume (neighbours adj corp_id),
           cn_dependency_scores = map (\<lambda>(src, e). (src, ce_dependency_score e)) incoming,
           cn_cascade_centrality = 0 \<rparr>)"

definition resolve :: "CorporateEntityResolver \<Rightarrow> time \<Rightarrow> CorridorGraph \<Rightarrow> py_exc + CascadeGraph" where
  "resolve r now bic_graph =
     (let (pairs, corp_bics, corridors) = fold (collect_edge (er_mapping r)) (gr_edges bic_graph) ([], [], [])
      in res_bind (corporate_edges pairs) (\<lambda>ces.
        let adj = forward_links ces; rev_adj = backward_links ces;
            nodes = map (\<lambda>corp_id. (corp_id, corporate_node r adj rev_adj corp_bics corp_id)) (corporate_ids ces);
            avg_dep = (if ces \<noteq> [] then sum_list (map ce_dependency_score ces) / of_nat (length ces) else 0)
        in Inr \<lparr> cg_nodes = nodes, cg_edges = ces, cg_adjacency = adj, cg_reverse_adjacency = rev_adj,
             cg_build_timestamp = now, cg_node_count = int (length nodes), cg_edge_count = int (length ces),
             cg_avg_dependency_score = avg_dep, cg_max_cascade_centrality_node = [],
             cg_corridor_to_corporates = map (\<lambda>(k, v). (k, sort v)) corridors \<rparr>))"

section \<open>What the graph holds\<close>

definition between :: "(string \<rightharpoonup> string) \<Rightarrow> string \<times> string \<Rightarrow> PaymentEdge list \<Rightarrow> PaymentEdge list" where
  "between mapping pair es = filter (\<lambda>e. mapping (pe_sending_bic e) = Some (fst pair) \<and>
     mapping (pe_receiving_bic e) = Some (snd pair) \<and> fst pair \<noteq> snd pair \<and> 0 < pe_amount_usd e) es"

lemma collect_one:
  assumes "dict_ok pairs" "collect_edge mapping e (pairs, bics, corridors) = (pairs', bics', corridors')"
  shows "dict_ok pairs' \<and> (\<forall>p. value_or [] (dget pairs' p) = value_or [] (dget pairs p) @ between mapping p [e])"
proof (cases "\<exists>p. between mapping p [e] \<noteq> []")
  case True
  then obtain src tgt where m: "mapping (pe_sending_bic e) = Some src" "mapping (pe_receiving_bic e) = Some tgt"
    "src \<noteq> tgt" "0 < pe_amount_usd e" by (auto simp: between_def split: if_splits)
  with assms(2) have "pairs' = dappend (src, tgt) e pairs" by (simp add: collect_edge_def)
  with m assms(1) show ?thesis by (auto simp: between_def dappend_def dict_simps)
next
  case False
  have "pairs' = pairs"
    using False assms(2) by (auto simp: collect_edge_def between_def split: option.splits if_splits)
  with False assms(1) show ?thesis by simp
qed

lemma collect_edges:
  assumes "dict_ok pairs" "fold (collect_edge mapping) es (pairs, bics, corridors) = (pairs', bics', corridors')"
  shows "dict_ok pairs' \<and> (\<forall>p. value_or [] (dget pairs' p) = value_or [] (dget pairs p) @ between mapping p es)"
  using assms
proof (induction es arbitrary: pairs bics corridors)
  case (Cons e es)
  obtain pairs1 bics1 corridors1 where one: "collect_edge mapping e (pairs, bics, corridors) = (pairs1, bics1, corridors1)"
    by (cases "collect_edge mapping e (pairs, bics, corridors)")
  note C = collect_one [OF Cons.prems(1) one]
  with Cons.IH [of pairs1 bics1 corridors1] Cons.prems(2) one
  have "dict_ok pairs' \<and> (\<forall>p. value_or [] (dget pairs' p) = value_or [] (dget pairs1 p) @ between mapping p es)" by simp
  with C show ?case by (simp add: between_def)
qed (simp add: between_def)

lemma corporate_edges_Inr:
  assumes "corporate_edges ps = Inr ces"
  shows "\<forall>ce \<in> set ces. \<exists>es. ((ce_source_corporate_id ce, ce_target_corporate_id ce), es) \<in> set ps \<and>
      2 \<le> length es \<and> corporate_edge (ce_source_corporate_id ce, ce_target_corporate_id ce) es = Inr ce"
    and "\<forall>(p, es) \<in> set ps. 2 \<le> length es \<longrightarrow> (\<exists>ce \<in> set ces. (ce_source_corporate_id ce, ce_target_corporate_id ce) = p)"
proof -
  have "(\<forall>ce \<in> set ces. \<exists>es. ((ce_source_corporate_id ce, ce_target_corporate_id ce), es) \<in> set ps \<and>
      2 \<le> length es \<and> corporate_edge (ce_source_corporate_id ce, ce_target_corporate_id ce) es = Inr ce) \<and>
    (\<forall>(p, es) \<in> set ps. 2 \<le> length es \<longrightarrow> (\<exists>ce \<in> set ces. (ce_source_corporate_id ce, ce_target_corporate_id ce) = p))"
    using assms
  proof (induction ps arbitrary: ces rule: corporate_edges.induct)
    case (2 pair edges pairs)
    show ?case
    proof (cases "length edges < 2")
      case True
      with "2.prems" have "corporate_edges pairs = Inr ces" by (simp add: CORPORATE_EDGE_MIN_PAYMENTS_30D_def)
      from "2.IH"(1) [OF _ this] True show ?thesis
        by (fastforce simp: CORPORATE_EDGE_MIN_PAYMENTS_30D_def)
    next
      case False
      with "2.prems" obtain ce ces' where c: "corporate_edge pair edges = Inr ce" "corporate_edges pairs = Inr ces'"
        "ces = ce # ces'" by (auto simp: CORPORATE_EDGE_MIN_PAYMENTS_30D_def res_bind_Inr_iff)
      have "(ce_source_corporate_id ce, ce_target_corporate_id ce) = pair"
        using c(1) by (auto simp: corporate_edge_def res_bind_Inr_iff)
      with "2.IH"(2) [OF _ _ c(2)] False c show ?thesis
        by (fastforce simp: CORPORATE_EDGE_MIN_PAYMENTS_30D_def)
    qed
  qed simp
  then show "\<forall>ce \<in> set ces. \<exists>es. ((ce_source_corporate_id ce, ce_target_corporate_id ce), es) \<in> set ps \<and>
      2 \<le> length es \<and> corporate_edge (ce_source_corporate_id ce, ce_target_corporate_id ce) es = Inr ce"
    and "\<forall>(p, es) \<in> set ps. 2 \<le> length es \<longrightarrow> (\<exists>ce \<in> set ces. (ce_source_corporate_id ce, ce_target_corporate_id ce) = p)"
    by blast+
qed

lemma corporate_edges_defined:
  "(\<And>p es. (p, es) \<in> set ps \<Longrightarrow> 2 \<le> length es \<Longrightarrow> \<exists>ce. corporate_edge p es = Inr ce) \<Longrightarrow>
   \<exists>ces. corporate_edges ps = Inr ces"
proof (induction ps rule: corporate_edges.induct)
  case (2 pair edges pairs)
  show ?case
  proof (cases "length edges < 2")
    case True
    with "2.IH"(1) "2.prems" show ?thesis by (simp add: CORPORATE_EDGE_MIN_PAYMENTS_30D_def)
  next
    case False
    with "2.prems" obtain ce where "corporate_edge pair edges = Inr ce" by (meson list.set_intros(1) not_less)
    with False "2.IH"(2) "2.prems" show ?thesis by (auto simp: CORPORATE_EDGE_MIN_PAYMENTS_30D_def)
  qed
qed simp

section \<open>Links\<close>

lemma link_lookup: "dget (neighbours (link a b ce adj) s) t = (if a = s \<and> b = t then Some ce else dget (neighbours adj s) t)"
  by (simp add: link_def neighbours_def dict_simps)

lemma links_lookup:
  "dget (neighbours (fold (\<lambda>ce. link (f ce) (g ce) ce) ces adj) s) t =
     (case find (\<lambda>ce. f ce = s \<and> g ce = t) (rev ces) of None \<Rightarrow> dget (neighbours adj s) t | Some ce \<Rightarrow> Some ce)"
proof (induction ces arbitrary: adj)
  case (Cons ce ces)
  have "find P (xs @ [x]) = (case find P xs of None \<Rightarrow> (if P x then Some x else None) | Some y \<Rightarrow> Some y)"
    for P xs and x :: CorporateEdge
    by (induction xs) auto
  with Cons show ?case by (simp add: link_lookup split: option.split)
qed simp

lemma neighbours_Nil [simp]: "neighbours [] s = []"
  by (simp add: neighbours_def)

lemma transposed: "dget (neighbours (backward_links ces) t) s = dget (neighbours (forward_links ces) s) t"
  by (simp add: forward_links_def backward_links_def links_lookup conj_commute split: option.split)

text \<open>The edge between two corporates: there is one when there are two payments or more, and it is their sum.\<close>

definition edge_of_payments :: "(string \<rightharpoonup> string) \<Rightarrow> PaymentEdge list \<Rightarrow> string \<Rightarrow> string \<Rightarrow> CorporateEdge option \<Rightarrow> bool" where
  "edge_of_payments mapping es s t oe \<longleftrightarrow>
     (case oe of
        None \<Rightarrow> length (between mapping (s, t) es) < 2
      | Some ce \<Rightarrow> 2 \<le> length (between mapping (s, t) es) \<and> corporate_edge (s, t) (between mapping (s, t) es) = Inr ce)"

lemma resolve_edges:
  assumes "resolve r now g = Inr cg"
  shows "edge_of_payments (er_mapping r) (gr_edges g) s t (dget (neighbours (cg_adjacency cg) s) t)"
    "dget (neighbours (cg_reverse_adjacency cg) t) s = dget (neighbours (cg_adjacency cg) s) t"
proof -
  obtain ps bics corridors where c: "fold (collect_edge (er_mapping r)) (gr_edges g) ([], [], []) = (ps, bics, corridors)"
    by (cases "fold (collect_edge (er_mapping r)) (gr_edges g) ([], [], [])")
  with assms obtain ces where ces: "corporate_edges ps = Inr ces" "cg_adjacency cg = forward_links ces"
    "cg_reverse_adjacency cg = backward_links ces" by (auto simp: resolve_def res_bind_Inr_iff Let_def)
  have "dict_ok ps \<and> (\<forall>p. value_or [] (dget ps p) = between (er_mapping r) p (gr_edges g))"
    using collect_edges [OF dict_ok_Nil c] unfolding map_of.simps value_or_simps append_Nil .
  then have ok: "dict_ok ps" and P: "value_or [] (dget ps p) = between (er_mapping r) p (gr_edges g)" for p by blast+
  have mem: "es = between (er_mapping r) p (gr_edges g)" if "(p, es) \<in> set ps" for p es
    using that P [of p] by (simp add: mem_dget [OF ok])
  note E = corporate_edges_Inr [OF ces(1)]
  let ?es = "between (er_mapping r) (s, t) (gr_edges g)"
  show "edge_of_payments (er_mapping r) (gr_edges g) s t (dget (neighbours (cg_adjacency cg) s) t)"
  proof (cases "find (\<lambda>ce. ce_source_corporate_id ce = s \<and> ce_target_corporate_id ce = t) (rev ces)")
    case None
    have "length ?es < 2"
    proof (rule ccontr)
      assume two: "\<not> length ?es < 2"
      then obtain es where "dget ps (s, t) = Some es" "es = ?es" using P [of "(s, t)"] by (cases "dget ps (s, t)") auto
      then have "((s, t), ?es) \<in> set ps" by (simp add: mem_dget [OF ok])
      with two E(2) have "\<exists>ce \<in> set ces. (ce_source_corporate_id ce, ce_target_corporate_id ce) = (s, t)" by fastforce
      with None show False by (auto simp: find_None_iff)
    qed
    with None show ?thesis by (simp add: edge_of_payments_def ces forward_links_def links_lookup)
  next
    case (Some ce)
    then have "ce \<in> set (rev ces)" "ce_source_corporate_id ce = s" "ce_target_corporate_id ce = t"
      by (auto simp: find_Some_iff simp del: set_rev intro: nth_mem)
    then have "ce \<in> set ces" "ce_source_corporate_id ce = s" "ce_target_corporate_id ce = t" by simp_all
    with E(1) mem have "2 \<le> length ?es \<and> corporate_edge (s, t) ?es = Inr ce" by blast
    with Some show ?thesis by (simp add: edge_of_payments_def ces forward_links_def links_lookup)
  qed
  show "dget (neighbours (cg_reverse_adjacency cg) t) s = dget (neighbours (cg_adjacency cg) s) t"
    by (simp add: ces transposed)
qed

section \<open>Dependencies are shares\<close>

definition ctx_eps :: rat where "ctx_eps = 5 / 10 ^ 28"

lemma ctx_eps_pos [simp]: "0 < ctx_eps" "0 \<le> ctx_eps" "0 < 1 + ctx_eps" "1 \<le> 1 + ctx_eps"
  by (simp_all add: ctx_eps_def)

lemma ctx_le:
  assumes "0 \<le> x"
  shows "ctx x \<le> x * (1 + ctx_eps)"
proof -
  have "ctx x - x \<le> ctx_eps * x" using ctx_error [of x] assms by (simp only: ctx_eps_def abs_of_nonneg)
  then show ?thesis unfolding distrib_left mult_1_right mult.commute [of x] by linarith
qed

lemma ctx_le': "0 \<le> x \<Longrightarrow> x \<le> y \<Longrightarrow> ctx x \<le> y * (1 + ctx_eps)"
  using ctx_le [of y] ctx_mono [of x y] by linarith

lemma eps_power: "(1 + ctx_eps) ^ m * (1 - of_nat m * ctx_eps) \<le> 1"
proof (induction m)
  case (Suc m)
  have "(1 + ctx_eps) * (1 - of_nat (Suc m) * ctx_eps) = 1 - of_nat m * ctx_eps - (of_nat m + 1) * (ctx_eps * ctx_eps)"
    by (simp add: algebra_simps)
  also have "\<dots> \<le> 1 - of_nat m * ctx_eps" by simp
  finally have "(1 + ctx_eps) ^ m * ((1 + ctx_eps) * (1 - of_nat (Suc m) * ctx_eps)) \<le>
      (1 + ctx_eps) ^ m * (1 - of_nat m * ctx_eps)"
    by (rule mult_left_mono) simp
  with Suc.IH have "(1 + ctx_eps) ^ m * ((1 + ctx_eps) * (1 - of_nat (Suc m) * ctx_eps)) \<le> 1" by linarith
  then show ?case by (simp only: power_Suc2 mult.assoc)
qed simp

lemma eps_power_le:
  assumes "m \<le> 2 * 10 ^ 20 + 1"
  shows "(1 + ctx_eps) ^ m \<le> 1 + 4 / 10 ^ 7"
proof -
  have "of_nat m \<le> (of_nat (2 * 10 ^ 20 + 1) :: rat)" using assms by (rule of_nat_mono)
  then have "of_nat m * ctx_eps \<le> of_nat (2 * 10 ^ 20 + 1) * ctx_eps" by (rule mult_right_mono) simp
  then have "of_nat m * ctx_eps \<le> 2 / 10 ^ 7" by (simp add: ctx_eps_def)
  then have low: "1 - 2 / 10 ^ 7 \<le> 1 - of_nat m * ctx_eps" by linarith
  then have "(1 + ctx_eps) ^ m * (1 - 2 / 10 ^ 7) \<le> (1 + ctx_eps) ^ m * (1 - of_nat m * ctx_eps)"
    by (rule mult_left_mono) simp
  with eps_power [of m] have "(1 + ctx_eps) ^ m * (1 - 2 / 10 ^ 7) \<le> 1" by linarith
  then show ?thesis by simp
qed

lemma numerator_bounds:
  assumes "\<forall>e \<in> set es. score_ok e" "0 \<le> acc" "acc \<le> A * (1 + ctx_eps) ^ k" "0 \<le> A"
  shows "0 \<le> foldl (\<lambda>acc e. dadd acc (dmul (pe_amount_usd e) (pe_dependency_score e))) acc es \<and>
    foldl (\<lambda>acc e. dadd acc (dmul (pe_amount_usd e) (pe_dependency_score e))) acc es \<le>
      (A + sum_list (map pe_amount_usd es)) * (1 + ctx_eps) ^ (k + 2 * length es)"
  using assms
proof (induction es arbitrary: acc A k)
  case (Cons e es)
  let ?a = "pe_amount_usd e" and ?c = "1 + ctx_eps" and ?p = "dmul (pe_amount_usd e) (pe_dependency_score e)"
  have e: "0 < ?a" "0 < pe_dependency_score e" "pe_dependency_score e \<le> 1" using Cons.prems(1) by (simp_all add: score_ok_def)
  have one: "1 \<le> ?c ^ j" for j by (rule one_le_power) simp
  have p: "0 \<le> ?p" "?p \<le> ?a * ?c"
    using e by (auto simp: dmul_def mult_le_cancel_left1 intro!: ctx_nonneg ctx_le')
  have "?a * ?c \<le> ?a * ?c ^ (k + 1)" using e one [of k] by (simp add: mult_le_cancel_left)
  moreover have "A * ?c ^ k \<le> A * ?c ^ (k + 1)" using Cons.prems(4) by (intro mult_left_mono power_increasing) simp_all
  ultimately have "acc + ?p \<le> (A + ?a) * ?c ^ (k + 1)"
    using Cons.prems(3) p(2) unfolding distrib_right by linarith
  then have step: "dadd acc ?p \<le> (A + ?a) * ?c ^ (k + 1) * ?c"
    using Cons.prems(2) p(1) unfolding dadd_def by (intro ctx_le' add_nonneg_nonneg)
  have "0 \<le> dadd acc ?p" using Cons.prems(2) p(1) by (simp add: dadd_def ctx_nonneg)
  from Cons.IH [OF _ this, of "A + ?a" "k + 2"] step Cons.prems(1,4) e(1)
  show ?case by (simp add: add.assoc mult.assoc mult.commute mult.left_commute)
qed simp

lemma quant_one: "quant 6 (1 + 4 / 10 ^ 7) = 1"
proof -
  have "\<lfloor>(1 + 4 / 10 ^ 7) * 10 ^ 6 + 1 / 2 :: rat\<rfloor> = 1000000" by (rule floor_unique) simp_all
  then show ?thesis by (simp add: quant_def round_half_up_def)
qed

lemma dependency_share:
  assumes "\<forall>e \<in> set es. score_ok e" "es \<noteq> []" "length es \<le> 10 ^ 20"
  shows "\<exists>d. dependency_of es = Inr d \<and> 0 \<le> d \<and> d \<le> 1"
proof -
  let ?N = "foldl (\<lambda>acc e. dadd acc (dmul (pe_amount_usd e) (pe_dependency_score e))) 0 es"
    and ?T = "sum_list (map pe_amount_usd es)"
  have T: "0 < ?T" using assms(2,1) by (induction es rule: list_nonempty_induct) (auto simp: score_ok_def)
  have N: "0 \<le> ?N" "?N \<le> ?T * (1 + ctx_eps) ^ (2 * length es)"
    using numerator_bounds [OF assms(1), of 0 0 0] by simp_all
  then have "?N / ?T \<le> (1 + ctx_eps) ^ (2 * length es)" using T by (simp add: divide_simps mult.commute)
  then have "ctx (?N / ?T) \<le> (1 + ctx_eps) ^ (2 * length es) * (1 + ctx_eps)"
    using N(1) T by (intro ctx_le') simp_all
  also have "\<dots> = (1 + ctx_eps) ^ (2 * length es + 1)" by simp
  also have "\<dots> \<le> 1 + 4 / 10 ^ 7" using assms(3) by (intro eps_power_le) simp
  finally have q: "ctx (?N / ?T) \<le> 1 + 4 / 10 ^ 7" .
  have q0: "0 \<le> ctx (?N / ?T)" using N(1) T by (intro ctx_nonneg) simp
  have "\<bar>ctx (?N / ?T)\<bar> * 10 ^ 6 < 10 ^ 28 - 1" using q q0 by simp
  then have "dependency_of es = Inr (quant 6 (ctx (?N / ?T)))"
    using T by (simp add: dependency_of_def ddiv_def quantize_Inr)
  moreover have "quant 6 (ctx (?N / ?T)) \<le> 1" using quant_mono [OF q, of 6] by (simp only: quant_one)
  moreover have "0 \<le> quant 6 (ctx (?N / ?T))" using q0 by (rule quant_nonneg)
  ultimately show ?thesis by blast
qed

lemma length_scored [simp]: "length (scored es) = length es"
proof -
  have "length (foldl (\<lambda>earlier e. earlier @ [score_payment earlier e]) acc es) = length acc + length es" for acc
    by (induction es arbitrary: acc) auto
  then show ?thesis by (simp add: scored_def)
qed

lemma between_ok:
  "\<forall>e \<in> set es. score_ok e \<Longrightarrow> \<forall>e \<in> set (between mapping p es). score_ok e"
  "length (between mapping p es) \<le> length es"
  by (auto simp: between_def)

definition share_edge :: "CorporateEdge \<Rightarrow> bool" where
  "share_edge ce \<longleftrightarrow> 0 \<le> ce_dependency_score ce \<and> ce_dependency_score ce \<le> 1 \<and> 0 < ce_total_volume_30d ce"

lemma corporate_edge_share:
  assumes "\<forall>e \<in> set es. score_ok e" "es \<noteq> []" "length es \<le> 10 ^ 20"
  shows "\<exists>ce. corporate_edge p es = Inr ce \<and> share_edge ce"
proof -
  have "0 < sum_list (map pe_amount_usd es)"
    using assms(2,1) by (induction es rule: list_nonempty_induct) (auto simp: score_ok_def)
  with dependency_share [OF assms] show ?thesis by (auto simp: corporate_edge_def share_edge_def)
qed

lemma set_dset: "set (dset k v d) \<subseteq> insert (k, v) (set d)"
  by (induction d) auto

lemma links_mem: "snd ` set (neighbours (forward_links ces) s) \<subseteq> set ces"
proof -
  have "snd ` set (neighbours (fold (\<lambda>ce. link (f ce) (g ce) ce) ces adj) s) \<subseteq> set ces \<union> snd ` set (neighbours adj s)" for f g adj
  proof (induction ces arbitrary: adj)
    case (Cons ce ces)
    have "snd ` set (neighbours (link (f ce) (g ce) ce adj) s) \<subseteq> insert ce (snd ` set (neighbours adj s))"
      using set_dset [of "g ce" ce "neighbours adj (f ce)"] by (auto simp: link_def neighbours_def dict_simps)
    with Cons [of "link (f ce) (g ce) ce adj"] show ?case by (simp add: subset_iff) blast
  qed simp
  from this [of ce_source_corporate_id ce_target_corporate_id "[]"] show ?thesis by (simp add: forward_links_def)
qed

lemma resolve_shares:
  assumes ok: "\<forall>e \<in> set (gr_edges g). score_ok e" and len: "length (gr_edges g) \<le> 10 ^ 20"
  shows "\<exists>cg. resolve r now g = Inr cg \<and> (\<forall>s. \<forall>ce \<in> snd ` set (neighbours (cg_adjacency cg) s). share_edge ce)"
proof -
  obtain ps bics corridors where c: "fold (collect_edge (er_mapping r)) (gr_edges g) ([], [], []) = (ps, bics, corridors)"
    by (cases "fold (collect_edge (er_mapping r)) (gr_edges g) ([], [], [])")
  have P: "dict_ok ps \<and> (\<forall>p. value_or [] (dget ps p) = between (er_mapping r) p (gr_edges g))"
    using collect_edges [OF dict_ok_Nil c] unfolding map_of.simps value_or_simps append_Nil .
  have edge: "\<exists>ce. corporate_edge p es = Inr ce \<and> share_edge ce" if "(p, es) \<in> set ps" "2 \<le> length es" for p es
  proof -
    have "dget ps p = Some es" using P that(1) by (simp add: mem_dget)
    then have "es = between (er_mapping r) p (gr_edges g)" using P by (metis value_or_simps(2))
    then show ?thesis
      using that(2) between_ok(1) [OF ok] between_ok(2) [of "er_mapping r" p "gr_edges g"] len
      by (intro corporate_edge_share) auto
  qed
  then obtain ces where ces: "corporate_edges ps = Inr ces" using corporate_edges_defined by blast
  have "share_edge ce" if "ce \<in> set ces" for ce
    using corporate_edges_Inr(1) [OF ces] that edge by fastforce
  moreover obtain cg where "resolve r now g = Inr cg" "cg_adjacency cg = forward_links ces"
    using c ces by (simp add: resolve_def Let_def)
  ultimately show ?thesis using links_mem [of ces] by auto
qed

lemma resolve_payments:
  assumes "\<forall>e \<in> set es. 0 < pe_amount_usd e" "length es \<le> 10 ^ 20"
  shows "\<exists>cg. resolve r now (build_graph (add_payments es (new_graph_builder t0))) = Inr cg \<and>
    (\<forall>s. \<forall>ce \<in> snd ` set (neighbours (cg_adjacency cg) s). share_edge ce)"
  using resolve_shares [of "build_graph (add_payments es (new_graph_builder t0))" r now]
    add_payments_scored(1) [OF assms(1), of t0] add_payments_scored(2) [OF assms(1)] assms(2)
  by (simp add: build_graph_def)


section \<open>Cascades over payments\<close>

lemma cascade_shrinks:
  assumes tree: "cascade_tree adj origin threshold max_hops m"
    and share: "\<And>s. \<forall>ce \<in> snd ` set (neighbours adj s). share_edge ce"
  shows "(k, n) \<in> set m \<Longrightarrow> 0 \<le> rn_cascade_probability n \<and> rn_cascade_probability n \<le> 1 \<and> 0 < rn_incoming_volume_at_risk_usd n"
proof (induction "nat (rn_hop_distance n)" arbitrary: k n rule: less_induct)
  case less
  then have "tree_node adj origin threshold max_hops m n" using tree by (auto simp: cascade_tree_def)
  then obtain edge where e: "(rn_corporate_id n, edge) \<in> set (neighbours adj (rn_parent_corporate_id n))"
    "rn_incoming_volume_at_risk_usd n = ce_total_volume_30d edge" "1 \<le> rn_hop_distance n"
    and up: "if rn_hop_distance n = 1 then rn_cascade_probability n = ce_dependency_score edge
      else \<exists>parent. dget m (rn_parent_corporate_id n) = Some parent \<and> rn_hop_distance n = rn_hop_distance parent + 1 \<and>
        rn_cascade_probability n = rn_cascade_probability parent * ce_dependency_score edge"
    unfolding tree_node_def by (cases "rn_hop_distance n = 1") auto
  have sh: "share_edge edge" using share e(1) by force
  show ?case
  proof (cases "rn_hop_distance n = 1")
    case True
    with up sh e(2) show ?thesis by (simp add: share_edge_def)
  next
    case False
    then obtain parent where p: "dget m (rn_parent_corporate_id n) = Some parent"
      "rn_hop_distance n = rn_hop_distance parent + 1"
      "rn_cascade_probability n = rn_cascade_probability parent * ce_dependency_score edge" using up by auto
    have "0 \<le> rn_cascade_probability parent \<and> rn_cascade_probability parent \<le> 1"
      using less.hyps [of parent] p(1,2) e(3) by (auto dest: dget_Some_mem)
    with sh p(3) e(2) show ?thesis by (simp add: share_edge_def mult_le_one)
  qed
qed

definition risk_within_volume :: "CascadeResult \<Rightarrow> bool" where
  "risk_within_volume r \<longleftrightarrow>
     (\<forall>n \<in> set (dvalues (cr_cascade_map r)). 0 \<le> rn_cascade_probability n \<and> rn_cascade_probability n \<le> 1 \<and>
        0 < rn_incoming_volume_at_risk_usd n) \<and>
     0 \<le> cr_total_value_at_risk_usd r \<and>
     cr_total_value_at_risk_usd r \<le> sum_list (map rn_incoming_volume_at_risk_usd (dvalues (cr_cascade_map r)))"

lemma propagate_within_volume:
  assumes share: "\<And>s. \<forall>ce \<in> snd ` set (neighbours (cg_adjacency graph) s). share_edge ce"
  shows "risk_within_volume (propagate now graph origin threshold max_hops trigger_type)"
proof -
  let ?r = "propagate now graph origin threshold max_hops trigger_type"
  obtain m where "cascade_tree (cg_adjacency graph) origin threshold max_hops m"
    "cr_cascade_map ?r = downstream_pass m" "cr_total_value_at_risk_usd ?r = total_at_risk (downstream_pass m)"
    using propagate_map by blast
  then have tree: "cascade_tree (cg_adjacency graph) origin threshold max_hops (cr_cascade_map ?r)"
    and total: "cr_total_value_at_risk_usd ?r = total_at_risk (cr_cascade_map ?r)"
    using downstream_pass_facts cascade_tree_cong by metis+
  have n: "0 \<le> rn_cascade_probability n \<and> rn_cascade_probability n \<le> 1 \<and> 0 < rn_incoming_volume_at_risk_usd n"
    if "n \<in> set (dvalues (cr_cascade_map ?r))" for n
    using that cascade_shrinks [OF tree share] by (auto simp: dvalues_def)
  then have own: "0 \<le> own_risk n \<and> own_risk n \<le> rn_incoming_volume_at_risk_usd n"
    if "n \<in> set (dvalues (cr_cascade_map ?r))" for n
    using that by (simp add: own_risk_def mult_left_le_one_le less_imp_le)
  then have "0 \<le> total_at_risk (cr_cascade_map ?r)"
    "total_at_risk (cr_cascade_map ?r) \<le> sum_list (map rn_incoming_volume_at_risk_usd (dvalues (cr_cascade_map ?r)))"
    unfolding total_at_risk_def by (auto intro!: sum_list_nonneg sum_list_mono)
  with n total show ?thesis by (simp add: risk_within_volume_def)
qed

text \<open>C33: From payments to a cascade: over the corporate graph of positive payments (at most ten to the twentieth), every
  failure propagates with probabilities between zero and one and positive volumes, so that no more is at risk
  than the volume of the edges the cascade runs over.\<close>

theorem cascade_within_payments:
  assumes "\<forall>e \<in> set es. 0 < pe_amount_usd e" "length es \<le> 10 ^ 20"
  shows "\<exists>cg. resolve r now (build_graph (add_payments es (new_graph_builder t0))) = Inr cg \<and>
    (\<forall>t origin threshold max_hops trigger_type. risk_within_volume (propagate t cg origin threshold max_hops trigger_type))"
proof -
  obtain cg where "resolve r now (build_graph (add_payments es (new_graph_builder t0))) = Inr cg"
    and share: "\<And>s. \<forall>ce \<in> snd ` set (neighbours (cg_adjacency cg) s). share_edge ce"
    using resolve_payments [OF assms] by blast
  with propagate_within_volume [OF share] show ?thesis by blast
qed

section \<open>Two banks that pay a third\<close>

definition bank_payment :: "string \<Rightarrow> string \<Rightarrow> pyfloat \<Rightarrow> PaymentEdge" where
  "bank_payment from_bic to_bic amount = \<lparr> pe_uetr = ''u'', pe_sending_bic = from_bic, pe_receiving_bic = to_bic,
     pe_amount_usd = amount, pe_currency_pair = ''EUR_USD'', pe_timestamp = 0, pe_dependency_score = 0,
     pe_observation_count = 0, pe_failed = False \<rparr>"

definition example_payments :: "PaymentEdge list" where
  "example_payments = [bank_payment ''AAAADEFF'' ''CCCCUS33'' 100, bank_payment ''BBBBDEFF'' ''CCCCUS33'' 300]"

definition example_resolver :: CorporateEntityResolver where
  "example_resolver = \<lparr> er_mapping = [''AAAADEFF'' \<mapsto> ''ACME'', ''BBBBDEFF'' \<mapsto> ''ACME'', ''CCCCUS33'' \<mapsto> ''CORP''],
     er_metadata = Map.empty \<rparr>"


theorem cascade_within_payments_witness:
  "\<exists>cg. resolve example_resolver 0 (build_graph (add_payments example_payments (new_graph_builder 0))) = Inr cg \<and>
    (\<forall>t origin threshold max_hops trigger_type. risk_within_volume (propagate t cg origin threshold max_hops trigger_type))"
  by (rule cascade_within_payments) (simp_all add: example_payments_def bank_payment_def)

text \<open>A payment of nothing to a bank that has got nothing yet raises, and leaves an edge in the indices that the list of
  all edges lacks.\<close>

lemma zero_payment_half_recorded:
  "let (result, b) = add_payment (bank_payment ''AAAADEFF'' ''CCCCUS33'' 0) (new_graph_builder 0)
   in result = Inl OtherException \<and> gb_all_edges b = [] \<and>
      length (value_or [] (dget (gb_in_edges b) ''CCCCUS33'')) = 1"
  by code_simp

end
