(* ===== verification/Anonymizer.thy ===== *)
theory Anonymizer
  imports Py_Decimal Py_Month
begin

text \<open>
  What regulators get to see of the banks' telemetry (\<open>lip/p10_regulatory_data/anonymizer.py\<close>, over
  \<open>privacy_budget.py\<close>).  The noise is drawn from numpy's generator, a parameter: draw number \<open>i\<close> with scale
  \<open>b\<close> is \<open>laplace i b\<close>.  Of a batch only the bank, the start of its hour and the counts per corridor are read.

  Shown: over any history of batches and resets, in every cycle the noised results released for a corridor cost no more
  than its budget, at three times epsilon each; every number released is the true one over at least \<open>k\<close> banks
  plus a draw at the scale of its sensitivity; and no two noised results share a draw.
\<close>

section \<open>The budget of a corridor\<close>

record CorridorBudget =
  cb_budget_remaining :: dec
  cb_queries_executed :: int
  cb_cycle_start :: time

record PrivacyBudgetTracker =
  pb_budget_per_cycle :: dec
  pb_corridors :: "(string, CorridorBudget) dict"

record PrivacyBudgetStatus =
  ps_corridor :: string
  ps_budget_total :: pyfloat
  ps_budget_spent :: pyfloat
  ps_budget_remaining :: pyfloat
  ps_queries_executed :: int
  ps_cycle_start :: time
  ps_is_exhausted :: bool

definition ensure_corridor :: "time \<Rightarrow> string \<Rightarrow> PrivacyBudgetTracker \<Rightarrow> CorridorBudget \<times> PrivacyBudgetTracker" where
  "ensure_corridor now corridor t =
     (case dget (pb_corridors t) corridor of
        Some cb \<Rightarrow> (cb, t)
      | None \<Rightarrow>
          let cb = \<lparr> cb_budget_remaining = pb_budget_per_cycle t, cb_queries_executed = 0, cb_cycle_start = now \<rparr>
          in (cb, t\<lparr>pb_corridors := dset corridor cb (pb_corridors t)\<rparr>))"

definition deduct :: "time \<Rightarrow> string \<Rightarrow> dec \<Rightarrow> PrivacyBudgetTracker \<Rightarrow> (py_exc + unit) \<times> PrivacyBudgetTracker" where
  "deduct now corridor epsilon t =
     (let (cb, t) = ensure_corridor now corridor t
      in if cb_budget_remaining cb < epsilon then (Inl ValueError, t)
         else (Inr (), t\<lparr>pb_corridors := dset corridor
                 (cb\<lparr>cb_budget_remaining := dsub (cb_budget_remaining cb) epsilon,
                     cb_queries_executed := cb_queries_executed cb + 1\<rparr>) (pb_corridors t)\<rparr>))"

definition has_budget :: "time \<Rightarrow> string \<Rightarrow> dec \<Rightarrow> PrivacyBudgetTracker \<Rightarrow> bool \<times> PrivacyBudgetTracker" where
  "has_budget now corridor epsilon t =
     (let (cb, t) = ensure_corridor now corridor t in (cb_budget_remaining cb \<ge> epsilon, t))"

definition budget_status :: "time \<Rightarrow> string \<Rightarrow> PrivacyBudgetTracker \<Rightarrow> PrivacyBudgetStatus \<times> PrivacyBudgetTracker" where
  "budget_status now corridor t =
     (let (cb, t) = ensure_corridor now corridor t
      in (\<lparr> ps_corridor = corridor, ps_budget_total = pb_budget_per_cycle t,
            ps_budget_spent = dsub (pb_budget_per_cycle t) (cb_budget_remaining cb),
            ps_budget_remaining = cb_budget_remaining cb, ps_queries_executed = cb_queries_executed cb,
            ps_cycle_start = cb_cycle_start cb, ps_is_exhausted = (cb_budget_remaining cb \<le> 0) \<rparr>, t))"

definition reset_all :: "PrivacyBudgetTracker \<Rightarrow> PrivacyBudgetTracker" where
  "reset_all t = t\<lparr>pb_corridors := []\<rparr>"

section \<open>The anonymizer\<close>

record CorridorStatistic =
  cst_corridor :: string
  cst_total_payments :: int
  cst_failed_payments :: int

text \<open>The hour of a date, as its fields.\<close>

record hour_of =
  ho_year :: nat
  ho_month :: int
  ho_day :: int
  ho_hour :: int

record TelemetryBatch =
  tb_bank_hash :: string
  tb_period_start :: hour_of
  tb_corridor_statistics :: "CorridorStatistic list"

record AnonymizedCorridorResult =
  ar_corridor :: string
  ar_period_label :: string
  ar_total_payments :: int
  ar_failed_payments :: int
  ar_failure_rate :: pyfloat
  ar_bank_count :: nat
  ar_k_anonymity_satisfied :: bool
  ar_privacy_budget_remaining :: pyfloat
  ar_noise_applied :: bool
  ar_stale :: bool

record RegulatoryAnonymizer =
  an_k :: nat
  an_epsilon :: dec
  an_budget :: PrivacyBudgetTracker
  an_draws :: nat
  an_cache :: "(string, AnonymizedCorridorResult) dict"
  an_suppression_count :: int
  an_total_corridors_evaluated :: int

definition new_anonymizer :: "nat \<Rightarrow> dec \<Rightarrow> dec \<Rightarrow> RegulatoryAnonymizer" where
  "new_anonymizer k epsilon budget_per_cycle =
     \<lparr> an_k = k, an_epsilon = epsilon, an_budget = \<lparr> pb_budget_per_cycle = budget_per_cycle, pb_corridors = [] \<rparr>,
       an_draws = 0, an_cache = [], an_suppression_count = 0, an_total_corridors_evaluated = 0 \<rparr>"

definition compute_period_label :: "hour_of \<Rightarrow> string" where
  "compute_period_label h =
     nat_text (ho_year h) @ ''-'' @ two_digits (ho_month h) @ ''-'' @ two_digits (ho_day h) @ ''T'' @
     two_digits (ho_hour h) @ '':00Z''"

type_synonym laplace = "nat \<Rightarrow> pyfloat \<Rightarrow> pyfloat"

definition apply_laplace_noise :: "laplace \<Rightarrow> pyfloat \<Rightarrow> pyfloat \<Rightarrow> RegulatoryAnonymizer \<Rightarrow>
    (py_exc + pyfloat) \<times> RegulatoryAnonymizer" where
  "apply_laplace_noise laplace val sensitivity a =
     (if an_epsilon a = 0 then (Inl OtherException, a)
      else (Inr (max 0 (val + laplace (an_draws a) (sensitivity / an_epsilon a))), a\<lparr>an_draws := an_draws a + 1\<rparr>))"

definition apply_laplace_noise_for_corridor :: "time \<Rightarrow> laplace \<Rightarrow> string \<Rightarrow> pyfloat \<Rightarrow> pyfloat \<Rightarrow> RegulatoryAnonymizer \<Rightarrow>
    (py_exc + pyfloat) \<times> RegulatoryAnonymizer" where
  "apply_laplace_noise_for_corridor now laplace corridor val sensitivity a =
     (case deduct now corridor (an_epsilon a) (an_budget a) of
        (Inl e, t) \<Rightarrow> (Inl e, a\<lparr>an_budget := t\<rparr>)
      | (Inr _, t) \<Rightarrow> apply_laplace_noise laplace val sensitivity (a\<lparr>an_budget := t\<rparr>))"

text \<open>Calls in sequence on the state of the anonymizer.\<close>

definition an_bind :: "(py_exc + 'a) \<times> RegulatoryAnonymizer \<Rightarrow> ('a \<Rightarrow> RegulatoryAnonymizer \<Rightarrow> (py_exc + 'b) \<times> RegulatoryAnonymizer) \<Rightarrow>
    (py_exc + 'b) \<times> RegulatoryAnonymizer" where
  "an_bind r f = (case r of (Inl e, a) \<Rightarrow> (Inl e, a) | (Inr x, a) \<Rightarrow> f x a)"

definition stale_copy :: "nat \<Rightarrow> pyfloat \<Rightarrow> AnonymizedCorridorResult \<Rightarrow> AnonymizedCorridorResult" where
  "stale_copy bank_count remaining r = r\<lparr>ar_bank_count := bank_count, ar_k_anonymity_satisfied := True,
     ar_privacy_budget_remaining := remaining, ar_stale := True\<rparr>"

definition noised_result :: "time \<Rightarrow> laplace \<Rightarrow> string \<Rightarrow> string \<Rightarrow> nat \<Rightarrow> CorridorStatistic list \<Rightarrow> RegulatoryAnonymizer \<Rightarrow>
    (py_exc + AnonymizedCorridorResult) \<times> RegulatoryAnonymizer" where
  "noised_result now laplace period_label corridor bank_count stats a =
     (let total_payments = sum_list (map cst_total_payments stats);
          failed_payments = sum_list (map cst_failed_payments stats);
          raw_failure_rate = (if total_payments > 0 then of_int failed_payments / of_int total_payments else 0);
          sensitivity = (if total_payments > 0 then 1 / of_int total_payments else 1)
      in an_bind (apply_laplace_noise_for_corridor now laplace corridor raw_failure_rate sensitivity a) (\<lambda>noised_rate a.
         an_bind (apply_laplace_noise_for_corridor now laplace corridor (of_int total_payments) 1 a) (\<lambda>total a.
         an_bind (apply_laplace_noise_for_corridor now laplace corridor (of_int failed_payments) 1 a) (\<lambda>failed a.
           let noised_total = max 0 (round_half_even total);
               noised_failed = min (max 0 (round_half_even failed)) noised_total;
               (status, t) = budget_status now corridor (an_budget a);
               result = \<lparr> ar_corridor = corridor, ar_period_label = period_label, ar_total_payments = noised_total,
                 ar_failed_payments = noised_failed, ar_failure_rate = noised_rate, ar_bank_count = bank_count,
                 ar_k_anonymity_satisfied = True, ar_privacy_budget_remaining = ps_budget_remaining status,
                 ar_noise_applied = True, ar_stale = False \<rparr>
           in (Inr result, a\<lparr>an_budget := t,
                 an_cache := dset (corridor @ '':'' @ period_label) result (an_cache a)\<rparr>)))))"

definition release_corridor :: "time \<Rightarrow> laplace \<Rightarrow> string \<Rightarrow> string \<Rightarrow> string list \<Rightarrow> CorridorStatistic list \<Rightarrow> RegulatoryAnonymizer \<Rightarrow>
    (py_exc + AnonymizedCorridorResult option) \<times> RegulatoryAnonymizer" where
  "release_corridor now laplace period_label corridor bank_set stats a =
     (let a = a\<lparr>an_total_corridors_evaluated := an_total_corridors_evaluated a + 1\<rparr>
      in if \<not> length bank_set \<ge> an_k a then (Inr None, a\<lparr>an_suppression_count := an_suppression_count a + 1\<rparr>)
         else
           let (enough, t) = has_budget now corridor (dmul (an_epsilon a) 3) (an_budget a);
               a = a\<lparr>an_budget := t\<rparr>
           in if \<not> enough then
                (case dget (an_cache a) (corridor @ '':'' @ period_label) of
                   None \<Rightarrow> (Inl RuntimeError, a)
                 | Some r \<Rightarrow>
                     let (status, t) = budget_status now corridor (an_budget a)
                     in (Inr (Some (stale_copy (length bank_set) (ps_budget_remaining status) r)), a\<lparr>an_budget := t\<rparr>))
              else an_bind (noised_result now laplace period_label corridor (length bank_set) stats a) (\<lambda>r a. (Inr (Some r), a)))"

text \<open>The corridors of a list of batches, with the banks that report them and their statistics.\<close>

type_synonym corridor_groups = "(string, string list \<times> CorridorStatistic list) dict"

definition group_statistic :: "string \<Rightarrow> CorridorStatistic \<Rightarrow> corridor_groups \<Rightarrow> corridor_groups" where
  "group_statistic bank_hash cs groups =
     (let (banks, stats) = value_or ([], []) (dget groups (cst_corridor cs))
      in dset (cst_corridor cs) (List.insert bank_hash banks, stats @ [cs]) groups)"

definition group_batch :: "TelemetryBatch \<Rightarrow> corridor_groups \<Rightarrow> corridor_groups" where
  "group_batch b = fold (group_statistic (tb_bank_hash b)) (tb_corridor_statistics b)"

fun release_corridors :: "time \<Rightarrow> laplace \<Rightarrow> string \<Rightarrow> corridor_groups \<Rightarrow> RegulatoryAnonymizer \<Rightarrow>
    (py_exc + AnonymizedCorridorResult list) \<times> RegulatoryAnonymizer" where
  "release_corridors now laplace period_label [] a = (Inr [], a)"
| "release_corridors now laplace period_label ((corridor, bank_set, stats) # groups) a =
     an_bind (release_corridor now laplace period_label corridor bank_set stats a) (\<lambda>r a.
     an_bind (release_corridors now laplace period_label groups a) (\<lambda>rs a.
       (Inr (case r of None \<Rightarrow> rs | Some x \<Rightarrow> x # rs), a)))"

definition anonymize_batch :: "time \<Rightarrow> laplace \<Rightarrow> TelemetryBatch list \<Rightarrow> RegulatoryAnonymizer \<Rightarrow>
    (py_exc + AnonymizedCorridorResult list) \<times> RegulatoryAnonymizer" where
  "anonymize_batch now laplace batches a =
     (case batches of
        [] \<Rightarrow> (Inr [], a)
      | b # _ \<Rightarrow> release_corridors now laplace (compute_period_label (tb_period_start b)) (fold group_batch batches []) a)"

definition reset_budget_cycle :: "RegulatoryAnonymizer \<Rightarrow> RegulatoryAnonymizer" where
  "reset_budget_cycle a = a\<lparr>an_budget := reset_all (an_budget a), an_cache := []\<rparr>"

definition suppression_rate :: "RegulatoryAnonymizer \<Rightarrow> pyfloat" where
  "suppression_rate a = (if an_total_corridors_evaluated a = 0 then 0
     else of_int (an_suppression_count a) / of_int (an_total_corridors_evaluated a))"

section \<open>What is left of a budget\<close>

definition left_of :: "PrivacyBudgetTracker \<Rightarrow> string \<Rightarrow> dec" where
  "left_of t corridor =
     (case dget (pb_corridors t) corridor of None \<Rightarrow> pb_budget_per_cycle t | Some cb \<Rightarrow> cb_budget_remaining cb)"

text \<open>Decimals with \<open>s\<close> places after the point.\<close>

definition scaled :: "nat \<Rightarrow> int \<Rightarrow> dec" where "scaled s k = of_int k / 10 ^ s"

lemma scaled_simps [simp]:
  "scaled s a \<le> scaled s b \<longleftrightarrow> a \<le> b" "scaled s a < scaled s b \<longleftrightarrow> a < b" "scaled s a = 0 \<longleftrightarrow> a = 0"
  by (simp_all add: scaled_def divide_le_cancel divide_less_cancel)

lemma ctx_scaled: "\<bar>k\<bar> < 10 ^ 28 \<Longrightarrow> ctx (scaled s k) = scaled s k"
  by (rule ctx_exact [where k = k and e = "- int s"]) (simp_all add: scaled_def power_int_minus divide_inverse)

lemma scaled_sub: "0 \<le> b \<Longrightarrow> b \<le> a \<Longrightarrow> a < 10 ^ 28 \<Longrightarrow> dsub (scaled s a) (scaled s b) = scaled s (a - b)"
  using ctx_scaled [of "a - b" s] by (simp add: dsub_def scaled_def diff_divide_distrib)

lemma scaled_triple: "0 \<le> e \<Longrightarrow> 3 * e < 10 ^ 28 \<Longrightarrow> dmul (scaled s e) 3 = scaled s (3 * e)"
  using ctx_scaled [of "3 * e" s] by (simp add: dmul_def scaled_def mult.commute)

lemma ensure_left:
  assumes "ensure_corridor now corridor t = (cb, t')"
  shows "cb_budget_remaining cb = left_of t corridor" "left_of t' = left_of t"
    "pb_budget_per_cycle t' = pb_budget_per_cycle t"
  using assms by (auto simp: ensure_corridor_def left_of_def Let_def dict_simps split: option.splits)

lemma left_dset:
  "left_of (t\<lparr>pb_corridors := dset corridor cb (pb_corridors t)\<rparr>) = (left_of t)(corridor := cb_budget_remaining cb)"
  by (rule ext) (auto simp: left_of_def dict_simps split: option.split)

lemma has_budget_left:
  assumes "has_budget now corridor epsilon t = (r, t')"
  shows "r \<longleftrightarrow> epsilon \<le> left_of t corridor" "left_of t' = left_of t" "pb_budget_per_cycle t' = pb_budget_per_cycle t"
proof -
  obtain cb t1 where "ensure_corridor now corridor t = (cb, t1)" by fastforce
  with assms ensure_left [OF this] show "r \<longleftrightarrow> epsilon \<le> left_of t corridor" "left_of t' = left_of t"
    "pb_budget_per_cycle t' = pb_budget_per_cycle t" by (auto simp: has_budget_def)
qed

lemma status_left:
  assumes "budget_status now corridor t = (st, t')"
  shows "left_of t' = left_of t" "pb_budget_per_cycle t' = pb_budget_per_cycle t"
proof -
  obtain cb t1 where "ensure_corridor now corridor t = (cb, t1)" by fastforce
  with assms ensure_left [OF this] show "left_of t' = left_of t" "pb_budget_per_cycle t' = pb_budget_per_cycle t"
    by (auto simp: budget_status_def)
qed

lemma deduct_left:
  assumes "left_of t corridor = scaled s j" "0 \<le> e" "e \<le> j" "j < 10 ^ 28"
  shows "\<exists>t'. deduct now corridor (scaled s e) t = (Inr (), t') \<and>
    left_of t' = (left_of t)(corridor := scaled s (j - e)) \<and> pb_budget_per_cycle t' = pb_budget_per_cycle t"
proof -
  obtain cb t1 where c: "ensure_corridor now corridor t = (cb, t1)" by fastforce
  note L = ensure_left [OF c]
  have "dsub (cb_budget_remaining cb) (scaled s e) = scaled s (j - e)" using L(1) assms by (simp add: scaled_sub)
  with L c assms show ?thesis by (simp add: deduct_def left_dset)
qed

section \<open>What a noised result says\<close>

text \<open>The statistics that a list of batches reports for a corridor, and the distinct banks that report it.\<close>

definition reported :: "string \<Rightarrow> TelemetryBatch list \<Rightarrow> CorridorStatistic list" where
  "reported c batches = filter (\<lambda>cs. cst_corridor cs = c) (concat (map tb_corridor_statistics batches))"

definition reporting_banks :: "string \<Rightarrow> TelemetryBatch list \<Rightarrow> string set" where
  "reporting_banks c batches = tb_bank_hash ` {b \<in> set batches. c \<in> cst_corridor ` set (tb_corridor_statistics b)}"

definition count_scale :: "dec \<Rightarrow> pyfloat" where "count_scale epsilon = 1 / epsilon"

text \<open>Laplace noise on a count, at sensitivity one: draw number \<open>d\<close> at scale \<open>1 / epsilon\<close>, clamped at zero and rounded.\<close>

definition noised_count :: "laplace \<Rightarrow> dec \<Rightarrow> nat \<Rightarrow> int \<Rightarrow> int" where
  "noised_count laplace epsilon d n = max 0 (round_half_even (max 0 (of_int n + laplace d (count_scale epsilon))))"

text \<open>The numbers of a result are the failure rate, the payments and the failures of the statistics, with draws
  \<open>d\<close>, \<open>d + 1\<close> and \<open>d + 2\<close> at the scale of their sensitivity; failures at most the payments.\<close>

definition numbers_noised :: "laplace \<Rightarrow> dec \<Rightarrow> nat \<Rightarrow> CorridorStatistic list \<Rightarrow> AnonymizedCorridorResult \<Rightarrow> bool" where
  "numbers_noised laplace epsilon d stats r \<longleftrightarrow>
     (let total = sum_list (map cst_total_payments stats); failed = sum_list (map cst_failed_payments stats);
          rate = (if 0 < total then of_int failed / of_int total else 0);
          sensitivity = (if 0 < total then 1 / of_int total else 1)
      in ar_failure_rate r = max 0 (rate + laplace d (sensitivity / epsilon)) \<and>
         ar_total_payments r = noised_count laplace epsilon (d + 1) total \<and>
         ar_failed_payments r = min (noised_count laplace epsilon (d + 2) failed) (ar_total_payments r))"

text \<open>A result made from the batches of one call: noise on what they report for its corridor, over \<open>k\<close> banks or more.\<close>

definition made_from :: "laplace \<Rightarrow> dec \<Rightarrow> nat \<Rightarrow> nat \<Rightarrow> TelemetryBatch list \<Rightarrow> AnonymizedCorridorResult \<Rightarrow> bool" where
  "made_from laplace epsilon k d batches r \<longleftrightarrow>
     k \<le> card (reporting_banks (ar_corridor r) batches) \<and>
     numbers_noised laplace epsilon d (reported (ar_corridor r) batches) r"

definition made_earlier :: "laplace \<Rightarrow> dec \<Rightarrow> nat \<Rightarrow> TelemetryBatch list list \<Rightarrow> AnonymizedCorridorResult \<Rightarrow> bool" where
  "made_earlier laplace epsilon k calls r \<longleftrightarrow> (\<exists>batches \<in> set calls. \<exists>d. made_from laplace epsilon k d batches r)"

lemma made_from_stale [simp]: "made_from laplace epsilon k d batches (stale_copy n p r) = made_from laplace epsilon k d batches r"
  by (simp add: made_from_def numbers_noised_def stale_copy_def)

lemma made_earlier_stale [simp]: "made_earlier laplace epsilon k calls (stale_copy n p r) = made_earlier laplace epsilon k calls r"
  by (simp add: made_earlier_def)

lemma made_earlier_mono: "made_earlier laplace epsilon k calls r \<Longrightarrow> set calls \<subseteq> set calls' \<Longrightarrow> made_earlier laplace epsilon k calls' r"
  by (auto simp: made_earlier_def)

section \<open>The groups of a list of batches\<close>

definition banks_in :: "corridor_groups \<Rightarrow> string \<Rightarrow> string list" where
  "banks_in groups c = fst (value_or ([], []) (dget groups c))"

definition stats_in :: "corridor_groups \<Rightarrow> string \<Rightarrow> CorridorStatistic list" where
  "stats_in groups c = snd (value_or ([], []) (dget groups c))"

lemma group_statistic_banks:
  "banks_in (group_statistic h cs groups) c =
     (if cst_corridor cs = c then List.insert h (banks_in groups c) else banks_in groups c)"
  "stats_in (group_statistic h cs groups) c =
     (if cst_corridor cs = c then stats_in groups c @ [cs] else stats_in groups c)"
  by (auto simp: banks_in_def stats_in_def group_statistic_def dict_simps split: prod.split)

lemma group_batch_in:
  "set (banks_in (group_batch b groups) c) =
     set (banks_in groups c) \<union> (if c \<in> cst_corridor ` set (tb_corridor_statistics b) then {tb_bank_hash b} else {})"
  "distinct (banks_in groups c) \<Longrightarrow> distinct (banks_in (group_batch b groups) c)"
  "dict_ok groups \<Longrightarrow> dict_ok (group_batch b groups)"
  "stats_in (group_batch b groups) c =
     stats_in groups c @ filter (\<lambda>cs. cst_corridor cs = c) (tb_corridor_statistics b)"
proof -
  have ok: "dict_ok (group_statistic h cs gs)" if "dict_ok gs" for h cs gs
    using that by (simp add: group_statistic_def split: prod.split)
  have "set (banks_in (fold (group_statistic h) css gs) c) =
      set (banks_in gs c) \<union> (if c \<in> cst_corridor ` set css then {h} else {}) \<and>
    (distinct (banks_in gs c) \<longrightarrow> distinct (banks_in (fold (group_statistic h) css gs) c)) \<and>
    (dict_ok gs \<longrightarrow> dict_ok (fold (group_statistic h) css gs)) \<and>
    stats_in (fold (group_statistic h) css gs) c = stats_in gs c @ filter (\<lambda>cs. cst_corridor cs = c) css" for h css gs
    by (induction css arbitrary: gs) (auto simp: group_statistic_banks ok)
  then show "set (banks_in (group_batch b groups) c) =
      set (banks_in groups c) \<union> (if c \<in> cst_corridor ` set (tb_corridor_statistics b) then {tb_bank_hash b} else {})"
    "distinct (banks_in groups c) \<Longrightarrow> distinct (banks_in (group_batch b groups) c)"
    "dict_ok groups \<Longrightarrow> dict_ok (group_batch b groups)"
    "stats_in (group_batch b groups) c =
       stats_in groups c @ filter (\<lambda>cs. cst_corridor cs = c) (tb_corridor_statistics b)" by (simp_all add: group_batch_def)
qed

lemma groups_report:
  assumes "(c, banks, stats) \<in> set (fold group_batch batches [])"
  shows "length banks = card (reporting_banks c batches)" "stats = reported c batches"
proof -
  have "set (banks_in (fold group_batch batches gs) c) = set (banks_in gs c) \<union> reporting_banks c batches \<and>
      (distinct (banks_in gs c) \<longrightarrow> distinct (banks_in (fold group_batch batches gs) c)) \<and>
      (dict_ok gs \<longrightarrow> dict_ok (fold group_batch batches gs)) \<and>
      stats_in (fold group_batch batches gs) c = stats_in gs c @ reported c batches" for gs
    by (induction batches arbitrary: gs) (auto simp: reporting_banks_def reported_def group_batch_in)
  from this [of "[]"] have F: "set (banks_in (fold group_batch batches []) c) = reporting_banks c batches"
    "distinct (banks_in (fold group_batch batches []) c)" "dict_ok (fold group_batch batches [])"
    "stats_in (fold group_batch batches []) c = reported c batches"
    by (simp_all add: banks_in_def stats_in_def)
  have "dget (fold group_batch batches []) c = Some (banks, stats)" using assms F(3) by (simp add: mem_dget)
  then have "banks_in (fold group_batch batches []) c = banks" "stats_in (fold group_batch batches []) c = stats"
    by (simp_all add: banks_in_def stats_in_def)
  with F show "length banks = card (reporting_banks c batches)" "stats = reported c batches"
    by (auto dest: distinct_card)
qed

section \<open>The anonymizer keeps its budgets\<close>

definition released_ok :: "laplace \<Rightarrow> dec \<Rightarrow> nat \<Rightarrow> TelemetryBatch list list \<Rightarrow> AnonymizedCorridorResult \<Rightarrow> bool" where
  "released_ok laplace epsilon k calls r \<longleftrightarrow>
     ar_noise_applied r \<and> ar_k_anonymity_satisfied r \<and> k \<le> ar_bank_count r \<and> made_earlier laplace epsilon k calls r"

lemma released_ok_mono:
  "released_ok laplace epsilon k calls r \<Longrightarrow> set calls \<subseteq> set calls' \<Longrightarrow> released_ok laplace epsilon k calls' r"
  by (auto simp: released_ok_def intro: made_earlier_mono)

definition an_ok :: "laplace \<Rightarrow> nat \<Rightarrow> int \<Rightarrow> int \<Rightarrow> nat \<Rightarrow> TelemetryBatch list list \<Rightarrow> RegulatoryAnonymizer \<Rightarrow> bool" where
  "an_ok laplace s e B k calls a \<longleftrightarrow>
     an_k a = k \<and> an_epsilon a = scaled s e \<and> pb_budget_per_cycle (an_budget a) = scaled s B \<and>
     (\<forall>c. \<exists>j. 0 \<le> j \<and> j \<le> B \<and> left_of (an_budget a) c = scaled s j) \<and>
     (\<forall>r \<in> set (dvalues (an_cache a)). released_ok laplace (scaled s e) k calls r)"

lemma laplace_for_corridor:
  assumes "an_epsilon a = scaled s e" "0 < e" "left_of (an_budget a) corridor = scaled s j" "e \<le> j" "j < 10 ^ 28"
  shows "\<exists>a'. apply_laplace_noise_for_corridor now laplace corridor v sen a =
      (Inr (max 0 (v + laplace (an_draws a) (sen / scaled s e))), a') \<and>
    left_of (an_budget a') = (left_of (an_budget a))(corridor := scaled s (j - e)) \<and>
    pb_budget_per_cycle (an_budget a') = pb_budget_per_cycle (an_budget a) \<and>
    an_k a' = an_k a \<and> an_epsilon a' = an_epsilon a \<and> an_cache a' = an_cache a \<and> an_draws a' = an_draws a + 1"
proof -
  obtain t where "deduct now corridor (scaled s e) (an_budget a) = (Inr (), t)"
    "left_of t = (left_of (an_budget a))(corridor := scaled s (j - e))"
    "pb_budget_per_cycle t = pb_budget_per_cycle (an_budget a)"
    using deduct_left [OF assms(3) _ assms(4,5), of now] assms(2) by auto
  with assms(1,2) show ?thesis by (simp add: apply_laplace_noise_for_corridor_def apply_laplace_noise_def)
qed

lemma noised_result_ok:
  assumes e: "an_epsilon a = scaled s e" "0 < e" and j: "left_of (an_budget a) corridor = scaled s j" "3 * e \<le> j" "j < 10 ^ 28"
  shows "\<exists>r a'. noised_result now laplace period_label corridor n stats a = (Inr r, a') \<and>
    ar_corridor r = corridor \<and> \<not> ar_stale r \<and> ar_bank_count r = n \<and> ar_noise_applied r \<and> ar_k_anonymity_satisfied r \<and>
    numbers_noised laplace (scaled s e) (an_draws a) stats r \<and> an_draws a' = an_draws a + 3 \<and>
    left_of (an_budget a') = (left_of (an_budget a))(corridor := scaled s (j - 3 * e)) \<and>
    pb_budget_per_cycle (an_budget a') = pb_budget_per_cycle (an_budget a) \<and>
    an_k a' = an_k a \<and> an_epsilon a' = an_epsilon a \<and> an_cache a' = dset (corridor @ '':'' @ period_label) r (an_cache a)"
proof -
  let ?total = "sum_list (map cst_total_payments stats)" and ?failed = "sum_list (map cst_failed_payments stats)"
  let ?rate = "if ?total > 0 then of_int ?failed / of_int ?total else 0 :: rat"
  let ?sen = "if ?total > 0 then 1 / of_int ?total else 1 :: rat"
  obtain a1 where 1: "apply_laplace_noise_for_corridor now laplace corridor ?rate ?sen a =
      (Inr (max 0 (?rate + laplace (an_draws a) (?sen / scaled s e))), a1)"
    "left_of (an_budget a1) = (left_of (an_budget a))(corridor := scaled s (j - e))"
    "pb_budget_per_cycle (an_budget a1) = pb_budget_per_cycle (an_budget a)"
    "an_k a1 = an_k a" "an_epsilon a1 = an_epsilon a" "an_cache a1 = an_cache a" "an_draws a1 = an_draws a + 1"
    using laplace_for_corridor [OF e j(1), of now laplace ?rate ?sen] e(2) j(2,3) by fastforce
  have j1: "left_of (an_budget a1) corridor = scaled s (j - e)" "an_epsilon a1 = scaled s e" using 1 e by simp_all
  obtain a2 where 2: "apply_laplace_noise_for_corridor now laplace corridor (of_int ?total) 1 a1 =
      (Inr (max 0 (of_int ?total + laplace (an_draws a + 1) (count_scale (scaled s e)))), a2)"
    "left_of (an_budget a2) = (left_of (an_budget a1))(corridor := scaled s (j - e - e))"
    "pb_budget_per_cycle (an_budget a2) = pb_budget_per_cycle (an_budget a1)"
    "an_k a2 = an_k a1" "an_epsilon a2 = an_epsilon a1" "an_cache a2 = an_cache a1" "an_draws a2 = an_draws a + 2"
    using laplace_for_corridor [OF j1(2) e(2) j1(1), of now laplace "of_int ?total" 1] e(2) j(2,3) 1(7)
    by (fastforce simp: count_scale_def)
  have j2: "left_of (an_budget a2) corridor = scaled s (j - e - e)" "an_epsilon a2 = scaled s e" using 2 j1 by simp_all
  obtain a3 where 3: "apply_laplace_noise_for_corridor now laplace corridor (of_int ?failed) 1 a2 =
      (Inr (max 0 (of_int ?failed + laplace (an_draws a + 2) (count_scale (scaled s e)))), a3)"
    "left_of (an_budget a3) = (left_of (an_budget a2))(corridor := scaled s (j - e - e - e))"
    "pb_budget_per_cycle (an_budget a3) = pb_budget_per_cycle (an_budget a2)"
    "an_k a3 = an_k a2" "an_epsilon a3 = an_epsilon a2" "an_cache a3 = an_cache a2" "an_draws a3 = an_draws a + 3"
    using laplace_for_corridor [OF j2(2) e(2) j2(1), of now laplace "of_int ?failed" 1] e(2) j(2,3) 2(7)
    by (fastforce simp: count_scale_def)
  obtain st t where st: "budget_status now corridor (an_budget a3) = (st, t)" by fastforce
  have "j - e - e - e = j - 3 * e" by simp
  with 1 2 3 st status_left [OF st] show ?thesis
    by (simp add: noised_result_def Let_def an_bind_def numbers_noised_def noised_count_def)
qed

definition fresh :: "string \<Rightarrow> AnonymizedCorridorResult \<Rightarrow> bool" where
  "fresh c r \<longleftrightarrow> ar_corridor r = c \<and> \<not> ar_stale r"

lemma cached_ok:
  "an_ok laplace s e B k calls a \<Longrightarrow> dget (an_cache a) key = Some r \<Longrightarrow> released_ok laplace (scaled s e) k calls r"
  by (force simp: an_ok_def dvalues_def dest: dget_Some_mem)

lemma an_ok_left:
  assumes "an_ok laplace s e B k calls a" "left_of (an_budget a') = left_of (an_budget a)"
    "pb_budget_per_cycle (an_budget a') = pb_budget_per_cycle (an_budget a)"
    "an_k a' = an_k a" "an_epsilon a' = an_epsilon a" "an_cache a' = an_cache a"
  shows "an_ok laplace s e B k calls a'"
  using assms by (simp add: an_ok_def)

lemma an_ok_mono:
  "an_ok laplace s e B k calls a \<Longrightarrow> set calls \<subseteq> set calls' \<Longrightarrow> an_ok laplace s e B k calls' a"
  unfolding an_ok_def by (auto intro: released_ok_mono)

lemma set_dvalues_dset: "set (dvalues (dset key r d)) \<subseteq> insert r (set (dvalues d))"
  by (induction d) (auto simp: dvalues_def)

lemma an_ok_spend:
  assumes a: "an_ok laplace s e B k calls a" and e: "0 < e" and j: "left_of (an_budget a) corridor = scaled s j" "3 * e \<le> j"
    and left: "left_of (an_budget a') = (left_of (an_budget a))(corridor := scaled s (j - 3 * e))"
    and same: "pb_budget_per_cycle (an_budget a') = pb_budget_per_cycle (an_budget a)" "an_k a' = an_k a"
      "an_epsilon a' = an_epsilon a" "an_cache a' = dset key r (an_cache a)"
    and r: "released_ok laplace (scaled s e) k calls r"
  shows "an_ok laplace s e B k calls a'"
proof -
  have "j \<le> B" using a j(1) unfolding an_ok_def by (metis scaled_simps(1))
  then have "\<exists>j'. 0 \<le> j' \<and> j' \<le> B \<and> left_of (an_budget a') c = scaled s j'" for c
    using a e j(2) by (cases "c = corridor") (auto simp: left an_ok_def intro!: exI [of _ "j - 3 * e"])
  with a same r set_dvalues_dset [of key r "an_cache a"] show ?thesis unfolding an_ok_def by auto
qed

text \<open>What the release of one corridor does: a noised result is charged three epsilon and takes three draws.\<close>

definition release_effect :: "laplace \<Rightarrow> nat \<Rightarrow> int \<Rightarrow> nat \<Rightarrow> TelemetryBatch list \<Rightarrow> TelemetryBatch list list \<Rightarrow> nat \<Rightarrow> string \<Rightarrow>
    RegulatoryAnonymizer \<Rightarrow> RegulatoryAnonymizer \<Rightarrow> py_exc + AnonymizedCorridorResult option \<Rightarrow> bool" where
  "release_effect laplace s e k batches calls n corridor a a' res \<longleftrightarrow>
     (case res of
        Inr (Some r) \<Rightarrow> released_ok laplace (scaled s e) k (batches # calls) r \<and> ar_bank_count r = n \<and>
          (if ar_stale r then left_of (an_budget a') = left_of (an_budget a) \<and> an_draws a' = an_draws a
           else ar_corridor r = corridor \<and> made_from laplace (scaled s e) k (an_draws a) batches r \<and>
             an_draws a' = an_draws a + 3 \<and>
             left_of (an_budget a') = (left_of (an_budget a))(corridor := left_of (an_budget a) corridor - scaled s (3 * e)))
      | _ \<Rightarrow> left_of (an_budget a') = left_of (an_budget a) \<and> an_draws a' = an_draws a)"

lemma release_corridor_ok:
  assumes a: "an_ok laplace s e B k (batches # calls) a" and e: "0 < e" "3 * e < 10 ^ 28" and B: "B < 10 ^ 28"
    and group: "length bank_set = card (reporting_banks corridor batches)" "stats = reported corridor batches"
    and run: "release_corridor now laplace period_label corridor bank_set stats a = (res, a')"
  shows "an_ok laplace s e B k (batches # calls) a' \<and>
    release_effect laplace s e k batches calls (length bank_set) corridor a a' res"
proof -
  define a1 where "a1 = a\<lparr>an_total_corridors_evaluated := an_total_corridors_evaluated a + 1\<rparr>"
  obtain enough t where hb: "has_budget now corridor (scaled s (3 * e)) (an_budget a) = (enough, t)" by fastforce
  note hb' = has_budget_left [OF hb]
  define a2 where "a2 = a1\<lparr>an_budget := t\<rparr>"
  have ok2: "an_ok laplace s e B k (batches # calls) a2" and left2: "left_of (an_budget a2) = left_of (an_budget a)"
    and draws2: "an_draws a2 = an_draws a"
    using an_ok_left [OF a] hb' by (simp_all add: a1_def a2_def)
  have eps: "an_epsilon a = scaled s e" "an_k a = k" using a by (simp_all add: an_ok_def)
  have run': "release_corridor now laplace period_label corridor bank_set stats a =
      (if \<not> k \<le> length bank_set then (Inr None, a1\<lparr>an_suppression_count := an_suppression_count a1 + 1\<rparr>)
       else if \<not> enough then
         (case dget (an_cache a2) (corridor @ '':'' @ period_label) of
            None \<Rightarrow> (Inl RuntimeError, a2)
          | Some r \<Rightarrow> let (status, t) = budget_status now corridor (an_budget a2)
              in (Inr (Some (stale_copy (length bank_set) (ps_budget_remaining status) r)), a2\<lparr>an_budget := t\<rparr>))
       else an_bind (noised_result now laplace period_label corridor (length bank_set) stats a2) (\<lambda>r a. (Inr (Some r), a)))"
    using hb eps scaled_triple [of e s] e by (simp add: release_corridor_def Let_def a1_def a2_def split: option.split)
  consider "\<not> k \<le> length bank_set" | "k \<le> length bank_set" "\<not> enough" "dget (an_cache a2) (corridor @ '':'' @ period_label) = None"
    | r where "k \<le> length bank_set" "\<not> enough" "dget (an_cache a2) (corridor @ '':'' @ period_label) = Some r"
    | "k \<le> length bank_set" enough by blast
  then show ?thesis
  proof cases
    case 1
    have "an_ok laplace s e B k (batches # calls) (a1\<lparr>an_suppression_count := an_suppression_count a1 + 1\<rparr>)"
      by (rule an_ok_left [OF a]) (simp_all add: a1_def)
    with 1 run run' show ?thesis by (auto simp: release_effect_def a1_def)
  next
    case 2
    with run run' ok2 left2 draws2 show ?thesis by (auto simp: release_effect_def)
  next
    case 3
    obtain st t' where st: "budget_status now corridor (an_budget a2) = (st, t')" by fastforce
    have "an_ok laplace s e B k (batches # calls) (a2\<lparr>an_budget := t'\<rparr>)"
      using status_left [OF st] by (intro an_ok_left [OF ok2]) simp_all
    moreover have "released_ok laplace (scaled s e) k (batches # calls) (stale_copy (length bank_set) (ps_budget_remaining st) r)"
      using cached_ok [OF ok2 3(3)] 3(1) unfolding released_ok_def made_earlier_stale by (simp add: stale_copy_def)
    ultimately show ?thesis
      using 3 run run' st status_left [OF st] left2 draws2 by (auto simp: release_effect_def stale_copy_def)
  next
    case 4
    obtain j where j: "left_of (an_budget a2) corridor = scaled s j" "j \<le> B" using ok2 unfolding an_ok_def by metis
    have j3: "3 * e \<le> j" using 4 hb'(1) j(1) left2 by simp
    obtain r a3 where r: "noised_result now laplace period_label corridor (length bank_set) stats a2 = (Inr r, a3)"
      "ar_corridor r = corridor" "\<not> ar_stale r" "ar_bank_count r = length bank_set" "ar_noise_applied r" "ar_k_anonymity_satisfied r"
      "numbers_noised laplace (scaled s e) (an_draws a2) stats r" "an_draws a3 = an_draws a2 + 3"
      "left_of (an_budget a3) = (left_of (an_budget a2))(corridor := scaled s (j - 3 * e))"
      "pb_budget_per_cycle (an_budget a3) = pb_budget_per_cycle (an_budget a2)" "an_k a3 = an_k a2"
      "an_epsilon a3 = an_epsilon a2" "an_cache a3 = dset (corridor @ '':'' @ period_label) r (an_cache a2)"
      using noised_result_ok [of a2 s e corridor j now laplace period_label "length bank_set" stats] e(1) j j3 B eps
      by (auto simp: a1_def a2_def)
    have made: "made_from laplace (scaled s e) k (an_draws a) batches r"
      using r(2,7) group draws2 4(1) by (simp add: made_from_def)
    have rok: "released_ok laplace (scaled s e) k (batches # calls) r"
      using r(4-6) 4(1) made by (auto simp: released_ok_def made_earlier_def)
    from an_ok_spend [OF ok2 e(1) j(1) j3 r(9-13) rok] have "an_ok laplace s e B k (batches # calls) a3" .
    moreover have "scaled s (j - 3 * e) = left_of (an_budget a) corridor - scaled s (3 * e)"
      using j(1) left2 by (simp add: scaled_def diff_divide_distrib)
    ultimately show ?thesis using 4 run run' r rok made left2 draws2 by (auto simp: release_effect_def an_bind_def)
  qed
qed

section \<open>Histories\<close>

definition fresh_count :: "string \<Rightarrow> AnonymizedCorridorResult list \<Rightarrow> int" where
  "fresh_count c rs = int (length (filter (fresh c) rs))"

lemma fresh_count_simps [simp]:
  "fresh_count c [] = 0" "fresh_count c (r # rs) = (if fresh c r then 1 else 0) + fresh_count c rs"
  "fresh_count c (rs @ rs') = fresh_count c rs + fresh_count c rs'" "0 \<le> fresh_count c rs"
  by (simp_all add: fresh_count_def)

text \<open>A result that was released, with the batches of its call and, behind them, those of the earlier calls of its cycle.\<close>

type_synonym release = "TelemetryBatch list list \<times> AnonymizedCorridorResult"

text \<open>A result stands for a corridor of its call: it counts the distinct banks that report it.\<close>

definition counts_banks :: "nat \<Rightarrow> TelemetryBatch list \<Rightarrow> AnonymizedCorridorResult \<Rightarrow> bool" where
  "counts_banks k batches r \<longleftrightarrow> k \<le> ar_bank_count r \<and>
     (\<exists>c. ar_bank_count r = card (reporting_banks c batches) \<and> (\<not> ar_stale r \<longrightarrow> ar_corridor r = c))"

text \<open>Each noised result is made from its own call, with three draws of its own, later than those of the results before it;
  a stale one was made, like them, from its own or an earlier call of the cycle.\<close>

fun fresh_noise :: "laplace \<Rightarrow> dec \<Rightarrow> nat \<Rightarrow> nat \<Rightarrow> release list \<Rightarrow> bool" where
  "fresh_noise laplace epsilon k d [] = True"
| "fresh_noise laplace epsilon k d ((calls, r) # releases) =
     (if ar_stale r then made_earlier laplace epsilon k calls r \<and> fresh_noise laplace epsilon k d releases
      else \<exists>d' \<ge> d. made_from laplace epsilon k d' (hd calls) r \<and> fresh_noise laplace epsilon k (d' + 3) releases)"

lemma fresh_noise_mono:
  "fresh_noise laplace epsilon k d releases \<Longrightarrow> d0 \<le> d \<Longrightarrow> fresh_noise laplace epsilon k d0 releases"
  by (induction laplace epsilon k d releases rule: fresh_noise.induct) (auto split: if_splits dest: order_trans)

lemma scaled_mult: "scaled s (a * b) = of_int a * scaled s b"
  by (simp add: scaled_def)

lemma release_corridors_ok:
  assumes "an_ok laplace s e B k (batches # calls) a" "0 < e" "3 * e < 10 ^ 28" "B < 10 ^ 28"
    and "\<forall>(c, banks, stats) \<in> set groups. length banks = card (reporting_banks c batches) \<and> stats = reported c batches"
    and "release_corridors now laplace period_label groups a = (res, a')"
  shows "an_ok laplace s e B k (batches # calls) a' \<and> an_draws a \<le> an_draws a' \<and>
    (case res of
       Inl _ \<Rightarrow> \<forall>c. left_of (an_budget a') c \<le> left_of (an_budget a) c
     | Inr rs \<Rightarrow> (\<forall>c. left_of (an_budget a') c + of_int (fresh_count c rs) * scaled s (3 * e) \<le> left_of (an_budget a) c) \<and>
         (\<forall>r \<in> set rs. ar_noise_applied r \<and> counts_banks k batches r) \<and>
         (\<forall>later. fresh_noise laplace (scaled s e) k (an_draws a') later \<longrightarrow>
            fresh_noise laplace (scaled s e) k (an_draws a) (map (Pair (batches # calls)) rs @ later)))"
  using assms
proof (induction groups arbitrary: a res a')
  case Nil
  then show ?case by auto
next
  case (Cons g groups)
  obtain corridor bank_set stats where g: "g = (corridor, bank_set, stats)" by (cases g)
  with Cons.prems(5) have group: "length bank_set = card (reporting_banks corridor batches)" "stats = reported corridor batches"
    and groups: "\<forall>(c, banks, stats) \<in> set groups. length banks = card (reporting_banks c batches) \<and> stats = reported c batches"
    by simp_all
  obtain r1 a1 where 1: "release_corridor now laplace period_label corridor bank_set stats a = (r1, a1)" by fastforce
  note R = release_corridor_ok [OF Cons.prems(1-4) group 1]
  have pos: "0 \<le> scaled s (3 * e)" using Cons.prems(2) by (simp add: scaled_def)
  have le1: "left_of (an_budget a1) c \<le> left_of (an_budget a) c" for c
    using R pos by (auto simp: release_effect_def split: sum.splits option.splits if_splits)
  have d1: "an_draws a \<le> an_draws a1"
    using R by (auto simp: release_effect_def split: sum.splits option.splits if_splits)
  show ?case
  proof (cases r1)
    case (Inl x)
    with Cons.prems(6) g 1 R le1 d1 show ?thesis by (auto simp: an_bind_def)
  next
    case (Inr o1)
    obtain r2 a2 where 2: "release_corridors now laplace period_label groups a1 = (r2, a2)" by fastforce
    have ok1: "an_ok laplace s e B k (batches # calls) a1" using R by simp
    note IH = Cons.IH [OF ok1 Cons.prems(2-4) groups 2]
    have d2: "an_draws a \<le> an_draws a2" using IH d1 by simp
    show ?thesis
    proof (cases r2)
      case (Inl x)
      then have "\<forall>c. left_of (an_budget a2) c \<le> left_of (an_budget a) c" using IH le1 by (auto intro: order_trans)
      with Cons.prems(6) g 1 2 Inr Inl IH d2 show ?thesis by (auto simp: an_bind_def)
    next
      case r2: (Inr rs)
      have res: "res = Inr (case o1 of None \<Rightarrow> rs | Some x \<Rightarrow> x # rs)" "a' = a2"
        using Cons.prems(6) g 1 2 Inr r2 by (auto simp: an_bind_def)
      have rest: "left_of (an_budget a2) c + of_int (fresh_count c rs) * scaled s (3 * e) \<le> left_of (an_budget a1) c"
        "\<forall>r \<in> set rs. ar_noise_applied r \<and> counts_banks k batches r" "an_ok laplace s e B k (batches # calls) a2"
        and noise: "fresh_noise laplace (scaled s e) k (an_draws a2) later \<Longrightarrow>
          fresh_noise laplace (scaled s e) k (an_draws a1) (map (Pair (batches # calls)) rs @ later)" for c later
        using IH r2 by auto
      show ?thesis
      proof (cases o1)
        case None
        have "fresh_noise laplace (scaled s e) k (an_draws a) (map (Pair (batches # calls)) rs @ later)"
          if "fresh_noise laplace (scaled s e) k (an_draws a2) later" for later
          using noise [OF that] d1 by (rule fresh_noise_mono)
        with None res rest le1 d2 show ?thesis by (auto intro: order_trans)
      next
        case (Some x)
        have x: "ar_noise_applied x" "counts_banks k batches x"
          "left_of (an_budget a1) c + (if fresh c x then scaled s (3 * e) else 0) \<le> left_of (an_budget a) c" for c
          using R Inr Some pos group by (auto simp: release_effect_def released_ok_def counts_banks_def fresh_def split: if_splits)
        have "fresh_noise laplace (scaled s e) k (an_draws a) ((batches # calls, x) # map (Pair (batches # calls)) rs @ later)"
          if "fresh_noise laplace (scaled s e) k (an_draws a2) later" for later
          using R Inr Some noise [OF that] by (auto simp: release_effect_def released_ok_def split: if_splits)
        moreover have "left_of (an_budget a2) c + of_int (fresh_count c (x # rs)) * scaled s (3 * e) \<le> left_of (an_budget a) c" for c
          using rest(1) [of c] x(3) [of c] by (simp add: distrib_right split: if_splits)
        ultimately show ?thesis using res rest x Some d2 by auto
      qed
    qed
  qed
qed

text \<open>A history of calls of one anonymizer: batches to anonymize at a clock reading, and resets, which open a new cycle.
  What is released is listed with the number of its cycle.\<close>

datatype anonymizer_call = Anonymize time "TelemetryBatch list" | ResetCycle

fun anonymize_history :: "laplace \<Rightarrow> nat \<Rightarrow> TelemetryBatch list list \<Rightarrow> anonymizer_call list \<Rightarrow> RegulatoryAnonymizer \<Rightarrow>
    (nat \<times> release) list" where
  "anonymize_history laplace cycle calls [] a = []"
| "anonymize_history laplace cycle calls (Anonymize now batches # rest) a =
     (let (res, a') = anonymize_batch now laplace batches a
      in map (\<lambda>r. (cycle, batches # calls, r)) (case res of Inl e \<Rightarrow> [] | Inr rs \<Rightarrow> rs) @
         anonymize_history laplace cycle (batches # calls) rest a')"
| "anonymize_history laplace cycle calls (ResetCycle # rest) a =
     anonymize_history laplace (cycle + 1) [] rest (reset_budget_cycle a)"

definition of_cycle :: "nat \<Rightarrow> (nat \<times> release) list \<Rightarrow> AnonymizedCorridorResult list" where
  "of_cycle m releases = map (snd \<circ> snd) (filter (\<lambda>x. fst x = m) releases)"

lemma of_cycle_simps [simp]:
  "of_cycle m [] = []" "of_cycle m (xs @ ys) = of_cycle m xs @ of_cycle m ys"
  "of_cycle m (map (\<lambda>r. (n, calls, r)) rs) = (if n = m then rs else [])"
  by (simp_all add: of_cycle_def comp_def)

lemma reset_ok:
  assumes "an_ok laplace s e B k calls a" "0 \<le> B"
  shows "an_ok laplace s e B k [] (reset_budget_cycle a)" "left_of (an_budget (reset_budget_cycle a)) c = scaled s B"
    "an_draws (reset_budget_cycle a) = an_draws a"
  using assms by (auto simp: an_ok_def reset_budget_cycle_def reset_all_def left_of_def dvalues_def)

lemma anonymize_batch_ok:
  assumes "an_ok laplace s e B k calls a" "0 < e" "3 * e < 10 ^ 28" "B < 10 ^ 28"
    and run: "anonymize_batch now laplace batches a = (res, a')"
  shows "an_ok laplace s e B k (batches # calls) a' \<and> an_draws a \<le> an_draws a' \<and>
    (case res of
       Inl _ \<Rightarrow> \<forall>c. left_of (an_budget a') c \<le> left_of (an_budget a) c
     | Inr rs \<Rightarrow> (\<forall>c. left_of (an_budget a') c + of_int (fresh_count c rs) * scaled s (3 * e) \<le> left_of (an_budget a) c) \<and>
         (\<forall>r \<in> set rs. ar_noise_applied r \<and> counts_banks k batches r) \<and>
         (\<forall>later. fresh_noise laplace (scaled s e) k (an_draws a') later \<longrightarrow>
            fresh_noise laplace (scaled s e) k (an_draws a) (map (Pair (batches # calls)) rs @ later)))"
proof (cases batches)
  case Nil
  with run an_ok_mono [OF assms(1), of "batches # calls"] show ?thesis by (auto simp: anonymize_batch_def)
next
  case (Cons b bs)
  have "release_corridors now laplace (compute_period_label (tb_period_start b)) (fold group_batch batches []) a = (res, a')"
    using run Cons by (simp add: anonymize_batch_def)
  moreover have "an_ok laplace s e B k (batches # calls) a" using assms(1) by (rule an_ok_mono) auto
  moreover have "\<forall>(c, banks, stats) \<in> set (fold group_batch batches []).
      length banks = card (reporting_banks c batches) \<and> stats = reported c batches" by (auto dest: groups_report)
  ultimately show ?thesis using release_corridors_ok assms(2-4) by blast
qed

lemma privacy_history_ok:
  assumes e: "0 < e" "3 * e < 10 ^ 28" and B: "0 \<le> B" "B < 10 ^ 28" and a: "an_ok laplace s e B k calls a"
  shows "(\<forall>m. of_int (fresh_count c (of_cycle m (anonymize_history laplace n calls history a))) * scaled s (3 * e) \<le>
      (if m = n then left_of (an_budget a) c else scaled s B)) \<and>
    list_all (\<lambda>(_, cs, r). ar_noise_applied r \<and> counts_banks k (hd cs) r) (anonymize_history laplace n calls history a) \<and>
    fresh_noise laplace (scaled s e) k (an_draws a) (map snd (anonymize_history laplace n calls history a))"
  using a
proof (induction history arbitrary: n calls a)
  case Nil
  then obtain j where "0 \<le> j" "left_of (an_budget a) c = scaled s j" unfolding an_ok_def by metis
  with B show ?case by (simp add: scaled_def)
next
  case (Cons call history)
  show ?case
  proof (cases call)
    case (Anonymize now batches)
    obtain res a' where run: "anonymize_batch now laplace batches a = (res, a')" by fastforce
    note step = anonymize_batch_ok [OF Cons.prems e B(2) run]
    have ok': "an_ok laplace s e B k (batches # calls) a'" using step by blast
    note IH = Cons.IH [OF ok', of n]
    show ?thesis
    proof (cases res)
      case (Inl x)
      with step have "left_of (an_budget a') c \<le> left_of (an_budget a) c" "an_draws a \<le> an_draws a'" by auto
      with IH Anonymize run Inl show ?thesis by (auto intro: fresh_noise_mono order_trans)
    next
      case (Inr rs)
      with step have S: "left_of (an_budget a') c + of_int (fresh_count c rs) * scaled s (3 * e) \<le> left_of (an_budget a) c"
        "\<forall>r \<in> set rs. ar_noise_applied r \<and> counts_banks k batches r"
        "fresh_noise laplace (scaled s e) k (an_draws a') later \<Longrightarrow>
           fresh_noise laplace (scaled s e) k (an_draws a) (map (Pair (batches # calls)) rs @ later)" for later by auto
      have "fresh_noise laplace (scaled s e) k (an_draws a) (map (Pair (batches # calls)) rs @
          map snd (anonymize_history laplace n (batches # calls) history a'))" using S(3) IH by blast
      moreover have "of_int (fresh_count c rs + fresh_count c (of_cycle n (anonymize_history laplace n (batches # calls) history a'))) *
          scaled s (3 * e) \<le> left_of (an_budget a) c"
        using S(1) IH [THEN conjunct1, rule_format, of n] by (simp add: distrib_right)
      moreover have "list_all (\<lambda>(_, cs, r). ar_noise_applied r \<and> counts_banks k (hd cs) r) (map (\<lambda>r. (n, batches # calls, r)) rs)"
        using S(2) by (simp add: list_all_iff)
      moreover have "of_int (fresh_count c (of_cycle m (anonymize_history laplace n (batches # calls) history a'))) *
          scaled s (3 * e) \<le> scaled s B" if "m \<noteq> n" for m
        using IH [THEN conjunct1, rule_format, of m] that by simp
      ultimately show ?thesis using IH [THEN conjunct2] Anonymize run Inr by (simp add: comp_def)
    qed
  next
    case ResetCycle
    note reset = reset_ok [OF Cons.prems B(1)]
    have none: "of_cycle n (anonymize_history laplace (n' + 1) cs history x) = []" if "n \<le> n'" for n' cs x
      using that
    proof (induction history arbitrary: n' cs x)
      case (Cons y ys)
      then show ?case by (cases y) (auto split: prod.split)
    qed simp
    obtain j where "0 \<le> j" "left_of (an_budget a) c = scaled s j" using Cons.prems unfolding an_ok_def by metis
    then have "0 \<le> left_of (an_budget a) c" by (simp add: scaled_def)
    moreover note Cons.IH [OF reset(1), of "n + 1", unfolded reset(2,3) if_cancel]
    ultimately show ?thesis using none [of n] ResetCycle by simp
  qed
qed

text \<open>C36: Whatever batches an anonymizer is given and whenever it is reset (for a positive epsilon and a budget that, written with
  a common number \<open>s\<close> of decimal places, fit the 28 digits of the decimal context), in every cycle between two
  resets the noised results released for a corridor cost no more than its budget, at three epsilon each.  Everything
  released is noise on the truth: the failure rate, payments and failures are those reported for the corridor by at least
  \<open>k\<close> distinct banks, plus a draw of the Laplace generator at the scale of sensitivity over epsilon, clamped and
  rounded.  The three draws of a noised result are its own, later than those of all earlier ones, and what they
  noise are the statistics of its own call; a stale result repeats numbers made in its own or an earlier call of the
  same cycle.  And the bank count is the number of distinct banks that report a corridor in its own call, at least
  \<open>k\<close>.  The generator itself is a parameter: the distribution of its draws is not modelled.\<close>

theorem privacy_budget_holds:
  assumes "0 < e" "3 * e < 10 ^ 28" "0 \<le> B" "B < 10 ^ 28"
  shows "let releases = anonymize_history laplace 0 [] history (new_anonymizer k (scaled s e) (scaled s B))
    in (\<forall>cycle. 3 * scaled s e * of_int (fresh_count corridor (of_cycle cycle releases)) \<le> scaled s B) \<and>
       list_all (\<lambda>(_, calls, r). ar_noise_applied r \<and> counts_banks k (hd calls) r) releases \<and>
       fresh_noise laplace (scaled s e) k 0 (map snd releases)"
proof -
  let ?a = "new_anonymizer k (scaled s e) (scaled s B)"
  have "an_ok laplace s e B k [] ?a"
    using assms(3) by (auto simp: an_ok_def new_anonymizer_def left_of_def dvalues_def)
  note H = privacy_history_ok [OF assms this, of corridor 0 history]
  have new: "left_of (an_budget ?a) corridor = scaled s B" "an_draws ?a = 0"
    by (simp_all add: new_anonymizer_def left_of_def)
  have "of_int n * scaled s (3 * e) = 3 * scaled s e * of_int n" for n by (simp add: scaled_def)
  with H show ?thesis unfolding Let_def new if_cancel by simp
qed

definition five_banks :: "TelemetryBatch list" where
  "five_banks = map (\<lambda>h. \<lparr> tb_bank_hash = h, tb_period_start = \<lparr> ho_year = 2026, ho_month = 1, ho_day = 2, ho_hour = 3 \<rparr>,
     tb_corridor_statistics = [\<lparr> cst_corridor = ''EUR-USD'', cst_total_payments = 10, cst_failed_payments = 1 \<rparr>] \<rparr>)
     [''a'', ''b'', ''c'', ''d'', ''e'']"

text \<open>Epsilon 0.5 and a budget of 2: the first call is noised, the second stale, the one after the reset noised again.\<close>

definition privacy_example :: "(nat \<times> release) list" where
  "privacy_example = anonymize_history (\<lambda>i b. b * of_nat (i + 1)) 0 []
     [Anonymize 0 five_banks, Anonymize 1 five_banks, ResetCycle, Anonymize 2 five_banks]
     (new_anonymizer 5 (scaled 1 5) (scaled 1 20))"

lemma privacy_example_released:
  "map (\<lambda>(n, _, r). (n, ar_stale r, ar_total_payments r, ar_failed_payments r, ar_failure_rate r)) privacy_example =
     [(0, False, 54, 11, 7 / 50), (0, True, 54, 11, 7 / 50), (1, False, 60, 17, 13 / 50)]"
  by code_simp

theorem privacy_budget_holds_witness:
  "map (\<lambda>(n, _, r). (n, ar_stale r, ar_total_payments r)) privacy_example = [(0, False, 54), (0, True, 54), (1, False, 60)] \<and>
   (\<forall>cycle. 3 * scaled 1 5 * of_int (fresh_count ''EUR-USD'' (of_cycle cycle privacy_example)) \<le> scaled 1 20) \<and>
   list_all (\<lambda>(_, calls, r). ar_noise_applied r \<and> counts_banks 5 (hd calls) r) privacy_example \<and>
   fresh_noise (\<lambda>i b. b * of_nat (i + 1)) (scaled 1 5) 5 0 (map snd privacy_example)"
proof -
  have "map (\<lambda>(n, _, r). (n, ar_stale r, ar_total_payments r)) privacy_example = [(0, False, 54), (0, True, 54), (1, False, 60)]"
    by code_simp
  moreover note privacy_budget_holds [of 5 20 "\<lambda>i b. b * of_nat (i + 1)"
    "[Anonymize 0 five_banks, Anonymize 1 five_banks, ResetCycle, Anonymize 2 five_banks]" 5 1 "''EUR-USD''"]
  ultimately show ?thesis unfolding privacy_example_def Let_def by simp
qed

end
