(* ===== verification/Circuit_Breaker.thy ===== *)
theory Circuit_Breaker
  imports Py_Base
begin

text \<open>
  The circuit breaker around external services (\<open>lip/common/circuit_breaker.py\<close>).  A call takes the clock readings it
  makes (when the state is looked up, and when a failure is recorded) and what the service would answer; it
  returns whether the service was asked.  Calls come one after the other.

  Shown: whether a call is rejected is determined by the log of answers alone.
\<close>

datatype CircuitState = CLOSED | OPEN | HALF_OPEN

record CircuitBreaker =
  br_failure_threshold :: int
  br_recovery_timeout :: time
  br_state :: CircuitState
  br_failure_count :: int
  br_last_failure_time :: time
  br_success_count :: int

definition new_breaker :: "int \<Rightarrow> time \<Rightarrow> CircuitBreaker" where
  "new_breaker failure_threshold recovery_timeout =
     \<lparr> br_failure_threshold = failure_threshold, br_recovery_timeout = recovery_timeout, br_state = CLOSED,
       br_failure_count = 0, br_last_failure_time = 0, br_success_count = 0 \<rparr>"

definition breaker_state :: "time \<Rightarrow> CircuitBreaker \<Rightarrow> CircuitState \<times> CircuitBreaker" where
  "breaker_state now b =
     (if br_state b = OPEN \<and> now - br_last_failure_time b \<ge> br_recovery_timeout b
      then (HALF_OPEN, b\<lparr>br_state := HALF_OPEN\<rparr>) else (br_state b, b))"

definition record_failure :: "time \<Rightarrow> CircuitBreaker \<Rightarrow> CircuitBreaker" where
  "record_failure now b =
     (let count = br_failure_count b + 1;
          b = b\<lparr>br_failure_count := count, br_last_failure_time := now, br_success_count := 0\<rparr>
      in if count \<ge> br_failure_threshold b \<and> br_state b \<noteq> OPEN then b\<lparr>br_state := OPEN\<rparr> else b)"

definition record_success :: "CircuitBreaker \<Rightarrow> CircuitBreaker" where
  "record_success b =
     (let b = (if br_state b = HALF_OPEN then b\<lparr>br_state := CLOSED\<rparr> else b)
      in b\<lparr>br_failure_count := 0, br_success_count := br_success_count b + 1\<rparr>)"

text \<open>The answer of a call: rejected, or what the service returned or raised.\<close>

datatype 'a breaker_answer = Circuit_open | Answered "py_exc + 'a"

definition breaker_call :: "time \<Rightarrow> time \<Rightarrow> py_exc + 'a \<Rightarrow> CircuitBreaker \<Rightarrow> 'a breaker_answer \<times> CircuitBreaker" where
  "breaker_call now later result b =
     (let (current, b) = breaker_state now b
      in if current = OPEN then (Circuit_open, b)
         else case result of
             Inl e \<Rightarrow> (Answered (Inl e), record_failure later b)
           | Inr v \<Rightarrow> (Answered (Inr v), record_success b))"

definition breaker_reset :: "CircuitBreaker \<Rightarrow> CircuitBreaker" where
  "breaker_reset b = b\<lparr>br_state := CLOSED, br_failure_count := 0, br_success_count := 0\<rparr>"

section \<open>The log of answers\<close>

text \<open>An event of the log: the service answered (\<open>None\<close>), or failed at a time.\<close>

type_synonym service_log = "time option list"

definition trailing_failures :: "service_log \<Rightarrow> time option list" where
  "trailing_failures evs = takeWhile (\<lambda>x. x \<noteq> None) (rev evs)"

text \<open>Rejection from the log: as many failures in a row as the threshold, the last of them too recent.\<close>

definition rejects :: "int \<Rightarrow> time \<Rightarrow> time \<Rightarrow> service_log \<Rightarrow> bool" where
  "rejects threshold timeout now evs \<longleftrightarrow>
     (case trailing_failures evs of
        Some t # _ \<Rightarrow> int (length (trailing_failures evs)) \<ge> threshold \<and> now - t < timeout
      | _ \<Rightarrow> False)"

text \<open>What a breaker and the log of its service have in common.\<close>

definition breaker_ok :: "int \<Rightarrow> time \<Rightarrow> CircuitBreaker \<times> service_log \<Rightarrow> bool" where
  "breaker_ok threshold timeout s \<longleftrightarrow>
     (case s of (b, evs) \<Rightarrow>
        br_failure_threshold b = threshold \<and> br_recovery_timeout b = timeout \<and>
        br_failure_count b = int (length (trailing_failures evs)) \<and>
        br_state b = (if trailing_failures evs = [] \<or> int (length (trailing_failures evs)) < threshold then CLOSED else OPEN) \<and>
        (trailing_failures evs = [] \<or> hd (trailing_failures evs) = Some (br_last_failure_time b)))"

lemma trailing_snoc [simp]:
  "trailing_failures [] = []" "trailing_failures (evs @ [None]) = []"
  "trailing_failures (evs @ [Some t]) = Some t # trailing_failures evs"
  by (simp_all add: trailing_failures_def)

lemma breaker_rejects:
  assumes "breaker_ok threshold timeout (b, evs)"
  shows "fst (breaker_call now later result b) = Circuit_open \<longleftrightarrow> rejects threshold timeout now evs"
proof -
  have "br_state b = OPEN \<longleftrightarrow> trailing_failures evs \<noteq> [] \<and> int (length (trailing_failures evs)) \<ge> threshold"
    using assms by (auto simp: breaker_ok_def)
  moreover have "br_state b \<noteq> HALF_OPEN" using assms by (auto simp: breaker_ok_def)
  ultimately show ?thesis
    using assms by (cases "trailing_failures evs")
      (auto simp: breaker_ok_def rejects_def breaker_call_def breaker_state_def not_le split: sum.split)
qed

definition log_call :: "time \<Rightarrow> service_log \<Rightarrow> 'a breaker_answer \<times> CircuitBreaker \<Rightarrow> CircuitBreaker \<times> service_log" where
  "log_call later evs r =
     (case r of
        (Circuit_open, b) \<Rightarrow> (b, evs)
      | (Answered (Inl e), b) \<Rightarrow> (b, evs @ [Some later])
      | (Answered (Inr v), b) \<Rightarrow> (b, evs @ [None]))"

text \<open>A history of calls on the breaker and the log of what the service was asked.\<close>

fun breaker_run :: "(time \<times> time \<times> (py_exc + 'a)) list \<Rightarrow> CircuitBreaker \<times> service_log \<Rightarrow> CircuitBreaker \<times> service_log" where
  "breaker_run [] s = s"
| "breaker_run ((now, later, result) # calls) (b, evs) =
     breaker_run calls (log_call later evs (breaker_call now later result b))"

lemma breaker_step_ok:
  assumes "breaker_ok threshold timeout (b, evs)"
  shows "breaker_ok threshold timeout (log_call later evs (breaker_call now later result b))"
  using assms
  by (cases result) (auto simp: breaker_ok_def log_call_def breaker_call_def breaker_state_def record_failure_def
    record_success_def Let_def split: if_splits)

lemma breaker_run_ok: "breaker_ok threshold timeout s \<Longrightarrow> breaker_ok threshold timeout (breaker_run calls s)"
proof (induction calls s rule: breaker_run.induct)
  case (2 now later result calls b evs)
  then show ?case by (simp add: breaker_step_ok)
qed simp

text \<open>After any sequence of calls, whichever the service answered, the next call is kept from the service exactly when
  the log of its answers ends in as many failures in a row as the threshold and the last of them is more
  recent than the timeout.\<close>

lemma breaker_rejects_from_log:
  "case breaker_run calls (new_breaker threshold timeout, []) of
     (b, evs) \<Rightarrow> (fst (breaker_call now later result b) = Circuit_open) = rejects threshold timeout now evs"
proof -
  have "breaker_ok threshold timeout (new_breaker threshold timeout, [])" by (simp add: breaker_ok_def new_breaker_def)
  then have "breaker_ok threshold timeout (breaker_run calls (new_breaker threshold timeout, []))" by (rule breaker_run_ok)
  then show ?thesis by (auto simp: breaker_rejects split: prod.split)
qed

end
