(* ===== verification/Rate_Limiter.thy ===== *)
theory Rate_Limiter
  imports Py_Base
begin

text \<open>
  The rate limiter of the HTTP interface (\<open>lip/api/rate_limiter.py\<close>): a token bucket per key in memory, and a counter
  per period on Redis.  What Redis answers to \<open>INCR\<close> (with the \<open>EXPIRE\<close> of a first count) is an argument, \<open>None\<close>
  when it raises.

  Shown: in any stretch of calls, the calls of a key that are allowed are at most the rate plus the refill of the stretch,
  and a call is refused only when less than one token is left.
\<close>

type_synonym token_bucket = "pyfloat \<times> time"

record TokenBucketRateLimiter =
  tl_rate :: int
  tl_period :: int
  tl_has_redis :: bool
  tl_buckets :: "(string, token_bucket) dict"

definition new_rate_limiter :: "int \<Rightarrow> int \<Rightarrow> bool \<Rightarrow> TokenBucketRateLimiter" where
  "new_rate_limiter rate period has_redis =
     \<lparr> tl_rate = rate, tl_period = period, tl_has_redis = has_redis, tl_buckets = [] \<rparr>"

text \<open>The tokens of a key now.\<close>

definition tokens_now :: "string \<Rightarrow> time \<Rightarrow> TokenBucketRateLimiter \<Rightarrow> pyfloat" where
  "tokens_now key now l =
     (let (tokens, last_refill) = value_or (of_int (tl_rate l), now) (dget (tl_buckets l) key);
          refill = (now - last_refill) * (of_int (tl_rate l) / of_int (tl_period l))
      in min (of_int (tl_rate l)) (tokens + refill))"

definition check_memory :: "string \<Rightarrow> time \<Rightarrow> TokenBucketRateLimiter \<Rightarrow> (bool \<times> int) \<times> TokenBucketRateLimiter" where
  "check_memory key now l =
     (let tokens = tokens_now key now l
      in if tokens \<ge> 1 then ((True, \<lfloor>tokens - 1\<rfloor>), l\<lparr>tl_buckets := dset key (tokens - 1, now) (tl_buckets l)\<rparr>)
         else ((False, 0), l\<lparr>tl_buckets := dset key (tokens, now) (tl_buckets l)\<rparr>))"

definition check_redis :: "int option \<Rightarrow> string \<Rightarrow> time \<Rightarrow> TokenBucketRateLimiter \<Rightarrow> (bool \<times> int) \<times> TokenBucketRateLimiter" where
  "check_redis incr key now l =
     (case incr of
        None \<Rightarrow> check_memory key now l
      | Some count \<Rightarrow> ((count \<le> tl_rate l, max 0 (tl_rate l - count)), l))"

definition check_and_consume_with_remaining :: "int option \<Rightarrow> string \<Rightarrow> time \<Rightarrow> TokenBucketRateLimiter \<Rightarrow>
    (bool \<times> int) \<times> TokenBucketRateLimiter" where
  "check_and_consume_with_remaining incr key now l =
     (if tl_has_redis l then check_redis incr key now l else check_memory key now l)"

definition check_and_consume :: "int option \<Rightarrow> string \<Rightarrow> time \<Rightarrow> TokenBucketRateLimiter \<Rightarrow> bool \<times> TokenBucketRateLimiter" where
  "check_and_consume incr key now l =
     (let ((allowed, _), l) = check_and_consume_with_remaining incr key now l in (allowed, l))"

definition remaining_tokens :: "string \<Rightarrow> time \<Rightarrow> TokenBucketRateLimiter \<Rightarrow> int" where
  "remaining_tokens key now l = \<lfloor>tokens_now key now l\<rfloor>"

text \<open>A history of calls in memory, with whether each was allowed.\<close>

fun limit_history :: "(string \<times> time) list \<Rightarrow> TokenBucketRateLimiter \<Rightarrow> (string \<times> time \<times> bool) list" where
  "limit_history [] l = []"
| "limit_history ((key, now) # calls) l =
     (let (allowed, l) = check_and_consume None key now l in (key, now, allowed) # limit_history calls l)"

definition allowed_calls :: "string \<Rightarrow> (string \<times> time \<times> bool) list \<Rightarrow> (string \<times> time \<times> bool) list" where
  "allowed_calls key h = filter (\<lambda>(k, t, ok). k = key \<and> ok) h"

text \<open>Buckets were last filled at \<open>t0\<close> or before, with a sensible number of tokens.\<close>

definition limiter_ok :: "int \<Rightarrow> int \<Rightarrow> time \<Rightarrow> TokenBucketRateLimiter \<Rightarrow> bool" where
  "limiter_ok rate period t0 l \<longleftrightarrow> tl_rate l = rate \<and> tl_period l = period \<and>
     (\<forall>k tokens t. dget (tl_buckets l) k = Some (tokens, t) \<longrightarrow> 0 \<le> tokens \<and> tokens \<le> of_int rate \<and> t \<le> t0)"

lemma tokens_now_eq:
  assumes "limiter_ok rate period t0 l"
  shows "tokens_now key now l = (case dget (tl_buckets l) key of
      None \<Rightarrow> min (of_int rate) (of_int rate)
    | Some (tokens, t) \<Rightarrow> min (of_int rate) (tokens + (now - t) * (of_int rate / of_int period)))"
  using assms by (auto simp: tokens_now_def limiter_ok_def split: option.split prod.split)

lemma tokens_bounds:
  assumes l: "limiter_ok rate period t0 l" and now: "t0 \<le> now" and r: "0 \<le> rate" "0 < period"
  shows "0 \<le> tokens_now key now l" "tokens_now key now l \<le> of_int rate"
    "tokens_now key now l \<le> tokens_now key t0 l + (now - t0) * (of_int rate / of_int period)"
proof -
  let ?q = "of_int rate / of_int period :: rat"
  have q: "0 \<le> ?q" using r by simp
  show "tokens_now key now l \<le> of_int rate" by (simp add: tokens_now_eq [OF l] split: option.split prod.split)
  show "0 \<le> tokens_now key now l"
  proof (cases "dget (tl_buckets l) key")
    case None
    then show ?thesis using r(1) by (simp add: tokens_now_eq [OF l])
  next
    case (Some b)
    then have "0 \<le> fst b" "snd b \<le> now" using l now unfolding limiter_ok_def by (cases b; force)+
    then have "0 \<le> fst b + (now - snd b) * ?q" using q by (intro add_nonneg_nonneg mult_nonneg_nonneg) simp_all
    then show ?thesis using Some r(1) by (cases b) (simp add: tokens_now_eq [OF l])
  qed
  have "0 \<le> (now - t0) * ?q" using now q by (intro mult_nonneg_nonneg) simp_all
  then have "min r (a + (x + y)) \<le> min r (a + x) + y" if "y = (now - t0) * ?q" for r a x y :: rat
    using that by (simp add: min_def)
  moreover have "(now - t) * ?q = (t0 - t) * ?q + (now - t0) * ?q" for t
    unfolding distrib_right [symmetric] by simp
  ultimately have "min r (a + (now - t) * ?q) \<le> min r (a + (t0 - t) * ?q) + (now - t0) * ?q" for r a t
    by metis
  with \<open>0 \<le> (now - t0) * ?q\<close> show "tokens_now key now l \<le> tokens_now key t0 l + (now - t0) * ?q"
    unfolding tokens_now_eq [OF l] by (simp split: option.split prod.split del: times_divide_eq_right)
qed

lemma check_memory_step:
  assumes l: "limiter_ok rate period t0 l" and now: "t0 \<le> now" and r: "0 \<le> rate" "0 < period"
    and run: "check_memory key now l = ((allowed, n), l')"
  shows "limiter_ok rate period now l'"
    "tokens_now key now l' = tokens_now key now l - (if allowed then 1 else 0)"
    "k \<noteq> key \<Longrightarrow> tokens_now k now l' = tokens_now k now l"
    "allowed \<longleftrightarrow> 1 \<le> tokens_now key now l"
proof -
  note B = tokens_bounds(1,2) [OF l now r, of key]
  show "allowed \<longleftrightarrow> 1 \<le> tokens_now key now l"
    using run by (auto simp: check_memory_def Let_def split: if_splits)
  show "limiter_ok rate period now l'"
    using run l now B by (fastforce simp: check_memory_def Let_def limiter_ok_def dict_simps split: if_splits)
  have "l' = l\<lparr>tl_buckets := dset key (tokens_now key now l - (if allowed then 1 else 0), now) (tl_buckets l)\<rparr>"
    using run by (auto simp: check_memory_def Let_def split: if_splits)
  then show "tokens_now key now l' = tokens_now key now l - (if allowed then 1 else 0)"
    "k \<noteq> key \<Longrightarrow> tokens_now k now l' = tokens_now k now l"
    using B l by (simp_all add: tokens_now_def [of _ _ "_\<lparr>tl_buckets := _\<rparr>"] dict_simps)
      (auto simp: tokens_now_def limiter_ok_def)
qed

lemma check_without_redis:
  "\<not> tl_has_redis l \<Longrightarrow> check_and_consume None key now l = (let ((allowed, _), l) = check_memory key now l in (allowed, l))"
  by (simp add: check_and_consume_def check_and_consume_with_remaining_def)

lemma memory_keeps_redis: "check_memory key now l = (r, l') \<Longrightarrow> tl_has_redis l' = tl_has_redis l"
  by (auto simp: check_memory_def Let_def split: if_splits)

lemma history_step:
  assumes "\<not> tl_has_redis l" "check_memory k t l = ((allowed, n), l')"
  shows "limit_history ((k, t) # calls) l = (k, t, allowed) # limit_history calls l'"
  using assms by (simp add: check_without_redis)

lemma allowed_bound:
  assumes "0 \<le> rate" "0 < period" "sorted (t0 # map snd calls)" "limiter_ok rate period t0 l" "\<not> tl_has_redis l"
  shows "of_nat (length (allowed_calls key (limit_history calls l))) \<le>
    tokens_now key t0 l + (last (t0 # map snd calls) - t0) * (of_int rate / of_int period)"
proof -
  define q :: rat where "q = of_int rate / of_int period"
  have refill: "tokens_now key t l \<le> tokens_now key t0 l + (t - t0) * q" if "limiter_ok rate period t0 l" "t0 \<le> t" for l t0 t
    using tokens_bounds(3) [OF that assms(1,2)] by (simp only: q_def)
  have "of_nat (length (allowed_calls key (limit_history calls l))) \<le>
      tokens_now key t0 l + (last (t0 # map snd calls) - t0) * q"
    using assms(3-)
  proof (induction calls arbitrary: t0 l)
    case Nil
    then show ?case using tokens_bounds(1) [OF Nil(2) _ assms(1,2)] by (simp add: allowed_calls_def)
  next
    case (Cons call calls)
    obtain k t where call: "call = (k, t)" by fastforce
    have t: "t0 \<le> t" "sorted (t # map snd calls)" using Cons.prems(1) call by auto
    obtain allowed n l' where run: "check_memory k t l = ((allowed, n), l')" by (metis prod.collapse)
    note S = check_memory_step [OF Cons.prems(2) t(1) assms(1,2) run]
    have "\<not> tl_has_redis l'" using memory_keeps_redis [OF run] Cons.prems(3) by simp
    from Cons.IH [OF t(2) S(1) this] have IH: "of_nat (length (allowed_calls key (limit_history calls l'))) \<le>
        tokens_now key t l' + (last (t # map snd calls) - t) * q" .
    have "of_nat (length (allowed_calls key (limit_history (call # calls) l))) =
        (if k = key \<and> allowed then 1 else 0) + (of_nat (length (allowed_calls key (limit_history calls l'))) :: rat)"
      using history_step [OF Cons.prems(3) run] by (simp add: call allowed_calls_def)
    moreover have "(if k = key \<and> allowed then 1 else 0) + tokens_now key t l' = tokens_now key t l"
      using S(2) S(3) [of key] by (cases "k = key") auto
    moreover note refill [OF Cons.prems(2) t(1)]
    ultimately have "of_nat (length (allowed_calls key (limit_history (call # calls) l))) \<le>
        tokens_now key t0 l + (t - t0) * q + (last (t # map snd calls) - t) * q"
      using IH by linarith
    also have "\<dots> = tokens_now key t0 l + (last (t # map snd calls) - t0) * q" by (simp add: left_diff_distrib)
    finally show ?case by (simp add: call)
  qed
  then show ?thesis by (simp only: q_def)
qed

lemma history_append:
  assumes "0 \<le> rate" "0 < period" "sorted (t0 # map snd (before @ calls))" "limiter_ok rate period t0 l" "\<not> tl_has_redis l"
  shows "\<exists>l'. limit_history (before @ calls) l = limit_history before l @ limit_history calls l' \<and>
    limiter_ok rate period (last (t0 # map snd before)) l' \<and> \<not> tl_has_redis l'"
  using assms(3-)
proof (induction before arbitrary: t0 l)
  case (Cons call before)
  obtain k t where call: "call = (k, t)" by fastforce
  have t: "t0 \<le> t" "sorted (t # map snd (before @ calls))" using Cons.prems(1) call by auto
  obtain allowed n l1 where run: "check_memory k t l = ((allowed, n), l1)" by (metis prod.collapse)
  note S = check_memory_step [OF Cons.prems(2) t(1) assms(1,2) run]
  have "\<not> tl_has_redis l1" using memory_keeps_redis [OF run] Cons.prems(3) by simp
  from Cons.IH [OF t(2) S(1) this] show ?case
    using history_step [OF Cons.prems(3) run] by (auto simp: call)
qed auto

text \<open>C27: In memory, over any history of calls in clock order, the calls of a key that are allowed in any stretch of it
  number at most the rate plus what is refilled from the first to the last call of the stretch.  (Within one
  period that is up to twice the rate.)\<close>

theorem rate_limit_per_stretch:
  assumes "0 \<le> rate" "0 < period" "sorted (map snd (before @ (k0, t0) # calls))"
  shows "let h = limit_history (before @ (k0, t0) # calls) (new_rate_limiter rate period False)
    in of_nat (length (allowed_calls key (drop (length before) h))) \<le>
       of_int rate + (last (t0 # map snd calls) - t0) * (of_int rate / of_int period :: rat)"
proof -
  let ?s = "hd (map snd (before @ (k0, t0) # calls))"
  have len: "length (limit_history cs l) = length cs" for cs l
    by (induction cs arbitrary: l) (auto split: prod.split)
  have new: "limiter_ok rate period t (new_rate_limiter rate period False)" for t
    by (simp add: limiter_ok_def new_rate_limiter_def)
  have "sorted (?s # map snd (before @ (k0, t0) # calls))" using assms(3) by (cases before) auto
  from history_append [OF assms(1,2) this new]
  obtain l' where l': "limit_history (before @ (k0, t0) # calls) (new_rate_limiter rate period False) =
      limit_history before (new_rate_limiter rate period False) @ limit_history ((k0, t0) # calls) l'"
    "limiter_ok rate period (last (?s # map snd before)) l'" "\<not> tl_has_redis l'"
    by (auto simp: new_rate_limiter_def)
  have le: "last (?s # map snd before) \<le> t0"
    using assms(3) by (cases before rule: rev_cases) (auto simp: sorted_append)
  then have ok: "limiter_ok rate period t0 l'" using l'(2) unfolding limiter_ok_def by (meson order_trans)
  have "sorted (t0 # map snd ((k0, t0) # calls))" using assms(3) by (simp add: sorted_append)
  from allowed_bound [OF assms(1,2) this ok l'(3), of key] tokens_bounds(2) [OF ok order_refl assms(1,2), of key] l'(1)
  show ?thesis by (simp add: Let_def len del: limit_history.simps)
qed

theorem rate_limit_per_stretch_witness:
  "let h = limit_history ([(''k'', 0)] @ (''k'', 1) # [(''k'', 2), (''k'', 3)]) (new_rate_limiter 2 10 False)
   in of_nat (length (allowed_calls ''k'' (drop (length [(''k'', 0 :: rat)]) h))) \<le>
      of_int 2 + (last (1 # map snd [(''k'', 2), (''k'', 3)]) - 1) * (of_int 2 / of_int 10 :: rat)"
  by (rule rate_limit_per_stretch) simp_all

text \<open>More calls pass within a period than the rate: here three in less than ten seconds, at a rate of two per ten seconds.\<close>

lemma double_rate_within_period:
  "length (allowed_calls ''k'' (limit_history [(''k'', 0), (''k'', 0), (''k'', 9), (''k'', 9)] (new_rate_limiter 2 10 False))) = 3"
  by code_simp

end
