(* ===== verification/Event_Normalizer.thy ===== *)
theory Event_Normalizer
  imports Settlement_Handlers Rejection_Taxonomy Constants
begin

text \<open>
  How a failed payment enters the platform: \<open>lip/c5_streaming/event_normalizer.py\<close> for SWIFT, FedNow, RTP and
  SEPA, \<open>cbdc_normalizer.py\<close>, \<open>cbdc_mbridge_normalizer.py\<close> and \<open>nexus_normalizer.py\<close> for the rails of
  central bank money.  A message is a \<open>pyval\<close>, and so are the fields of an event that the code copies unchecked;
  what \<open>str\<close> makes of the currency of a SWIFT message is represented by the value itself, and an integral number
  is taken to be an \<open>int\<close> where a list is indexed.  \<open>fromiso\<close> is \<open>datetime.fromisoformat(str(v))\<close>.

  Shown: an event keeps the message and the rail it came from, and every rail of an event has a maturity; it feeds
  the telemetry exactly when it is no block, not small and no test; the reasons FedNow and RTP give for a hold always
  become block codes; the settlement amount of the older rails is positive; the failed leg of an mBridge message
  is one of its legs.
\<close>

section \<open>Values\<close>

definition P10_TELEMETRY_MIN_AMOUNT_USD :: dec where "P10_TELEMETRY_MIN_AMOUNT_USD = 1000"
definition TEST_BIC :: string where "TEST_BIC = ''XXXXXXXXXXX''"

definition safe_decimal :: "pyval \<Rightarrow> py_exc + dec" where
  "safe_decimal v = (if v = PNone then Inr 0 else case decimal_of v of Inl e \<Rightarrow> Inl ValueError | Inr d \<Rightarrow> Inr d)"

definition safe_datetime :: "iso_parser \<Rightarrow> pyval \<Rightarrow> py_exc + time" where
  "safe_datetime fromiso v =
     (case v of
        PTime t \<Rightarrow> Inr t
      | _ \<Rightarrow>
          if \<not> truth v then Inl ValueError
          else case fromiso v of
              Inl e \<Rightarrow> Inl (if e = ValueError \<or> e = TypeError then ValueError else e)
            | Inr t \<Rightarrow> Inr t)"

text \<open>\<open>v.upper()\<close> and \<open>v.strip().upper()\<close>.\<close>

definition upper_of :: "pyval \<Rightarrow> py_exc + string" where
  "upper_of v = (case v of PStr s \<Rightarrow> Inr (py_upper s) | _ \<Rightarrow> Inl AttributeError)"

definition strip_upper_of :: "pyval \<Rightarrow> py_exc + string" where
  "strip_upper_of v = (case v of PStr s \<Rightarrow> Inr (py_upper (py_strip s)) | _ \<Rightarrow> Inl AttributeError)"

definition PROPRIETARY_TO_ISO20022 :: "(string, string) dict" where
  "PROPRIETARY_TO_ISO20022 =
     [(''F002'', ''RR04''), (''REGULATORY_HOLD'', ''RR04''), (''COMPLIANCE_HOLD'', ''RR04''),
      (''COMPLIANCE_REVIEW'', ''RR04''), (''AML_HOLD'', ''RR04''), (''TRANSACTION_FORBIDDEN'', ''AG01''),
      (''LEGAL_HOLD'', ''LEGL''), (''LEGAL_DECISION'', ''LEGL''), (''RTP_COMPLIANCE'', ''RR04''),
      (''RTP_REGULATORY'', ''RR04''), (''RTP_LEGAL'', ''LEGL''), (''RTP_FORBIDDEN'', ''AG01''),
      (''FRAUD'', ''FRAU''), (''FRAUD_SUSPECTED'', ''FRAU'')]"

definition mapped_code :: "(string, string) dict \<Rightarrow> pyval \<Rightarrow> py_exc + pyval" where
  "mapped_code table code =
     res_bind (strip_upper_of code) (\<lambda>key. Inr (case dget table key of Some c \<Rightarrow> PStr c | None \<Rightarrow> code))"

definition normalize_rejection_code :: "pyval \<Rightarrow> string \<Rightarrow> py_exc + pyval" where
  "normalize_rejection_code code rail =
     (if \<not> truth code then Inr PNone
      else if py_upper rail \<in> {''SWIFT'', ''SEPA''} then Inr code
      else mapped_code PROPRIETARY_TO_ISO20022 code)"

section \<open>Events\<close>

record normalized_event =
  nv_uetr :: pyval
  nv_individual_payment_id :: pyval
  nv_sending_bic :: pyval
  nv_receiving_bic :: pyval
  nv_amount :: dec
  nv_currency :: pyval
  nv_timestamp :: time
  nv_rail :: string
  nv_rejection_code :: pyval
  nv_narrative :: pyval
  nv_raw_source :: pyval
  nv_original_payment_amount_usd :: "dec option"
  nv_debtor_account :: pyval
  nv_telemetry_eligible :: bool

definition is_test_transaction :: "normalized_event \<Rightarrow> py_exc + bool" where
  "is_test_transaction ev =
     res_bind (upper_of (nv_uetr ev)) (\<lambda>uetr.
       if take 5 uetr = ''TEST-'' then Inr True
       else res_bind (upper_of (nv_sending_bic ev)) (\<lambda>sending.
         if sending = TEST_BIC then Inr True
         else res_bind (upper_of (nv_receiving_bic ev)) (\<lambda>receiving.
           if receiving = TEST_BIC then Inr True
           else if is_dict (nv_raw_source ev) then res_bind (pget (nv_raw_source ev) ''is_test'' PNone) (\<lambda>t. Inr (truth t))
           else Inr False)))"

definition compute_telemetry_eligibility :: "normalized_event \<Rightarrow> py_exc + bool" where
  "compute_telemetry_eligibility ev =
     res_bind (if truth (nv_rejection_code ev)
               then res_bind (strip_upper_of (nv_rejection_code ev)) (\<lambda>c. Inr (c \<in> ALL_BLOCK_CODES)) else Inr False) (\<lambda>blocked.
       if blocked then Inr False
       else if nv_amount ev < P10_TELEMETRY_MIN_AMOUNT_USD then Inr False
       else res_bind (is_test_transaction ev) (\<lambda>test. Inr (\<not> test)))"

definition with_eligibility :: "py_exc + normalized_event \<Rightarrow> py_exc + normalized_event" where
  "with_eligibility r =
     res_bind r (\<lambda>ev. res_bind (compute_telemetry_eligibility ev) (\<lambda>b. Inr (ev\<lparr>nv_telemetry_eligible := b\<rparr>)))"

definition or_none :: "pyval \<Rightarrow> pyval" where
  "or_none v = (if truth v then v else PNone)"

definition positive_amount :: "dec \<Rightarrow> dec option" where
  "positive_amount d = (if d > 0 then Some d else None)"

text \<open>\<open>v.get(agent, {}).get("FinInstnId", {}).get("BIC", "")\<close>.\<close>

definition bic_at :: "pyval \<Rightarrow> string \<Rightarrow> py_exc + pyval" where
  "bic_at v agent = res_bind (pget_dicts v [agent, ''FinInstnId'']) (\<lambda>w. pget w ''BIC'' (PStr ''''))"

text \<open>\<open>v.get(k1, v.get(k2, d))\<close>.\<close>

definition pget2 :: "pyval \<Rightarrow> string \<Rightarrow> string \<Rightarrow> pyval \<Rightarrow> py_exc + pyval" where
  "pget2 v k1 k2 d = res_bind (pget v k2 d) (pget v k1)"

text \<open>\<open>v.get(k1, w.get(k2, d))\<close>.\<close>

definition pget_else :: "pyval \<Rightarrow> string \<Rightarrow> pyval \<Rightarrow> string \<Rightarrow> pyval \<Rightarrow> py_exc + pyval" where
  "pget_else v k1 w k2 d = res_bind (pget w k2 d) (pget v k1)"

definition reason_code :: "pyval \<Rightarrow> py_exc + pyval" where
  "reason_code rsn = (if is_dict rsn then pget rsn ''Cd'' PNone else Inr rsn)"

section \<open>SWIFT and SEPA\<close>

definition settlement_amount :: "pyval \<Rightarrow> pyval \<Rightarrow> py_exc + dec option" where
  "settlement_amount sttlm missing =
     res_bind (if is_dict sttlm then pget2 sttlm ''value'' ''Amt'' missing else Inr sttlm) (\<lambda>v.
     res_bind (safe_decimal v) (\<lambda>d. Inr (positive_amount d)))"

definition swift_amount :: "pyval \<Rightarrow> pyval \<Rightarrow> py_exc + dec \<times> pyval" where
  "swift_amount inst_amt orig_ref =
     (if is_dict inst_amt then
        res_bind (pget2 inst_amt ''value'' ''Amt'' (PStr ''0'')) (\<lambda>v.
        res_bind (safe_decimal v) (\<lambda>amount.
        res_bind (pget2 inst_amt ''Ccy'' ''currency'' (PStr ''USD'')) (\<lambda>c.
        Inr (amount, if truth c then c else PStr ''USD''))))
      else
        res_bind (safe_decimal inst_amt) (\<lambda>amount.
        res_bind (pget orig_ref ''Ccy'' (PStr ''USD'')) (\<lambda>c.
        Inr (amount, if truth c then c else PStr ''USD''))))"

definition normalize_swift :: "iso_parser \<Rightarrow> pyval \<Rightarrow> py_exc + normalized_event" where
  "normalize_swift fromiso msg =
     res_bind (pget msg ''GrpHdr'' (PDict [])) (\<lambda>grp.
     res_bind (pget msg ''TxInfAndSts'' (PDict [])) (\<lambda>tx.
     res_bind (pget tx ''StsRsnInf'' (PDict [])) (\<lambda>sts_rsn.
     res_bind (pget tx ''OrgnlTxRef'' (PDict [])) (\<lambda>orig_ref.
     res_bind (pget_dicts orig_ref [''Amt'', ''InstdAmt'']) (\<lambda>inst_amt.
     res_bind (swift_amount inst_amt orig_ref) (\<lambda>(amount, currency).
     res_bind (por (bic_at msg ''DbtrAgt'') (bic_at tx ''DbtrAgt'')) (\<lambda>sending_bic.
     res_bind (bic_at grp ''InstdAgt'') (\<lambda>receiving_bic.
     res_bind (pget sts_rsn ''Rsn'' (PDict [])) (\<lambda>rsn.
     res_bind (reason_code rsn) (\<lambda>rejection_code.
     res_bind (pget msg ''IntrBkSttlmAmt'' (PDict [])) (\<lambda>sttlm.
     res_bind (settlement_amount sttlm PNone) (\<lambda>original_amount.
     res_bind (pget_dicts orig_ref [''DbtrAcct'', ''Id'']) (\<lambda>acct_id.
     res_bind (por (pget acct_id ''IBAN'' PNone) (pget_path acct_id [''Othr'', ''Id''])) (\<lambda>debtor_account.
     res_bind (pget grp ''MsgId'' (PStr '''')) (\<lambda>uetr.
     res_bind (pget tx ''OrgnlEndToEndId'' (PStr '''')) (\<lambda>payment_id.
     res_bind (pget grp ''CreDtTm'' PNone) (\<lambda>created.
     res_bind (safe_datetime fromiso created) (\<lambda>timestamp.
     res_bind (pget tx ''AddtlInf'' PNone) (\<lambda>narrative.
     Inr \<lparr> nv_uetr = uetr, nv_individual_payment_id = payment_id, nv_sending_bic = sending_bic,
           nv_receiving_bic = receiving_bic, nv_amount = amount, nv_currency = currency, nv_timestamp = timestamp,
           nv_rail = ''SWIFT'', nv_rejection_code = or_none rejection_code, nv_narrative = narrative,
           nv_raw_source = msg, nv_original_payment_amount_usd = original_amount,
           nv_debtor_account = or_none debtor_account, nv_telemetry_eligible = True \<rparr>)))))))))))))))))))"

definition sepa_amount :: "pyval \<Rightarrow> pyval \<Rightarrow> py_exc + dec \<times> pyval" where
  "sepa_amount inst_amt orig_ref =
     (if is_dict inst_amt then
        res_bind (pget2 inst_amt ''value'' ''Amt'' (PStr ''0'')) (\<lambda>v.
        res_bind (safe_decimal v) (\<lambda>amount.
        res_bind (pget inst_amt ''Ccy'' (PStr ''EUR'')) (\<lambda>currency. Inr (amount, currency))))
      else
        res_bind (safe_decimal inst_amt) (\<lambda>amount.
        res_bind (pget orig_ref ''Ccy'' (PStr ''EUR'')) (\<lambda>currency. Inr (amount, currency))))"

definition normalize_sepa :: "iso_parser \<Rightarrow> pyval \<Rightarrow> py_exc + normalized_event" where
  "normalize_sepa fromiso msg =
     res_bind (pget msg ''FIToFIPmtStsRpt'' msg) (\<lambda>rpt.
     res_bind (pget_else rpt ''GrpHdr'' msg ''GrpHdr'' (PDict [])) (\<lambda>grp.
     res_bind (pget_else rpt ''TxInfAndSts'' msg ''TxInfAndSts'' (PDict [])) (\<lambda>tx.
     res_bind (pget tx ''OrgnlTxRef'' (PDict [])) (\<lambda>orig_ref.
     res_bind (pget_dicts orig_ref [''Amt'', ''InstdAmt'']) (\<lambda>inst_amt.
     res_bind (sepa_amount inst_amt orig_ref) (\<lambda>(amount, currency).
     res_bind (por (bic_at rpt ''DbtrAgt'') (bic_at tx ''DbtrAgt'')) (\<lambda>sending_bic.
     res_bind (por (bic_at grp ''InstdAgt'') (bic_at rpt ''CdtrAgt'')) (\<lambda>receiving_bic.
     res_bind (pget_dicts tx [''StsRsnInf'', ''Rsn'']) (\<lambda>rsn.
     res_bind (reason_code rsn) (\<lambda>rejection_code.
     res_bind (pget msg ''IntrBkSttlmAmt'' (PDict [])) (\<lambda>sttlm.
     res_bind (settlement_amount sttlm (PStr ''0'')) (\<lambda>original_amount.
     res_bind (pget_else tx ''OrgnlEndToEndId'' grp ''MsgId'' (PStr '''')) (\<lambda>uetr.
     res_bind (pget tx ''OrgnlEndToEndId'' (PStr '''')) (\<lambda>payment_id.
     res_bind (pget grp ''CreDtTm'' PNone) (\<lambda>created.
     res_bind (safe_datetime fromiso created) (\<lambda>timestamp.
     res_bind (pget tx ''AddtlInf'' PNone) (\<lambda>narrative.
     Inr \<lparr> nv_uetr = uetr, nv_individual_payment_id = payment_id, nv_sending_bic = sending_bic,
           nv_receiving_bic = receiving_bic, nv_amount = amount, nv_currency = currency, nv_timestamp = timestamp,
           nv_rail = ''SEPA'', nv_rejection_code = or_none rejection_code, nv_narrative = narrative,
           nv_raw_source = msg, nv_original_payment_amount_usd = original_amount,
           nv_debtor_account = PNone, nv_telemetry_eligible = True \<rparr>)))))))))))))))))"

section \<open>FedNow and RTP\<close>

definition instant_settlement :: "pyval \<Rightarrow> py_exc + dec option" where
  "instant_settlement sttlm =
     res_bind (if is_dict sttlm then pget sttlm ''value'' (PStr ''0'') else Inr sttlm) (\<lambda>v.
     res_bind (safe_decimal v) (\<lambda>d. Inr (positive_amount d)))"

definition instant_amount :: "pyval \<Rightarrow> pyval \<Rightarrow> py_exc + dec \<times> pyval" where
  "instant_amount block msg =
     (if is_dict block then
        res_bind (pget block ''value'' (PStr ''0'')) (\<lambda>v.
        res_bind (safe_decimal v) (\<lambda>amount.
        res_bind (pget block ''currency'' (PStr ''USD'')) (\<lambda>currency. Inr (amount, currency))))
      else
        res_bind (safe_decimal block) (\<lambda>amount.
        res_bind (pget msg ''currency'' (PStr ''USD'')) (\<lambda>currency. Inr (amount, currency))))"

definition routing_of :: "pyval \<Rightarrow> string \<Rightarrow> py_exc + pyval" where
  "routing_of msg party = res_bind (pget msg party (PDict [])) (\<lambda>w. pget w ''routingNumber'' (PStr ''''))"

definition normalize_fednow :: "iso_parser \<Rightarrow> pyval \<Rightarrow> py_exc + normalized_event" where
  "normalize_fednow fromiso msg =
     res_bind (pget msg ''creditTransfer'' msg) (\<lambda>ct.
     res_bind (pget_else ct ''amount'' msg ''amount'' (PDict [])) (\<lambda>amt_block.
     res_bind (instant_amount amt_block msg) (\<lambda>(amount, currency).
     res_bind (pget msg ''settlementAmount'' (PDict [])) (\<lambda>sttlm.
     res_bind (instant_settlement sttlm) (\<lambda>original_amount.
     res_bind (pget_else ct ''messageId'' msg ''messageId'' (PStr '''')) (\<lambda>uetr.
     res_bind (pget_else ct ''endToEndId'' msg ''endToEndId'' (PStr '''')) (\<lambda>payment_id.
     res_bind (routing_of msg ''debitParty'') (\<lambda>sending_bic.
     res_bind (routing_of msg ''creditParty'') (\<lambda>receiving_bic.
     res_bind (por (pget msg ''timestamp'' PNone) (pget msg ''createdAt'' PNone)) (\<lambda>created.
     res_bind (safe_datetime fromiso created) (\<lambda>timestamp.
     res_bind (pget msg ''rejectReason'' PNone) (\<lambda>reason.
     res_bind (normalize_rejection_code reason ''FEDNOW'') (\<lambda>rejection_code.
     res_bind (pget msg ''remittanceInfo'' PNone) (\<lambda>narrative.
     Inr \<lparr> nv_uetr = uetr, nv_individual_payment_id = payment_id, nv_sending_bic = sending_bic,
           nv_receiving_bic = receiving_bic, nv_amount = amount, nv_currency = currency, nv_timestamp = timestamp,
           nv_rail = ''FEDNOW'', nv_rejection_code = rejection_code, nv_narrative = narrative,
           nv_raw_source = msg, nv_original_payment_amount_usd = original_amount,
           nv_debtor_account = PNone, nv_telemetry_eligible = True \<rparr>))))))))))))))"

definition normalize_rtp :: "iso_parser \<Rightarrow> pyval \<Rightarrow> py_exc + normalized_event" where
  "normalize_rtp fromiso msg =
     res_bind (pget msg ''paymentMessage'' msg) (\<lambda>pm.
     res_bind (pget msg ''amount'' (PStr ''0'')) (\<lambda>amt_block.
     res_bind (instant_amount amt_block msg) (\<lambda>(amount, currency).
     res_bind (pget msg ''settlementAmount'' (PDict [])) (\<lambda>sttlm.
     res_bind (instant_settlement sttlm) (\<lambda>original_amount.
     res_bind (pget_else pm ''messageId'' msg ''messageId'' (PStr '''')) (\<lambda>uetr.
     res_bind (pget_else pm ''endToEndId'' msg ''endToEndId'' (PStr '''')) (\<lambda>payment_id.
     res_bind (pget msg ''sendingBank'' (PStr '''')) (\<lambda>sending_bic.
     res_bind (pget msg ''receivingBank'' (PStr '''')) (\<lambda>receiving_bic.
     res_bind (por (pget msg ''timestamp'' PNone) (pget msg ''createdAt'' PNone)) (\<lambda>created.
     res_bind (safe_datetime fromiso created) (\<lambda>timestamp.
     res_bind (pget msg ''rejectReason'' PNone) (\<lambda>reason.
     res_bind (normalize_rejection_code reason ''RTP'') (\<lambda>rejection_code.
     res_bind (pget msg ''narrative'' PNone) (\<lambda>narrative.
     Inr \<lparr> nv_uetr = uetr, nv_individual_payment_id = payment_id, nv_sending_bic = sending_bic,
           nv_receiving_bic = receiving_bic, nv_amount = amount, nv_currency = currency, nv_timestamp = timestamp,
           nv_rail = ''RTP'', nv_rejection_code = rejection_code, nv_narrative = narrative,
           nv_raw_source = msg, nv_original_payment_amount_usd = original_amount,
           nv_debtor_account = PNone, nv_telemetry_eligible = True \<rparr>))))))))))))))"

section \<open>The rails of central bank money\<close>

definition CBDC_FAILURE_CODE_MAP :: "(string, string) dict" where
  "CBDC_FAILURE_CODE_MAP =
     [(''CBDC-SC01'', ''AC01''), (''CBDC-SC02'', ''AC04''), (''CBDC-SC03'', ''ED05''),
      (''CBDC-KYC01'', ''RR01''), (''CBDC-KYC02'', ''RR02''), (''CBDC-LIQ01'', ''AM04''),
      (''CBDC-LIQ02'', ''AM02''), (''CBDC-FIN01'', ''TM01''), (''CBDC-FIN02'', ''DT01''),
      (''CBDC-INT01'', ''FF01''), (''CBDC-INT02'', ''NARR''), (''CBDC-CRY01'', ''DS02''),
      (''CBDC-CRY02'', ''DS02''), (''CBDC-NET01'', ''MS03''), (''CBDC-CF01'', ''AM04''),
      (''CBDC-CB01'', ''FF01'')]"

definition normalize_cbdc_failure_code :: "pyval \<Rightarrow> py_exc + pyval" where
  "normalize_cbdc_failure_code code =
     (if \<not> truth code then Inr PNone else mapped_code CBDC_FAILURE_CODE_MAP code)"

definition optional_amount :: "pyval \<Rightarrow> py_exc + dec option" where
  "optional_amount sttlm = (if truth sttlm then res_bind (safe_decimal sttlm) (\<lambda>d. Inr (Some d)) else Inr None)"

definition normalize_ecny :: "iso_parser \<Rightarrow> pyval \<Rightarrow> py_exc + normalized_event" where
  "normalize_ecny fromiso msg =
     with_eligibility
      (res_bind (pget msg ''amount'' (PStr ''0'')) (\<lambda>v.
       res_bind (safe_decimal v) (\<lambda>amount.
       res_bind (pget msg ''currency'' (PStr ''CNY'')) (\<lambda>currency.
       res_bind (pget msg ''settlement_amount'' PNone) (\<lambda>sttlm.
       res_bind (optional_amount sttlm) (\<lambda>original_amount.
       res_bind (pget msg ''transaction_id'' (PStr '''')) (\<lambda>uetr.
       res_bind (pget2 msg ''payment_reference'' ''transaction_id'' (PStr '''')) (\<lambda>payment_id.
       res_bind (pget2 msg ''institution_bic_sender'' ''wallet_id_sender'' (PStr '''')) (\<lambda>sending_bic.
       res_bind (pget2 msg ''institution_bic_receiver'' ''wallet_id_receiver'' (PStr '''')) (\<lambda>receiving_bic.
       res_bind (pget msg ''timestamp'' PNone) (\<lambda>created.
       res_bind (safe_datetime fromiso created) (\<lambda>timestamp.
       res_bind (pget msg ''failure_code'' PNone) (\<lambda>code.
       res_bind (normalize_cbdc_failure_code code) (\<lambda>rejection_code.
       res_bind (pget msg ''failure_description'' PNone) (\<lambda>narrative.
       Inr \<lparr> nv_uetr = uetr, nv_individual_payment_id = payment_id, nv_sending_bic = sending_bic,
             nv_receiving_bic = receiving_bic, nv_amount = amount, nv_currency = currency,
             nv_timestamp = timestamp, nv_rail = ''CBDC_ECNY'', nv_rejection_code = rejection_code,
             nv_narrative = narrative, nv_raw_source = msg, nv_original_payment_amount_usd = original_amount,
             nv_debtor_account = PNone, nv_telemetry_eligible = True \<rparr>)))))))))))))))"

definition normalize_eeur :: "iso_parser \<Rightarrow> pyval \<Rightarrow> py_exc + normalized_event" where
  "normalize_eeur fromiso msg =
     with_eligibility
      (res_bind (pget msg ''amount'' (PStr ''0'')) (\<lambda>v.
       res_bind (safe_decimal v) (\<lambda>amount.
       res_bind (pget msg ''currency'' (PStr ''EUR'')) (\<lambda>currency.
       res_bind (pget msg ''settlement_amount'' PNone) (\<lambda>sttlm.
       res_bind (optional_amount sttlm) (\<lambda>original_amount.
       res_bind (pget msg ''tx_hash'' (PStr '''')) (\<lambda>uetr.
       res_bind (pget2 msg ''end_to_end_id'' ''tx_hash'' (PStr '''')) (\<lambda>payment_id.
       res_bind (pget2 msg ''sender_bic'' ''sender_iban'' (PStr '''')) (\<lambda>sending_bic.
       res_bind (pget2 msg ''receiver_bic'' ''receiver_iban'' (PStr '''')) (\<lambda>receiving_bic.
       res_bind (pget msg ''created_at'' PNone) (\<lambda>created.
       res_bind (safe_datetime fromiso created) (\<lambda>timestamp.
       res_bind (pget msg ''error_code'' PNone) (\<lambda>code.
       res_bind (normalize_cbdc_failure_code code) (\<lambda>rejection_code.
       res_bind (pget msg ''error_message'' PNone) (\<lambda>narrative.
       Inr \<lparr> nv_uetr = uetr, nv_individual_payment_id = payment_id, nv_sending_bic = sending_bic,
             nv_receiving_bic = receiving_bic, nv_amount = amount, nv_currency = currency,
             nv_timestamp = timestamp, nv_rail = ''CBDC_EEUR'', nv_rejection_code = rejection_code,
             nv_narrative = narrative, nv_raw_source = msg, nv_original_payment_amount_usd = original_amount,
             nv_debtor_account = PNone, nv_telemetry_eligible = True \<rparr>)))))))))))))))"

definition normalize_sand_dollar :: "iso_parser \<Rightarrow> pyval \<Rightarrow> py_exc + normalized_event" where
  "normalize_sand_dollar fromiso msg =
     with_eligibility
      (res_bind (pget msg ''amount'' (PStr ''0'')) (\<lambda>v.
       res_bind (safe_decimal v) (\<lambda>amount.
       res_bind (pget msg ''currency'' (PStr ''BSD'')) (\<lambda>currency.
       res_bind (pget msg ''settlement_amount'' PNone) (\<lambda>sttlm.
       res_bind (optional_amount sttlm) (\<lambda>original_amount.
       res_bind (pget msg ''reference_id'' (PStr '''')) (\<lambda>uetr.
       res_bind (pget2 msg ''payment_id'' ''reference_id'' (PStr '''')) (\<lambda>payment_id.
       res_bind (pget2 msg ''sender_institution_bic'' ''sender_wallet'' (PStr '''')) (\<lambda>sending_bic.
       res_bind (pget2 msg ''receiver_institution_bic'' ''receiver_wallet'' (PStr '''')) (\<lambda>receiving_bic.
       res_bind (pget msg ''event_time'' PNone) (\<lambda>created.
       res_bind (safe_datetime fromiso created) (\<lambda>timestamp.
       res_bind (pget msg ''status_code'' PNone) (\<lambda>code.
       res_bind (normalize_cbdc_failure_code code) (\<lambda>rejection_code.
       res_bind (pget msg ''status_message'' PNone) (\<lambda>narrative.
       Inr \<lparr> nv_uetr = uetr, nv_individual_payment_id = payment_id, nv_sending_bic = sending_bic,
             nv_receiving_bic = receiving_bic, nv_amount = amount, nv_currency = currency,
             nv_timestamp = timestamp, nv_rail = ''CBDC_SAND_DOLLAR'', nv_rejection_code = rejection_code,
             nv_narrative = narrative, nv_raw_source = msg, nv_original_payment_amount_usd = original_amount,
             nv_debtor_account = PNone, nv_telemetry_eligible = True \<rparr>)))))))))))))))"

definition normalize_cbdc :: "iso_parser \<Rightarrow> string \<Rightarrow> pyval \<Rightarrow> py_exc + normalized_event" where
  "normalize_cbdc fromiso rail msg =
     (let upper = py_upper rail
      in if upper = ''CBDC_ECNY'' then normalize_ecny fromiso msg
         else if upper = ''CBDC_EEUR'' then normalize_eeur fromiso msg
         else if upper = ''CBDC_SAND_DOLLAR'' then normalize_sand_dollar fromiso msg
         else Inl ValueError)"

definition normalize_nexus :: "iso_parser \<Rightarrow> pyval \<Rightarrow> py_exc + normalized_event" where
  "normalize_nexus fromiso msg =
     with_eligibility
      (res_bind (pget msg ''amount'' (PStr ''0'')) (\<lambda>v.
       res_bind (safe_decimal v) (\<lambda>amount.
       res_bind (pget msg ''currency'' (PStr '''')) (\<lambda>currency.
       res_bind (pget msg ''transaction_id'' (PStr '''')) (\<lambda>uetr.
       res_bind (pget2 msg ''end_to_end_id'' ''transaction_id'' (PStr '''')) (\<lambda>payment_id.
       res_bind (pget2 msg ''sender_bic'' ''sender_id'' (PStr '''')) (\<lambda>sending_bic.
       res_bind (pget2 msg ''receiver_bic'' ''receiver_id'' (PStr '''')) (\<lambda>receiving_bic.
       res_bind (pget msg ''timestamp'' PNone) (\<lambda>created.
       res_bind (safe_datetime fromiso created) (\<lambda>timestamp.
       res_bind (pget msg ''status_reason_code'' PNone) (\<lambda>rejection_code.
       res_bind (pget msg ''status_reason_description'' PNone) (\<lambda>narrative.
       Inr \<lparr> nv_uetr = uetr, nv_individual_payment_id = payment_id, nv_sending_bic = sending_bic,
             nv_receiving_bic = receiving_bic, nv_amount = amount, nv_currency = currency,
             nv_timestamp = timestamp, nv_rail = ''CBDC_NEXUS'', nv_rejection_code = rejection_code,
             nv_narrative = narrative, nv_raw_source = msg, nv_original_payment_amount_usd = None,
             nv_debtor_account = PNone, nv_telemetry_eligible = True \<rparr>))))))))))))"

subsection \<open>mBridge\<close>

text \<open>The number an index is compared as, \<open>len(v)\<close>, and \<open>legs[idx]\<close> for an index in range.\<close>

definition py_number :: "pyval \<Rightarrow> py_exc + dec" where
  "py_number v = (case v of PNum d \<Rightarrow> Inr d | PBool b \<Rightarrow> Inr (if b then 1 else 0) | _ \<Rightarrow> Inl TypeError)"

definition py_len :: "pyval \<Rightarrow> py_exc + nat" where
  "py_len v = (case v of PList l \<Rightarrow> Inr (length l) | PStr s \<Rightarrow> Inr (length s) | PDict d \<Rightarrow> Inr (length d) | _ \<Rightarrow> Inl TypeError)"

definition leg_at :: "pyval \<Rightarrow> dec \<Rightarrow> py_exc + pyval" where
  "leg_at legs i =
     (case legs of
        PList l \<Rightarrow> if of_int \<lfloor>i\<rfloor> = i then Inr (l ! nat \<lfloor>i\<rfloor>) else Inl TypeError
      | PStr s \<Rightarrow> if of_int \<lfloor>i\<rfloor> = i then Inr (PStr [s ! nat \<lfloor>i\<rfloor>]) else Inl TypeError
      | PDict d \<Rightarrow> Inl KeyError
      | _ \<Rightarrow> Inl TypeError)"

definition leg_failed :: "pyval \<Rightarrow> py_exc + bool" where
  "leg_failed leg =
     res_bind (pget leg ''status'' (PStr '''')) (\<lambda>st.
     Inr (case st of PStr s \<Rightarrow> py_upper s = ''FAILED'' | _ \<Rightarrow> False))"

fun first_failed :: "pyval list \<Rightarrow> py_exc + pyval" where
  "first_failed [] = Inl ValueError"
| "first_failed (leg # legs) = res_bind (leg_failed leg) (\<lambda>f. if f then Inr leg else first_failed legs)"

definition select_failed_leg :: "pyval \<Rightarrow> py_exc + pyval" where
  "select_failed_leg msg =
     res_bind (pget msg ''legs'' (PList [])) (\<lambda>legs.
     if \<not> truth legs then Inl ValueError
     else
       res_bind (pget msg ''failed_leg_index'' PNone) (\<lambda>idx.
       res_bind
         (if idx = PNone then Inr None
          else res_bind (py_number idx) (\<lambda>i.
               if i < 0 then Inr None
               else res_bind (py_len legs) (\<lambda>n. Inr (if i < of_nat n then Some i else None)))) (\<lambda>found.
       case found of
         Some i \<Rightarrow> leg_at legs i
       | None \<Rightarrow> res_bind (py_list legs) first_failed)))"

definition normalize_mbridge :: "iso_parser \<Rightarrow> pyval \<Rightarrow> py_exc + normalized_event" where
  "normalize_mbridge fromiso msg =
     with_eligibility
      (res_bind (select_failed_leg msg) (\<lambda>leg.
       res_bind (pget leg ''amount'' (PStr ''0'')) (\<lambda>v.
       res_bind (safe_decimal v) (\<lambda>amount.
       res_bind (pget leg ''currency'' (PStr '''')) (\<lambda>currency.
       res_bind (pget leg ''settlement_amount'' PNone) (\<lambda>sttlm.
       res_bind (optional_amount sttlm) (\<lambda>original_amount.
       res_bind (pget msg ''bridge_tx_id'' (PStr '''')) (\<lambda>uetr.
       res_bind (pget2 msg ''atomic_settlement_id'' ''bridge_tx_id'' (PStr '''')) (\<lambda>payment_id.
       res_bind (pget2 leg ''sender_bic'' ''sender_wallet'' (PStr '''')) (\<lambda>sending_bic.
       res_bind (pget2 leg ''receiver_bic'' ''receiver_wallet'' (PStr '''')) (\<lambda>receiving_bic.
       res_bind (pget msg ''timestamp'' PNone) (\<lambda>created.
       res_bind (safe_datetime fromiso created) (\<lambda>timestamp.
       res_bind (pget leg ''failure_code'' PNone) (\<lambda>code.
       res_bind (normalize_cbdc_failure_code code) (\<lambda>rejection_code.
       res_bind (pget leg ''failure_description'' PNone) (\<lambda>narrative.
       Inr \<lparr> nv_uetr = uetr, nv_individual_payment_id = payment_id, nv_sending_bic = sending_bic,
             nv_receiving_bic = receiving_bic, nv_amount = amount, nv_currency = currency,
             nv_timestamp = timestamp, nv_rail = ''CBDC_MBRIDGE'', nv_rejection_code = rejection_code,
             nv_narrative = narrative, nv_raw_source = msg, nv_original_payment_amount_usd = original_amount,
             nv_debtor_account = PNone, nv_telemetry_eligible = True \<rparr>))))))))))))))))"

section \<open>Dispatch\<close>

definition normalize_event :: "iso_parser \<Rightarrow> string \<Rightarrow> pyval \<Rightarrow> py_exc + normalized_event" where
  "normalize_event fromiso rail msg =
     (let upper = py_upper rail
      in if upper = ''CBDC_MBRIDGE'' then normalize_mbridge fromiso msg
         else if upper = ''CBDC_NEXUS'' then normalize_nexus fromiso msg
         else if take 5 upper = ''CBDC_'' then normalize_cbdc fromiso upper msg
         else if upper = ''SWIFT'' then with_eligibility (normalize_swift fromiso msg)
         else if upper = ''FEDNOW'' then with_eligibility (normalize_fednow fromiso msg)
         else if upper = ''RTP'' then with_eligibility (normalize_rtp fromiso msg)
         else if upper = ''SEPA'' then with_eligibility (normalize_sepa fromiso msg)
         else Inl ValueError)"

definition get_rail_maturity_hours :: "string \<Rightarrow> py_exc + pyfloat" where
  "get_rail_maturity_hours rail =
     (case dget RAIL_MATURITY_HOURS (py_upper (py_strip rail)) of Some h \<Rightarrow> Inr h | None \<Rightarrow> Inl ValueError)"

section \<open>Facts of the rails\<close>

named_theorems rail_defs

declare normalize_swift_def [rail_defs] normalize_sepa_def [rail_defs] normalize_fednow_def [rail_defs]
  normalize_rtp_def [rail_defs] normalize_ecny_def [rail_defs] normalize_eeur_def [rail_defs]
  normalize_sand_dollar_def [rail_defs] normalize_nexus_def [rail_defs] normalize_mbridge_def [rail_defs]

lemma with_eligibility_Inr:
  "with_eligibility r = Inr ev \<longleftrightarrow>
     (\<exists>e b. r = Inr e \<and> compute_telemetry_eligibility e = Inr b \<and> ev = e\<lparr>nv_telemetry_eligible := b\<rparr>)"
  by (auto simp: with_eligibility_def res_bind_Inr_iff)

lemma eligibility_ignores_flag [simp]:
  "compute_telemetry_eligibility (e\<lparr>nv_telemetry_eligible := b\<rparr>) = compute_telemetry_eligibility e"
  "is_test_transaction (e\<lparr>nv_telemetry_eligible := b\<rparr>) = is_test_transaction e"
  by (simp_all add: compute_telemetry_eligibility_def is_test_transaction_def cong: if_cong)

lemma eligibility_computed:
  assumes "with_eligibility r = Inr ev"
  shows "compute_telemetry_eligibility ev = Inr (nv_telemetry_eligible ev)"
  using assms by (auto simp: with_eligibility_Inr)

lemma rail_of_swift: "with_eligibility (normalize_swift fromiso msg) = Inr ev \<Longrightarrow> nv_rail ev = ''SWIFT'' \<and> nv_raw_source ev = msg"
  by (auto simp: with_eligibility_Inr rail_defs res_bind_Inr_iff split: prod.splits)

lemma rail_of_sepa: "with_eligibility (normalize_sepa fromiso msg) = Inr ev \<Longrightarrow> nv_rail ev = ''SEPA'' \<and> nv_raw_source ev = msg"
  by (auto simp: with_eligibility_Inr rail_defs res_bind_Inr_iff split: prod.splits)

lemma rail_of_fednow:
  assumes "with_eligibility (normalize_fednow fromiso msg) = Inr ev"
  shows "nv_rail ev = ''FEDNOW'' \<and> nv_raw_source ev = msg"
    "\<exists>r. pget msg ''rejectReason'' PNone = Inr r \<and> normalize_rejection_code r ''FEDNOW'' = Inr (nv_rejection_code ev)"
  using assms by (auto simp: with_eligibility_Inr rail_defs res_bind_Inr_iff split: prod.splits)

lemma rail_of_rtp:
  assumes "with_eligibility (normalize_rtp fromiso msg) = Inr ev"
  shows "nv_rail ev = ''RTP'' \<and> nv_raw_source ev = msg"
    "\<exists>r. pget msg ''rejectReason'' PNone = Inr r \<and> normalize_rejection_code r ''RTP'' = Inr (nv_rejection_code ev)"
  using assms by (auto simp: with_eligibility_Inr rail_defs res_bind_Inr_iff split: prod.splits)

lemma rail_of_cbdc:
  "normalize_ecny fromiso msg = Inr ev \<Longrightarrow> nv_rail ev = ''CBDC_ECNY'' \<and> nv_raw_source ev = msg"
  "normalize_eeur fromiso msg = Inr ev \<Longrightarrow> nv_rail ev = ''CBDC_EEUR'' \<and> nv_raw_source ev = msg"
  "normalize_sand_dollar fromiso msg = Inr ev \<Longrightarrow> nv_rail ev = ''CBDC_SAND_DOLLAR'' \<and> nv_raw_source ev = msg"
  "normalize_nexus fromiso msg = Inr ev \<Longrightarrow> nv_rail ev = ''CBDC_NEXUS'' \<and> nv_raw_source ev = msg"
  "normalize_mbridge fromiso msg = Inr ev \<Longrightarrow> nv_rail ev = ''CBDC_MBRIDGE'' \<and> nv_raw_source ev = msg"
  by (auto simp: with_eligibility_Inr rail_defs res_bind_Inr_iff)

lemma cbdc_eligibility:
  "normalize_ecny fromiso msg = Inr ev \<Longrightarrow> compute_telemetry_eligibility ev = Inr (nv_telemetry_eligible ev)"
  "normalize_eeur fromiso msg = Inr ev \<Longrightarrow> compute_telemetry_eligibility ev = Inr (nv_telemetry_eligible ev)"
  "normalize_sand_dollar fromiso msg = Inr ev \<Longrightarrow> compute_telemetry_eligibility ev = Inr (nv_telemetry_eligible ev)"
  "normalize_nexus fromiso msg = Inr ev \<Longrightarrow> compute_telemetry_eligibility ev = Inr (nv_telemetry_eligible ev)"
  "normalize_mbridge fromiso msg = Inr ev \<Longrightarrow> compute_telemetry_eligibility ev = Inr (nv_telemetry_eligible ev)"
  unfolding normalize_ecny_def normalize_eeur_def normalize_sand_dollar_def normalize_nexus_def normalize_mbridge_def
  by (erule eligibility_computed)+

lemmas eligibility_rules = eligibility_computed cbdc_eligibility

lemma normalize_keeps:
  assumes "normalize_event fromiso rail msg = Inr ev"
  shows "nv_rail ev = py_upper rail \<and> nv_raw_source ev = msg"
  using assms rail_of_swift rail_of_sepa rail_of_fednow(1) rail_of_rtp(1) rail_of_cbdc
  by (auto simp: normalize_event_def normalize_cbdc_def Let_def split: if_splits)

lemma normalize_eligibility:
  assumes "normalize_event fromiso rail msg = Inr ev"
  shows "compute_telemetry_eligibility ev = Inr (nv_telemetry_eligible ev)"
  using assms by (auto simp: normalize_event_def normalize_cbdc_def Let_def split: if_splits intro: eligibility_rules)

lemma normalized_rail_matures:
  assumes "normalize_event fromiso rail msg = Inr ev"
  shows "dget RAIL_MATURITY_HOURS (py_upper rail) \<noteq> None"
  using assms by (auto simp: normalize_event_def normalize_cbdc_def Let_def RAIL_MATURITY_HOURS_def split: if_splits)

text \<open>What the telemetry takes, stated without the order of the checks.\<close>

definition blocked_code :: "pyval \<Rightarrow> bool" where
  "blocked_code v = (case v of PStr c \<Rightarrow> normalise_code c \<in> ALL_BLOCK_CODES | _ \<Rightarrow> False)"

lemma eligibility_iff:
  assumes "compute_telemetry_eligibility ev = Inr b"
  shows "b \<longleftrightarrow> \<not> blocked_code (nv_rejection_code ev) \<and> 1000 \<le> nv_amount ev \<and> is_test_transaction ev = Inr False"
  using assms
  by (auto simp: compute_telemetry_eligibility_def blocked_code_def strip_upper_of_def normalise_code_def
      P10_TELEMETRY_MIN_AMOUNT_USD_def res_bind_Inr_iff ALL_BLOCK_CODES_def EPG19_COMPLIANCE_HOLD_CODES_def
      DISPUTE_FRAUD_BLOCK_CODES_def split: if_splits pyval.splits)

lemma mapped_code_PStr:
  "mapped_code table (PStr s) = Inr (case dget table (normalise_code s) of Some c \<Rightarrow> PStr c | None \<Rightarrow> PStr s)"
  by (simp add: mapped_code_def strip_upper_of_def normalise_code_def)

lemma hold_targets_block:
  "dget PROPRIETARY_TO_ISO20022 key = Some c \<Longrightarrow> c \<in> ALL_BLOCK_CODES \<and> normalise_code c \<in> ALL_BLOCK_CODES"
  by (auto simp: PROPRIETARY_TO_ISO20022_def ALL_BLOCK_CODES_def EPG19_COMPLIANCE_HOLD_CODES_def
      DISPUTE_FRAUD_BLOCK_CODES_def normalise_code_def py_strip_def py_space_def py_upper_def upper_char_def
      split: if_splits)

lemma rail_uppers [simp]:
  "py_upper ''SWIFT'' = ''SWIFT''" "py_upper ''FEDNOW'' = ''FEDNOW''" "py_upper ''RTP'' = ''RTP''"
  by code_simp+

lemma known_hold_code:
  assumes "normalize_rejection_code (PStr s) rail = Inr v" and "rail \<in> {''FEDNOW'', ''RTP''}"
    and "dget PROPRIETARY_TO_ISO20022 (normalise_code s) = Some c"
  shows "v = PStr c"
proof -
  have "s \<noteq> []"
    using assms(3) by (auto simp: PROPRIETARY_TO_ISO20022_def normalise_code_def split: if_splits)
  then show ?thesis
    using assms by (auto simp: normalize_rejection_code_def mapped_code_PStr split: if_splits)
qed

section \<open>Settlement amounts and failed legs\<close>

lemma legacy_settlement_positive:
  assumes "normalize_event fromiso rail msg = Inr ev" and "take 5 (py_upper rail) \<noteq> ''CBDC_''"
    and "nv_original_payment_amount_usd ev = Some d"
  shows "0 < d"
proof -
  have pos: "settlement_amount v m = Inr (Some x) \<Longrightarrow> 0 < x" "instant_settlement v = Inr (Some x) \<Longrightarrow> 0 < x" for v m x
    by (auto simp: settlement_amount_def instant_settlement_def positive_amount_def res_bind_Inr_iff split: if_splits)
  show ?thesis
    using assms pos
    by (auto simp: normalize_event_def Let_def with_eligibility_Inr normalize_swift_def normalize_sepa_def normalize_fednow_def
        normalize_rtp_def res_bind_Inr_iff split: if_splits prod.splits)
qed

lemma first_failed_leg:
  assumes "first_failed legs = Inr leg"
  shows "\<exists>before after. legs = before @ leg # after \<and> leg_failed leg = Inr True \<and>
           list_all (\<lambda>l. leg_failed l = Inr False) before"
  using assms
proof (induction legs rule: first_failed.induct)
  case (2 l legs)
  then obtain f where f: "leg_failed l = Inr f" and r: "(if f then Inr l else first_failed legs) = Inr leg"
    using 2(2) by (auto simp: res_bind_Inr_iff)
  show ?case
  proof (cases f)
    case True
    then show ?thesis using f r by (intro exI [of _ "[]"] exI [of _ legs]) simp
  next
    case False
    then have "first_failed legs = Inr leg" using r by simp
    then obtain before after where b: "legs = before @ leg # after" "leg_failed leg = Inr True"
      "list_all (\<lambda>l. leg_failed l = Inr False) before"
      using 2(1) [of False] f False by auto
    then show ?thesis
      using f False by (intro exI [of _ "l # before"] exI [of _ after]) simp
  qed
qed simp

lemma selected_leg_of_list:
  assumes "select_failed_leg msg = Inr leg" and "pget msg ''legs'' (PList []) = Inr (PList legs)"
  shows "leg \<in> set legs"
proof -
  have at: "leg \<in> set legs" if "leg_at (PList legs) i = Inr leg" "0 \<le> i" "i < of_nat (length legs)" for i :: dec
  proof -
    have "leg = legs ! nat \<lfloor>i\<rfloor>" and n: "of_int \<lfloor>i\<rfloor> = i"
      using that(1) by (auto simp: leg_at_def split: if_splits)
    moreover have "nat \<lfloor>i\<rfloor> < length legs"
      using that(2,3) by (simp add: floor_less_iff nat_less_iff)
    ultimately show ?thesis by simp
  qed
  have ff: "leg \<in> set legs" if "first_failed legs = Inr leg"
    using first_failed_leg [OF that] by auto
  show ?thesis
    using assms
    by (auto simp: select_failed_leg_def res_bind_Inr_iff py_len_def split: if_splits option.splits intro: at ff)
qed

section \<open>Properties\<close>

definition sample_hold :: pyval where
  "sample_hold =
     PDict [(''messageId'', PStr ''M1''), (''endToEndId'', PStr ''E1''), (''amount'', PNum 5000),
            (''debitParty'', PDict [(''routingNumber'', PStr ''021'')]),
            (''creditParty'', PDict [(''routingNumber'', PStr ''022'')]), (''timestamp'', PTime 7),
            (''rejectReason'', PStr '' aml_hold'')]"

definition sample_no_dates :: iso_parser where "sample_no_dates v = Inl ValueError"

lemma sample_strings:
  "py_upper ''fednow'' = ''FEDNOW''" "normalise_code '' aml_hold'' = ''AML_HOLD''"
  "py_upper ''M1'' = ''M1''" "py_upper ''021'' = ''021''" "py_upper ''022'' = ''022''" "normalise_code ''RR04'' = ''RR04''"
  by code_simp+

definition sample_held :: normalized_event where
  "sample_held =
     \<lparr> nv_uetr = PStr ''M1'', nv_individual_payment_id = PStr ''E1'', nv_sending_bic = PStr ''021'',
       nv_receiving_bic = PStr ''022'', nv_amount = 5000, nv_currency = PStr ''USD'', nv_timestamp = 7,
       nv_rail = ''FEDNOW'', nv_rejection_code = PStr ''RR04'', nv_narrative = PNone, nv_raw_source = sample_hold,
       nv_original_payment_amount_usd = None, nv_debtor_account = PNone, nv_telemetry_eligible = False \<rparr>"

lemma sample_normalized: "normalize_event sample_no_dates ''fednow'' sample_hold = Inr sample_held"
  by code_simp

lemma rail_maturity_lookup:
  assumes "dget RAIL_MATURITY_HOURS rail \<noteq> None"
  shows "\<exists>h. get_rail_maturity_hours rail = Inr h"
proof -
  have "py_upper (py_strip rail) = rail"
    using assms by (auto simp: RAIL_MATURITY_HOURS_def py_upper_def upper_char_def py_strip_def py_space_def split: if_splits)
  then show ?thesis
    using assms by (auto simp: get_rail_maturity_hours_def)
qed

text \<open>
  A message that is accepted becomes an event of the rail it was said to come from, which has a maturity, with the whole
  message kept; and the event feeds the telemetry exactly when its code is no block code, its amount is at least
  1000 (of its currency), and it is known not to be a test.
\<close>

lemma event_of_message:
  assumes "normalize_event fromiso rail msg = Inr ev"
  shows "nv_rail ev = py_upper rail \<and> nv_raw_source ev = msg \<and> (\<exists>h. get_rail_maturity_hours (nv_rail ev) = Inr h) \<and>
    nv_telemetry_eligible ev =
      (\<not> blocked_code (nv_rejection_code ev) \<and> 1000 \<le> nv_amount ev \<and> is_test_transaction ev = Inr False)"
  using normalize_keeps [OF assms] rail_maturity_lookup [OF normalized_rail_matures [OF assms]]
    eligibility_iff [OF normalize_eligibility [OF assms]]
  by simp

text \<open>
  C20: when FedNow or RTP rejects a payment for a reason of the shared table of holds, in any case and with any
  space around it, the event carries the ISO code of the hold, which is a block code, and does not feed the
  telemetry.
\<close>

theorem known_holds_are_blocked:
  assumes "normalize_event fromiso rail msg = Inr ev" and "py_upper rail \<in> {''FEDNOW'', ''RTP''}"
    and "pget msg ''rejectReason'' PNone = Inr (PStr s)"
    and "dget PROPRIETARY_TO_ISO20022 (normalise_code s) = Some c"
  shows "nv_rejection_code ev = PStr c \<and> c \<in> ALL_BLOCK_CODES \<and> \<not> nv_telemetry_eligible ev"
proof -
  have "\<exists>r. pget msg ''rejectReason'' PNone = Inr r \<and>
      normalize_rejection_code r (py_upper rail) = Inr (nv_rejection_code ev)"
    using assms(1,2) rail_of_fednow(2) rail_of_rtp(2) by (auto simp: normalize_event_def Let_def)
  then have code: "nv_rejection_code ev = PStr c"
    using assms(2-) by (auto intro: known_hold_code)
  then have "blocked_code (nv_rejection_code ev)"
    using hold_targets_block [OF assms(4)] by (simp add: blocked_code_def)
  then show ?thesis
    using code hold_targets_block [OF assms(4)] eligibility_iff [OF normalize_eligibility [OF assms(1)]] by simp
qed

lemma known_holds_are_blocked_witness:
  "nv_rejection_code sample_held = PStr ''RR04'' \<and> ''RR04'' \<in> ALL_BLOCK_CODES \<and> \<not> nv_telemetry_eligible sample_held"
  using known_holds_are_blocked [OF sample_normalized, of "'' aml_hold''" "''RR04''"]
  by (simp add: sample_strings sample_hold_def PROPRIETARY_TO_ISO20022_def)

text \<open>A Sand Dollar settlement amount of minus five is taken; the rails above take only positive ones.\<close>

lemma cbdc_settlement_may_be_negative:
  "(case normalize_event sample_no_dates ''CBDC_SAND_DOLLAR''
       (PDict [(''amount'', PNum 5000), (''settlement_amount'', PNum (- 5)), (''event_time'', PTime 7)]) of
      Inr ev \<Rightarrow> nv_original_payment_amount_usd ev = Some (- 5) | Inl _ \<Rightarrow> False)"
  by code_simp

text \<open>An RTP message whose amount stands beside its identifiers, in \<open>paymentMessage\<close>, counts as zero.\<close>

lemma rtp_nested_amount_dropped:
  "(case normalize_event sample_no_dates ''RTP''
       (PDict [(''paymentMessage'', PDict [(''messageId'', PStr ''M1''), (''amount'', PNum 5000)]), (''timestamp'', PTime 7)]) of
      Inr ev \<Rightarrow> nv_uetr ev = PStr ''M1'' \<and> nv_amount ev = 0 | Inl _ \<Rightarrow> False)"
  by code_simp

text \<open>Codes the table for central bank money yields that the rejection taxonomy does not know.\<close>

lemma cbdc_codes_outside_taxonomy:
  "filter (\<lambda>c. dget REJECTION_CODE_TAXONOMY c = None) (map snd CBDC_FAILURE_CODE_MAP) =
     [''TM01'', ''DS02'', ''DS02'']"
  by code_simp

end
