(* ===== verification/Cancellation_Detector.thy ===== *)
theory Cancellation_Detector
  imports Event_Normalizer
begin

text \<open>
  \<open>lip/c5_streaming/cancellation_detector.py\<close>: recalls (camt.056) and returns (pacs.004) of payments, and the
  alerts they raise.  A key that cannot be hashed, a list or a dictionary, raises \<open>TypeError\<close>; two keys are the same
  when they are the same value.  Each reading of the clock is an argument: the one the recall is recorded under,
  the one of the count in the alert about a funded loan, and the one of the count that is compared with the
  threshold.  The descriptions and the metrics are left out.

  Shown: after any history of fundings, repayments and recalls, the alerts of the next recall are those that the
  whole history calls for, although only the last hundred recalls of a sender are kept.
\<close>

section \<open>Messages\<close>

definition CANCELLATION_SUSPICION_WINDOW_SECONDS :: time where "CANCELLATION_SUSPICION_WINDOW_SECONDS = 300"
definition SENDER_RECALL_THRESHOLD :: nat where "SENDER_RECALL_THRESHOLD = 3"
definition SENDER_RECALL_LOOKBACK_SECONDS :: time where "SENDER_RECALL_LOOKBACK_SECONDS = 86400"
definition MAX_RECALL_HISTORY_PER_SENDER :: nat where "MAX_RECALL_HISTORY_PER_SENDER = 100"

record CancellationEvent =
  ca_uetr :: pyval
  ca_cancellation_type :: string
  ca_requesting_bic :: pyval
  ca_reason_code :: pyval
  ca_amount :: dec
  ca_currency :: pyval
  ca_timestamp :: time
  ca_raw_source :: pyval

record CancellationAlert =
  al_uetr :: pyval
  al_alert_type :: string
  al_severity :: string
  al_cancellation_event :: CancellationEvent
  al_time_since_funding_seconds :: "time option"
  al_sender_recall_count_24h :: nat
  al_recommended_action :: string
  al_detected_at :: time

text \<open>\<open>v.get(k, w.get(k1, {}).get(k, {}))\<close>.\<close>

definition pget_nested :: "pyval \<Rightarrow> string \<Rightarrow> string \<Rightarrow> py_exc + pyval" where
  "pget_nested v k k1 = res_bind (pget_dicts v [k1, k]) (pget v k)"

definition cancelled_uetr :: "pyval \<Rightarrow> pyval \<Rightarrow> py_exc + pyval" where
  "cancelled_uetr tx_info msg =
     res_bind (pget_else tx_info ''OrgnlEndToEndId'' msg ''uetr'' (PStr '''')) (pget tx_info ''OrgnlUETR'')"

definition cancelled_amount :: "pyval \<Rightarrow> pyval \<Rightarrow> py_exc + dec \<times> pyval" where
  "cancelled_amount amt_block msg =
     (if is_dict amt_block then
        res_bind (pget2 amt_block ''value'' ''Amt'' (PStr ''0'')) (\<lambda>v.
        res_bind (decimal_of v) (\<lambda>amount.
        res_bind (pget amt_block ''Ccy'' (PStr ''USD'')) (\<lambda>currency. Inr (amount, currency))))
      else
        res_bind (if truth amt_block then decimal_of amt_block else Inr 0) (\<lambda>amount.
        res_bind (pget msg ''currency'' (PStr ''USD'')) (\<lambda>currency. Inr (amount, currency))))"

definition time_or_now :: "iso_parser \<Rightarrow> time \<Rightarrow> pyval \<Rightarrow> py_exc + time" where
  "time_or_now fromiso now v =
     (if \<not> truth v then Inr now
      else case fromiso v of
          Inr t \<Rightarrow> Inr t
        | Inl e \<Rightarrow> if e = ValueError \<or> e = TypeError then Inr now else Inl e)"

definition normalize_camt056 :: "iso_parser \<Rightarrow> time \<Rightarrow> pyval \<Rightarrow> py_exc + CancellationEvent" where
  "normalize_camt056 fromiso now msg =
     res_bind (pget_nested msg ''Undrlyg'' ''FIToFIPmtCxlReq'') (\<lambda>underlying.
     res_bind (pget_else underlying ''TxInf'' msg ''TxInf'' (PDict [])) (\<lambda>tx_info.
     res_bind (pget_nested msg ''Assgnmt'' ''FIToFIPmtCxlReq'') (\<lambda>assgnmt.
     res_bind (cancelled_uetr tx_info msg) (\<lambda>uetr.
     res_bind (pget_dicts tx_info [''CxlRsnInf'', ''Rsn'']) (\<lambda>rsn.
     res_bind (reason_code rsn) (\<lambda>reason.
     res_bind (pget assgnmt ''Assgnr'' (PDict [])) (\<lambda>assgnr.
     res_bind (por (bic_at assgnr ''Agt'') (pget msg ''requesting_bic'' (PStr ''''))) (\<lambda>requesting_bic.
     res_bind (pget tx_info ''OrgnlIntrBkSttlmAmt'' (PDict [])) (\<lambda>amt_block.
     res_bind (cancelled_amount amt_block msg) (\<lambda>(amount, currency).
     res_bind (pget_else tx_info ''CxlReqDt'' assgnmt ''CreDtTm'' (PStr '''')) (\<lambda>ts.
     res_bind (time_or_now fromiso now ts) (\<lambda>timestamp.
     Inr \<lparr> ca_uetr = uetr, ca_cancellation_type = ''CAMT056'', ca_requesting_bic = requesting_bic,
           ca_reason_code = reason, ca_amount = amount, ca_currency = currency, ca_timestamp = timestamp,
           ca_raw_source = msg \<rparr>))))))))))))"

definition normalize_pacs004 :: "iso_parser \<Rightarrow> time \<Rightarrow> pyval \<Rightarrow> py_exc + CancellationEvent" where
  "normalize_pacs004 fromiso now msg =
     res_bind (pget_nested msg ''GrpHdr'' ''PmtRtr'') (\<lambda>grp_hdr.
     res_bind (pget_nested msg ''TxInf'' ''PmtRtr'') (\<lambda>tx_info.
     res_bind (cancelled_uetr tx_info msg) (\<lambda>uetr.
     res_bind (pget_dicts tx_info [''RtrRsnInf'', ''Rsn'']) (\<lambda>rsn.
     res_bind (reason_code rsn) (\<lambda>reason.
     res_bind (por (bic_at grp_hdr ''InstgAgt'') (pget msg ''requesting_bic'' (PStr ''''))) (\<lambda>requesting_bic.
     res_bind (pget tx_info ''RtrdIntrBkSttlmAmt'' (PDict [])) (\<lambda>amt_block.
     res_bind (cancelled_amount amt_block msg) (\<lambda>(amount, currency).
     res_bind (pget grp_hdr ''CreDtTm'' (PStr '''')) (\<lambda>ts.
     res_bind (time_or_now fromiso now ts) (\<lambda>timestamp.
     Inr \<lparr> ca_uetr = uetr, ca_cancellation_type = ''PACS004'', ca_requesting_bic = requesting_bic,
           ca_reason_code = reason, ca_amount = amount, ca_currency = currency, ca_timestamp = timestamp,
           ca_raw_source = msg \<rparr>))))))))))"

section \<open>The detector\<close>

record CancellationDetector =
  cd_suspicion_window :: time
  cd_sender_threshold :: nat
  cd_funded_loans :: "(pyval, time) dict"
  cd_sender_recalls :: "(pyval, (time \<times> pyval) list) dict"

definition new_detector :: "time \<Rightarrow> nat \<Rightarrow> CancellationDetector" where
  "new_detector window threshold =
     \<lparr> cd_suspicion_window = window, cd_sender_threshold = threshold, cd_funded_loans = [], cd_sender_recalls = [] \<rparr>"

definition hashable :: "pyval \<Rightarrow> bool" where
  "hashable v = (case v of PList _ \<Rightarrow> False | PDict _ \<Rightarrow> False | _ \<Rightarrow> True)"

definition register_funding :: "time \<Rightarrow> pyval \<Rightarrow> time option \<Rightarrow> CancellationDetector \<Rightarrow> py_exc + CancellationDetector" where
  "register_funding now uetr funded_at d =
     (if hashable uetr
      then Inr (d\<lparr>cd_funded_loans := dset uetr (case funded_at of Some t \<Rightarrow> t | None \<Rightarrow> now) (cd_funded_loans d)\<rparr>)
      else Inl TypeError)"

definition deregister_funding :: "pyval \<Rightarrow> CancellationDetector \<Rightarrow> py_exc + CancellationDetector" where
  "deregister_funding uetr d =
     (if hashable uetr then Inr (d\<lparr>cd_funded_loans := dpop uetr (cd_funded_loans d)\<rparr>) else Inl TypeError)"

definition recalls_kept :: "pyval \<Rightarrow> CancellationDetector \<Rightarrow> (time \<times> pyval) list" where
  "recalls_kept bic d = (case dget (cd_sender_recalls d) bic of Some h \<Rightarrow> h | None \<Rightarrow> [])"

definition newest :: "nat \<Rightarrow> 'a list \<Rightarrow> 'a list" where
  "newest n xs = drop (length xs - n) xs"

definition record_recall :: "time \<Rightarrow> pyval \<Rightarrow> pyval \<Rightarrow> CancellationDetector \<Rightarrow> CancellationDetector" where
  "record_recall now bic uetr d =
     d\<lparr>cd_sender_recalls := dset bic (newest MAX_RECALL_HISTORY_PER_SENDER (recalls_kept bic d @ [(now, uetr)]))
         (cd_sender_recalls d)\<rparr>"

definition count_recent_recalls :: "time \<Rightarrow> pyval \<Rightarrow> CancellationDetector \<Rightarrow> nat" where
  "count_recent_recalls now bic d =
     length (filter (\<lambda>(ts, _). ts \<ge> now - SENDER_RECALL_LOOKBACK_SECONDS) (recalls_kept bic d))"

definition cancellation_alert ::
    "string \<Rightarrow> string \<Rightarrow> time \<Rightarrow> CancellationEvent \<Rightarrow> time option \<Rightarrow> nat \<Rightarrow> CancellationAlert" where
  "cancellation_alert kind severity now event since count =
     \<lparr> al_uetr = ca_uetr event, al_alert_type = kind, al_severity = severity, al_cancellation_event = event,
       al_time_since_funding_seconds = since, al_sender_recall_count_24h = count,
       al_recommended_action = ''HUMAN_REVIEW'', al_detected_at = now \<rparr>"

definition funding_alerts :: "time \<Rightarrow> time \<Rightarrow> CancellationEvent \<Rightarrow> time option \<Rightarrow> CancellationDetector \<Rightarrow> CancellationAlert list" where
  "funding_alerts now t1 event since d =
     (case since of
        None \<Rightarrow> []
      | Some s \<Rightarrow>
          if s < cd_suspicion_window d then
            [cancellation_alert ''RAPID_RECALL'' ''HIGH'' now event since (count_recent_recalls t1 (ca_requesting_bic event) d)]
          else if ca_cancellation_type event = ''CAMT056'' then
            [cancellation_alert ''POST_FUNDING_RECALL'' ''MEDIUM'' now event since (count_recent_recalls t1 (ca_requesting_bic event) d)]
          else [])"

definition sender_alerts :: "time \<Rightarrow> time \<Rightarrow> CancellationEvent \<Rightarrow> time option \<Rightarrow> CancellationDetector \<Rightarrow> CancellationAlert list" where
  "sender_alerts now t2 event since d =
     (let n = count_recent_recalls t2 (ca_requesting_bic event) d
      in if n \<ge> cd_sender_threshold d then [cancellation_alert ''REPEAT_SENDER'' ''MEDIUM'' now event since n] else [])"

definition detect_cancellation ::
    "time \<Rightarrow> time \<Rightarrow> time \<Rightarrow> CancellationEvent \<Rightarrow> CancellationDetector \<Rightarrow>
     (py_exc + CancellationAlert list) \<times> CancellationDetector" where
  "detect_cancellation now t1 t2 event d =
     (if \<not> hashable (ca_requesting_bic event) then (Inl TypeError, d)
      else
        let d = record_recall now (ca_requesting_bic event) (ca_uetr event) d
        in if \<not> hashable (ca_uetr event) then (Inl TypeError, d)
           else
             let since = map_option (\<lambda>t. now - t) (dget (cd_funded_loans d) (ca_uetr event))
             in (Inr (funding_alerts now t1 event since d @ sender_alerts now t2 event since d), d))"

definition get_funded_loan_count :: "CancellationDetector \<Rightarrow> nat" where
  "get_funded_loan_count d = length (cd_funded_loans d)"

text \<open>\<open>EventNormalizer.process_cancellation\<close>; \<open>made\<close> is the time an event without a readable one is given.\<close>

definition process_cancellation ::
    "iso_parser \<Rightarrow> time \<Rightarrow> time \<Rightarrow> time \<Rightarrow> time \<Rightarrow> string \<Rightarrow> pyval \<Rightarrow> CancellationDetector option \<Rightarrow>
     (py_exc + CancellationAlert list) \<times> CancellationDetector option" where
  "process_cancellation fromiso made now t1 t2 message_type msg detector =
     (case detector of
        None \<Rightarrow> (Inr [], None)
      | Some d \<Rightarrow>
          if py_upper message_type = ''CAMT056'' \<or> py_upper message_type = ''PACS004'' then
            (case (if py_upper message_type = ''CAMT056'' then normalize_camt056 else normalize_pacs004) fromiso made msg of
               Inl e \<Rightarrow> (Inl e, Some d)
             | Inr event \<Rightarrow> (let (r, d) = detect_cancellation now t1 t2 event d in (r, Some d)))
          else (Inr [], Some d))"

section \<open>Histories\<close>

datatype detector_op =
    OpFund time pyval "time option"
  | OpUnfund pyval
  | OpCancel time time time CancellationEvent

fun run_op :: "detector_op \<Rightarrow> CancellationDetector \<Rightarrow> CancellationDetector" where
  "run_op (OpFund now uetr funded_at) d = (case register_funding now uetr funded_at d of Inr d' \<Rightarrow> d' | Inl _ \<Rightarrow> d)"
| "run_op (OpUnfund uetr) d = (case deregister_funding uetr d of Inr d' \<Rightarrow> d' | Inl _ \<Rightarrow> d)"
| "run_op (OpCancel now t1 t2 event) d = snd (detect_cancellation now t1 t2 event d)"

text \<open>What a history says, without the limit on what is kept.\<close>

fun recall_of :: "pyval \<Rightarrow> detector_op \<Rightarrow> (time \<times> pyval) list" where
  "recall_of bic (OpCancel now t1 t2 event) =
     (if ca_requesting_bic event = bic \<and> hashable bic then [(now, ca_uetr event)] else [])"
| "recall_of bic _ = []"

definition recalls_of :: "pyval \<Rightarrow> detector_op list \<Rightarrow> (time \<times> pyval) list" where
  "recalls_of bic ops = concat (map (recall_of bic) ops)"

fun funding_after :: "pyval \<Rightarrow> detector_op \<Rightarrow> time option \<Rightarrow> time option" where
  "funding_after uetr (OpFund now u funded_at) f =
     (if u = uetr then Some (case funded_at of Some t \<Rightarrow> t | None \<Rightarrow> now) else f)"
| "funding_after uetr (OpUnfund u) f = (if u = uetr then None else f)"
| "funding_after uetr (OpCancel now t1 t2 event) f = f"

definition funding_of :: "pyval \<Rightarrow> detector_op list \<Rightarrow> time option" where
  "funding_of uetr ops = fold (funding_after uetr) ops None"

definition detector_after :: "time \<Rightarrow> nat \<Rightarrow> detector_op list \<Rightarrow> CancellationDetector" where
  "detector_after window threshold ops = fold run_op ops (new_detector window threshold)"

definition recalls_last_day :: "detector_op list \<Rightarrow> time \<Rightarrow> time \<Rightarrow> CancellationEvent \<Rightarrow> nat" where
  "recalls_last_day ops now t2 event =
     length (filter (\<lambda>(t, _). t2 - 86400 \<le> t) (recalls_of (ca_requesting_bic event) ops @ [(now, ca_uetr event)]))"

definition funding_alert_due :: "time \<Rightarrow> detector_op list \<Rightarrow> time \<Rightarrow> CancellationEvent \<Rightarrow> string list" where
  "funding_alert_due window ops now event =
     (case funding_of (ca_uetr event) ops of
        None \<Rightarrow> []
      | Some t \<Rightarrow>
          if now - t < window then [''RAPID_RECALL'']
          else if ca_cancellation_type event = ''CAMT056'' then [''POST_FUNDING_RECALL''] else [])"

lemma newest_snoc: "newest n (newest n xs @ [x]) = newest n (xs @ [x])"
  by (cases "length xs \<le> n") (simp_all add: newest_def Suc_diff_le drop_Cons')

lemma run_op_keeps [simp]:
  "cd_suspicion_window (run_op op d) = cd_suspicion_window d" "cd_sender_threshold (run_op op d) = cd_sender_threshold d"
  by (cases op; simp add: register_funding_def deregister_funding_def detect_cancellation_def record_recall_def Let_def)+

lemma settings_kept:
  "cd_suspicion_window (fold run_op ops d) = cd_suspicion_window d \<and>
   cd_sender_threshold (fold run_op ops d) = cd_sender_threshold d"
  by (induction ops arbitrary: d) simp_all

lemma kept_after_op:
  "recalls_kept bic (run_op op d) =
     (if recall_of bic op = [] then recalls_kept bic d
      else newest MAX_RECALL_HISTORY_PER_SENDER (recalls_kept bic d @ recall_of bic op))"
  by (cases op)
     (auto simp: register_funding_def deregister_funding_def detect_cancellation_def record_recall_def Let_def
       recalls_kept_def dict_simps)

lemma recalls_kept_of_history:
  "recalls_kept bic (detector_after window threshold ops) = newest MAX_RECALL_HISTORY_PER_SENDER (recalls_of bic ops)"
proof (induction ops rule: rev_induct)
  case Nil
  then show ?case by (simp add: detector_after_def new_detector_def recalls_kept_def recalls_of_def newest_def)
next
  case (snoc op ops)
  have "recall_of bic op = [] \<or> (\<exists>x. recall_of bic op = [x])" by (cases op) auto
  then show ?case
    using snoc newest_snoc [of MAX_RECALL_HISTORY_PER_SENDER]
    by (auto simp: detector_after_def kept_after_op recalls_of_def)
qed

lemma funding_after_op:
  "hashable uetr \<Longrightarrow>
     dget (cd_funded_loans (run_op op d)) uetr = funding_after uetr op (dget (cd_funded_loans d) uetr)"
  by (cases op)
     (auto simp: register_funding_def deregister_funding_def detect_cancellation_def record_recall_def Let_def dict_simps)

lemma funding_of_history:
  assumes "hashable uetr"
  shows "dget (cd_funded_loans (detector_after window threshold ops)) uetr = funding_of uetr ops"
  by (induction ops rule: rev_induct)
     (simp_all add: detector_after_def new_detector_def funding_of_def funding_after_op [OF assms])

lemma recent_among_newest:
  fixes xs :: "(time \<times> 'a) list"
  assumes "sorted (map fst xs)" and "k \<le> n"
  shows "k \<le> length (filter (\<lambda>(t, _). c \<le> t) (newest n xs)) \<longleftrightarrow> k \<le> length (filter (\<lambda>(t, _). c \<le> t) xs)"
proof -
  define old new where "old = take (length xs - n) xs" and "new = newest n xs"
  have xs: "xs = old @ new" by (simp add: old_def new_def newest_def)
  show ?thesis
  proof (cases "\<exists>x \<in> set old. c \<le> fst x")
    case True
    then obtain x where x: "x \<in> set old" "c \<le> fst x" by blast
    then have "old \<noteq> []" by auto
    then have "length xs > n" by (simp add: old_def)
    then have len: "length new = n" by (simp add: new_def newest_def)
    have "\<forall>y \<in> set new. fst x \<le> fst y"
      using assms(1) x(1) unfolding xs by (auto simp: sorted_append)
    then have "filter (\<lambda>(t, _). c \<le> t) new = new"
      using x(2) by (fastforce intro: filter_True)
    then show ?thesis
      using assms(2) len unfolding new_def [symmetric] by (subst xs) simp
  next
    case False
    then have "filter (\<lambda>(t, _). c \<le> t) old = []" by (auto simp: filter_empty_conv)
    then show ?thesis unfolding new_def [symmetric] by (subst xs) simp
  qed
qed

lemma recall_recorded:
  assumes "hashable (ca_requesting_bic event)"
  shows "recalls_kept (ca_requesting_bic event)
      (record_recall now (ca_requesting_bic event) (ca_uetr event) (detector_after window threshold ops)) =
    newest MAX_RECALL_HISTORY_PER_SENDER (recalls_of (ca_requesting_bic event) ops @ [(now, ca_uetr event)])"
  by (simp add: record_recall_def recalls_kept_def dict_simps)
    (simp add: recalls_kept_def [symmetric] recalls_kept_of_history newest_snoc)

section \<open>Properties\<close>

text \<open>
  The alerts, to the letter of the code: a sender is a repeated one as soon as its recalls reach the threshold.
\<close>

lemma alerts_at_threshold:
  assumes "hashable (ca_requesting_bic event)" and "hashable (ca_uetr event)"
    and "threshold \<le> 100"
    and "sorted (map fst (recalls_of (ca_requesting_bic event) ops @ [(now, ca_uetr event)]))"
  shows "\<exists>alerts d'. detect_cancellation now t1 t2 event (detector_after window threshold ops) = (Inr alerts, d') \<and>
    map al_alert_type alerts = funding_alert_due window ops now event @
      (if threshold \<le> recalls_last_day ops now t2 event then [''REPEAT_SENDER''] else []) \<and>
    list_all (\<lambda>a. al_recommended_action a = ''HUMAN_REVIEW'') alerts"
proof -
  define d where "d = detector_after window threshold ops"
  define d' where "d' = record_recall now (ca_requesting_bic event) (ca_uetr event) d"
  have settings: "cd_suspicion_window d' = window" "cd_sender_threshold d' = threshold"
    using settings_kept [of ops "new_detector window threshold"]
    by (simp_all add: d'_def d_def record_recall_def detector_after_def new_detector_def)
  have funding: "dget (cd_funded_loans d') (ca_uetr event) = funding_of (ca_uetr event) ops"
    using funding_of_history [OF assms(2), of window threshold ops] by (simp add: d'_def d_def record_recall_def)
  have "threshold \<le> count_recent_recalls t2 (ca_requesting_bic event) d' \<longleftrightarrow>
      threshold \<le> recalls_last_day ops now t2 event"
    using recent_among_newest [OF assms(4), of threshold MAX_RECALL_HISTORY_PER_SENDER "t2 - 86400"] assms(3)
    unfolding count_recent_recalls_def recalls_last_day_def d'_def d_def recall_recorded [OF assms(1)] SENDER_RECALL_LOOKBACK_SECONDS_def
    by (simp add: MAX_RECALL_HISTORY_PER_SENDER_def)
  then show ?thesis
    using assms(1,2) settings funding
    unfolding d_def [symmetric]
    by (auto simp: detect_cancellation_def Let_def d'_def [symmetric] funding_alerts_def sender_alerts_def
        funding_alert_due_def cancellation_alert_def split: option.splits)
qed

text \<open>
  C21: after any history of fundings, repayments and recalls with the recalls of the sender in clock order, a
  recall raises the alerts the whole history calls for, all of them for a human to review, although the detector
  keeps only the last hundred recalls of a sender: a rapid recall when the loan was funded within the window and
  not removed since, otherwise, for a recall request, a recall after funding; and then that of a repeated sender if it
  made more than the threshold of recalls in the last 24 hours and not if it made fewer, for any threshold up to one
  hundred.  (Whether the threshold itself is enough, the code and its comments do not agree: see above.)
\<close>

theorem alerts_of_history:
  assumes "hashable (ca_requesting_bic event)" and "hashable (ca_uetr event)"
    and "threshold \<le> 100"
    and "sorted (map fst (recalls_of (ca_requesting_bic event) ops @ [(now, ca_uetr event)]))"
  shows "\<exists>alerts d' repeated.
    detect_cancellation now t1 t2 event (detector_after window threshold ops) = (Inr alerts, d') \<and>
    map al_alert_type alerts = funding_alert_due window ops now event @ (if repeated then [''REPEAT_SENDER''] else []) \<and>
    (threshold < recalls_last_day ops now t2 event \<longrightarrow> repeated) \<and>
    (recalls_last_day ops now t2 event < threshold \<longrightarrow> \<not> repeated) \<and>
    list_all (\<lambda>a. al_recommended_action a = ''HUMAN_REVIEW'') alerts"
proof -
  from alerts_at_threshold [OF assms, of t1 t2 window] obtain alerts d' where
    "detect_cancellation now t1 t2 event (detector_after window threshold ops) = (Inr alerts, d')"
    "map al_alert_type alerts = funding_alert_due window ops now event @
      (if threshold \<le> recalls_last_day ops now t2 event then [''REPEAT_SENDER''] else [])"
    "list_all (\<lambda>a. al_recommended_action a = ''HUMAN_REVIEW'') alerts" by blast
  then show ?thesis
    by (intro exI [of _ alerts] exI [of _ d'] exI [of _ "threshold \<le> recalls_last_day ops now t2 event"]) auto
qed

definition sample_recall :: "string \<Rightarrow> CancellationEvent" where
  "sample_recall uetr =
     \<lparr> ca_uetr = PStr uetr, ca_cancellation_type = ''CAMT056'', ca_requesting_bic = PStr ''BANKA'',
       ca_reason_code = PNone, ca_amount = 1000, ca_currency = PStr ''USD'', ca_timestamp = 0, ca_raw_source = PDict [] \<rparr>"

definition sample_recalls :: "detector_op list" where
  "sample_recalls =
     [OpFund 0 (PStr ''U3'') None, OpCancel 10 10 10 (sample_recall ''U1''), OpCancel 20 20 20 (sample_recall ''U2'')]"

lemma alerts_of_history_witness:
  "\<exists>alerts d'. detect_cancellation 30 30 30 (sample_recall ''U3'') (detector_after 300 2 sample_recalls) = (Inr alerts, d') \<and>
     map al_alert_type alerts = [''RAPID_RECALL'', ''REPEAT_SENDER'']"
proof -
  have "funding_alert_due 300 sample_recalls 30 (sample_recall ''U3'') = [''RAPID_RECALL'']"
    "recalls_last_day sample_recalls 30 30 (sample_recall ''U3'') = 3"
    by code_simp+
  moreover have "sorted (map fst (recalls_of (ca_requesting_bic (sample_recall ''U3'')) sample_recalls @
      [(30, ca_uetr (sample_recall ''U3''))]))"
    by code_simp
  moreover have "hashable (ca_requesting_bic (sample_recall ''U3''))" "hashable (ca_uetr (sample_recall ''U3''))"
    by (simp_all add: sample_recall_def hashable_def)
  ultimately show ?thesis
    using alerts_of_history [of "sample_recall ''U3''" 2 sample_recalls 30 30 30 300] by fastforce
qed

text \<open>A return by the receiving bank counts as a recall, and soon after funding raises the alert of a rapid recall.\<close>

lemma return_raises_rapid_recall:
  "map al_alert_type (funding_alerts now t1 (event\<lparr>ca_cancellation_type := ''PACS004''\<rparr>) (Some s) d) =
     (if s < cd_suspicion_window d then [''RAPID_RECALL''] else [])"
  by (simp add: funding_alerts_def cancellation_alert_def)

end
