(* ===== verification/Spec2Isabelle.thy ===== *)
theory Spec2Isabelle
  imports State_Machines Rejection_Taxonomy Business_Calendar Fee Deployment_Phase UETR_Mapping
    UETR_Tracker Repayment_Loop Kill_Switch Degraded_Mode Human_Override Decision_Log Borrower_Registry
    Known_Entities Offer_Delivery Stress_Detector Offer_Terms Execution_Agent Velocity Sanctions Aml_Checker
    Exception_Assessment Portfolio_Risk Pipeline Pipeline_Properties Pipeline_Examples Query_Metering
    License_Boot Settlement_Bridge Corridor_Buffer Cascade_Service Entity_Resolver
    Anonymizer Circuit_Breaker Rate_Limiter Cancellation_Detector
begin

text \<open>
  A model of the Liquidity Intelligence Platform (\<open>src/lip\<close>): a bank's failed payments come in, and the
  platform offers the bank a short bridge loan for those it may bridge, books the loan when the offer is
  accepted, and collects it when the original payment settles.

  \<^bold>\<open>The program and the theories.\<close>  One theory per component, in the order a payment meets them.

  \<^item> \<open>Py_Base\<close>, \<open>Py_Decimal\<close>, \<open>Py_Date\<close>, \<open>Py_Value\<close>: what the code uses of Python.  A call that may
    raise returns \<open>py_exc + 'a\<close>; a dictionary whose order shows is an association list, one that is only
    looked up a map; a \<open>Decimal\<close> is a rational, rounded after every operation to 28 digits, half even; a float
    is the rational it stands for, without rounding; a \<open>pyval\<close> is a parsed JSON value.  \<open>Constants\<close>:
    \<open>lip/common/constants.py\<close>.
  \<^item> \<open>Redis_Api\<close>: the Redis client, a parameter with the documented behaviour of the commands the code
    issues as hypotheses.  Other components name the commands they need in the same way (\<open>redis_sets\<close>,
    \<open>zset_api\<close>, \<open>hash_api\<close>), and each record of hypotheses is shown to hold of a concrete server.
  \<^item> \<open>Event_Normalizer\<close>: a message of one of the nine rails becomes an event (\<open>event_normalizer.py\<close> and the
    normalizers of the rails of central bank money).  \<open>Cancellation_Detector\<close>: recalls and returns of payments.
  \<^item> \<open>Pipeline\<close>: \<open>lip/pipeline.py\<close>, the composition, on events whose fields have their declared types.  \<open>process\<close> asks \<open>UETR_Tracker\<close> for a retry, takes a
    probability from the failure model (a parameter), asks the dispute classifier (a parameter) and the AML gate
    (\<open>Aml_Checker\<close> over \<open>Sanctions\<close> and \<open>Velocity\<close>), prices the loan and calls \<open>Execution_Agent\<close>; each
    result is assessed (\<open>Exception_Assessment\<close>) and recorded in the tracker.  \<open>finalize_accepted_offer\<close> books
    an accepted offer in \<open>Velocity\<close>, \<open>Repayment_Loop\<close> and \<open>Portfolio_Risk\<close>.
  \<^item> \<open>Execution_Agent\<close>: \<open>process_payment\<close> of \<open>agent.py\<close>, over \<open>Tps_Limiter\<close>, \<open>Kill_Switch\<close>,
    \<open>Degraded_Mode\<close>, \<open>Borrower_Registry\<close>, \<open>Human_Override\<close>, \<open>Stress_Detector\<close>, \<open>Loan_Offer\<close> with
    \<open>Offer_Terms\<close>, \<open>Offer_Delivery\<close> and \<open>Decision_Log\<close>.
  \<^item> \<open>Repayment_Loop\<close> with \<open>Settlement_Handlers\<close> and \<open>UETR_Mapping\<close>: settlement signals, active loans, and
    the repayment of each loan.
  \<^item> \<open>Settlement_Bridge\<close>: what follows a repayment (\<open>settlement_bridge.py\<close>): the royalty and its monthly
    reports (\<open>Royalty\<close>), the metered revenue, the NAV snapshots.  \<open>Corridor_Buffer\<close>: the settlement times of a
    corridor and the estimate taken from them.
  \<^item> \<open>License_Boot\<close>: the licence check at start.  \<open>Query_Metering\<close>: the budgets of regulators that query the
    platform, in memory and on Redis.  \<open>Py_Iso\<close>, \<open>Py_Month\<close>: dates as text and calendar months.
  \<^item> \<open>BIC_Graph\<close>: the graph of payments between banks.  \<open>Entity_Resolver\<close> lifts it to corporates,
    \<open>Cascade_Graph\<close> propagates a failure over them, \<open>Intervention\<close> plans bridges against the cascade, and
    \<open>Cascade_Service\<close> raises alerts, keeps them and executes their plans.
  \<^item> Services around the decisions: \<open>Anonymizer\<close> (what regulators see of the telemetry, with its privacy budget),
    \<open>Rate_Limiter\<close> (HTTP requests), \<open>Circuit_Breaker\<close> (calls of external services).
  \<^item> Tables and arithmetic: \<open>State_Machines\<close>, \<open>Rejection_Taxonomy\<close>, \<open>Business_Calendar\<close>, \<open>Fee\<close>,
    \<open>Deployment_Phase\<close>, \<open>Known_Entities\<close>.

  \<^bold>\<open>State and operations.\<close>  A class is a record of its fields, a method a function that takes the record and
  returns its result with the new record, every raise a value.  Clock readings, fresh identifiers and whether a
  server answers are arguments of a call.  A call is atomic where the code holds a lock or has one thread; where
  processes share a server, the theorems are about every interleaving of their calls.

  \<^bold>\<open>Interfaces.\<close>  A contract that several components have is a locale, with its consequences proved once and an
  interpretation for each provider: \<open>lifecycle\<close> (both state machines), \<open>expiring_store\<close> (tracker, handoffs,
  end-to-end ids), \<open>claim_once\<close> (both idempotency stores of the repayment loop), \<open>halt_flag\<close> (kill switch in memory and on
  Redis, degraded mode), \<open>case_registry\<close> (borrowers, known entities), \<open>offer_backend\<close> (both stores of offers),
  \<open>sliding_window\<close> (dollar and count caps), \<open>metered_budget\<close> (query budgets on a server).

  \<^bold>\<open>What is shown.\<close> An offer is made exactly when every gate is open, not again for a
  payment that was decided while its tracker remembers it and can be read, and within its bounds
  (\<open>Pipeline_Properties\<close>, \<open>Execution_Agent\<close>, \<open>Loan_Offer\<close>); what is
  screened out is recommended for no bridge and no guarantee; velocity caps hold in every window of a day for
  all processes together; a listed party never passes the AML gate, and a payment between named parties passes
  exactly when nothing is held against it; an offer is answered once, whichever process answers; a loan is
  claimed for repayment at most once on the server within the life of a claim, and at most once by each process
  when the server is out, and its fee is split without loss; a halt is seen by every process; an operator
  decides an override once and a sweep resolves what has expired; every decision is logged (a halt, a request
  for review and the refusal of a payment without UETR are not) and what the log writes is a chain whose last
  signature determines it; every repayment is booked by each of its consumers and settlements conserve
  royalties; query budgets hold for all replicas; a licence that the validator refuses halts the platform; a
  cascade is a tree of the graph that nearer than the hop limit misses nothing above the threshold, its value at
  risk adds up and stays within the volume of the payments, and a plan against it is within its budget and
  leaves nobody affordable unprotected; released telemetry is noise on the numbers of enough banks, with draws
  of its own, within the privacy budget of each cycle; the holds that the instant rails report become block
  codes; recall alerts, retry, stress and rate-limit answers are those of the full history although old entries
  are dropped. Error behaviour is shown as it is, also where the code does not do what its comments say: such
  theorems say so, and the manifest lists them as findings.

  \<^bold>\<open>Bounds and loops.\<close>  No definition needs fuel.  The search for a business day ends because the source stops it
  after 365 days, which \<open>maturity_date_exists\<close> shows is never reached for a maturity window; the searches \<open>bfs\<close>
  and \<open>descend\<close> end because each step visits a new target or shortens the queue; \<open>string\<close> loops are structural.
  The dependency of a corporate edge is rounded at 28 digits for each payment; up to ten to the twentieth payments this
  does not show in its six decimals.  Example servers, pipelines and agents occur only in the examples.

  \<^bold>\<open>Not modelled.\<close>  The statistical models (C1, C2, C9, the anomaly detector, federated learning), which the decisions
  only see through the numbers they return; the dispute classifier, which is text heuristics around a language
  model; transport (HTTP, Kafka, Flink), storage drivers, metrics and logging; Go and Rust services, of which the
  interface to the Go router is a parameter; training, data generation, scripts and
  company-governance tooling; the feature
  vectors and the betweenness centrality of the payment graphs, which need logarithms, roots and the order of a set;
  latencies and background threads, which call the modelled operations on a timer.
\<close>

end
